(* ===== verification/Prelude.thy ===== *)
theory Prelude
  imports Main "HOL-Library.Signed_Division"
begin

text \<open>
  What every component of the development shares.

  \<^item> Errors. A Go function returning \<open>(T, error)\<close> is a HOL function into
    \<open>go_error + 'a\<close>: \<open>Inl\<close> is the error return, \<open>Inr\<close> the value. The
    constructors keep the format string of \<open>fmt.Errorf\<close>, the package sentinels
    (\<open>errors.New\<close>), wrapping with \<open>%w\<close> and \<open>errors.Join\<close>.
  \<^item> Integers. Go's \<open>int\<close> and \<open>int64\<close> are HOL integers; every place where the code adds,
    subtracts, multiplies or negates them natively is wrapped by \<open>wrap64\<close>, and the
    places where the code goes through \<open>math/big\<close> are not. Go's \<open>/\<close> and \<open>%\<close>
    truncate towards zero: \<open>sdiv\<close> and \<open>smod\<close>.
  \<^item> Strings. A Go string is its list of bytes, \<open>string\<close>. \<open>TrimSpace\<close> strips the UTF-8
    encodings of the code points \<open>unicode.IsSpace\<close> accepts; \<open>ToUpper\<close> and
    \<open>ToLower\<close> map the ASCII letters (the policies and symbols are ASCII).
  \<^item> Time. A \<open>time.Time\<close> is the number of nanoseconds since Go's zero time, so that
    \<open>IsZero\<close> is \<open>t = 0\<close>; \<open>Sub\<close> saturates like \<open>time.Duration\<close>.
\<close>

named_theorems int64_simps \<open>arithmetic of native 64-bit integers\<close>
named_theorems res_elims \<open>inversion of a successful or failed computation\<close>


section \<open>Errors as values\<close>

datatype go_error =
    Errorf string "string list"
  | Sentinel string
  | Wrapf go_error string
  | Joined go_error go_error

type_synonym 'a result = "go_error + 'a"

fun errors_is :: "go_error \<Rightarrow> go_error \<Rightarrow> bool" where
  "errors_is e target \<longleftrightarrow> e = target \<or> (case e of Wrapf c _ \<Rightarrow> errors_is c target
     | Joined a b \<Rightarrow> errors_is a target \<or> errors_is b target | _ \<Rightarrow> False)"

declare errors_is.simps [simp del]

lemma errors_is_refl [simp]: "errors_is e e"
  by (subst errors_is.simps) simp

lemma errors_is_Wrapf [simp]: "errors_is (Wrapf c m) t \<longleftrightarrow> Wrapf c m = t \<or> errors_is c t"
  by (subst errors_is.simps) simp

lemma errors_is_Joined [simp]: "errors_is (Joined a b) t \<longleftrightarrow> Joined a b = t \<or> errors_is a t \<or> errors_is b t"
  by (subst errors_is.simps) simp

lemma errors_is_Errorf [simp]: "errors_is (Errorf m a) t \<longleftrightarrow> Errorf m a = t"
  by (subst errors_is.simps) simp

lemma errors_is_Sentinel [simp]: "errors_is (Sentinel m) t \<longleftrightarrow> Sentinel m = t"
  by (subst errors_is.simps) simp

definition is_ok :: "'a result \<Rightarrow> bool" where
  "is_ok r \<longleftrightarrow> (case r of Inl _ \<Rightarrow> False | Inr _ \<Rightarrow> True)"

lemma is_ok_simps [simp]: "is_ok (Inr x)" "\<not> is_ok (Inl e)"
  by (simp_all add: is_ok_def)

lemma is_ok_iff: "is_ok r \<longleftrightarrow> (\<exists>x. r = Inr x)"
  by (cases r) simp_all

lemma case_sum_Inr_iff [res_elims]:
  "(case r of Inl e \<Rightarrow> Inl (g e) | Inr x \<Rightarrow> f x) = Inr y \<longleftrightarrow> (\<exists>x. r = Inr x \<and> f x = Inr y)"
  by (cases r) auto

lemma if_Inl_eq_Inr: "(if b then Inl e else r) = Inr x \<longleftrightarrow> \<not> b \<and> r = Inr x"
  by simp

text \<open>The loops over slices that stop at the first error.\<close>

fun fold_res :: "('a \<Rightarrow> 'b \<Rightarrow> 'b result) \<Rightarrow> 'a list \<Rightarrow> 'b \<Rightarrow> 'b result" where
  "fold_res f [] s = Inr s"
| "fold_res f (x # xs) s = (case f x s of Inl e \<Rightarrow> Inl e | Inr t \<Rightarrow> fold_res f xs t)"

lemma fold_res_invariant:
  assumes step: "\<And>x s t. x \<in> set xs \<Longrightarrow> P s \<Longrightarrow> f x s = Inr t \<Longrightarrow> P t"
    and init: "P s" and run: "fold_res f xs s = Inr t"
  shows "P t"
  using assms
proof (induction xs arbitrary: s)
  case Nil
  then show ?case by simp
next
  case (Cons x xs)
  from Cons.prems(3) obtain u where u: "f x s = Inr u" and rest: "fold_res f xs u = Inr t"
    by (auto simp: case_sum_Inr_iff)
  have "P u" using Cons.prems(1)[OF _ Cons.prems(2) u] by simp
  then show ?case
    using Cons.IH[of u] Cons.prems(1) rest by auto
qed

lemma fold_res_append:
  "fold_res f (xs @ ys) s =
     (case fold_res f xs s of Inl e \<Rightarrow> Inl e | Inr t \<Rightarrow> fold_res f ys t)"
  by (induction xs arbitrary: s) (auto split: sum.splits)


section \<open>Native 64-bit integers\<close>

type_synonym int64 = int

definition in_int64 :: "int \<Rightarrow> bool" where
  "in_int64 x \<longleftrightarrow> - (2 ^ 63) \<le> x \<and> x < 2 ^ 63"

definition wrap64 :: "int \<Rightarrow> int64" where
  "wrap64 x = (x + 2 ^ 63) mod 2 ^ 64 - 2 ^ 63"

definition min_int64 :: int64 where
  "min_int64 = - (2 ^ 63)"

lemma wrap64_in_int64 [simp, int64_simps]: "in_int64 (wrap64 x)"
proof -
  have "0 \<le> (x + 2 ^ 63) mod 2 ^ 64" and "(x + 2 ^ 63) mod 2 ^ 64 < (2 ^ 64 :: int)"
    by simp_all
  then show ?thesis unfolding in_int64_def wrap64_def by simp
qed

lemma wrap64_id [int64_simps]: "in_int64 x \<Longrightarrow> wrap64 x = x"
  by (simp add: in_int64_def wrap64_def)

lemma wrap64_eq_iff: "wrap64 x = x \<longleftrightarrow> in_int64 x"
  by (metis wrap64_id wrap64_in_int64)

lemma in_int64_between [int64_simps]:
  "in_int64 a \<Longrightarrow> in_int64 b \<Longrightarrow> a \<le> x \<Longrightarrow> x \<le> b \<Longrightarrow> in_int64 x"
  by (simp add: in_int64_def)

lemma in_int64_nonneg: "0 \<le> x \<Longrightarrow> in_int64 x \<longleftrightarrow> x < 2 ^ 63"
  by (simp add: in_int64_def)

lemma in_int64_0 [simp]: "in_int64 0" and in_int64_1 [simp]: "in_int64 1"
  by (simp_all add: in_int64_def)

lemma wrap64_sub_nonneg [int64_simps]:
  "in_int64 a \<Longrightarrow> in_int64 b \<Longrightarrow> 0 \<le> a \<Longrightarrow> 0 \<le> b \<Longrightarrow> wrap64 (a - b) = a - b"
  by (rule wrap64_id) (simp add: in_int64_def)

lemma wrap64_uminus [int64_simps]:
  "in_int64 a \<Longrightarrow> a \<noteq> min_int64 \<Longrightarrow> wrap64 (- a) = - a"
  by (rule wrap64_id) (simp add: in_int64_def min_int64_def)

text \<open>Truncated division agrees with \<open>div\<close> and \<open>mod\<close> on the non-negative side.\<close>

lemma smod_nonneg [simp]: "0 \<le> (a::int) \<Longrightarrow> 0 < b \<Longrightarrow> a smod b = a mod b"
  by (cases "a = 0") (simp_all add: signed_modulo_int_def)

lemma sdiv_nonneg [simp]: "0 \<le> (a::int) \<Longrightarrow> 0 < b \<Longrightarrow> a sdiv b = a div b"
  by (cases "a = 0") (simp_all add: signed_divide_int_def)


section \<open>Time\<close>

type_synonym time = int

definition max_duration :: int where
  "max_duration = 2 ^ 63 - 1"

definition second_ns :: int where
  "second_ns = 1000000000"

definition time_sub :: "time \<Rightarrow> time \<Rightarrow> int64" where
  "time_sub t u = max min_int64 (min max_duration (t - u))"

lemma time_sub_exact: "in_int64 (t - u) \<Longrightarrow> time_sub t u = t - u"
  by (simp add: time_sub_def in_int64_def min_int64_def max_duration_def)


section \<open>Byte strings\<close>

abbreviation byte :: "char \<Rightarrow> nat" where
  "byte \<equiv> of_char"

text \<open>UTF-8 encodings of the white space of \<open>unicode.IsSpace\<close>.\<close>

definition space_seqs :: "nat list list" where
  "space_seqs = [[9], [10], [11], [12], [13], [32], [0xC2, 0x85], [0xC2, 0xA0], [0xE1, 0x9A, 0x80],
     [0xE2, 0x80, 0x80], [0xE2, 0x80, 0x81], [0xE2, 0x80, 0x82], [0xE2, 0x80, 0x83],
     [0xE2, 0x80, 0x84], [0xE2, 0x80, 0x85], [0xE2, 0x80, 0x86], [0xE2, 0x80, 0x87],
     [0xE2, 0x80, 0x88], [0xE2, 0x80, 0x89], [0xE2, 0x80, 0x8A], [0xE2, 0x80, 0xA8],
     [0xE2, 0x80, 0xA9], [0xE2, 0x80, 0xAF], [0xE2, 0x81, 0x9F], [0xE3, 0x80, 0x80]]"

definition has_prefix :: "nat list \<Rightarrow> string \<Rightarrow> bool" where
  "has_prefix p s \<longleftrightarrow> take (length p) (map byte s) = p"

definition space_len :: "string \<Rightarrow> nat" where
  "space_len s = (case filter (\<lambda>p. has_prefix p s) space_seqs of [] \<Rightarrow> 0 | p # _ \<Rightarrow> length p)"

definition space_len_end :: "string \<Rightarrow> nat" where
  "space_len_end s =
     (case filter (\<lambda>p. has_prefix (rev p) (rev s)) space_seqs of [] \<Rightarrow> 0 | p # _ \<Rightarrow> length p)"

function trim_left :: "string \<Rightarrow> string" where
  "trim_left s = (if s = [] \<or> space_len s = 0 then s else trim_left (drop (space_len s) s))"
  by pat_completeness auto
termination
  by (relation "measure length") auto

function trim_right :: "string \<Rightarrow> string" where
  "trim_right s =
     (if s = [] \<or> space_len_end s = 0 then s
      else trim_right (take (length s - space_len_end s) s))"
  by pat_completeness auto
termination
  by (relation "measure length") auto

declare trim_left.simps [simp del] trim_right.simps [simp del]

definition trim_space :: "string \<Rightarrow> string" where
  "trim_space s = trim_right (trim_left s)"

definition ascii_upper :: "char \<Rightarrow> char" where
  "ascii_upper c = (if 97 \<le> byte c \<and> byte c \<le> 122 then char_of (byte c - 32) else c)"

definition ascii_lower :: "char \<Rightarrow> char" where
  "ascii_lower c = (if 65 \<le> byte c \<and> byte c \<le> 90 then char_of (byte c + 32) else c)"

definition to_upper :: "string \<Rightarrow> string" where
  "to_upper s = map ascii_upper s"

definition to_lower :: "string \<Rightarrow> string" where
  "to_lower s = map ascii_lower s"

definition ascii_graph :: "char \<Rightarrow> bool" where
  "ascii_graph c \<longleftrightarrow> 33 \<le> byte c \<and> byte c < 127"

lemma trim_left_stop: "space_len s = 0 \<Longrightarrow> trim_left s = s"
  by (subst trim_left.simps) simp

lemma trim_right_stop: "space_len_end s = 0 \<Longrightarrow> trim_right s = s"
  by (subst trim_right.simps) simp

lemma trim_left_Nil [simp]: "trim_left [] = []" and trim_right_Nil [simp]: "trim_right [] = []"
  by (subst trim_left.simps trim_right.simps; simp)+

lemma trim_space_Nil [simp]: "trim_space [] = []"
  by (simp add: trim_space_def)

lemma space_len_graph: "s \<noteq> [] \<Longrightarrow> ascii_graph (hd s) \<Longrightarrow> space_len s = 0"
  by (cases s) (auto simp: space_len_def space_seqs_def has_prefix_def ascii_graph_def)

lemma space_len_end_graph: "s \<noteq> [] \<Longrightarrow> ascii_graph (last s) \<Longrightarrow> space_len_end s = 0"
  by (cases s rule: rev_cases)
    (auto simp: space_len_end_def space_seqs_def has_prefix_def ascii_graph_def)

text \<open>A string whose two ends are visible ASCII bytes has nothing to trim.\<close>

lemma trim_space_id:
  assumes "s \<noteq> []" "ascii_graph (hd s)" "ascii_graph (last s)"
  shows "trim_space s = s"
  using assms by (simp add: trim_space_def trim_left_stop trim_right_stop
      space_len_graph space_len_end_graph)

lemma trim_left_fix: "space_len (trim_left s) = 0 \<or> trim_left s = []"
proof (induction s rule: trim_left.induct)
  case (1 s)
  then show ?case by (cases "s = [] \<or> space_len s = 0") (auto simp: trim_left.simps [of s])
qed

lemma trim_right_fix: "space_len_end (trim_right s) = 0 \<or> trim_right s = []"
proof (induction s rule: trim_right.induct)
  case (1 s)
  then show ?case by (cases "s = [] \<or> space_len_end s = 0") (auto simp: trim_right.simps [of s])
qed

lemma trim_right_prefix: "\<exists>n. trim_right s = take n s"
proof (induction s rule: trim_right.induct)
  case (1 s)
  show ?case
  proof (cases "s = [] \<or> space_len_end s = 0")
    case True
    then show ?thesis by (intro exI[of _ "length s"]) (auto simp: trim_right.simps [of s])
  next
    case False
    with "1.IH" obtain n where "trim_right (take (length s - space_len_end s) s)
      = take n (take (length s - space_len_end s) s)" by blast
    with False show ?thesis
      by (intro exI[of _ "min n (length s - space_len_end s)"]) (simp add: trim_right.simps [of s])
  qed
qed

text \<open>Trimming twice is trimming once, also when the letters have changed case in between: white space
  has no ASCII letter in it.\<close>

lemma has_prefix_take: "has_prefix p (take n s) \<Longrightarrow> has_prefix p s"
  by (auto simp: has_prefix_def take_map min_def split: if_splits)

lemma case_filter_length_0:
  "list_all (\<lambda>p. p \<noteq> []) xs \<Longrightarrow>
     (case filter P xs of [] \<Rightarrow> 0 | p # _ \<Rightarrow> length p) = 0 \<longleftrightarrow> list_all (\<lambda>p. \<not> P p) xs"
  by (induction xs) auto

lemma space_len_0_iff: "space_len s = 0 \<longleftrightarrow> list_all (\<lambda>p. \<not> has_prefix p s) space_seqs"
  unfolding space_len_def by (rule case_filter_length_0) (simp add: space_seqs_def)

lemma space_len_end_0_iff:
  "space_len_end s = 0 \<longleftrightarrow> list_all (\<lambda>p. \<not> has_prefix (rev p) (rev s)) space_seqs"
  unfolding space_len_end_def by (rule case_filter_length_0) (simp add: space_seqs_def)

lemma space_len_take: "space_len s = 0 \<Longrightarrow> space_len (take n s) = 0"
  by (auto simp: space_len_0_iff list_all_iff dest: has_prefix_take)

definition trimmed :: "string \<Rightarrow> bool" where
  "trimmed s \<longleftrightarrow> s = [] \<or> space_len s = 0 \<and> space_len_end s = 0"

lemma trim_space_trimmed: "trimmed s \<Longrightarrow> trim_space s = s"
  by (auto simp: trimmed_def trim_space_def trim_left_stop trim_right_stop)

lemma trimmed_trim_space [simp]: "trimmed (trim_space s)"
proof -
  obtain n where n: "trim_space s = take n (trim_left s)"
    using trim_right_prefix[of "trim_left s"] by (auto simp: trim_space_def)
  have "space_len (trim_space s) = 0 \<or> trim_space s = []"
    using trim_left_fix[of s] by (auto simp: n space_len_take)
  moreover have "space_len_end (trim_space s) = 0 \<or> trim_space s = []"
    using trim_right_fix[of "trim_left s"] by (simp add: trim_space_def)
  ultimately show ?thesis by (auto simp: trimmed_def)
qed

lemma trim_space_idem [simp]: "trim_space (trim_space s) = trim_space s"
  by (rule trim_space_trimmed) simp

definition space_byte :: "nat \<Rightarrow> bool" where
  "space_byte b \<longleftrightarrow> b < 65 \<or> 122 < b"

lemma space_seqs_bytes: "p \<in> set space_seqs \<Longrightarrow> b \<in> set p \<Longrightarrow> space_byte b"
  by (auto simp: space_seqs_def space_byte_def)

lemma byte_ascii_upper: "space_byte b \<Longrightarrow> byte (ascii_upper c) = b \<longleftrightarrow> byte c = b"
  by (auto simp: ascii_upper_def space_byte_def)

lemma byte_ascii_lower: "space_byte b \<Longrightarrow> byte (ascii_lower c) = b \<longleftrightarrow> byte c = b"
  by (auto simp: ascii_lower_def space_byte_def)

lemma has_prefix_map:
  assumes "\<And>c b. b \<in> set p \<Longrightarrow> byte (f c) = b \<longleftrightarrow> byte c = b"
  shows "has_prefix p (map f s) \<longleftrightarrow> has_prefix p s"
  using assms
proof (induction p arbitrary: s)
  case (Cons b p)
  then show ?case by (cases s) (auto simp: has_prefix_def)
qed (simp add: has_prefix_def)

lemma trimmed_map:
  assumes "\<And>c b. space_byte b \<Longrightarrow> byte (f c) = b \<longleftrightarrow> byte c = b"
  shows "trimmed (map f s) \<longleftrightarrow> trimmed s"
proof -
  have "has_prefix p (map f t) \<longleftrightarrow> has_prefix p t"
    if "set p \<subseteq> Collect space_byte" for p t
    by (rule has_prefix_map) (use that assms in blast)
  moreover have "set p \<subseteq> Collect space_byte" "set (rev p) \<subseteq> Collect space_byte"
    if "p \<in> set space_seqs" for p
    using space_seqs_bytes[OF that] by auto
  ultimately show ?thesis
    by (simp add: trimmed_def space_len_0_iff space_len_end_0_iff list_all_iff rev_map
        cong: ball_cong_simp)
qed

lemma trimmed_to_upper [simp]: "trimmed (to_upper s) \<longleftrightarrow> trimmed s"
  unfolding to_upper_def by (rule trimmed_map) (rule byte_ascii_upper)

lemma trimmed_to_lower [simp]: "trimmed (to_lower s) \<longleftrightarrow> trimmed s"
  unfolding to_lower_def by (rule trimmed_map) (rule byte_ascii_lower)

lemma ascii_upper_idem [simp]: "ascii_upper (ascii_upper c) = ascii_upper c"
proof (cases "97 \<le> byte c \<and> byte c \<le> 122")
  case True
  then have "(byte c - 32) mod 256 = byte c - 32" by (intro mod_less) linarith
  with True show ?thesis by (auto simp: ascii_upper_def)
qed (auto simp: ascii_upper_def)

lemma ascii_lower_idem [simp]: "ascii_lower (ascii_lower c) = ascii_lower c"
proof (cases "65 \<le> byte c \<and> byte c \<le> 90")
  case True
  then have "(byte c + 32) mod 256 = byte c + 32" by (intro mod_less) linarith
  with True show ?thesis by (auto simp: ascii_lower_def)
qed (auto simp: ascii_lower_def)

lemma to_upper_idem [simp]: "to_upper (to_upper s) = to_upper s"
  by (simp add: to_upper_def)

lemma to_lower_idem [simp]: "to_lower (to_lower s) = to_lower s"
  by (simp add: to_lower_def)

lemma le_div_iff:
  assumes "0 < (k::int)"
  shows "x \<le> y div k \<longleftrightarrow> x * k \<le> y"
proof
  assume "x \<le> y div k"
  then have "x * k \<le> y div k * k" using assms by (simp add: mult_right_mono)
  also have "\<dots> \<le> y" using assms pos_mod_sign[of k y] by (simp add: minus_mod_eq_div_mult [symmetric])
  finally show "x * k \<le> y" .
next
  assume "x * k \<le> y"
  then have "x * k div k \<le> y div k" using assms by (rule zdiv_mono1)
  then show "x \<le> y div k" using assms by simp
qed

lemma share_div_bounds:
  assumes "0 < (k::int)" "0 \<le> p" "p \<le> k" "0 \<le> x"
  shows "0 \<le> x * p div k" "x * p div k \<le> x"
proof -
  show "0 \<le> x * p div k" using assms by (simp add: pos_imp_zdiv_nonneg_iff)
  have "x * p \<le> x * k" using assms by (simp add: mult_left_mono)
  then show "x * p div k \<le> x" using assms(1) zdiv_mono1[of "x * p" "x * k" k] by simp
qed

section \<open>Chains of guards\<close>

text \<open>The \<open>if cond { return err }\<close> chains of the validators: the first guard that holds gives the error,
  and the rest of the function runs when none does.\<close>

fun guarded :: "(bool \<times> go_error) list \<Rightarrow> 'a result \<Rightarrow> 'a result" where
  "guarded [] k = k"
| "guarded ((c, e) # gs) k = (if c then Inl e else guarded gs k)"

lemma guarded_ok [simp, res_elims]:
  "guarded gs k = Inr x \<longleftrightarrow> list_all (\<lambda>g. \<not> fst g) gs \<and> k = Inr x"
  by (induction gs k rule: guarded.induct) auto

lemma guarded_append: "guarded (gs @ hs) k = guarded gs (guarded hs k)"
  by (induction gs k rule: guarded.induct) auto

declare guarded.simps [simp del]

lemma guarded_Nil [simp]: "guarded [] k = k"
  by (simp add: guarded.simps)

lemma guarded_is_ok: "is_ok (guarded gs k) \<longleftrightarrow> list_all (\<lambda>g. \<not> fst g) gs \<and> is_ok k"
  by (induction gs k rule: guarded.induct) (auto simp: guarded.simps)

end
