(* ===== verification/Units.thy ===== *)
theory Units
  imports Prelude
begin

text \<open>
  \<^verbatim>\<open>kernel/internal/units/units.go\<close>: the exact fixed-point types of the money path.
  \<open>Micros\<close>, \<open>Qty\<close>, \<open>PercentMicros\<close> and \<open>RatioMicros\<close> are all \<open>int64\<close> counts of
  one millionth; the arithmetic goes through \<open>math/big\<close> and reports an overflow instead of
  wrapping, so it is exact integer arithmetic followed by the \<open>IsInt64\<close> test.

  The parser is characterised completely (\<open>parseScaled_iff\<close>: exactly which texts it accepts
  and with which value), from which the print/parse round trip follows. The rounding
  operations come with the inequalities that pin their results.
\<close>

type_synonym micros = int64
type_synonym qty = int64
type_synonym percent_micros = int64
type_synonym ratio_micros = int64

definition Scale :: int64 where
  "Scale = 1000000"

lemma Scale_pos [simp]: "0 < Scale" "Scale \<noteq> 0"
  by (simp_all add: Scale_def)


section \<open>Decimal text\<close>

subsection \<open>The library's digits: \<open>big.Int\<close> text, \<open>strings.Split\<close>, \<open>%06d\<close>\<close>

definition digit_char :: "nat \<Rightarrow> char" where
  "digit_char d = char_of (48 + d)"

definition is_digit :: "char \<Rightarrow> bool" where
  "is_digit c \<longleftrightarrow> 48 \<le> byte c \<and> byte c \<le> 57"

definition dec_value :: "string \<Rightarrow> nat" where
  "dec_value s = foldl (\<lambda>a c. a * 10 + (byte c - 48)) 0 s"

fun dec_string :: "nat \<Rightarrow> string" where
  "dec_string n =
     (if n < 10 then [digit_char n] else dec_string (n div 10) @ [digit_char (n mod 10)])"

declare dec_string.simps [simp del]

definition big_string :: "int \<Rightarrow> string" where
  "big_string n = (if n < 0 then ''-'' @ dec_string (nat (- n)) else dec_string (nat n))"

definition big_set_string :: "string \<Rightarrow> int option" where
  "big_set_string s =
     (let (neg, ds) = (case s of c # cs \<Rightarrow> if c = CHR ''-'' then (True, cs)
                                  else if c = CHR ''+'' then (False, cs) else (False, s)
                       | [] \<Rightarrow> (False, s))
      in if ds \<noteq> [] \<and> list_all is_digit ds
         then Some (if neg then - int (dec_value ds) else int (dec_value ds)) else None)"

fun split_on :: "char \<Rightarrow> string \<Rightarrow> string list" where
  "split_on c [] = [[]]"
| "split_on c (x # xs) =
     (if x = c then [] # split_on c xs
      else (case split_on c xs of [] \<Rightarrow> [[x]] | p # ps \<Rightarrow> (x # p) # ps))"

definition pad_zeros :: "nat \<Rightarrow> string \<Rightarrow> string" where
  "pad_zeros w s = replicate (w - length s) (CHR ''0'') @ s"

definition trim_right_zeros :: "string \<Rightarrow> string" where
  "trim_right_zeros s = rev (dropWhile (\<lambda>c. c = CHR ''0'') (rev s))"


subsection \<open>Parsing and printing\<close>

definition decimalTokenJSON :: "(string \<Rightarrow> string option) \<Rightarrow> string \<Rightarrow> string result" where
  "decimalTokenJSON unquote data =
     (case data of
        [] \<Rightarrow> Inl (Errorf ''empty decimal'' [])
      | c # _ \<Rightarrow>
          if c = CHR 0x22
          then (case unquote data of None \<Rightarrow> Inl (Errorf ''invalid decimal string'' [])
                | Some v \<Rightarrow> Inr v)
          else Inr data)"

definition parse_parts :: "bool \<Rightarrow> string list \<Rightarrow> int64 result" where
  "parse_parts negative parts =
     (if length parts > 2 \<or> hd parts = [] then Inl (Errorf ''invalid decimal'' [])
      else if length parts = 2 \<and> (parts ! 1 = [] \<or> length (parts ! 1) > 6)
      then Inl (Errorf ''decimal must have at most 6 fractional digits'' [])
      else if \<not> list_all (list_all is_digit) parts then Inl (Errorf ''invalid decimal'' [])
      else (case big_set_string (hd parts) of
              None \<Rightarrow> Inl (Errorf ''invalid decimal'' [])
            | Some whole \<Rightarrow>
                (case (if length parts = 2
                       then (case big_set_string
                                    (parts ! 1 @ replicate (6 - length (parts ! 1)) (CHR ''0'')) of
                               None \<Rightarrow> Inl (Errorf ''invalid decimal'' [])
                             | Some fraction \<Rightarrow> Inr (whole * Scale + fraction))
                       else Inr (whole * Scale)) of
                   Inl e \<Rightarrow> Inl e
                 | Inr scaled \<Rightarrow>
                     (let s = (if negative then - scaled else scaled)
                      in if in_int64 s then Inr s
                         else Inl (Errorf ''decimal is out of range'' [])))))"

definition parseScaled :: "string \<Rightarrow> int64 result" where
  "parseScaled value =
     (if value = [] \<or> trim_space value \<noteq> value then Inl (Errorf ''invalid decimal %q'' [value])
      else if CHR ''e'' \<in> set value \<or> CHR ''E'' \<in> set value
      then Inl (Errorf ''exponent form is not allowed'' [])
      else (let negative = (hd value = CHR ''-'');
                rest = (if hd value = CHR ''-'' \<or> hd value = CHR ''+'' then tl value else value)
            in if rest = [] then Inl (Errorf ''invalid decimal'' [])
               else parse_parts negative (split_on (CHR ''.'') rest)))"

definition formatScaled :: "int64 \<Rightarrow> string" where
  "formatScaled value =
     (let negative = value < 0;
          n = \<bar>value\<bar>;
          whole = n div Scale;
          fraction = n mod Scale;
          prefix = (if negative then ''-'' else '''')
      in if fraction = 0 then prefix @ big_string whole
         else prefix @ big_string whole @ ''.''
              @ trim_right_zeros (pad_zeros 6 (dec_string (nat fraction))))"

definition unmarshalJSONScaled :: "(string \<Rightarrow> string option) \<Rightarrow> string \<Rightarrow> int64 result" where
  "unmarshalJSONScaled unquote data =
     (case decimalTokenJSON unquote (trim_space data) of
        Inl e \<Rightarrow> Inl e
      | Inr value \<Rightarrow> parseScaled value)"

record yaml_node =
  yn_scalar :: bool
  yn_value :: string

definition unmarshalYAMLScaled :: "yaml_node \<Rightarrow> int64 result" where
  "unmarshalYAMLScaled node =
     (if \<not> yn_scalar node then Inl (Errorf ''decimal must be a scalar'' [])
      else parseScaled (yn_value node))"

definition marshalScaled :: "int64 \<Rightarrow> string" where
  "marshalScaled m = formatScaled m"

text \<open>\<open>MustMicros\<close> and its siblings panic on a bad literal; \<open>None\<close> is the panic.\<close>

definition must_scaled :: "string \<Rightarrow> int64 option" where
  "must_scaled value = (case parseScaled value of Inl _ \<Rightarrow> None | Inr v \<Rightarrow> Some v)"


section \<open>Exact arithmetic\<close>

definition MulQtyPrice :: "qty \<Rightarrow> micros \<Rightarrow> int64 \<Rightarrow> bool \<Rightarrow> micros result" where
  "MulQtyPrice q price multiplier roundUp =
     (if q < 0 \<or> price < 0 \<or> multiplier \<le> 0
      then Inl (Errorf ''quantity, price, and multiplier must be positive'' [])
      else (let numerator = q * price * multiplier;
                quotient = numerator sdiv Scale;
                remainder = numerator smod Scale;
                r = (if roundUp \<and> remainder \<noteq> 0 then quotient + 1 else quotient)
            in if in_int64 r then Inr r
               else Inl (Errorf ''money calculation overflows int64'' [])))"

definition Add :: "micros \<Rightarrow> micros \<Rightarrow> micros result" where
  "Add a b = (if in_int64 (a + b) then Inr (a + b)
              else Inl (Errorf ''money addition overflows int64'' []))"

definition AddQty :: "qty \<Rightarrow> qty \<Rightarrow> qty result" where
  "AddQty a b = (if in_int64 (a + b) then Inr (a + b)
                 else Inl (Errorf ''quantity addition overflows int64'' []))"

definition PercentFloor :: "micros \<Rightarrow> percent_micros \<Rightarrow> micros result" where
  "PercentFloor amount percent =
     (if amount < 0 \<or> percent < 0 then Inl (Errorf ''percent input must be non-negative'' [])
      else (let r = (amount * percent) sdiv (100 * Scale)
            in if in_int64 r then Inr r
               else Inl (Errorf ''percentage calculation overflows int64'' [])))"

definition SumLessOrEqual :: "micros \<Rightarrow> micros \<Rightarrow> micros \<Rightarrow> bool" where
  "SumLessOrEqual a b limit \<longleftrightarrow> a + b \<le> limit"

definition DifferenceExceeds :: "micros \<Rightarrow> micros \<Rightarrow> micros \<Rightarrow> bool" where
  "DifferenceExceeds a b tolerance \<longleftrightarrow> \<bar>a - b\<bar> > tolerance"

definition SpreadWithin :: "micros \<Rightarrow> micros \<Rightarrow> ratio_micros \<Rightarrow> bool" where
  "SpreadWithin bid ask maximum \<longleftrightarrow>
     (if bid \<le> 0 \<or> ask \<le> bid \<or> maximum < 0 then False
      else (ask - bid) * (2 * Scale) \<le> (ask + bid) * maximum)"

definition AbsQty :: "qty \<Rightarrow> qty result" where
  "AbsQty q = (if q = min_int64 then Inl (Errorf ''quantity magnitude overflows int64'' [])
               else if q < 0 then Inr (wrap64 (- q))
               else Inr q)"

section \<open>Facts about digits\<close>

lemma byte_digit_char [simp]: "d < 10 \<Longrightarrow> byte (digit_char d) = 48 + d"
  by (simp add: digit_char_def of_char_of take_bit_eq_mod)

lemma is_digit_digit_char [simp]: "d < 10 \<Longrightarrow> is_digit (digit_char d)"
  by (simp add: is_digit_def)

lemma is_digit_zero [simp]: "is_digit (CHR ''0'')"
  by (simp add: is_digit_def)

lemma digits_zeros [simp]: "list_all is_digit (replicate n (CHR ''0''))"
  by (induction n) simp_all

lemma dec_value_snoc: "dec_value (s @ [c]) = dec_value s * 10 + (byte c - 48)"
  by (simp add: dec_value_def)

lemma dec_value_Nil [simp]: "dec_value [] = 0"
  by (simp add: dec_value_def)

lemma dec_value_append: "dec_value (s @ t) = dec_value s * 10 ^ length t + dec_value t"
proof (induction t rule: rev_induct)
  case Nil
  then show ?case by simp
next
  case (snoc c t)
  then show ?case
    by (simp only: append_assoc [symmetric] dec_value_snoc) (simp add: algebra_simps)
qed

lemma dec_value_zeros [simp]: "dec_value (replicate n (CHR ''0'')) = 0"
  by (induction n) (simp_all add: dec_value_def)

lemma dec_value_pad [simp]: "dec_value (pad_zeros w s) = dec_value s"
  by (simp add: pad_zeros_def dec_value_append)

lemma dec_value_less: "list_all is_digit s \<Longrightarrow> dec_value s < 10 ^ length s"
proof (induction s rule: rev_induct)
  case Nil
  then show ?case by simp
next
  case (snoc c s)
  then show ?case by (auto simp: dec_value_snoc is_digit_def)
qed

lemma dec_string_props:
  "dec_value (dec_string n) = n \<and> list_all is_digit (dec_string n) \<and> dec_string n \<noteq> []"
proof (induction n rule: dec_string.induct)
  case (1 n)
  show ?case
  proof (cases "n < 10")
    case True
    then show ?thesis by (simp add: dec_string.simps [of n] dec_value_def)
  next
    case False
    with 1 show ?thesis by (simp add: dec_string.simps [of n] dec_value_snoc)
  qed
qed

lemma dec_value_dec_string [simp]: "dec_value (dec_string n) = n"
  and digits_dec_string [simp]: "list_all is_digit (dec_string n)"
  and dec_string_not_Nil [simp]: "dec_string n \<noteq> []"
  using dec_string_props [of n] by simp_all

lemma length_dec_string: "n < 10 ^ k \<Longrightarrow> 0 < k \<Longrightarrow> length (dec_string n) \<le> k"
proof (induction n arbitrary: k rule: dec_string.induct)
  case (1 n)
  show ?case
  proof (cases "n < 10")
    case True
    with 1 show ?thesis by (simp add: dec_string.simps [of n])
  next
    case False
    then obtain j where k: "k = Suc j" "0 < j"
      using 1(2,3) by (cases k; cases "k - 1") auto
    have "n div 10 < 10 ^ j" using 1(2) k by (simp add: less_mult_imp_div_less mult.commute)
    with 1(1) False k have "length (dec_string (n div 10)) \<le> j" by blast
    with False k show ?thesis by (simp add: dec_string.simps [of n])
  qed
qed

lemma big_set_string_digits:
  assumes "s \<noteq> []" "list_all is_digit s"
  shows "big_set_string s = Some (int (dec_value s))"
proof -
  from assms obtain c cs where "s = c # cs" "is_digit c" by (cases s) auto
  then show ?thesis using assms by (auto simp: big_set_string_def is_digit_def)
qed

lemma trim_right_zeros_pad: "\<exists>k. s = trim_right_zeros s @ replicate k (CHR ''0'')"
proof (induction s rule: rev_induct)
  case Nil
  then show ?case by (simp add: trim_right_zeros_def)
next
  case (snoc c s)
  show ?case
  proof (cases "c = CHR ''0''")
    case True
    from snoc obtain k where "s = trim_right_zeros s @ replicate k (CHR ''0'')" by blast
    then have "s @ [c] = (trim_right_zeros s @ replicate k (CHR ''0'')) @ [c]" by (rule arg_cong)
    also have "\<dots> = trim_right_zeros (s @ [c]) @ replicate (Suc k) (CHR ''0'')"
      using True by (simp add: trim_right_zeros_def replicate_append_same)
    finally show ?thesis by blast
  next
    case False
    then show ?thesis by (intro exI[of _ 0]) (simp add: trim_right_zeros_def)
  qed
qed


lemma trim_right_zeros_digits: "list_all is_digit s \<Longrightarrow> list_all is_digit (trim_right_zeros s)"
  by (auto simp: trim_right_zeros_def list_all_iff dest: set_dropWhileD)


subsection \<open>Splitting at the decimal point\<close>

lemma split_on_not_Nil [simp]: "split_on c s \<noteq> []"
  by (induction s) (auto split: list.splits)

lemma split_on_none: "c \<notin> set s \<Longrightarrow> split_on c s = [s]"
  by (induction s) auto

lemma split_on_append: "c \<notin> set s \<Longrightarrow> split_on c (s @ c # t) = s # split_on c t"
  by (induction s) auto

lemma split_on_length1: "split_on c s = [p] \<Longrightarrow> s = p \<and> c \<notin> set s"
  by (induction s arbitrary: p) (auto split: if_splits list.splits)

lemma split_on_length2: "split_on c s = [p, q] \<Longrightarrow> s = p @ c # q \<and> c \<notin> set p"
proof (induction s arbitrary: p)
  case Nil
  then show ?case by simp
next
  case (Cons x xs)
  then show ?case
    by (auto split: if_splits list.splits dest: split_on_length1)
qed


section \<open>What the parser accepts\<close>

definition decimal_text :: "string \<Rightarrow> string \<Rightarrow> string \<Rightarrow> string" where
  "decimal_text sign whole frac = sign @ whole @ (if frac = [] then [] else ''.'' @ frac)"

definition decimal_value :: "string \<Rightarrow> string \<Rightarrow> string \<Rightarrow> int" where
  "decimal_value sign whole frac =
     (let m = int (dec_value whole) * Scale + int (dec_value frac * 10 ^ (6 - length frac))
      in if sign = ''-'' then - m else m)"

definition decimal_shape :: "string \<Rightarrow> string \<Rightarrow> string \<Rightarrow> bool" where
  "decimal_shape sign whole frac \<longleftrightarrow>
     sign \<in> {'''', ''+'', ''-''} \<and> whole \<noteq> [] \<and> list_all is_digit whole \<and>
     list_all is_digit frac \<and> length frac \<le> 6"

lemma digit_not_special:
  assumes "list_all is_digit s"
  shows "CHR ''.'' \<notin> set s" "CHR ''e'' \<notin> set s" "CHR ''E'' \<notin> set s"
    "CHR ''-'' \<notin> set s" "CHR ''+'' \<notin> set s"
  using assms by (induction s) (auto simp: is_digit_def)

lemma is_digit_graph: "is_digit c \<Longrightarrow> ascii_graph c"
  by (simp add: is_digit_def ascii_graph_def)

lemma parse_parts_one:
  assumes "w \<noteq> []" "list_all is_digit w"
  shows "parse_parts neg [w] =
    (let s = (if neg then - (int (dec_value w) * Scale) else int (dec_value w) * Scale)
     in if in_int64 s then Inr s else Inl (Errorf ''decimal is out of range'' []))"
  using assms by (simp add: parse_parts_def big_set_string_digits Let_def)

lemma parse_parts_two:
  assumes "w \<noteq> []" "list_all is_digit w" "f \<noteq> []" "length f \<le> 6" "list_all is_digit f"
  shows "parse_parts neg [w, f] =
    (let m = int (dec_value w) * Scale + int (dec_value f * 10 ^ (6 - length f));
         s = (if neg then - m else m)
     in if in_int64 s then Inr s else Inl (Errorf ''decimal is out of range'' []))"
proof -
  have pad: "big_set_string (f @ replicate (6 - length f) (CHR ''0''))
    = Some (int (dec_value f * 10 ^ (6 - length f)))"
    using assms by (subst big_set_string_digits) (auto simp: dec_value_append list_all_iff)
  show ?thesis using assms by (simp add: parse_parts_def big_set_string_digits pad Let_def)
qed

lemma parse_parts_Inr:
  assumes "parse_parts neg parts = Inr v" "parts \<noteq> []"
  shows "\<exists>w f. decimal_shape '''' w f \<and> parts = (if f = [] then [w] else [w, f])"
proof -
  have len: "length parts \<le> 2" and hd: "hd parts \<noteq> []" and dig: "list_all (list_all is_digit) parts"
    and two: "length parts = 2 \<Longrightarrow> parts ! 1 \<noteq> [] \<and> length (parts ! 1) \<le> 6"
    using assms by (auto simp: parse_parts_def split: if_splits)
  show ?thesis
  proof (cases parts)
    case Nil
    with assms show ?thesis by simp
  next
    case (Cons w ps)
    show ?thesis
    proof (cases ps)
      case Nil
      with Cons hd dig show ?thesis
        by (intro exI[of _ w] exI[of _ "[]"]) (simp add: decimal_shape_def)
    next
      case (Cons f qs)
      with \<open>parts = w # ps\<close> len hd dig two show ?thesis
        by (intro exI[of _ w] exI[of _ f]) (simp add: decimal_shape_def)
    qed
  qed
qed

lemma decimal_text_no_trim:
  assumes "decimal_shape sign whole frac"
  shows "trim_space (decimal_text sign whole frac) = decimal_text sign whole frac"
proof (rule trim_space_id)
  have w: "ascii_graph (hd whole)" "ascii_graph (last whole)"
    using assms by (auto simp: decimal_shape_def list_all_iff is_digit_graph)
  have f: "frac \<noteq> [] \<Longrightarrow> ascii_graph (last frac)"
    using assms by (auto simp: decimal_shape_def list_all_iff is_digit_graph)
  have nonempty: "whole \<noteq> []" using assms by (simp add: decimal_shape_def)
  then show "decimal_text sign whole frac \<noteq> []" by (simp add: decimal_text_def)
  show "ascii_graph (hd (decimal_text sign whole frac))"
    using assms w nonempty by (auto simp: decimal_shape_def decimal_text_def ascii_graph_def)
  show "ascii_graph (last (decimal_text sign whole frac))"
    using w f nonempty by (simp add: decimal_text_def)
qed

lemma split_decimal:
  assumes "decimal_shape sign whole frac"
  shows "split_on (CHR ''.'') (decimal_text [] whole frac)
    = (if frac = [] then [whole] else [whole, frac])"
  using assms by (auto simp: decimal_shape_def decimal_text_def split_on_none split_on_append
      digit_not_special)

lemma parseScaled_shape:
  assumes shape: "decimal_shape sign whole frac"
  shows "parseScaled (decimal_text sign whole frac) =
    (if in_int64 (decimal_value sign whole frac) then Inr (decimal_value sign whole frac)
     else Inl (Errorf ''decimal is out of range'' []))"
proof -
  let ?v = "decimal_text sign whole frac"
  let ?neg = "sign = ''-''"
  have w: "whole \<noteq> []" "list_all is_digit whole" and f: "list_all is_digit frac" "length frac \<le> 6"
    and sign: "sign \<in> {'''', ''+'', ''-''}"
    using shape by (auto simp: decimal_shape_def)
  have noexp: "CHR ''e'' \<notin> set ?v" "CHR ''E'' \<notin> set ?v"
    using sign w f by (auto simp: decimal_text_def dest: digit_not_special)
  have hd_whole: "hd whole \<noteq> CHR ''-''" "hd whole \<noteq> CHR ''+''"
    using w digit_not_special[OF w(2)] hd_in_set[OF w(1)] by metis+
  have neg: "(hd ?v = CHR ''-'') = ?neg"
    and rest: "(if hd ?v = CHR ''-'' \<or> hd ?v = CHR ''+'' then tl ?v else ?v) = decimal_text [] whole frac"
    using sign hd_whole w by (auto simp: decimal_text_def)
  have ne: "?v \<noteq> []" "decimal_text [] whole frac \<noteq> []" using w by (auto simp: decimal_text_def)
  have parts: "parse_parts ?neg (split_on (CHR ''.'') (decimal_text [] whole frac)) =
    (if in_int64 (decimal_value sign whole frac) then Inr (decimal_value sign whole frac)
     else Inl (Errorf ''decimal is out of range'' []))"
    using w f by (simp add: split_decimal[OF shape] parse_parts_one parse_parts_two decimal_value_def Let_def)
  show ?thesis
    unfolding parseScaled_def Let_def
    using decimal_text_no_trim[OF shape] noexp ne neg rest parts by simp
qed

lemma parseScaled_Inr_shape:
  assumes "parseScaled s = Inr v"
  shows "\<exists>sign whole frac. decimal_shape sign whole frac \<and> s = decimal_text sign whole frac"
proof -
  let ?rest = "if hd s = CHR ''-'' \<or> hd s = CHR ''+'' then tl s else s"
  let ?sign = "if hd s = CHR ''-'' then ''-'' else if hd s = CHR ''+'' then ''+'' else ''''"
  from assms have ne: "s \<noteq> []"
    and parse: "parse_parts (hd s = CHR ''-'') (split_on (CHR ''.'') ?rest) = Inr v"
    by (auto simp: parseScaled_def Let_def split: if_splits)
  from parse_parts_Inr[OF parse] obtain w f where shape: "decimal_shape '''' w f"
    and sp: "split_on (CHR ''.'') ?rest = (if f = [] then [w] else [w, f])" by auto
  have "?rest = decimal_text [] w f"
    using sp by (auto simp: decimal_text_def dest!: split_on_length1 split_on_length2 split: if_splits)
  moreover have "s = ?sign @ ?rest" using ne by (cases s) auto
  ultimately have "s = decimal_text ?sign w f" by (simp add: decimal_text_def)
  moreover have "decimal_shape ?sign w f" using shape by (simp add: decimal_shape_def)
  ultimately show ?thesis by blast
qed

text \<open>the decimal parser \<open>parseScaled\<close> accepts exactly the texts of an optional sign, at
  least one digit and at most six fractional digits (no exponent, no blanks, no bare point) whose
  scaled value fits in 64 bits, and the value it returns is the exact scaled decimal.\<close>

lemma parseScaled_iff:
  "parseScaled s = Inr v \<longleftrightarrow>
     (\<exists>sign whole frac. decimal_shape sign whole frac \<and> s = decimal_text sign whole frac \<and>
        v = decimal_value sign whole frac \<and> in_int64 v)"
proof
  assume *: "parseScaled s = Inr v"
  then obtain sign whole frac where d: "decimal_shape sign whole frac" "s = decimal_text sign whole frac"
    using parseScaled_Inr_shape by blast
  with * show "\<exists>sign whole frac. decimal_shape sign whole frac \<and> s = decimal_text sign whole frac \<and>
        v = decimal_value sign whole frac \<and> in_int64 v"
    by (auto simp: parseScaled_shape split: if_splits)
next
  assume "\<exists>sign whole frac. decimal_shape sign whole frac \<and> s = decimal_text sign whole frac \<and>
        v = decimal_value sign whole frac \<and> in_int64 v"
  then show "parseScaled s = Inr v" by (auto simp: parseScaled_shape)
qed


section \<open>Printing and parsing are inverse\<close>

lemma formatScaled_text:
  assumes "in_int64 v"
  shows "\<exists>sign whole frac. decimal_shape sign whole frac \<and> formatScaled v = decimal_text sign whole frac
    \<and> decimal_value sign whole frac = v"
proof -
  let ?n = "nat (\<bar>v\<bar> div Scale)" and ?f = "nat (\<bar>v\<bar> mod Scale)"
  let ?sign = "if v < 0 then ''-'' else ''''"
  have whole: "big_string (\<bar>v\<bar> div Scale) = dec_string ?n"
    by (simp add: big_string_def not_less pos_imp_zdiv_nonneg_iff)
  have nn: "int ?n = \<bar>v\<bar> div Scale" and ff: "int ?f = \<bar>v\<bar> mod Scale"
    by (simp_all add: pos_imp_zdiv_nonneg_iff)
  have small: "?f < 10 ^ 6" using pos_mod_bound[of Scale "\<bar>v\<bar>"] by (simp add: Scale_def nat_less_iff)
  have "length (dec_string ?f) \<le> 6" using length_dec_string[OF small] by simp
  then have len6: "length (pad_zeros 6 (dec_string ?f)) = 6" by (simp add: pad_zeros_def)
  obtain k where k: "pad_zeros 6 (dec_string ?f)
      = trim_right_zeros (pad_zeros 6 (dec_string ?f)) @ replicate k (CHR ''0'')"
    using trim_right_zeros_pad by blast
  obtain t where t: "t = (if ?f = 0 then [] else trim_right_zeros (pad_zeros 6 (dec_string ?f)))"
    by simp
  let ?t = t
  have lt: "length ?t \<le> 6" using arg_cong[OF k, of length] len6 t by simp
  have kk: "?f \<noteq> 0 \<Longrightarrow> k = 6 - length ?t" using arg_cong[OF k, of length] len6 t by simp
  have val: "dec_value ?t * 10 ^ (6 - length ?t) = ?f"
  proof (cases "?f = 0")
    case False
    then have "?f = dec_value (?t @ replicate k (CHR ''0''))"
      using arg_cong[OF k, of dec_value] t by simp
    with False kk show ?thesis by (simp add: dec_value_append)
  qed (simp add: t)
  have dig: "list_all is_digit ?t"
  proof (cases "?f = 0")
    case False
    have "list_all is_digit (pad_zeros 6 (dec_string ?f))" by (simp add: pad_zeros_def)
    then show ?thesis using False t by (simp add: trim_right_zeros_digits)
  qed (simp add: t)
  have nonempty: "?t = [] \<Longrightarrow> \<bar>v\<bar> mod Scale = 0"
  proof -
    assume "t = []"
    then have "?f = 0" using val by simp
    then show "\<bar>v\<bar> mod Scale = 0" using ff by linarith
  qed
  have "decimal_shape ?sign (dec_string ?n) ?t" using dig lt by (simp add: decimal_shape_def)
  moreover have "formatScaled v = decimal_text ?sign (dec_string ?n) ?t"
    using nonempty ff whole t by (auto simp: formatScaled_def decimal_text_def Let_def)
  moreover have "decimal_value ?sign (dec_string ?n) ?t = v"
  proof -
    have "int ?n * Scale + int ?f = \<bar>v\<bar>" using nn ff by (simp add: div_mult_mod_eq)
    then show ?thesis using val by (simp add: decimal_value_def Let_def)
  qed
  ultimately show ?thesis by blast
qed

text \<open>every 64-bit fixed-point amount survives printing and parsing: \<open>MarshalJSON\<close> (the
  decimal text of \<open>String\<close>) followed by \<open>UnmarshalJSON\<close> or \<open>UnmarshalYAML\<close> returns the
  same amount, whatever the JSON string unquoter does, because the text is never quoted.\<close>

lemma decimal_round_trip:
  assumes "in_int64 v"
  shows "unmarshalJSONScaled unquote (marshalScaled v) = Inr v \<and>
         unmarshalYAMLScaled \<lparr>yn_scalar = True, yn_value = marshalScaled v\<rparr> = Inr v"
proof -
  obtain sign whole frac where d: "decimal_shape sign whole frac"
    "formatScaled v = decimal_text sign whole frac" "decimal_value sign whole frac = v"
    using formatScaled_text[OF assms] by blast
  have parse: "parseScaled (formatScaled v) = Inr v" using d assms by (simp add: parseScaled_shape)
  have trim: "trim_space (formatScaled v) = formatScaled v" using d decimal_text_no_trim by simp
  obtain d ds where whole: "whole = d # ds" "is_digit d"
    using d by (cases whole) (auto simp: decimal_shape_def)
  obtain c cs where c: "formatScaled v = c # cs" "c \<noteq> CHR 0x22"
  proof -
    have "d \<noteq> CHR 0x22" using whole(2) by (auto simp: is_digit_def)
    then show thesis using d whole that by (auto simp: decimal_shape_def decimal_text_def)
  qed
  then have "decimalTokenJSON unquote (formatScaled v) = Inr (formatScaled v)"
    by (simp add: decimalTokenJSON_def)
  then show ?thesis using parse trim
    by (simp add: marshalScaled_def unmarshalJSONScaled_def unmarshalYAMLScaled_def)
qed

section \<open>Rounding and overflow\<close>

lemma div_ceil_bounds:
  fixes n d :: int
  assumes "0 < d"
  shows "(if n mod d \<noteq> 0 then n div d + 1 else n div d) = - (- n div d)"
  using assms by (simp add: zdiv_zminus1_eq_if)

lemma MulQtyPrice_floor:
  assumes "0 \<le> q" "0 \<le> p" "0 < m"
  shows "MulQtyPrice q p m False =
    (if in_int64 (q * p * m div Scale) then Inr (q * p * m div Scale)
     else Inl (Errorf ''money calculation overflows int64'' []))"
  using assms by (simp add: MulQtyPrice_def Let_def)

lemma MulQtyPrice_ceil:
  assumes "0 \<le> q" "0 \<le> p" "0 < m"
  shows "MulQtyPrice q p m True =
    (if in_int64 (- (- (q * p * m) div Scale)) then Inr (- (- (q * p * m) div Scale))
     else Inl (Errorf ''money calculation overflows int64'' []))"
  using assms div_ceil_bounds[of Scale "q * p * m"]
  by (cases "q * p * m mod Scale = 0") (simp_all add: MulQtyPrice_def Let_def)

lemma MulQtyPrice_Inr_eq:
  "MulQtyPrice q p m up = Inr r \<longleftrightarrow> 0 \<le> q \<and> 0 \<le> p \<and> 0 < m \<and> in_int64 r \<and>
     r = (if up then - (- (q * p * m) div Scale) else q * p * m div Scale)"
proof (cases "0 \<le> q \<and> 0 \<le> p \<and> 0 < m")
  case False
  then show ?thesis by (auto simp: MulQtyPrice_def)
next
  case True
  then show ?thesis by (cases up) (auto simp: MulQtyPrice_floor MulQtyPrice_ceil)
qed

lemmas MulQtyPrice_InrD = MulQtyPrice_Inr_eq [THEN iffD1, THEN conjunct1]
  MulQtyPrice_Inr_eq [THEN iffD1, THEN conjunct2, THEN conjunct1]
  MulQtyPrice_Inr_eq [THEN iffD1, THEN conjunct2, THEN conjunct2, THEN conjunct1]
  MulQtyPrice_Inr_eq [THEN iffD1, THEN conjunct2, THEN conjunct2, THEN conjunct2, THEN conjunct1]
  MulQtyPrice_Inr_eq [THEN iffD1, THEN conjunct2, THEN conjunct2, THEN conjunct2, THEN conjunct2]

lemma floor_ceil_Scale:
  fixes n :: int
  shows "n div Scale * Scale \<le> n" "n < (n div Scale + 1) * Scale"
    "n \<le> - (- n div Scale) * Scale" "(- (- n div Scale) - 1) * Scale < n"
  by (simp_all add: Scale_def)

lemma floor_unique:
  assumes "0 \<le> n"
  shows "r = n div Scale \<longleftrightarrow> 0 \<le> r \<and> r * Scale \<le> n \<and> n < (r + 1) * Scale"
proof -
  obtain x where x: "x = n div Scale" by simp
  have "x * Scale \<le> n" "n < (x + 1) * Scale" "0 \<le> x"
    using floor_ceil_Scale(1,2)[of n] assms x by (simp_all add: pos_imp_zdiv_nonneg_iff)
  then have "r = x \<longleftrightarrow> 0 \<le> r \<and> r * Scale \<le> n \<and> n < (r + 1) * Scale"
    unfolding Scale_def by auto
  then show ?thesis by (simp only: x)
qed

lemma ceil_unique:
  assumes "0 \<le> n"
  shows "r = - (- n div Scale) \<longleftrightarrow> 0 \<le> r \<and> n \<le> r * Scale \<and> (r - 1) * Scale < n"
proof -
  obtain x where x: "x = - (- n div Scale)" by simp
  have "n \<le> x * Scale" "(x - 1) * Scale < n"
    using floor_ceil_Scale(3,4)[of n] x by simp_all
  moreover from this have "0 \<le> x" using assms unfolding Scale_def by linarith
  ultimately have "r = x \<longleftrightarrow> 0 \<le> r \<and> n \<le> r * Scale \<and> (r - 1) * Scale < n"
    unfolding Scale_def by auto
  then show ?thesis by (simp only: x)
qed

text \<open>\<open>MulQtyPrice\<close> is the exact product rounded in the asked direction by less than one
  micro-dollar: rounding up never understates the amount, rounding down never overstates it, and
  the result is non-negative. It fails exactly on a negative operand, a non-positive multiplier or
  a rounded result that does not fit in 64 bits, never by wrapping.\<close>

lemma MulQtyPrice_exact:
  "(MulQtyPrice q p m up = Inr r \<longleftrightarrow>
     0 \<le> q \<and> 0 \<le> p \<and> 0 < m \<and> in_int64 r \<and> 0 \<le> r \<and>
     (if up then q * p * m \<le> r * Scale \<and> (r - 1) * Scale < q * p * m
      else r * Scale \<le> q * p * m \<and> q * p * m < (r + 1) * Scale)) \<and>
   (is_ok (MulQtyPrice q p m up) \<longleftrightarrow>
     0 \<le> q \<and> 0 \<le> p \<and> 0 < m \<and>
     in_int64 (if up then - (- (q * p * m) div Scale) else q * p * m div Scale))"
proof (cases "0 \<le> q \<and> 0 \<le> p \<and> 0 < m")
  case False
  then show ?thesis by (auto simp: MulQtyPrice_Inr_eq is_ok_iff)
next
  case True
  then have nonneg: "0 \<le> q * p * m" by simp
  show ?thesis
    using True floor_unique[OF nonneg, of r] ceil_unique[OF nonneg, of r]
    by (cases up) (simp_all only: MulQtyPrice_Inr_eq is_ok_iff if_True if_False simp_thms, blast+)
qed

lemma MulQtyPrice_nonneg: "MulQtyPrice q p m up = Inr r \<Longrightarrow> 0 \<le> r"
  using floor_unique[of "q * p * m" r] ceil_unique[of "q * p * m" r]
  by (auto simp: MulQtyPrice_Inr_eq split: if_splits)

lemma MulQtyPrice_pos:
  assumes "MulQtyPrice q p m True = Inr r" "0 < q" "0 < p"
  shows "0 < r"
proof -
  have "0 < q * p * m" using assms MulQtyPrice_InrD(3)[OF assms(1)] by simp
  then have "0 < r * Scale" using MulQtyPrice_InrD(5)[OF assms(1)] floor_ceil_Scale(3)[of "q * p * m"]
    by simp
  then show ?thesis by (simp add: Scale_def)
qed

lemma MulQtyPrice_mono_price:
  assumes "MulQtyPrice q p m up = Inr r" "MulQtyPrice q p' m up = Inr r'" "p \<le> p'"
  shows "r \<le> r'"
proof -
  have le: "q * p * m \<le> q * p' * m"
    using MulQtyPrice_InrD(1,3)[OF assms(1)] assms(3) by (simp add: mult_left_mono mult_right_mono)
  then show ?thesis
    using MulQtyPrice_InrD(5)[OF assms(1)] MulQtyPrice_InrD(5)[OF assms(2)]
    by (simp add: zdiv_mono1 split: if_splits)
qed

lemma Add_iff: "Add a b = Inr c \<longleftrightarrow> c = a + b \<and> in_int64 (a + b)"
  by (auto simp: Add_def)

lemma AddQty_iff: "AddQty a b = Inr c \<longleftrightarrow> c = a + b \<and> in_int64 (a + b)"
  by (auto simp: AddQty_def)

lemma AbsQty_iff: "in_int64 q \<Longrightarrow> AbsQty q = Inr a \<longleftrightarrow> q \<noteq> min_int64 \<and> a = \<bar>q\<bar>"
  by (auto simp: AbsQty_def wrap64_uminus)

lemma PercentFloor_iff:
  "PercentFloor amount percent = Inr r \<longleftrightarrow>
     0 \<le> amount \<and> 0 \<le> percent \<and> in_int64 r \<and> r = amount * percent div (100 * Scale)"
  by (auto simp: PercentFloor_def Let_def)

text \<open>A percentage cap rounds down, so capacity is never granted beyond the exact percentage
  of the account, and for a percentage of at most 100 it exists (no overflow) and never exceeds
  the amount itself.\<close>

lemma PercentFloor_against_account:
  assumes "in_int64 amount" "0 \<le> amount" "0 \<le> percent" "percent \<le> 100 * Scale"
  shows "\<exists>cap. PercentFloor amount percent = Inr cap \<and> 0 \<le> cap \<and> cap \<le> amount \<and>
    cap * (100 * Scale) \<le> amount * percent \<and> amount * percent < (cap + 1) * (100 * Scale)"
proof -
  let ?cap = "amount * percent div (100 * Scale)"
  have le: "amount * percent \<le> amount * (100 * Scale)"
    using assms by (simp add: mult_left_mono)
  then have cap: "?cap \<le> amount"
    using zdiv_mono1[OF le, of "100 * Scale"] by simp
  have pos: "0 \<le> ?cap" using assms by (simp add: pos_imp_zdiv_nonneg_iff)
  have "in_int64 ?cap" using in_int64_between[OF _ assms(1) pos cap] by simp
  moreover have "?cap * (100 * Scale) \<le> amount * percent"
    "amount * percent < (?cap + 1) * (100 * Scale)"
    by (simp_all add: Scale_def)
  ultimately show ?thesis using assms cap pos by (auto simp: PercentFloor_iff)
qed

lemma SpreadWithin_iff:
  "SpreadWithin bid ask maximum \<longleftrightarrow>
     0 < bid \<and> bid < ask \<and> 0 \<le> maximum \<and> (ask - bid) * (2 * Scale) \<le> (ask + bid) * maximum"
  by (auto simp: SpreadWithin_def)

lemma SpreadWithin_mono: "SpreadWithin bid ask m \<Longrightarrow> m \<le> m' \<Longrightarrow> SpreadWithin bid ask m'"
  by (auto simp: SpreadWithin_iff intro: order_trans mult_left_mono)

end
