(* ===== verification/Broker.thy ===== *)
theory Broker
  imports Units
begin

text \<open>
  \<^verbatim>\<open>kernel/internal/broker/broker.go\<close>: the venue port's values. Quotes with their sanity
  and freshness tests, instruments with their tick schedule, and the records exchanged with the
  account and execution providers. A field keeps the name of the Go field behind a short prefix of
  the record.
\<close>

definition ErrNotFound :: go_error where
  "ErrNotFound = Sentinel ''broker object not found''"


section \<open>Quotes\<close>

record quote =
  q_Symbol :: string
  q_Bid :: micros
  q_Ask :: micros
  q_OpenInterest :: int64
  q_Source :: string
  q_AsOf :: time

definition Mid :: "quote \<Rightarrow> micros" where
  "Mid q = wrap64 (q_Bid q + wrap64 (q_Ask q - q_Bid q) sdiv 2)"

definition Sane :: "quote \<Rightarrow> bool" where
  "Sane q \<longleftrightarrow> q_Bid q > 0 \<and> q_Ask q > q_Bid q"

definition Fresh :: "quote \<Rightarrow> int64 \<Rightarrow> time \<Rightarrow> bool" where
  "Fresh q maxAgeSec now \<longleftrightarrow>
     (if maxAgeSec \<le> 0 then True
      else if q_AsOf q = 0 \<or> q_AsOf q > now then False
      else time_sub now (q_AsOf q) \<le> wrap64 (maxAgeSec * second_ns))"

definition Usable :: "quote \<Rightarrow> int64 \<Rightarrow> time \<Rightarrow> bool" where
  "Usable q maxAgeSec now \<longleftrightarrow> Sane q \<and> Fresh q maxAgeSec now"

definition quote_int64 :: "quote \<Rightarrow> bool" where
  "quote_int64 q \<longleftrightarrow> in_int64 (q_Bid q) \<and> in_int64 (q_Ask q)"

lemma Mid_between:
  assumes "Sane q" "quote_int64 q"
  shows "q_Bid q \<le> Mid q" "Mid q < q_Ask q" "Mid q = (q_Bid q + q_Ask q) div 2" "in_int64 (Mid q)"
proof -
  let ?b = "q_Bid q" and ?a = "q_Ask q"
  have *: "wrap64 (?a - ?b) = ?a - ?b"
    using assms by (intro wrap64_sub_nonneg) (auto simp: Sane_def quote_int64_def)
  have "in_int64 (?b + (?a - ?b) div 2)"
    using assms by (auto simp: Sane_def quote_int64_def in_int64_def)
  then have m: "Mid q = ?b + (?a - ?b) div 2"
    using assms by (simp add: Mid_def * wrap64_id Sane_def)
  show "?b \<le> Mid q" "Mid q < ?a" using m assms by (auto simp: Sane_def)
  show "Mid q = (?b + ?a) div 2" using m by simp
  show "in_int64 (Mid q)" by (simp add: Mid_def)
qed

text \<open>Freshness within the policy's range (at most a day) compares the true age.\<close>

lemma Fresh_iff:
  assumes "0 < age" "age \<le> 86400" "in_int64 (now - q_AsOf q)"
  shows "Fresh q age now \<longleftrightarrow> q_AsOf q \<noteq> 0 \<and> q_AsOf q \<le> now \<and> now - q_AsOf q \<le> age * second_ns"
proof -
  have "wrap64 (age * second_ns) = age * second_ns"
    by (rule wrap64_id) (use assms in \<open>simp add: in_int64_def second_ns_def\<close>)
  then show ?thesis using assms by (auto simp: Fresh_def time_sub_exact)
qed


section \<open>Instruments and their tick schedule\<close>

record instrument =
  i_Symbol :: string
  i_InstrumentID :: string
  i_Kind :: string
  i_Multiplier :: int64
  i_PriceTick :: micros
  i_BelowPriceTick :: micros
  i_TickCutoff :: micros
  i_QtyIncrement :: qty
  i_Source :: string
  i_AsOf :: time

definition TickForPrice :: "instrument \<Rightarrow> micros \<Rightarrow> micros" where
  "TickForPrice i price =
     (if i_BelowPriceTick i > 0 \<and> i_TickCutoff i > 0 \<and> price \<le> i_TickCutoff i
      then i_BelowPriceTick i else i_PriceTick i)"

definition PrecisionSane :: "instrument \<Rightarrow> bool" where
  "PrecisionSane i \<longleftrightarrow>
     (if i_PriceTick i \<le> 0 \<or> i_QtyIncrement i \<le> 0 then False
      else (let variable = (i_BelowPriceTick i \<noteq> 0 \<or> i_TickCutoff i \<noteq> 0)
            in \<not> variable \<or> (i_BelowPriceTick i > 0 \<and> i_TickCutoff i > 0)))"

definition SupportsPrice :: "instrument \<Rightarrow> micros \<Rightarrow> bool" where
  "SupportsPrice i price \<longleftrightarrow>
     (let tick = TickForPrice i price
      in PrecisionSane i \<and> price > 0 \<and> tick > 0 \<and> price smod tick = 0)"

lemma TickForPrice_pos: "PrecisionSane i \<Longrightarrow> 0 < TickForPrice i p"
  by (auto simp: PrecisionSane_def TickForPrice_def split: if_splits)

lemma SupportsPrice_iff:
  "SupportsPrice i p \<longleftrightarrow> PrecisionSane i \<and> 0 < p \<and> TickForPrice i p dvd p"
proof -
  have "PrecisionSane i \<Longrightarrow> 0 < p \<Longrightarrow> p smod TickForPrice i p = p mod TickForPrice i p"
    using TickForPrice_pos[of i p] by simp
  then show ?thesis
    by (auto simp: SupportsPrice_def Let_def TickForPrice_pos dvd_eq_mod_eq_0)
qed

definition instrument_int64 :: "instrument \<Rightarrow> bool" where
  "instrument_int64 i \<longleftrightarrow> in_int64 (i_PriceTick i) \<and> in_int64 (i_BelowPriceTick i) \<and>
     in_int64 (i_TickCutoff i) \<and> in_int64 (i_QtyIncrement i)"

lemma TickForPrice_int64: "instrument_int64 i \<Longrightarrow> in_int64 (TickForPrice i p)"
  by (simp add: instrument_int64_def TickForPrice_def)


section \<open>Values exchanged with the providers\<close>

record position =
  p_PositionID :: string
  p_InstrumentID :: string
  p_Symbol :: string
  p_Qty :: qty
  p_AvgPrice :: micros
  p_AvgPriceKnown :: bool
  p_Kind :: string
  p_Multiplier :: int64
  p_Source :: string
  p_AsOf :: time

record account_state =
  a_ExternalID :: string
  a_AccountType :: string
  a_BuyingPower :: micros
  a_Equity :: micros
  a_EquityKnown :: bool
  a_DayTradesUsed :: int64
  a_Cash :: micros
  a_CashKnown :: bool
  a_Source :: string
  a_AsOf :: time

record read_order =
  ro_BrokerOrderID :: string
  ro_ClientOrderID :: string
  ro_InstrumentID :: string
  ro_Symbol :: string
  ro_Side :: string
  ro_Kind :: string
  ro_PositionEffect :: string
  ro_State :: string
  ro_Qty :: qty
  ro_FilledQty :: qty
  ro_LimitPrice :: micros
  ro_LimitPriceKnown :: bool
  ro_StopPrice :: micros
  ro_StopPriceKnown :: bool
  ro_OrderType :: string
  ro_Source :: string
  ro_AsOf :: time

record read_fill =
  rf_FillID :: string
  rf_BrokerOrderID :: string
  rf_InstrumentID :: string
  rf_Symbol :: string
  rf_Side :: string
  rf_Qty :: qty
  rf_Price :: micros
  rf_Fees :: micros
  rf_Source :: string
  rf_AsOf :: time

record place_request =
  pr_ClientOrderID :: string
  pr_Symbol :: string
  pr_Side :: string
  pr_PositionEffect :: string
  pr_OrderType :: string
  pr_Qty :: qty
  pr_Limit :: micros
  pr_StopPrice :: micros
  pr_Kind :: string

record order_result =
  or_BrokerOrderID :: string
  or_ClientOrderID :: string
  or_State :: string
  or_FilledQty :: qty
  or_FilledPrice :: micros
  or_Fills :: "read_fill list"
  or_Reason :: string

end
