(* ===== verification/Pricing.thy ===== *)
theory Pricing
  imports Broker
begin

text \<open>
  The tick arithmetic and the bounded repricing rule of
  \<^verbatim>\<open>kernel/cmd/kernel/repricer.go\<close> (lines 401 to 507): a managed buy moves at least half of
  the remaining distance towards the market per reprice but never above the approved cap; a managed
  sell moves down to the approved minimum symmetrically. Every price the rules return is on the
  instrument's tick schedule.
\<close>

section \<open>Rounding to a tick\<close>

definition ceilPriceToTick :: "micros \<Rightarrow> micros \<Rightarrow> micros result" where
  "ceilPriceToTick v tick =
     (if v \<le> 0 \<or> tick \<le> 0 then Inl (Errorf ''price and tick must be positive'' [])
      else (let remainder = v smod tick
            in if remainder = 0 then Inr v else Add v (wrap64 (tick - remainder))))"

definition floorPriceToTick :: "micros \<Rightarrow> micros \<Rightarrow> micros" where
  "floorPriceToTick v tick =
     (if v \<le> 0 \<or> tick \<le> 0 then 0 else wrap64 (v - v smod tick))"

definition ceilPriceForInstrument :: "micros \<Rightarrow> instrument \<Rightarrow> micros result" where
  "ceilPriceForInstrument v i =
     (if \<not> PrecisionSane i then Inl (Errorf ''instrument precision is invalid'' [])
      else (case ceilPriceToTick v (TickForPrice i v) of
              Inl _ \<Rightarrow> Inl (Errorf ''price is outside the instrument tick schedule'' [])
            | Inr r \<Rightarrow> if \<not> SupportsPrice i r
                      then Inl (Errorf ''price is outside the instrument tick schedule'' [])
                      else Inr r))"

definition floorPriceForInstrument :: "micros \<Rightarrow> instrument \<Rightarrow> micros" where
  "floorPriceForInstrument v i =
     (if \<not> PrecisionSane i then 0
      else (let r = floorPriceToTick v (TickForPrice i v)
            in if \<not> SupportsPrice i r then 0 else r))"


section \<open>One reprice\<close>

definition nextBoundedBuyLimitForInstrument ::
  "micros \<Rightarrow> micros \<Rightarrow> micros \<Rightarrow> instrument \<Rightarrow> micros result" where
  "nextBoundedBuyLimitForInstrument previous ask cap i =
     (if previous \<le> 0 \<or> ask \<le> 0 \<or> cap \<le> 0 \<or> \<not> PrecisionSane i
      then Inl (Errorf ''invalid buy reprice inputs'' [])
      else (case ceilPriceForInstrument ask i of
              Inl e \<Rightarrow> Inl e
            | Inr marketTarget \<Rightarrow>
                (let allowableCap = floorPriceForInstrument cap i
                 in if allowableCap \<le> 0 then Inl (Errorf ''buy cap has no valid price tick'' [])
                    else (let target = (if marketTarget > allowableCap then allowableCap
                                        else marketTarget)
                          in if target \<le> previous then Inr target
                             else (let distance = wrap64 (target - previous);
                                       raw = wrap64 (wrap64 (previous + distance sdiv 2) + distance smod 2)
                                   in (case ceilPriceForInstrument raw i of
                                         Inl e \<Rightarrow> Inl e
                                       | Inr next \<Rightarrow> Inr (if next > target then target else next)))))))"

definition nextBoundedSellLimitForInstrument ::
  "micros \<Rightarrow> micros \<Rightarrow> micros \<Rightarrow> instrument \<Rightarrow> micros result" where
  "nextBoundedSellLimitForInstrument previous bid minimum i =
     (if previous \<le> 0 \<or> bid \<le> 0 \<or> minimum \<le> 0 \<or> \<not> PrecisionSane i
      then Inl (Errorf ''invalid sell reprice inputs'' [])
      else (let marketTarget = floorPriceForInstrument bid i
            in (case ceilPriceForInstrument minimum i of
                  Inl e \<Rightarrow> Inl e
                | Inr allowableMinimum \<Rightarrow>
                    (let target = (if marketTarget < allowableMinimum then allowableMinimum
                                   else marketTarget)
                     in if target \<ge> previous then Inr target
                        else (let distance = wrap64 (previous - target);
                                  raw = wrap64 (wrap64 (previous - distance sdiv 2) - distance smod 2);
                                  next = floorPriceForInstrument raw i
                              in Inr (if next < target then target else next))))))"

definition fixed_tick_instrument :: "micros \<Rightarrow> instrument" where
  "fixed_tick_instrument tick =
     \<lparr>i_Symbol = '''', i_InstrumentID = '''', i_Kind = '''', i_Multiplier = 0, i_PriceTick = tick,
      i_BelowPriceTick = 0, i_TickCutoff = 0, i_QtyIncrement = Scale, i_Source = '''', i_AsOf = 0\<rparr>"

definition nextBoundedBuyLimit :: "micros \<Rightarrow> micros \<Rightarrow> micros \<Rightarrow> micros \<Rightarrow> micros result" where
  "nextBoundedBuyLimit previous ask cap tick =
     nextBoundedBuyLimitForInstrument previous ask cap (fixed_tick_instrument tick)"

definition nextBoundedSellLimit :: "micros \<Rightarrow> micros \<Rightarrow> micros \<Rightarrow> micros \<Rightarrow> micros result" where
  "nextBoundedSellLimit previous bid minimum tick =
     nextBoundedSellLimitForInstrument previous bid minimum (fixed_tick_instrument tick)"


section \<open>Rounding facts\<close>

lemma must_one: "must_scaled ''1'' = Some Scale"
  by (simp add: must_scaled_def) (code_simp)

lemma ceilPriceToTick_Inr:
  assumes "ceilPriceToTick v tick = Inr r" "in_int64 tick"
  shows "0 < v" "0 < tick" "v \<le> r" "r < v + tick" "tick dvd r" "in_int64 v \<Longrightarrow> in_int64 r"
proof -
  show pos: "0 < v" "0 < tick" using assms by (auto simp: ceilPriceToTick_def split: if_splits)
  have w: "wrap64 (tick - v mod tick) = tick - v mod tick"
    using pos assms(2) pos_mod_bound[of tick v] pos_mod_sign[of tick v]
    unfolding in_int64_def by (intro wrap64_id) (unfold in_int64_def, linarith)
  have r: "r = (if v mod tick = 0 then v else v + (tick - v mod tick))"
    using assms pos by (auto simp: ceilPriceToTick_def Let_def w Add_iff split: if_splits)
  have rem: "0 \<le> v mod tick" "v mod tick < tick" using pos by simp_all
  show "v \<le> r" "r < v + tick"
    by (cases "v mod tick = 0"; use r rem pos in \<open>simp; linarith?\<close>)+
  have "v + (tick - v mod tick) = tick * (v div tick + 1)"
    using minus_mod_eq_mult_div[of v tick] by (simp add: algebra_simps)
  then show "tick dvd r" using r by (metis dvd_eq_mod_eq_0 dvd_triv_left)
  show "in_int64 v \<Longrightarrow> in_int64 r"
    using assms pos by (auto simp: ceilPriceToTick_def Let_def Add_iff w split: if_splits)
qed

lemma floorPriceToTick_props:
  assumes "0 < v" "0 < tick" "in_int64 v"
  shows "floorPriceToTick v tick \<le> v" "v - tick < floorPriceToTick v tick"
    "tick dvd floorPriceToTick v tick" "0 \<le> floorPriceToTick v tick"
proof -
  have "0 \<le> v - v mod tick" using assms zmod_le_nonneg_dividend[of v tick] by simp
  then have w: "wrap64 (v - v mod tick) = v - v mod tick"
    using assms pos_mod_sign[of tick v] unfolding in_int64_def
    by (intro wrap64_id) (unfold in_int64_def, linarith)
  have eq: "floorPriceToTick v tick = v - v mod tick"
    using assms by (simp add: floorPriceToTick_def w)
  show "floorPriceToTick v tick \<le> v" "v - tick < floorPriceToTick v tick"
    using assms by (simp_all add: eq)
  show "tick dvd floorPriceToTick v tick" by (simp add: eq dvd_minus_mod)
  show "0 \<le> floorPriceToTick v tick" using \<open>0 \<le> v - v mod tick\<close> eq by simp
qed

lemma ceilPriceForInstrument_Inr:
  assumes "ceilPriceForInstrument v i = Inr r" "instrument_int64 i"
  shows "SupportsPrice i r" "v \<le> r" "0 < v" "0 < r" "in_int64 v \<Longrightarrow> in_int64 r"
  using assms ceilPriceToTick_Inr[OF _ TickForPrice_int64[OF assms(2)]]
  by (auto simp: ceilPriceForInstrument_def SupportsPrice_iff split: if_splits sum.splits)

lemma floorPriceForInstrument_pos:
  assumes "0 < floorPriceForInstrument v i" "in_int64 v"
  shows "SupportsPrice i (floorPriceForInstrument v i)" "floorPriceForInstrument v i \<le> v" "0 < v"
proof -
  have v: "0 < v" using assms
    by (auto simp: floorPriceForInstrument_def floorPriceToTick_def Let_def SupportsPrice_iff split: if_splits)
  show "SupportsPrice i (floorPriceForInstrument v i)" "floorPriceForInstrument v i \<le> v" "0 < v"
    using assms v floorPriceToTick_props[OF v _ assms(2), of "TickForPrice i v"] TickForPrice_pos[of i v]
    by (auto simp: floorPriceForInstrument_def Let_def split: if_splits)
qed

lemma floorPriceForInstrument_nonneg: "0 \<le> floorPriceForInstrument v i"
  by (auto simp: floorPriceForInstrument_def Let_def SupportsPrice_iff)

lemma SupportsPrice_min: "SupportsPrice i a \<Longrightarrow> SupportsPrice i b \<Longrightarrow> SupportsPrice i (min a b)"
  by (simp add: min_def)

lemma SupportsPrice_pos: "SupportsPrice i a \<Longrightarrow> 0 < a"
  by (simp add: SupportsPrice_iff)


section \<open>What one reprice guarantees\<close>

text \<open>The price a buy is heading for: the market, capped by the approved bound.\<close>

definition buy_target :: "micros \<Rightarrow> micros \<Rightarrow> instrument \<Rightarrow> micros option" where
  "buy_target ask cap i =
     (case ceilPriceForInstrument ask i of
        Inl _ \<Rightarrow> None
      | Inr m \<Rightarrow> if floorPriceForInstrument cap i \<le> 0 then None
                else Some (min m (floorPriceForInstrument cap i)))"

definition sell_target :: "micros \<Rightarrow> micros \<Rightarrow> instrument \<Rightarrow> micros option" where
  "sell_target bid minimum i =
     (case ceilPriceForInstrument minimum i of
        Inl _ \<Rightarrow> None
      | Inr m \<Rightarrow> Some (max (floorPriceForInstrument bid i) m))"

lemma buy_target_props:
  assumes "buy_target ask cap i = Some t" "instrument_int64 i" "in_int64 cap" "in_int64 ask"
  shows "SupportsPrice i t" "t \<le> cap" "0 < t" "in_int64 t"
proof -
  obtain m where m: "ceilPriceForInstrument ask i = Inr m" "0 < floorPriceForInstrument cap i"
    "t = min m (floorPriceForInstrument cap i)"
    using assms(1) by (auto simp: buy_target_def split: sum.splits if_splits)
  note f = floorPriceForInstrument_pos[OF m(2) assms(3)]
  note c = ceilPriceForInstrument_Inr[OF m(1) assms(2)]
  show "SupportsPrice i t" using m(3) f c by (simp add: SupportsPrice_min)
  then show "0 < t" by (rule SupportsPrice_pos)
  show "t \<le> cap" using m(3) f by simp
  then show "in_int64 t" using \<open>0 < t\<close> assms(3) by (simp add: in_int64_def)
qed

lemma midpoint_exact:
  assumes "in_int64 p" "in_int64 t" "0 < p" "p < t"
  shows "wrap64 (wrap64 (p + wrap64 (t - p) sdiv 2) + wrap64 (t - p) smod 2) = p + (t - p + 1) div 2"
proof -
  have d: "wrap64 (t - p) = t - p" using assms by (intro wrap64_sub_nonneg) auto
  have "wrap64 (p + (t - p) div 2) = p + (t - p) div 2"
    by (intro wrap64_id, unfold in_int64_def) (use assms in \<open>unfold in_int64_def, linarith\<close>)
  moreover have "wrap64 (p + (t - p) div 2 + (t - p) mod 2) = p + (t - p) div 2 + (t - p) mod 2"
    by (intro wrap64_id, unfold in_int64_def) (use assms in \<open>unfold in_int64_def, linarith\<close>)
  moreover have "(t - p) div 2 + (t - p) mod 2 = (t - p + 1) div 2" by presburger
  ultimately show ?thesis using assms by (simp add: d add.assoc)
qed

lemma buy_step_cases:
  assumes "0 < previous" "0 < cap" "0 < ask" "PrecisionSane i" "buy_target ask cap i = Some t"
    "in_int64 previous" "in_int64 t"
  shows "nextBoundedBuyLimitForInstrument previous ask cap i =
    (if t \<le> previous then Inr t
     else (case ceilPriceForInstrument (previous + (t - previous + 1) div 2) i of
             Inl e \<Rightarrow> Inl e | Inr next \<Rightarrow> Inr (min t next)))"
proof -
  obtain m where m: "ceilPriceForInstrument ask i = Inr m" "\<not> floorPriceForInstrument cap i \<le> 0"
    "t = (if m > floorPriceForInstrument cap i then floorPriceForInstrument cap i else m)"
    using assms(5) by (auto simp: buy_target_def min_def split: sum.splits if_splits)
  have "\<not> (previous \<le> 0 \<or> ask \<le> 0 \<or> cap \<le> 0 \<or> \<not> PrecisionSane i)" using assms by simp
  moreover have "t > previous \<Longrightarrow>
    wrap64 (wrap64 (previous + wrap64 (t - previous) sdiv 2) + wrap64 (t - previous) smod 2)
      = previous + (t - previous + 1) div 2"
    using assms by (intro midpoint_exact) auto
  ultimately show ?thesis
    by (simp only: nextBoundedBuyLimitForInstrument_def m(1) sum.case Let_def if_False if_not_P[OF m(2)]
        m(3)[symmetric]) (auto simp: min_def split: sum.splits)
qed

lemma buy_Inr_target:
  assumes "nextBoundedBuyLimitForInstrument previous ask cap i = Inr r"
  shows "0 < previous \<and> 0 < cap \<and> 0 < ask \<and> PrecisionSane i \<and> (\<exists>t. buy_target ask cap i = Some t)"
  using assms
  by (auto simp: nextBoundedBuyLimitForInstrument_def buy_target_def Let_def
      split: if_splits sum.splits)

text \<open>A managed buy reprice never leaves its authority: the new limit is positive, on the
  instrument's tick schedule and at most the approved cap; when the working price is below the
  target (the market capped by the bound) it moves strictly up, covers at least half of the
  distance and does not overshoot; otherwise it is the target itself.\<close>

lemma buy_reprice_bounded:
  assumes step: "nextBoundedBuyLimitForInstrument previous ask cap i = Inr r"
    and ints: "instrument_int64 i" "in_int64 previous" "in_int64 ask" "in_int64 cap"
  shows "\<exists>t. buy_target ask cap i = Some t \<and> 0 < r \<and> SupportsPrice i r \<and> r \<le> t \<and> t \<le> cap \<and>
    (if previous < t then previous < r \<and> 2 * (t - r) \<le> t - previous else r = t)"
proof -
  obtain t where t: "buy_target ask cap i = Some t"
    and pos: "0 < previous" "0 < cap" "0 < ask" "PrecisionSane i"
    using buy_Inr_target[OF step] by blast
  note tp = buy_target_props[OF t ints(1) ints(4) ints(3)]
  note eq = buy_step_cases[OF pos t ints(2) tp(4)]
  show ?thesis
  proof (cases "t \<le> previous")
    case True
    with step eq t tp show ?thesis by auto
  next
    case False
    let ?raw = "previous + (t - previous + 1) div 2"
    obtain n where n: "ceilPriceForInstrument ?raw i = Inr n" "r = min t n"
      using step eq False by (auto split: sum.splits)
    note c = ceilPriceForInstrument_Inr[OF n(1) ints(1)]
    have sup: "SupportsPrice i r" using n(2) tp(1) c(1) by (simp add: SupportsPrice_min)
    have raw: "previous < ?raw" "?raw \<le> t" "2 * (t - ?raw) \<le> t - previous" using False by (linarith, linarith, presburger)
    then have "?raw \<le> r" using n(2) c(2) by simp
    with raw n(2) tp t False sup show ?thesis
      by (intro exI[of _ t]) (auto dest: SupportsPrice_pos)
  qed
qed

subsection \<open>Sells\<close>

lemma sell_target_props:
  assumes "sell_target bid minimum i = Some t" "instrument_int64 i" "in_int64 minimum" "in_int64 bid"
  shows "SupportsPrice i t" "minimum \<le> t" "0 < t" "in_int64 t"
proof -
  obtain m where m: "ceilPriceForInstrument minimum i = Inr m"
    "t = max (floorPriceForInstrument bid i) m"
    using assms(1) by (auto simp: sell_target_def split: sum.splits)
  note c = ceilPriceForInstrument_Inr[OF m(1) assms(2)]
  have "SupportsPrice i t \<and> in_int64 t"
  proof (cases "floorPriceForInstrument bid i > m")
    case True
    then have pos: "0 < floorPriceForInstrument bid i" using c by simp
    then show ?thesis using floorPriceForInstrument_pos[OF pos assms(4)] m True assms(4)
      by (auto simp: max_def in_int64_def)
  next
    case False
    then show ?thesis using m c assms(3) by (simp add: max_def)
  qed
  then show "SupportsPrice i t" "in_int64 t" by auto
  show "minimum \<le> t" "0 < t" using m c by auto
qed

lemma sell_midpoint_exact:
  assumes "in_int64 p" "in_int64 t" "0 < t" "t < p"
  shows "wrap64 (wrap64 (p - wrap64 (p - t) sdiv 2) - wrap64 (p - t) smod 2) = p - (p - t + 1) div 2"
proof -
  have d: "wrap64 (p - t) = p - t" using assms by (intro wrap64_sub_nonneg) auto
  have "wrap64 (p - (p - t) div 2) = p - (p - t) div 2"
    by (intro wrap64_id, unfold in_int64_def) (use assms in \<open>unfold in_int64_def, linarith\<close>)
  moreover have "wrap64 (p - (p - t) div 2 - (p - t) mod 2) = p - (p - t) div 2 - (p - t) mod 2"
    by (intro wrap64_id, unfold in_int64_def) (use assms in \<open>unfold in_int64_def, linarith\<close>)
  moreover have "(p - t) div 2 + (p - t) mod 2 = (p - t + 1) div 2" by presburger
  ultimately show ?thesis using assms by (simp add: d)
qed

lemma sell_step_cases:
  assumes "0 < previous" "0 < bid" "0 < minimum" "PrecisionSane i" "sell_target bid minimum i = Some t"
    "in_int64 previous" "in_int64 t" "0 < t"
  shows "nextBoundedSellLimitForInstrument previous bid minimum i =
    Inr (if previous \<le> t then t
         else max t (floorPriceForInstrument (previous - (previous - t + 1) div 2) i))"
proof -
  obtain m where m: "ceilPriceForInstrument minimum i = Inr m"
    "t = (if floorPriceForInstrument bid i < m then m else floorPriceForInstrument bid i)"
    using assms(5) by (auto simp: sell_target_def max_def split: sum.splits if_splits)
  have bad: "\<not> (previous \<le> 0 \<or> bid \<le> 0 \<or> minimum \<le> 0 \<or> \<not> PrecisionSane i)" using assms by simp
  have "t < previous \<Longrightarrow>
    wrap64 (wrap64 (previous - wrap64 (previous - t) sdiv 2) - wrap64 (previous - t) smod 2)
      = previous - (previous - t + 1) div 2"
    using assms by (intro sell_midpoint_exact) auto
  then show ?thesis
    by (simp only: nextBoundedSellLimitForInstrument_def m(1) sum.case Let_def if_not_P[OF bad]
        m(2)[symmetric]) (auto simp: max_def)
qed

lemma sell_Inr_target:
  assumes "nextBoundedSellLimitForInstrument previous bid minimum i = Inr r"
  shows "0 < previous \<and> 0 < bid \<and> 0 < minimum \<and> PrecisionSane i \<and> (\<exists>t. sell_target bid minimum i = Some t)"
  using assms
  by (auto simp: nextBoundedSellLimitForInstrument_def sell_target_def Let_def
      split: if_splits sum.splits)

text \<open>A managed sell reprice never sells below its authority: the new limit is on the tick
  schedule and at least the approved minimum; above the target it moves strictly down by at least
  half of the distance without undershooting, otherwise it is the target itself.\<close>

lemma sell_reprice_bounded:
  assumes step: "nextBoundedSellLimitForInstrument previous bid minimum i = Inr r"
    and ints: "instrument_int64 i" "in_int64 previous" "in_int64 bid" "in_int64 minimum"
  shows "\<exists>t. sell_target bid minimum i = Some t \<and> SupportsPrice i r \<and> minimum \<le> t \<and> t \<le> r \<and>
    (if t < previous then r < previous \<and> 2 * (r - t) \<le> previous - t else r = t)"
proof -
  obtain t where t: "sell_target bid minimum i = Some t"
    and pos: "0 < previous" "0 < bid" "0 < minimum" "PrecisionSane i"
    using sell_Inr_target[OF step] by blast
  note tp = sell_target_props[OF t ints(1) ints(4) ints(3)]
  note eq = sell_step_cases[OF pos t ints(2) tp(4) tp(3)]
  show ?thesis
  proof (cases "previous \<le> t")
    case True
    with step eq t tp show ?thesis by auto
  next
    case False
    let ?raw = "previous - (previous - t + 1) div 2"
    have raw: "?raw < previous" "t \<le> ?raw" "2 * (?raw - t) \<le> previous - t"
      using False by (linarith, linarith, presburger)
    have rint: "in_int64 ?raw" using raw tp(4) ints(2) unfolding in_int64_def by linarith
    have r: "r = max t (floorPriceForInstrument ?raw i)" using step eq False by simp
    show ?thesis
    proof (cases "floorPriceForInstrument ?raw i \<le> t")
      case True
      with r t tp False show ?thesis by auto
    next
      case F: False
      then have p: "0 < floorPriceForInstrument ?raw i" using tp(3) by simp
      note f = floorPriceForInstrument_pos[OF p rint]
      have "r = floorPriceForInstrument ?raw i" using r F by simp
      with f F raw t tp False show ?thesis by auto
    qed
  qed
qed

section \<open>Repeated reprices reach the target\<close>

text \<open>
  A tick schedule is aligned when its cutoff is itself a price of the finer tick, as for the
  standard option increments. Rounding up then never falls between the two ticks.
\<close>

definition schedule_aligned :: "instrument \<Rightarrow> bool" where
  "schedule_aligned i \<longleftrightarrow>
     (i_BelowPriceTick i > 0 \<and> i_TickCutoff i > 0 \<longrightarrow> i_BelowPriceTick i dvd i_TickCutoff i)"

lemma ceil_below_dvd:
  fixes v :: int
  assumes "0 < d" "d dvd t" "v \<le> t" "r < v + d" "d dvd r"
  shows "r \<le> t"
proof -
  obtain a where a: "t = d * a" using assms(2) ..
  obtain b where b: "r = d * b" using assms(5) ..
  have "d * b < d * (a + 1)" using assms a b by (simp add: algebra_simps)
  then have "b < a + 1" using assms(1) by (simp only: mult_less_cancel_left_pos)
  then show ?thesis using a b assms(1) by simp
qed

lemma ceilPriceToTick_bounded:
  assumes "0 < v" "0 < d" "d dvd t" "v \<le> t" "in_int64 t" "in_int64 d"
  shows "\<exists>r. ceilPriceToTick v d = Inr r \<and> v \<le> r \<and> r \<le> t \<and> d dvd r"
proof -
  have rem: "0 \<le> v mod d" "v mod d < d" using assms by simp_all
  have w: "wrap64 (d - v mod d) = d - v mod d"
    by (intro wrap64_id) (use rem assms in \<open>unfold in_int64_def, linarith\<close>)
  let ?r = "v + (d - v mod d)"
  have "v + (d - v mod d) = d * (v div d + 1)"
    using minus_mod_eq_mult_div[of v d] by (simp add: algebra_simps)
  then have dvd: "d dvd ?r" by simp
  show ?thesis
  proof (cases "v mod d = 0")
    case True
    then show ?thesis using assms by (auto simp: ceilPriceToTick_def dvd_eq_mod_eq_0)
  next
    case False
    then have "?r \<le> t" using ceil_below_dvd[OF assms(2,3,4) _ dvd] rem by simp
    then have "in_int64 ?r" using assms rem unfolding in_int64_def by linarith
    then show ?thesis using assms w False dvd \<open>?r \<le> t\<close> rem
      by (auto simp: ceilPriceToTick_def Add_def)
  qed
qed

lemma ceilPriceForInstrument_total:
  assumes "SupportsPrice i t" "schedule_aligned i" "0 < v" "v \<le> t" "in_int64 t" "instrument_int64 i"
  shows "\<exists>r. ceilPriceForInstrument v i = Inr r"
proof -
  let ?d = "TickForPrice i v"
  have sane: "PrecisionSane i" and td: "TickForPrice i t dvd t"
    using assms(1) by (auto simp: SupportsPrice_iff)
  note dpos = TickForPrice_pos[OF sane, of v]
  note dint = TickForPrice_int64[OF assms(6), of v]
  show ?thesis
  proof (cases "i_BelowPriceTick i > 0 \<and> i_TickCutoff i > 0 \<and> v \<le> i_TickCutoff i")
    case True
    then have d: "?d = i_BelowPriceTick i" "?d dvd i_TickCutoff i"
      using assms(2) by (auto simp: TickForPrice_def schedule_aligned_def)
    have "in_int64 (i_TickCutoff i)" using assms(6) by (simp add: instrument_int64_def)
    then obtain r where r: "ceilPriceToTick v ?d = Inr r" "v \<le> r" "r \<le> i_TickCutoff i" "?d dvd r"
      using ceilPriceToTick_bounded[OF assms(3) dpos d(2)] True dint by blast
    then have "SupportsPrice i r"
      using True sane assms(3) d by (auto simp: SupportsPrice_iff TickForPrice_def)
    with r sane show ?thesis by (simp add: ceilPriceForInstrument_def)
  next
    case False
    then have "TickForPrice i t = ?d" using assms(4) by (auto simp: TickForPrice_def)
    then obtain r where r: "ceilPriceToTick v ?d = Inr r" "v \<le> r" "r \<le> t" "?d dvd r"
      using ceilPriceToTick_bounded[OF assms(3) dpos _ assms(4,5) dint] td by auto
    then have "TickForPrice i r = ?d" using False by (auto simp: TickForPrice_def)
    then have "SupportsPrice i r" using r sane assms(3) by (simp add: SupportsPrice_iff)
    with r sane show ?thesis by (simp add: ceilPriceForInstrument_def)
  qed
qed

fun reprice_chain :: "nat \<Rightarrow> micros \<Rightarrow> micros \<Rightarrow> micros \<Rightarrow> instrument \<Rightarrow> micros result" where
  "reprice_chain 0 previous ask cap i = Inr previous"
| "reprice_chain (Suc n) previous ask cap i =
     (case nextBoundedBuyLimitForInstrument previous ask cap i of
        Inl e \<Rightarrow> Inl e
      | Inr p \<Rightarrow> reprice_chain n p ask cap i)"

text \<open>One step halves the distance. Only a schedule whose cutoff is no multiple of the lower tick can make it fail.\<close>

lemma buy_step_progress:
  assumes "0 < previous" "0 < ask" "0 < cap" "buy_target ask cap i = Some t"
    "instrument_int64 i" "in_int64 previous" "in_int64 ask" "in_int64 cap"
  shows "(\<exists>r. nextBoundedBuyLimitForInstrument previous ask cap i = Inr r \<and> 0 < r \<and> r \<le> t \<and> t - r \<le> max 0 (t - previous) div 2) \<or>
    \<not> schedule_aligned i \<and> (\<exists>e. nextBoundedBuyLimitForInstrument previous ask cap i = Inl e)"
proof -
  note tp = buy_target_props[OF assms(4,5,8,7)]
  have sane: "PrecisionSane i" and t: "0 < t" using tp(1) by (simp_all add: SupportsPrice_iff)
  note eq = buy_step_cases[OF assms(1,3,2) sane assms(4,6) tp(4)]
  show ?thesis
  proof (cases "t \<le> previous")
    case True
    then show ?thesis using eq t by auto
  next
    case False
    let ?raw = "previous + (t - previous + 1) div 2"
    have raw: "0 < ?raw" "previous \<le> ?raw" "?raw \<le> t" "t - ?raw \<le> (t - previous) div 2"
      using False assms(1) by (linarith, linarith, linarith, presburger)
    show ?thesis
    proof (cases "ceilPriceForInstrument ?raw i")
      case (Inl e)
      then have "\<not> schedule_aligned i"
        using ceilPriceForInstrument_total[OF tp(1) _ raw(1,3) tp(4) assms(5)] by auto
      then show ?thesis using eq False Inl by auto
    next
      case (Inr n)
      have "?raw \<le> n" using ceilPriceForInstrument_Inr(2)[OF Inr assms(5)] .
      then show ?thesis using eq False Inr raw by (intro disjI1) (auto simp: min_def)
    qed
  qed
qed

text \<open>C40: against an unchanged quote that has a target (the market price or, below it, the cap, on a tick), repeated buy
  reprices end exactly at the target after as many steps as the distance has bits, so 63 reprices are always
  enough; from above the target a single step is. The only other outcome is an error, and only on a tick schedule whose
  cutoff is not a multiple of its lower tick: there a rounded-up price may lie beyond the cutoff and on no tick.\<close>

theorem buy_reprices_converge:
  assumes "0 < previous" "0 < ask" "0 < cap" "buy_target ask cap i = Some t"
    and "instrument_int64 i" "in_int64 previous" "in_int64 ask" "in_int64 cap"
    and steps: "t - previous < 2 ^ n" "previous \<le> t \<or> 0 < n"
  shows "reprice_chain n previous ask cap i = Inr t \<or>
    \<not> schedule_aligned i \<and> (\<exists>e. reprice_chain n previous ask cap i = Inl e)"
  using assms(1,6) steps
proof (induction n arbitrary: previous)
  case 0
  then show ?case by simp
next
  case (Suc n)
  show ?case
  proof (cases "nextBoundedBuyLimitForInstrument previous ask cap i")
    case (Inl e)
    then show ?thesis using buy_step_progress[OF Suc.prems(1) assms(2-5) Suc.prems(2) assms(7,8)] by auto
  next
    case (Inr r)
    then have r: "0 < r" "r \<le> t" "t - r \<le> max 0 (t - previous) div 2"
      using buy_step_progress[OF Suc.prems(1) assms(2-5) Suc.prems(2) assms(7,8)] by auto
    have "in_int64 r" using r(1,2) buy_target_props(4)[OF assms(4,5,8,7)] unfolding in_int64_def by linarith
    moreover have "max 0 (t - previous) < 2 ^ Suc n" using Suc.prems(3) by simp
    then have "t - r < 2 ^ n" using r(3) by (simp split: if_splits add: max_def)
    ultimately show ?thesis using Suc.IH[of r] r(1,2) Inr by simp
  qed
qed

definition two_tick_instrument :: instrument where
  "two_tick_instrument = (fixed_tick_instrument 5)\<lparr>i_BelowPriceTick := 3, i_TickCutoff := 10\<rparr>"

theorem buy_reprices_converge_witness:
  "reprice_chain 17 1000000 1070000 1100000 (fixed_tick_instrument 10000) = Inr 1070000 \<and>
   (\<exists>e. reprice_chain 4 5 15 100 two_tick_instrument = Inl e)"
proof
  have "buy_target 1070000 1100000 (fixed_tick_instrument 10000) = Some 1070000" by code_simp
  then have "reprice_chain 17 1000000 1070000 1100000 (fixed_tick_instrument 10000) = Inr 1070000 \<or>
      \<not> schedule_aligned (fixed_tick_instrument 10000) \<and> (\<exists>e. reprice_chain 17 1000000 1070000 1100000 (fixed_tick_instrument 10000) = Inl e)"
    by (rule buy_reprices_converge[rotated 3])
      (simp_all add: instrument_int64_def fixed_tick_instrument_def in_int64_def Scale_def)
  then show "reprice_chain 17 1000000 1070000 1100000 (fixed_tick_instrument 10000) = Inr 1070000"
    by (simp add: schedule_aligned_def fixed_tick_instrument_def)
  have "\<not> is_ok (reprice_chain 4 5 15 100 two_tick_instrument)" by code_simp
  then show "\<exists>e. reprice_chain 4 5 15 100 two_tick_instrument = Inl e"
    by (cases "reprice_chain 4 5 15 100 two_tick_instrument") (simp_all add: is_ok_def)
qed

end
