(* ===== verification/State_Graph.thy ===== *)
theory State_Graph
  imports Prelude
begin

text \<open>
  The contract shared by the program's state machines. A machine is a one-step relation with a set
  of terminal states that no step leaves; what follows for every run is proved here once and
  interpreted on each machine where it is defined. A ranked machine also makes progress: every step
  raises a rank, so it cannot return to a state and a run has a bounded length.
\<close>

locale state_graph =
  fixes step :: "'s \<Rightarrow> 's \<Rightarrow> bool"
    and terminal :: "'s \<Rightarrow> bool"
  assumes terminal_stuck: "terminal s \<Longrightarrow> \<not> step s t"
begin

lemma terminal_absorbing: "step\<^sup>*\<^sup>* s t \<Longrightarrow> terminal s \<Longrightarrow> t = s"
  by (induction rule: converse_rtranclp_induct) (auto simp: terminal_stuck)

text \<open>A run is a list of the states it visits.\<close>

fun run :: "'s \<Rightarrow> 's list \<Rightarrow> bool" where
  "run s [] \<longleftrightarrow> True"
| "run s (t # ts) \<longleftrightarrow> step s t \<and> run t ts"

lemma run_reaches: "run s ts \<Longrightarrow> t \<in> set ts \<Longrightarrow> step\<^sup>+\<^sup>+ s t"
proof (induction ts arbitrary: s)
  case Nil
  then show ?case by simp
next
  case (Cons u us)
  then show ?case by (cases "t = u") (auto intro: tranclp_into_tranclp2)
qed

lemma run_terminal_last: "run s ts \<Longrightarrow> u \<in> set (butlast (s # ts)) \<Longrightarrow> \<not> terminal u"
  by (induction ts arbitrary: s) (auto simp: terminal_stuck split: if_splits)

end

locale ranked_graph = state_graph step terminal for step :: "'s \<Rightarrow> 's \<Rightarrow> bool" and terminal :: "'s \<Rightarrow> bool" +
  fixes rank :: "'s \<Rightarrow> nat" and top :: nat
  assumes step_rank: "step s t \<Longrightarrow> rank s < rank t"
    and rank_top: "step s t \<Longrightarrow> rank t \<le> top"
begin

lemma trancl_rank: "step\<^sup>+\<^sup>+ s t \<Longrightarrow> rank s < rank t"
  by (induction rule: tranclp_induct) (auto dest: step_rank)

lemma no_cycle: "\<not> step\<^sup>+\<^sup>+ s s"
  using trancl_rank by blast

lemma run_distinct: "run s ts \<Longrightarrow> distinct (s # ts)"
proof (induction ts arbitrary: s)
  case Nil
  then show ?case by simp
next
  case (Cons t ts)
  then have "s \<notin> set (t # ts)" using run_reaches[of s "t # ts" s] no_cycle by blast
  then show ?case using Cons by auto
qed

lemma run_length: "run s ts \<Longrightarrow> rank s + length ts \<le> max (rank s) top"
proof (induction ts arbitrary: s)
  case Nil
  then show ?case by simp
next
  case (Cons t ts)
  then have "rank t + length ts \<le> max (rank t) top" "rank s < rank t" "rank t \<le> top"
    using step_rank rank_top by auto
  then show ?case by simp
qed

end

text \<open>
  The contract of a system with shared state: an invariant that every step keeps holds after any
  interleaving of steps, and what every step only raises is only raised by any run.
\<close>

locale invariant_system =
  fixes step :: "'s \<Rightarrow> 's \<Rightarrow> bool"
    and inv :: "'s \<Rightarrow> bool"
  assumes step_inv: "inv s \<Longrightarrow> step s t \<Longrightarrow> inv t"
begin

lemma steps_inv: "step\<^sup>*\<^sup>* s t \<Longrightarrow> inv s \<Longrightarrow> inv t"
  by (induction rule: rtranclp_induct) (auto intro: step_inv)

end

locale monotone_system = invariant_system step inv for step :: "'s \<Rightarrow> 's \<Rightarrow> bool" and inv +
  fixes view :: "'s \<Rightarrow> 'v :: preorder"
  assumes step_view: "inv s \<Longrightarrow> step s t \<Longrightarrow> view s \<le> view t"
begin

lemma steps_view: "step\<^sup>*\<^sup>* s t \<Longrightarrow> inv s \<Longrightarrow> view s \<le> view t"
proof (induction rule: rtranclp_induct)
  case (step t u)
  then show ?case using step_view[OF steps_inv[OF step(1)] step(2)] order_trans by blast
qed simp

end

end
