(* ===== verification/Order_State.thy ===== *)
theory Order_State
  imports State_Graph
begin

text \<open>
  The order lifecycle: the transition table of \<^verbatim>\<open>kernel/internal/state/state.go\<close>, the
  store's acceptance rule \<open>validateOrderTransition\<close> (a fill observed on a new order goes through
  \<open>submitted\<close>) and the attempt and operation states a terminal order settles to
  (\<^verbatim>\<open>kernel/internal/store/orders.go\<close>).
\<close>

section \<open>The transition table\<close>

definition transitions :: "string \<Rightarrow> string \<Rightarrow> bool" where
  "transitions current next =
     (case map_of
        [(''new'', [''submitted'', ''rejected'']),
         (''submitted'', [''partially_filled'', ''filled'', ''cancelled'', ''rejected'', ''expired'']),
         (''partially_filled'', [''filled'', ''cancelled'', ''expired''])] current of
        None \<Rightarrow> False
      | Some nexts \<Rightarrow> next \<in> set nexts)"

definition Terminal :: "string \<Rightarrow> bool" where
  "Terminal s \<longleftrightarrow> s \<in> set [''filled'', ''cancelled'', ''rejected'', ''expired'']"

definition Advance :: "string \<Rightarrow> string \<Rightarrow> string result" where
  "Advance current next =
     (if transitions current next then Inr next
      else Inl (Errorf ''illegal order transition %s -> %s'' [current, next]))"


section \<open>Accepting an order update\<close>

definition ErrIllegalOrderTransition :: go_error where
  "ErrIllegalOrderTransition = Sentinel ''illegal order transition''"

definition wrap_illegal :: "string result \<Rightarrow> unit result" where
  "wrap_illegal r = (case r of Inl _ \<Rightarrow> Inl (Wrapf ErrIllegalOrderTransition ''%w: %v'')
                             | Inr _ \<Rightarrow> Inr ())"

definition validateOrderTransition :: "string \<Rightarrow> string \<Rightarrow> unit result" where
  "validateOrderTransition current next =
     (if current = next then Inr ()
      else if current = ''new'' \<and> next \<noteq> ''submitted'' \<and> next \<noteq> ''rejected''
      then (case Advance current ''submitted'' of
              Inl e \<Rightarrow> wrap_illegal (Inl e)
            | Inr _ \<Rightarrow> wrap_illegal (Advance ''submitted'' next))
      else wrap_illegal (Advance current next))"

definition terminalPlacementState :: "string \<Rightarrow> string \<times> string" where
  "terminalPlacementState orderState =
     (if orderState = ''filled'' then (''settled'', ''executed'')
      else if orderState = ''rejected'' then (''failed'', ''failed'')
      else if orderState = ''cancelled'' \<or> orderState = ''expired'' then (''settled'', ''failed'')
      else ('''', ''''))"

text \<open>\<open>isTerminalOrderState\<close> of \<^verbatim>\<open>kernel/cmd/kernel/reconciler.go\<close>.\<close>

definition isTerminalOrderState :: "string \<Rightarrow> bool" where
  "isTerminalOrderState s \<longleftrightarrow> s = ''filled'' \<or> s = ''cancelled'' \<or> s = ''rejected'' \<or> s = ''expired''"


section \<open>The machine\<close>

text \<open>The changes of state the store accepts, and how far along the lifecycle a state is.\<close>

definition order_change :: "string \<Rightarrow> string \<Rightarrow> bool" where
  "order_change s t \<longleftrightarrow> s \<noteq> t \<and> is_ok (validateOrderTransition s t)"

definition order_rank :: "string \<Rightarrow> nat" where
  "order_rank s = (if s = ''new'' then 0 else if s = ''submitted'' then 1
     else if s = ''partially_filled'' then 2 else if Terminal s then 3 else 0)"

lemma order_state_exhaust:
  obtains "s = ''new''" | "s = ''submitted''" | "s = ''partially_filled''" | "s = ''filled''"
  | "s = ''cancelled''" | "s = ''rejected''" | "s = ''expired''"
  | "s \<noteq> ''new''" "s \<noteq> ''submitted''" "s \<noteq> ''partially_filled''" "s \<noteq> ''filled''"
    "s \<noteq> ''cancelled''" "s \<noteq> ''rejected''" "s \<noteq> ''expired''"
  by blast

lemmas order_change_defs = order_change_def validateOrderTransition_def wrap_illegal_def
  Advance_def transitions_def

lemma order_change_next:
  "order_change ''new'' t \<longleftrightarrow>
     t \<in> {''submitted'', ''rejected'', ''partially_filled'', ''filled'', ''cancelled'', ''expired''}"
  "order_change ''submitted'' t \<longleftrightarrow>
     t \<in> {''partially_filled'', ''filled'', ''cancelled'', ''rejected'', ''expired''}"
  "order_change ''partially_filled'' t \<longleftrightarrow> t \<in> {''filled'', ''cancelled'', ''expired''}"
  by (cases t rule: order_state_exhaust; simp add: order_change_defs)+

lemma order_change_none:
  "s \<noteq> ''new'' \<Longrightarrow> s \<noteq> ''submitted'' \<Longrightarrow> s \<noteq> ''partially_filled'' \<Longrightarrow> \<not> order_change s t"
  by (simp add: order_change_defs)

lemma Terminal_iff: "Terminal s \<longleftrightarrow> s \<in> {''filled'', ''cancelled'', ''rejected'', ''expired''}"
  by (simp add: Terminal_def)

interpretation order: ranked_graph order_change Terminal order_rank 3
proof
  fix s t
  show "Terminal s \<Longrightarrow> \<not> order_change s t"
    using order_change_none[of s t] by (auto simp: Terminal_iff)
  assume *: "order_change s t"
  then have "s \<in> {''new'', ''submitted'', ''partially_filled''}"
    using order_change_none[of s t] by auto
  with * show "order_rank s < order_rank t"
    by (cases t rule: order_state_exhaust)
      (elim insertE emptyE; simp add: order_change_next order_rank_def Terminal_iff)+
  show "order_rank t \<le> 3" by (simp add: order_rank_def)
qed

text \<open>the order lifecycle makes progress and stops. From any state, a sequence of accepted
  state changes never visits a state twice, never leaves a terminal state, and is at most three
  changes long.\<close>

lemma order_lifecycle_finite:
  assumes "order.run s ts"
  shows "distinct (s # ts) \<and> list_all (\<lambda>u. \<not> Terminal u) (butlast (s # ts)) \<and> length ts \<le> 3"
  using order.run_distinct[OF assms] order.run_terminal_last[OF assms] order.run_length[OF assms]
  by (auto simp: order_rank_def list_all_iff split: if_splits)

text \<open>A terminal placement settles the attempt exactly for terminal orders; the two terminal tests of
  the code agree.\<close>

lemma terminalPlacementState_iff: "fst (terminalPlacementState s) \<noteq> '''' \<longleftrightarrow> Terminal s"
  by (simp add: terminalPlacementState_def Terminal_iff)

lemma isTerminalOrderState_Terminal: "isTerminalOrderState s \<longleftrightarrow> Terminal s"
  by (auto simp: isTerminalOrderState_def Terminal_iff)

lemma validateOrderTransition_terminal:
  "Terminal s \<Longrightarrow> is_ok (validateOrderTransition s t) \<longleftrightarrow> t = s"
  using order.terminal_stuck[of s t]
  by (cases "s = t") (simp_all add: order_change_def validateOrderTransition_def)

lemma validateOrderTransition_error:
  "validateOrderTransition s t = Inl e \<Longrightarrow> errors_is e ErrIllegalOrderTransition"
  by (auto simp: validateOrderTransition_def wrap_illegal_def split: if_splits sum.splits)

end
