(* ===== verification/Policy.thy ===== *)
theory Policy
  imports Units "HOL-Library.List_Lexorder" "HOL-Library.Char_ord"
begin

text \<open>
  \<^verbatim>\<open>kernel/internal/policy/policy.go\<close> and \<^verbatim>\<open>bootstrap.go\<close>: the human policy the
  Kernel enforces. Validation and normalisation to the canonical form, the fail-closed decoding of
  a stored revision, and the classification of a policy change. \<open>encoding/json\<close>, the YAML
  decoder and SHA-256 are arguments (\<open>decode\<close>, \<open>marshal\<close>, \<open>sha256\<close>).

  The lemmas show that normalisation is a projection onto canonical policies (so a stored revision
  decodes back), and that the change classes mean what they say field by field.
\<close>

definition SchemaVersion :: int64 where "SchemaVersion = 1"
definition maxUnderlyings :: int64 where "maxUnderlyings = 2048"
definition maxPlanRequirements :: int64 where "maxPlanRequirements = 32"
definition maxPolicyString :: int64 where "maxPolicyString = 64"
definition maxQuoteAgeSec :: int64 where "maxQuoteAgeSec = 24 * 60 * 60"
definition maxProposalTTLSec :: int64 where "maxProposalTTLSec = 30 * 24 * 60 * 60"
definition maxRepriceInterval :: int64 where "maxRepriceInterval = 24 * 60 * 60"
definition maxReprices :: int64 where "maxReprices = 100"

record hard_limits =
  MaxRiskPerTradePct :: percent_micros
  MaxTotalOpenRiskPct :: percent_micros
  MaxNewTradesPerDay :: int64
  MaxDailyLossPct :: percent_micros
  ConsecutiveLossDaysHalt :: int64

record instrument_rules =
  MinOpenInterest :: int64
  MaxRelativeSpread :: ratio_micros

record execution_policy =
  StartAt :: string
  RepriceIntervalSec :: int64
  MaxReprices :: int64
  FeePerContract :: micros
  FeePerShare :: micros

record policy =
  HardLimits :: hard_limits
  Underlyings :: "string list"
  InstrumentRules :: instrument_rules
  PlanRequirements :: "string list"
  ExecutionPolicy :: execution_policy
  RiskDeclarationTolerance :: micros
  PnLReconciliationTolerance :: micros
  QuoteMaxAgeSec :: int64
  ProposalTTLSec :: int64


section \<open>Normalisation\<close>

definition validatePercent :: "string \<Rightarrow> percent_micros \<Rightarrow> unit result" where
  "validatePercent name v =
     (if v \<le> 0 \<or> v > 100 * Scale
      then Inl (Errorf ''%s must be greater than 0 and no more than 100'' [name]) else Inr ())"

definition normalized_value :: "bool \<Rightarrow> string \<Rightarrow> string" where
  "normalized_value uppercase v =
     (if uppercase then to_upper (trim_space v) else to_lower (trim_space v))"

fun normalized_loop ::
  "bool \<Rightarrow> string \<Rightarrow> string list \<Rightarrow> string list \<Rightarrow> string list \<Rightarrow> string list result" where
  "normalized_loop uppercase label seen acc [] = Inr acc"
| "normalized_loop uppercase label seen acc (v # vs) =
     (let w = normalized_value uppercase v
      in if w = [] \<or> int (length w) > maxPolicyString then Inl (Errorf ''invalid %s'' [label])
         else if w \<in> set seen then Inl (Errorf ''duplicate %s %q'' [label, w])
         else normalized_loop uppercase label (w # seen) (acc @ [w]) vs)"

definition normalizedSet :: "string list \<Rightarrow> bool \<Rightarrow> int64 \<Rightarrow> string \<Rightarrow> string list result" where
  "normalizedSet values uppercase maximum label =
     (if int (length values) > maximum then Inl (Errorf ''too many %ss'' [label])
      else (case normalized_loop uppercase label [] [] values of
              Inl e \<Rightarrow> Inl e
            | Inr r \<Rightarrow> Inr (sort r)))"

text \<open>The scalar checks after the sets, in the code's order.\<close>

definition normalize_rest :: "policy \<Rightarrow> policy result" where
  "normalize_rest p =
     (let x = (ExecutionPolicy p)\<lparr>StartAt := to_lower (trim_space (StartAt (ExecutionPolicy p)))\<rparr>;
          p = p\<lparr>ExecutionPolicy := x\<rparr>
      in if StartAt x \<noteq> ''mid'' \<and> StartAt x \<noteq> ''ask''
         then Inl (Errorf ''start_at must be mid or ask'' [])
         else if RepriceIntervalSec x \<le> 0 \<or> RepriceIntervalSec x > maxRepriceInterval
         then Inl (Errorf ''reprice_interval_sec is outside the structural range'' [])
         else if MaxReprices x < 0 \<or> MaxReprices x > maxReprices
         then Inl (Errorf ''max_reprices is outside the structural range'' [])
         else if FeePerContract x < 0 \<or> FeePerShare x < 0
         then Inl (Errorf ''fee assumptions must not be negative'' [])
         else if RiskDeclarationTolerance p < 0 \<or> PnLReconciliationTolerance p < 0
         then Inl (Errorf ''reconciliation tolerances must not be negative'' [])
         else if QuoteMaxAgeSec p \<le> 0 \<or> QuoteMaxAgeSec p > maxQuoteAgeSec
         then Inl (Errorf ''quote_max_age_sec is outside the structural range'' [])
         else if ProposalTTLSec p \<le> 0 \<or> ProposalTTLSec p > maxProposalTTLSec
         then Inl (Errorf ''proposal_ttl_sec is outside the structural range'' [])
         else Inr p)"

definition normalize_limits :: "policy \<Rightarrow> unit result" where
  "normalize_limits p =
     (let h = HardLimits p
      in case validatePercent ''max_risk_per_trade_pct'' (MaxRiskPerTradePct h) of Inl e \<Rightarrow> Inl e
       | Inr _ \<Rightarrow>
      (case validatePercent ''max_total_open_risk_pct'' (MaxTotalOpenRiskPct h) of Inl e \<Rightarrow> Inl e
       | Inr _ \<Rightarrow>
         if MaxNewTradesPerDay h \<le> 0
         then Inl (Errorf ''max_new_trades_per_day must be positive'' [])
         else (case validatePercent ''max_daily_loss_pct'' (MaxDailyLossPct h) of Inl e \<Rightarrow> Inl e
               | Inr _ \<Rightarrow>
                 if ConsecutiveLossDaysHalt h \<le> 0
                 then Inl (Errorf ''consecutive_loss_days_halt must be positive'' [])
                 else Inr ())))"

definition normalize :: "policy \<Rightarrow> policy result" where
  "normalize input =
     (case normalize_limits input of Inl e \<Rightarrow> Inl e | Inr _ \<Rightarrow>
     (case normalizedSet (Underlyings input) True maxUnderlyings ''underlying'' of Inl e \<Rightarrow> Inl e
      | Inr us \<Rightarrow>
        (let p = input\<lparr>Underlyings := us\<rparr>; r = InstrumentRules p
         in if MinOpenInterest r < 0
            then Inl (Errorf ''min_open_interest must not be negative'' [])
            else if MaxRelativeSpread r < 0 \<or> MaxRelativeSpread r > Scale
            then Inl (Errorf ''max_relative_spread must be between 0 and 1'' [])
            else (case normalizedSet (PlanRequirements p) False maxPlanRequirements
                        ''plan requirement'' of Inl e \<Rightarrow> Inl e
                  | Inr ps \<Rightarrow>
                    (if ps = [] then Inl (Errorf ''plan_requirements must not be empty'' [])
                     else normalize_rest (p\<lparr>PlanRequirements := ps\<rparr>))))))"


section \<open>Canonical revisions\<close>

definition Canonical ::
  "(policy \<Rightarrow> string) \<Rightarrow> (int64 \<Rightarrow> policy \<Rightarrow> string) \<Rightarrow> (string \<Rightarrow> string) \<Rightarrow> policy
     \<Rightarrow> (policy \<times> string \<times> string) result" where
  "Canonical marshal marshal_document sha256 input =
     (case normalize input of
        Inl e \<Rightarrow> Inl e
      | Inr n \<Rightarrow> Inr (n, marshal n, sha256 (marshal_document SchemaVersion n)))"

definition DecodeCanonical ::
  "(string \<Rightarrow> policy result) \<Rightarrow> (policy \<Rightarrow> string) \<Rightarrow> (int64 \<Rightarrow> policy \<Rightarrow> string) \<Rightarrow> (string \<Rightarrow> string)
     \<Rightarrow> int64 \<Rightarrow> string \<Rightarrow> string \<Rightarrow> policy result" where
  "DecodeCanonical decode marshal marshal_document sha256 schemaVersion body digest =
     (if schemaVersion \<noteq> SchemaVersion \<or> length digest \<noteq> 32
      then Inl (Errorf ''unsupported or invalid policy schema'' [])
      else (case decode body of
              Inl e \<Rightarrow> Inl e
            | Inr decoded \<Rightarrow>
                (case Canonical marshal marshal_document sha256 decoded of
                   Inl e \<Rightarrow> Inl e
                 | Inr (n, _, canonicalDigest) \<Rightarrow>
                     if decoded \<noteq> n then Inl (Errorf ''policy body is not canonical'' [])
                     else if digest \<noteq> canonicalDigest
                     then Inl (Errorf ''policy digest mismatch'' [])
                     else Inr n)))"


section \<open>The bootstrap document\<close>

record bootstrap_document =
  bd_Policy :: policy
  bd_AllowNakedShortOptions :: bool
  bd_OrderType :: string

definition DecodeBootstrapYAML ::
  "(string \<Rightarrow> bootstrap_document result) \<Rightarrow> string \<Rightarrow> policy result" where
  "DecodeBootstrapYAML decode raw =
     (case decode raw of
        Inl e \<Rightarrow> Inl e
      | Inr source \<Rightarrow>
          if bd_AllowNakedShortOptions source
          then Inl (Errorf ''allow_naked_short_options cannot enable a structurally unsupported effect'' [])
          else if bd_OrderType source \<noteq> ''limit''
          then Inl (Errorf ''order_type must match the structural limit-only invariant'' [])
          else normalize (bd_Policy source))"


section \<open>Classifying a change\<close>

datatype change_class = ChangeInitial | ChangeTighten | ChangeWiden | ChangeMixed

record change_direction =
  tighten :: bool
  widen :: bool

definition change_class_of :: "change_direction \<Rightarrow> change_class" where
  "change_class_of d =
     (if tighten d \<and> widen d then ChangeMixed else if widen d then ChangeWiden else ChangeTighten)"

definition compareHigherWidens :: "int64 \<Rightarrow> int64 \<Rightarrow> change_direction \<Rightarrow> change_direction" where
  "compareHigherWidens oldValue newValue d =
     (if newValue > oldValue then d\<lparr>widen := True\<rparr>
      else if newValue < oldValue then d\<lparr>tighten := True\<rparr> else d)"

definition compareHigherTightens :: "int64 \<Rightarrow> int64 \<Rightarrow> change_direction \<Rightarrow> change_direction" where
  "compareHigherTightens oldValue newValue d = compareHigherWidens newValue oldValue d"

definition compareStartAt :: "string \<Rightarrow> string \<Rightarrow> change_direction \<Rightarrow> change_direction" where
  "compareStartAt oldValue newValue d =
     (if oldValue = newValue then d
      else if oldValue = ''mid'' \<and> newValue = ''ask'' then d\<lparr>widen := True\<rparr>
      else d\<lparr>tighten := True\<rparr>)"

definition setContains :: "string list \<Rightarrow> string list \<Rightarrow> bool" where
  "setContains container candidate \<longleftrightarrow> list_all (\<lambda>v. v \<in> set container) candidate"

definition compareAllowedSet :: "string list \<Rightarrow> string list \<Rightarrow> change_direction \<Rightarrow> change_direction" where
  "compareAllowedSet oldValues newValues d =
     (if oldValues = newValues then d
      else if oldValues = [] then d\<lparr>tighten := True\<rparr>
      else if newValues = [] then d\<lparr>widen := True\<rparr>
      else (let oldContainsNew = setContains oldValues newValues;
                newContainsOld = setContains newValues oldValues;
                d1 = (if oldContainsNew then d\<lparr>tighten := True\<rparr> else d);
                d2 = (if newContainsOld then d1\<lparr>widen := True\<rparr> else d1)
            in if \<not> oldContainsNew \<and> \<not> newContainsOld then d2\<lparr>tighten := True, widen := True\<rparr>
               else d2))"

definition compareRequiredSet :: "string list \<Rightarrow> string list \<Rightarrow> change_direction \<Rightarrow> change_direction" where
  "compareRequiredSet oldValues newValues d =
     (if oldValues = newValues then d
      else (let oldContainsNew = setContains oldValues newValues;
                newContainsOld = setContains newValues oldValues;
                d1 = (if newContainsOld then d\<lparr>tighten := True\<rparr> else d);
                d2 = (if oldContainsNew then d1\<lparr>widen := True\<rparr> else d1)
            in if \<not> oldContainsNew \<and> \<not> newContainsOld then d2\<lparr>tighten := True, widen := True\<rparr>
               else d2))"

definition policy_direction :: "policy \<Rightarrow> policy \<Rightarrow> change_direction" where
  "policy_direction old new =
     (let h = HardLimits old; h' = HardLimits new;
          r = InstrumentRules old; r' = InstrumentRules new;
          x = ExecutionPolicy old; x' = ExecutionPolicy new;
          d = \<lparr>tighten = False, widen = False\<rparr>;
          d = compareHigherWidens (MaxRiskPerTradePct h) (MaxRiskPerTradePct h') d;
          d = compareHigherWidens (MaxTotalOpenRiskPct h) (MaxTotalOpenRiskPct h') d;
          d = compareHigherWidens (MaxNewTradesPerDay h) (MaxNewTradesPerDay h') d;
          d = compareHigherWidens (MaxDailyLossPct h) (MaxDailyLossPct h') d;
          d = compareHigherWidens (ConsecutiveLossDaysHalt h) (ConsecutiveLossDaysHalt h') d;
          d = compareAllowedSet (Underlyings old) (Underlyings new) d;
          d = compareHigherTightens (MinOpenInterest r) (MinOpenInterest r') d;
          d = compareHigherWidens (MaxRelativeSpread r) (MaxRelativeSpread r') d;
          d = compareRequiredSet (PlanRequirements old) (PlanRequirements new) d;
          d = compareStartAt (StartAt x) (StartAt x') d;
          d = compareHigherTightens (RepriceIntervalSec x) (RepriceIntervalSec x') d;
          d = compareHigherWidens (MaxReprices x) (MaxReprices x') d;
          d = compareHigherTightens (FeePerContract x) (FeePerContract x') d;
          d = compareHigherTightens (FeePerShare x) (FeePerShare x') d;
          d = compareHigherWidens (RiskDeclarationTolerance old) (RiskDeclarationTolerance new) d;
          d = compareHigherWidens (PnLReconciliationTolerance old) (PnLReconciliationTolerance new) d;
          d = compareHigherWidens (QuoteMaxAgeSec old) (QuoteMaxAgeSec new) d;
          d = compareHigherWidens (ProposalTTLSec old) (ProposalTTLSec new) d
      in d)"

definition ClassifyChange :: "policy \<Rightarrow> policy \<Rightarrow> change_class result" where
  "ClassifyChange oldPolicy newPolicy =
     (case normalize oldPolicy of Inl e \<Rightarrow> Inl (Wrapf e ''old policy: %w'')
      | Inr old \<Rightarrow>
        (case normalize newPolicy of Inl e \<Rightarrow> Inl (Wrapf e ''new policy: %w'')
         | Inr new \<Rightarrow> Inr (change_class_of (policy_direction old new))))"

section \<open>Normalisation is a projection\<close>

text \<open>The values a normalised set may hold, and the shape of the whole set.\<close>

definition canonical_value :: "bool \<Rightarrow> string \<Rightarrow> bool" where
  "canonical_value u v \<longleftrightarrow>
     v \<noteq> [] \<and> int (length v) \<le> maxPolicyString \<and> normalized_value u v = v"

definition canonical_set :: "bool \<Rightarrow> int64 \<Rightarrow> string list \<Rightarrow> bool" where
  "canonical_set u maximum vs \<longleftrightarrow>
     list_all (canonical_value u) vs \<and> distinct vs \<and> sorted vs \<and> int (length vs) \<le> maximum"

lemma normalized_value_idem [simp]:
  "normalized_value u (normalized_value u v) = normalized_value u v"
proof -
  have "trim_space (to_upper (trim_space v)) = to_upper (trim_space v)"
    "trim_space (to_lower (trim_space v)) = to_lower (trim_space v)"
    by (rule trim_space_trimmed; simp)+
  then show ?thesis by (simp add: normalized_value_def)
qed

lemma normalized_loop_ok:
  "normalized_loop u label seen acc vs = Inr r \<longleftrightarrow>
     r = acc @ map (normalized_value u) vs \<and> distinct (map (normalized_value u) vs) \<and>
     set (map (normalized_value u) vs) \<inter> set seen = {} \<and>
     list_all (canonical_value u) (map (normalized_value u) vs)"
  by (induction u label seen acc vs rule: normalized_loop.induct)
    (auto simp: Let_def canonical_value_def not_less)

lemma normalizedSet_ok:
  "normalizedSet vs u maximum label = Inr r \<longleftrightarrow>
     r = sort (map (normalized_value u) vs) \<and> canonical_set u maximum r"
proof -
  let ?ws = "map (normalized_value u) vs"
  have "list_all P (sort ws) \<longleftrightarrow> list_all P ws" for P and ws :: "string list"
    by (simp add: list_all_iff)
  then have "normalized_loop u label [] [] vs = Inr ?ws \<and> int (length vs) \<le> maximum
      \<longleftrightarrow> canonical_set u maximum (sort ?ws)"
    by (auto simp: normalized_loop_ok canonical_set_def)
  moreover have "normalized_loop u label [] [] vs = Inr ws \<Longrightarrow> ws = ?ws" for ws
    by (simp add: normalized_loop_ok)
  ultimately show ?thesis
    by (cases "normalized_loop u label [] [] vs") (auto simp: normalizedSet_def not_less)
qed

lemma normalizedSet_canonical:
  assumes "canonical_set u maximum r"
  shows "normalizedSet r u maximum label = Inr r"
proof -
  have "map (normalized_value u) r = r"
    using assms by (intro map_idI) (auto simp: canonical_set_def list_all_iff canonical_value_def)
  moreover have "sort r = r" using assms by (simp add: canonical_set_def sort_key_id_if_sorted)
  ultimately show ?thesis using assms by (simp add: normalizedSet_ok)
qed

definition percent_ok :: "percent_micros \<Rightarrow> bool" where
  "percent_ok v \<longleftrightarrow> 0 < v \<and> v \<le> 100 * Scale"

text \<open>What the Kernel promises of an installed policy, as ranges of its fields.\<close>

definition limits_ok :: "hard_limits \<Rightarrow> bool" where
  "limits_ok h \<longleftrightarrow> percent_ok (MaxRiskPerTradePct h) \<and> percent_ok (MaxTotalOpenRiskPct h) \<and>
     0 < MaxNewTradesPerDay h \<and> percent_ok (MaxDailyLossPct h) \<and> 0 < ConsecutiveLossDaysHalt h"

definition start_ok :: "string \<Rightarrow> bool" where
  "start_ok a \<longleftrightarrow> a = ''mid'' \<or> a = ''ask''"

definition execution_ok :: "execution_policy \<Rightarrow> bool" where
  "execution_ok x \<longleftrightarrow> start_ok (StartAt x) \<and>
     0 < RepriceIntervalSec x \<and> RepriceIntervalSec x \<le> maxRepriceInterval \<and>
     0 \<le> MaxReprices x \<and> MaxReprices x \<le> maxReprices \<and> 0 \<le> FeePerContract x \<and> 0 \<le> FeePerShare x"

definition canonical_policy :: "policy \<Rightarrow> bool" where
  "canonical_policy p \<longleftrightarrow>
     limits_ok (HardLimits p) \<and> canonical_set True maxUnderlyings (Underlyings p) \<and>
     0 \<le> MinOpenInterest (InstrumentRules p) \<and>
     0 \<le> MaxRelativeSpread (InstrumentRules p) \<and> MaxRelativeSpread (InstrumentRules p) \<le> Scale \<and>
     canonical_set False maxPlanRequirements (PlanRequirements p) \<and> PlanRequirements p \<noteq> [] \<and>
     execution_ok (ExecutionPolicy p) \<and>
     0 \<le> RiskDeclarationTolerance p \<and> 0 \<le> PnLReconciliationTolerance p \<and>
     0 < QuoteMaxAgeSec p \<and> QuoteMaxAgeSec p \<le> maxQuoteAgeSec \<and>
     0 < ProposalTTLSec p \<and> ProposalTTLSec p \<le> maxProposalTTLSec"

definition canonical_form :: "policy \<Rightarrow> policy" where
  "canonical_form p = p\<lparr>
     Underlyings := sort (map (normalized_value True) (Underlyings p)),
     PlanRequirements := sort (map (normalized_value False) (PlanRequirements p)),
     ExecutionPolicy := (ExecutionPolicy p)\<lparr>StartAt := normalized_value False (StartAt (ExecutionPolicy p))\<rparr>\<rparr>"

lemma validatePercent_ok: "validatePercent name v = Inr u \<longleftrightarrow> percent_ok v"
  by (auto simp: validatePercent_def percent_ok_def)

lemma normalize_limits_ok: "normalize_limits p = Inr u \<longleftrightarrow> limits_ok (HardLimits p)"
  by (auto simp: normalize_limits_def Let_def case_sum_Inr_iff validatePercent_ok limits_ok_def)

lemma normalize_rest_ok:
  "normalize_rest p = Inr n \<longleftrightarrow>
     n = p\<lparr>ExecutionPolicy := (ExecutionPolicy p)\<lparr>StartAt := normalized_value False (StartAt (ExecutionPolicy p))\<rparr>\<rparr> \<and>
     execution_ok (ExecutionPolicy n) \<and>
     0 \<le> RiskDeclarationTolerance n \<and> 0 \<le> PnLReconciliationTolerance n \<and>
     0 < QuoteMaxAgeSec n \<and> QuoteMaxAgeSec n \<le> maxQuoteAgeSec \<and>
     0 < ProposalTTLSec n \<and> ProposalTTLSec n \<le> maxProposalTTLSec"
proof -
  obtain q where q: "q = p\<lparr>ExecutionPolicy := (ExecutionPolicy p)
      \<lparr>StartAt := normalized_value False (StartAt (ExecutionPolicy p))\<rparr>\<rparr>" by blast
  have start: "start_ok a \<longleftrightarrow> \<not> (a \<noteq> ''mid'' \<and> a \<noteq> ''ask'')" for a
    unfolding start_ok_def by blast
  have "normalize_rest p = Inr n \<longleftrightarrow> execution_ok (ExecutionPolicy q) \<and>
     0 \<le> RiskDeclarationTolerance q \<and> 0 \<le> PnLReconciliationTolerance q \<and>
     0 < QuoteMaxAgeSec q \<and> QuoteMaxAgeSec q \<le> maxQuoteAgeSec \<and>
     0 < ProposalTTLSec q \<and> ProposalTTLSec q \<le> maxProposalTTLSec \<and> q = n"
    unfolding normalize_rest_def Let_def if_Inl_eq_Inr execution_ok_def start
    by (simp add: q normalized_value_def not_less not_le)
  then show ?thesis using q by blast
qed

lemma canonical_form_fields [simp]:
  "HardLimits (canonical_form p) = HardLimits p"
  "Underlyings (canonical_form p) = sort (map (normalized_value True) (Underlyings p))"
  "InstrumentRules (canonical_form p) = InstrumentRules p"
  "PlanRequirements (canonical_form p) = sort (map (normalized_value False) (PlanRequirements p))"
  by (simp_all add: canonical_form_def)

lemma limits_case:
  "(case normalize_limits p of Inl e \<Rightarrow> Inl e | Inr u \<Rightarrow> k) = Inr n \<longleftrightarrow>
     limits_ok (HardLimits p) \<and> k = Inr n"
  by (auto simp: case_sum_Inr_iff normalize_limits_ok)

lemma set_case:
  "(case normalizedSet vs u m label of Inl e \<Rightarrow> Inl e | Inr r \<Rightarrow> k r) = Inr n \<longleftrightarrow>
     canonical_set u m (sort (map (normalized_value u) vs)) \<and>
     k (sort (map (normalized_value u) vs)) = Inr n"
  by (auto simp: case_sum_Inr_iff normalizedSet_ok)

lemma normalize_ok: "normalize p = Inr n \<longleftrightarrow> n = canonical_form p \<and> canonical_policy n"
proof -
  let ?q = "p\<lparr>Underlyings := sort (map (normalized_value True) (Underlyings p)),
    PlanRequirements := sort (map (normalized_value False) (PlanRequirements p))\<rparr>"
  have rest: "normalize_rest ?q = Inr n \<longleftrightarrow> n = canonical_form p \<and> execution_ok (ExecutionPolicy n) \<and>
     0 \<le> RiskDeclarationTolerance n \<and> 0 \<le> PnLReconciliationTolerance n \<and>
     0 < QuoteMaxAgeSec n \<and> QuoteMaxAgeSec n \<le> maxQuoteAgeSec \<and>
     0 < ProposalTTLSec n \<and> ProposalTTLSec n \<le> maxProposalTTLSec"
  proof -
    have "?q\<lparr>ExecutionPolicy := (ExecutionPolicy ?q)
      \<lparr>StartAt := normalized_value False (StartAt (ExecutionPolicy ?q))\<rparr>\<rparr> = canonical_form p"
      unfolding canonical_form_def by simp
    then show ?thesis by (simp only: normalize_rest_ok)
  qed
  have "normalize p = Inr n \<longleftrightarrow> limits_ok (HardLimits p) \<and> canonical_set True maxUnderlyings (Underlyings ?q) \<and>
     0 \<le> MinOpenInterest (InstrumentRules p) \<and>
     0 \<le> MaxRelativeSpread (InstrumentRules p) \<and> MaxRelativeSpread (InstrumentRules p) \<le> Scale \<and>
     canonical_set False maxPlanRequirements (PlanRequirements ?q) \<and> PlanRequirements ?q \<noteq> [] \<and>
     normalize_rest ?q = Inr n"
    by (simp add: normalize_def Let_def limits_case set_case not_less)
  moreover have "n = canonical_form p \<and> canonical_policy n \<longleftrightarrow>
     n = canonical_form p \<and> canonical_policy (canonical_form p)" by blast
  ultimately show ?thesis unfolding rest by (simp add: canonical_policy_def) blast
qed

lemma start_ok_normal: "start_ok a \<Longrightarrow> normalized_value False a = a"
  unfolding start_ok_def by (elim disjE; simp only:; code_simp)

lemma canonical_form_id:
  assumes "canonical_policy p"
  shows "canonical_form p = p"
proof -
  have sets: "sort (map (normalized_value True) (Underlyings p)) = Underlyings p"
    "sort (map (normalized_value False) (PlanRequirements p)) = PlanRequirements p"
    using assms normalizedSet_canonical normalizedSet_ok unfolding canonical_policy_def by metis+
  have "normalized_value False (StartAt (ExecutionPolicy p)) = StartAt (ExecutionPolicy p)"
    using assms by (simp add: canonical_policy_def execution_ok_def start_ok_normal)
  then show ?thesis by (simp add: canonical_form_def sets)
qed

lemma normalize_canonical: "canonical_policy p \<Longrightarrow> normalize p = Inr p"
  by (simp add: normalize_ok canonical_form_id)

lemma canonical_policy_normalize: "normalize q = Inr q \<longleftrightarrow> canonical_policy q"
  using normalize_canonical normalize_ok by blast

text \<open>normalisation is a projection onto the canonical policies. It succeeds with \<open>n\<close> exactly when \<open>n\<close> is
  the input with its sets trimmed, folded to one case and sorted and its start word trimmed and
  lowered, and every field of \<open>n\<close> is in its structural range; and a policy is left alone by
  normalisation exactly when it is canonical.\<close>

lemma normalize_projection:
  "(normalize p = Inr n \<longleftrightarrow> n = canonical_form p \<and> canonical_policy n) \<and>
   (normalize q = Inr q \<longleftrightarrow> canonical_policy q)"
  using normalize_ok canonical_policy_normalize by blast

lemma Canonical_ok:
  "Canonical m md h p = Inr r \<longleftrightarrow>
     r = (canonical_form p, m (canonical_form p), h (md SchemaVersion (canonical_form p))) \<and>
     canonical_policy (canonical_form p)"
  by (auto simp: Canonical_def case_sum_Inr_iff normalize_ok)

lemma DecodeCanonical_ok:
  "DecodeCanonical decode m md h v body digest = Inr n \<longleftrightarrow>
     v = SchemaVersion \<and> length digest = 32 \<and> decode body = Inr n \<and> canonical_policy n \<and>
     digest = h (md SchemaVersion n)"
proof -
  have "(case Canonical m md h d of Inl e \<Rightarrow> Inl e
      | Inr (n', x, cd) \<Rightarrow> if d \<noteq> n' then Inl (Errorf ''policy body is not canonical'' [])
          else if digest \<noteq> cd then Inl (Errorf ''policy digest mismatch'' []) else Inr n') = Inr n
      \<longleftrightarrow> d = n \<and> canonical_policy n \<and> digest = h (md SchemaVersion n)" for d
    by (auto simp: case_sum_Inr_iff Canonical_ok canonical_form_id split: if_splits)
  then show ?thesis by (auto simp: DecodeCanonical_def case_sum_Inr_iff)
qed

text \<open>decoding a stored policy revision fails closed. The decoder returns a policy exactly when
  the schema and the digest length are the supported ones, the body decodes to that very policy,
  the policy is canonical, and the stored digest is the digest of its canonical document; whatever
  the JSON decoder, the encoder and the hash function do.\<close>

lemma DecodeCanonical_iff:
  "DecodeCanonical decode m md h v body digest = Inr n \<longleftrightarrow>
     v = SchemaVersion \<and> length digest = 32 \<and> decode body = Inr n \<and> canonical_policy n \<and>
     digest = h (md SchemaVersion n)"
  by (rule DecodeCanonical_ok)


section \<open>What a change class means\<close>

text \<open>The symbols a policy lets trade: every symbol when the list is empty.\<close>

definition allows_symbol :: "policy \<Rightarrow> string \<Rightarrow> bool" where
  "allows_symbol p s \<longleftrightarrow> Underlyings p = [] \<or> s \<in> set (Underlyings p)"

definition limits_no_looser :: "hard_limits \<Rightarrow> hard_limits \<Rightarrow> bool" where
  "limits_no_looser old new \<longleftrightarrow>
     MaxRiskPerTradePct new \<le> MaxRiskPerTradePct old \<and>
     MaxTotalOpenRiskPct new \<le> MaxTotalOpenRiskPct old \<and>
     MaxNewTradesPerDay new \<le> MaxNewTradesPerDay old \<and>
     MaxDailyLossPct new \<le> MaxDailyLossPct old \<and>
     ConsecutiveLossDaysHalt new \<le> ConsecutiveLossDaysHalt old"

definition execution_no_looser :: "execution_policy \<Rightarrow> execution_policy \<Rightarrow> bool" where
  "execution_no_looser old new \<longleftrightarrow>
     (StartAt new = StartAt old \<or> StartAt old = ''ask'') \<and>
     RepriceIntervalSec old \<le> RepriceIntervalSec new \<and> MaxReprices new \<le> MaxReprices old \<and>
     FeePerContract old \<le> FeePerContract new \<and> FeePerShare old \<le> FeePerShare new"

definition no_looser :: "policy \<Rightarrow> policy \<Rightarrow> bool" where
  "no_looser old new \<longleftrightarrow>
     limits_no_looser (HardLimits old) (HardLimits new) \<and>
     (Underlyings old = [] \<or> Underlyings new \<noteq> [] \<and> set (Underlyings new) \<subseteq> set (Underlyings old)) \<and>
     MinOpenInterest (InstrumentRules old) \<le> MinOpenInterest (InstrumentRules new) \<and>
     MaxRelativeSpread (InstrumentRules new) \<le> MaxRelativeSpread (InstrumentRules old) \<and>
     set (PlanRequirements old) \<subseteq> set (PlanRequirements new) \<and>
     execution_no_looser (ExecutionPolicy old) (ExecutionPolicy new) \<and>
     RiskDeclarationTolerance new \<le> RiskDeclarationTolerance old \<and>
     PnLReconciliationTolerance new \<le> PnLReconciliationTolerance old \<and>
     QuoteMaxAgeSec new \<le> QuoteMaxAgeSec old \<and> ProposalTTLSec new \<le> ProposalTTLSec old"

lemma compare_flags:
  "widen (compareHigherWidens a b d) \<longleftrightarrow> widen d \<or> \<not> b \<le> a"
  "tighten (compareHigherWidens a b d) \<longleftrightarrow> tighten d \<or> \<not> a \<le> b"
  "widen (compareHigherTightens a b d) \<longleftrightarrow> widen d \<or> \<not> a \<le> b"
  "tighten (compareHigherTightens a b d) \<longleftrightarrow> tighten d \<or> \<not> b \<le> a"
  by (auto simp: compareHigherWidens_def compareHigherTightens_def)

lemma setContains_iff: "setContains xs ys \<longleftrightarrow> set ys \<subseteq> set xs"
  by (auto simp: setContains_def list_all_iff)

text \<open>The lists of canonical policies are sorted and distinct, so they are equal when their sets are.\<close>

lemma canonical_set_eq:
  "canonical_set u m xs \<Longrightarrow> canonical_set u' m' ys \<Longrightarrow> set xs = set ys \<longleftrightarrow> xs = ys"
  by (metis canonical_set_def sorted_distinct_set_unique)

lemma compareAllowedSet_flags:
  assumes "canonical_set u m xs" "canonical_set u' m' ys"
  shows "widen (compareAllowedSet xs ys d) \<longleftrightarrow>
           widen d \<or> \<not> (xs = [] \<or> ys \<noteq> [] \<and> set ys \<subseteq> set xs)"
    and "tighten (compareAllowedSet xs ys d) \<longleftrightarrow>
           tighten d \<or> \<not> (ys = [] \<or> xs \<noteq> [] \<and> set xs \<subseteq> set ys)"
  using canonical_set_eq[OF assms] unfolding compareAllowedSet_def Let_def setContains_iff
  by (auto split: if_splits)

lemma compareRequiredSet_flags:
  assumes "canonical_set u m xs" "canonical_set u' m' ys"
  shows "widen (compareRequiredSet xs ys d) \<longleftrightarrow> widen d \<or> \<not> set xs \<subseteq> set ys"
    and "tighten (compareRequiredSet xs ys d) \<longleftrightarrow> tighten d \<or> \<not> set ys \<subseteq> set xs"
  using canonical_set_eq[OF assms] unfolding compareRequiredSet_def Let_def setContains_iff
  by (auto split: if_splits)

lemma compareStartAt_flags:
  assumes "start_ok a" "start_ok b"
  shows "widen (compareStartAt a b d) \<longleftrightarrow> widen d \<or> \<not> (b = a \<or> a = ''ask'')"
    and "tighten (compareStartAt a b d) \<longleftrightarrow> tighten d \<or> \<not> (a = b \<or> b = ''ask'')"
  using assms unfolding start_ok_def
  by (elim disjE; simp add: compareStartAt_def)+

lemma policy_direction_flags:
  assumes "canonical_policy old" "canonical_policy new"
  shows "widen (policy_direction old new) \<longleftrightarrow> \<not> no_looser old new"
    and "tighten (policy_direction old new) \<longleftrightarrow> \<not> no_looser new old"
proof -
  note c = assms[unfolded canonical_policy_def execution_ok_def]
  have sets: "canonical_set True maxUnderlyings (Underlyings old)"
    "canonical_set True maxUnderlyings (Underlyings new)"
    "canonical_set False maxPlanRequirements (PlanRequirements old)"
    "canonical_set False maxPlanRequirements (PlanRequirements new)"
    "start_ok (StartAt (ExecutionPolicy old))" "start_ok (StartAt (ExecutionPolicy new))"
    using c by simp_all
  note flags = compare_flags compareAllowedSet_flags[OF sets(1,2)] compareRequiredSet_flags[OF sets(3,4)]
    compareStartAt_flags[OF sets(5,6)]
  show "widen (policy_direction old new) \<longleftrightarrow> \<not> no_looser old new"
    unfolding policy_direction_def Let_def flags no_looser_def limits_no_looser_def
      execution_no_looser_def change_direction.simps by blast
  show "tighten (policy_direction old new) \<longleftrightarrow> \<not> no_looser new old"
    unfolding policy_direction_def Let_def flags no_looser_def limits_no_looser_def
      execution_no_looser_def change_direction.simps by blast
qed

lemma ClassifyChange_ok:
  "ClassifyChange p q = Inr c \<longleftrightarrow>
     canonical_policy (canonical_form p) \<and> canonical_policy (canonical_form q) \<and>
     c = change_class_of (policy_direction (canonical_form p) (canonical_form q))"
  by (auto simp: ClassifyChange_def case_sum_Inr_iff normalize_ok)

text \<open>C38: the class of a policy change is what it says. A change is classified exactly when both policies
  normalise, and then it is a tightening exactly when every field of the new policy is no looser
  than the old one, otherwise a widening when every field of the old one is no looser than the new
  one, and otherwise mixed.\<close>

theorem ClassifyChange_meaning:
  "ClassifyChange p q = Inr c \<longleftrightarrow>
     (let old = canonical_form p; new = canonical_form q
      in canonical_policy old \<and> canonical_policy new \<and>
         c = (if no_looser old new then ChangeTighten
              else if no_looser new old then ChangeWiden else ChangeMixed))"
  unfolding Let_def ClassifyChange_ok
  by (auto simp: change_class_of_def policy_direction_flags)

lemma no_looser_antisym:
  assumes "canonical_policy p" "canonical_policy q" "no_looser p q" "no_looser q p"
  shows "p = q"
proof -
  note cp = assms(1)[unfolded canonical_policy_def execution_ok_def]
    and cq = assms(2)[unfolded canonical_policy_def execution_ok_def]
  note n = assms(3,4)[unfolded no_looser_def limits_no_looser_def execution_no_looser_def]
  have "set (Underlyings p) = set (Underlyings q)" using n by (metis list.set_intros(1) set_empty subset_antisym)
  then have u: "Underlyings p = Underlyings q" using cp cq canonical_set_eq by blast
  have "set (PlanRequirements p) = set (PlanRequirements q)" using n by blast
  then have r: "PlanRequirements p = PlanRequirements q" using cp cq canonical_set_eq by blast
  have s: "StartAt (ExecutionPolicy p) = StartAt (ExecutionPolicy q)" using n by metis
  have "HardLimits p = HardLimits q" "InstrumentRules p = InstrumentRules q"
    "ExecutionPolicy p = ExecutionPolicy q"
    using n s by (simp_all add: hard_limits.equality instrument_rules.equality execution_policy.equality)
  then show ?thesis using n u r by (intro policy.equality) simp_all
qed

end
