(* ===== verification/Risk.thy ===== *)
theory Risk
  imports Policy Broker
begin

text \<open>
  \<^verbatim>\<open>kernel/internal/risk/risk.go\<close>: the deterministic gate every operation passes. The
  operation as the Kernel carries it, the day's account state, and \<open>ClassifyAt\<close>, which
  assigns class A (risk reduction, no review), B (opens that pass the checklist), C (opens a human
  has to review) or REJECT. \<open>Classify\<close> is \<open>ClassifyAt\<close> at the current time, so the
  time is an argument here. The policy is the one of \<^theory_text>\<open>Policy\<close>, which the code
  aliases as \<open>config.Limits\<close>.
\<close>

record operation =
  op_Proposer :: string
  op_Action :: string
  op_Kind :: string
  op_Underlying :: string
  op_Symbol :: string
  op_Side :: string
  op_OrderType :: string
  op_ExecutionStyle :: string
  op_Qty :: qty
  op_Limit :: "micros option"
  op_StopPrice :: "micros option"
  op_MaxRiskUSD :: "micros option"
  op_Short :: bool
  op_Plan :: "string \<rightharpoonup> string"
  op_Thesis :: string
  op_Setup :: string
  op_Shadow :: bool
  op_BrokerOrderID :: string
  op_PositionID :: string
  op_ClosesOperationID :: string
  op_DerivedMaxRisk :: micros
  op_RequiredCash :: micros
  op_ApprovedPriceCap :: micros
  op_WorkingPrice :: micros
  op_Multiplier :: int64
  op_QtyIncrement :: qty
  op_InstrumentID :: string
  op_DecisionObservationID :: string
  op_DecisionObservationGeneration :: int64
  op_DecisionObservationDigest :: string
  op_BrokerObjectOrigin :: string
  op_BrokerPositionID :: string
  op_DecisionPositionQty :: qty
  op_CancelTargetEffect :: string
  op_CancelTargetFingerprint :: string
  op_TrackedCloseQty :: qty
  op_ExternalCloseQty :: qty
  op_VerifiedReduction :: bool
  op_RejectReason :: string

record day_state =
  TradesToday :: int64
  OpenRisk :: micros
  RealizedPnL :: micros
  LocalRealizedPnL :: micros
  ProviderRealizedPnL :: "micros option"
  DailyLossLimit :: micros
  ConsecutiveLossDays :: int64
  Equity :: micros
  EquityKnown :: bool
  BuyingPower :: micros
  Halted :: bool
  HaltReason :: string

text \<open>A reason is a text, or a format with the arguments it is printed with.\<close>

datatype reason = Reason string | Reasonf string "string list"

record verdict =
  Class :: string
  Checks :: "(string \<times> bool) list"
  Reasons :: "reason list"

text \<open>The lookup of a plan entry: Go's map read gives the empty string for a missing key.\<close>

definition plan_entry :: "(string \<rightharpoonup> string) \<Rightarrow> string \<Rightarrow> string" where
  "plan_entry plan key = (case plan key of None \<Rightarrow> [] | Some v \<Rightarrow> v)"

definition reject :: "string \<Rightarrow> verdict" where
  "reject r = \<lparr>Class = ''REJECT'', Checks = [], Reasons = [Reason r]\<rparr>"

definition quote_usable :: "quote option \<Rightarrow> policy \<Rightarrow> time \<Rightarrow> bool" where
  "quote_usable q limits now \<longleftrightarrow>
     (case q of None \<Rightarrow> False | Some q \<Rightarrow> Usable q (QuoteMaxAgeSec limits) now)"

definition priceBoundedOpen :: "operation \<Rightarrow> bool" where
  "priceBoundedOpen op \<longleftrightarrow>
     (op_OrderType op = ''limit'' \<or> op_OrderType op = ''stop_limit'') \<and> \<not> op_Shadow op \<and>
     op_Limit op \<noteq> None"

text \<open>The absolutes, in the code's order: the first that applies gives the reason.\<close>

definition declared_exceeded :: "operation \<Rightarrow> policy \<Rightarrow> bool" where
  "declared_exceeded op limits \<longleftrightarrow>
     (case op_MaxRiskUSD op of None \<Rightarrow> False
      | Some declared \<Rightarrow> op_DerivedMaxRisk op > declared \<and>
          DifferenceExceeds (op_DerivedMaxRisk op) declared (RiskDeclarationTolerance limits))"

definition absolute_reject ::
  "operation \<Rightarrow> policy \<Rightarrow> day_state \<Rightarrow> quote option \<Rightarrow> time \<Rightarrow> string option" where
  "absolute_reject op limits day q now =
     (if Halted day then Some (''breaker halted: '' @ HaltReason day)
      else if op_Side op = ''sell'' then Some ''uncovered_short''
      else if op_RejectReason op \<noteq> [] then Some (op_RejectReason op)
      else if \<not> EquityKnown day then Some ''equity_unknown''
      else if Equity day \<le> 0 then Some ''nonpositive_equity''
      else if \<not> quote_usable q limits now \<and> \<not> priceBoundedOpen op
      then Some ''market_data_unavailable''
      else if op_DerivedMaxRisk op \<le> 0 \<or> op_RequiredCash op \<le> 0 \<or> op_Multiplier op \<le> 0
      then Some ''risk_not_computed''
      else if op_RequiredCash op > BuyingPower day then Some ''insufficient_buying_power''
      else if declared_exceeded op limits then Some ''risk_exceeds_declared''
      else None)"

definition check_order :: "string list" where
  "check_order = [''whitelist'', ''per_trade_budget'', ''total_open_risk'', ''daily_trade_count'',
     ''plan_complete'', ''liquidity_spread'', ''liquidity_oi'']"

text \<open>The seven checks, given the two percentage caps.\<close>

definition check_values ::
  "operation \<Rightarrow> policy \<Rightarrow> day_state \<Rightarrow> quote option \<Rightarrow> time \<Rightarrow> micros \<Rightarrow> micros \<Rightarrow> bool list" where
  "check_values op limits day q now perTradeCap totalCap =
     [Underlyings limits = [] \<or> op_Underlying op \<in> set (Underlyings limits),
      op_DerivedMaxRisk op \<le> perTradeCap,
      SumLessOrEqual (OpenRisk day) (op_DerivedMaxRisk op) totalCap,
      TradesToday day < MaxNewTradesPerDay (HardLimits limits),
      list_all (\<lambda>key. trim_space (plan_entry (op_Plan op) key) \<noteq> []) (PlanRequirements limits),
      (if quote_usable q limits now
       then SpreadWithin (q_Bid (the q)) (q_Ask (the q)) (MaxRelativeSpread (InstrumentRules limits))
       else True),
      (if quote_usable q limits now
       then op_Kind op \<noteq> ''option'' \<or>
            q_OpenInterest (the q) \<ge> MinOpenInterest (InstrumentRules limits)
       else op_Kind op \<noteq> ''option'')]"

definition checklist_verdict :: "(string \<times> bool) list \<Rightarrow> verdict" where
  "checklist_verdict checks =
     (let failed = map fst (filter (\<lambda>(_, ok). \<not> ok) checks)
      in if failed = []
         then \<lparr>Class = ''B'', Checks = checks, Reasons = [Reason ''checklist pass'']\<rparr>
         else \<lparr>Class = ''C'', Checks = checks, Reasons = [Reasonf ''needs review: %s'' failed]\<rparr>)"

definition classify_open ::
  "operation \<Rightarrow> policy \<Rightarrow> day_state \<Rightarrow> quote option \<Rightarrow> time \<Rightarrow> verdict" where
  "classify_open op limits day q now =
     (case absolute_reject op limits day q now of
        Some r \<Rightarrow> reject r
      | None \<Rightarrow>
          (case PercentFloor (Equity day) (MaxRiskPerTradePct (HardLimits limits)) of
             Inl _ \<Rightarrow> reject ''risk_overflow''
           | Inr perTradeCap \<Rightarrow>
               (case PercentFloor (Equity day) (MaxTotalOpenRiskPct (HardLimits limits)) of
                  Inl _ \<Rightarrow> reject ''risk_overflow''
                | Inr totalCap \<Rightarrow>
                    checklist_verdict
                      (zip check_order (check_values op limits day q now perTradeCap totalCap)))))"

definition ClassifyAt ::
  "operation \<Rightarrow> policy \<Rightarrow> day_state \<Rightarrow> quote option \<Rightarrow> time \<Rightarrow> verdict" where
  "ClassifyAt op limits day q now =
     (if op_Action op = ''close''
      then (if op_Shadow op \<or> op_VerifiedReduction op
            then \<lparr>Class = ''A'', Checks = [], Reasons = [Reason ''verified risk reduction'']\<rparr>
            else reject ''close is not verified against a position'')
      else if op_Action op = ''cancel''
      then (if op_VerifiedReduction op
            then \<lparr>Class = ''A'', Checks = [], Reasons = [Reason ''verified risk reduction'']\<rparr>
            else reject ''cancel target is not verified risk-reducing'')
      else if op_Action op = ''tighten_stop''
      then \<lparr>Class = ''A'', Checks = [], Reasons = [Reason ''risk-reducing'']\<rparr>
      else if op_Action op \<noteq> ''open''
      then \<lparr>Class = ''REJECT'', Checks = [], Reasons = [Reasonf ''unknown action %q'' [op_Action op]]\<rparr>
      else classify_open op limits day q now)"


section \<open>The four classes\<close>

text \<open>What an absolute check demands of an open before anybody may approve it.\<close>

definition admissible ::
  "operation \<Rightarrow> policy \<Rightarrow> day_state \<Rightarrow> quote option \<Rightarrow> time \<Rightarrow> bool" where
  "admissible op limits day q now \<longleftrightarrow>
     \<not> Halted day \<and> op_Side op \<noteq> ''sell'' \<and> op_RejectReason op = [] \<and>
     EquityKnown day \<and> 0 < Equity day \<and> (quote_usable q limits now \<or> priceBoundedOpen op) \<and>
     0 < op_DerivedMaxRisk op \<and> 0 < op_RequiredCash op \<and> 0 < op_Multiplier op \<and>
     op_RequiredCash op \<le> BuyingPower day \<and> \<not> declared_exceeded op limits"

text \<open>The checklist on exact numbers: percentages of the equity as products, not as rounded caps.\<close>

definition within_share :: "int \<Rightarrow> micros \<Rightarrow> percent_micros \<Rightarrow> bool" where
  "within_share risk equity pct \<longleftrightarrow> risk * (100 * Scale) \<le> equity * pct"

definition liquid :: "operation \<Rightarrow> policy \<Rightarrow> quote option \<Rightarrow> time \<Rightarrow> bool" where
  "liquid op limits q now \<longleftrightarrow>
     (if quote_usable q limits now
      then SpreadWithin (q_Bid (the q)) (q_Ask (the q)) (MaxRelativeSpread (InstrumentRules limits)) \<and>
           (op_Kind op \<noteq> ''option'' \<or> MinOpenInterest (InstrumentRules limits) \<le> q_OpenInterest (the q))
      else op_Kind op \<noteq> ''option'')"

definition checklist ::
  "operation \<Rightarrow> policy \<Rightarrow> day_state \<Rightarrow> quote option \<Rightarrow> time \<Rightarrow> bool" where
  "checklist op limits day q now \<longleftrightarrow>
     allows_symbol limits (op_Underlying op) \<and>
     within_share (op_DerivedMaxRisk op) (Equity day) (MaxRiskPerTradePct (HardLimits limits)) \<and>
     within_share (OpenRisk day + op_DerivedMaxRisk op) (Equity day)
       (MaxTotalOpenRiskPct (HardLimits limits)) \<and>
     TradesToday day < MaxNewTradesPerDay (HardLimits limits) \<and>
     list_all (\<lambda>key. trim_space (plan_entry (op_Plan op) key) \<noteq> []) (PlanRequirements limits) \<and>
     liquid op limits q now"

definition percent_range :: "policy \<Rightarrow> bool" where
  "percent_range p \<longleftrightarrow> percent_ok (MaxRiskPerTradePct (HardLimits p)) \<and>
     percent_ok (MaxTotalOpenRiskPct (HardLimits p))"

lemma canonical_percent_range: "canonical_policy p \<Longrightarrow> percent_range p"
  by (simp add: canonical_policy_def percent_range_def limits_ok_def)

lemma if_Some_eq_None: "(if c then Some r else x) = None \<longleftrightarrow> \<not> c \<and> x = None"
  by simp

lemma absolute_reject_None: "absolute_reject op limits day q now = None \<longleftrightarrow> admissible op limits day q now"
  unfolding absolute_reject_def admissible_def if_Some_eq_None
  by (simp only: not_less not_le not_not de_Morgan_disj de_Morgan_conj conj_assoc simp_thms)

lemma share_floor: "risk \<le> equity * pct div (100 * Scale) \<longleftrightarrow> within_share risk equity pct"
  unfolding within_share_def by (rule le_div_iff) (simp add: Scale_def)

lemma PercentFloor_share:
  assumes "percent_ok pct" "0 \<le> equity" "in_int64 equity"
  shows "PercentFloor equity pct = Inr (equity * pct div (100 * Scale))"
proof -
  have pct: "0 \<le> pct" "pct \<le> 100 * Scale" using assms(1) by (simp_all add: percent_ok_def)
  have k: "0 < 100 * Scale" by (simp add: Scale_def)
  note b = share_div_bounds[OF k pct assms(2)]
  have "in_int64 (equity * pct div (100 * Scale))"
    by (rule in_int64_between[OF in_int64_0 assms(3) b])
  then show ?thesis using pct(1) assms(2) unfolding PercentFloor_iff by blast
qed

lemma checklist_verdict_B:
  "Class (checklist_verdict checks) = (if list_all snd checks then ''B'' else ''C'')"
  by (simp add: checklist_verdict_def Let_def list_all_iff filter_empty_conv case_prod_beta)

lemma check_values_all:
  "list_all snd (zip check_order (check_values op limits day q now
     (Equity day * MaxRiskPerTradePct (HardLimits limits) div (100 * Scale))
     (Equity day * MaxTotalOpenRiskPct (HardLimits limits) div (100 * Scale))))
   \<longleftrightarrow> checklist op limits day q now"
  unfolding check_values_def check_order_def checklist_def liquid_def allows_symbol_def share_floor
    SumLessOrEqual_def
  by simp

lemma classify_open_class:
  assumes "percent_range limits" "in_int64 (Equity day)"
  shows "Class (classify_open op limits day q now) =
    (if \<not> admissible op limits day q now then ''REJECT''
     else if checklist op limits day q now then ''B'' else ''C'')"
proof (cases "absolute_reject op limits day q now")
  case None
  then have a: "admissible op limits day q now" by (simp add: absolute_reject_None)
  then have "0 \<le> Equity day" by (simp add: admissible_def)
  then show ?thesis using assms a None
    by (simp add: classify_open_def percent_range_def PercentFloor_share checklist_verdict_B
        check_values_all)
next
  case (Some r)
  then have "\<not> admissible op limits day q now" using absolute_reject_None by (metis option.distinct(1))
  with Some show ?thesis by (simp add: classify_open_def reject_def)
qed

text \<open>C35: the verdict on an open. Under a policy with its percentages in range, an open is rejected
  exactly when one of the absolutes fails; otherwise it is auto-approved (class B) exactly when the
  checklist holds on exact numbers, and goes to a human (class C) when it does not.\<close>

theorem open_verdict:
  assumes "op_Action op = ''open''" "percent_range limits" "in_int64 (Equity day)"
  shows "Class (ClassifyAt op limits day q now) =
    (if \<not> admissible op limits day q now then ''REJECT''
     else if checklist op limits day q now then ''B'' else ''C'')"
  using assms by (simp add: ClassifyAt_def classify_open_class)

definition sample_policy :: policy where
  "sample_policy = \<lparr>
     HardLimits = \<lparr>MaxRiskPerTradePct = 2000000, MaxTotalOpenRiskPct = 10000000,
       MaxNewTradesPerDay = 5, MaxDailyLossPct = 3000000, ConsecutiveLossDaysHalt = 3\<rparr>,
     Underlyings = [''SPY''],
     InstrumentRules = \<lparr>MinOpenInterest = 100, MaxRelativeSpread = 50000\<rparr>,
     PlanRequirements = [''stop''],
     ExecutionPolicy = \<lparr>StartAt = ''mid'', RepriceIntervalSec = 30, MaxReprices = 3,
       FeePerContract = 650000, FeePerShare = 0\<rparr>,
     RiskDeclarationTolerance = 1000000, PnLReconciliationTolerance = 1000000,
     QuoteMaxAgeSec = 60, ProposalTTLSec = 600\<rparr>"

definition sample_quote :: quote where
  "sample_quote = \<lparr>q_Symbol = ''SPY'', q_Bid = 99000000, q_Ask = 101000000, q_OpenInterest = 500,
     q_Source = ''feed'', q_AsOf = 1000000000000\<rparr>"

definition sample_open :: operation where
  "sample_open = \<lparr>op_Proposer = ''scout'', op_Action = ''open'', op_Kind = ''equity'',
     op_Underlying = ''SPY'', op_Symbol = ''SPY'', op_Side = ''buy'', op_OrderType = ''limit'',
     op_ExecutionStyle = ''static'', op_Qty = 2000000, op_Limit = Some 101000000, op_StopPrice = None,
     op_MaxRiskUSD = Some 202000000, op_Short = False, op_Plan = [''stop'' \<mapsto> ''95''],
     op_Thesis = [], op_Setup = [], op_Shadow = False, op_BrokerOrderID = [], op_PositionID = [],
     op_ClosesOperationID = [], op_DerivedMaxRisk = 202000000, op_RequiredCash = 202000000,
     op_ApprovedPriceCap = 101000000, op_WorkingPrice = 100000000, op_Multiplier = 1,
     op_QtyIncrement = 1000000, op_InstrumentID = [], op_DecisionObservationID = [],
     op_DecisionObservationGeneration = 0, op_DecisionObservationDigest = [],
     op_BrokerObjectOrigin = [], op_BrokerPositionID = [], op_DecisionPositionQty = 0,
     op_CancelTargetEffect = [], op_CancelTargetFingerprint = [], op_TrackedCloseQty = 0,
     op_ExternalCloseQty = 0, op_VerifiedReduction = False, op_RejectReason = []\<rparr>"

definition sample_day :: day_state where
  "sample_day = \<lparr>TradesToday = 1, OpenRisk = 500000000, RealizedPnL = 0, LocalRealizedPnL = 0,
     ProviderRealizedPnL = None, DailyLossLimit = 0, ConsecutiveLossDays = 0,
     Equity = 20000000000, EquityKnown = True, BuyingPower = 5000000000, Halted = False,
     HaltReason = []\<rparr>"

lemma sample_policy_canonical: "canonical_policy sample_policy"
  by code_simp

theorem open_verdict_witness:
  "Class (ClassifyAt sample_open sample_policy sample_day (Some sample_quote) 1010000000000) = ''B'' \<and>
   Class (ClassifyAt (sample_open\<lparr>op_Plan := Map.empty\<rparr>) sample_policy sample_day (Some sample_quote)
     1010000000000) = ''C'' \<and>
   Class (ClassifyAt sample_open sample_policy (sample_day\<lparr>Halted := True\<rparr>) (Some sample_quote)
     1010000000000) = ''REJECT''"
proof -
  have p: "percent_range sample_policy" by (rule canonical_percent_range[OF sample_policy_canonical])
  have o1: "op_Action sample_open = ''open''" "op_Action (sample_open\<lparr>op_Plan := Map.empty\<rparr>) = ''open''"
    by (simp_all add: sample_open_def)
  have e: "in_int64 (Equity sample_day)" "in_int64 (Equity (sample_day\<lparr>Halted := True\<rparr>))"
    by code_simp+
  show ?thesis
    unfolding open_verdict[OF o1(1) p e(1)] open_verdict[OF o1(2) p e(1)] open_verdict[OF o1(1) p e(2)]
    by (intro conjI; code_simp)
qed

lemma Class_simps [simp]: "Class (reject r) = ''REJECT''"
  by (simp add: reject_def)

lemma classify_open_not_A: "Class (classify_open op limits day q now) \<noteq> ''A''"
  by (auto simp: classify_open_def checklist_verdict_B split: option.splits sum.splits)

text \<open>class A, the class that skips review, is only ever given to risk reduction: a close that is shadow
  or verified against a position, a cancel verified to reduce risk, or a tightened stop. No open
  is ever in class A.\<close>

lemma class_A_iff:
  "Class (ClassifyAt op limits day q now) = ''A'' \<longleftrightarrow>
     op_Action op = ''close'' \<and> (op_Shadow op \<or> op_VerifiedReduction op) \<or>
     op_Action op = ''cancel'' \<and> op_VerifiedReduction op \<or>
     op_Action op = ''tighten_stop''"
  unfolding ClassifyAt_def using classify_open_not_A[of op limits day q now] by simp

section \<open>Tightening a policy\<close>

lemma within_share_mono:
  "within_share r e p \<Longrightarrow> p \<le> p' \<Longrightarrow> 0 \<le> e \<Longrightarrow> within_share r e p'"
  unfolding within_share_def by (meson mult_left_mono order_trans)

lemma declared_exceeded_mono:
  "declared_exceeded op old \<Longrightarrow> RiskDeclarationTolerance new \<le> RiskDeclarationTolerance old \<Longrightarrow>
     declared_exceeded op new"
  by (auto simp: declared_exceeded_def DifferenceExceeds_def split: option.splits)

lemma admissible_mono:
  assumes "no_looser old new" "quote_usable q new now = quote_usable q old now"
    and "admissible op new day q now"
  shows "admissible op old day q now"
  using assms declared_exceeded_mono[of op old new] by (auto simp: admissible_def no_looser_def)

lemma checklist_mono:
  assumes n: "no_looser old new" and q: "quote_usable q new now = quote_usable q old now"
    and e: "0 < Equity day" and c: "checklist op new day q now"
  shows "checklist op old day q now"
proof -
  note n' = n[unfolded no_looser_def limits_no_looser_def]
  note c' = c[unfolded checklist_def]
  have "allows_symbol old (op_Underlying op)"
    using n' c' unfolding allows_symbol_def by blast
  moreover have "within_share (op_DerivedMaxRisk op) (Equity day) (MaxRiskPerTradePct (HardLimits old))"
    "within_share (OpenRisk day + op_DerivedMaxRisk op) (Equity day) (MaxTotalOpenRiskPct (HardLimits old))"
    using n' c' e by (auto intro: within_share_mono)
  moreover have "TradesToday day < MaxNewTradesPerDay (HardLimits old)" using n' c' by linarith
  moreover have "list_all (\<lambda>key. trim_space (plan_entry (op_Plan op) key) \<noteq> []) (PlanRequirements old)"
    using n' c' by (auto simp: list_all_iff)
  moreover have "liquid op old q now"
    using n' c' q unfolding liquid_def by (auto intro: SpreadWithin_mono order_trans split: if_splits)
  ultimately show ?thesis by (simp add: checklist_def)
qed

text \<open>C37: a policy change in the tightening direction cannot make the gate more permissive, as long as it
  does not change whether the quote at hand is usable: an open that the new policy auto-approves,
  the old policy auto-approves too.\<close>

theorem tightening_approves_no_more:
  assumes "canonical_policy old" "canonical_policy new" "no_looser old new"
    and "quote_usable q new now = quote_usable q old now" "in_int64 (Equity day)"
    and "op_Action op = ''open''" "Class (ClassifyAt op new day q now) = ''B''"
  shows "Class (ClassifyAt op old day q now) = ''B''"
proof -
  have r: "percent_range old" "percent_range new" using assms(1,2) by (auto intro: canonical_percent_range)
  have new: "admissible op new day q now" "checklist op new day q now"
    using assms(5-7) classify_open_class[OF r(2) assms(5), of op q now]
    by (simp_all add: ClassifyAt_def split: if_splits)
  then have "admissible op old day q now" using admissible_mono assms(3,4) by blast
  moreover have "checklist op old day q now"
    using checklist_mono[OF assms(3,4) _ new(2)] new(1) by (simp add: admissible_def)
  ultimately show ?thesis
    using classify_open_class[OF r(1) assms(5), of op q now] assms(6) by (simp add: ClassifyAt_def)
qed

definition tighter_policy :: policy where
  "tighter_policy = sample_policy\<lparr>HardLimits := (HardLimits sample_policy)\<lparr>MaxNewTradesPerDay := 2\<rparr>\<rparr>"

theorem tightening_approves_no_more_witness:
  "Class (ClassifyAt sample_open sample_policy sample_day (Some sample_quote) 1010000000000) = ''B''"
proof (rule tightening_approves_no_more)
  show "canonical_policy sample_policy" by code_simp
  show "canonical_policy tighter_policy" by code_simp
  show "no_looser sample_policy tighter_policy" by code_simp
  show "quote_usable (Some sample_quote) tighter_policy 1010000000000 =
    quote_usable (Some sample_quote) sample_policy 1010000000000" by code_simp
  show "in_int64 (Equity sample_day)" by code_simp
  show "op_Action sample_open = ''open''" by code_simp
  show "Class (ClassifyAt sample_open tighter_policy sample_day (Some sample_quote) 1010000000000) = ''B''"
    by code_simp
qed

definition wide_quote :: quote where
  "wide_quote = sample_quote\<lparr>q_Bid := 90000000\<rparr>"

text \<open>The checklist without the quote.\<close>

definition quoteless_checks :: "operation \<Rightarrow> policy \<Rightarrow> day_state \<Rightarrow> bool" where
  "quoteless_checks op limits day \<longleftrightarrow>
     allows_symbol limits (op_Underlying op) \<and>
     within_share (op_DerivedMaxRisk op) (Equity day) (MaxRiskPerTradePct (HardLimits limits)) \<and>
     within_share (OpenRisk day + op_DerivedMaxRisk op) (Equity day) (MaxTotalOpenRiskPct (HardLimits limits)) \<and>
     TradesToday day < MaxNewTradesPerDay (HardLimits limits) \<and>
     list_all (\<lambda>key. trim_space (plan_entry (op_Plan op) key) \<noteq> []) (PlanRequirements limits)"

lemma checklist_split: "checklist op limits day q now \<longleftrightarrow> quoteless_checks op limits day \<and> liquid op limits q now"
  by (auto simp: checklist_def quoteless_checks_def)

lemma shorter_age_canonical:
  assumes "canonical_policy p" "0 < n" "n \<le> QuoteMaxAgeSec p"
  shows "canonical_policy (p\<lparr>QuoteMaxAgeSec := n\<rparr>)" "no_looser p (p\<lparr>QuoteMaxAgeSec := n\<rparr>)"
  using assms
  by (auto simp: canonical_policy_def no_looser_def limits_no_looser_def execution_no_looser_def)

text \<open>C39: the side condition on the quote is needed. For every policy, lowering only the maximal quote age is classified as a
  tightening. Yet for every price-bounded open that is not an option, and every quote too wide for the policy that is usable under
  the old age and too old under the new one: the old policy never auto-approves the open (it is of class C exactly when no
  absolute fails), and the new policy auto-approves it exactly when no absolute fails and every
  check but the one of the spread, which is then skipped, holds.\<close>

theorem shorter_quote_age_can_approve:
  assumes p: "canonical_policy p" "0 < n" "n \<le> QuoteMaxAgeSec p"
    and op: "op_Action op = ''open''" "op_Kind op \<noteq> ''option''" "priceBoundedOpen op" and day: "in_int64 (Equity day)"
    and q: "quote_usable (Some q) p now" "\<not> quote_usable (Some q) (p\<lparr>QuoteMaxAgeSec := n\<rparr>) now"
      "\<not> SpreadWithin (q_Bid q) (q_Ask q) (MaxRelativeSpread (InstrumentRules p))"
  shows "ClassifyChange p (p\<lparr>QuoteMaxAgeSec := n\<rparr>) = Inr ChangeTighten \<and>
    Class (ClassifyAt op p day (Some q) now) = (if admissible op p day (Some q) now then ''C'' else ''REJECT'') \<and>
    (Class (ClassifyAt op (p\<lparr>QuoteMaxAgeSec := n\<rparr>) day (Some q) now) = ''B'' \<longleftrightarrow>
       admissible op p day (Some q) now \<and> quoteless_checks op p day)"
proof (intro conjI)
  let ?p = "p\<lparr>QuoteMaxAgeSec := n\<rparr>"
  note c = shorter_age_canonical[OF p]
  have r: "percent_range p" "percent_range ?p" using p(1) c(1) by (auto intro: canonical_percent_range)
  show "ClassifyChange p ?p = Inr ChangeTighten"
    using c p(1) by (auto simp: ClassifyChange_ok change_class_of_def policy_direction_flags canonical_form_id)
  have "\<not> liquid op p (Some q) now" using q(1,3) by (simp add: liquid_def)
  then show "Class (ClassifyAt op p day (Some q) now) = (if admissible op p day (Some q) now then ''C'' else ''REJECT'')"
    using op(1) classify_open_class[OF r(1) day] by (simp add: ClassifyAt_def checklist_split)
  have "declared_exceeded op ?p = declared_exceeded op p" by (cases "op_MaxRiskUSD op") (simp_all add: declared_exceeded_def)
  then have "admissible op ?p day (Some q) now \<longleftrightarrow> admissible op p day (Some q) now"
    using op(3) by (simp add: admissible_def)
  moreover have "checklist op ?p day (Some q) now \<longleftrightarrow> quoteless_checks op p day"
    using op(2) q(2) by (simp add: checklist_split liquid_def quoteless_checks_def allows_symbol_def)
  ultimately show "Class (ClassifyAt op ?p day (Some q) now) = ''B'' \<longleftrightarrow> admissible op p day (Some q) now \<and> quoteless_checks op p day"
    using op(1) classify_open_class[OF r(2) day] by (simp add: ClassifyAt_def)
qed

theorem shorter_quote_age_can_approve_witness:
  "ClassifyChange sample_policy (sample_policy\<lparr>QuoteMaxAgeSec := 5\<rparr>) = Inr ChangeTighten \<and>
   Class (ClassifyAt sample_open sample_policy sample_day (Some wide_quote) 1010000000000) = ''C'' \<and>
   Class (ClassifyAt sample_open (sample_policy\<lparr>QuoteMaxAgeSec := 5\<rparr>) sample_day (Some wide_quote)
     1010000000000) = ''B''"
proof -
  have p: "canonical_policy sample_policy" "(0::int) < 5" "5 \<le> QuoteMaxAgeSec sample_policy" by code_simp+
  have op: "op_Action sample_open = ''open''" "op_Kind sample_open \<noteq> ''option''" "priceBoundedOpen sample_open"
    "in_int64 (Equity sample_day)" by code_simp+
  have q: "quote_usable (Some wide_quote) sample_policy 1010000000000"
    "\<not> quote_usable (Some wide_quote) (sample_policy\<lparr>QuoteMaxAgeSec := 5\<rparr>) 1010000000000"
    "\<not> SpreadWithin (q_Bid wide_quote) (q_Ask wide_quote) (MaxRelativeSpread (InstrumentRules sample_policy))" by code_simp+
  have "admissible sample_open sample_policy sample_day (Some wide_quote) 1010000000000"
    "quoteless_checks sample_open sample_policy sample_day" by code_simp+
  then show ?thesis using shorter_quote_age_can_approve[OF p op q] by simp
qed

end
