(* ===== verification/Operations.thy ===== *)
theory Operations
  imports Risk Pricing
begin

text \<open>
  The operation surface of \<^verbatim>\<open>kernel/cmd/kernel/main.go\<close>: how a client's request becomes
  an operation, how the Kernel derives its execution price and its risk, how a close is normalised
  against the account's positions, and what an approved open is re-checked against.

  The instrument provider is a lookup (\<open>None\<close> for a failed call), the order kinds an execution
  provider supports an optional predicate, the trading mode a flag for live mode. A derivation that
  returns early with a reject reason is \<open>Inl\<close> of the operation it returns.
\<close>

record propose_request =
  rq_Proposer :: string
  rq_Action :: string
  rq_Kind :: string
  rq_Underlying :: string
  rq_Symbol :: string
  rq_Side :: string
  rq_OrderType :: string
  rq_ExecutionStyle :: string
  rq_Qty :: qty
  rq_Limit :: "micros option"
  rq_StopPrice :: "micros option"
  rq_MaxRiskUSD :: "micros option"
  rq_Short :: bool
  rq_Plan :: "string \<rightharpoonup> string"
  rq_Thesis :: string
  rq_Setup :: string
  rq_Shadow :: bool
  rq_BrokerOrderID :: string
  rq_PositionID :: string
  rq_ClosesOperationID :: string

text \<open>Ranging over the key visits every byte: a byte above \<open>0x7e\<close> is refused where its rune starts.\<close>

definition validateIdempotencyKey :: "string \<Rightarrow> unit result" where
  "validateIdempotencyKey key = guarded
     [(key = [], Errorf ''idempotency_key_required'' []),
      (length key > 200, Errorf ''invalid_idempotency_key'' []),
      (\<not> list_all (\<lambda>c. 0x21 \<le> byte c \<and> byte c \<le> 0x7e) key, Errorf ''invalid_idempotency_key'' [])]
     (Inr ())"

definition ledgerName :: "bool \<Rightarrow> string" where
  "ledgerName shadow = (if shadow then ''shadow'' else ''live'')"

definition operationSymbol :: "operation \<Rightarrow> string" where
  "operationSymbol op = (if op_Symbol op \<noteq> [] then op_Symbol op else op_Underlying op)"


section \<open>Validation\<close>

definition build_operation :: "propose_request \<Rightarrow> operation" where
  "build_operation r = \<lparr>
     op_Proposer = rq_Proposer r, op_Action = rq_Action r, op_Kind = rq_Kind r,
     op_Underlying = rq_Underlying r, op_Symbol = rq_Symbol r, op_Side = rq_Side r,
     op_OrderType = rq_OrderType r, op_ExecutionStyle = trim_space (rq_ExecutionStyle r),
     op_Qty = rq_Qty r, op_Limit = rq_Limit r, op_StopPrice = rq_StopPrice r,
     op_MaxRiskUSD = rq_MaxRiskUSD r, op_Short = rq_Short r, op_Plan = rq_Plan r,
     op_Thesis = rq_Thesis r, op_Setup = rq_Setup r, op_Shadow = rq_Shadow r,
     op_BrokerOrderID = rq_BrokerOrderID r, op_PositionID = rq_PositionID r,
     op_ClosesOperationID = rq_ClosesOperationID r,
     op_DerivedMaxRisk = 0, op_RequiredCash = 0, op_ApprovedPriceCap = 0, op_WorkingPrice = 0,
     op_Multiplier = 0, op_QtyIncrement = 0, op_InstrumentID = [], op_DecisionObservationID = [],
     op_DecisionObservationGeneration = 0, op_DecisionObservationDigest = [],
     op_BrokerObjectOrigin = [], op_BrokerPositionID = [], op_DecisionPositionQty = 0,
     op_CancelTargetEffect = [], op_CancelTargetFingerprint = [], op_TrackedCloseQty = 0,
     op_ExternalCloseQty = 0, op_VerifiedReduction = False, op_RejectReason = []\<rparr>"

definition fractional :: "qty \<Rightarrow> bool" where
  "fractional q \<longleftrightarrow> q smod Scale \<noteq> 0"

definition not_positive :: "micros option \<Rightarrow> bool" where
  "not_positive v \<longleftrightarrow> (case v of None \<Rightarrow> True | Some x \<Rightarrow> x \<le> 0)"

definition unpriced_guards :: "string \<Rightarrow> operation \<Rightarrow> (bool \<times> go_error) list" where
  "unpriced_guards name op =
     [(op_ExecutionStyle op \<noteq> ''static'', Errorf (name @ '' orders require static execution_style'') []),
      (op_Kind op \<noteq> ''equity'' \<or> op_Side op \<noteq> ''buy'',
        Errorf (name @ '' orders currently support equity buys only'') []),
      (fractional (op_Qty op), Errorf (name @ '' orders require a whole number of shares'') [])]"

definition order_type_guards :: "operation \<Rightarrow> (bool \<times> go_error) list" where
  "order_type_guards op =
     (if op_OrderType op = ''limit'' then
        [(op_StopPrice op \<noteq> None, Errorf ''limit orders must not include stop_price'' [])]
      else if op_OrderType op = ''market'' then
        unpriced_guards ''market'' op @
        [(op_Limit op \<noteq> None, Errorf ''market orders must not include limit'' []),
         (not_positive (op_MaxRiskUSD op), Errorf ''market orders require positive max_risk_usd'' []),
         (op_StopPrice op \<noteq> None, Errorf ''market orders must not include stop_price'' [])]
      else if op_OrderType op = ''stop_market'' then
        unpriced_guards ''stop-market'' op @
        [(op_Limit op \<noteq> None, Errorf ''stop-market orders must not include limit'' []),
         (not_positive (op_StopPrice op), Errorf ''stop-market orders require positive stop_price'' []),
         (not_positive (op_MaxRiskUSD op), Errorf ''stop-market orders require positive max_risk_usd'' [])]
      else if op_OrderType op = ''stop_limit'' then
        unpriced_guards ''stop-limit'' op @
        [(not_positive (op_Limit op), Errorf ''stop-limit orders require positive limit'' []),
         (not_positive (op_StopPrice op), Errorf ''stop-limit orders require positive stop_price'' []),
         (the (op_Limit op) < the (op_StopPrice op),
           Errorf ''buy stop-limit limit must be at or above stop_price'' [])]
      else [(True, Errorf ''bad order_type %q'' [op_OrderType op])])"

definition default_to :: "string \<Rightarrow> string \<Rightarrow> string" where
  "default_to d s = (if s = [] then d else s)"

definition style_guard :: "operation \<Rightarrow> bool \<times> go_error" where
  "style_guard op =
     (op_ExecutionStyle op \<noteq> ''static'' \<and> op_ExecutionStyle op \<noteq> ''managed'',
      Errorf ''bad execution_style %q'' [op_ExecutionStyle op])"

definition qty_guards :: "operation \<Rightarrow> (bool \<times> go_error) list" where
  "qty_guards op =
     [(op_Qty op \<le> 0, Errorf ''qty must be greater than zero'' []),
      (op_Kind op = ''option'' \<and> fractional (op_Qty op),
        Errorf ''option qty must be a whole number of contracts'' [])]"

definition default_style :: "operation \<Rightarrow> operation" where
  "default_style op = op\<lparr>op_ExecutionStyle := default_to ''static'' (op_ExecutionStyle op)\<rparr>"

definition default_open :: "operation \<Rightarrow> operation" where
  "default_open op = default_style (op\<lparr>op_OrderType := default_to ''limit'' (op_OrderType op)\<rparr>)"

definition open_guards :: "string \<Rightarrow> operation \<Rightarrow> (bool \<times> go_error) list" where
  "open_guards symbol op =
     [style_guard op,
      (trim_space (op_Underlying op) = [], Errorf ''open requires underlying'' []),
      (trim_space symbol = [], Errorf ''open requires symbol or underlying'' []),
      (op_Kind op \<noteq> ''equity'' \<and> op_Kind op \<noteq> ''option'', Errorf ''bad kind %q'' [op_Kind op]),
      (op_Side op \<noteq> ''buy'' \<and> op_Side op \<noteq> ''sell'', Errorf ''bad side %q'' [op_Side op])]
     @ qty_guards op @ order_type_guards op"

definition validate_open :: "string \<Rightarrow> operation \<Rightarrow> operation result" where
  "validate_open symbol op =
     (let op = default_open op in guarded (open_guards symbol op) (Inr op))"

definition close_style_guards :: "operation \<Rightarrow> (bool \<times> go_error) list" where
  "close_style_guards op =
     [style_guard op,
      (op_ExecutionStyle op = ''managed'' \<and> op_Limit op = None, Errorf ''managed close requires limit'' [])]"

definition close_guards :: "string \<Rightarrow> operation \<Rightarrow> (bool \<times> go_error) list" where
  "close_guards symbol op =
     [(trim_space symbol = [], Errorf ''close requires symbol or underlying'' []),
      (op_Kind op \<noteq> [] \<and> op_Kind op \<noteq> ''equity'' \<and> op_Kind op \<noteq> ''option'',
        Errorf ''bad kind %q'' [op_Kind op]),
      (op_Side op \<noteq> [] \<and> op_Side op \<noteq> ''buy'' \<and> op_Side op \<noteq> ''sell'',
        Errorf ''bad side %q'' [op_Side op])] @ qty_guards op"

definition validate_close :: "string \<Rightarrow> operation \<Rightarrow> operation result" where
  "validate_close symbol op =
     guarded [(op_OrderType op \<noteq> [], Errorf ''order_type is currently supported only for open'' [])]
     (let op = default_style op
      in guarded (close_style_guards op)
        (let op = op\<lparr>op_PositionID := trim_space (op_PositionID op)\<rparr>
         in guarded (close_guards symbol op) (Inr op)))"

definition validate_cancel :: "operation \<Rightarrow> operation result" where
  "validate_cancel op = guarded
     [(op_ExecutionStyle op \<noteq> [], Errorf ''execution_style is supported only for open or close'' []),
      (op_OrderType op \<noteq> [], Errorf ''order_type is currently supported only for open'' [])]
     (let op = op\<lparr>op_BrokerOrderID := trim_space (op_BrokerOrderID op)\<rparr>
      in guarded [(op_BrokerOrderID op = [], Errorf ''cancel requires broker_order_id'' [])] (Inr op))"

definition validate_tighten_stop :: "string \<Rightarrow> operation \<Rightarrow> operation result" where
  "validate_tighten_stop symbol op = guarded
     [(op_ExecutionStyle op \<noteq> [], Errorf ''execution_style is supported only for open or close'' []),
      (op_OrderType op \<noteq> [], Errorf ''order_type is currently supported only for open'' []),
      (trim_space symbol = [], Errorf ''tighten_stop requires symbol or underlying'' [])]
     (let stop = trim_space (plan_entry (op_Plan op) ''stop'')
      in guarded [(stop = [], Errorf ''tighten_stop requires non-blank plan.stop'' [])]
           (Inr (op\<lparr>op_Plan := (op_Plan op)(''stop'' \<mapsto> stop)\<rparr>)))"

definition common_guards :: "operation \<Rightarrow> (bool \<times> go_error) list" where
  "common_guards op =
     [(op_Limit op \<noteq> None \<and> not_positive (op_Limit op), Errorf ''limit must be greater than zero'' []),
      (op_StopPrice op \<noteq> None \<and> not_positive (op_StopPrice op),
        Errorf ''stop_price must be greater than zero'' []),
      (op_Action op \<noteq> ''open'' \<and> op_StopPrice op \<noteq> None,
        Errorf ''stop_price is currently supported only for open'' []),
      (op_Action op \<noteq> ''close'' \<and> trim_space (op_ClosesOperationID op) \<noteq> [],
        Errorf ''closes_operation_id is meaningful only on close'' []),
      (op_Action op \<noteq> ''close'' \<and> trim_space (op_PositionID op) \<noteq> [],
        Errorf ''position_id is meaningful only on close'' [])]"

definition validateAndBuildOperation :: "propose_request \<Rightarrow> operation result" where
  "validateAndBuildOperation request =
     (let op = build_operation request;
          symbol = (if op_Symbol op = [] then op_Underlying op else op_Symbol op)
      in case (if op_Action op = ''open'' then validate_open symbol op
               else if op_Action op = ''close'' then validate_close symbol op
               else if op_Action op = ''cancel'' then validate_cancel op
               else if op_Action op = ''tighten_stop'' then validate_tighten_stop symbol op
               else Inl (Errorf ''bad action %q'' [op_Action op])) of
           Inl e \<Rightarrow> Inl e
         | Inr op \<Rightarrow> guarded (common_guards op) (Inr op))"

section \<open>Derivation of price and risk\<close>

definition supportsOrderKind :: "(string \<Rightarrow> bool) option \<Rightarrow> string \<Rightarrow> bool" where
  "supportsOrderKind execution kind = (case execution of None \<Rightarrow> True | Some f \<Rightarrow> f kind)"

definition reject_op :: "operation \<Rightarrow> string \<Rightarrow> operation" where
  "reject_op op r = op\<lparr>op_RejectReason := r\<rparr>"

definition bind_instrument :: "operation \<Rightarrow> instrument \<Rightarrow> operation" where
  "bind_instrument op i =
     op\<lparr>op_InstrumentID := i_InstrumentID i, op_QtyIncrement := i_QtyIncrement i\<rparr>"

text \<open>The contract of the order: multiplier and, where the venue's precision applies, the instrument.\<close>

definition derive_contract ::
  "bool \<Rightarrow> (string \<Rightarrow> bool) option \<Rightarrow> (string \<Rightarrow> instrument option) \<Rightarrow> operation
     \<Rightarrow> operation + (operation \<times> instrument option)" where
  "derive_contract live execution instruments op =
     (let symbol = operationSymbol op
      in if live \<and> \<not> op_Shadow op \<and> \<not> supportsOrderKind execution (op_Kind op)
         then Inl (reject_op op ''unsupported_contract'')
         else if op_Kind op = ''equity'' then
           (let op = op\<lparr>op_Multiplier := 1\<rparr>
            in if live \<and> \<not> op_Shadow op then
                 (case instruments symbol of
                    None \<Rightarrow> Inl (reject_op op ''unsupported_contract'')
                  | Some i \<Rightarrow>
                      if i_Kind i \<noteq> ''equity'' \<or> i_Multiplier i \<noteq> 1 \<or> \<not> PrecisionSane i
                      then Inl (reject_op op ''unsupported_contract'')
                      else Inr (bind_instrument op i, Some i))
               else Inr (op, None))
         else if op_Kind op = ''option'' then
           (case instruments symbol of
              None \<Rightarrow> Inl (reject_op op ''unsupported_contract'')
            | Some i \<Rightarrow>
                if i_Kind i \<noteq> ''option'' \<or> i_Multiplier i \<noteq> 100 \<or> \<not> PrecisionSane i
                then Inl (reject_op op ''unsupported_contract'')
                else Inr (bind_instrument (op\<lparr>op_Multiplier := i_Multiplier i\<rparr>) i, Some i))
         else Inl (reject_op op ''unsupported_contract''))"

definition derive_stop ::
  "quote option \<Rightarrow> bool \<Rightarrow> instrument option \<Rightarrow> operation \<Rightarrow> operation + operation" where
  "derive_stop q usable precision op =
     (case op_StopPrice op of
        None \<Rightarrow> Inr op
      | Some stopPrice \<Rightarrow>
          if op_Shadow op then Inl (reject_op op ''shadow_stop_orders_not_supported'')
          else if usable \<and> stopPrice \<le> q_Ask (the q) \<and> op_ApprovedPriceCap op = 0
          then Inl (reject_op op ''buy_stop_must_be_above_market'')
          else (case precision of
                  None \<Rightarrow> Inr op
                | Some i \<Rightarrow>
                    (let stop = floorPriceForInstrument stopPrice i
                     in if stop \<noteq> stopPrice \<or> \<not> SupportsPrice i stop
                        then Inl (reject_op op ''unsupported_contract'')
                        else Inr (op\<lparr>op_StopPrice := Some stop\<rparr>))))"

text \<open>Market and stop-market orders: the declared ceiling is the cash and the risk.\<close>

definition derive_unpriced :: "policy \<Rightarrow> quote option \<Rightarrow> operation \<Rightarrow> operation" where
  "derive_unpriced limits q op =
     (let wholeShares = op_Qty op sdiv Scale
      in if wholeShares \<le> 0 \<or> op_MaxRiskUSD op = None then reject_op op ''risk_not_computed''
         else (let maxRisk = the (op_MaxRiskUSD op)
               in case MulQtyPrice (op_Qty op) (FeePerShare (ExecutionPolicy limits)) 1 True of
                    Inl _ \<Rightarrow> reject_op op ''risk_overflow''
                  | Inr fees \<Rightarrow>
                      if maxRisk \<le> fees then reject_op op ''risk_overflow''
                      else
                        (let priceBudget = wrap64 (maxRisk - fees);
                             op = op\<lparr>op_ApprovedPriceCap := priceBudget sdiv wholeShares\<rparr>
                         in if op_OrderType op = ''stop_market'' \<and> op_StopPrice op \<noteq> None \<and>
                               op_ApprovedPriceCap op < the (op_StopPrice op)
                            then reject_op op ''stop_risk_cap_below_trigger''
                            else
                              (let estimated =
                                     (case MulQtyPrice (op_Qty op) (q_Ask (the q)) 1 True of
                                        Inl e \<Rightarrow> Inl e | Inr c \<Rightarrow> Add c fees)
                               in if (case estimated of Inl _ \<Rightarrow> True | Inr c \<Rightarrow> c > maxRisk) \<or>
                                     op_ApprovedPriceCap op \<le> 0
                                  then reject_op op
                                    (if op_OrderType op = ''stop_market''
                                     then ''stop_market_risk_cap_below_quote''
                                     else ''market_risk_cap_below_quote'')
                                  else op\<lparr>op_RequiredCash := maxRisk, op_DerivedMaxRisk := maxRisk\<rparr>))))"

text \<open>The working price of a priced order before it is put on the venue's ticks.\<close>

definition derive_prices :: "policy \<Rightarrow> quote option \<Rightarrow> bool \<Rightarrow> operation \<Rightarrow> operation" where
  "derive_prices limits q usable op =
     (let op = op\<lparr>op_ApprovedPriceCap :=
                 (case op_Limit op of Some l \<Rightarrow> l | None \<Rightarrow> q_Ask (the q))\<rparr>;
          op = (if op_OrderType op = ''stop_limit'' then op\<lparr>op_WorkingPrice := op_ApprovedPriceCap op\<rparr>
                else if usable \<and> StartAt (ExecutionPolicy limits) = ''mid''
                then op\<lparr>op_WorkingPrice := Mid (the q)\<rparr> else op);
          op = (if \<not> usable then op\<lparr>op_WorkingPrice := op_ApprovedPriceCap op\<rparr> else op)
      in if op_WorkingPrice op > op_ApprovedPriceCap op
         then op\<lparr>op_WorkingPrice := op_ApprovedPriceCap op\<rparr> else op)"

definition derive_ticks :: "instrument option \<Rightarrow> operation \<Rightarrow> operation + operation" where
  "derive_ticks precision op =
     (case precision of
        None \<Rightarrow> Inr op
      | Some i \<Rightarrow>
          (let cap = floorPriceForInstrument (op_ApprovedPriceCap op) i;
               working = floorPriceForInstrument (op_WorkingPrice op) i
           in if cap \<le> 0 \<or> working \<le> 0 then Inl (reject_op op ''unsupported_contract'')
              else (let working = (if working > cap then cap else working)
                    in if \<not> SupportsPrice i cap \<or> \<not> SupportsPrice i working
                       then Inl (reject_op op ''unsupported_contract'')
                       else Inr (op\<lparr>op_ApprovedPriceCap := cap, op_WorkingPrice := working\<rparr>))))"

definition derive_cash :: "policy \<Rightarrow> operation \<Rightarrow> operation" where
  "derive_cash limits op =
     (case MulQtyPrice (op_Qty op) (op_ApprovedPriceCap op) (op_Multiplier op) True of
        Inl _ \<Rightarrow> reject_op op ''risk_overflow''
      | Inr required \<Rightarrow>
          (let feePerUnit = (if op_Kind op = ''option'' then FeePerContract (ExecutionPolicy limits)
                             else FeePerShare (ExecutionPolicy limits))
           in case MulQtyPrice (op_Qty op) feePerUnit 1 True of
                Inl _ \<Rightarrow> reject_op op ''risk_overflow''
              | Inr fees \<Rightarrow>
                  (case Add required fees of
                     Inl _ \<Rightarrow> reject_op op ''risk_overflow''
                   | Inr required \<Rightarrow>
                       if required \<le> 0 then reject_op op ''risk_overflow''
                       else op\<lparr>op_RequiredCash := required, op_DerivedMaxRisk := required\<rparr>)))"

definition derive_order :: "policy \<Rightarrow> quote option \<Rightarrow> bool \<Rightarrow> instrument option \<Rightarrow> operation \<Rightarrow> operation" where
  "derive_order limits q usable precision op =
     (if op_OrderType op = ''market'' \<or> op_OrderType op = ''stop_market''
      then derive_unpriced limits q op
      else (case derive_ticks precision (derive_prices limits q usable op) of
              Inl r \<Rightarrow> r
            | Inr op \<Rightarrow> derive_cash limits op))"

definition derive_terms :: "policy \<Rightarrow> quote option \<Rightarrow> bool \<Rightarrow> instrument option \<Rightarrow> operation \<Rightarrow> operation" where
  "derive_terms limits q usable precision op =
     (let op = (if usable then op\<lparr>op_WorkingPrice := q_Ask (the q)\<rparr> else op)
      in case derive_stop q usable precision op of
           Inl r \<Rightarrow> r
         | Inr op \<Rightarrow> derive_order limits q usable precision op)"

definition deriveOpenOperationWithLimits ::
  "time \<Rightarrow> bool \<Rightarrow> (string \<Rightarrow> bool) option \<Rightarrow> (string \<Rightarrow> instrument option) \<Rightarrow> operation \<Rightarrow> quote option
     \<Rightarrow> policy \<Rightarrow> operation" where
  "deriveOpenOperationWithLimits now live execution instruments op q limits =
     (let usable = quote_usable q limits now
      in if \<not> usable \<and> \<not> priceBoundedOpen op then reject_op op ''market_data_unavailable''
         else case derive_contract live execution instruments op of
           Inl r \<Rightarrow> r
         | Inr (op, precision) \<Rightarrow> derive_terms limits q usable precision op)"

definition prepareApprovedOpenWithLimits ::
  "time \<Rightarrow> bool \<Rightarrow> (string \<Rightarrow> bool) option \<Rightarrow> (string \<Rightarrow> instrument option) \<Rightarrow> operation \<Rightarrow> quote option
     \<Rightarrow> policy \<Rightarrow> operation" where
  "prepareApprovedOpenWithLimits now live execution instruments persisted q limits =
     (let prepared = persisted\<lparr>op_Limit := Some (op_ApprovedPriceCap persisted), op_RejectReason := []\<rparr>;
          prepared = deriveOpenOperationWithLimits now live execution instruments prepared q limits;
          prepared = prepared\<lparr>op_Limit := op_Limit persisted\<rparr>
      in if op_RejectReason prepared \<noteq> [] then prepared
         else
           (let prepared =
                  (if op_Shadow persisted \<and> q \<noteq> None
                   then (let w = q_Ask (the q)
                         in prepared\<lparr>op_WorkingPrice :=
                              (if w > op_ApprovedPriceCap persisted then op_ApprovedPriceCap persisted
                               else w)\<rparr>)
                   else prepared)
            in if op_ApprovedPriceCap persisted \<le> 0 \<or>
                  op_ApprovedPriceCap prepared \<noteq> op_ApprovedPriceCap persisted \<or>
                  op_Multiplier prepared \<noteq> op_Multiplier persisted \<or>
                  op_RequiredCash prepared \<noteq> op_RequiredCash persisted \<or>
                  op_DerivedMaxRisk prepared \<noteq> op_DerivedMaxRisk persisted \<or>
                  op_QtyIncrement prepared \<noteq> op_QtyIncrement persisted
               then prepared\<lparr>op_RejectReason := ''approval_snapshot_mismatch''\<rparr> else prepared))"


section \<open>Closing a position\<close>

definition matches_position :: "operation \<Rightarrow> position \<Rightarrow> bool" where
  "matches_position op p \<longleftrightarrow>
     p_Symbol p = operationSymbol op \<and> p_Qty p \<noteq> 0 \<and>
     (op_PositionID op = [] \<or> p_PositionID p = op_PositionID op)"

text \<open>The loop keeps the one match and fails on a second.\<close>

definition unique_position :: "operation \<Rightarrow> position list \<Rightarrow> position result" where
  "unique_position op positions =
     (case filter (matches_position op) positions of
        [] \<Rightarrow> Inl (Errorf ''close requires an existing position for %s'' [operationSymbol op])
      | [p] \<Rightarrow> Inr p
      | _ \<Rightarrow> Inl (Errorf ''close position identity is ambiguous for %s'' [operationSymbol op]))"

definition normalizeClose :: "operation \<Rightarrow> position list \<Rightarrow> operation result" where
  "normalizeClose op positions =
     (case unique_position op positions of
        Inl e \<Rightarrow> Inl e
      | Inr p \<Rightarrow>
          (case AbsQty (p_Qty p) of
             Inl _ \<Rightarrow> Inl (Errorf ''position quantity is out of range'' [])
           | Inr positionQty \<Rightarrow> guarded
               [(op_Qty op > positionQty, Errorf ''close qty %s exceeds position qty %s''
                   [formatScaled (op_Qty op), formatScaled positionQty]),
                (p_Kind p \<noteq> ''equity'' \<and> p_Kind p \<noteq> ''option'',
                   Errorf ''position %s has unsupported kind %q'' [operationSymbol op, p_Kind p]),
                (op_Kind op \<noteq> [] \<and> op_Kind op \<noteq> p_Kind p,
                   Errorf ''close kind %q does not match position kind %q'' [op_Kind op, p_Kind p]),
                (p_Kind p = ''option'' \<and> fractional (op_Qty op),
                   Errorf ''option qty must be a whole number of contracts'' [])]
               (Inr (op\<lparr>op_Kind := p_Kind p, op_Multiplier := p_Multiplier p,
                        op_InstrumentID := p_InstrumentID p,
                        op_Side := (if p_Qty p > 0 then ''sell'' else ''buy''),
                        op_VerifiedReduction := True\<rparr>))))"

definition closablePositionQuantity :: "operation \<Rightarrow> position list \<Rightarrow> qty result" where
  "closablePositionQuantity op positions =
     (case unique_position op positions of
        Inl e \<Rightarrow> Inl e
      | Inr p \<Rightarrow>
          (case AbsQty (p_Qty p) of
             Inl _ \<Rightarrow> Inl (Errorf ''position quantity is out of range'' [])
           | Inr q \<Rightarrow> Inr q))"

definition matchingPositionID :: "operation \<Rightarrow> position list \<Rightarrow> string" where
  "matchingPositionID op positions =
     (case filter (matches_position op) positions of [] \<Rightarrow> [] | p # _ \<Rightarrow> p_PositionID p)"

definition samePositionDecision :: "operation \<Rightarrow> position list \<Rightarrow> position list \<Rightarrow> bool" where
  "samePositionDecision op decision current =
     (case (filter (matches_position op) decision, filter (matches_position op) current) of
        (l # _, r # _) \<Rightarrow>
          p_PositionID l = p_PositionID r \<and> p_InstrumentID l = p_InstrumentID r \<and>
          p_Qty l = p_Qty r \<and> p_Kind l = p_Kind r \<and> p_Multiplier l = p_Multiplier r
      | (ls, rs) \<Rightarrow> ls = [] \<and> rs = [])"

section \<open>What a validated operation is\<close>

definition underived :: "operation \<Rightarrow> bool" where
  "underived op \<longleftrightarrow> op_DerivedMaxRisk op = 0 \<and> op_RequiredCash op = 0 \<and> op_ApprovedPriceCap op = 0 \<and>
     op_WorkingPrice op = 0 \<and> op_Multiplier op = 0 \<and> op_QtyIncrement op = 0 \<and> op_InstrumentID op = [] \<and>
     op_DecisionObservationID op = [] \<and> op_DecisionObservationGeneration op = 0 \<and> op_DecisionObservationDigest op = [] \<and>
     op_BrokerObjectOrigin op = [] \<and> op_BrokerPositionID op = [] \<and> op_DecisionPositionQty op = 0 \<and>
     op_CancelTargetEffect op = [] \<and> op_CancelTargetFingerprint op = [] \<and> op_TrackedCloseQty op = 0 \<and>
     op_ExternalCloseQty op = 0 \<and> \<not> op_VerifiedReduction op \<and> op_RejectReason op = []"

definition sized :: "operation \<Rightarrow> bool" where
  "sized op \<longleftrightarrow> 0 < op_Qty op \<and> (op_Kind op = ''option'' \<longrightarrow> Scale dvd op_Qty op)"

definition styled :: "operation \<Rightarrow> bool" where
  "styled op \<longleftrightarrow> op_ExecutionStyle op = ''static'' \<or> op_ExecutionStyle op = ''managed''"

definition unpriced_ok :: "operation \<Rightarrow> bool" where
  "unpriced_ok op \<longleftrightarrow> op_ExecutionStyle op = ''static'' \<and> op_Kind op = ''equity'' \<and> op_Side op = ''buy'' \<and>
     Scale dvd op_Qty op"

definition order_type_ok :: "operation \<Rightarrow> bool" where
  "order_type_ok op \<longleftrightarrow>
     (if op_OrderType op = ''limit'' then op_StopPrice op = None
      else if op_OrderType op = ''market''
      then unpriced_ok op \<and> op_Limit op = None \<and> \<not> not_positive (op_MaxRiskUSD op) \<and> op_StopPrice op = None
      else if op_OrderType op = ''stop_market''
      then unpriced_ok op \<and> op_Limit op = None \<and> \<not> not_positive (op_StopPrice op) \<and>
        \<not> not_positive (op_MaxRiskUSD op)
      else op_OrderType op = ''stop_limit'' \<and> unpriced_ok op \<and> \<not> not_positive (op_Limit op) \<and>
        \<not> not_positive (op_StopPrice op) \<and> the (op_StopPrice op) \<le> the (op_Limit op))"

definition prices_ok :: "operation \<Rightarrow> bool" where
  "prices_ok op \<longleftrightarrow> (op_Limit op = None \<or> \<not> not_positive (op_Limit op)) \<and>
     (op_StopPrice op = None \<or> \<not> not_positive (op_StopPrice op))"

definition valid_open :: "operation \<Rightarrow> bool" where
  "valid_open op \<longleftrightarrow> op_Action op = ''open'' \<and> trim_space (operationSymbol op) \<noteq> [] \<and>
     (op_Kind op = ''equity'' \<or> op_Kind op = ''option'') \<and> (op_Side op = ''buy'' \<or> op_Side op = ''sell'') \<and>
     sized op \<and> styled op \<and> order_type_ok op"

definition valid_close :: "operation \<Rightarrow> bool" where
  "valid_close op \<longleftrightarrow> op_Action op = ''close'' \<and> trim_space (operationSymbol op) \<noteq> [] \<and>
     op_OrderType op = [] \<and> sized op \<and> styled op \<and>
     \<not> (op_ExecutionStyle op = ''managed'' \<and> op_Limit op = None) \<and> op_StopPrice op = None"

definition valid_operation :: "operation \<Rightarrow> bool" where
  "valid_operation op \<longleftrightarrow> underived op \<and> prices_ok op \<and>
     (valid_open op \<or> valid_close op \<or>
      op_Action op = ''cancel'' \<and> op_BrokerOrderID op \<noteq> [] \<and> op_OrderType op = [] \<or>
      op_Action op = ''tighten_stop'' \<and> plan_entry (op_Plan op) ''stop'' \<noteq> [] \<and> op_OrderType op = [])"

lemma fractional_iff: "0 < q \<Longrightarrow> fractional q \<longleftrightarrow> \<not> Scale dvd q"
  by (simp add: fractional_def Scale_def dvd_eq_mod_eq_0)

lemma unpriced_guards_ok:
  "0 < op_Qty op \<Longrightarrow> list_all (\<lambda>g. \<not> fst g) (unpriced_guards name op) \<longleftrightarrow> unpriced_ok op"
  by (simp add: unpriced_guards_def unpriced_ok_def fractional_iff)

lemma order_type_guards_ok:
  "0 < op_Qty op \<Longrightarrow> list_all (\<lambda>g. \<not> fst g) (order_type_guards op) \<longleftrightarrow> order_type_ok op"
  by (simp add: order_type_guards_def order_type_ok_def unpriced_guards_ok not_less)

lemma qty_guards_ok: "list_all (\<lambda>g. \<not> fst g) (qty_guards op) \<longleftrightarrow> sized op"
  by (auto simp: qty_guards_def sized_def fractional_iff)

lemma common_guards_ok:
  "list_all (\<lambda>g. \<not> fst g) (common_guards op) \<longleftrightarrow>
     prices_ok op \<and> (op_Action op = ''open'' \<or> op_StopPrice op = None) \<and>
     (op_Action op = ''close'' \<or> trim_space (op_ClosesOperationID op) = [] \<and> trim_space (op_PositionID op) = [])"
  by (auto simp: common_guards_def prices_ok_def)

lemma underived_build [simp]: "underived (build_operation r)"
  by (simp add: underived_def build_operation_def)

lemma build_fields [simp]:
  "op_Action (build_operation r) = rq_Action r" "op_Symbol (build_operation r) = rq_Symbol r"
  "op_Underlying (build_operation r) = rq_Underlying r"
  by (simp_all add: build_operation_def)

lemma style_guard_ok: "\<not> fst (style_guard op) \<longleftrightarrow> styled op"
  by (auto simp: style_guard_def styled_def)

lemma open_guards_ok:
  "list_all (\<lambda>g. \<not> fst g) (open_guards symbol op) \<longleftrightarrow>
     styled op \<and> trim_space (op_Underlying op) \<noteq> [] \<and> trim_space symbol \<noteq> [] \<and>
     (op_Kind op = ''equity'' \<or> op_Kind op = ''option'') \<and> (op_Side op = ''buy'' \<or> op_Side op = ''sell'') \<and>
     sized op \<and> order_type_ok op"
proof -
  have "sized op \<and> list_all (\<lambda>g. \<not> fst g) (order_type_guards op) \<longleftrightarrow> sized op \<and> order_type_ok op"
    using order_type_guards_ok[of op] by (auto simp: sized_def)
  then show ?thesis by (simp add: open_guards_def qty_guards_ok style_guard_ok)
qed

lemma default_fields [simp]:
  "op_Action (default_open op) = op_Action op" "operationSymbol (default_open op) = operationSymbol op"
  "underived (default_open op) = underived op"
  "op_Action (default_style op) = op_Action op" "operationSymbol (default_style op) = operationSymbol op"
  "underived (default_style op) = underived op" "op_OrderType (default_style op) = op_OrderType op"
  by (simp_all add: default_open_def default_style_def operationSymbol_def underived_def)

lemma position_id_fields [simp]:
  "op_Action (op\<lparr>op_PositionID := i\<rparr>) = op_Action op"
  "operationSymbol (op\<lparr>op_PositionID := i\<rparr>) = operationSymbol op"
  "underived (op\<lparr>op_PositionID := i\<rparr>) = underived op" "styled (op\<lparr>op_PositionID := i\<rparr>) = styled op"
  by (simp_all add: operationSymbol_def underived_def styled_def)

lemma validate_open_ok:
  assumes "validate_open (operationSymbol op) op = Inr op'" "op_Action op = ''open''"
  shows "valid_open op'" "underived op' = underived op" "op_Action op' = ''open''"
  using assms by (auto simp: validate_open_def Let_def open_guards_ok valid_open_def)

lemma validate_close_ok:
  assumes "validate_close (operationSymbol op) op = Inr op'" "op_Action op = ''close''"
  shows "op_StopPrice op' = None \<Longrightarrow> valid_close op'" "underived op' = underived op" "op_Action op' = ''close''"
proof -
  obtain op1 where op1: "op1 = default_style op" by blast
  obtain op2 where op2: "op2 = op1\<lparr>op_PositionID := trim_space (op_PositionID op1)\<rparr>" by blast
  have *: "op_OrderType op = []" "list_all (\<lambda>g. \<not> fst g) (close_style_guards op1)"
    "list_all (\<lambda>g. \<not> fst g) (close_guards (operationSymbol op) op2)" "op' = op2"
    using assms(1) unfolding validate_close_def Let_def op1[symmetric] op2[symmetric] by auto
  show "op_Action op' = ''close''" "underived op' = underived op" using assms(2) by (simp_all add: *(4) op2 op1)
  then show "valid_close op'" if "op_StopPrice op' = None"
    using that *(1-3) by (simp add: *(4) valid_close_def close_style_guards_def close_guards_def qty_guards_ok
        style_guard_ok op2 op1)
qed

lemma validate_cancel_ok:
  assumes "validate_cancel op = Inr op'"
  shows "op_BrokerOrderID op' \<noteq> []" "op_OrderType op' = []" "underived op' = underived op"
    "op_Action op' = op_Action op"
  using assms unfolding validate_cancel_def Let_def guarded_ok by (auto simp: underived_def)

lemma validate_tighten_ok:
  assumes "validate_tighten_stop symbol op = Inr op'"
  shows "plan_entry (op_Plan op') ''stop'' \<noteq> []" "op_OrderType op' = []" "underived op' = underived op"
    "op_Action op' = op_Action op"
  using assms unfolding validate_tighten_stop_def Let_def guarded_ok
  by (auto simp: underived_def plan_entry_def)

lemma validateAndBuildOperation_valid:
  assumes "validateAndBuildOperation r = Inr op"
  shows "valid_operation op"
proof -
  let ?b = "build_operation r"
  have sym: "(if op_Symbol ?b = [] then op_Underlying ?b else op_Symbol ?b) = operationSymbol ?b"
    by (simp add: operationSymbol_def)
  have c: "prices_ok op" "op_Action op = ''open'' \<or> op_StopPrice op = None"
    and pick: "(if op_Action ?b = ''open'' then validate_open (operationSymbol ?b) ?b
               else if op_Action ?b = ''close'' then validate_close (operationSymbol ?b) ?b
               else if op_Action ?b = ''cancel'' then validate_cancel ?b
               else if op_Action ?b = ''tighten_stop'' then validate_tighten_stop (operationSymbol ?b) ?b
               else Inl (Errorf ''bad action %q'' [op_Action ?b])) = Inr op"
    using assms unfolding validateAndBuildOperation_def Let_def case_sum_Inr_iff guarded_ok sym
      common_guards_ok by auto
  consider "op_Action ?b = ''open''" "validate_open (operationSymbol ?b) ?b = Inr op"
    | "op_Action ?b = ''close''" "validate_close (operationSymbol ?b) ?b = Inr op"
    | "op_Action ?b = ''cancel''" "validate_cancel ?b = Inr op"
    | "op_Action ?b = ''tighten_stop''" "validate_tighten_stop (operationSymbol ?b) ?b = Inr op"
    using pick by (metis Inl_Inr_False)
  then show ?thesis
  proof cases
    case 1
    then show ?thesis using validate_open_ok[OF 1(2,1)] c by (simp add: valid_operation_def)
  next
    case 2
    have "op_StopPrice op = None" using c(2) validate_close_ok(3)[OF 2(2,1)] by simp
    then show ?thesis using validate_close_ok[OF 2(2,1)] c by (simp add: valid_operation_def)
  next
    case 3
    then show ?thesis using validate_cancel_ok[OF 3(2)] c by (simp add: valid_operation_def)
  next
    case 4
    then show ?thesis using validate_tighten_ok[OF 4(2)] c by (simp add: valid_operation_def)
  qed
qed

section \<open>What the derivation guarantees\<close>

text \<open>The parts of an order the derivation only reads.\<close>

definition order_core ::
  "operation \<Rightarrow> string \<times> string \<times> qty \<times> micros option \<times> micros option \<times> bool \<times> string \<times> string \<times> string \<times> string" where
  "order_core op = (op_Kind op, op_OrderType op, op_Qty op, op_Limit op, op_MaxRiskUSD op, op_Shadow op, op_Action op, op_Side op,
     op_Symbol op, op_Underlying op)"

definition unit_fee :: "operation \<Rightarrow> policy \<Rightarrow> micros" where
  "unit_fee op limits = (if op_Kind op = ''option'' then FeePerContract (ExecutionPolicy limits)
     else FeePerShare (ExecutionPolicy limits))"

lemma reject_op_fields [simp]:
  "op_RejectReason (reject_op op r) = r" "order_core (reject_op op r) = order_core op"
  by (simp_all add: reject_op_def order_core_def)

lemma derive_contract_Inl: "derive_contract live ex ins op = Inl r \<Longrightarrow> op_RejectReason r \<noteq> []"
  by (auto simp: derive_contract_def Let_def split: if_splits option.splits)

lemma derive_contract_Inr:
  assumes "derive_contract live ex ins op = Inr (op', precision)"
  shows "order_core op' = order_core op" "op_RejectReason op' = op_RejectReason op"
    "op_StopPrice op' = op_StopPrice op" "op_ApprovedPriceCap op' = op_ApprovedPriceCap op"
    "op_WorkingPrice op' = op_WorkingPrice op"
    "op_Multiplier op' = (if op_Kind op = ''option'' then 100 else 1)"
  using assms
  by (auto simp: derive_contract_def Let_def bind_instrument_def order_core_def
      split: if_splits option.splits)

lemma derive_stop_Inl: "derive_stop q u precision op = Inl r \<Longrightarrow> op_RejectReason r \<noteq> []"
  by (auto simp: derive_stop_def Let_def split: if_splits option.splits)

lemma derive_stop_Inr:
  assumes "derive_stop q u precision op = Inr op'"
  shows "op' = op"
  using assms by (auto simp: derive_stop_def Let_def split: if_splits option.splits)

lemma derive_ticks_Inl: "derive_ticks precision op = Inl r \<Longrightarrow> op_RejectReason r \<noteq> []"
  by (auto simp: derive_ticks_def Let_def split: if_splits option.splits)

lemma derive_ticks_Inr:
  assumes "derive_ticks precision op = Inr op'"
    and "in_int64 (op_ApprovedPriceCap op)" "0 < op_WorkingPrice op" "op_WorkingPrice op \<le> op_ApprovedPriceCap op"
  shows "order_core op' = order_core op" "op_RejectReason op' = op_RejectReason op"
    "op_Multiplier op' = op_Multiplier op" "op_StopPrice op' = op_StopPrice op"
    "0 < op_WorkingPrice op'" "op_WorkingPrice op' \<le> op_ApprovedPriceCap op'"
    "op_ApprovedPriceCap op' \<le> op_ApprovedPriceCap op"
proof -
  have "order_core op' = order_core op \<and> op_RejectReason op' = op_RejectReason op \<and>
    op_Multiplier op' = op_Multiplier op \<and> op_StopPrice op' = op_StopPrice op \<and>
    0 < op_WorkingPrice op' \<and> op_WorkingPrice op' \<le> op_ApprovedPriceCap op' \<and>
    op_ApprovedPriceCap op' \<le> op_ApprovedPriceCap op"
  proof (cases precision)
    case None
    then show ?thesis using assms by (simp add: derive_ticks_def)
  next
    case (Some i)
    then show ?thesis
      using assms floorPriceForInstrument_pos(2)[OF _ assms(2), of i]
      by (auto simp: derive_ticks_def Let_def order_core_def split: if_splits)
  qed
  then show "order_core op' = order_core op" "op_RejectReason op' = op_RejectReason op"
    "op_Multiplier op' = op_Multiplier op" "op_StopPrice op' = op_StopPrice op"
    "0 < op_WorkingPrice op'" "op_WorkingPrice op' \<le> op_ApprovedPriceCap op'"
    "op_ApprovedPriceCap op' \<le> op_ApprovedPriceCap op" by blast+
qed

lemma derive_prices_bounds:
  assumes "quote_usable q limits now = u" "op_WorkingPrice op = (if u then q_Ask (the q) else w)"
    and "u \<or> op_Limit op \<noteq> None" "prices_ok op" "u \<Longrightarrow> quote_int64 (the q)"
  shows "order_core (derive_prices limits q u op) = order_core op"
    "op_RejectReason (derive_prices limits q u op) = op_RejectReason op"
    "op_Multiplier (derive_prices limits q u op) = op_Multiplier op"
    "op_ApprovedPriceCap (derive_prices limits q u op) =
      (case op_Limit op of Some l \<Rightarrow> l | None \<Rightarrow> q_Ask (the q))"
    "0 < op_WorkingPrice (derive_prices limits q u op)"
    "op_WorkingPrice (derive_prices limits q u op) \<le> op_ApprovedPriceCap (derive_prices limits q u op)"
proof -
  let ?d = "derive_prices limits q u op"
  let ?cap = "case op_Limit op of Some l \<Rightarrow> l | None \<Rightarrow> q_Ask (the q)"
  show "order_core ?d = order_core op" "op_RejectReason ?d = op_RejectReason op"
    "op_Multiplier ?d = op_Multiplier op" and cap: "op_ApprovedPriceCap ?d = ?cap"
    by (simp_all add: derive_prices_def Let_def order_core_def)
  have ask: "0 < q_Ask (the q)" "0 < Mid (the q)" if u
  proof -
    have s: "Sane (the q)" using assms(1) that by (auto simp: quote_usable_def Usable_def split: option.splits)
    then show "0 < q_Ask (the q)" by (simp add: Sane_def)
    show "0 < Mid (the q)" using Mid_between(1)[OF s assms(5)[OF that]] s by (simp add: Sane_def)
  qed
  have pos: "0 < ?cap"
    using assms(3,4) ask(1) by (auto simp: prices_ok_def not_positive_def split: option.splits)
  show "op_WorkingPrice ?d \<le> op_ApprovedPriceCap ?d" unfolding cap by (simp add: derive_prices_def Let_def)
  show "0 < op_WorkingPrice ?d"
    using pos ask assms(2) by (simp add: derive_prices_def Let_def)
qed

lemma derive_cash_eq:
  "derive_cash limits op =
     (case MulQtyPrice (op_Qty op) (op_ApprovedPriceCap op) (op_Multiplier op) True of
        Inl _ \<Rightarrow> reject_op op ''risk_overflow''
      | Inr c \<Rightarrow> (case MulQtyPrice (op_Qty op) (unit_fee op limits) 1 True of
            Inl _ \<Rightarrow> reject_op op ''risk_overflow''
          | Inr f \<Rightarrow> if in_int64 (c + f) \<and> 0 < c + f
                    then op\<lparr>op_RequiredCash := c + f, op_DerivedMaxRisk := c + f\<rparr>
                    else reject_op op ''risk_overflow''))"
  unfolding derive_cash_def unit_fee_def Let_def Add_def
  by (auto split: sum.splits)

lemma derive_cash_Some:
  assumes "op_RejectReason (derive_cash limits op) = []"
  obtains c f where "MulQtyPrice (op_Qty op) (op_ApprovedPriceCap op) (op_Multiplier op) True = Inr c"
    "MulQtyPrice (op_Qty op) (unit_fee op limits) 1 True = Inr f" "0 < c + f"
    "derive_cash limits op = op\<lparr>op_RequiredCash := c + f, op_DerivedMaxRisk := c + f\<rparr>"
proof -
  obtain c where c: "MulQtyPrice (op_Qty op) (op_ApprovedPriceCap op) (op_Multiplier op) True = Inr c"
    using assms by (cases "MulQtyPrice (op_Qty op) (op_ApprovedPriceCap op) (op_Multiplier op) True")
      (simp_all add: derive_cash_eq)
  obtain f where f: "MulQtyPrice (op_Qty op) (unit_fee op limits) 1 True = Inr f"
    using assms by (cases "MulQtyPrice (op_Qty op) (unit_fee op limits) 1 True")
      (simp_all add: derive_cash_eq c)
  have "in_int64 (c + f) \<and> 0 < c + f"
    using assms by (cases "in_int64 (c + f) \<and> 0 < c + f") (simp_all add: derive_cash_eq c f)
  then show ?thesis using that[OF c f] by (simp add: derive_cash_eq c f)
qed

text \<open>An order without a price: what its derivation binds.\<close>

lemma derive_unpriced_Some:
  assumes "op_RejectReason (derive_unpriced limits q op) = []"
  obtains m f where "op_MaxRiskUSD op = Some m" "0 < op_Qty op sdiv Scale"
    "MulQtyPrice (op_Qty op) (FeePerShare (ExecutionPolicy limits)) 1 True = Inr f" "f < m"
    "0 < wrap64 (m - f) sdiv (op_Qty op sdiv Scale)"
    "(case MulQtyPrice (op_Qty op) (q_Ask (the q)) 1 True of Inl _ \<Rightarrow> False | Inr c \<Rightarrow> c + f \<le> m)"
    "derive_unpriced limits q op = op\<lparr>op_ApprovedPriceCap := wrap64 (m - f) sdiv (op_Qty op sdiv Scale),
       op_RequiredCash := m, op_DerivedMaxRisk := m\<rparr>"
proof -
  have pos: "0 < op_Qty op sdiv Scale" "op_MaxRiskUSD op \<noteq> None"
    using assms by (auto simp: derive_unpriced_def Let_def split: if_splits)
  then obtain m where m: "op_MaxRiskUSD op = Some m" by blast
  obtain f where f: "MulQtyPrice (op_Qty op) (FeePerShare (ExecutionPolicy limits)) 1 True = Inr f"
    using assms pos m by (cases "MulQtyPrice (op_Qty op) (FeePerShare (ExecutionPolicy limits)) 1 True")
      (simp_all add: derive_unpriced_def Let_def)
  have fm: "f < m" using assms pos m f by (cases "m \<le> f") (simp_all add: derive_unpriced_def Let_def)
  let ?cap = "wrap64 (m - f) sdiv (op_Qty op sdiv Scale)"
  obtain est where est: "est = (case MulQtyPrice (op_Qty op) (q_Ask (the q)) 1 True of
      Inl e \<Rightarrow> Inl e | Inr c \<Rightarrow> Add c f)" by blast
  have "\<not> ((case est of Inl _ \<Rightarrow> True | Inr c \<Rightarrow> c > m) \<or> ?cap \<le> 0)"
    and d: "derive_unpriced limits q op = op\<lparr>op_ApprovedPriceCap := ?cap,
       op_RequiredCash := m, op_DerivedMaxRisk := m\<rparr>"
    using assms pos m f fm by (auto simp: derive_unpriced_def Let_def est [symmetric] split: if_splits)
  then show ?thesis using that[OF m pos(1) f fm _ _ d]
    by (auto simp: est Add_iff split: sum.splits)
qed

lemma whole_shares:
  assumes "0 < q" "Scale dvd q"
  shows "0 < q sdiv Scale" "q = q sdiv Scale * Scale"
  using assms by (auto simp: Scale_def elim!: dvdE)

text \<open>The cost of whole shares is a multiple, with nothing to round.\<close>

lemma MulQtyPrice_whole:
  assumes "MulQtyPrice q p 1 True = Inr c" "Scale dvd q" "0 < q"
  shows "c = q sdiv Scale * p"
proof -
  have q: "q * p = (q sdiv Scale * p) * Scale"
    using whole_shares[OF assms(3,2)] by (metis mult.commute mult.assoc)
  have "- (- (x * Scale) div Scale) = x" for x :: int
    by (simp add: Scale_def flip: mult_minus_left)
  then have "- (- (q * p) div Scale) = q sdiv Scale * p" unfolding q .
  then show ?thesis using MulQtyPrice_InrD(5)[OF assms(1)] by (simp only: if_True mult_1_right)
qed

text \<open>The facts about a derived open, as one bundle: \<open>derived\<close> relates the operation the Kernel starts
  from to the one it can approve.\<close>

definition derived :: "policy \<Rightarrow> operation \<Rightarrow> operation \<Rightarrow> bool" where
  "derived limits op d \<longleftrightarrow> order_core d = order_core op \<and>
     op_Multiplier d = (if op_Kind op = ''option'' then 100 else 1) \<and>
     op_DerivedMaxRisk d = op_RequiredCash d \<and> 0 < op_RequiredCash d \<and>
     0 < op_WorkingPrice d \<and> op_WorkingPrice d \<le> op_ApprovedPriceCap d \<and>
     (op_Limit op = None \<or> op_ApprovedPriceCap d \<le> the (op_Limit op))"

text \<open>What every fill at or below the approved bound costs, fees included, at worst.\<close>

definition cost_covered :: "policy \<Rightarrow> operation \<Rightarrow> bool" where
  "cost_covered limits d \<longleftrightarrow>
     (\<forall>price cost fees. 0 \<le> price \<longrightarrow> price \<le> op_ApprovedPriceCap d \<longrightarrow>
        MulQtyPrice (op_Qty d) price (op_Multiplier d) True = Inr cost \<longrightarrow>
        MulQtyPrice (op_Qty d) (unit_fee d limits) 1 True = Inr fees \<longrightarrow>
        cost + fees \<le> op_RequiredCash d)"

lemma derive_cash_covered:
  assumes "op_RejectReason (derive_cash limits op) = []"
  shows "cost_covered limits (derive_cash limits op)"
proof -
  obtain c f where cf: "MulQtyPrice (op_Qty op) (op_ApprovedPriceCap op) (op_Multiplier op) True = Inr c"
    "MulQtyPrice (op_Qty op) (unit_fee op limits) 1 True = Inr f" "0 < c + f"
    "derive_cash limits op = op\<lparr>op_RequiredCash := c + f, op_DerivedMaxRisk := c + f\<rparr>"
    by (rule derive_cash_Some[OF assms])
  then show ?thesis
    by (auto simp: cost_covered_def unit_fee_def dest: MulQtyPrice_mono_price)
qed

lemma derive_unpriced_covered:
  assumes "op_RejectReason (derive_unpriced limits q op) = []"
    and "op_Kind op \<noteq> ''option''" "op_Multiplier op = 1" "Scale dvd op_Qty op" "0 < op_Qty op"
    and "\<forall>m. op_MaxRiskUSD op = Some m \<longrightarrow> in_int64 m" "op_WorkingPrice op = q_Ask (the q)" "0 < q_Ask (the q)"
  shows "cost_covered limits (derive_unpriced limits q op)"
    "op_WorkingPrice (derive_unpriced limits q op) \<le> op_ApprovedPriceCap (derive_unpriced limits q op)"
proof -
  let ?w = "op_Qty op sdiv Scale"
  obtain m f where mf: "op_MaxRiskUSD op = Some m" "0 < ?w"
    "MulQtyPrice (op_Qty op) (FeePerShare (ExecutionPolicy limits)) 1 True = Inr f" "f < m"
    "0 < wrap64 (m - f) sdiv ?w"
    "(case MulQtyPrice (op_Qty op) (q_Ask (the q)) 1 True of Inl _ \<Rightarrow> False | Inr c \<Rightarrow> c + f \<le> m)"
    "derive_unpriced limits q op = op\<lparr>op_ApprovedPriceCap := wrap64 (m - f) sdiv ?w,
       op_RequiredCash := m, op_DerivedMaxRisk := m\<rparr>"
    by (rule derive_unpriced_Some[OF assms(1)])
  have f0: "0 \<le> f" by (rule MulQtyPrice_nonneg[OF mf(3)])
  have "in_int64 m" using assms(6) mf(1) by blast
  then have w: "wrap64 (m - f) = m - f"
    using f0 mf(4) by (intro wrap64_id) (simp add: in_int64_def)
  have cap: "op_ApprovedPriceCap (derive_unpriced limits q op) = (m - f) div ?w"
    using mf(4,2) by (simp add: mf(7) w)
  have "cost + fees \<le> m" if "price \<le> (m - f) div ?w"
    "MulQtyPrice (op_Qty op) price 1 True = Inr cost" "fees = f" for price cost fees
  proof -
    have "cost = ?w * price" by (rule MulQtyPrice_whole[OF that(2) assms(4,5)])
    moreover have "?w * price \<le> m - f" using that(1) le_div_iff[OF mf(2), of price "m - f"] by (simp add: mult.commute)
    ultimately show ?thesis using that(3) by simp
  qed
  then show "cost_covered limits (derive_unpriced limits q op)"
    using assms(2,3) mf(3) cap by (auto simp: cost_covered_def mf(7) unit_fee_def)
  obtain c where c: "MulQtyPrice (op_Qty op) (q_Ask (the q)) 1 True = Inr c" "c + f \<le> m"
    using mf(6) by (auto split: sum.splits)
  have "q_Ask (the q) * ?w \<le> m - f"
    using MulQtyPrice_whole[OF c(1) assms(4,5)] c(2) by (simp add: mult.commute)
  then show "op_WorkingPrice (derive_unpriced limits q op) \<le> op_ApprovedPriceCap (derive_unpriced limits q op)"
    unfolding cap using le_div_iff[OF mf(2)] assms(7) by (simp add: mf(7))
qed

definition option_int64 :: "micros option \<Rightarrow> bool" where
  "option_int64 v \<longleftrightarrow> (case v of None \<Rightarrow> True | Some x \<Rightarrow> in_int64 x)"

text \<open>The values an open and its quote carry are 64-bit values.\<close>

definition open_int64 :: "operation \<Rightarrow> quote option \<Rightarrow> bool" where
  "open_int64 op q \<longleftrightarrow> option_int64 (op_Limit op) \<and> option_int64 (op_MaxRiskUSD op) \<and>
     (case q of None \<Rightarrow> True | Some x \<Rightarrow> quote_int64 x)"

lemma usable_quote:
  assumes "quote_usable q limits now" "open_int64 op q"
  shows "Sane (the q)" "quote_int64 (the q)" "0 < q_Ask (the q)"
  using assms by (auto simp: quote_usable_def open_int64_def Usable_def Sane_def split: option.splits)

lemma order_core_eqD:
  assumes "order_core a = order_core b"
  shows "op_Kind a = op_Kind b" "op_OrderType a = op_OrderType b" "op_Qty a = op_Qty b"
    "op_Limit a = op_Limit b" "op_MaxRiskUSD a = op_MaxRiskUSD b" "op_Shadow a = op_Shadow b"
    "op_Action a = op_Action b" "op_Side a = op_Side b" "operationSymbol a = operationSymbol b"
  using assms by (simp_all add: order_core_def operationSymbol_def)

lemma derive_priced_safe:
  assumes d: "derive_ticks precision (derive_prices limits q u op) = Inr op'"
    and r: "op_RejectReason (derive_cash limits op') = []"
    and u: "quote_usable q limits now = u" "op_WorkingPrice op = (if u then q_Ask (the q) else w)"
      "u \<or> op_Limit op \<noteq> None" "prices_ok op" "open_int64 op q"
    and m: "op_Multiplier op = (if op_Kind op = ''option'' then 100 else 1)"
  shows "derived limits op (derive_cash limits op')" "cost_covered limits (derive_cash limits op')"
proof -
  let ?p = "derive_prices limits q u op"
  have q: "u \<Longrightarrow> quote_int64 (the q)" using usable_quote(2) u(1,5) by blast
  note p = derive_prices_bounds[OF u(1-4) q]
  have int: "in_int64 (op_ApprovedPriceCap ?p)"
    using p(4) q u(3,5) by (auto simp: open_int64_def option_int64_def quote_int64_def split: option.splits)
  note t = derive_ticks_Inr[OF d int p(5,6)]
  obtain c f where c: "0 < c + f"
    "derive_cash limits op' = op'\<lparr>op_RequiredCash := c + f, op_DerivedMaxRisk := c + f\<rparr>"
    by (rule derive_cash_Some[OF r])
  have core: "order_core op' = order_core op" using t(1) p(1) by simp
  have "op_Limit op = None \<or> op_ApprovedPriceCap op' \<le> the (op_Limit op)"
    using t(7) p(4) by (auto split: option.splits)
  then show "derived limits op (derive_cash limits op')"
    using c core t(3,5,6) p(3) m by (simp add: derived_def order_core_def)
  show "cost_covered limits (derive_cash limits op')" by (rule derive_cash_covered[OF r])
qed

lemma derive_open_safe:
  assumes v: "valid_open op" "prices_ok op" "open_int64 op q"
    and d: "d = deriveOpenOperationWithLimits now live ex ins op q limits" "op_RejectReason d = []"
  shows "derived limits op d" "cost_covered limits d"
proof -
  let ?u = "quote_usable q limits now"
  have u: "?u \<or> priceBoundedOpen op"
  proof (rule ccontr)
    assume "\<not> (?u \<or> priceBoundedOpen op)"
    then have "d = reject_op op ''market_data_unavailable''"
      unfolding d(1) deriveOpenOperationWithLimits_def Let_def by simp
    then show False using d(2) by simp
  qed
  then have d1: "d = (case derive_contract live ex ins op of Inl r \<Rightarrow> r
      | Inr (op, precision) \<Rightarrow> derive_terms limits q ?u precision op)"
    unfolding d(1) deriveOpenOperationWithLimits_def Let_def by auto
  obtain op1 precision where c: "derive_contract live ex ins op = Inr (op1, precision)"
    using d(2) d1 derive_contract_Inl[of live ex ins op]
    by (cases "derive_contract live ex ins op") auto
  note op1 = derive_contract_Inr[OF c]
  obtain op2 where op2: "op2 = (if ?u then op1\<lparr>op_WorkingPrice := q_Ask (the q)\<rparr> else op1)" by blast
  have core2: "order_core op2 = order_core op" "op_StopPrice op2 = op_StopPrice op"
    "op_Multiplier op2 = (if op_Kind op = ''option'' then 100 else 1)"
    using op1 by (auto simp: op2 order_core_def)
  note core = order_core_eqD[OF core2(1)]
  have d2: "d = (case derive_stop q ?u precision op2 of Inl r \<Rightarrow> r
      | Inr op \<Rightarrow> derive_order limits q ?u precision op)"
    using d1 c by (simp add: derive_terms_def op2 [symmetric])
  have stop: "derive_stop q ?u precision op2 = Inr op2"
    using d(2) d2 derive_stop_Inl[of q ?u precision op2] derive_stop_Inr[of q ?u precision op2]
    by (cases "derive_stop q ?u precision op2") auto
  have int2: "open_int64 op2 q" "prices_ok op2"
    using v(2,3) core core2(2) by (simp_all add: open_int64_def prices_ok_def)
  have final: "d = derive_order limits q ?u precision op2" using d2 stop by simp
  have work: "op_WorkingPrice op2 = (if ?u then q_Ask (the q) else op_WorkingPrice op1)"
    by (simp add: op2)
  have "derived limits op d \<and> cost_covered limits d"
  proof (cases "op_OrderType op2 = ''market'' \<or> op_OrderType op2 = ''stop_market''")
    case True
    then have ot: "op_OrderType op = ''market'' \<or> op_OrderType op = ''stop_market''" by (simp add: core)
    have ut: ?u using u ot by (auto simp: priceBoundedOpen_def)
    have sh: "unpriced_ok op" "op_Limit op = None"
      using v(1) ot by (auto simp: valid_open_def order_type_ok_def)
    have qty: "Scale dvd op_Qty op2" "0 < op_Qty op2" "op_Kind op2 \<noteq> ''option''"
      using sh v(1) by (simp_all add: core unpriced_ok_def valid_open_def sized_def)
    have du: "d = derive_unpriced limits q op2" using final True by (simp add: derive_order_def)
    then have r: "op_RejectReason (derive_unpriced limits q op2) = []" using d(2) by simp
    have ask: "0 < q_Ask (the q)" using usable_quote(3)[OF ut v(3)] .
    have mr: "\<forall>m. op_MaxRiskUSD op2 = Some m \<longrightarrow> in_int64 m"
      using int2(1) by (auto simp: open_int64_def option_int64_def)
    have mult: "op_Multiplier op2 = 1" using core2(3) qty(3) core by simp
    note cov = derive_unpriced_covered[OF r qty(3) mult qty(1,2) mr _ ask]
    have w: "op_WorkingPrice op2 = q_Ask (the q)" using work ut by simp
    obtain m f where mf: "f < m" "MulQtyPrice (op_Qty op2) (FeePerShare (ExecutionPolicy limits)) 1 True = Inr f"
      "derive_unpriced limits q op2 = op2\<lparr>op_ApprovedPriceCap := wrap64 (m - f) sdiv (op_Qty op2 sdiv Scale),
       op_RequiredCash := m, op_DerivedMaxRisk := m\<rparr>"
      by (rule derive_unpriced_Some[OF r])
    have "derived limits op d"
      using mf(1) MulQtyPrice_nonneg[OF mf(2)] cov(2)[OF w] ask w core2 sh(2)
      by (simp add: du mf(3) derived_def order_core_def)
    then show ?thesis using cov(1)[OF w] du by simp
  next
    case False
    then have df: "d = (case derive_ticks precision (derive_prices limits q ?u op2) of
              Inl r \<Rightarrow> r | Inr op \<Rightarrow> derive_cash limits op)" using final False by (simp add: derive_order_def)
    then obtain op3 where t: "derive_ticks precision (derive_prices limits q ?u op2) = Inr op3"
      using derive_ticks_Inl[of precision "derive_prices limits q ?u op2"] d(2)
      by (cases "derive_ticks precision (derive_prices limits q ?u op2)") auto
    have dc: "d = derive_cash limits op3" using df t by simp
    have r: "op_RejectReason (derive_cash limits op3) = []" using d(2) dc by simp
    have l: "?u \<or> op_Limit op2 \<noteq> None" using u core by (auto simp: priceBoundedOpen_def)
    have m: "op_Multiplier op2 = (if op_Kind op2 = ''option'' then 100 else 1)" using core2(3) core by simp
    note s = derive_priced_safe[OF t r refl work l int2(2,1) m]
    then show ?thesis unfolding dc using core2(1) core by (simp add: derived_def)
  qed
  then show "derived limits op d" "cost_covered limits d" by blast+
qed

section \<open>The properties of the operation surface\<close>

text \<open>C36: validation. Whatever a client sends, an accepted request is a well-formed operation: its action is one of
  the four, sizes are positive (whole for options), prices are positive, each order type carries
  exactly the prices it may (a stop-limit buy at or above its trigger, market orders with a positive
  declared ceiling and no price), and none of the Kernel's derived facts can be set by the client: risk, cash, price cap,
  working price, multiplier, increment and instrument, the observation a decision rests on, the origin and
  identity of the broker's object, the position read, the cancel's target, the tracked and the external
  quantity of a close, the verified reduction and the reason of rejection.\<close>

theorem validated_operation:
  assumes "validateAndBuildOperation r = Inr op"
  shows "valid_operation op"
  using validateAndBuildOperation_valid[OF assms] .

definition sample_request :: propose_request where
  "sample_request = \<lparr>rq_Proposer = ''scout'', rq_Action = ''open'', rq_Kind = ''equity'',
     rq_Underlying = ''SPY'', rq_Symbol = [], rq_Side = ''buy'', rq_OrderType = ''stop_market'',
     rq_ExecutionStyle = [], rq_Qty = 3000000, rq_Limit = None, rq_StopPrice = Some 102000000,
     rq_MaxRiskUSD = Some 330000000, rq_Short = False, rq_Plan = [''stop'' \<mapsto> ''95''], rq_Thesis = [],
     rq_Setup = [], rq_Shadow = False, rq_BrokerOrderID = [], rq_PositionID = [],
     rq_ClosesOperationID = []\<rparr>"

definition sample_stop_market :: operation where
  "sample_stop_market = default_open (build_operation sample_request)"

lemma sample_request_accepted: "validateAndBuildOperation sample_request = Inr sample_stop_market"
proof -
  have a: "op_Action (build_operation sample_request) = ''open''" by code_simp
  have g: "list_all (\<lambda>g. \<not> fst g) (open_guards (operationSymbol (build_operation sample_request))
      (default_open (build_operation sample_request)))" by code_simp
  have c: "list_all (\<lambda>g. \<not> fst g) (common_guards (default_open (build_operation sample_request)))" by code_simp
  have v: "validate_open (operationSymbol (build_operation sample_request)) (build_operation sample_request)
      = Inr (default_open (build_operation sample_request))"
    using g by (simp add: validate_open_def Let_def)
  have s: "(if op_Symbol b = [] then op_Underlying b else op_Symbol b) = operationSymbol b" for b
    by (simp add: operationSymbol_def)
  show ?thesis
    unfolding validateAndBuildOperation_def Let_def s sample_stop_market_def
    by (simp only: a v sum.case if_True guarded_ok c simp_thms)
qed

theorem validated_operation_witness: "valid_operation sample_stop_market"
  by (rule validated_operation[OF sample_request_accepted])

lemma validated_open:
  assumes "validateAndBuildOperation r = Inr op" "op_Action op = ''open''"
  shows "valid_open op" "prices_ok op" "op_RejectReason op = []"
  using validateAndBuildOperation_valid[OF assms(1)] assms(2)
  by (auto simp: valid_operation_def valid_close_def underived_def)

text \<open>C24: the derivation bounds the loss. If the Kernel derives an open from an accepted request without a
  reject reason, the working price is positive and within the approved cap, the cap is within the
  client's limit, the reserved cash is the derived risk, and any execution at or below the cap
  costs, fees included, at most the reserved cash. This holds for limit, stop-limit, market and
  stop-market orders, for shares and for options.\<close>

theorem derived_open_covers_cost:
  assumes "validateAndBuildOperation r = Inr op" "op_Action op = ''open''" "open_int64 op q"
    and "op_RejectReason (deriveOpenOperationWithLimits now live ex ins op q limits) = []"
  shows "derived limits op (deriveOpenOperationWithLimits now live ex ins op q limits) \<and>
    cost_covered limits (deriveOpenOperationWithLimits now live ex ins op q limits)"
  using derive_open_safe[OF validated_open(1,2)[OF assms(1,2)] assms(3) refl assms(4)] by blast

theorem derived_open_covers_cost_witness:
  "derived sample_policy sample_stop_market
     (deriveOpenOperationWithLimits 1010000000000 True None (\<lambda>s. Some
       \<lparr>i_Symbol = s, i_InstrumentID = ''id'', i_Kind = ''equity'', i_Multiplier = 1, i_PriceTick = 10000,
        i_BelowPriceTick = 0, i_TickCutoff = 0, i_QtyIncrement = 1000000, i_Source = [], i_AsOf = 0\<rparr>)
       sample_stop_market (Some sample_quote) sample_policy) \<and>
   cost_covered sample_policy
     (deriveOpenOperationWithLimits 1010000000000 True None (\<lambda>s. Some
       \<lparr>i_Symbol = s, i_InstrumentID = ''id'', i_Kind = ''equity'', i_Multiplier = 1, i_PriceTick = 10000,
        i_BelowPriceTick = 0, i_TickCutoff = 0, i_QtyIncrement = 1000000, i_Source = [], i_AsOf = 0\<rparr>)
       sample_stop_market (Some sample_quote) sample_policy)"
  by (rule derived_open_covers_cost[OF sample_request_accepted]) code_simp+

text \<open>The derivation never rewrites what the client asked for.\<close>

lemma derive_contract_core:
  "derive_contract live ex ins op = Inl r \<Longrightarrow> order_core r = order_core op"
  by (auto simp: derive_contract_def Let_def order_core_def split: if_splits option.splits)
    (simp_all add: reject_op_def)

lemma derive_stop_core: "derive_stop q u precision op = Inl r \<Longrightarrow> order_core r = order_core op"
  by (auto simp: derive_stop_def Let_def split: if_splits option.splits)

lemma derive_ticks_core:
  "derive_ticks precision op = Inl r \<Longrightarrow> order_core r = order_core op"
  "derive_ticks precision op = Inr op' \<Longrightarrow> order_core op' = order_core op"
  by (auto simp: derive_ticks_def Let_def order_core_def reject_op_def split: if_splits option.splits)

lemma derive_unpriced_core: "order_core (derive_unpriced limits q op) = order_core op"
  by (simp add: derive_unpriced_def Let_def order_core_def reject_op_def split: sum.splits)

lemma derive_cash_core: "order_core (derive_cash limits op) = order_core op"
  by (simp add: derive_cash_eq order_core_def reject_op_def split: sum.splits)

lemma derive_order_core: "order_core (derive_order limits q u precision op) = order_core op"
proof -
  have "order_core (derive_prices limits q u op) = order_core op"
    by (simp add: derive_prices_def Let_def order_core_def)
  then show ?thesis
    by (auto simp: derive_order_def derive_unpriced_core derive_cash_core
        dest: derive_ticks_core split: sum.splits)
qed

lemma derive_terms_core: "order_core (derive_terms limits q u precision op) = order_core op"
proof -
  have "order_core (op\<lparr>op_WorkingPrice := w\<rparr>) = order_core op" for w by (simp add: order_core_def)
  then show ?thesis
    by (auto simp: derive_terms_def Let_def derive_order_core dest: derive_stop_core derive_stop_Inr
        split: sum.splits)
qed

lemma derive_open_core:
  "order_core (deriveOpenOperationWithLimits now live ex ins op q limits) = order_core op"
  by (auto simp: deriveOpenOperationWithLimits_def Let_def derive_terms_core
      dest: derive_contract_core derive_contract_Inr(1) split: sum.splits)

text \<open>an approval is executed on the terms it was given. When the Kernel re-derives an approved open
  before execution and does not reject it, the price cap, the multiplier, the cash, the risk and
  the quantity increment are the approved ones, and the client's order is unchanged.\<close>

lemma prepared_keeps_approval:
  assumes "op_RejectReason (prepareApprovedOpenWithLimits now live ex ins op q limits) = []"
  shows "(let d = prepareApprovedOpenWithLimits now live ex ins op q limits
    in 0 < op_ApprovedPriceCap op \<and> op_ApprovedPriceCap d = op_ApprovedPriceCap op \<and>
       op_Multiplier d = op_Multiplier op \<and> op_RequiredCash d = op_RequiredCash op \<and>
       op_DerivedMaxRisk d = op_DerivedMaxRisk op \<and> op_QtyIncrement d = op_QtyIncrement op \<and>
       order_core d = order_core op)"
proof -
  obtain d where d: "d = deriveOpenOperationWithLimits now live ex ins
      (op\<lparr>op_Limit := Some (op_ApprovedPriceCap op), op_RejectReason := []\<rparr>) q limits" by blast
  have "order_core d = order_core (op\<lparr>op_Limit := Some (op_ApprovedPriceCap op)\<rparr>)"
    using derive_open_core unfolding d by (simp add: order_core_def)
  then have core: "order_core (d\<lparr>op_Limit := op_Limit op\<rparr>) = order_core op"
    "\<And>w. order_core (d\<lparr>op_Limit := op_Limit op, op_WorkingPrice := w\<rparr>) = order_core op"
    by (simp_all add: order_core_def)
  show ?thesis
    using assms core unfolding prepareApprovedOpenWithLimits_def Let_def d [symmetric]
    by (auto split: if_splits)
qed

definition sample_approved :: operation where
  "sample_approved = deriveOpenOperationWithLimits 1010000000000 False None (\<lambda>_. None) sample_open
     (Some sample_quote) sample_policy"

lemma unique_position_ok:
  "unique_position op ps = Inr p \<longleftrightarrow> filter (matches_position op) ps = [p]"
  by (auto simp: unique_position_def split: list.splits)

definition signed_qty :: "string \<Rightarrow> qty \<Rightarrow> qty" where
  "signed_qty side q = (if side = ''sell'' then - q else q)"

lemma normalizeClose_ok:
  assumes "normalizeClose op ps = Inr op'"
  obtains p a where "filter (matches_position op) ps = [p]" "AbsQty (p_Qty p) = Inr a" "op_Qty op \<le> a"
    "p_Kind p = ''equity'' \<or> p_Kind p = ''option''" "p_Kind p \<noteq> ''option'' \<or> \<not> fractional (op_Qty op)"
    "op' = op\<lparr>op_Kind := p_Kind p, op_Multiplier := p_Multiplier p, op_InstrumentID := p_InstrumentID p,
        op_Side := (if p_Qty p > 0 then ''sell'' else ''buy''), op_VerifiedReduction := True\<rparr>"
  using assms unfolding normalizeClose_def case_sum_Inr_iff unique_position_ok guarded_ok
  by (auto simp: not_less)

text \<open>a close only ever shrinks a position. A normalised close of a positive quantity has exactly one matching
  position, trades against its sign and at most its size: filling it in full leaves a position
  smaller by exactly the closed quantity, never reversed; and only then is the operation marked a
  verified reduction, which puts it in class A.\<close>

lemma normalized_close_reduces:
  assumes "normalizeClose op ps = Inr op'" "0 < op_Qty op" "list_all (\<lambda>p. in_int64 (p_Qty p)) ps"
    and "op_Action op = ''close''"
  shows "\<exists>p. filter (matches_position op) ps = [p] \<and> op_Qty op' = op_Qty op \<and>
    \<bar>p_Qty p + signed_qty (op_Side op') (op_Qty op')\<bar> = \<bar>p_Qty p\<bar> - op_Qty op' \<and>
    op_Kind op' = p_Kind p \<and> op_InstrumentID op' = p_InstrumentID p \<and>
    Class (ClassifyAt op' limits day q now) = ''A''"
proof -
  obtain p a where p: "filter (matches_position op) ps = [p]" "AbsQty (p_Qty p) = Inr a" "op_Qty op \<le> a"
    "op' = op\<lparr>op_Kind := p_Kind p, op_Multiplier := p_Multiplier p, op_InstrumentID := p_InstrumentID p,
        op_Side := (if p_Qty p > 0 then ''sell'' else ''buy''), op_VerifiedReduction := True\<rparr>"
    by (rule normalizeClose_ok[OF assms(1)])
  have "p \<in> set ps" using p(1) by (metis filter_is_subset list.set_intros(1) subsetD)
  then have "in_int64 (p_Qty p)" using assms(3) by (simp add: list_all_iff)
  then have "a = \<bar>p_Qty p\<bar>" using p(2) AbsQty_iff by blast
  then have "\<bar>p_Qty p + signed_qty (op_Side op') (op_Qty op')\<bar> = \<bar>p_Qty p\<bar> - op_Qty op'"
    using p(3) assms(2) by (auto simp: p(4) signed_qty_def)
  moreover have "Class (ClassifyAt op' limits day q now) = ''A''"
    using assms(4) by (simp add: p(4) ClassifyAt_def)
  ultimately show ?thesis using p(1,4) by auto
qed

definition sample_position :: position where
  "sample_position = \<lparr>p_PositionID = ''p1'', p_InstrumentID = ''id'', p_Symbol = ''SPY'', p_Qty = - 5000000,
     p_AvgPrice = 90000000, p_AvgPriceKnown = True, p_Kind = ''equity'', p_Multiplier = 1, p_Source = [],
     p_AsOf = 0\<rparr>"

definition sample_close :: operation where
  "sample_close = sample_open\<lparr>op_Action := ''close'', op_Kind := [], op_Side := [], op_Qty := 3000000\<rparr>"

end
