(* ===== verification/Store_Tables.thy ===== *)
theory Store_Tables
  imports Order_State Units
begin

text \<open>
  The database the Kernel's ledger lives in, as far as the modelled operations of
  \<^verbatim>\<open>kernel/internal/store\<close> read and write it. A table is the list of its rows in insertion
  order; \<open>SELECT ... WHERE\<close> is \<open>find\<close> or \<open>filter\<close>, \<open>UPDATE ... WHERE\<close> is
  \<open>update_rows\<close>, and the number of affected rows is \<open>affected\<close>. A row record keeps the
  fields of the Go struct it is scanned into; a column that may be NULL is an option where the code
  tells NULL apart (the reservations of an attempt), and otherwise the zero value the code scans NULL
  to. A transaction is a function into \<open>db result\<close>: an error is the rollback, the caller keeps the
  database it had. Row locks, advisory locks and the table constraints of the migrations are not
  modelled: each operation is one atomic step.
\<close>

section \<open>Rows\<close>

record execution_attempt =
  at_ID :: string
  at_OperationID :: string
  at_Seq :: int64
  at_CloseReservationID :: "string option"
  at_OpenReservationID :: "string option"
  at_Intent :: string
  at_ClientOrderID :: string
  at_TargetBrokerOrderID :: string
  at_State :: string
  at_BrokerOrderID :: string
  at_Qty :: qty
  at_Limit :: micros
  at_Attempt :: int64
  at_ClaimedBy :: string
  at_CreatedAt :: time
  at_ClaimedAt :: time
  at_ResolvedAt :: time
  at_LastError :: string
  at_IntentFingerprint :: "string option"
  at_ProviderAccountID :: "string option"
  at_ProviderIntent :: "string option"
  at_SentAt :: "time option"
  at_SendWindowStart :: "time option"
  at_SendWindowEnd :: "time option"
  at_ReplayCount :: int64
  at_ProviderErrorCode :: string
  at_CandidateBrokerOrderID :: string
  at_CandidateObservedAt :: "time option"
  at_KernelPolicyRevisionID :: int64
  at_KernelPolicyGeneration :: int64
  at_KernelPolicyDigest :: string
  at_AuthorizationExpiresAt :: time
  at_MaxReprices :: int64
  at_RepriceIntervalSec :: int64
  at_QuoteMaxAgeSec :: int64
  at_LeaseExpiresAt :: time

record open_reservation =
  rs_ID :: string
  rs_OperationID :: string
  rs_Ledger :: string
  rs_MarketDay :: time
  rs_Symbol :: string
  rs_Kind :: string
  rs_OriginalQty :: qty
  rs_RemainingQty :: qty
  rs_OriginalRisk :: micros
  rs_RemainingRisk :: micros
  rs_OriginalCash :: micros
  rs_RemainingCash :: micros
  rs_ResourceState :: string
  rs_CreatedAt :: time
  rs_SettledAt :: "time option"
  rs_KernelPolicyRevisionID :: int64
  rs_KernelPolicyGeneration :: int64
  rs_KernelPolicyDigest :: string

record close_reservation =
  cr_ID :: string
  cr_OperationID :: string
  cr_Ledger :: string
  cr_Symbol :: string
  cr_OriginalQty :: qty
  cr_RemainingQty :: qty
  cr_State :: string
  cr_CreatedAt :: time
  cr_ReleasedAt :: "time option"
  cr_KernelPolicyRevisionID :: int64
  cr_KernelPolicyGeneration :: int64
  cr_KernelPolicyDigest :: string

record trade_grant =
  tg_OperationID :: string
  tg_Ledger :: string
  tg_MarketDay :: time
  tg_AuthorizedRisk :: micros
  tg_RiskSource :: string
  tg_LiveCanaryRevisionID :: int64
  tg_GrantedAt :: time
  tg_KernelPolicyRevisionID :: int64
  tg_KernelPolicyGeneration :: int64
  tg_KernelPolicyDigest :: string

record order_row =
  o_ID :: string
  o_OperationID :: string
  o_ExecutionAttemptID :: string
  o_BrokerOrderID :: string
  o_ClientOrderID :: string
  o_Ledger :: string
  o_Symbol :: string
  o_Side :: string
  o_Kind :: string
  o_Multiplier :: int64
  o_Qty :: qty
  o_Limit :: micros
  o_State :: string
  o_Reprices :: int64
  o_CreatedAt :: time
  o_UpdatedAt :: time
  o_KernelPolicyRevisionID :: int64
  o_KernelPolicyGeneration :: int64
  o_KernelPolicyDigest :: string
  o_AuthorizationExpiresAt :: time
  o_ApprovedPriceBound :: micros
  o_MaxReprices :: int64
  o_RepriceIntervalSec :: int64
  o_QuoteMaxAgeSec :: int64
  o_WorkingSince :: "time option"

record fill_row =
  fl_ID :: string
  fl_OrderID :: string
  fl_BrokerFillID :: string
  fl_Ledger :: string
  fl_Qty :: qty
  fl_Price :: micros
  fl_Fees :: micros
  fl_TS :: time

record exposure_lot =
  xl_OpenFillID :: string
  xl_OperationID :: string
  xl_Ledger :: string
  xl_Symbol :: string
  xl_Kind :: string
  xl_Multiplier :: int64
  xl_OpenedQty :: qty
  xl_ClosedQty :: qty
  xl_EntryCost :: micros
  xl_RemainingCost :: micros
  xl_RemainingRisk :: micros
  xl_OpenedAt :: time
  xl_ClosedAt :: "time option"

record close_allocation =
  ca_CloseFillID :: string
  ca_OpenFillID :: string
  ca_Qty :: qty
  ca_MatchedCost :: micros
  ca_ReleasedRisk :: micros

text \<open>A row of \<open>broker_external_exposure_allocation\<close> has the same columns, with the episode for the closing fill.\<close>

record shadow_account =
  sa_Cash :: micros
  sa_BuyingPower :: micros

record shadow_position =
  sp_Symbol :: string
  sp_Kind :: string
  sp_Multiplier :: int64
  sp_Qty :: qty

text \<open>The rows of \<open>external_control_episode\<close> and of its fill allocations.\<close>

record control_episode =
  ep_ID :: string
  ep_OperationID :: string
  ep_ControlAction :: string
  ep_Origin :: string
  ep_BrokerObservationID :: string
  ep_ObservationGeneration :: int64
  ep_ObjectKey :: string
  ep_RequestedQty :: qty
  ep_TrackedQty :: qty
  ep_ExternalQty :: qty

record external_allocation =
  ea_CloseFillID :: string
  ea_EpisodeID :: string
  ea_Qty :: qty

text \<open>An operation row: its status, class, expiry and policy binding, and the payload fields that are read back
  from the database (\<open>ow_Symbol\<close> is the symbol or else the underlying, \<open>ow_Shadow\<close> its shadow flag).\<close>

record operation_row =
  ow_ID :: string
  ow_Status :: string
  ow_Action :: string
  ow_Side :: string
  ow_Symbol :: string
  ow_Limit :: "micros option"
  ow_ApprovedPriceCap :: micros
  ow_Class :: string
  ow_ExpiresAt :: "time option"
  ow_KernelPolicyRevisionID :: "int64 option"
  ow_KernelPolicyGeneration :: "int64 option"
  ow_KernelPolicyDigest :: "string option"
  ow_TS :: time
  ow_Shadow :: bool

text \<open>The other columns of an operation row: who proposed it, its payload and verdict as JSON, and the identity of the
  request.\<close>

record proposal_row =
  pp_ID :: string
  pp_Proposer :: string
  pp_Payload :: string
  pp_Verdict :: string
  pp_AuthenticatedSubject :: "string option"
  pp_IdempotencyKey :: "string option"
  pp_RequestHash :: string

text \<open>The live canary: its revisions, and the attestations a widening rests on, each with the account of the
  attestation.\<close>

record canary_revision_row =
  cv_ID :: int64
  cv_DailyAuthorizedRisk :: micros
  cv_CleanDaysBeforeRaise :: int64
  cv_EffectiveMarketDay :: time
  cv_RecordedAt :: time
  cv_AuthorityVersion :: "int64 option"
  cv_RecordedBy :: string
  cv_Reason :: string
  cv_ChangeClass :: string
  cv_RequiredAttestations :: int64

record canary_evidence_row =
  ce_RevisionID :: int64
  ce_Ordinal :: int64
  ce_AttestationID :: int64
  ce_AccountID :: string

text \<open>The policy authority: immutable revisions and the single head row.\<close>

record policy_revision_row =
  kr_ID :: int64
  kr_SchemaVersion :: int64
  kr_Policy :: string
  kr_Digest :: string
  kr_RecordedAt :: time
  kr_RecordedBy :: string
  kr_Reason :: string
  kr_ChangeClass :: string

record policy_head_row =
  kh_RevisionID :: int64
  kh_Generation :: int64
  kh_ActivatedAt :: time
  kh_ActivatedBy :: string
  kh_Reason :: string

text \<open>The evidence a send is bound to: broker observations, pre-effect manifests, and the binding rows.\<close>

record observation_row =
  bo_ID :: string
  bo_Status :: string
  bo_Purpose :: string
  bo_AccountID :: string
  bo_Generation :: int64
  bo_ManifestDigest :: string
  bo_Source :: string
  bo_StartedAt :: time
  bo_CompletedAt :: time
  bo_LocalStateGeneration :: int64

record observation_family_row =
  of_ObservationID :: string
  of_Family :: string
  of_Status :: string
  of_ErrorCode :: "string option"
  of_CompletedAt :: time
  of_ItemCount :: int64
  of_Digest :: string

record observation_item_row =
  oi_ObservationID :: string
  oi_Family :: string
  oi_ObjectKey :: string
  oi_ObservedAt :: time
  oi_Digest :: string
  oi_Canonical :: string

record object_origin_row =
  og_ObservationID :: string
  og_Family :: string
  og_ObjectKey :: string
  og_Origin :: string
  og_Evidence :: string
  og_MatchedOrderID :: "string option"
  og_MatchedAttemptID :: "string option"

record observation_head_row =
  oh_AccountID :: string
  oh_ObservationID :: string
  oh_Generation :: int64
  oh_UpdatedAt :: time

text \<open>The reconciliation of the account: the projection of its positions, how far it has come, the changes of
  positions that others made, and the operations they invalidated.\<close>

record external_change =
  ex_ID :: string
  ex_AccountID :: string
  ex_BrokerObservationID :: string
  ex_ObservationGeneration :: int64
  ex_Symbol :: string
  ex_Kind :: string
  ex_ChangeKind :: string
  ex_Origin :: string
  ex_ProviderQtyBefore :: "qty option"
  ex_ProviderQtyAfter :: qty
  ex_TrackedQtyBefore :: qty
  ex_TrackedQtyAfter :: qty
  ex_AdjustedTrackedQty :: qty
  ex_PositionKeys :: "string list"
  ex_AttributionStatus :: string

record position_projection_row =
  pj_AccountID :: string
  pj_Symbol :: string
  pj_Kind :: string
  pj_ObservationID :: string
  pj_ObservationGeneration :: int64
  pj_ProviderQty :: qty
  pj_TrackedQty :: qty
  pj_PositionKeys :: "string list"

record reconciliation_head_row =
  rh_AccountID :: string
  rh_ObservationID :: string
  rh_Generation :: int64

record operation_invalidation_row =
  iv_OperationID :: string
  iv_BrokerObservationID :: string
  iv_ObservationGeneration :: int64
  iv_Reason :: string

record pre_effect_manifest =
  pm_ID :: string
  pm_AttemptID :: string
  pm_FencingToken :: int64
  pm_AccountID :: string
  pm_Effect :: string
  pm_ObservationID :: string
  pm_ObservationGeneration :: int64
  pm_ObservationManifestDigest :: string
  pm_TargetBrokerOrderID :: string
  pm_Facts :: string
  pm_FactsDigest :: string
  pm_ExpiresAt :: time
  pm_CreatedAt :: time
  pm_Ledger :: string
  pm_ActivePolicyRevisionID :: int64
  pm_ActivePolicyGeneration :: int64
  pm_ActivePolicyDigest :: string
  pm_ExpectedLocalOpenRisk :: micros
  pm_ExpectedLocalHeldCash :: micros
  pm_ExpectedOtherCloseQty :: qty

record send_binding =
  sb_AttemptID :: string
  sb_SendOrdinal :: int64
  sb_FencingToken :: int64
  sb_ManifestID :: string

datatype payload = PText string | PInt int | PBool bool | PList "string list"

text \<open>An event; its time is given when it is inserted with an explicit observation time and is else the
  database's default.\<close>

record event =
  ev_Kind :: string
  ev_Payload :: "(string \<times> payload) list"
  ev_TS :: "time option"

record db =
  db_M3A :: bool
  db_M3AActivatedAt :: time
  db_Operations :: "operation_row list"
  db_Attempts :: "execution_attempt list"
  db_Grants :: "trade_grant list"
  db_OpenReservations :: "open_reservation list"
  db_CloseReservations :: "close_reservation list"
  db_Orders :: "order_row list"
  db_Fills :: "fill_row list"
  db_Lots :: "exposure_lot list"
  db_Allocations :: "close_allocation list"
  db_Episodes :: "control_episode list"
  db_ExternalAllocations :: "external_allocation list"
  db_ShadowAccount :: shadow_account
  db_ShadowPositions :: "shadow_position list"
  db_GateActive :: "string option"
  db_GateUnknown :: "string option"
  db_Events :: "event list"
  db_GateActiveSince :: "time option"
  db_GateUnknownSince :: "time option"
  db_Observations :: "observation_row list"
  db_Manifests :: "pre_effect_manifest list"
  db_Bindings :: "send_binding list"
  db_PolicyRevisions :: "policy_revision_row list"
  db_PolicyHead :: "policy_head_row option"
  db_ObservationFamilies :: "observation_family_row list"
  db_ObservationItems :: "observation_item_row list"
  db_ObjectOrigins :: "object_origin_row list"
  db_ObservationHeads :: "observation_head_row list"
  db_ExternalReductions :: "close_allocation list"
  db_ExternalChanges :: "external_change list"
  db_Projections :: "position_projection_row list"
  db_ReconciliationHeads :: "reconciliation_head_row list"
  db_Invalidations :: "operation_invalidation_row list"
  db_Proposals :: "proposal_row list"
  db_CanaryRevisions :: "canary_revision_row list"
  db_CanaryEvidence :: "canary_evidence_row list"


section \<open>Queries\<close>

definition update_rows :: "('r \<Rightarrow> bool) \<Rightarrow> ('r \<Rightarrow> 'r) \<Rightarrow> 'r list \<Rightarrow> 'r list" where
  "update_rows cond f rows = map (\<lambda>r. if cond r then f r else r) rows"

definition affected :: "('r \<Rightarrow> bool) \<Rightarrow> 'r list \<Rightarrow> nat" where
  "affected cond rows = length (filter cond rows)"

definition total :: "('r \<Rightarrow> int) \<Rightarrow> 'r list \<Rightarrow> int" where
  "total v rows = sum_list (map v rows)"

definition insert_event :: "string \<Rightarrow> (string \<times> payload) list \<Rightarrow> db \<Rightarrow> db" where
  "insert_event kind payload s = s\<lparr>db_Events := db_Events s @ [\<lparr>ev_Kind = kind, ev_Payload = payload, ev_TS = None\<rparr>]\<rparr>"

definition insert_event_at :: "time \<Rightarrow> string \<Rightarrow> (string \<times> payload) list \<Rightarrow> db \<Rightarrow> db result" where
  "insert_event_at observedAt kind payload s =
     (if observedAt = 0 then Inl (Errorf ''event observation time is required'' [])
      else Inr (s\<lparr>db_Events := db_Events s @ [\<lparr>ev_Kind = kind, ev_Payload = payload, ev_TS = Some observedAt\<rparr>]\<rparr>))"

definition ErrNoRows :: go_error where
  "ErrNoRows = Sentinel ''sql: no rows in result set''"

definition ErrFillIntegrity :: go_error where
  "ErrFillIntegrity = Sentinel ''fill integrity failure''"

abbreviation integrity :: "string \<Rightarrow> go_error" where
  "integrity m \<equiv> Wrapf ErrFillIntegrity m"

definition one_row :: "('r \<Rightarrow> bool) \<Rightarrow> 'r list \<Rightarrow> 'r result" where
  "one_row cond rows = (case find cond rows of None \<Rightarrow> Inl ErrNoRows | Some r \<Rightarrow> Inr r)"

lemma one_row_ok: "one_row cond rows = Inr r \<longleftrightarrow> find cond rows = Some r"
  by (simp add: one_row_def split: option.splits)

lemma total_simps [simp]:
  "total v [] = 0" "total v (r # rs) = v r + total v rs" "total v (xs @ ys) = total v xs + total v ys"
  by (simp_all add: total_def)

lemma update_rows_simps [simp]:
  "update_rows c f [] = []"
  "update_rows c f (r # rs) = (if c r then f r else r) # update_rows c f rs"
  "update_rows c f (xs @ ys) = update_rows c f xs @ update_rows c f ys"
  "length (update_rows c f rows) = length rows"
  by (simp_all add: update_rows_def)

lemma set_update_rows: "set (update_rows c f rows) = (\<lambda>r. if c r then f r else r) ` set rows"
  by (simp add: update_rows_def)

lemma update_rows_id: "(\<And>r. r \<in> set rows \<Longrightarrow> \<not> c r) \<Longrightarrow> update_rows c f rows = rows"
  by (induction rows) auto

lemma map_update_rows: "(\<And>r. k (f r) = k r) \<Longrightarrow> map k (update_rows c f rows) = map k rows"
  by (simp add: update_rows_def)

lemma total_nonneg: "(\<And>r. r \<in> set rows \<Longrightarrow> 0 \<le> v r) \<Longrightarrow> 0 \<le> total v rows"
  by (induction rows) (auto simp: add_nonneg_nonneg)

lemma total_update_other: "(\<And>r. r \<in> set rows \<Longrightarrow> c r \<Longrightarrow> v (f r) = v r) \<Longrightarrow> total v (update_rows c f rows) = total v rows"
  by (induction rows) auto

text \<open>Updating the row with a given key in a table whose keys are distinct changes a sum by that row's change.\<close>

lemma total_update_key:
  assumes "distinct (map k rows)" "find (\<lambda>r. k r = i) rows = Some r" "\<And>r. k (f r) = k r"
  shows "total v (update_rows (\<lambda>r. k r = i) f rows) = total v rows - v r + v (f r)"
  using assms
proof (induction rows)
  case Nil
  then show ?case by simp
next
  case (Cons x rows)
  show ?case
  proof (cases "k x = i")
    case True
    then have "update_rows (\<lambda>r. k r = i) f rows = rows"
      using Cons.prems(1) by (intro update_rows_id) (auto simp: image_iff)
    then show ?thesis using True Cons.prems by simp
  next
    case False
    then show ?thesis using Cons by simp
  qed
qed

lemma find_update_key:
  assumes "\<And>r. k (f r) = k r"
  shows "find (\<lambda>r. k r = j) (update_rows (\<lambda>r. k r = i) f rows) =
    map_option (\<lambda>r. if k r = i then f r else r) (find (\<lambda>r. k r = j) rows)"
  using assms by (induction rows) auto

lemma find_SomeD: "find P xs = Some x \<Longrightarrow> P x \<and> x \<in> set xs"
  by (auto simp: find_Some_iff)

lemma find_update_row:
  "find (\<lambda>x. k x = i) rows = Some r \<Longrightarrow> k r' = i \<Longrightarrow>
     find (\<lambda>x. k x = i) (update_rows (\<lambda>x. k x = i) (\<lambda>_. r') rows) = Some r'"
  by (induction rows) (auto split: if_splits)

end
