(* ===== verification/Exposure.thy ===== *)
theory Exposure
  imports Store_Tables "HOL-Library.Product_Lexorder" "HOL-Library.List_Lexorder" "HOL-Library.Char_ord"
begin

text \<open>
  \<^verbatim>\<open>kernel/internal/store/exposure.go\<close>: what a fill does to the ledger. An open fill turns a
  part of the reservation into an exposure lot; a close fill consumes lots first in, first out,
  splitting each lot's entry cost between the closed and the remaining part; the paper account
  follows in the shadow ledger.

  The lemmas show that the split is exact to a micro-dollar, that no cost and no quantity is created
  or lost over a lot's life, and that a close fill consumes exactly its quantity.
\<close>

definition proportionalInt64 :: "int64 \<Rightarrow> int64 \<Rightarrow> int64 \<Rightarrow> bool \<Rightarrow> int64 result" where
  "proportionalInt64 original remaining tot up =
     (if original < 0 \<or> remaining < 0 \<or> tot \<le> 0 \<or> remaining > tot
      then Inl (Errorf ''invalid proportional inputs'' [])
      else (let numerator = original * remaining;
                quotient = numerator sdiv tot;
                remainder = numerator smod tot;
                quotient = (if up \<and> remainder \<noteq> 0 then quotient + 1 else quotient)
            in if in_int64 quotient then Inr quotient
               else Inl (Errorf ''proportional result overflows int64'' [])))"


section \<open>Resources held by a ledger\<close>

record ledger_resources =
  lr_OpenRisk :: micros
  lr_HeldCash :: micros

definition held_for :: "string \<Rightarrow> string \<Rightarrow> open_reservation \<Rightarrow> bool" where
  "held_for ledger excludeOperationID r \<longleftrightarrow> rs_Ledger r = ledger \<and> rs_ResourceState r = ''held'' \<and>
     (excludeOperationID = [] \<or> rs_OperationID r \<noteq> excludeOperationID)"

definition ledgerResources :: "db \<Rightarrow> string \<Rightarrow> string \<Rightarrow> ledger_resources" where
  "ledgerResources s ledger excludeOperationID =
     (let held = filter (held_for ledger excludeOperationID) (db_OpenReservations s)
      in \<lparr>lr_OpenRisk =
             total xl_RemainingRisk
               (filter (\<lambda>l. xl_Ledger l = ledger \<and> xl_ClosedQty l < xl_OpenedQty l) (db_Lots s))
             + total rs_RemainingRisk held,
          lr_HeldCash = total rs_RemainingCash held\<rparr>)"

definition HeldOpenResources :: "db \<Rightarrow> string \<Rightarrow> ledger_resources result" where
  "HeldOpenResources s operationID =
     (let held = filter (\<lambda>r. rs_OperationID r = operationID \<and> rs_Ledger r = ''live'' \<and>
                   rs_ResourceState r = ''held'') (db_OpenReservations s);
          risk = total rs_RemainingRisk held;
          cash = total rs_RemainingCash held
      in if length held \<noteq> 1 \<or> risk \<le> 0 \<or> cash \<le> 0
         then Inl (Errorf ''operation has no exact held open reservation'' [])
         else Inr \<lparr>lr_OpenRisk = risk, lr_HeldCash = cash\<rparr>)"

definition OpenExposureQuantity :: "db \<Rightarrow> string \<Rightarrow> string \<Rightarrow> string \<Rightarrow> qty" where
  "OpenExposureQuantity s ledger symbol kind =
     total (\<lambda>l. xl_OpenedQty l - xl_ClosedQty l)
       (filter (\<lambda>l. xl_Ledger l = ledger \<and> xl_Symbol l = symbol \<and> xl_Kind l = kind \<and>
          xl_ClosedQty l < xl_OpenedQty l) (db_Lots s))"


section \<open>The paper account\<close>

definition applyShadowOpenFill :: "order_row \<Rightarrow> fill_row \<Rightarrow> micros \<Rightarrow> db \<Rightarrow> db result" where
  "applyShadowOpenFill ord fill cost s =
     (let a = db_ShadowAccount s
      in if \<not> (sa_Cash a \<ge> cost \<and> sa_BuyingPower a \<ge> cost)
         then Inl (integrity ''%w: shadow buying power is insufficient'')
         else
          (let s = s\<lparr>db_ShadowAccount := \<lparr>sa_Cash = sa_Cash a - cost, sa_BuyingPower = sa_BuyingPower a - cost\<rparr>\<rparr>
           in case find (\<lambda>p. sp_Symbol p = o_Symbol ord) (db_ShadowPositions s) of
                None \<Rightarrow> Inr (s\<lparr>db_ShadowPositions := db_ShadowPositions s @
                   [\<lparr>sp_Symbol = o_Symbol ord, sp_Kind = o_Kind ord, sp_Multiplier = o_Multiplier ord,
                     sp_Qty = fl_Qty fill\<rparr>]\<rparr>)
              | Some p \<Rightarrow>
                  if sp_Kind p = o_Kind ord \<and> sp_Multiplier p = o_Multiplier ord
                  then Inr (s\<lparr>db_ShadowPositions :=
                    update_rows (\<lambda>r. sp_Symbol r = o_Symbol ord) (\<lambda>r. r\<lparr>sp_Qty := sp_Qty r + fl_Qty fill\<rparr>)
                      (db_ShadowPositions s)\<rparr>)
                  else Inl (integrity ''%w: shadow position metadata changed'')))"

definition shadow_match :: "order_row \<Rightarrow> shadow_position \<Rightarrow> bool" where
  "shadow_match ord p \<longleftrightarrow> sp_Symbol p = o_Symbol ord \<and> sp_Kind p = o_Kind ord \<and>
     sp_Multiplier p = o_Multiplier ord"

definition shadow_reduce :: "order_row \<Rightarrow> fill_row \<Rightarrow> db \<Rightarrow> db result" where
  "shadow_reduce ord fill s =
     (let whole = (\<lambda>p. shadow_match ord p \<and> sp_Qty p = fl_Qty fill);
          part = (\<lambda>p. shadow_match ord p \<and> sp_Qty p > fl_Qty fill);
          n = affected whole (db_ShadowPositions s)
      in if n \<noteq> 0
         then (if n \<noteq> 1 then Inl (integrity ''%w: shadow close exceeds paper position'')
               else Inr (s\<lparr>db_ShadowPositions := filter (\<lambda>p. \<not> whole p) (db_ShadowPositions s)\<rparr>))
         else if affected part (db_ShadowPositions s) \<noteq> 1
         then Inl (integrity ''%w: shadow close exceeds paper position'')
         else Inr (s\<lparr>db_ShadowPositions :=
           update_rows part (\<lambda>p. p\<lparr>sp_Qty := sp_Qty p - fl_Qty fill\<rparr>) (db_ShadowPositions s)\<rparr>))"

definition applyShadowCloseFill :: "order_row \<Rightarrow> fill_row \<Rightarrow> db \<Rightarrow> db result" where
  "applyShadowCloseFill ord fill s =
     (case shadow_reduce ord fill s of
        Inl e \<Rightarrow> Inl e
      | Inr s \<Rightarrow>
          (case MulQtyPrice (fl_Qty fill) (fl_Price fill) (o_Multiplier ord) False of
             Inl e \<Rightarrow> Inl e
           | Inr proceeds \<Rightarrow>
               (case Add proceeds (wrap64 (- fl_Fees fill)) of
                  Inl _ \<Rightarrow> Inl (integrity ''%w: invalid shadow close proceeds'')
                | Inr proceeds \<Rightarrow>
                    if proceeds < 0 then Inl (integrity ''%w: invalid shadow close proceeds'')
                    else (let a = db_ShadowAccount s
                          in Inr (s\<lparr>db_ShadowAccount := \<lparr>sa_Cash = sa_Cash a + proceeds,
                               sa_BuyingPower = sa_BuyingPower a + proceeds\<rparr>\<rparr>)))))"


section \<open>Open fills\<close>

definition open_fill_lot :: "order_row \<Rightarrow> fill_row \<Rightarrow> micros \<Rightarrow> exposure_lot" where
  "open_fill_lot ord fill cost = \<lparr>
     xl_OpenFillID = fl_ID fill, xl_OperationID = o_OperationID ord, xl_Ledger = o_Ledger ord,
     xl_Symbol = o_Symbol ord, xl_Kind = o_Kind ord, xl_Multiplier = o_Multiplier ord,
     xl_OpenedQty = fl_Qty fill, xl_ClosedQty = 0, xl_EntryCost = cost, xl_RemainingCost = cost,
     xl_RemainingRisk = cost, xl_OpenedAt = fl_TS fill, xl_ClosedAt = None\<rparr>"

text \<open>What is left of a reservation after a fill; \<open>now\<close> is the Kernel's clock.\<close>

definition consume_reservation :: "time \<Rightarrow> qty \<Rightarrow> open_reservation \<Rightarrow> open_reservation result" where
  "consume_reservation now q r =
     (let nextQty = wrap64 (rs_RemainingQty r - q)
      in case proportionalInt64 (rs_OriginalRisk r) nextQty (rs_OriginalQty r) True of
           Inl e \<Rightarrow> Inl e
         | Inr nextRisk \<Rightarrow>
             (case proportionalInt64 (rs_OriginalCash r) nextQty (rs_OriginalQty r) True of
                Inl e \<Rightarrow> Inl e
              | Inr nextCash \<Rightarrow>
                  Inr (if nextQty = 0
                       then r\<lparr>rs_RemainingQty := nextQty, rs_RemainingRisk := 0, rs_RemainingCash := 0,
                              rs_ResourceState := ''converted'', rs_SettledAt := Some now\<rparr>
                       else r\<lparr>rs_RemainingQty := nextQty, rs_RemainingRisk := nextRisk,
                              rs_RemainingCash := nextCash, rs_ResourceState := ''held'',
                              rs_SettledAt := None\<rparr>)))"

definition applyOpenExposureFill ::
  "time \<Rightarrow> order_row \<Rightarrow> fill_row \<Rightarrow> string \<Rightarrow> db \<Rightarrow> db result" where
  "applyOpenExposureFill now ord fill reservationID s =
     (if o_Side ord \<noteq> ''buy'' \<or> fl_Price fill > o_Limit ord
      then Inl (integrity ''%w: open fill exceeds approved limit'')
      else case MulQtyPrice (fl_Qty fill) (fl_Price fill) (o_Multiplier ord) True of
        Inl e \<Rightarrow> Inl e
      | Inr cost \<Rightarrow>
          (case Add cost (fl_Fees fill) of
             Inl _ \<Rightarrow> Inl (integrity ''%w: invalid open fill cost'')
           | Inr cost \<Rightarrow>
               if cost \<le> 0 then Inl (integrity ''%w: invalid open fill cost'')
               else
                (let s = s\<lparr>db_Lots := db_Lots s @ [open_fill_lot ord fill cost]\<rparr>
                 in case one_row (\<lambda>r. rs_ID r = reservationID) (db_OpenReservations s) of
                      Inl e \<Rightarrow> Inl e
                    | Inr r \<Rightarrow>
                        if rs_Ledger r \<noteq> o_Ledger ord \<or> rs_Symbol r \<noteq> o_Symbol ord \<or>
                           rs_Kind r \<noteq> o_Kind ord \<or> rs_ResourceState r \<noteq> ''held'' \<or>
                           fl_Qty fill > rs_RemainingQty r
                        then Inl (integrity ''%w: open fill does not match held reservation'')
                        else
                         (case consume_reservation now (fl_Qty fill) r of
                            Inl e \<Rightarrow> Inl e
                          | Inr r' \<Rightarrow>
                              (let s = s\<lparr>db_OpenReservations :=
                                     update_rows (\<lambda>x. rs_ID x = reservationID) (\<lambda>_. r') (db_OpenReservations s)\<rparr>
                               in if o_Ledger ord = ''shadow'' then applyShadowOpenFill ord fill cost s
                                  else Inr s)))))"


section \<open>Close fills\<close>

text \<open>One lot: what a fill with \<open>remainingFill\<close> left takes from it.\<close>

definition close_lot ::
  "string \<Rightarrow> time \<Rightarrow> qty \<Rightarrow> exposure_lot \<Rightarrow> (exposure_lot \<times> close_allocation) result" where
  "close_lot closeFillID ts remainingFill lot =
     (let available = wrap64 (xl_OpenedQty lot - xl_ClosedQty lot);
          matched = (if available > remainingFill then remainingFill else available);
          nextClosed = wrap64 (xl_ClosedQty lot + matched);
          nextRemaining = wrap64 (xl_OpenedQty lot - nextClosed)
      in case proportionalInt64 (xl_EntryCost lot) nextRemaining (xl_OpenedQty lot) True of
           Inl e \<Rightarrow> Inl e
         | Inr nextRisk \<Rightarrow>
             (case proportionalInt64 (xl_EntryCost lot) nextRemaining (xl_OpenedQty lot) False of
                Inl e \<Rightarrow> Inl e
              | Inr nextCost \<Rightarrow>
                  (let matchedCost = wrap64 (xl_RemainingCost lot - nextCost);
                       releasedRisk = wrap64 (xl_RemainingRisk lot - nextRisk)
                   in if matchedCost < 0 \<or> releasedRisk < 0
                      then Inl (integrity ''%w: exposure remainder increased'')
                      else Inr (lot\<lparr>xl_ClosedQty := nextClosed, xl_RemainingCost := nextCost,
                                    xl_RemainingRisk := nextRisk,
                                    xl_ClosedAt := (if nextRemaining = 0 then Some ts else None)\<rparr>,
                                \<lparr>ca_CloseFillID = closeFillID, ca_OpenFillID = xl_OpenFillID lot,
                                 ca_Qty = matched, ca_MatchedCost = matchedCost,
                                 ca_ReleasedRisk = releasedRisk\<rparr>))))"

text \<open>The loop over the lots read in FIFO order; the state is the two tables and what is left of the fill.\<close>

fun close_lots ::
  "string \<Rightarrow> time \<Rightarrow> exposure_lot list \<Rightarrow> qty \<Rightarrow> exposure_lot list \<Rightarrow> close_allocation list
     \<Rightarrow> (exposure_lot list \<times> close_allocation list \<times> qty) result" where
  "close_lots closeFillID ts [] remainingFill lots allocations = Inr (lots, allocations, remainingFill)"
| "close_lots closeFillID ts (lot # rest) remainingFill lots allocations =
     (if remainingFill = 0 then Inr (lots, allocations, remainingFill)
      else case close_lot closeFillID ts remainingFill lot of
        Inl e \<Rightarrow> Inl e
      | Inr (lot', a) \<Rightarrow>
          close_lots closeFillID ts rest (wrap64 (remainingFill - ca_Qty a))
            (update_rows (\<lambda>l. xl_OpenFillID l = xl_OpenFillID lot) (\<lambda>_. lot') lots)
            (allocations @ [a]))"

definition fifo_lots :: "order_row \<Rightarrow> exposure_lot list \<Rightarrow> exposure_lot list" where
  "fifo_lots ord lots =
     sort_key (\<lambda>l. (xl_OpenedAt l, xl_OpenFillID l))
       (filter (\<lambda>l. xl_Ledger l = o_Ledger ord \<and> xl_Symbol l = o_Symbol ord \<and> xl_Kind l = o_Kind ord \<and>
          xl_ClosedQty l < xl_OpenedQty l) lots)"

text \<open>The fills of an operation, and what of them has been allocated already.\<close>

definition operation_fills :: "string \<Rightarrow> db \<Rightarrow> string list" where
  "operation_fills operationID s =
     map fl_ID (filter (\<lambda>f. \<exists>ord \<in> set (db_Orders s). o_ID ord = fl_OrderID f \<and> o_OperationID ord = operationID)
       (db_Fills s))"

definition already_tracked :: "string \<Rightarrow> db \<Rightarrow> qty" where
  "already_tracked operationID s =
     total ca_Qty (filter (\<lambda>a. ca_CloseFillID a \<in> set (operation_fills operationID s)) (db_Allocations s))"

definition already_external :: "string \<Rightarrow> db \<Rightarrow> qty" where
  "already_external operationID s =
     total ea_Qty (filter (\<lambda>a. ea_CloseFillID a \<in> set (operation_fills operationID s))
       (db_ExternalAllocations s))"

text \<open>How much of the fill falls on lots the Kernel tracks: all of it, unless an external control episode
  splits the close between tracked and external quantity.\<close>

definition tracked_part :: "order_row \<Rightarrow> fill_row \<Rightarrow> control_episode option \<Rightarrow> db \<Rightarrow> qty result" where
  "tracked_part ord fill episode s =
     (case episode of
        None \<Rightarrow> Inr (fl_Qty fill)
      | Some ep \<Rightarrow>
          (let t = already_tracked (o_OperationID ord) s;
               x = already_external (o_OperationID ord) s
           in if t < 0 \<or> x < 0 \<or> t > ep_TrackedQty ep \<or> x > ep_ExternalQty ep
              then Inl (integrity ''%w: external control allocation exceeds authority'')
              else (let trackedRemaining = wrap64 (ep_TrackedQty ep - t);
                        trackedForFill = (if fl_Qty fill > trackedRemaining then trackedRemaining
                                          else fl_Qty fill)
                    in if o_Side ord = ''buy'' \<and> trackedForFill \<noteq> 0
                       then Inl (integrity ''%w: short close cannot consume long-only exposure'')
                       else Inr trackedForFill)))"

definition external_part ::
  "order_row \<Rightarrow> fill_row \<Rightarrow> qty \<Rightarrow> qty \<Rightarrow> control_episode option \<Rightarrow> db \<Rightarrow> db result" where
  "external_part ord fill trackedForFill alreadyExternal episode s =
     (case episode of
        None \<Rightarrow> Inr s
      | Some ep \<Rightarrow>
          (let externalForFill = wrap64 (fl_Qty fill - trackedForFill)
           in if externalForFill < 0 \<or> externalForFill > wrap64 (ep_ExternalQty ep - alreadyExternal)
              then Inl (integrity ''%w: external close fill exceeds control authority'')
              else if externalForFill > 0
              then Inr (insert_event ''external_close_fill_allocated''
                     [(''operation_id'', PText (o_OperationID ord)), (''episode_id'', PText (ep_ID ep)),
                      (''close_fill_id'', PText (fl_ID fill)), (''qty'', PInt externalForFill)]
                     (s\<lparr>db_ExternalAllocations := db_ExternalAllocations s @
                        [\<lparr>ea_CloseFillID = fl_ID fill, ea_EpisodeID = ep_ID ep, ea_Qty = externalForFill\<rparr>]\<rparr>))
              else Inr s))"

definition close_episode :: "order_row \<Rightarrow> db \<Rightarrow> control_episode option" where
  "close_episode ord s =
     find (\<lambda>e. ep_OperationID e = o_OperationID ord \<and> ep_ControlAction e = ''close_position'') (db_Episodes s)"

definition applyCloseExposureFill :: "order_row \<Rightarrow> fill_row \<Rightarrow> db \<Rightarrow> db result" where
  "applyCloseExposureFill ord fill s =
     (if o_Side ord \<noteq> ''sell'' \<and> o_Side ord \<noteq> ''buy''
      then Inl (integrity ''%w: close fill side is invalid'')
      else if (o_Side ord = ''sell'' \<and> fl_Price fill < o_Limit ord) \<or>
              (o_Side ord = ''buy'' \<and> fl_Price fill > o_Limit ord)
      then Inl (integrity ''%w: close fill violates approved limit'')
      else
       (let episode = close_episode ord s;
            alreadyExternal = already_external (o_OperationID ord) s
        in if episode = None \<and> o_Side ord \<noteq> ''sell''
           then Inl (integrity ''%w: internally tracked close fill is not a sell'')
           else case tracked_part ord fill episode s of
             Inl e \<Rightarrow> Inl e
           | Inr trackedForFill \<Rightarrow>
               (case close_lots (fl_ID fill) (fl_TS fill) (fifo_lots ord (db_Lots s)) trackedForFill
                       (db_Lots s) (db_Allocations s) of
                  Inl e \<Rightarrow> Inl e
                | Inr (lots, allocations, remainingFill) \<Rightarrow>
                    if remainingFill \<noteq> 0 then Inl (integrity ''%w: close fill exceeds FIFO exposure'')
                    else (case external_part ord fill trackedForFill alreadyExternal episode
                                 (s\<lparr>db_Lots := lots, db_Allocations := allocations\<rparr>) of
                            Inl e \<Rightarrow> Inl e
                          | Inr s \<Rightarrow>
                              if o_Ledger ord = ''shadow'' then applyShadowCloseFill ord fill s
                              else Inr s))))"

definition applyExposureFill ::
  "time \<Rightarrow> order_row \<Rightarrow> fill_row \<Rightarrow> string option \<Rightarrow> db \<Rightarrow> db result" where
  "applyExposureFill now ord fill openReservationID s =
     (case one_row (\<lambda>w. ow_ID w = o_OperationID ord) (db_Operations s) of
        Inl e \<Rightarrow> Inl e
      | Inr w \<Rightarrow>
          if ow_Action w = ''open'' then
            (case openReservationID of
               None \<Rightarrow> Inl (integrity ''%w: open fill has no reservation'')
             | Some r \<Rightarrow> applyOpenExposureFill now ord fill r s)
          else if ow_Action w = ''close'' then applyCloseExposureFill ord fill s
          else Inl (integrity ''%w: fill belongs to unsupported operation %s''))"

section \<open>The exact split\<close>

definition share_up :: "int \<Rightarrow> int \<Rightarrow> int \<Rightarrow> int" where
  "share_up a r t = - (- (a * r) div t)"

definition share_down :: "int \<Rightarrow> int \<Rightarrow> int \<Rightarrow> int" where
  "share_down a r t = a * r div t"

lemma ceil_div_eq:
  fixes n t :: int
  assumes "0 < t"
  shows "- (- n div t) = (if n mod t \<noteq> 0 then n div t + 1 else n div t)"
  using assms by (simp add: zdiv_zminus1_eq_if)

lemma proportional_ok:
  "proportionalInt64 a r t up = Inr v \<longleftrightarrow> 0 \<le> a \<and> 0 \<le> r \<and> 0 < t \<and> r \<le> t \<and> in_int64 v \<and>
     v = (if up then share_up a r t else share_down a r t)"
proof (cases "a < 0 \<or> r < 0 \<or> t \<le> 0 \<or> r > t")
  case True
  then show ?thesis by (auto simp: proportionalInt64_def)
next
  case False
  then have "0 \<le> a * r" "0 < t" by simp_all
  then show ?thesis using False
    by (auto simp: proportionalInt64_def Let_def share_up_def share_down_def ceil_div_eq)
qed

lemma share_down_bounds:
  assumes "0 < t" "0 \<le> r" "r \<le> t" "0 \<le> a"
  shows "0 \<le> share_down a r t" "share_down a r t \<le> a"
  using share_div_bounds[OF assms] by (simp_all add: share_down_def)

lemma share_up_bounds:
  assumes "0 < t" "0 \<le> r" "r \<le> t" "0 \<le> a"
  shows "0 \<le> share_up a r t" "share_up a r t \<le> a"
proof -
  have le: "a * r \<le> a * t" "0 \<le> a * r" using assms by (auto intro: mult_left_mono)
  have "- (a * t) div t \<le> - (a * r) div t" using le(1) assms(1) by (intro zdiv_mono1) auto
  then show "share_up a r t \<le> a" using assms(1) by (simp add: share_up_def flip: mult_minus_left)
  have "- (a * r) div t \<le> 0 div t" using le(2) assms(1) by (intro zdiv_mono1) auto
  then show "0 \<le> share_up a r t" by (simp add: share_up_def)
qed

lemma share_mono:
  assumes "0 < t" "0 \<le> a" "r \<le> r'"
  shows "share_down a r t \<le> share_down a r' t" "share_up a r t \<le> share_up a r' t"
proof -
  have le: "a * r \<le> a * r'" using assms by (simp add: mult_left_mono)
  then show "share_down a r t \<le> share_down a r' t"
    unfolding share_down_def using assms(1) by (rule zdiv_mono1)
  have "- (a * r') div t \<le> - (a * r) div t" using le assms(1) by (intro zdiv_mono1) auto
  then show "share_up a r t \<le> share_up a r' t" by (simp add: share_up_def)
qed

lemma share_full: "0 < t \<Longrightarrow> share_up a t t = a" "0 < t \<Longrightarrow> share_down a t t = a"
  by (simp_all add: share_up_def share_down_def flip: mult_minus_left)

lemma share_zero [simp]: "share_up a 0 t = 0" "share_down a 0 t = 0"
  by (simp_all add: share_up_def share_down_def)

lemma share_gap:
  assumes "0 < t"
  shows "share_down a r t \<le> share_up a r t" "share_up a r t \<le> share_down a r t + 1"
  using ceil_div_eq[OF assms, of "a * r"] by (auto simp: share_up_def share_down_def)

text \<open>proportional amounts are exact up to the last unit. On a part of a whole the result always exists, it
  lies between zero and the amount, rounding up and down bracket the exact share \<open>a * r / t\<close> by less
  than one unit, and the two roundings differ by at most one.\<close>

lemma proportional_exact:
  assumes "in_int64 a" "0 \<le> a" "0 \<le> r" "r \<le> t" "0 < t"
  shows "\<exists>u d. proportionalInt64 a r t True = Inr u \<and> proportionalInt64 a r t False = Inr d \<and>
    0 \<le> d \<and> d \<le> u \<and> u \<le> d + 1 \<and> u \<le> a \<and> d * t \<le> a * r \<and> a * r \<le> u * t \<and>
    a * r < (d + 1) * t \<and> (u - 1) * t < a * r"
proof -
  let ?u = "share_up a r t" and ?d = "share_down a r t"
  note b = share_up_bounds[OF assms(5,3,4,2)] share_down_bounds[OF assms(5,3,4,2)]
  have int: "in_int64 ?u" "in_int64 ?d"
    using b assms(1,2) by (auto simp: in_int64_def)
  have ok: "proportionalInt64 a r t True = Inr ?u" "proportionalInt64 a r t False = Inr ?d"
    using assms int by (simp_all add: proportional_ok)
  have d: "?d * t \<le> a * r" "a * r < (?d + 1) * t"
    using assms(5) le_div_iff[OF assms(5), of ?d "a * r"] le_div_iff[OF assms(5), of "?d + 1" "a * r"]
    by (auto simp: share_down_def not_le[symmetric])
  obtain e where e: "e = - (a * r) div t" by blast
  have "e * t \<le> - (a * r)" "\<not> (e + 1) * t \<le> - (a * r)"
    using le_div_iff[OF assms(5), of e "- (a * r)"] le_div_iff[OF assms(5), of "e + 1" "- (a * r)"] e by auto
  then have u: "a * r \<le> ?u * t" "(?u - 1) * t < a * r"
    by (simp_all add: share_up_def e[symmetric] algebra_simps)
  show ?thesis using ok d u b share_gap[OF assms(5), of a r] by blast
qed

section \<open>Lots and their allocations\<close>

definition open_qty :: "exposure_lot \<Rightarrow> qty" where
  "open_qty l = xl_OpenedQty l - xl_ClosedQty l"

definition lot_ok :: "exposure_lot \<Rightarrow> bool" where
  "lot_ok l \<longleftrightarrow> in_int64 (xl_OpenedQty l) \<and> in_int64 (xl_EntryCost l) \<and> 0 < xl_OpenedQty l \<and>
     0 \<le> xl_ClosedQty l \<and> xl_ClosedQty l \<le> xl_OpenedQty l \<and> 0 \<le> xl_EntryCost l \<and>
     xl_RemainingCost l = share_down (xl_EntryCost l) (open_qty l) (xl_OpenedQty l) \<and>
     xl_RemainingRisk l = share_up (xl_EntryCost l) (open_qty l) (xl_OpenedQty l)"

text \<open>The allocations of a lot account for all that has left it.\<close>

definition taken :: "(close_allocation \<Rightarrow> int) \<Rightarrow> close_allocation list \<Rightarrow> string \<Rightarrow> int" where
  "taken v allocations i = total v (filter (\<lambda>a. ca_OpenFillID a = i) allocations)"

definition accounted :: "close_allocation list \<Rightarrow> exposure_lot \<Rightarrow> bool" where
  "accounted allocations l \<longleftrightarrow>
     taken ca_Qty allocations (xl_OpenFillID l) = xl_ClosedQty l \<and>
     taken ca_MatchedCost allocations (xl_OpenFillID l) = xl_EntryCost l - xl_RemainingCost l \<and>
     taken ca_ReleasedRisk allocations (xl_OpenFillID l) = xl_EntryCost l - xl_RemainingRisk l"

definition lots_ok :: "close_allocation list \<Rightarrow> exposure_lot list \<Rightarrow> bool" where
  "lots_ok allocations lots \<longleftrightarrow> distinct (map xl_OpenFillID lots) \<and>
     list_all lot_ok lots \<and> list_all (accounted allocations) lots"

lemma taken_append [simp]: "taken v (as @ a # bs) i = taken v (as @ bs) i + (if ca_OpenFillID a = i then v a else 0)"
  by (simp add: taken_def)

lemma lots_ok_swap: "lots_ok (A @ E) T \<longleftrightarrow> lots_ok (E @ A) T"
proof -
  have "accounted (A @ E) = accounted (E @ A)" by (simp add: fun_eq_iff accounted_def taken_def add.commute)
  then show ?thesis by (simp add: lots_ok_def)
qed

lemma lot_ok_int64:
  assumes "lot_ok l"
  shows "in_int64 (xl_ClosedQty l)" "in_int64 (open_qty l)" "in_int64 (xl_RemainingCost l)"
    "in_int64 (xl_RemainingRisk l)" "0 \<le> xl_RemainingCost l" "0 \<le> xl_RemainingRisk l"
    "xl_RemainingCost l \<le> xl_RemainingRisk l" "xl_RemainingRisk l \<le> xl_EntryCost l"
proof -
  have q: "0 < xl_OpenedQty l" "0 \<le> open_qty l" "open_qty l \<le> xl_OpenedQty l" "0 \<le> xl_EntryCost l"
    using assms by (auto simp: lot_ok_def open_qty_def)
  note b = share_up_bounds[OF q] share_down_bounds[OF q] share_gap(1)[OF q(1)]
  show "0 \<le> xl_RemainingCost l" "0 \<le> xl_RemainingRisk l" "xl_RemainingCost l \<le> xl_RemainingRisk l"
    "xl_RemainingRisk l \<le> xl_EntryCost l"
    using assms b by (simp_all add: lot_ok_def)
  then show "in_int64 (xl_RemainingCost l)" "in_int64 (xl_RemainingRisk l)"
    using assms by (auto simp: lot_ok_def in_int64_def)
  show "in_int64 (xl_ClosedQty l)" "in_int64 (open_qty l)"
    using assms q by (auto simp: lot_ok_def in_int64_def)
qed

lemma close_lot_ok:
  assumes l: "lot_ok l" "xl_ClosedQty l < xl_OpenedQty l" and q: "0 < q" "in_int64 q"
  obtains l' a where "close_lot c ts q l = Inr (l', a)" "lot_ok l'"
    "xl_OpenFillID l' = xl_OpenFillID l" "ca_OpenFillID a = xl_OpenFillID l" "ca_CloseFillID a = c"
    "xl_Ledger l' = xl_Ledger l" "xl_Symbol l' = xl_Symbol l" "xl_Kind l' = xl_Kind l"
    "xl_OpenedQty l' = xl_OpenedQty l" "xl_EntryCost l' = xl_EntryCost l"
    "ca_Qty a = min (open_qty l) q" "xl_ClosedQty l' = xl_ClosedQty l + ca_Qty a"
    "ca_MatchedCost a = xl_RemainingCost l - xl_RemainingCost l'" "0 \<le> ca_MatchedCost a"
    "ca_ReleasedRisk a = xl_RemainingRisk l - xl_RemainingRisk l'" "0 \<le> ca_ReleasedRisk a"
proof -
  let ?m = "min (open_qty l) q"
  let ?r = "open_qty l - ?m"
  note li = lot_ok_int64[OF l(1)] and lo = l(1)[unfolded lot_ok_def]
  have w1: "wrap64 (xl_OpenedQty l - xl_ClosedQty l) = open_qty l"
    using li(2) by (simp add: wrap64_id open_qty_def)
  have m: "(if open_qty l > q then q else open_qty l) = ?m" by auto
  have pos: "0 < open_qty l" "0 < ?m" "0 \<le> ?r" "?r < open_qty l" "open_qty l \<le> xl_OpenedQty l"
    using l q lo by (auto simp: open_qty_def)
  have cb: "0 \<le> xl_ClosedQty l + ?m" "xl_ClosedQty l + ?m \<le> xl_OpenedQty l"
    using lo pos by (linarith, simp add: open_qty_def min_def)
  have oi: "in_int64 (xl_OpenedQty l)" using lo by blast
  have w2: "wrap64 (xl_ClosedQty l + ?m) = xl_ClosedQty l + ?m"
    by (rule wrap64_id, rule in_int64_between[OF in_int64_0 oi cb])
  have r: "xl_OpenedQty l - (xl_ClosedQty l + ?m) = ?r" by (simp add: open_qty_def)
  have w3: "wrap64 ?r = ?r"
    by (rule wrap64_id, rule in_int64_between[OF in_int64_0 li(2)]) (use pos in auto)
  let ?u = "share_up (xl_EntryCost l) ?r (xl_OpenedQty l)"
  let ?d = "share_down (xl_EntryCost l) ?r (xl_OpenedQty l)"
  have e: "0 < xl_OpenedQty l" "0 \<le> ?r" "?r \<le> xl_OpenedQty l" "0 \<le> xl_EntryCost l"
    using lo pos by auto
  note b = share_up_bounds[OF e] share_down_bounds[OF e]
  have ei: "in_int64 (xl_EntryCost l)" using lo by blast
  have i: "in_int64 ?u" "in_int64 ?d" using in_int64_between[OF in_int64_0 ei] b by auto
  have p: "proportionalInt64 (xl_EntryCost l) ?r (xl_OpenedQty l) True = Inr ?u"
    "proportionalInt64 (xl_EntryCost l) ?r (xl_OpenedQty l) False = Inr ?d"
    using e i by (simp_all add: proportional_ok)
  have mono: "?d \<le> xl_RemainingCost l" "?u \<le> xl_RemainingRisk l"
    using share_mono[OF e(1,4), of ?r "open_qty l"] pos lo by auto
  have w4: "wrap64 (xl_RemainingCost l - ?d) = xl_RemainingCost l - ?d"
    "wrap64 (xl_RemainingRisk l - ?u) = xl_RemainingRisk l - ?u"
    using li i b by (auto intro!: wrap64_sub_nonneg)
  let ?l' = "l\<lparr>xl_ClosedQty := xl_ClosedQty l + ?m, xl_RemainingCost := ?d, xl_RemainingRisk := ?u,
     xl_ClosedAt := (if ?r = 0 then Some ts else None)\<rparr>"
  let ?a = "\<lparr>ca_CloseFillID = c, ca_OpenFillID = xl_OpenFillID l, ca_Qty = ?m,
     ca_MatchedCost = xl_RemainingCost l - ?d, ca_ReleasedRisk = xl_RemainingRisk l - ?u\<rparr>"
  have run: "close_lot c ts q l = Inr (?l', ?a)"
    unfolding close_lot_def Let_def w1 m w2 r w3 p sum.case w4 using mono by simp
  have oq: "open_qty ?l' = ?r" by (simp add: open_qty_def)
  have "lot_ok ?l'" unfolding lot_ok_def oq using lo cb by simp
  then show ?thesis by (rule that[OF run]) (use mono in simp_all)
qed

definition lot_class :: "exposure_lot \<Rightarrow> string \<times> string \<times> string" where
  "lot_class l = (xl_Ledger l, xl_Symbol l, xl_Kind l)"

definition class_open :: "string \<times> string \<times> string \<Rightarrow> exposure_lot list \<Rightarrow> qty" where
  "class_open c lots = total open_qty (filter (\<lambda>l. lot_class l = c) lots)"

definition class_risk :: "string \<times> string \<times> string \<Rightarrow> exposure_lot list \<Rightarrow> micros" where
  "class_risk c lots = total xl_RemainingRisk (filter (\<lambda>l. lot_class l = c) lots)"

definition allocated_to :: "string \<Rightarrow> close_allocation list \<Rightarrow> qty" where
  "allocated_to c allocations = total ca_Qty (filter (\<lambda>a. ca_CloseFillID a = c) allocations)"

lemma total_filter_update_key:
  assumes "distinct (map k rows)" "r \<in> set rows" "k r' = k r" "K r' = K r"
  shows "total v (filter K (update_rows (\<lambda>x. k x = k r) (\<lambda>_. r') rows)) =
    total v (filter K rows) + (if K r then v r' - v r else 0)"
  using assms
proof (induction rows)
  case (Cons x rows)
  show ?case
  proof (cases "x = r")
    case True
    then have "update_rows (\<lambda>x. k x = k r) (\<lambda>_. r') rows = rows"
      using Cons.prems(1) by (intro update_rows_id) (auto simp: image_iff)
    then show ?thesis using True Cons.prems by simp
  next
    case False
    then have "k x \<noteq> k r" using Cons.prems by (metis distinct.simps(2) imageI list.set_map list.simps(9) set_ConsD)
    then show ?thesis using Cons False by simp
  qed
qed simp

lemma update_row_set:
  assumes "distinct (map k rows)" "r \<in> set rows"
  shows "set (update_rows (\<lambda>x. k x = k r) (\<lambda>_. r') rows) = insert r' (set rows - {r})"
proof -
  have "k x = k r \<longleftrightarrow> x = r" if "x \<in> set rows" for x
    using assms that by (auto simp: distinct_map inj_on_def)
  then show ?thesis using assms(2) unfolding set_update_rows by (auto split: if_splits)
qed

lemma lots_ok_update:
  assumes ok: "lots_ok (A @ E) T" "l \<in> set T"
    and l': "lot_ok l'" "xl_OpenFillID l' = xl_OpenFillID l" "xl_EntryCost l' = xl_EntryCost l"
      "xl_ClosedQty l' = xl_ClosedQty l + ca_Qty a" "ca_OpenFillID a = xl_OpenFillID l"
      "ca_MatchedCost a = xl_RemainingCost l - xl_RemainingCost l'"
      "ca_ReleasedRisk a = xl_RemainingRisk l - xl_RemainingRisk l'"
  shows "lots_ok ((A @ [a]) @ E) (update_rows (\<lambda>x. xl_OpenFillID x = xl_OpenFillID l) (\<lambda>_. l') T)"
proof -
  let ?T = "update_rows (\<lambda>x. xl_OpenFillID x = xl_OpenFillID l) (\<lambda>_. l') T"
  have d: "distinct (map xl_OpenFillID T)" using ok by (simp add: lots_ok_def)
  have ids: "map xl_OpenFillID ?T = map xl_OpenFillID T" using l'(2) by (induction T) auto
  have acc: "accounted (A @ E) x" "lot_ok x" if "x \<in> set T" for x
    using ok(1) that by (auto simp: lots_ok_def list_all_iff)
  have "accounted ((A @ [a]) @ E) l'" using acc(1)[OF ok(2)] l' by (simp add: accounted_def)
  moreover have "accounted ((A @ [a]) @ E) x" if "x \<in> set T - {l}" for x
  proof -
    have "xl_OpenFillID x \<noteq> xl_OpenFillID l" using d that ok(2) by (auto simp: distinct_map inj_on_def)
    then show ?thesis using acc(1)[of x] that l'(5) by (simp add: accounted_def)
  qed
  ultimately show ?thesis
    using d acc(2) l'(1) by (auto simp: lots_ok_def ids list_all_iff update_row_set[OF d ok(2)])
qed

lemma close_lots_ok:
  assumes "lots_ok (A @ E) T" "set fs \<subseteq> set T" "distinct (map xl_OpenFillID fs)"
    and "\<And>l. l \<in> set fs \<Longrightarrow> xl_ClosedQty l < xl_OpenedQty l \<and> lot_class l = k" "0 \<le> q" "in_int64 q"
  shows "\<exists>T' A' m. close_lots c ts fs q T A = Inr (T', A', m) \<and> lots_ok (A' @ E) T' \<and>
    m = max 0 (q - total open_qty fs) \<and>
    map xl_OpenFillID T' = map xl_OpenFillID T \<and>
    (\<forall>k'. class_open k' T' = class_open k' T - (if k' = k then q - m else 0)) \<and>
    (\<forall>k'. class_risk k' T' \<le> class_risk k' T) \<and>
    (\<forall>c'. allocated_to c' A' = allocated_to c' A + (if c' = c then q - m else 0))"
  using assms
proof (induction fs arbitrary: q T A)
  case Nil
  then show ?case by simp
next
  case (Cons l fs)
  have ok_fs: "0 \<le> total open_qty fs"
    using Cons.prems(4) by (intro total_nonneg) (force simp: open_qty_def)
  have open_l: "0 < open_qty l" using Cons.prems(4)[of l] by (simp add: open_qty_def)
  show ?case
  proof (cases "q = 0")
    case True
    then show ?thesis using Cons.prems(1) ok_fs open_l by simp
  next
    case False
    then have q: "0 < q" using Cons.prems(5) by simp
    have lT: "l \<in> set T" using Cons.prems(2) by simp
    have lok: "lot_ok l" using Cons.prems(1) lT by (auto simp: lots_ok_def list_all_iff)
    have lcl: "xl_ClosedQty l < xl_OpenedQty l" "lot_class l = k" using Cons.prems(4)[of l] by auto
    obtain l' a where s: "close_lot c ts q l = Inr (l', a)" "lot_ok l'"
      "xl_OpenFillID l' = xl_OpenFillID l" "ca_OpenFillID a = xl_OpenFillID l" "ca_CloseFillID a = c"
      "xl_Ledger l' = xl_Ledger l" "xl_Symbol l' = xl_Symbol l" "xl_Kind l' = xl_Kind l"
      "xl_OpenedQty l' = xl_OpenedQty l" "xl_EntryCost l' = xl_EntryCost l"
      "ca_Qty a = min (open_qty l) q" "xl_ClosedQty l' = xl_ClosedQty l + ca_Qty a"
      "ca_MatchedCost a = xl_RemainingCost l - xl_RemainingCost l'" "0 \<le> ca_MatchedCost a"
      "ca_ReleasedRisk a = xl_RemainingRisk l - xl_RemainingRisk l'" "0 \<le> ca_ReleasedRisk a"
      by (rule close_lot_ok[OF lok lcl(1) q Cons.prems(6)])
    let ?T = "update_rows (\<lambda>x. xl_OpenFillID x = xl_OpenFillID l) (\<lambda>_. l') T"
    let ?q = "q - ca_Qty a"
    have cl: "lot_class l' = k" using s lcl(2) by (simp add: lot_class_def)
    have d: "distinct (map xl_OpenFillID T)" using Cons.prems(1) by (simp add: lots_ok_def)
    have qb: "0 \<le> ?q" "?q \<le> q" using s(11) q open_l by auto
    have qi: "in_int64 ?q" by (rule in_int64_between[OF in_int64_0 Cons.prems(6) qb])
    have ok': "lots_ok ((A @ [a]) @ E) ?T"
      by (rule lots_ok_update[OF Cons.prems(1) lT s(2,3,10,12,4,13,15)])
    have ids: "map xl_OpenFillID ?T = map xl_OpenFillID T" using s(3) by (induction T) auto
    have sub: "set fs \<subseteq> set ?T"
      using Cons.prems(2,3) unfolding update_row_set[OF d lT] by force
    have tot: "class_open k' ?T = class_open k' T - (if k' = k then ca_Qty a else 0)"
      "class_risk k' ?T = class_risk k' T - (if k' = k then ca_ReleasedRisk a else 0)" for k'
      using total_filter_update_key[OF d lT s(3), of "\<lambda>l. lot_class l = k'" open_qty]
        total_filter_update_key[OF d lT s(3), of "\<lambda>l. lot_class l = k'" xl_RemainingRisk] cl lcl(2) s(9,12,15)
      by (auto simp: class_open_def class_risk_def open_qty_def)
    have run: "close_lots c ts (l # fs) q T A = close_lots c ts fs ?q ?T (A @ [a])"
      using False qi by (simp add: s(1) wrap64_id)
    obtain T' A' m where IH: "close_lots c ts fs ?q ?T (A @ [a]) = Inr (T', A', m)" "lots_ok (A' @ E) T'"
      "m = max 0 (?q - total open_qty fs)" "map xl_OpenFillID T' = map xl_OpenFillID ?T"
      "\<And>k'. class_open k' T' = class_open k' ?T - (if k' = k then ?q - m else 0)"
      "\<And>k'. class_risk k' T' \<le> class_risk k' ?T"
      "\<And>c'. allocated_to c' A' = allocated_to c' (A @ [a]) + (if c' = c then ?q - m else 0)"
      using Cons.IH[OF ok' sub _ _ qb(1) qi] Cons.prems(3,4) by auto
    have "m = max 0 (q - total open_qty (l # fs))"
      using IH(3) s(11) ok_fs by (simp add: min_def max_def)
    moreover have "class_risk k' T' \<le> class_risk k' T" for k'
      using IH(6)[of k'] tot(2)[of k'] s(16) by (simp split: if_splits)
    moreover have "allocated_to c' A' = allocated_to c' A + (if c' = c then q - m else 0)" for c'
      using IH(7)[of c'] s(5) by (simp add: allocated_to_def)
    ultimately show ?thesis using IH(1,2,4,5) tot(1) ids run by simp
  qed
qed

section \<open>The ledger under fills\<close>

definition ledger_ok :: "db \<Rightarrow> bool" where
  "ledger_ok s \<longleftrightarrow> lots_ok (db_Allocations s @ db_ExternalReductions s) (db_Lots s) \<and>
     list_all (\<lambda>e. in_int64 (ep_TrackedQty e) \<and> in_int64 (ep_ExternalQty e)) (db_Episodes s)"

definition external_to :: "string \<Rightarrow> external_allocation list \<Rightarrow> qty" where
  "external_to c allocations = total ea_Qty (filter (\<lambda>a. ea_CloseFillID a = c) allocations)"

definition order_key :: "order_row \<Rightarrow> string \<times> string \<times> string" where
  "order_key ord = (o_Ledger ord, o_Symbol ord, o_Kind ord)"

text \<open>What a close fill may do to the ledger when \<open>t\<close> of it falls on tracked lots.\<close>

definition close_effect :: "order_row \<Rightarrow> fill_row \<Rightarrow> qty \<Rightarrow> db \<Rightarrow> db \<Rightarrow> bool" where
  "close_effect ord fill t s s' \<longleftrightarrow>
     0 \<le> t \<and> t \<le> fl_Qty fill \<and> ledger_ok s' \<and>
     (\<forall>k. class_open k (db_Lots s') = class_open k (db_Lots s) - (if k = order_key ord then t else 0)) \<and>
     (\<forall>k. class_risk k (db_Lots s') \<le> class_risk k (db_Lots s)) \<and>
     (\<forall>c. allocated_to c (db_Allocations s') =
        allocated_to c (db_Allocations s) + (if c = fl_ID fill then t else 0)) \<and>
     (if close_episode ord s = None then t = fl_Qty fill \<and> db_ExternalAllocations s' = db_ExternalAllocations s
      else external_to (fl_ID fill) (db_ExternalAllocations s') =
             external_to (fl_ID fill) (db_ExternalAllocations s) + (fl_Qty fill - t)) \<and>
     db_Orders s' = db_Orders s \<and> db_Fills s' = db_Fills s \<and> db_OpenReservations s' = db_OpenReservations s"

lemma shadow_close_frame:
  assumes "applyShadowCloseFill ord fill s = Inr s'"
  shows "\<exists>a ps. s' = s\<lparr>db_ShadowPositions := ps, db_ShadowAccount := a\<rparr>"
  using assms unfolding applyShadowCloseFill_def case_sum_Inr_iff shadow_reduce_def Let_def
  by (auto split: if_splits)

lemma fifo_lots_set:
  "set (fifo_lots ord lots) = {l \<in> set lots. lot_class l = order_key ord \<and> xl_ClosedQty l < xl_OpenedQty l}"
  by (auto simp: fifo_lots_def lot_class_def order_key_def)

lemma fifo_lots_distinct:
  assumes "distinct (map xl_OpenFillID lots)"
  shows "distinct (map xl_OpenFillID (fifo_lots ord lots))"
proof -
  have "distinct (fifo_lots ord lots)" using assms by (simp add: fifo_lots_def distinct_map)
  moreover have "inj_on xl_OpenFillID (set (fifo_lots ord lots))"
    using assms by (auto simp: fifo_lots_set distinct_map intro: inj_on_subset)
  ultimately show ?thesis by (simp add: distinct_map)
qed

lemma tracked_part_ok:
  assumes "tracked_part ord fill ep s = Inr t" "0 < fl_Qty fill"
    and "\<And>e. ep = Some e \<Longrightarrow> in_int64 (ep_TrackedQty e)"
  shows "0 \<le> t" "t \<le> fl_Qty fill" "ep = None \<Longrightarrow> t = fl_Qty fill"
proof -
  have "0 \<le> t \<and> t \<le> fl_Qty fill \<and> (ep = None \<longrightarrow> t = fl_Qty fill)"
  proof (cases ep)
    case None
    then show ?thesis using assms(1,2) by (simp add: tracked_part_def)
  next
    case (Some e)
    let ?t = "already_tracked (o_OperationID ord) s"
    have b: "0 \<le> ?t" "?t \<le> ep_TrackedQty e"
      using assms(1) Some by (auto simp: tracked_part_def Let_def split: if_splits)
    have "wrap64 (ep_TrackedQty e - ?t) = ep_TrackedQty e - ?t"
      using b by (intro wrap64_id in_int64_between[OF in_int64_0 assms(3)[OF Some]]) auto
    then show ?thesis using assms(1,2) Some b by (auto simp: tracked_part_def Let_def split: if_splits)
  qed
  then show "0 \<le> t" "t \<le> fl_Qty fill" "ep = None \<Longrightarrow> t = fl_Qty fill" by blast+
qed

lemma external_part_frame:
  assumes "external_part ord fill t x ep s = Inr s'"
  shows "s' = s\<lparr>db_ExternalAllocations := db_ExternalAllocations s', db_Events := db_Events s'\<rparr>"
  using assms by (auto simp: external_part_def Let_def insert_event_def split: if_splits option.splits)

lemma external_part_ok:
  assumes "external_part ord fill t x ep s = Inr s'" "0 \<le> t" "t \<le> fl_Qty fill" "in_int64 (fl_Qty fill)"
  shows "if ep = None then db_ExternalAllocations s' = db_ExternalAllocations s
     else external_to (fl_ID fill) (db_ExternalAllocations s') =
       external_to (fl_ID fill) (db_ExternalAllocations s) + (fl_Qty fill - t)"
proof -
  have w: "wrap64 (fl_Qty fill - t) = fl_Qty fill - t"
    using assms by (intro wrap64_id in_int64_between[OF in_int64_0 assms(4)]) auto
  show "if ep = None then db_ExternalAllocations s' = db_ExternalAllocations s
     else external_to (fl_ID fill) (db_ExternalAllocations s') =
       external_to (fl_ID fill) (db_ExternalAllocations s) + (fl_Qty fill - t)"
    using assms(1,3) by (auto simp: external_part_def Let_def insert_event_def external_to_def w
        split: if_splits option.splits)
qed

lemma close_fill_effect:
  assumes run: "applyCloseExposureFill ord fill s = Inr s'" and ok: "ledger_ok s"
    and q: "0 < fl_Qty fill" "in_int64 (fl_Qty fill)"
  shows "\<exists>t. close_effect ord fill t s s'"
proof -
  let ?ep = "close_episode ord s"
  obtain t lots allocs rem s1 where t: "tracked_part ord fill ?ep s = Inr t"
    and loop: "close_lots (fl_ID fill) (fl_TS fill) (fifo_lots ord (db_Lots s)) t (db_Lots s) (db_Allocations s)
      = Inr (lots, allocs, rem)"
    and rem: "rem = 0"
    and ext: "external_part ord fill t (already_external (o_OperationID ord) s) ?ep
      (s\<lparr>db_Lots := lots, db_Allocations := allocs\<rparr>) = Inr s1"
    and fin: "(if o_Ledger ord = ''shadow'' then applyShadowCloseFill ord fill s1 else Inr s1) = Inr s'"
    using run unfolding applyCloseExposureFill_def Let_def
    by (auto simp: case_sum_Inr_iff split: if_splits)
  have ep: "\<And>e. ?ep = Some e \<Longrightarrow> in_int64 (ep_TrackedQty e)"
    using ok by (auto simp: ledger_ok_def close_episode_def list_all_iff dest: find_SomeD)
  note tb = tracked_part_ok[OF t q(1) ep]
  have ti: "in_int64 t" by (rule in_int64_between[OF in_int64_0 q(2) tb(1,2)])
  have lo: "lots_ok (db_Allocations s @ db_ExternalReductions s) (db_Lots s)" using ok by (simp add: ledger_ok_def)
  have sub: "set (fifo_lots ord (db_Lots s)) \<subseteq> set (db_Lots s)" by (auto simp: fifo_lots_set)
  have dist: "distinct (map xl_OpenFillID (fifo_lots ord (db_Lots s)))"
    using lo by (intro fifo_lots_distinct) (simp add: lots_ok_def)
  have cls: "\<And>l. l \<in> set (fifo_lots ord (db_Lots s)) \<Longrightarrow>
      xl_ClosedQty l < xl_OpenedQty l \<and> lot_class l = order_key ord" by (simp add: fifo_lots_set)
  obtain T' A' m where c: "close_lots (fl_ID fill) (fl_TS fill) (fifo_lots ord (db_Lots s)) t (db_Lots s)
      (db_Allocations s) = Inr (T', A', m)" "lots_ok (A' @ db_ExternalReductions s) T'"
    "\<forall>k'. class_open k' T' = class_open k' (db_Lots s) - (if k' = order_key ord then t - m else 0)"
    "\<forall>k'. class_risk k' T' \<le> class_risk k' (db_Lots s)"
    "\<forall>c'. allocated_to c' A' = allocated_to c' (db_Allocations s) + (if c' = fl_ID fill then t - m else 0)"
    using close_lots_ok[OF lo sub dist cls tb(1) ti, of "fl_ID fill" "fl_TS fill"] by blast
  have eq: "T' = lots" "A' = allocs" "m = 0" using c(1) loop rem by simp_all
  note l = c(2-5)[unfolded eq diff_0_right]
  note x = external_part_ok[OF ext tb(1,2) q(2)]
  obtain xs evs where s1: "s1 = (s\<lparr>db_Lots := lots, db_Allocations := allocs\<rparr>)
      \<lparr>db_ExternalAllocations := xs, db_Events := evs\<rparr>" using external_part_frame[OF ext] by blast
  have ext_eff: "if ?ep = None then xs = db_ExternalAllocations s
     else external_to (fl_ID fill) xs = external_to (fl_ID fill) (db_ExternalAllocations s) + (fl_Qty fill - t)"
    using x unfolding s1 by (auto split: if_splits)
  have "\<exists>a ps. s' = s1\<lparr>db_ShadowPositions := ps, db_ShadowAccount := a\<rparr>"
    using fin shadow_close_frame[of ord fill s1 s']
    by (cases "o_Ledger ord = ''shadow''") (auto intro!: exI[of _ "db_ShadowAccount s1"] exI[of _ "db_ShadowPositions s1"])
  then obtain a ps where s': "s' = s1\<lparr>db_ShadowPositions := ps, db_ShadowAccount := a\<rparr>" by blast
  have "ledger_ok s'" using l(1) ok by (simp add: ledger_ok_def s' s1)
  then show ?thesis using tb l(2-4) ext_eff
    by (intro exI[of _ t]) (simp add: close_effect_def s' s1 del: split_paired_All)
qed

definition sample_order :: order_row where
  "sample_order = \<lparr>o_ID = ''o1'', o_OperationID = ''op1'', o_ExecutionAttemptID = ''a1'', o_BrokerOrderID = ''b1'',
     o_ClientOrderID = ''c1'', o_Ledger = ''live'', o_Symbol = ''SPY'', o_Side = ''sell'', o_Kind = ''equity'',
     o_Multiplier = 1, o_Qty = 3000000, o_Limit = 100000000, o_State = ''submitted'', o_Reprices = 0,
     o_CreatedAt = 1, o_UpdatedAt = 1, o_KernelPolicyRevisionID = 1, o_KernelPolicyGeneration = 1,
     o_KernelPolicyDigest = [], o_AuthorizationExpiresAt = 9, o_ApprovedPriceBound = 100000000,
     o_MaxReprices = 3, o_RepriceIntervalSec = 30, o_QuoteMaxAgeSec = 60, o_WorkingSince = Some 1\<rparr>"

definition sample_lot :: "string \<Rightarrow> time \<Rightarrow> qty \<Rightarrow> micros \<Rightarrow> exposure_lot" where
  "sample_lot i t q c = \<lparr>xl_OpenFillID = i, xl_OperationID = ''op0'', xl_Ledger = ''live'', xl_Symbol = ''SPY'',
     xl_Kind = ''equity'', xl_Multiplier = 1, xl_OpenedQty = q, xl_ClosedQty = 0, xl_EntryCost = c,
     xl_RemainingCost = c, xl_RemainingRisk = c, xl_OpenedAt = t, xl_ClosedAt = None\<rparr>"

definition sample_reservation :: open_reservation where
  "sample_reservation = \<lparr>rs_ID = ''r1'', rs_OperationID = ''op1'', rs_Ledger = ''live'', rs_MarketDay = 0,
     rs_Symbol = ''SPY'', rs_Kind = ''equity'', rs_OriginalQty = 3000000, rs_RemainingQty = 3000000,
     rs_OriginalRisk = 300000001, rs_RemainingRisk = 300000001, rs_OriginalCash = 300000001,
     rs_RemainingCash = 300000001, rs_ResourceState = ''held'', rs_CreatedAt = 0, rs_SettledAt = None,
     rs_KernelPolicyRevisionID = 1, rs_KernelPolicyGeneration = 1, rs_KernelPolicyDigest = []\<rparr>"

definition sample_operation :: operation_row where
  "sample_operation = \<lparr>ow_ID = ''op1'', ow_Status = ''approved'', ow_Action = ''close'', ow_Side = ''sell'',
     ow_Symbol = ''SPY'', ow_Limit = None, ow_ApprovedPriceCap = 0, ow_Class = ''A'', ow_ExpiresAt = None,
     ow_KernelPolicyRevisionID = None, ow_KernelPolicyGeneration = None, ow_KernelPolicyDigest = None,
     ow_TS = 1, ow_Shadow = False\<rparr>"

definition sample_db :: db where
  "sample_db = \<lparr>db_M3A = False, db_M3AActivatedAt = 0,
     db_Operations = [sample_operation],
     db_Attempts = [], db_Grants = [], db_OpenReservations = [sample_reservation],
     db_CloseReservations = [], db_Orders = [sample_order],
     db_Fills = [], db_Lots = [sample_lot ''f2'' 20 4000000 400000001, sample_lot ''f1'' 10 1000000 99000001],
     db_Allocations = [], db_Episodes = [], db_ExternalAllocations = [],
     db_ShadowAccount = \<lparr>sa_Cash = 0, sa_BuyingPower = 0\<rparr>, db_ShadowPositions = [],
     db_GateActive = None, db_GateUnknown = None, db_Events = [],
     db_GateActiveSince = None, db_GateUnknownSince = None, db_Observations = [], db_Manifests = [],
     db_Bindings = [], db_PolicyRevisions = [], db_PolicyHead = None, db_ObservationFamilies = [],
     db_ObservationItems = [], db_ObjectOrigins = [], db_ObservationHeads = [],
     db_ExternalReductions = [], db_ExternalChanges = [], db_Projections = [], db_ReconciliationHeads = [],
     db_Invalidations = [], db_Proposals = [], db_CanaryRevisions = [], db_CanaryEvidence = []\<rparr>"

definition sample_fill :: fill_row where
  "sample_fill = \<lparr>fl_ID = ''f9'', fl_OrderID = ''o1'', fl_BrokerFillID = ''bf9'', fl_Ledger = ''live'',
     fl_Qty = 3000000, fl_Price = 100000000, fl_Fees = 0, fl_TS = 30\<rparr>"

text \<open>C23: closing conserves the ledger. A close fill that is applied consumes lots for exactly its tracked part
  (all of it when no external control episode splits the close): the open quantity of its symbol
  falls by that amount and no other symbol, kind or ledger changes, the allocations recorded for
  the fill sum to it, the external allocations to the rest, no ledger's risk grows, and afterwards
  every lot is still exactly accounted for: closed quantity, matched cost and released risk of its
  allocations plus what remains are its opening quantity and entry cost.\<close>

theorem close_fill_conserves:
  assumes "applyCloseExposureFill ord fill s = Inr s'" "ledger_ok s" "0 < fl_Qty fill" "in_int64 (fl_Qty fill)"
  shows "\<exists>t. close_effect ord fill t s s'"
  by (rule close_fill_effect[OF assms])

theorem close_fill_conserves_witness:
  "\<exists>s' t. applyCloseExposureFill sample_order sample_fill sample_db = Inr s' \<and>
     close_effect sample_order sample_fill t sample_db s'"
proof -
  have "is_ok (applyCloseExposureFill sample_order sample_fill sample_db)" by code_simp
  then obtain s' where s': "applyCloseExposureFill sample_order sample_fill sample_db = Inr s'"
    by (auto simp: is_ok_iff)
  have "ledger_ok sample_db" by code_simp
  then show ?thesis using close_fill_conserves[OF s'] s' by (auto simp: sample_fill_def in_int64_def)
qed

text \<open>An open reservation, and what is held of it.\<close>

definition reservation_ok :: "open_reservation \<Rightarrow> bool" where
  "reservation_ok r \<longleftrightarrow> in_int64 (rs_OriginalQty r) \<and> in_int64 (rs_OriginalRisk r) \<and> in_int64 (rs_OriginalCash r) \<and>
     0 < rs_OriginalQty r \<and> 0 \<le> rs_RemainingQty r \<and> rs_RemainingQty r \<le> rs_OriginalQty r \<and>
     0 \<le> rs_OriginalRisk r \<and> 0 \<le> rs_OriginalCash r \<and>
     (if rs_ResourceState r = ''held''
      then rs_RemainingRisk r = share_up (rs_OriginalRisk r) (rs_RemainingQty r) (rs_OriginalQty r) \<and>
           rs_RemainingCash r = share_up (rs_OriginalCash r) (rs_RemainingQty r) (rs_OriginalQty r)
      else rs_RemainingRisk r = 0 \<and> rs_RemainingCash r = 0)"

lemma consume_reservation_ok:
  assumes "reservation_ok r" "rs_ResourceState r = ''held''" "0 < q" "q \<le> rs_RemainingQty r"
  shows "\<exists>r'. consume_reservation now q r = Inr r' \<and> reservation_ok r' \<and> rs_ID r' = rs_ID r \<and>
    rs_RemainingQty r' = rs_RemainingQty r - q \<and> rs_OriginalQty r' = rs_OriginalQty r \<and>
    rs_ResourceState r' = (if rs_RemainingQty r = q then ''converted'' else ''held'') \<and>
    rs_RemainingRisk r' \<le> rs_RemainingRisk r \<and> rs_RemainingCash r' \<le> rs_RemainingCash r"
proof -
  let ?n = "rs_RemainingQty r - q"
  let ?t = "rs_OriginalQty r"
  note o = assms(1)[unfolded reservation_ok_def]
  have n: "0 < ?t" "0 \<le> ?n" "?n \<le> ?t" using o assms(3,4) by auto
  have ti: "in_int64 ?t" using o by blast
  have w: "wrap64 ?n = ?n" by (rule wrap64_id, rule in_int64_between[OF in_int64_0 ti n(2,3)])
  have p: "proportionalInt64 a ?n ?t True = Inr (share_up a ?n ?t)" if "0 \<le> a" "in_int64 a" for a
    using that n in_int64_between[OF in_int64_0 that(2) share_up_bounds[OF n that(1)]]
    by (simp add: proportional_ok)
  have run: "consume_reservation now q r = Inr (if ?n = 0
       then r\<lparr>rs_RemainingQty := ?n, rs_RemainingRisk := 0, rs_RemainingCash := 0,
              rs_ResourceState := ''converted'', rs_SettledAt := Some now\<rparr>
       else r\<lparr>rs_RemainingQty := ?n, rs_RemainingRisk := share_up (rs_OriginalRisk r) ?n ?t,
              rs_RemainingCash := share_up (rs_OriginalCash r) ?n ?t, rs_ResourceState := ''held'',
              rs_SettledAt := None\<rparr>)"
    using o p by (simp add: consume_reservation_def Let_def w)
  have "share_up a ?n ?t \<le> share_up a (rs_RemainingQty r) ?t" "0 \<le> share_up a (rs_RemainingQty r) ?t"
    if "0 \<le> a" for a
    using that n share_mono(2)[OF n(1) that, of ?n "rs_RemainingQty r"] assms(3)
      share_up_bounds(1)[of ?t "rs_RemainingQty r" a] o by auto
  then show ?thesis unfolding run using o assms(2) n by (auto simp: reservation_ok_def)
qed

text \<open>What an open fill does: a lot for the fill, less of the reservation.\<close>

definition open_effect :: "order_row \<Rightarrow> fill_row \<Rightarrow> string \<Rightarrow> db \<Rightarrow> db \<Rightarrow> bool" where
  "open_effect ord fill rid s s' \<longleftrightarrow>
     ledger_ok s' \<and> o_Side ord = ''buy'' \<and> fl_Price fill \<le> o_Limit ord \<and>
     (\<exists>cost r r'. 0 < cost \<and> db_Lots s' = db_Lots s @ [open_fill_lot ord fill cost] \<and>
        find (\<lambda>r. rs_ID r = rid) (db_OpenReservations s) = Some r \<and>
        find (\<lambda>r. rs_ID r = rid) (db_OpenReservations s') = Some r' \<and>
        rs_ResourceState r = ''held'' \<and> rs_RemainingQty r' = rs_RemainingQty r - fl_Qty fill \<and>
        rs_RemainingRisk r' \<le> rs_RemainingRisk r \<and> reservation_ok r' \<and>
        rs_ResourceState r' = (if rs_RemainingQty r = fl_Qty fill then ''converted'' else ''held'')) \<and>
     db_Allocations s' = db_Allocations s \<and> db_Orders s' = db_Orders s \<and> db_Fills s' = db_Fills s"

definition fresh_fill :: "string \<Rightarrow> db \<Rightarrow> bool" where
  "fresh_fill i s \<longleftrightarrow> i \<notin> xl_OpenFillID ` set (db_Lots s) \<and>
     i \<notin> ca_OpenFillID ` set (db_Allocations s @ db_ExternalReductions s)"

lemma shadow_open_frame:
  assumes "applyShadowOpenFill ord fill cost s = Inr s'"
  shows "s' = s\<lparr>db_ShadowPositions := db_ShadowPositions s', db_ShadowAccount := db_ShadowAccount s'\<rparr>"
  using assms unfolding applyShadowOpenFill_def Let_def by (auto split: if_splits option.splits)

lemma open_lot_ok:
  assumes "lots_ok A T" "i \<notin> xl_OpenFillID ` set T" "i \<notin> ca_OpenFillID ` set A"
    and "xl_OpenFillID l = i" "lot_ok l" "xl_ClosedQty l = 0"
  shows "lots_ok A (T @ [l])"
proof -
  have "filter (\<lambda>a. ca_OpenFillID a = i) A = []" using assms(3) by (auto simp: filter_empty_conv)
  then have z: "taken v A i = 0" for v by (simp add: taken_def)
  have "open_qty l = xl_OpenedQty l" using assms(6) by (simp add: open_qty_def)
  then have "accounted A l" using z assms(4-6) share_full by (simp add: accounted_def lot_ok_def)
  then show ?thesis using assms by (auto simp: lots_ok_def)
qed

text \<open>The one way an open fill succeeds.\<close>

lemma open_fill_cases:
  assumes "applyOpenExposureFill now ord fill rid s = Inr s'"
  obtains cost r r' s1 where "o_Side ord = ''buy''" "fl_Price fill \<le> o_Limit ord"
    "0 < cost" "in_int64 cost" "find (\<lambda>r. rs_ID r = rid) (db_OpenReservations s) = Some r"
    "rs_ResourceState r = ''held''" "fl_Qty fill \<le> rs_RemainingQty r"
    "consume_reservation now (fl_Qty fill) r = Inr r'"
    "s1 = s\<lparr>db_Lots := db_Lots s @ [open_fill_lot ord fill cost],
        db_OpenReservations := update_rows (\<lambda>x. rs_ID x = rid) (\<lambda>_. r') (db_OpenReservations s)\<rparr>"
    "s' = s1\<lparr>db_ShadowPositions := db_ShadowPositions s', db_ShadowAccount := db_ShadowAccount s'\<rparr>"
proof -
  obtain cost r r' s1 where *: "o_Side ord = ''buy''" "fl_Price fill \<le> o_Limit ord"
    "0 < cost" "in_int64 cost" "find (\<lambda>r. rs_ID r = rid) (db_OpenReservations s) = Some r"
    "rs_ResourceState r = ''held''" "fl_Qty fill \<le> rs_RemainingQty r"
    "consume_reservation now (fl_Qty fill) r = Inr r'"
    "s1 = s\<lparr>db_Lots := db_Lots s @ [open_fill_lot ord fill cost],
        db_OpenReservations := update_rows (\<lambda>x. rs_ID x = rid) (\<lambda>_. r') (db_OpenReservations s)\<rparr>"
    and fin: "(if o_Ledger ord = ''shadow'' then applyShadowOpenFill ord fill cost s1 else Inr s1) = Inr s'"
    using assms unfolding applyOpenExposureFill_def Let_def
    by (auto simp: case_sum_Inr_iff Add_iff one_row_ok not_less not_le split: if_splits)
  have "s' = s1\<lparr>db_ShadowPositions := db_ShadowPositions s', db_ShadowAccount := db_ShadowAccount s'\<rparr>"
    using fin shadow_open_frame[of ord fill cost s1 s'] by (cases "o_Ledger ord = ''shadow''") auto
  then show ?thesis by (rule that[OF *])
qed

lemma open_fill_effect:
  assumes run: "applyOpenExposureFill now ord fill rid s = Inr s'" and ok: "ledger_ok s"
    and q: "0 < fl_Qty fill" "in_int64 (fl_Qty fill)" "fresh_fill (fl_ID fill) s"
    and rs: "list_all reservation_ok (db_OpenReservations s)"
  shows "open_effect ord fill rid s s'"
proof -
  obtain cost r r' s1 where side: "o_Side ord = ''buy''" "fl_Price fill \<le> o_Limit ord"
    and cost: "0 < cost" "in_int64 cost"
    and r: "find (\<lambda>r. rs_ID r = rid) (db_OpenReservations s) = Some r"
    and g: "rs_ResourceState r = ''held''" "fl_Qty fill \<le> rs_RemainingQty r"
    and c: "consume_reservation now (fl_Qty fill) r = Inr r'"
    and s1: "s1 = s\<lparr>db_Lots := db_Lots s @ [open_fill_lot ord fill cost],
        db_OpenReservations := update_rows (\<lambda>x. rs_ID x = rid) (\<lambda>_. r') (db_OpenReservations s)\<rparr>"
    and fin: "s' = s1\<lparr>db_ShadowPositions := db_ShadowPositions s', db_ShadowAccount := db_ShadowAccount s'\<rparr>"
    by (rule open_fill_cases[OF run])
  obtain ps a where s': "s' = s1\<lparr>db_ShadowPositions := ps, db_ShadowAccount := a\<rparr>" using fin by blast
  have rok: "reservation_ok r" using rs r by (auto simp: list_all_iff dest: find_SomeD)
  have r': "reservation_ok r'" "rs_ID r' = rs_ID r" "rs_RemainingQty r' = rs_RemainingQty r - fl_Qty fill"
    "rs_ResourceState r' = (if rs_RemainingQty r = fl_Qty fill then ''converted'' else ''held'')"
    "rs_RemainingRisk r' \<le> rs_RemainingRisk r"
    using consume_reservation_ok[OF rok g(1) q(1) g(2), of now] c by auto
  have rid: "rs_ID r = rid" using r by (auto dest: find_SomeD)
  have find': "find (\<lambda>r. rs_ID r = rid) (update_rows (\<lambda>x. rs_ID x = rid) (\<lambda>_. r') (db_OpenReservations s)) = Some r'"
    using find_update_row[where k = rs_ID, OF r] r'(2) rid by simp
  have lot: "lot_ok (open_fill_lot ord fill cost)"
    using cost q by (simp add: lot_ok_def open_fill_lot_def open_qty_def share_full)
  have "lots_ok (db_Allocations s @ db_ExternalReductions s) (db_Lots s @ [open_fill_lot ord fill cost])"
    using ok q(3) lot by (intro open_lot_ok[where i = "fl_ID fill"])
      (simp_all add: ledger_ok_def fresh_fill_def open_fill_lot_def)
  then have "ledger_ok s'" using ok by (simp add: ledger_ok_def s' s1)
  moreover have "\<exists>cost r r'. 0 < cost \<and> db_Lots s' = db_Lots s @ [open_fill_lot ord fill cost] \<and>
        find (\<lambda>r. rs_ID r = rid) (db_OpenReservations s) = Some r \<and>
        find (\<lambda>r. rs_ID r = rid) (db_OpenReservations s') = Some r' \<and>
        rs_ResourceState r = ''held'' \<and> rs_RemainingQty r' = rs_RemainingQty r - fl_Qty fill \<and>
        rs_RemainingRisk r' \<le> rs_RemainingRisk r \<and> reservation_ok r' \<and>
        rs_ResourceState r' = (if rs_RemainingQty r = fl_Qty fill then ''converted'' else ''held'')"
    using cost(1) r g(1) r' find' by (intro exI[of _ cost] exI[of _ r] exI[of _ r']) (simp add: s' s1)
  ultimately show ?thesis using side by (simp add: open_effect_def s' s1)
qed

text \<open>an open fill turns reservation into exposure. An applied open fill is a buy within the order's limit; it
  appends one lot for exactly its quantity at its full cost, reduces the held reservation by exactly
  that quantity (its risk and cash never grow, and the last fill converts it and holds nothing
  more), touches no other lot, allocation, order or fill, and leaves every lot accounted for.\<close>

lemma open_fill_moves_reservation:
  assumes "applyOpenExposureFill now ord fill rid s = Inr s'" "ledger_ok s"
    and "0 < fl_Qty fill" "in_int64 (fl_Qty fill)" "fresh_fill (fl_ID fill) s"
    and "list_all reservation_ok (db_OpenReservations s)"
  shows "open_effect ord fill rid s s'"
  by (rule open_fill_effect[OF assms])

section \<open>The paper account stays solvent\<close>

definition shadow_ok :: "db \<Rightarrow> bool" where
  "shadow_ok s \<longleftrightarrow> 0 \<le> sa_Cash (db_ShadowAccount s) \<and> 0 \<le> sa_BuyingPower (db_ShadowAccount s) \<and>
     list_all (\<lambda>p. 0 < sp_Qty p) (db_ShadowPositions s) \<and> distinct (map sp_Symbol (db_ShadowPositions s))"

definition paper_qty :: "string \<Rightarrow> db \<Rightarrow> qty" where
  "paper_qty symbol s = total sp_Qty (filter (\<lambda>p. sp_Symbol p = symbol) (db_ShadowPositions s))"

lemma update_rows_pos:
  "list_all (\<lambda>p. 0 < v p) rows \<Longrightarrow> (\<And>p. p \<in> set rows \<Longrightarrow> c p \<Longrightarrow> 0 < v p \<Longrightarrow> 0 < v (f p)) \<Longrightarrow>
     list_all (\<lambda>p. 0 < v p) (update_rows c f rows)"
  by (auto simp: list_all_iff set_update_rows)

lemma shadow_open_ok:
  assumes "shadow_ok s" "applyShadowOpenFill ord fill cost s = Inr s'" "0 < fl_Qty fill" "0 < cost"
  shows "shadow_ok s'"
proof -
  let ?ps = "db_ShadowPositions s"
  have o: "list_all (\<lambda>p. 0 < sp_Qty p) ?ps" "distinct (map sp_Symbol ?ps)"
    using assms(1) by (simp_all add: shadow_ok_def)
  have upd: "list_all (\<lambda>p. 0 < sp_Qty p) (update_rows (\<lambda>r. sp_Symbol r = o_Symbol ord)
      (\<lambda>r. r\<lparr>sp_Qty := sp_Qty r + fl_Qty fill\<rparr>) ?ps)"
    using o(1) assms(3) by (intro update_rows_pos) auto
  have keys: "map sp_Symbol (update_rows (\<lambda>r. sp_Symbol r = o_Symbol ord)
      (\<lambda>r. r\<lparr>sp_Qty := sp_Qty r + fl_Qty fill\<rparr>) ?ps) = map sp_Symbol ?ps"
    by (rule map_update_rows) simp
  have new: "find (\<lambda>p. sp_Symbol p = o_Symbol ord) ?ps = None \<Longrightarrow> o_Symbol ord \<notin> sp_Symbol ` set ?ps"
    by (auto simp: find_None_iff)
  show ?thesis
    using assms(2,3) o upd keys new unfolding applyShadowOpenFill_def Let_def
    by (auto simp: shadow_ok_def split: if_splits option.splits)
qed

lemma shadow_reduce_ok:
  assumes "shadow_ok s" "shadow_reduce ord fill s = Inr s'"
  shows "shadow_ok s'" "db_ShadowAccount s' = db_ShadowAccount s"
proof -
  let ?ps = "db_ShadowPositions s"
  let ?part = "\<lambda>p. shadow_match ord p \<and> sp_Qty p > fl_Qty fill"
  have o: "list_all (\<lambda>p. 0 < sp_Qty p) ?ps" "distinct (map sp_Symbol ?ps)"
    using assms(1) by (simp_all add: shadow_ok_def)
  have upd: "list_all (\<lambda>p. 0 < sp_Qty p) (update_rows ?part (\<lambda>p. p\<lparr>sp_Qty := sp_Qty p - fl_Qty fill\<rparr>) ?ps)"
    using o(1) by (intro update_rows_pos) auto
  have keys: "map sp_Symbol (update_rows ?part (\<lambda>p. p\<lparr>sp_Qty := sp_Qty p - fl_Qty fill\<rparr>) ?ps) = map sp_Symbol ?ps"
    by (rule map_update_rows) simp
  have "list_all (\<lambda>p. 0 < sp_Qty p) (filter P ?ps)" "distinct (map sp_Symbol (filter P ?ps))" for P
    using o by (auto simp: list_all_iff distinct_map_filter)
  then show "shadow_ok s'" "db_ShadowAccount s' = db_ShadowAccount s"
    using assms upd keys o unfolding shadow_reduce_def Let_def
    by (auto simp: shadow_ok_def split: if_splits)
qed

lemma shadow_close_ok:
  assumes "shadow_ok s" "applyShadowCloseFill ord fill s = Inr s'"
  shows "shadow_ok s'"
proof -
  obtain s1 p where s1: "shadow_reduce ord fill s = Inr s1" and p: "0 \<le> p"
    "s' = s1\<lparr>db_ShadowAccount := \<lparr>sa_Cash = sa_Cash (db_ShadowAccount s1) + p,
                               sa_BuyingPower = sa_BuyingPower (db_ShadowAccount s1) + p\<rparr>\<rparr>"
    using assms(2) unfolding applyShadowCloseFill_def Let_def
    by (auto simp: case_sum_Inr_iff not_less split: if_splits)
  then show ?thesis using shadow_reduce_ok[OF assms(1) s1] by (simp add: shadow_ok_def)
qed

text \<open>the paper account stays solvent. Starting from non-negative cash and buying power and positive
  paper positions with one row per symbol, every applied paper fill, open or close, leaves them so:
  an open that cash or buying power cannot cover, and a close larger than the position, are refused.\<close>

lemma paper_account_solvent:
  assumes "shadow_ok s" "0 < fl_Qty fill" "0 < cost"
    and "applyShadowOpenFill ord fill cost s = Inr s' \<or> applyShadowCloseFill ord fill s = Inr s'"
  shows "shadow_ok s'"
  using assms shadow_open_ok shadow_close_ok by blast

end
