(* ===== verification/Halt.thy ===== *)
theory Halt
  imports Store_Tables
begin

text \<open>
  The global halt of \<^verbatim>\<open>kernel/internal/store/store.go\<close> and the recording of integrity failures of
  \<^verbatim>\<open>orders.go\<close>. The halt is not a flag but the last \<^verbatim>\<open>global_halt_transition\<close> event; the id
  of an event is its position in the event table, counted from one. \<open>now\<close> is the reading of the
  database clock the transaction takes.
\<close>

definition ErrGlobalHaltNotActive :: go_error where
  "ErrGlobalHaltNotActive = Sentinel ''global halt is not active''"

definition ErrGlobalHaltExecutionPending :: go_error where
  "ErrGlobalHaltExecutionPending = Sentinel ''global halt has unresolved execution''"

record global_halt_transition =
  ht_Reason :: string
  ht_EventID :: int64
  ht_CutAt :: time
  ht_InFlightAttemptID :: string
  ht_InFlightAttemptState :: string
  ht_BlockedUnsentAttemptID :: string

definition halt_kind :: string where
  "halt_kind = ''global_halt_transition''"

definition payload_bool :: "string \<Rightarrow> event \<Rightarrow> bool" where
  "payload_bool k e = (case map_of (ev_Payload e) k of Some (PBool b) \<Rightarrow> b | _ \<Rightarrow> False)"

definition payload_text :: "string \<Rightarrow> event \<Rightarrow> string" where
  "payload_text k e = (case map_of (ev_Payload e) k of Some (PText t) \<Rightarrow> t | _ \<Rightarrow> [])"

definition numbered :: "event list \<Rightarrow> (int \<times> event) list" where
  "numbered es = zip (map (\<lambda>i. int i + 1) [0..<length es]) es"

definition loadGlobalHalt :: "db \<Rightarrow> bool \<times> string \<times> int64 \<times> time" where
  "loadGlobalHalt s =
     (case find (\<lambda>(i, e). ev_Kind e = halt_kind) (rev (numbered (db_Events s))) of
        None \<Rightarrow> (False, [], 0, 0)
      | Some (i, e) \<Rightarrow> (payload_bool ''halted'' e, payload_text ''reason'' e, i,
          (case ev_TS e of None \<Rightarrow> 0 | Some t \<Rightarrow> t)))"

definition halted :: "db \<Rightarrow> bool" where
  "halted s = fst (loadGlobalHalt s)"

text \<open>\<open>sql.NullString.String\<close>: the empty string for NULL.\<close>

definition null_string :: "string option \<Rightarrow> string" where
  "null_string o' = (case o' of None \<Rightarrow> [] | Some x \<Rightarrow> x)"

definition halt_report :: "string \<Rightarrow> int64 \<Rightarrow> time \<Rightarrow> db \<Rightarrow> global_halt_transition" where
  "halt_report reason eventID cutAt s =
     (let t = \<lparr>ht_Reason = reason, ht_EventID = eventID, ht_CutAt = cutAt, ht_InFlightAttemptID = [],
            ht_InFlightAttemptState = [], ht_BlockedUnsentAttemptID = []\<rparr>
      in case db_GateUnknown s of
           Some u \<Rightarrow> t\<lparr>ht_InFlightAttemptID := u, ht_InFlightAttemptState := ''unknown''\<rparr>
         | None \<Rightarrow>
             (case db_GateActive s of
                None \<Rightarrow> t
              | Some a \<Rightarrow>
                  (case Option.bind (find (\<lambda>r. at_ID r = a) (db_Attempts s)) at_SentAt of
                     Some _ \<Rightarrow> t\<lparr>ht_InFlightAttemptID := a, ht_InFlightAttemptState := ''active''\<rparr>
                   | None \<Rightarrow> t\<lparr>ht_BlockedUnsentAttemptID := a\<rparr>)))"

definition ActivateGlobalHalt ::
  "time \<Rightarrow> string \<Rightarrow> string \<Rightarrow> string \<Rightarrow> db \<Rightarrow> (global_halt_transition \<times> db) result" where
  "ActivateGlobalHalt now reason subject mode s =
     (case loadGlobalHalt s of
        (True, persistedReason, eventID, cutAt) \<Rightarrow> Inr (halt_report persistedReason eventID cutAt s, s)
      | (False, _) \<Rightarrow>
          (case insert_event_at now halt_kind
              [(''halted'', PBool True), (''reason'', PText reason), (''subject'', PText subject),
               (''mode'', PText mode)] s of
             Inl e \<Rightarrow> Inl e
           | Inr s' \<Rightarrow> Inr (halt_report reason (int (length (db_Events s'))) now s', s')))"

definition ResumeGlobalHalt ::
  "time \<Rightarrow> string \<Rightarrow> string \<Rightarrow> string \<Rightarrow> db \<Rightarrow> (global_halt_transition \<times> db) result" where
  "ResumeGlobalHalt now reason subject mode s =
     (case loadGlobalHalt s of
        (False, _) \<Rightarrow> Inl ErrGlobalHaltNotActive
      | (True, previousReason, _) \<Rightarrow>
          if db_GateActive s \<noteq> None \<or> db_GateUnknown s \<noteq> None then Inl ErrGlobalHaltExecutionPending
          else (case insert_event_at now halt_kind
              [(''halted'', PBool False), (''reason'', PText reason), (''previous_reason'', PText previousReason),
               (''subject'', PText subject), (''mode'', PText mode)] s of
             Inl e \<Rightarrow> Inl e
           | Inr s' \<Rightarrow> Inr (\<lparr>ht_Reason = reason, ht_EventID = int (length (db_Events s')), ht_CutAt = now,
                 ht_InFlightAttemptID = [], ht_InFlightAttemptState = [], ht_BlockedUnsentAttemptID = []\<rparr>, s')))"


section \<open>Recording a failure\<close>

text \<open>
  An operation that fails may still commit: the failed transaction is rolled back and a second one
  records the failure. So the outcome of such an operation is its result together with the rows it
  leaves behind. \<open>errtext\<close> renders an error's text.
\<close>

type_synonym 'a outcome = "'a result \<times> db"

definition recordIntegrityFailure ::
  "(go_error \<Rightarrow> string) \<Rightarrow> time \<Rightarrow> string \<Rightarrow> (string \<times> payload) list \<Rightarrow> go_error \<Rightarrow> db \<Rightarrow> go_error \<times> db" where
  "recordIntegrityFailure errtext now kind payload cause s =
     (case insert_event_at now kind payload s of
        Inl e \<Rightarrow> (Joined cause e, s)
      | Inr s1 \<Rightarrow>
          if halted s1 then (cause, s1)
          else (case insert_event_at now halt_kind
              [(''halted'', PBool True), (''reason'', PText (errtext cause))] s1 of
             Inl e \<Rightarrow> (Joined cause e, s)
           | Inr s2 \<Rightarrow> (cause, s2)))"

definition recordExecutionEntitlementFailure ::
  "(go_error \<Rightarrow> string) \<Rightarrow> time \<Rightarrow> string \<Rightarrow> go_error \<Rightarrow> db \<Rightarrow> go_error \<times> db" where
  "recordExecutionEntitlementFailure errtext now attemptID cause s =
     recordIntegrityFailure errtext now ''execution_entitlement_invalid''
       [(''execution_attempt_id'', PText attemptID), (''error'', PText (errtext cause))] cause s"


section \<open>Lemmas\<close>

lemma halted_append:
  "halted (s\<lparr>db_Events := db_Events s @ [e]\<rparr>) =
     (if ev_Kind e = halt_kind then payload_bool ''halted'' e else halted s)"
  by (simp add: halted_def loadGlobalHalt_def numbered_def split: option.splits)

lemma halted_events: "db_Events s' = db_Events s \<Longrightarrow> halted s' = halted s"
  by (simp add: halted_def loadGlobalHalt_def)

lemma insert_event_halted [simp]: "kind \<noteq> halt_kind \<Longrightarrow> halted (insert_event kind p s) = halted s"
  by (simp add: insert_event_def halted_append)

lemma insert_event_at_halted:
  "insert_event_at now kind p s = Inr s' \<Longrightarrow>
     halted s' = (if kind = halt_kind then payload_bool ''halted'' \<lparr>ev_Kind = kind, ev_Payload = p, ev_TS = Some now\<rparr> else halted s)"
  by (auto simp: insert_event_at_def halted_append split: if_splits)

text \<open>Every operation of this theory only appends events.\<close>

definition only_events :: "db \<Rightarrow> db \<Rightarrow> bool" where
  "only_events s s' \<longleftrightarrow> s' = s\<lparr>db_Events := db_Events s'\<rparr> \<and> (\<exists>es. db_Events s' = db_Events s @ es)"

lemma only_events_refl [simp]: "only_events s s"
  by (simp add: only_events_def)

lemma only_events_insert [simp]: "only_events s (insert_event k p s)"
  by (simp add: only_events_def insert_event_def)

lemma only_events_insert_at: "insert_event_at t k p s = Inr s' \<Longrightarrow> only_events s s'"
  by (auto simp: only_events_def insert_event_at_def split: if_splits)

lemma only_events_trans:
  assumes "only_events s t" "only_events t u"
  shows "only_events s u"
proof -
  obtain es es' where e: "db_Events t = db_Events s @ es" "db_Events u = db_Events t @ es'"
    using assms by (auto simp: only_events_def)
  have "u = t\<lparr>db_Events := db_Events u\<rparr>" "t = s\<lparr>db_Events := db_Events t\<rparr>"
    using assms unfolding only_events_def by blast+
  then have "u = s\<lparr>db_Events := db_Events t, db_Events := db_Events u\<rparr>" by metis
  then show ?thesis using e by (simp add: only_events_def)
qed

lemma recordIntegrityFailure_events:
  "only_events s (snd (recordIntegrityFailure errtext now kind payload cause s))"
  unfolding recordIntegrityFailure_def
  by (auto simp: case_prod_unfold split: sum.splits dest: only_events_insert_at intro: only_events_trans)

end
