(* ===== verification/Breaker.thy ===== *)
theory Breaker
  imports Exposure Halt State_Graph
begin

text \<open>
  \<^verbatim>\<open>kernel/internal/store/pnl_breaker.go\<close>: the loss breaker of a ledger. Each evaluation of a
  market day computes the realised result from fills and FIFO allocations, persists it, and trips,
  keeps or clears the breaker; an administrator may override one reason for one day.

  A market day is a date, given as a non-zero number; the time zone database is the argument \<open>calendar\<close>:
  the bounds of a market day in the configured zone and the local date of an instant. Both fail when the zone is
  unknown.
\<close>

record calendar =
  marketDayBounds :: "int \<Rightarrow> (time \<times> time) result"
  local_date :: "time \<Rightarrow> int result"

definition ErrBreakerNotActive :: go_error where
  "ErrBreakerNotActive = Sentinel ''breaker is not active for that reason''"

record day_risk_input =
  di_Ledger :: string
  di_MarketDay :: int
  di_Start :: time
  di_End :: time
  di_ObservedAt :: time
  di_ProviderRealizedPnL :: "micros option"
  di_MaxDailyLossPct :: percent_micros
  di_ConsecutiveLossDaysHalt :: int64
  di_PnLReconciliationLimit :: micros

record day_risk_stats =
  dk_LocalRealizedPnL :: micros
  dk_ProviderRealizedPnL :: "micros option"
  dk_EffectiveRealizedPnL :: micros
  dk_DailyLossLimit :: micros
  dk_ConsecutiveLossDays :: int64
  dk_Halted :: bool
  dk_Reason :: string

record breaker_state =
  br_Ledger :: string
  br_Halted :: bool
  br_Reason :: string
  br_UpdatedAt :: time
  br_EventID :: int64

record day_open_row =
  do_MarketDay :: int
  do_Ledger :: string
  do_Equity :: micros

record daily_pnl_row =
  dp_MarketDay :: int
  dp_Ledger :: string
  dp_Local :: micros
  dp_Provider :: "micros option"
  dp_Effective :: micros
  dp_UpdatedAt :: time

record breaker_override_row =
  bv_Ledger :: string
  bv_Reason :: string
  bv_MarketDay :: int
  bv_Subject :: string
  bv_TS :: time

text \<open>The breaker's tables, beside the ledger's.\<close>

record breaker_db =
  bk_DB :: db
  bk_DayOpen :: "day_open_row list"
  bk_DailyPnL :: "daily_pnl_row list"
  bk_Overrides :: "breaker_override_row list"
  bk_States :: "breaker_state list"


section \<open>Realised profit and loss\<close>

record close_fill =
  cf_ID :: string
  cf_TotalQty :: int64
  cf_MatchedQty :: int64
  cf_Price :: int64
  cf_Fees :: int64
  cf_Multiplier :: int64
  cf_Matched :: int

text \<open>The rows of the join: a fill of the ledger in the window, its order's multiplier, one allocation.\<close>

definition close_rows :: "string \<Rightarrow> time \<Rightarrow> time \<Rightarrow> db \<Rightarrow> (fill_row \<times> int64 \<times> close_allocation) list" where
  "close_rows ledger start end' s =
     [(f, o_Multiplier r, a).
        f \<leftarrow> sort_key fl_ID (filter (\<lambda>f. fl_Ledger f = ledger \<and> start \<le> fl_TS f \<and> fl_TS f < end') (db_Fills s)),
        r \<leftarrow> filter (\<lambda>r. o_ID r = fl_OrderID f) (db_Orders s),
        a \<leftarrow> sort_key ca_OpenFillID (filter (\<lambda>a. ca_CloseFillID a = fl_ID f) (db_Allocations s))]"

definition add_close_row ::
  "fill_row \<times> int64 \<times> close_allocation \<Rightarrow> close_fill list \<Rightarrow> close_fill list result" where
  "add_close_row row fills =
     (case row of (f, multiplier, a) \<Rightarrow>
        (case find (\<lambda>c. cf_ID c = fl_ID f) fills of
           None \<Rightarrow>
             if ca_Qty a \<le> 0 \<or> ca_MatchedCost a < 0 then Inl (Errorf ''negative matched cost'' [])
             else Inr (fills @ [\<lparr>cf_ID = fl_ID f, cf_TotalQty = fl_Qty f, cf_MatchedQty = ca_Qty a, cf_Price = fl_Price f,
                    cf_Fees = fl_Fees f, cf_Multiplier = multiplier, cf_Matched = ca_MatchedCost a\<rparr>])
         | Some c \<Rightarrow>
             if cf_TotalQty c \<noteq> fl_Qty f \<or> cf_Price c \<noteq> fl_Price f \<or> cf_Fees c \<noteq> fl_Fees f \<or> cf_Multiplier c \<noteq> multiplier
             then Inl (Errorf ''close fill economics changed across FIFO allocations'' [])
             else if ca_Qty a \<le> 0 \<or> ca_MatchedCost a < 0 then Inl (Errorf ''negative matched cost'' [])
             else Inr (update_rows (\<lambda>c. cf_ID c = fl_ID f)
                   (\<lambda>c. c\<lparr>cf_MatchedQty := wrap64 (cf_MatchedQty c + ca_Qty a), cf_Matched := cf_Matched c + ca_MatchedCost a\<rparr>) fills)))"

text \<open>Exit proceeds are rounded down and fees up, both against the account.\<close>

definition close_fill_pnl :: "close_fill \<Rightarrow> int result" where
  "close_fill_pnl c =
     (if cf_MatchedQty c \<le> 0 \<or> cf_MatchedQty c > cf_TotalQty c
      then Inl (Errorf ''close fill allocation quantity is invalid'' [])
      else case MulQtyPrice (cf_MatchedQty c) (cf_Price c) (cf_Multiplier c) False of
        Inl e \<Rightarrow> Inl e
      | Inr proceeds \<Rightarrow>
          (case proportionalInt64 (cf_Fees c) (cf_MatchedQty c) (cf_TotalQty c) True of
             Inl e \<Rightarrow> Inl e
           | Inr allocatedFees \<Rightarrow> Inr (proceeds - allocatedFees - cf_Matched c)))"

definition add_pnl :: "close_fill \<Rightarrow> int \<Rightarrow> int result" where
  "add_pnl c acc = (case close_fill_pnl c of Inl e \<Rightarrow> Inl e | Inr p \<Rightarrow> Inr (acc + p))"

definition localRealizedPnL :: "db \<Rightarrow> string \<Rightarrow> time \<Rightarrow> time \<Rightarrow> micros result" where
  "localRealizedPnL s ledger start end' =
     (case fold_res add_close_row (close_rows ledger start end' s) [] of
        Inl e \<Rightarrow> Inl e
      | Inr fills \<Rightarrow>
          (case fold_res add_pnl fills 0 of
             Inl e \<Rightarrow> Inl e
           | Inr tot \<Rightarrow> if in_int64 tot then Inr tot else Inl (Errorf ''realized PnL overflows int64'' [])))"

definition moreLossMaking :: "micros \<Rightarrow> micros option \<Rightarrow> micros" where
  "moreLossMaking local provider = (case provider of Some p \<Rightarrow> if p < local then p else local | None \<Rightarrow> local)"

definition lessThanOrEqualNegative :: "micros \<Rightarrow> micros \<Rightarrow> bool" where
  "lessThanOrEqualNegative value magnitude \<longleftrightarrow> value \<le> - magnitude"

definition persistedProviderPnL :: "int \<Rightarrow> string \<Rightarrow> breaker_db \<Rightarrow> micros option" where
  "persistedProviderPnL day ledger s =
     Option.bind (find (\<lambda>r. dp_MarketDay r = day \<and> dp_Ledger r = ledger) (bk_DailyPnL s)) dp_Provider"

definition persistDailyPnL ::
  "int \<Rightarrow> string \<Rightarrow> micros \<Rightarrow> micros option \<Rightarrow> micros \<Rightarrow> time \<Rightarrow> breaker_db \<Rightarrow> breaker_db" where
  "persistDailyPnL day ledger local provider effective observedAt s =
     (let same = (\<lambda>r. dp_MarketDay r = day \<and> dp_Ledger r = ledger)
      in if list_ex same (bk_DailyPnL s)
         then s\<lparr>bk_DailyPnL := update_rows same
           (\<lambda>r. let p = (if provider = None then dp_Provider r else provider)
                in r\<lparr>dp_Local := local, dp_Provider := p,
                     dp_Effective := min local (case p of None \<Rightarrow> local | Some x \<Rightarrow> x),
                     dp_UpdatedAt := observedAt\<rparr>) (bk_DailyPnL s)\<rparr>
         else s\<lparr>bk_DailyPnL := bk_DailyPnL s @ [\<lparr>dp_MarketDay = day, dp_Ledger = ledger, dp_Local = local,
                  dp_Provider = provider, dp_Effective = effective, dp_UpdatedAt = observedAt\<rparr>]\<rparr>)"


section \<open>The loss streak\<close>

text \<open>The loop over the earlier days, most recent first, up to the first day that is not a loss.\<close>

fun streak_loop ::
  "calendar \<Rightarrow> day_risk_input \<Rightarrow> int list \<Rightarrow> int64 \<Rightarrow> breaker_db \<Rightarrow> (int64 \<times> breaker_db) result" where
  "streak_loop cal input [] count s = Inr (count, s)"
| "streak_loop cal input (day # days) count s =
     (case marketDayBounds cal day of
        Inl e \<Rightarrow> Inl e
      | Inr (start, end') \<Rightarrow>
         (case localRealizedPnL (bk_DB s) (di_Ledger input) start end' of
            Inl e \<Rightarrow> Inl e
          | Inr local \<Rightarrow>
             (let provider = persistedProviderPnL day (di_Ledger input) s;
                  effective = moreLossMaking local provider;
                  s' = persistDailyPnL day (di_Ledger input) local provider effective (di_ObservedAt input) s
              in if effective \<ge> 0 then Inr (count, s') else streak_loop cal input days (count + 1) s')))"

definition earlier_days :: "day_risk_input \<Rightarrow> breaker_db \<Rightarrow> int list" where
  "earlier_days input s =
     take (nat (di_ConsecutiveLossDaysHalt input)) (rev (sort (map do_MarketDay
       (filter (\<lambda>r. do_Ledger r = di_Ledger input \<and> do_MarketDay r < di_MarketDay input) (bk_DayOpen s)))))"

definition consecutiveLossDays ::
  "calendar \<Rightarrow> day_risk_input \<Rightarrow> micros \<Rightarrow> breaker_db \<Rightarrow> (int64 \<times> breaker_db) result" where
  "consecutiveLossDays cal input current s =
     (if di_ConsecutiveLossDaysHalt input \<le> 0 \<or> current > 0 then Inr (0, s)
      else streak_loop cal input (earlier_days input s) (if current < 0 then 1 else 0) s)"


section \<open>The breaker\<close>

definition breakerOverridden :: "string \<Rightarrow> string \<Rightarrow> int \<Rightarrow> breaker_db \<Rightarrow> bool" where
  "breakerOverridden ledger reason day s \<longleftrightarrow>
     list_ex (\<lambda>v. bv_Ledger v = ledger \<and> bv_Reason v = reason \<and> bv_MarketDay v = day) (bk_Overrides s)"

definition timestampOnMarketDay :: "calendar \<Rightarrow> time \<Rightarrow> int \<Rightarrow> bool result" where
  "timestampOnMarketDay cal t day =
     (case local_date cal t of Inl e \<Rightarrow> Inl (Errorf ''invalid market timezone'' []) | Inr d \<Rightarrow> Inr (d = day))"

text \<open>A tripped breaker may keep its reason whatever the evaluation found.\<close>

definition latched_trigger ::
  "calendar \<Rightarrow> breaker_state \<Rightarrow> string \<Rightarrow> int \<Rightarrow> breaker_db \<Rightarrow> string result" where
  "latched_trigger cal state trigger day s =
     (if \<not> br_Halted state \<or> breakerOverridden (br_Ledger state) (br_Reason state) day s then Inr trigger
      else if br_Reason state = ''pnl_divergence'' then Inr (br_Reason state)
      else if br_Reason state = ''daily_loss''
      then (case timestampOnMarketDay cal (br_UpdatedAt state) day of
              Inl e \<Rightarrow> Inl e
            | Inr sameDay \<Rightarrow> Inr (if sameDay \<and> trigger \<noteq> ''pnl_divergence'' then br_Reason state else trigger))
      else Inr trigger)"

definition breaker_payload ::
  "string \<Rightarrow> bool \<Rightarrow> int \<Rightarrow> time \<Rightarrow> string \<Rightarrow> string \<Rightarrow> string \<Rightarrow> (string \<times> payload) list" where
  "breaker_payload ledger nextHalted day observedAt trigger previous subject =
     [(''ledger'', PText ledger), (''halted'', PBool nextHalted), (''market_day'', PInt day), (''observed_at'', PInt observedAt)] @
     (if trigger \<noteq> [] then [(''reason'', PText trigger)]
      else if previous \<noteq> [] then [(''reason'', PText previous)] else []) @
     (if subject \<noteq> [] then [(''subject'', PText subject)] else [])"

definition breaker_event :: "time \<Rightarrow> string \<Rightarrow> (string \<times> payload) list \<Rightarrow> breaker_db \<Rightarrow> breaker_db result" where
  "breaker_event observedAt kind payload s =
     (case insert_event_at observedAt kind payload (bk_DB s) of
        Inl e \<Rightarrow> Inl e | Inr d \<Rightarrow> Inr (s\<lparr>bk_DB := d\<rparr>))"

definition set_breaker :: "string \<Rightarrow> bool \<Rightarrow> string \<Rightarrow> time \<Rightarrow> breaker_db \<Rightarrow> breaker_db" where
  "set_breaker ledger halted' reason observedAt s = s\<lparr>bk_States := update_rows (\<lambda>b. br_Ledger b = ledger)
     (\<lambda>b. b\<lparr>br_Halted := halted', br_Reason := reason, br_UpdatedAt := observedAt\<rparr>) (bk_States s)\<rparr>"

definition transitionBreaker ::
  "calendar \<Rightarrow> string \<Rightarrow> string \<Rightarrow> int \<Rightarrow> time \<Rightarrow> string \<Rightarrow> breaker_db \<Rightarrow> ((breaker_state \<times> bool) \<times> breaker_db) result" where
  "transitionBreaker cal ledger trigger0 day observedAt subject s =
     (case one_row (\<lambda>b. br_Ledger b = ledger) (bk_States s) of
        Inl e \<Rightarrow> Inl e
      | Inr state \<Rightarrow>
         (case latched_trigger cal state trigger0 day s of
            Inl e \<Rightarrow> Inl e
          | Inr trigger \<Rightarrow>
             (let nextHalted = (trigger \<noteq> [])
              in if br_Halted state = nextHalted \<and> br_Reason state = trigger then Inr ((state, False), s)
                 else (case breaker_event observedAt ''breaker''
                        (breaker_payload ledger nextHalted day observedAt trigger (br_Reason state) subject)
                        (set_breaker ledger nextHalted trigger observedAt s) of
                    Inl e \<Rightarrow> Inl e
                  | Inr s' \<Rightarrow> Inr ((state\<lparr>br_Halted := nextHalted, br_Reason := trigger, br_UpdatedAt := observedAt\<rparr>, True), s')))))"

definition day_risk_guards :: "day_risk_input \<Rightarrow> (bool \<times> go_error) list" where
  "day_risk_guards i =
     [(di_Ledger i \<noteq> ''live'' \<and> di_Ledger i \<noteq> ''shadow'', Errorf ''invalid breaker ledger'' []),
      (di_MarketDay i = 0 \<or> di_Start i = 0 \<or> di_End i = 0 \<or> di_ObservedAt i = 0 \<or> \<not> di_End i > di_Start i \<or>
         di_ObservedAt i < di_Start i \<or> \<not> di_ObservedAt i < di_End i, Errorf ''invalid market-day window'' [])]"

definition limit_guards :: "time \<times> time \<Rightarrow> day_risk_input \<Rightarrow> (bool \<times> go_error) list" where
  "limit_guards bounds i =
     [(di_Start i \<noteq> fst bounds \<or> di_End i \<noteq> snd bounds,
         Errorf ''market-day window does not match configured timezone'' []),
      (di_MaxDailyLossPct i < 0 \<or> di_ConsecutiveLossDaysHalt i < 0 \<or> di_PnLReconciliationLimit i < 0,
         Errorf ''invalid breaker limits'' [])]"

definition daily_loss_limit :: "day_risk_input \<Rightarrow> micros \<Rightarrow> micros result" where
  "daily_loss_limit i dayOpen =
     (if di_MaxDailyLossPct i > 0 \<and> dayOpen > 0 then PercentFloor dayOpen (di_MaxDailyLossPct i) else Inr 0)"

definition diverged :: "day_risk_input \<Rightarrow> micros \<Rightarrow> bool" where
  "diverged i local = (case di_ProviderRealizedPnL i of
     None \<Rightarrow> False | Some p \<Rightarrow> DifferenceExceeds local p (di_PnLReconciliationLimit i))"

definition breaker_trigger :: "day_risk_input \<Rightarrow> day_risk_stats \<Rightarrow> breaker_db \<Rightarrow> string" where
  "breaker_trigger i stats s =
     (let overridden = (\<lambda>reason. breakerOverridden (di_Ledger i) reason (di_MarketDay i) s)
      in if diverged i (dk_LocalRealizedPnL stats) \<and> \<not> overridden ''pnl_divergence'' then ''pnl_divergence''
         else if dk_DailyLossLimit stats > 0 \<and>
           lessThanOrEqualNegative (dk_EffectiveRealizedPnL stats) (dk_DailyLossLimit stats) \<and> \<not> overridden ''daily_loss''
         then ''daily_loss''
         else if di_ConsecutiveLossDaysHalt i > 0 \<and> dk_ConsecutiveLossDays stats \<ge> di_ConsecutiveLossDaysHalt i \<and>
           \<not> overridden ''loss_streak''
         then ''loss_streak'' else [])"

text \<open>The figures of the day: result, limit and streak.\<close>

definition day_figures :: "calendar \<Rightarrow> day_risk_input \<Rightarrow> micros \<Rightarrow> breaker_db \<Rightarrow> (day_risk_stats \<times> breaker_db) result" where
  "day_figures cal i local s0 =
     (let effective = moreLossMaking local (di_ProviderRealizedPnL i);
          s = persistDailyPnL (di_MarketDay i) (di_Ledger i) local (di_ProviderRealizedPnL i) effective (di_ObservedAt i) s0
      in case one_row (\<lambda>r. do_MarketDay r = di_MarketDay i \<and> do_Ledger r = di_Ledger i) (bk_DayOpen s) of
           Inl e \<Rightarrow> Inl e
         | Inr row \<Rightarrow>
            (case daily_loss_limit i (do_Equity row) of
               Inl e \<Rightarrow> Inl e
             | Inr limit \<Rightarrow>
                (case consecutiveLossDays cal i effective s of
                   Inl e \<Rightarrow> Inl e
                 | Inr (streak, s') \<Rightarrow>
                     Inr (\<lparr>dk_LocalRealizedPnL = local, dk_ProviderRealizedPnL = di_ProviderRealizedPnL i,
                           dk_EffectiveRealizedPnL = effective, dk_DailyLossLimit = limit,
                           dk_ConsecutiveLossDays = streak, dk_Halted = False, dk_Reason = []\<rparr>, s'))))"

definition divergence_event :: "day_risk_input \<Rightarrow> day_risk_stats \<Rightarrow> breaker_db \<Rightarrow> breaker_db result" where
  "divergence_event i stats s = breaker_event (di_ObservedAt i) ''pnl_divergence''
     [(''ledger'', PText (di_Ledger i)), (''market_day'', PInt (di_MarketDay i)), (''observed_at'', PInt (di_ObservedAt i)),
      (''local_realized_pnl'', PInt (dk_LocalRealizedPnL stats)),
      (''provider_realized_pnl'', PInt (case di_ProviderRealizedPnL i of None \<Rightarrow> 0 | Some p \<Rightarrow> p)),
      (''tolerance'', PInt (di_PnLReconciliationLimit i))] s"

definition judge_day :: "calendar \<Rightarrow> day_risk_input \<Rightarrow> day_risk_stats \<Rightarrow> breaker_db \<Rightarrow> (day_risk_stats \<times> breaker_db) result" where
  "judge_day cal i stats s =
     (let trigger = breaker_trigger i stats s
      in case transitionBreaker cal (di_Ledger i) trigger (di_MarketDay i) (di_ObservedAt i) [] s of
           Inl e \<Rightarrow> Inl e
         | Inr ((state, changed), s1) \<Rightarrow>
            (case (if changed \<and> trigger = ''pnl_divergence'' then divergence_event i stats s1 else Inr s1) of
               Inl e \<Rightarrow> Inl e
             | Inr s2 \<Rightarrow> Inr (stats\<lparr>dk_Halted := br_Halted state, dk_Reason := br_Reason state\<rparr>, s2)))"

definition EvaluateDayRisk :: "calendar \<Rightarrow> day_risk_input \<Rightarrow> breaker_db \<Rightarrow> (day_risk_stats \<times> breaker_db) result" where
  "EvaluateDayRisk cal i s =
     guarded (day_risk_guards i)
      (case marketDayBounds cal (di_MarketDay i) of
         Inl e \<Rightarrow> Inl e
       | Inr bounds \<Rightarrow> guarded (limit_guards bounds i)
          (case localRealizedPnL (bk_DB s) (di_Ledger i) (di_Start i) (di_End i) of
             Inl e \<Rightarrow> Inl e
           | Inr local \<Rightarrow>
              (case day_figures cal i local s of
                 Inl e \<Rightarrow> Inl e
               | Inr (stats, s') \<Rightarrow> judge_day cal i stats s')))"

definition known_reason :: "string \<Rightarrow> bool" where
  "known_reason r \<longleftrightarrow> r = ''daily_loss'' \<or> r = ''loss_streak'' \<or> r = ''pnl_divergence''"

definition resume_guards :: "string \<Rightarrow> string \<Rightarrow> int \<Rightarrow> time \<Rightarrow> string \<Rightarrow> (bool \<times> go_error) list" where
  "resume_guards ledger reason day observedAt subject =
     [(ledger \<noteq> ''live'' \<and> ledger \<noteq> ''shadow'', Errorf ''invalid breaker ledger'' []),
      (\<not> known_reason reason, Errorf ''invalid breaker reason'' []),
      (day = 0 \<or> observedAt = 0 \<or> subject = [],
         Errorf ''breaker resume requires market day, observation time, and subject'' [])]"

definition put_override :: "string \<Rightarrow> string \<Rightarrow> int \<Rightarrow> string \<Rightarrow> time \<Rightarrow> breaker_db \<Rightarrow> breaker_db" where
  "put_override ledger reason day subject observedAt s =
     (let same = (\<lambda>v. bv_Ledger v = ledger \<and> bv_Reason v = reason \<and> bv_MarketDay v = day)
      in if list_ex same (bk_Overrides s)
         then s\<lparr>bk_Overrides := update_rows same (\<lambda>v. v\<lparr>bv_Subject := subject, bv_TS := observedAt\<rparr>) (bk_Overrides s)\<rparr>
         else s\<lparr>bk_Overrides := bk_Overrides s @ [\<lparr>bv_Ledger = ledger, bv_Reason = reason, bv_MarketDay = day,
                  bv_Subject = subject, bv_TS = observedAt\<rparr>]\<rparr>)"

definition ResumeBreaker ::
  "calendar \<Rightarrow> string \<Rightarrow> string \<Rightarrow> int \<Rightarrow> time \<Rightarrow> string \<Rightarrow> breaker_db \<Rightarrow> (breaker_state \<times> breaker_db) result" where
  "ResumeBreaker cal ledger reason day observedAt subject s =
     guarded (resume_guards ledger reason day observedAt subject)
      (case marketDayBounds cal day of
         Inl e \<Rightarrow> Inl e
       | Inr (start, end') \<Rightarrow>
          if observedAt < start \<or> \<not> observedAt < end'
          then Inl (Errorf ''breaker observation is outside market day'' [])
          else (case one_row (\<lambda>b. br_Ledger b = ledger) (bk_States s) of
             Inl e \<Rightarrow> Inl e
           | Inr state \<Rightarrow>
               if \<not> br_Halted state \<or> br_Reason state \<noteq> reason then Inl ErrBreakerNotActive
               else if reason = ''daily_loss'' \<and> (br_UpdatedAt state < start \<or> \<not> br_UpdatedAt state < end')
               then Inl ErrBreakerNotActive
               else (case breaker_event observedAt ''breaker''
                    [(''ledger'', PText ledger), (''halted'', PBool False), (''reason'', PText reason),
                     (''market_day'', PInt day), (''observed_at'', PInt observedAt), (''subject'', PText subject),
                     (''override'', PBool True)]
                    (set_breaker ledger False [] observedAt (put_override ledger reason day subject observedAt s)) of
                  Inl e \<Rightarrow> Inl e
                | Inr s' \<Rightarrow> Inr (state\<lparr>br_Halted := False, br_Reason := [], br_UpdatedAt := observedAt,
                      br_EventID := int (length (db_Events (bk_DB s')))\<rparr>, s'))))"

section \<open>The figures leave the breaker alone\<close>

definition only_pnl :: "breaker_db \<Rightarrow> breaker_db \<Rightarrow> bool" where
  "only_pnl s s' \<longleftrightarrow> s' = s\<lparr>bk_DailyPnL := bk_DailyPnL s'\<rparr>"

lemma only_pnl_refl [simp]: "only_pnl s s"
  by (simp add: only_pnl_def)

lemma only_pnl_trans: "only_pnl s t \<Longrightarrow> only_pnl t u \<Longrightarrow> only_pnl s u"
  unfolding only_pnl_def by (metis (no_types) breaker_db.update_convs(3) breaker_db.surjective breaker_db.select_convs(3))

lemma only_pnl_persist [simp]: "only_pnl s (persistDailyPnL d l a p e t s)"
  by (simp add: persistDailyPnL_def only_pnl_def Let_def)

lemma only_pnl_fields:
  assumes "only_pnl s s'"
  shows "bk_DB s' = bk_DB s" "bk_Overrides s' = bk_Overrides s" "bk_States s' = bk_States s" "bk_DayOpen s' = bk_DayOpen s"
  using assms unfolding only_pnl_def by (metis breaker_db.ext_inject breaker_db.surjective breaker_db.update_convs(3))+

lemma streak_cons:
  assumes "streak_loop cal i (day # days) n s = Inr (m, s')"
  obtains t where "only_pnl s t" "m = n \<and> s' = t \<or> streak_loop cal i days (n + 1) t = Inr (m, s')"
proof -
  obtain start end' where b: "marketDayBounds cal day = Inr (start, end')"
    using assms by (auto simp: case_sum_Inr_iff)
  obtain local where l: "localRealizedPnL (bk_DB s) (di_Ledger i) start end' = Inr local"
    using assms b by (auto simp: case_sum_Inr_iff)
  let ?p = "persistedProviderPnL day (di_Ledger i) s"
  let ?t = "persistDailyPnL day (di_Ledger i) local ?p (moreLossMaking local ?p) (di_ObservedAt i) s"
  show ?thesis
    by (rule that[of ?t]) (use assms b l in \<open>simp_all add: Let_def split: if_splits\<close>)
qed

lemma streak_frame: "streak_loop cal i days n s = Inr (m, s') \<Longrightarrow> only_pnl s s'"
proof (induction days arbitrary: n s)
  case (Cons day days)
  obtain t where "only_pnl s t" "m = n \<and> s' = t \<or> streak_loop cal i days (n + 1) t = Inr (m, s')"
    by (rule streak_cons[OF Cons(2)])
  then show ?case using Cons(1) only_pnl_trans by blast
qed simp

lemma figures_frame:
  assumes "day_figures cal i local s = Inr (stats, s')"
  shows "only_pnl s s'" "dk_LocalRealizedPnL stats = local"
    "dk_EffectiveRealizedPnL stats = moreLossMaking local (di_ProviderRealizedPnL i)"
  using assms unfolding day_figures_def Let_def
  by (auto simp: case_sum_Inr_iff consecutiveLossDays_def split: if_splits
      intro: only_pnl_trans[OF only_pnl_persist] dest: streak_frame)

text \<open>The length of the streak: at most one more than the number of days asked for.\<close>

lemma streak_bounds: "streak_loop cal i days n s = Inr (m, s') \<Longrightarrow> n \<le> m \<and> m \<le> n + int (length days)"
proof (induction days arbitrary: n s)
  case (Cons day days)
  obtain t where "only_pnl s t" "m = n \<and> s' = t \<or> streak_loop cal i days (n + 1) t = Inr (m, s')"
    by (rule streak_cons[OF Cons(2)])
  then show ?case using Cons(1)[of "n + 1" t] by auto
qed simp


section \<open>What an evaluation decides\<close>

lemma breakerOverridden_frame: "bk_Overrides s' = bk_Overrides s \<Longrightarrow> breakerOverridden l r d s' = breakerOverridden l r d s"
  by (simp add: breakerOverridden_def)

lemma breaker_event_frame:
  "breaker_event n k p s = Inr s' \<Longrightarrow>
     bk_States s' = bk_States s \<and> bk_Overrides s' = bk_Overrides s \<and> bk_DayOpen s' = bk_DayOpen s \<and> bk_DailyPnL s' = bk_DailyPnL s"
  by (auto simp: breaker_event_def case_sum_Inr_iff)

lemma one_row_set_breaker:
  "one_row (\<lambda>b. br_Ledger b = l) (bk_States s) = Inr b \<Longrightarrow>
     one_row (\<lambda>b. br_Ledger b = l) (bk_States (set_breaker l h r n s)) = Inr (b\<lparr>br_Halted := h, br_Reason := r, br_UpdatedAt := n\<rparr>)"
  using find_SomeD unfolding set_breaker_def one_row_ok by (fastforce simp: find_update_key[of br_Ledger])

lemma one_row_set_other:
  assumes "m \<noteq> l"
  shows "one_row (\<lambda>b. br_Ledger b = m) (bk_States (set_breaker l h r n s)) = one_row (\<lambda>b. br_Ledger b = m) (bk_States s)"
proof (cases "find (\<lambda>b. br_Ledger b = m) (bk_States s)")
  case (Some b)
  then have "br_Ledger b \<noteq> l" using find_SomeD assms by fastforce
  then show ?thesis using Some by (simp add: set_breaker_def one_row_def find_update_key[of br_Ledger])
qed (simp add: set_breaker_def one_row_def find_update_key[of br_Ledger])

text \<open>A transition ends in the latched trigger, tripped exactly when there is one.\<close>

lemma transition_effect:
  assumes run: "transitionBreaker cal l trigger day n subj s = Inr ((b, changed), s')"
  obtains b0 t where "one_row (\<lambda>b. br_Ledger b = l) (bk_States s) = Inr b0" "latched_trigger cal b0 trigger day s = Inr t"
    "br_Halted b \<longleftrightarrow> t \<noteq> []" "br_Reason b = t" "one_row (\<lambda>b. br_Ledger b = l) (bk_States s') = Inr b"
    "bk_Overrides s' = bk_Overrides s" "\<And>m. m \<noteq> l \<Longrightarrow> one_row (\<lambda>b. br_Ledger b = m) (bk_States s') = one_row (\<lambda>b. br_Ledger b = m) (bk_States s)"
proof -
  obtain b0 where b0: "one_row (\<lambda>b. br_Ledger b = l) (bk_States s) = Inr b0"
    using run by (auto simp: transitionBreaker_def case_sum_Inr_iff)
  obtain t where t: "latched_trigger cal b0 trigger day s = Inr t"
    using run b0 by (auto simp: transitionBreaker_def case_sum_Inr_iff)
  show ?thesis
  proof (cases "br_Halted b0 = (t \<noteq> []) \<and> br_Reason b0 = t")
    case True
    then have "b = b0" "s' = s" using run b0 t by (auto simp: transitionBreaker_def Let_def)
    then show ?thesis using that b0 t True by blast
  next
    case False
    obtain e where e: "breaker_event n ''breaker'' e (set_breaker l (t \<noteq> []) t n s) = Inr s'"
      and b: "b = b0\<lparr>br_Halted := (t \<noteq> []), br_Reason := t, br_UpdatedAt := n\<rparr>"
      using run b0 t False unfolding transitionBreaker_def Let_def by (auto simp: case_sum_Inr_iff)
    note f = breaker_event_frame[OF e]
    show ?thesis
      using that[OF b0 t] f b one_row_set_breaker[OF b0] one_row_set_other by (simp add: set_breaker_def)
  qed
qed

text \<open>When a tripped breaker stays tripped whatever the figures of the day are.\<close>

definition latched :: "calendar \<Rightarrow> breaker_state \<Rightarrow> int \<Rightarrow> breaker_db \<Rightarrow> bool" where
  "latched cal b day s \<longleftrightarrow> br_Halted b \<and> \<not> breakerOverridden (br_Ledger b) (br_Reason b) day s \<and>
     (br_Reason b = ''pnl_divergence'' \<or> br_Reason b = ''daily_loss'' \<and> local_date cal (br_UpdatedAt b) = Inr day)"

lemma latched_trigger_iff:
  assumes t: "latched_trigger cal b tr day s = Inr t"
  shows "t \<noteq> [] \<longleftrightarrow> tr \<noteq> [] \<or> latched cal b day s"
proof (cases "br_Halted b \<and> \<not> breakerOverridden (br_Ledger b) (br_Reason b) day s")
  case False
  then have "t = tr" using t by (auto simp: latched_trigger_def)
  then show ?thesis using False by (auto simp: latched_def)
next
  case True
  consider "br_Reason b = ''pnl_divergence''" | "br_Reason b = ''daily_loss''"
    | "br_Reason b \<noteq> ''pnl_divergence''" "br_Reason b \<noteq> ''daily_loss''" by blast
  then show ?thesis
  proof cases
    case 1
    then have "t = ''pnl_divergence''" "latched cal b day s" using t True by (simp_all add: latched_trigger_def latched_def)
    then show ?thesis by simp
  next
    case 2
    then obtain d where d: "local_date cal (br_UpdatedAt b) = Inr d"
      using t True by (auto simp: latched_trigger_def timestampOnMarketDay_def split: sum.splits)
    then show ?thesis using t True 2
      by (auto simp: latched_trigger_def latched_def timestampOnMarketDay_def split: if_splits)
  next
    case 3
    then show ?thesis using t True by (simp add: latched_trigger_def latched_def)
  qed
qed

text \<open>The three reasons to trip, as the day's figures give them.\<close>

definition day_reason :: "day_risk_input \<Rightarrow> day_risk_stats \<Rightarrow> string \<Rightarrow> bool" where
  "day_reason i k r \<longleftrightarrow>
     r = ''pnl_divergence'' \<and> (\<exists>p. di_ProviderRealizedPnL i = Some p \<and>
        \<bar>dk_LocalRealizedPnL k - p\<bar> > di_PnLReconciliationLimit i) \<or>
     r = ''daily_loss'' \<and> 0 < dk_DailyLossLimit k \<and> dk_EffectiveRealizedPnL k \<le> - dk_DailyLossLimit k \<or>
     r = ''loss_streak'' \<and> 0 < di_ConsecutiveLossDaysHalt i \<and> di_ConsecutiveLossDaysHalt i \<le> dk_ConsecutiveLossDays k"

lemma day_reason_simps:
  "day_reason i k ''pnl_divergence'' \<longleftrightarrow> diverged i (dk_LocalRealizedPnL k)"
  "day_reason i k ''daily_loss'' \<longleftrightarrow> 0 < dk_DailyLossLimit k \<and> lessThanOrEqualNegative (dk_EffectiveRealizedPnL k) (dk_DailyLossLimit k)"
  "day_reason i k ''loss_streak'' \<longleftrightarrow> 0 < di_ConsecutiveLossDaysHalt i \<and> di_ConsecutiveLossDaysHalt i \<le> dk_ConsecutiveLossDays k"
  by (simp_all add: day_reason_def diverged_def DifferenceExceeds_def lessThanOrEqualNegative_def split: option.splits)

lemma day_reason_known: "day_reason i k r \<Longrightarrow> r = ''pnl_divergence'' \<or> r = ''daily_loss'' \<or> r = ''loss_streak''"
  unfolding day_reason_def by (elim disjE conjE) simp_all

lemma breaker_trigger_iff:
  "breaker_trigger i k s \<noteq> [] \<longleftrightarrow>
     (\<exists>r. day_reason i k r \<and> \<not> breakerOverridden (di_Ledger i) r (di_MarketDay i) s)"
proof -
  let ?o = "\<lambda>r. breakerOverridden (di_Ledger i) r (di_MarketDay i) s"
  have "(\<exists>r. day_reason i k r \<and> \<not> ?o r) \<longleftrightarrow> day_reason i k ''pnl_divergence'' \<and> \<not> ?o ''pnl_divergence'' \<or>
      day_reason i k ''daily_loss'' \<and> \<not> ?o ''daily_loss'' \<or> day_reason i k ''loss_streak'' \<and> \<not> ?o ''loss_streak''"
    using day_reason_known by metis
  then show ?thesis by (simp add: breaker_trigger_def day_reason_simps Let_def)
qed

lemma evaluate_cases:
  assumes run: "EvaluateDayRisk cal i s = Inr (stats, s')"
  obtains local k b changed s1 s2 where "localRealizedPnL (bk_DB s) (di_Ledger i) (di_Start i) (di_End i) = Inr local"
    "day_figures cal i local s = Inr (k, s1)"
    "transitionBreaker cal (di_Ledger i) (breaker_trigger i k s1) (di_MarketDay i) (di_ObservedAt i) [] s1 = Inr ((b, changed), s2)"
    "stats = k\<lparr>dk_Halted := br_Halted b, dk_Reason := br_Reason b\<rparr>"
    "bk_States s' = bk_States s2" "bk_Overrides s' = bk_Overrides s2"
proof -
  obtain bounds where b: "marketDayBounds cal (di_MarketDay i) = Inr bounds"
    using run by (auto simp: EvaluateDayRisk_def guarded_ok case_sum_Inr_iff)
  have r: "(case localRealizedPnL (bk_DB s) (di_Ledger i) (di_Start i) (di_End i) of
      Inl e \<Rightarrow> Inl e
    | Inr local \<Rightarrow> (case day_figures cal i local s of Inl e \<Rightarrow> Inl e | Inr (stats, s') \<Rightarrow> judge_day cal i stats s')) = Inr (stats, s')"
    using run b by (simp add: EvaluateDayRisk_def guarded_ok)
  obtain local where l: "localRealizedPnL (bk_DB s) (di_Ledger i) (di_Start i) (di_End i) = Inr local"
    using r by (cases "localRealizedPnL (bk_DB s) (di_Ledger i) (di_Start i) (di_End i)") simp_all
  obtain k s1 where k: "day_figures cal i local s = Inr (k, s1)" "judge_day cal i k s1 = Inr (stats, s')"
    using r l by (cases "day_figures cal i local s") auto
  obtain st changed s2 where t: "transitionBreaker cal (di_Ledger i) (breaker_trigger i k s1) (di_MarketDay i)
      (di_ObservedAt i) [] s1 = Inr ((st, changed), s2)"
    using k(2) by (auto simp: judge_day_def Let_def case_sum_Inr_iff)
  obtain s3 where s3: "(if changed \<and> breaker_trigger i k s1 = ''pnl_divergence'' then divergence_event i k s2 else Inr s2) = Inr s3"
    and out: "stats = k\<lparr>dk_Halted := br_Halted st, dk_Reason := br_Reason st\<rparr>" "s' = s3"
    using k(2) t by (auto simp: judge_day_def Let_def case_sum_Inr_iff)
  have "bk_States s3 = bk_States s2 \<and> bk_Overrides s3 = bk_Overrides s2"
    using s3 breaker_event_frame by (auto simp: divergence_event_def split: if_splits)
  then show ?thesis using that l k(1) t out by simp
qed

lemma evaluate_effect:
  assumes run: "EvaluateDayRisk cal i s = Inr (stats, s')"
  obtains b0 b t where "one_row (\<lambda>b. br_Ledger b = di_Ledger i) (bk_States s) = Inr b0"
    "latched_trigger cal b0 (breaker_trigger i stats s) (di_MarketDay i) s = Inr t"
    "dk_Halted stats \<longleftrightarrow> t \<noteq> []" "dk_Reason stats = t"
    "one_row (\<lambda>b. br_Ledger b = di_Ledger i) (bk_States s') = Inr b" "br_Halted b = dk_Halted stats" "br_Reason b = t"
    "bk_Overrides s' = bk_Overrides s"
    "\<And>m. m \<noteq> di_Ledger i \<Longrightarrow> one_row (\<lambda>b. br_Ledger b = m) (bk_States s') = one_row (\<lambda>b. br_Ledger b = m) (bk_States s)"
    "dk_EffectiveRealizedPnL stats = moreLossMaking (dk_LocalRealizedPnL stats) (di_ProviderRealizedPnL i)"
    "localRealizedPnL (bk_DB s) (di_Ledger i) (di_Start i) (di_End i) = Inr (dk_LocalRealizedPnL stats)"
proof -
  obtain local k b changed s1 s2 where l: "localRealizedPnL (bk_DB s) (di_Ledger i) (di_Start i) (di_End i) = Inr local"
    and k: "day_figures cal i local s = Inr (k, s1)"
    and tr: "transitionBreaker cal (di_Ledger i) (breaker_trigger i k s1) (di_MarketDay i) (di_ObservedAt i) [] s1 = Inr ((b, changed), s2)"
    and out: "stats = k\<lparr>dk_Halted := br_Halted b, dk_Reason := br_Reason b\<rparr>"
      "bk_States s' = bk_States s2" "bk_Overrides s' = bk_Overrides s2"
    by (rule evaluate_cases[OF run])
  note f = only_pnl_fields[OF figures_frame(1)[OF k]] figures_frame(2,3)[OF k]
  have ov: "breakerOverridden l r d s1 = breakerOverridden l r d s" for l r d
    by (rule breakerOverridden_frame) (rule f)
  have trig: "breaker_trigger i k s1 = breaker_trigger i stats s"
    by (simp add: breaker_trigger_def ov out(1))
  have lat: "latched_trigger cal b0 tr d s1 = latched_trigger cal b0 tr d s" for b0 tr d
    by (simp add: latched_trigger_def ov)
  obtain b0 t where e: "one_row (\<lambda>b. br_Ledger b = di_Ledger i) (bk_States s1) = Inr b0"
    "latched_trigger cal b0 (breaker_trigger i k s1) (di_MarketDay i) s1 = Inr t"
    "br_Halted b \<longleftrightarrow> t \<noteq> []" "br_Reason b = t" "one_row (\<lambda>b. br_Ledger b = di_Ledger i) (bk_States s2) = Inr b"
    "bk_Overrides s2 = bk_Overrides s1"
    "\<And>m. m \<noteq> di_Ledger i \<Longrightarrow> one_row (\<lambda>b. br_Ledger b = m) (bk_States s2) = one_row (\<lambda>b. br_Ledger b = m) (bk_States s1)"
    by (rule transition_effect[OF tr]) blast
  show ?thesis
    by (rule that[of b0 t b]) (use e f l trig lat in \<open>simp_all add: out\<close>)
qed

text \<open>What is in force against trading on the day: the reasons of the day that are not overridden, and the one that latches.
  A divergence outranks a loss, and a loss outranks a streak.\<close>

definition in_force :: "calendar \<Rightarrow> breaker_state \<Rightarrow> day_risk_input \<Rightarrow> day_risk_stats \<Rightarrow> breaker_db \<Rightarrow> string \<Rightarrow> bool" where
  "in_force cal b i k s r \<longleftrightarrow> day_reason i k r \<and> \<not> breakerOverridden (di_Ledger i) r (di_MarketDay i) s \<or>
     latched cal b (di_MarketDay i) s \<and> r = br_Reason b"

definition first_reason :: "(string \<Rightarrow> bool) \<Rightarrow> string" where
  "first_reason holds = (if holds ''pnl_divergence'' then ''pnl_divergence'' else if holds ''daily_loss'' then ''daily_loss''
     else if holds ''loss_streak'' then ''loss_streak'' else [])"

lemma breaker_trigger_first:
  "breaker_trigger i k s = first_reason (\<lambda>r. day_reason i k r \<and> \<not> breakerOverridden (di_Ledger i) r (di_MarketDay i) s)"
  by (simp add: breaker_trigger_def first_reason_def day_reason_simps Let_def)

lemma latched_trigger_first:
  assumes t: "latched_trigger cal b (breaker_trigger i k s) (di_MarketDay i) s = Inr t"
  shows "t = first_reason (in_force cal b i k s)"
proof -
  let ?day = "di_MarketDay i" and ?own = "\<lambda>r. day_reason i k r \<and> \<not> breakerOverridden (di_Ledger i) r (di_MarketDay i) s"
  have free: "t = first_reason (in_force cal b i k s)" if "\<not> latched cal b ?day s" "t = breaker_trigger i k s"
    using that by (simp add: breaker_trigger_first in_force_def first_reason_def)
  have first: "breaker_trigger i k s = ''pnl_divergence'' \<longleftrightarrow> ?own ''pnl_divergence''"
    by (simp add: breaker_trigger_first first_reason_def)
  consider (off) "\<not> (br_Halted b \<and> \<not> breakerOverridden (br_Ledger b) (br_Reason b) ?day s)"
    | (divergence) "br_Halted b" "\<not> breakerOverridden (br_Ledger b) (br_Reason b) ?day s" "br_Reason b = ''pnl_divergence''"
    | (loss) "br_Halted b" "\<not> breakerOverridden (br_Ledger b) (br_Reason b) ?day s" "br_Reason b = ''daily_loss''"
    | (streak) "br_Reason b \<noteq> ''pnl_divergence''" "br_Reason b \<noteq> ''daily_loss''" by blast
  then show ?thesis
  proof cases
    case off
    then show ?thesis using t by (intro free) (simp_all add: latched_def latched_trigger_def split: if_splits)
  next
    case divergence
    then have "t = ''pnl_divergence''" "in_force cal b i k s ''pnl_divergence''"
      using t by (simp_all add: latched_trigger_def latched_def in_force_def)
    then show ?thesis by (simp add: first_reason_def)
  next
    case loss
    then obtain d where d: "local_date cal (br_UpdatedAt b) = Inr d"
      and t': "t = (if d = ?day \<and> breaker_trigger i k s \<noteq> ''pnl_divergence'' then ''daily_loss'' else breaker_trigger i k s)"
      using t by (auto simp: latched_trigger_def timestampOnMarketDay_def split: sum.splits)
    show ?thesis
    proof (cases "d = ?day")
      case True
      then have "in_force cal b i k s ''daily_loss''" "in_force cal b i k s ''pnl_divergence'' \<longleftrightarrow> ?own ''pnl_divergence''"
        using loss d by (simp_all add: in_force_def latched_def)
      then show ?thesis using t' True first by (simp add: first_reason_def)
    next
      case False
      then show ?thesis using loss d t' by (intro free) (simp_all add: latched_def)
    qed
  next
    case streak
    then show ?thesis using t by (intro free) (simp_all add: latched_def latched_trigger_def split: if_splits)
  qed
qed

text \<open>C21: What trips the breaker. A successful evaluation of a day takes the worse of the local and the broker's
  result, and reports (and stores) the ledger as halted exactly when one of the three reasons holds and has
  not been overridden for the day (the two results differ by more than the tolerance, the loss reaches the daily
  limit, the streak reaches the configured length), or the breaker was tripped before, is not overridden, and
  latches: a divergence on any day, a daily loss on its own day. The reason that is reported and stored is the
  first of those in force, a divergence before a loss before a streak.\<close>
theorem breaker_verdict:
  assumes run: "EvaluateDayRisk cal i s = Inr (stats, s')"
    and old: "one_row (\<lambda>b. br_Ledger b = di_Ledger i) (bk_States s) = Inr b"
  shows "dk_EffectiveRealizedPnL stats = (case di_ProviderRealizedPnL i of None \<Rightarrow> dk_LocalRealizedPnL stats
       | Some p \<Rightarrow> min (dk_LocalRealizedPnL stats) p) \<and>
    (dk_Halted stats \<longleftrightarrow>
       (\<exists>r. day_reason i stats r \<and> \<not> breakerOverridden (di_Ledger i) r (di_MarketDay i) s) \<or>
       latched cal b (di_MarketDay i) s) \<and>
    dk_Reason stats = first_reason (in_force cal b i stats s) \<and>
    (\<exists>b'. one_row (\<lambda>b. br_Ledger b = di_Ledger i) (bk_States s') = Inr b' \<and>
       br_Halted b' = dk_Halted stats \<and> br_Reason b' = dk_Reason stats)"
proof -
  obtain b0 b' t where e: "one_row (\<lambda>b. br_Ledger b = di_Ledger i) (bk_States s) = Inr b0"
    "latched_trigger cal b0 (breaker_trigger i stats s) (di_MarketDay i) s = Inr t"
    "dk_Halted stats \<longleftrightarrow> t \<noteq> []" "dk_Reason stats = t"
    "one_row (\<lambda>b. br_Ledger b = di_Ledger i) (bk_States s') = Inr b'" "br_Halted b' = dk_Halted stats" "br_Reason b' = t"
    "dk_EffectiveRealizedPnL stats = moreLossMaking (dk_LocalRealizedPnL stats) (di_ProviderRealizedPnL i)"
    by (rule evaluate_effect[OF run])
  have b: "b0 = b" using e(1) old by simp
  then have "dk_Halted stats \<longleftrightarrow> (\<exists>r. day_reason i stats r \<and> \<not> breakerOverridden (di_Ledger i) r (di_MarketDay i) s) \<or>
       latched cal b (di_MarketDay i) s"
    using e(2,3) latched_trigger_iff breaker_trigger_iff by simp
  moreover have "dk_Reason stats = first_reason (in_force cal b i stats s)"
    using latched_trigger_first[OF e(2)] e(4) b by simp
  moreover have "dk_EffectiveRealizedPnL stats = (case di_ProviderRealizedPnL i of None \<Rightarrow> dk_LocalRealizedPnL stats
       | Some p \<Rightarrow> min (dk_LocalRealizedPnL stats) p)"
    using e(8) by (simp add: moreLossMaking_def min_def split: option.splits)
  ultimately show ?thesis using e(4-7) by blast
qed


section \<open>A divergence stays until it is resolved\<close>

definition divergence_held :: "string \<Rightarrow> breaker_db \<Rightarrow> bool" where
  "divergence_held l s \<longleftrightarrow>
     (\<exists>b. one_row (\<lambda>b. br_Ledger b = l) (bk_States s) = Inr b \<and> br_Halted b \<and> br_Reason b = ''pnl_divergence'') \<and>
     \<not> list_ex (\<lambda>v. bv_Ledger v = l \<and> bv_Reason v = ''pnl_divergence'') (bk_Overrides s)"

text \<open>Evaluations of any ledger on any day, and resumptions that do not name this ledger's divergence.\<close>

inductive breaker_step :: "calendar \<Rightarrow> string \<Rightarrow> breaker_db \<Rightarrow> breaker_db \<Rightarrow> bool" for cal :: calendar and l :: string where
  evaluate: "EvaluateDayRisk cal i s = Inr (stats, s') \<Longrightarrow> breaker_step cal l s s'"
| resume: "ResumeBreaker cal m reason day n subject s = Inr (b, s') \<Longrightarrow> \<not> (m = l \<and> reason = ''pnl_divergence'') \<Longrightarrow>
    breaker_step cal l s s'"

lemma evaluate_holds:
  assumes h: "divergence_held l s" and run: "EvaluateDayRisk cal i s = Inr (stats, s')"
  shows "divergence_held l s'"
proof -
  obtain b0 b t where e: "one_row (\<lambda>b. br_Ledger b = di_Ledger i) (bk_States s) = Inr b0"
    "latched_trigger cal b0 (breaker_trigger i stats s) (di_MarketDay i) s = Inr t"
    "dk_Halted stats \<longleftrightarrow> t \<noteq> []" "one_row (\<lambda>b. br_Ledger b = di_Ledger i) (bk_States s') = Inr b"
    "br_Halted b = dk_Halted stats" "br_Reason b = t" "bk_Overrides s' = bk_Overrides s"
    "\<And>m. m \<noteq> di_Ledger i \<Longrightarrow> one_row (\<lambda>b. br_Ledger b = m) (bk_States s') = one_row (\<lambda>b. br_Ledger b = m) (bk_States s)"
    by (rule evaluate_effect[OF run]) blast
  show ?thesis
  proof (cases "l = di_Ledger i")
    case True
    have b0: "br_Halted b0" "br_Reason b0 = ''pnl_divergence''" using h e(1) True by (auto simp: divergence_held_def)
    have "br_Ledger b0 = l" using e(1) True by (auto simp: one_row_ok dest: find_SomeD)
    then have "\<not> breakerOverridden (br_Ledger b0) (br_Reason b0) (di_MarketDay i) s"
      using h b0(2) by (auto simp: divergence_held_def breakerOverridden_def list_ex_iff)
    then have "t = ''pnl_divergence''" using e(2) b0 by (simp add: latched_trigger_def)
    then show ?thesis using h e True by (simp add: divergence_held_def)
  next
    case False
    then show ?thesis using h e(7,8) by (simp add: divergence_held_def)
  qed
qed

lemma resume_effect:
  assumes run: "ResumeBreaker cal m reason day n subject s = Inr (b, s')"
  obtains b0 where "one_row (\<lambda>b. br_Ledger b = m) (bk_States s) = Inr b0" "br_Halted b0" "br_Reason b0 = reason"
    "bk_States s' = bk_States (set_breaker m False [] n s)"
    "bk_Overrides s' = bk_Overrides (put_override m reason day subject n s)"
proof -
  obtain start end' where b: "marketDayBounds cal day = Inr (start, end')"
    using run by (auto simp: ResumeBreaker_def guarded_ok case_sum_Inr_iff)
  have inside: "\<not> (n < start \<or> \<not> n < end')"
    using run b by (simp add: ResumeBreaker_def guarded_ok if_Inl_eq_Inr)
  obtain b0 where r: "one_row (\<lambda>b. br_Ledger b = m) (bk_States s) = Inr b0"
    using run b inside by (auto simp: ResumeBreaker_def guarded_ok case_sum_Inr_iff)
  have act: "br_Halted b0" "br_Reason b0 = reason"
    using run b inside r by (auto simp: ResumeBreaker_def guarded_ok if_Inl_eq_Inr)
  obtain k p where "breaker_event n k p (set_breaker m False [] n (put_override m reason day subject n s)) = Inr s'"
    using run b inside r act unfolding ResumeBreaker_def guarded_ok
    by (auto simp: case_sum_Inr_iff if_Inl_eq_Inr)
  then show ?thesis using that[OF r act] breaker_event_frame
    by (simp add: set_breaker_def put_override_def Let_def split: if_splits)
qed

lemma resume_holds:
  assumes h: "divergence_held l s" and run: "ResumeBreaker cal m reason day n subject s = Inr (b, s')"
    and other: "\<not> (m = l \<and> reason = ''pnl_divergence'')"
  shows "divergence_held l s'"
proof -
  obtain b0 where e: "one_row (\<lambda>b. br_Ledger b = m) (bk_States s) = Inr b0" "br_Halted b0" "br_Reason b0 = reason"
    "bk_States s' = bk_States (set_breaker m False [] n s)"
    "bk_Overrides s' = bk_Overrides (put_override m reason day subject n s)"
    by (rule resume_effect[OF run])
  have m: "m \<noteq> l" using h e(1,3) other by (auto simp: divergence_held_def)
  then have "one_row (\<lambda>b. br_Ledger b = l) (bk_States s') = one_row (\<lambda>b. br_Ledger b = l) (bk_States s)"
    using one_row_set_other e(4) by metis
  moreover have "\<not> list_ex (\<lambda>v. bv_Ledger v = l \<and> bv_Reason v = ''pnl_divergence'') (bk_Overrides s')"
    using h m unfolding e(5) by (auto simp: divergence_held_def put_override_def Let_def list_ex_iff set_update_rows)
  ultimately show ?thesis using h by (simp add: divergence_held_def)
qed

interpretation breaker: invariant_system "breaker_step cal l" "divergence_held l"
  by unfold_locales (auto elim!: breaker_step.cases intro: evaluate_holds resume_holds)

text \<open>A divergence between the local and the broker's books is latched. Once a ledger's breaker is tripped for it and
  nobody has overridden that reason, the ledger stays halted for it through any number of evaluations,
  of any ledger, on any day and with any figures, and through resumptions of anything else: only a
  resumption that names this ledger and this reason can lift it.\<close>
lemma divergence_latched:
  assumes "divergence_held l s" and "(breaker_step cal l)\<^sup>*\<^sup>* s s'"
  shows "\<exists>b. one_row (\<lambda>b. br_Ledger b = l) (bk_States s') = Inr b \<and> br_Halted b \<and> br_Reason b = ''pnl_divergence''"
  using breaker.steps_inv[OF assms(2,1)] by (simp add: divergence_held_def)

section \<open>A concrete day\<close>

text \<open>Day 5 lasts from 5000 to 6000. A close of 3.0 at 100 made a local gain of 1.000000 less a fee of 0.000001; the
  broker reports a loss.\<close>

definition sample_calendar :: calendar where
  "sample_calendar = \<lparr>marketDayBounds = (\<lambda>d. Inr (d * 1000, (d + 1) * 1000)), local_date = (\<lambda>t. Inr (t div 1000))\<rparr>"

definition sample_day :: breaker_db where
  "sample_day = \<lparr>bk_DB = sample_db\<lparr>db_Fills := [sample_fill\<lparr>fl_TS := 5500, fl_Fees := 1\<rparr>],
       db_Allocations := [\<lparr>ca_CloseFillID = ''f9'', ca_OpenFillID = ''f1'', ca_Qty = 1000000, ca_MatchedCost = 99000000, ca_ReleasedRisk = 0\<rparr>,
         \<lparr>ca_CloseFillID = ''f9'', ca_OpenFillID = ''f2'', ca_Qty = 2000000, ca_MatchedCost = 200000000, ca_ReleasedRisk = 0\<rparr>]\<rparr>,
     bk_DayOpen = [\<lparr>do_MarketDay = 5, do_Ledger = ''live'', do_Equity = 1000000000\<rparr>,
       \<lparr>do_MarketDay = 4, do_Ledger = ''live'', do_Equity = 1000000000\<rparr>],
     bk_DailyPnL = [], bk_Overrides = [],
     bk_States = [\<lparr>br_Ledger = ''live'', br_Halted = False, br_Reason = [], br_UpdatedAt = 4100, br_EventID = 0\<rparr>]\<rparr>"

definition sample_day_input :: day_risk_input where
  "sample_day_input = \<lparr>di_Ledger = ''live'', di_MarketDay = 5, di_Start = 5000, di_End = 6000, di_ObservedAt = 5600,
     di_ProviderRealizedPnL = Some (-2000000), di_MaxDailyLossPct = 2000000, di_ConsecutiveLossDaysHalt = 2,
     di_PnLReconciliationLimit = 100000\<rparr>"

definition sample_verdict :: "day_risk_stats \<times> breaker_db" where
  "sample_verdict = (case EvaluateDayRisk sample_calendar sample_day_input sample_day of
     Inr x \<Rightarrow> x | Inl _ \<Rightarrow> (\<lparr>dk_LocalRealizedPnL = 0, dk_ProviderRealizedPnL = None, dk_EffectiveRealizedPnL = 0,
       dk_DailyLossLimit = 0, dk_ConsecutiveLossDays = 0, dk_Halted = False, dk_Reason = []\<rparr>, sample_day))"

lemma sample_evaluation:
  "EvaluateDayRisk sample_calendar sample_day_input sample_day = Inr (fst sample_verdict, snd sample_verdict)"
proof -
  have "is_ok (EvaluateDayRisk sample_calendar sample_day_input sample_day)" by code_simp
  then show ?thesis by (auto simp: is_ok_iff sample_verdict_def)
qed

theorem breaker_verdict_witness:
  "dk_LocalRealizedPnL (fst sample_verdict) = 999999 \<and> dk_EffectiveRealizedPnL (fst sample_verdict) = -2000000 \<and>
     dk_Halted (fst sample_verdict) \<and> dk_Reason (fst sample_verdict) = ''pnl_divergence'' \<and>
     (\<exists>b'. one_row (\<lambda>b. br_Ledger b = ''live'') (bk_States (snd sample_verdict)) = Inr b' \<and> br_Halted b')"
proof -
  have old: "one_row (\<lambda>b. br_Ledger b = di_Ledger sample_day_input) (bk_States sample_day) =
      Inr \<lparr>br_Ledger = ''live'', br_Halted = False, br_Reason = [], br_UpdatedAt = 4100, br_EventID = 0\<rparr>"
    by (simp add: sample_day_input_def sample_day_def one_row_def)
  have f: "dk_LocalRealizedPnL (fst sample_verdict) = 999999" "dk_Halted (fst sample_verdict)"
    "dk_Reason (fst sample_verdict) = ''pnl_divergence''" by code_simp+
  have "di_Ledger sample_day_input = ''live''" "di_ProviderRealizedPnL sample_day_input = Some (-2000000)"
    by (simp_all add: sample_day_input_def)
  then show ?thesis using breaker_verdict[OF sample_evaluation old] f by auto
qed

end
