(* ===== verification/Order_Store.thy ===== *)
theory Order_Store
  imports Exposure
begin

text \<open>
  \<^verbatim>\<open>kernel/internal/store/orders.go\<close> and the entitlement check of
  \<^verbatim>\<open>entitlements.go\<close>: how a broker's report on an order is applied to the ledger. The whole
  of \<open>applyOrderUpdate\<close> is modelled: identity, the reprice guard, the state machine, the
  entitlement check, the loop over the reported fills with its duplicate detection, the final
  quantity checks and the release of the reservation.

  \<open>now\<close> is the database clock and \<open>newID\<close> gives the identifier of the n-th fill of the report.
\<close>

record fill_input =
  fi_BrokerFillID :: string
  fi_Qty :: qty
  fi_Price :: micros
  fi_Fees :: micros
  fi_TS :: time

record order_update =
  ou_ExecutionAttemptID :: string
  ou_BrokerOrderID :: string
  ou_State :: string
  ou_FilledQty :: qty
  ou_Fills :: "fill_input list"

definition errRepriceManagedOrder :: go_error where
  "errRepriceManagedOrder = Sentinel ''order update is owned by reprice cancellation''"


section \<open>The entitlement of an attempt\<close>

definition isTerminalUnfilledOrderState :: "string \<Rightarrow> bool" where
  "isTerminalUnfilledOrderState state \<longleftrightarrow> state = ''cancelled'' \<or> state = ''rejected'' \<or> state = ''expired''"

definition isTerminalOrderStateForEntitlement :: "string \<Rightarrow> bool" where
  "isTerminalOrderStateForEntitlement state \<longleftrightarrow> state = ''filled'' \<or> isTerminalUnfilledOrderState state"

definition order_filled :: "db \<Rightarrow> string \<Rightarrow> qty" where
  "order_filled s orderID = total fl_Qty (filter (\<lambda>f. fl_OrderID f = orderID) (db_Fills s))"

definition attempt_filled :: "db \<Rightarrow> string \<Rightarrow> qty" where
  "attempt_filled s attemptID =
     sum_list (map (\<lambda>ord. order_filled s (o_ID ord))
       (filter (\<lambda>ord. o_ExecutionAttemptID ord = attemptID) (db_Orders s)))"

definition replacementOrderRemaining ::
  "db \<Rightarrow> execution_attempt \<Rightarrow> qty \<Rightarrow> string \<Rightarrow> qty result" where
  "replacementOrderRemaining s attempt orderQty reservationState =
     (if at_Seq attempt \<le> 1 \<or> reservationState \<noteq> ''held'' then Inr orderQty
      else (let durableFilled = attempt_filled s (at_ID attempt)
            in if durableFilled < 0 \<or> durableFilled > orderQty
               then Inl (integrity ''%w: replacement fills exceed its order quantity'')
               else Inr (wrap64 (orderQty - durableFilled))))"

definition quantity_mismatch ::
  "execution_attempt \<Rightarrow> string \<Rightarrow> qty \<Rightarrow> qty \<Rightarrow> qty \<Rightarrow> qty \<Rightarrow> bool" where
  "quantity_mismatch attempt expectedState originalQty remainingQty orderQty expectedRemaining \<longleftrightarrow>
     at_Seq attempt = 1 \<and> originalQty \<noteq> orderQty \<or>
     at_Seq attempt > 1 \<and> expectedState = ''held'' \<and> remainingQty \<noteq> expectedRemaining"

definition cancel_entitlement :: "db \<Rightarrow> execution_attempt \<Rightarrow> string \<Rightarrow> unit result" where
  "cancel_entitlement s attempt action =
     (if at_OpenReservationID attempt \<noteq> None \<or> at_CloseReservationID attempt \<noteq> None
      then Inl (integrity ''%w: cancel attempt has invalid execution entitlement'')
      else if action = ''cancel'' then Inr ()
      else if action \<noteq> ''open'' \<and> action \<noteq> ''close''
      then Inl (integrity ''%w: reprice cancel belongs to action %q'')
      else case find (\<lambda>ord. o_BrokerOrderID ord = at_TargetBrokerOrderID attempt) (db_Orders s) of
        None \<Rightarrow> Inl (integrity ''%w: reprice cancel target is not durable'')
      | Some ord \<Rightarrow>
          if o_OperationID ord \<noteq> at_OperationID attempt
          then Inl (integrity ''%w: reprice cancel target belongs to another operation'')
          else Inr ())"

definition open_entitlement :: "db \<Rightarrow> execution_attempt \<Rightarrow> order_row \<Rightarrow> unit result" where
  "open_entitlement s attempt ord =
     (case at_OpenReservationID attempt of
        None \<Rightarrow> Inl (integrity ''%w: open attempt lacks its exclusive reservation'')
      | Some rid \<Rightarrow>
          if at_CloseReservationID attempt \<noteq> None
          then Inl (integrity ''%w: open attempt lacks its exclusive reservation'')
          else case find (\<lambda>r. rs_ID r = rid) (db_OpenReservations s) of
            None \<Rightarrow> Inl (integrity ''%w: open attempt lacks its reservation or grant'')
          | Some r \<Rightarrow>
              (case find (\<lambda>g. tg_OperationID g = rs_OperationID r) (db_Grants s) of
                 None \<Rightarrow> Inl (integrity ''%w: open attempt lacks its reservation or grant'')
               | Some g \<Rightarrow>
                   (let expectedState = (if o_State ord = ''filled'' then ''converted''
                          else if isTerminalUnfilledOrderState (o_State ord) then ''released'' else ''held'')
                    in case replacementOrderRemaining s attempt (o_Qty ord) expectedState of
                         Inl e \<Rightarrow> Inl e
                       | Inr expectedRemaining \<Rightarrow>
                           if rs_OperationID r \<noteq> at_OperationID attempt \<or> rs_Ledger r \<noteq> o_Ledger ord \<or>
                              tg_Ledger g \<noteq> o_Ledger ord \<or> rs_ResourceState r \<noteq> expectedState \<or>
                              rs_Symbol r \<noteq> o_Symbol ord \<or> rs_Kind r \<noteq> o_Kind ord \<or>
                              o_Side ord \<noteq> ''buy'' \<or> o_Multiplier ord \<le> 0 \<or>
                              quantity_mismatch attempt expectedState (rs_OriginalQty r)
                                (rs_RemainingQty r) (o_Qty ord) expectedRemaining \<or>
                              rs_OriginalRisk r \<le> 0 \<or> rs_OriginalCash r \<le> 0 \<or>
                              tg_AuthorizedRisk g \<noteq> rs_OriginalRisk r \<or>
                              tg_RiskSource g \<noteq> ''computed'' \<or> rs_MarketDay r \<noteq> tg_MarketDay g \<or>
                              (expectedState = ''held'' \<and> rs_RemainingQty r \<le> 0)
                           then Inl (integrity ''%w: open attempt entitlement does not match its durable order'')
                           else Inr ())))"

definition close_entitlement :: "db \<Rightarrow> execution_attempt \<Rightarrow> string \<Rightarrow> order_row \<Rightarrow> unit result" where
  "close_entitlement s attempt operationSide ord =
     (case at_CloseReservationID attempt of
        None \<Rightarrow> Inl (integrity ''%w: close attempt lacks its exclusive reservation'')
      | Some cid \<Rightarrow>
          if at_OpenReservationID attempt \<noteq> None
          then Inl (integrity ''%w: close attempt lacks its exclusive reservation'')
          else case find (\<lambda>r. cr_ID r = cid) (db_CloseReservations s) of
            None \<Rightarrow> Inl (integrity ''%w: close attempt lacks its reservation'')
          | Some r \<Rightarrow>
              (let expectedState = (if isTerminalOrderStateForEntitlement (o_State ord) then ''released''
                                    else ''held'')
               in case replacementOrderRemaining s attempt (o_Qty ord) expectedState of
                    Inl e \<Rightarrow> Inl e
                  | Inr expectedRemaining \<Rightarrow>
                      if cr_OperationID r \<noteq> at_OperationID attempt \<or> cr_Ledger r \<noteq> o_Ledger ord \<or>
                         cr_State r \<noteq> expectedState \<or> cr_Symbol r \<noteq> o_Symbol ord \<or>
                         (o_Side ord \<noteq> ''sell'' \<and> o_Side ord \<noteq> ''buy'') \<or> o_Side ord \<noteq> operationSide \<or>
                         o_Kind ord = [] \<or> o_Multiplier ord \<le> 0 \<or>
                         quantity_mismatch attempt expectedState (cr_OriginalQty r)
                           (cr_RemainingQty r) (o_Qty ord) expectedRemaining \<or>
                         (expectedState = ''held'' \<and> cr_RemainingQty r \<le> 0)
                      then Inl (integrity ''%w: close attempt entitlement does not match its durable order'')
                      else Inr ()))"

definition validateM3AExecutionEntitlement :: "db \<Rightarrow> execution_attempt \<Rightarrow> unit result" where
  "validateM3AExecutionEntitlement s attempt =
     (if \<not> db_M3A s then Inr ()
      else case one_row (\<lambda>w. ow_ID w = at_OperationID attempt) (db_Operations s) of
        Inl e \<Rightarrow> Inl e
      | Inr w \<Rightarrow>
          if at_Intent attempt = ''cancel'' then cancel_entitlement s attempt (ow_Action w)
          else if at_Intent attempt \<noteq> ''place'' \<and> at_Intent attempt \<noteq> ''paper_place''
          then Inl (integrity ''%w: unsupported placement intent %q'')
          else case find (\<lambda>ord. o_ExecutionAttemptID ord = at_ID attempt) (db_Orders s) of
            None \<Rightarrow> Inl (integrity ''%w: placement attempt has no durable order'')
          | Some ord \<Rightarrow>
              if o_OperationID ord \<noteq> at_OperationID attempt
              then Inl (integrity ''%w: placement order belongs to another operation'')
              else if o_Qty ord \<noteq> at_Qty attempt \<or> o_Limit ord \<noteq> at_Limit attempt
              then Inl (integrity ''%w: placement order differs from its attempt'')
              else if (at_Intent attempt = ''paper_place'') \<noteq> (o_Ledger ord = ''shadow'')
              then Inl (integrity ''%w: placement intent does not match its ledger'')
              else if ow_Action w = ''open'' then open_entitlement s attempt ord
              else if ow_Action w = ''close'' then close_entitlement s attempt (ow_Side w) ord
              else Inl (integrity ''%w: placement attempt belongs to action %q''))"


section \<open>Applying a broker's report\<close>

definition operationStatusAfterFailedAttempt :: "db \<Rightarrow> string \<Rightarrow> string" where
  "operationStatusAfterFailedAttempt s operationID =
     (if operation_fills operationID s \<noteq> [] then ''executed'' else ''failed'')"

definition find_order :: "order_update \<Rightarrow> db \<Rightarrow> order_row result" where
  "find_order u s =
     (if ou_ExecutionAttemptID u \<noteq> []
      then one_row (\<lambda>ord. o_ExecutionAttemptID ord = ou_ExecutionAttemptID u) (db_Orders s)
      else one_row (\<lambda>ord. o_BrokerOrderID ord = ou_BrokerOrderID u) (db_Orders s))"

definition reprice_managed :: "order_row \<Rightarrow> db \<Rightarrow> bool" where
  "reprice_managed ord s \<longleftrightarrow>
     list_ex (\<lambda>a. at_OperationID a = o_OperationID ord \<and> at_Intent a = ''cancel'' \<and>
        at_TargetBrokerOrderID a = o_BrokerOrderID ord \<and>
        at_State a \<in> {''pending'', ''claimed'', ''unknown'', ''settled''}) (db_Attempts s)"

definition reserve_close_fill :: "time \<Rightarrow> string \<Rightarrow> qty \<Rightarrow> db \<Rightarrow> db result" where
  "reserve_close_fill now cid q s =
     (let cond = (\<lambda>r. cr_ID r = cid \<and> cr_State r = ''held'' \<and> cr_RemainingQty r \<ge> q)
      in if affected cond (db_CloseReservations s) \<noteq> 1
         then Inl (integrity ''%w: close fill exceeds held reservation'')
         else Inr (s\<lparr>db_CloseReservations := update_rows cond
           (\<lambda>r. r\<lparr>cr_RemainingQty := cr_RemainingQty r - q,
                 cr_State := (if cr_RemainingQty r = q then ''released'' else cr_State r),
                 cr_ReleasedAt := (if cr_RemainingQty r = q then Some now else cr_ReleasedAt r)\<rparr>)
           (db_CloseReservations s)\<rparr>))"

definition fill_row_of :: "string \<Rightarrow> order_row \<Rightarrow> fill_input \<Rightarrow> fill_row" where
  "fill_row_of fillID ord f = \<lparr>fl_ID = fillID, fl_OrderID = o_ID ord, fl_BrokerFillID = fi_BrokerFillID f,
     fl_Ledger = o_Ledger ord, fl_Qty = fi_Qty f, fl_Price = fi_Price f, fl_Fees = fi_Fees f, fl_TS = fi_TS f\<rparr>"

definition same_economics :: "fill_row \<Rightarrow> fill_row \<Rightarrow> bool" where
  "same_economics a b \<longleftrightarrow> fl_OrderID a = fl_OrderID b \<and> fl_Ledger a = fl_Ledger b \<and> fl_Qty a = fl_Qty b \<and>
     fl_Price a = fl_Price b \<and> fl_Fees a = fl_Fees b"

definition apply_new_fill ::
  "time \<Rightarrow> order_row \<Rightarrow> string option \<Rightarrow> string option \<Rightarrow> fill_row \<Rightarrow> db \<Rightarrow> db result" where
  "apply_new_fill now ord reservationID openReservationID row s =
     (let s = s\<lparr>db_Fills := db_Fills s @ [row]\<rparr>
      in case (case reservationID of None \<Rightarrow> Inr s | Some cid \<Rightarrow> reserve_close_fill now cid (fl_Qty row) s) of
           Inl e \<Rightarrow> Inl e
         | Inr s \<Rightarrow>
             applyExposureFill now ord row openReservationID
               (insert_event ''fill''
                  [(''order_id'', PText (o_ID ord)), (''broker_fill_id'', PText (fl_BrokerFillID row)),
                   (''qty'', PInt (fl_Qty row)), (''price_micros'', PInt (fl_Price row)),
                   (''ledger'', PText (o_Ledger ord))] s))"

text \<open>One reported fill: refused, already known, or applied.\<close>

definition apply_fill ::
  "time \<Rightarrow> order_row \<Rightarrow> string option \<Rightarrow> string option \<Rightarrow> string \<times> fill_input \<Rightarrow> db \<Rightarrow> db result" where
  "apply_fill now ord reservationID openReservationID idf s =
     (case idf of (fillID, f) \<Rightarrow>
       if fi_BrokerFillID f = [] \<or> fi_Qty f \<le> 0 \<or> fi_Price f \<le> 0 \<or> fi_Fees f < 0 \<or> fi_TS f = 0
       then Inl (integrity ''%w: invalid fill fields'')
       else
        (let row = fill_row_of fillID ord f
         in case find (\<lambda>x. fl_BrokerFillID x = fi_BrokerFillID f) (db_Fills s) of
              Some existing \<Rightarrow>
                if same_economics existing row then Inr s
                else Inl (integrity ''%w: broker fill id %s changed economics'')
            | None \<Rightarrow> apply_new_fill now ord reservationID openReservationID row s))"

definition release_close :: "time \<Rightarrow> string \<Rightarrow> db \<Rightarrow> db" where
  "release_close now cid s = s\<lparr>db_CloseReservations := update_rows (\<lambda>r. cr_ID r = cid \<and> cr_State r = ''held'')
     (\<lambda>r. r\<lparr>cr_State := ''released'', cr_RemainingQty := 0,
           cr_ReleasedAt := (case cr_ReleasedAt r of None \<Rightarrow> Some now | Some t \<Rightarrow> Some t)\<rparr>)
     (db_CloseReservations s)\<rparr>"

definition release_open :: "time \<Rightarrow> string \<Rightarrow> db \<Rightarrow> db" where
  "release_open now rid s = s\<lparr>db_OpenReservations := update_rows
     (\<lambda>r. rs_ID r = rid \<and> rs_ResourceState r = ''held'')
     (\<lambda>r. r\<lparr>rs_ResourceState := ''released'', rs_RemainingRisk := 0, rs_RemainingCash := 0,
           rs_SettledAt := (case rs_SettledAt r of None \<Rightarrow> Some now | Some t \<Rightarrow> Some t)\<rparr>)
     (db_OpenReservations s)\<rparr>"

definition settle_close :: "time \<Rightarrow> string \<Rightarrow> bool \<Rightarrow> string option \<Rightarrow> db \<Rightarrow> db result" where
  "settle_close now state preserveReservation reservationID s =
     (case reservationID of
        None \<Rightarrow> Inr s
      | Some cid \<Rightarrow>
          if isTerminalUnfilledOrderState state
          then Inr (if preserveReservation then s else release_close now cid s)
          else if state = ''filled''
          then (case one_row (\<lambda>r. cr_ID r = cid) (db_CloseReservations s) of
                  Inl e \<Rightarrow> Inl e
                | Inr r \<Rightarrow> if cr_RemainingQty r \<noteq> 0 \<or> cr_State r \<noteq> ''released''
                           then Inl (integrity ''%w: filled close is missing durable fills'')
                           else Inr s)
          else Inr s)"

definition settle_open :: "time \<Rightarrow> string \<Rightarrow> bool \<Rightarrow> string option \<Rightarrow> db \<Rightarrow> db result" where
  "settle_open now state preserveReservation openReservationID s =
     (case openReservationID of
        None \<Rightarrow> Inr s
      | Some rid \<Rightarrow>
          if isTerminalUnfilledOrderState state
          then Inr (if preserveReservation then s else release_open now rid s)
          else if state = ''filled''
          then (case one_row (\<lambda>r. rs_ID r = rid) (db_OpenReservations s) of
                  Inl e \<Rightarrow> Inl e
                | Inr r \<Rightarrow> if rs_ResourceState r \<noteq> ''converted''
                           then Inl (integrity ''%w: filled open is missing durable exposure'')
                           else Inr s)
          else Inr s)"

text \<open>The last statement: the order row follows the report.\<close>

definition write_order :: "time \<Rightarrow> order_update \<Rightarrow> order_row \<Rightarrow> db \<Rightarrow> order_row \<times> db" where
  "write_order now u ord s =
     (let brokerOrderID = (if ou_BrokerOrderID u \<noteq> [] then ou_BrokerOrderID u else o_BrokerOrderID ord);
          s = s\<lparr>db_Orders := update_rows (\<lambda>r. o_ID r = o_ID ord)
            (\<lambda>r. r\<lparr>o_BrokerOrderID := brokerOrderID, o_State := ou_State u, o_UpdatedAt := now,
                  o_WorkingSince := (if ou_State u = ''submitted'' \<or> ou_State u = ''partially_filled''
                    then (case o_WorkingSince r of None \<Rightarrow> Some now | Some t \<Rightarrow> Some t)
                    else o_WorkingSince r)\<rparr>) (db_Orders s)\<rparr>
      in (ord\<lparr>o_BrokerOrderID := brokerOrderID, o_State := ou_State u\<rparr>,
          insert_event ''order_update''
            [(''order_id'', PText (o_ID ord)), (''operation_id'', PText (o_OperationID ord)),
             (''broker_order_id'', PText brokerOrderID), (''state'', PText (ou_State u))] s))"

definition close_reservation_check :: "order_row \<Rightarrow> string option \<Rightarrow> db \<Rightarrow> unit result" where
  "close_reservation_check ord reservationID s =
     (case reservationID of
        None \<Rightarrow> Inr ()
      | Some cid \<Rightarrow>
          (case one_row (\<lambda>r. cr_ID r = cid) (db_CloseReservations s) of
             Inl e \<Rightarrow> Inl e
           | Inr r \<Rightarrow> if cr_Ledger r \<noteq> o_Ledger ord \<or> cr_Symbol r \<noteq> o_Symbol ord
                      then Inl (integrity ''%w: close reservation does not match order'')
                      else Inr ()))"

text \<open>From the accepted transition on: the fills, the sums, the reservations.\<close>

definition apply_report ::
  "time \<Rightarrow> (nat \<Rightarrow> string) \<Rightarrow> order_update \<Rightarrow> bool \<Rightarrow> order_row \<Rightarrow> execution_attempt \<Rightarrow> db \<Rightarrow> db result" where
  "apply_report now newID u preserveReservation ord attempt s =
     (case fold_res (apply_fill now ord (at_CloseReservationID attempt) (at_OpenReservationID attempt))
             (zip (map newID [0..<length (ou_Fills u)]) (ou_Fills u)) s of
        Inl e \<Rightarrow> Inl e
      | Inr s \<Rightarrow>
          if order_filled s (o_ID ord) \<noteq> ou_FilledQty u
          then Inl (integrity ''%w: broker filled quantity does not match durable fills'')
          else if ou_State u = ''filled'' \<and> ou_FilledQty u \<noteq> o_Qty ord
          then Inl (integrity ''%w: terminal fill quantity does not match order'')
          else case settle_close now (ou_State u) preserveReservation (at_CloseReservationID attempt) s of
            Inl e \<Rightarrow> Inl e
          | Inr s \<Rightarrow> settle_open now (ou_State u) preserveReservation (at_OpenReservationID attempt) s)"

definition applyOrderUpdate ::
  "time \<Rightarrow> (nat \<Rightarrow> string) \<Rightarrow> order_update \<Rightarrow> bool \<Rightarrow> db \<Rightarrow> (order_row \<times> db) result" where
  "applyOrderUpdate now newID u preserveReservation s =
     (if ou_ExecutionAttemptID u = [] \<and> ou_BrokerOrderID u = []
      then Inl (Errorf ''order update has no durable identity'' [])
      else case find_order u s of
        Inl e \<Rightarrow> Inl e
      | Inr ord \<Rightarrow>
          if o_BrokerOrderID ord \<noteq> [] \<and> ou_BrokerOrderID u \<noteq> [] \<and> o_BrokerOrderID ord \<noteq> ou_BrokerOrderID u
          then Inl (integrity ''%w: order broker id changed'')
          else if \<not> preserveReservation \<and> o_BrokerOrderID ord \<noteq> [] \<and> reprice_managed ord s
          then Inl errRepriceManagedOrder
          else case validateOrderTransition (o_State ord) (ou_State u) of
            Inl e \<Rightarrow> Inl e
          | Inr _ \<Rightarrow>
              (case one_row (\<lambda>a. at_ID a = o_ExecutionAttemptID ord) (db_Attempts s) of
                 Inl e \<Rightarrow> Inl e
               | Inr attempt \<Rightarrow>
                   (case close_reservation_check ord (at_CloseReservationID attempt) s of
                      Inl e \<Rightarrow> Inl e
                    | Inr _ \<Rightarrow>
                        (case validateM3AExecutionEntitlement s attempt of
                           Inl e \<Rightarrow> Inl e
                         | Inr _ \<Rightarrow>
                             (case apply_report now newID u preserveReservation ord attempt s of
                                Inl e \<Rightarrow> Inl e
                              | Inr s \<Rightarrow> Inr (write_order now u ord s))))))"

definition set_operation_status :: "string \<Rightarrow> string \<Rightarrow> db \<Rightarrow> db" where
  "set_operation_status operationID status s = s\<lparr>db_Operations :=
     update_rows (\<lambda>w. ow_ID w = operationID) (\<lambda>w. w\<lparr>ow_Status := status\<rparr>) (db_Operations s)\<rparr>"

section \<open>What a fill leaves alone\<close>

text \<open>The tables no fill writes.\<close>

definition fill_frame :: "db \<Rightarrow> db \<Rightarrow> bool" where
  "fill_frame s s' \<longleftrightarrow> db_M3A s' = db_M3A s \<and> db_Operations s' = db_Operations s \<and>
     db_Attempts s' = db_Attempts s \<and> db_Grants s' = db_Grants s \<and> db_Orders s' = db_Orders s \<and>
     db_Episodes s' = db_Episodes s \<and> db_GateActive s' = db_GateActive s \<and> db_GateUnknown s' = db_GateUnknown s \<and>
     db_Bindings s' = db_Bindings s \<and> db_Manifests s' = db_Manifests s \<and>
     db_ExternalReductions s' = db_ExternalReductions s"

lemma fill_frame_refl [simp]: "fill_frame s s"
  by (simp add: fill_frame_def)

lemma fill_frame_trans: "fill_frame s t \<Longrightarrow> fill_frame t u \<Longrightarrow> fill_frame s u"
  by (simp add: fill_frame_def)

lemma open_fill_frame:
  assumes "applyOpenExposureFill now ord fill rid s = Inr s'"
  shows "fill_frame s s' \<and> db_Fills s' = db_Fills s \<and> db_CloseReservations s' = db_CloseReservations s \<and>
    db_Allocations s' = db_Allocations s \<and>
    (\<exists>cost. db_Lots s' = db_Lots s @ [open_fill_lot ord fill cost])"
proof -
  obtain cost ors ps a where "s' = s\<lparr>db_Lots := db_Lots s @ [open_fill_lot ord fill cost],
      db_OpenReservations := ors, db_ShadowPositions := ps, db_ShadowAccount := a\<rparr>"
    by (rule open_fill_cases[OF assms]) blast
  then show ?thesis by (auto simp: fill_frame_def)
qed

lemma close_lot_ids:
  "close_lot c ts q l = Inr (l', a) \<Longrightarrow> xl_OpenFillID l' = xl_OpenFillID l \<and> ca_OpenFillID a = xl_OpenFillID l"
  unfolding close_lot_def Let_def by (auto simp: case_sum_Inr_iff split: if_splits)

lemma close_lots_ids:
  "close_lots c ts fs q T A = Inr (T', A', m) \<Longrightarrow>
     map xl_OpenFillID T' = map xl_OpenFillID T \<and>
     ca_OpenFillID ` set A' \<subseteq> ca_OpenFillID ` set A \<union> xl_OpenFillID ` set fs"
proof (induction c ts fs q T A rule: close_lots.induct)
  case (2 c ts lot rest q T A)
  show ?case
  proof (cases "q = 0")
    case False
    then obtain l' a where l: "close_lot c ts q lot = Inr (l', a)"
      and r: "close_lots c ts rest (wrap64 (q - ca_Qty a))
            (update_rows (\<lambda>l. xl_OpenFillID l = xl_OpenFillID lot) (\<lambda>_. l') T) (A @ [a]) = Inr (T', A', m)"
      using "2.prems" by (auto simp: case_sum_Inr_iff)
    have "map xl_OpenFillID (update_rows (\<lambda>l. xl_OpenFillID l = xl_OpenFillID lot) (\<lambda>_. l') T) = map xl_OpenFillID T"
      using close_lot_ids[OF l] by (induction T) auto
    then show ?thesis using "2.IH"[OF False l refl r] close_lot_ids[OF l] by auto
  qed (use "2.prems" in auto)
qed auto

lemma close_fill_frame:
  assumes "applyCloseExposureFill ord fill s = Inr s'"
  shows "fill_frame s s' \<and> db_Fills s' = db_Fills s \<and> db_CloseReservations s' = db_CloseReservations s \<and>
    db_OpenReservations s' = db_OpenReservations s \<and>
    map xl_OpenFillID (db_Lots s') = map xl_OpenFillID (db_Lots s) \<and>
    ca_OpenFillID ` set (db_Allocations s') \<subseteq> ca_OpenFillID ` set (db_Allocations s) \<union> xl_OpenFillID ` set (db_Lots s)"
proof -
  obtain t lots allocs s1 where
    loop: "close_lots (fl_ID fill) (fl_TS fill) (fifo_lots ord (db_Lots s)) t (db_Lots s) (db_Allocations s)
      = Inr (lots, allocs, 0)"
    and ext: "external_part ord fill t (already_external (o_OperationID ord) s) (close_episode ord s)
      (s\<lparr>db_Lots := lots, db_Allocations := allocs\<rparr>) = Inr s1"
    and fin: "(if o_Ledger ord = ''shadow'' then applyShadowCloseFill ord fill s1 else Inr s1) = Inr s'"
    using assms unfolding applyCloseExposureFill_def Let_def
    by (auto simp: case_sum_Inr_iff split: if_splits)
  obtain xs evs where s1: "s1 = s\<lparr>db_Lots := lots, db_Allocations := allocs, db_ExternalAllocations := xs, db_Events := evs\<rparr>"
    using external_part_frame[OF ext] by auto
  have "\<exists>a ps. s' = s1\<lparr>db_ShadowPositions := ps, db_ShadowAccount := a\<rparr>"
    using fin shadow_close_frame[of ord fill s1 s']
    by (cases "o_Ledger ord = ''shadow''") (auto intro!: exI[of _ "db_ShadowAccount s1"] exI[of _ "db_ShadowPositions s1"])
  moreover have "xl_OpenFillID ` set (fifo_lots ord (db_Lots s)) \<subseteq> xl_OpenFillID ` set (db_Lots s)"
    by (auto simp: fifo_lots_set)
  then have "ca_OpenFillID ` set allocs \<subseteq> ca_OpenFillID ` set (db_Allocations s) \<union> xl_OpenFillID ` set (db_Lots s)"
    using close_lots_ids[OF loop] by blast
  ultimately show ?thesis using close_lots_ids[OF loop] by (elim exE) (simp add: s1 fill_frame_def)
qed

lemma exposure_fill_frame:
  assumes "applyExposureFill now ord fill rid s = Inr s'"
  shows "fill_frame s s'" "db_Fills s' = db_Fills s" "db_CloseReservations s' = db_CloseReservations s"
    "xl_OpenFillID ` set (db_Lots s') \<subseteq> insert (fl_ID fill) (xl_OpenFillID ` set (db_Lots s))"
    "ca_OpenFillID ` set (db_Allocations s') \<subseteq>
       ca_OpenFillID ` set (db_Allocations s) \<union> xl_OpenFillID ` set (db_Lots s)"
proof -
  consider r where "applyOpenExposureFill now ord fill r s = Inr s'" | "applyCloseExposureFill ord fill s = Inr s'"
    using assms unfolding applyExposureFill_def
    by (auto simp: case_sum_Inr_iff split: if_splits option.splits)
  then have "fill_frame s s' \<and> db_Fills s' = db_Fills s \<and> db_CloseReservations s' = db_CloseReservations s \<and>
    xl_OpenFillID ` set (db_Lots s') \<subseteq> insert (fl_ID fill) (xl_OpenFillID ` set (db_Lots s)) \<and>
    ca_OpenFillID ` set (db_Allocations s') \<subseteq>
       ca_OpenFillID ` set (db_Allocations s) \<union> xl_OpenFillID ` set (db_Lots s)"
  proof cases
    case 1
    then show ?thesis using open_fill_frame[OF 1] by (auto simp: open_fill_lot_def)
  next
    case 2
    note f = close_fill_frame[OF 2]
    have "xl_OpenFillID ` set (db_Lots s') = xl_OpenFillID ` set (db_Lots s)"
      using f by (metis list.set_map)
    then show ?thesis using f by auto
  qed
  then show "fill_frame s s'" "db_Fills s' = db_Fills s" "db_CloseReservations s' = db_CloseReservations s"
    "xl_OpenFillID ` set (db_Lots s') \<subseteq> insert (fl_ID fill) (xl_OpenFillID ` set (db_Lots s))"
    "ca_OpenFillID ` set (db_Allocations s') \<subseteq>
       ca_OpenFillID ` set (db_Allocations s) \<union> xl_OpenFillID ` set (db_Lots s)" by blast+
qed

lemma apply_new_fill_frame:
  assumes "apply_new_fill now ord cid rid row s = Inr s'"
  shows "fill_frame s s'" "db_Fills s' = db_Fills s @ [row]"
    "xl_OpenFillID ` set (db_Lots s') \<subseteq> insert (fl_ID row) (xl_OpenFillID ` set (db_Lots s))"
    "ca_OpenFillID ` set (db_Allocations s') \<subseteq>
       ca_OpenFillID ` set (db_Allocations s) \<union> xl_OpenFillID ` set (db_Lots s)"
proof -
  obtain s1 s2 where s1: "(case cid of None \<Rightarrow> Inr (s\<lparr>db_Fills := db_Fills s @ [row]\<rparr>)
        | Some c \<Rightarrow> reserve_close_fill now c (fl_Qty row) (s\<lparr>db_Fills := db_Fills s @ [row]\<rparr>)) = Inr s1"
    and run: "applyExposureFill now ord row rid s2 = Inr s'"
    and s2: "s2 = insert_event ''fill''
                  [(''order_id'', PText (o_ID ord)), (''broker_fill_id'', PText (fl_BrokerFillID row)),
                   (''qty'', PInt (fl_Qty row)), (''price_micros'', PInt (fl_Price row)),
                   (''ledger'', PText (o_Ledger ord))] s1"
    using assms unfolding apply_new_fill_def Let_def case_sum_Inr_iff by blast
  have s1': "\<exists>crs. s1 = s\<lparr>db_Fills := db_Fills s @ [row], db_CloseReservations := crs\<rparr>"
    using s1 by (intro exI[of _ "db_CloseReservations s1"])
      (auto simp: reserve_close_fill_def Let_def split: if_splits option.splits)
  note f = exposure_fill_frame[OF run]
  have eq: "fill_frame s s2" "db_Fills s2 = db_Fills s @ [row]" "db_Lots s2 = db_Lots s" "db_Allocations s2 = db_Allocations s"
    using s1' by (auto simp: s2 insert_event_def fill_frame_def)
  show "fill_frame s s'" by (rule fill_frame_trans[OF eq(1) f(1)])
  show "db_Fills s' = db_Fills s @ [row]"
    "xl_OpenFillID ` set (db_Lots s') \<subseteq> insert (fl_ID row) (xl_OpenFillID ` set (db_Lots s))"
    "ca_OpenFillID ` set (db_Allocations s') \<subseteq>
       ca_OpenFillID ` set (db_Allocations s) \<union> xl_OpenFillID ` set (db_Lots s)"
    using f(2,4,5) by (simp_all add: eq)
qed

section \<open>The ledger under a broker's report\<close>

definition store_ok :: "db \<Rightarrow> bool" where
  "store_ok s \<longleftrightarrow> ledger_ok s \<and> list_all reservation_ok (db_OpenReservations s)"

definition lot_refs :: "db \<Rightarrow> string set" where
  "lot_refs s = xl_OpenFillID ` set (db_Lots s) \<union> ca_OpenFillID ` set (db_Allocations s @ db_ExternalReductions s)"

lemma fresh_fill_refs: "fresh_fill i s \<longleftrightarrow> i \<notin> lot_refs s"
  by (auto simp: fresh_fill_def lot_refs_def)

lemma open_fill_reservations:
  assumes run: "applyOpenExposureFill now ord fill rid s = Inr s'"
    and rs: "list_all reservation_ok (db_OpenReservations s)" and q: "0 < fl_Qty fill"
  shows "list_all reservation_ok (db_OpenReservations s')"
proof -
  obtain cost r r' s1 where "o_Side ord = ''buy''" "fl_Price fill \<le> o_Limit ord"
    "0 < cost" "in_int64 cost" and r: "find (\<lambda>r. rs_ID r = rid) (db_OpenReservations s) = Some r"
    and g: "rs_ResourceState r = ''held''" "fl_Qty fill \<le> rs_RemainingQty r"
    and c: "consume_reservation now (fl_Qty fill) r = Inr r'"
    and s1: "s1 = s\<lparr>db_Lots := db_Lots s @ [open_fill_lot ord fill cost],
        db_OpenReservations := update_rows (\<lambda>x. rs_ID x = rid) (\<lambda>_. r') (db_OpenReservations s)\<rparr>"
    and fin: "s' = s1\<lparr>db_ShadowPositions := db_ShadowPositions s', db_ShadowAccount := db_ShadowAccount s'\<rparr>"
    by (rule open_fill_cases[OF run])
  have "db_OpenReservations s' = update_rows (\<lambda>x. rs_ID x = rid) (\<lambda>_. r') (db_OpenReservations s)"
    by (subst fin) (simp add: s1)
  moreover have "reservation_ok r" using rs r by (auto simp: list_all_iff dest: find_SomeD)
  then have "reservation_ok r'" using consume_reservation_ok[OF _ g(1) q g(2), of now] c by auto
  ultimately show ?thesis using rs by (auto simp: list_all_iff set_update_rows)
qed

lemma exposure_fill_ok:
  assumes "applyExposureFill now ord fill rid s = Inr s'" "store_ok s"
    and "0 < fl_Qty fill" "in_int64 (fl_Qty fill)" "fl_ID fill \<notin> lot_refs s"
  shows "store_ok s'"
proof -
  consider r where "applyOpenExposureFill now ord fill r s = Inr s'" | "applyCloseExposureFill ord fill s = Inr s'"
    using assms(1) unfolding applyExposureFill_def
    by (auto simp: case_sum_Inr_iff split: if_splits option.splits)
  then show ?thesis
  proof cases
    case 1
    then show ?thesis
      using open_fill_effect[OF 1 _ assms(3,4)] open_fill_reservations[OF 1 _ assms(3)] assms(2,5)
      by (auto simp: store_ok_def open_effect_def fresh_fill_refs)
  next
    case 2
    have lo: "ledger_ok s" using assms(2) by (simp add: store_ok_def)
    obtain t where "close_effect ord fill t s s'" using close_fill_effect[OF 2 lo assms(3,4)] by blast
    then show ?thesis using assms(2) by (simp add: store_ok_def close_effect_def)
  qed
qed

lemma ledger_ok_frame:
  assumes "db_Lots s' = db_Lots s" "db_Allocations s' = db_Allocations s" "db_Episodes s' = db_Episodes s"
    "db_OpenReservations s' = db_OpenReservations s" "db_ExternalReductions s' = db_ExternalReductions s"
  shows "store_ok s' = store_ok s" "lot_refs s' = lot_refs s"
  using assms by (simp_all add: store_ok_def ledger_ok_def lot_refs_def)

lemma apply_new_fill_ok:
  assumes run: "apply_new_fill now ord cid rid row s = Inr s'" and ok: "store_ok s"
    and q: "0 < fl_Qty row" "in_int64 (fl_Qty row)" "fl_ID row \<notin> lot_refs s"
  shows "store_ok s'"
proof -
  obtain s1 s2 where s1: "(case cid of None \<Rightarrow> Inr (s\<lparr>db_Fills := db_Fills s @ [row]\<rparr>)
        | Some c \<Rightarrow> reserve_close_fill now c (fl_Qty row) (s\<lparr>db_Fills := db_Fills s @ [row]\<rparr>)) = Inr s1"
    and run': "applyExposureFill now ord row rid s2 = Inr s'"
    and s2: "s2 = insert_event ''fill''
                  [(''order_id'', PText (o_ID ord)), (''broker_fill_id'', PText (fl_BrokerFillID row)),
                   (''qty'', PInt (fl_Qty row)), (''price_micros'', PInt (fl_Price row)),
                   (''ledger'', PText (o_Ledger ord))] s1"
    using run unfolding apply_new_fill_def Let_def case_sum_Inr_iff by blast
  have "db_Lots s2 = db_Lots s \<and> db_Allocations s2 = db_Allocations s \<and> db_Episodes s2 = db_Episodes s \<and>
    db_OpenReservations s2 = db_OpenReservations s \<and> db_ExternalReductions s2 = db_ExternalReductions s"
    using s1 by (auto simp: s2 insert_event_def reserve_close_fill_def Let_def split: if_splits option.splits)
  then have "store_ok s2 = store_ok s" "lot_refs s2 = lot_refs s" using ledger_ok_frame[of s2 s] by auto
  then show ?thesis using exposure_fill_ok[OF run'] ok q by simp
qed

text \<open>A fill the ledger knows: the row with its broker identifier has its economics.\<close>

definition recorded :: "order_row \<Rightarrow> fill_input \<Rightarrow> fill_row list \<Rightarrow> bool" where
  "recorded ord f fills \<longleftrightarrow>
     (case find (\<lambda>x. fl_BrokerFillID x = fi_BrokerFillID f) fills of
        None \<Rightarrow> False | Some x \<Rightarrow> same_economics x (fill_row_of [] ord f))"

definition fill_sane :: "fill_input \<Rightarrow> bool" where
  "fill_sane f \<longleftrightarrow> fi_BrokerFillID f \<noteq> [] \<and> 0 < fi_Qty f \<and> 0 < fi_Price f \<and> 0 \<le> fi_Fees f \<and> fi_TS f \<noteq> 0"

lemma same_economics_id: "same_economics x (fill_row_of i ord f) = same_economics x (fill_row_of j ord f)"
  by (simp add: same_economics_def fill_row_of_def)

lemma find_append_Some: "find P xs = Some x \<Longrightarrow> find P (xs @ ys) = Some x"
  by (induction xs) (auto split: if_splits)

lemma find_append_None: "find P xs = None \<Longrightarrow> find P (xs @ ys) = find P ys"
  by (induction xs) (auto split: if_splits)

lemma recorded_append: "recorded ord f fills \<Longrightarrow> recorded ord f (fills @ gs)"
  by (auto simp: recorded_def find_append_Some split: option.splits)

lemma apply_fill_cases:
  assumes "apply_fill now ord cid rid (i, f) s = Inr s'"
  shows "fill_sane f" "recorded ord f (db_Fills s) \<and> s' = s \<or>
    find (\<lambda>x. fl_BrokerFillID x = fi_BrokerFillID f) (db_Fills s) = None \<and>
    apply_new_fill now ord cid rid (fill_row_of i ord f) s = Inr s'"
proof -
  have g: "\<not> (fi_BrokerFillID f = [] \<or> fi_Qty f \<le> 0 \<or> fi_Price f \<le> 0 \<or> fi_Fees f < 0 \<or> fi_TS f = 0)"
    using assms unfolding apply_fill_def prod.case by (metis Inl_Inr_False)
  then show "fill_sane f" by (auto simp: fill_sane_def)
  show "recorded ord f (db_Fills s) \<and> s' = s \<or>
    find (\<lambda>x. fl_BrokerFillID x = fi_BrokerFillID f) (db_Fills s) = None \<and>
    apply_new_fill now ord cid rid (fill_row_of i ord f) s = Inr s'"
    using assms g same_economics_id[of _ i ord f "[]"]
    by (auto simp: apply_fill_def Let_def recorded_def split: option.splits if_splits)
qed

lemma apply_fill_known:
  assumes "fill_sane f" "recorded ord f (db_Fills s)"
  shows "apply_fill now ord cid rid (i, f) s = Inr s"
  using assms same_economics_id[of _ i ord f "[]"]
  by (auto simp: apply_fill_def Let_def recorded_def fill_sane_def split: option.splits)

definition fill_of :: "order_row \<Rightarrow> fill_row \<Rightarrow> bool" where
  "fill_of ord r \<longleftrightarrow> fl_OrderID r = o_ID ord \<and> 0 < fl_Qty r"

lemma apply_fill_step:
  assumes "apply_fill now ord cid rid (i, f) s = Inr s'"
  shows "fill_frame s s'" "\<exists>gs. db_Fills s' = db_Fills s @ gs \<and> list_all (fill_of ord) gs" "recorded ord f (db_Fills s')" "fill_sane f"
    "lot_refs s' \<subseteq> insert i (lot_refs s)"
    "store_ok s \<Longrightarrow> in_int64 (fi_Qty f) \<Longrightarrow> i \<notin> lot_refs s \<Longrightarrow> store_ok s'"
proof -
  note c = apply_fill_cases[OF assms]
  let ?r = "fill_row_of i ord f"
  have "fill_frame s s' \<and> (\<exists>gs. db_Fills s' = db_Fills s @ gs \<and> list_all (fill_of ord) gs) \<and> recorded ord f (db_Fills s') \<and>
    lot_refs s' \<subseteq> insert i (lot_refs s) \<and>
    (store_ok s \<longrightarrow> in_int64 (fi_Qty f) \<longrightarrow> i \<notin> lot_refs s \<longrightarrow> store_ok s')"
    using c(2)
  proof
    assume "recorded ord f (db_Fills s) \<and> s' = s"
    then show ?thesis by (auto intro: exI[of _ "[]"])
  next
    assume n: "find (\<lambda>x. fl_BrokerFillID x = fi_BrokerFillID f) (db_Fills s) = None \<and>
      apply_new_fill now ord cid rid ?r s = Inr s'"
    note f = apply_new_fill_frame[OF n[THEN conjunct2]]
    have "recorded ord f (db_Fills s')"
      using n f(2) same_economics_id[of ?r i ord f "[]"]
      by (simp add: recorded_def find_append_None fill_row_of_def same_economics_def)
    moreover have "lot_refs s' \<subseteq> insert i (lot_refs s)"
      using f(1,3,4) by (auto simp: lot_refs_def fill_row_of_def fill_frame_def)
    moreover have "store_ok s \<longrightarrow> in_int64 (fi_Qty f) \<longrightarrow> i \<notin> lot_refs s \<longrightarrow> store_ok s'"
      using apply_new_fill_ok[OF n[THEN conjunct2]] c(1) by (simp add: fill_row_of_def fill_sane_def)
    moreover have "list_all (fill_of ord) [?r]" using c(1) by (simp add: fill_of_def fill_row_of_def fill_sane_def)
    ultimately show ?thesis using f(1,2) by blast
  qed
  then show "fill_frame s s'" "\<exists>gs. db_Fills s' = db_Fills s @ gs \<and> list_all (fill_of ord) gs" "recorded ord f (db_Fills s')"
    "lot_refs s' \<subseteq> insert i (lot_refs s)"
    "store_ok s \<Longrightarrow> in_int64 (fi_Qty f) \<Longrightarrow> i \<notin> lot_refs s \<Longrightarrow> store_ok s'" by blast+
  show "fill_sane f" by (rule c(1))
qed

lemma apply_fills_ok:
  assumes "fold_res (apply_fill now ord cid rid) xs s = Inr s'"
  shows "fill_frame s s'" "\<exists>gs. db_Fills s' = db_Fills s @ gs \<and> list_all (fill_of ord) gs"
    "list_all (\<lambda>x. recorded ord (snd x) (db_Fills s') \<and> fill_sane (snd x)) xs"
    "store_ok s \<Longrightarrow> list_all (\<lambda>x. in_int64 (fi_Qty (snd x))) xs \<Longrightarrow> distinct (map fst xs) \<Longrightarrow>
       set (map fst xs) \<inter> lot_refs s = {} \<Longrightarrow> store_ok s'"
proof -
  have "fill_frame s s' \<and> (\<exists>gs. db_Fills s' = db_Fills s @ gs \<and> list_all (fill_of ord) gs) \<and>
    list_all (\<lambda>x. recorded ord (snd x) (db_Fills s') \<and> fill_sane (snd x)) xs \<and>
    (store_ok s \<longrightarrow> list_all (\<lambda>x. in_int64 (fi_Qty (snd x))) xs \<longrightarrow> distinct (map fst xs) \<longrightarrow>
       set (map fst xs) \<inter> lot_refs s = {} \<longrightarrow> store_ok s')"
    using assms
  proof (induction xs arbitrary: s)
    case Nil
    then show ?case by simp
  next
    case (Cons x xs)
    obtain i f where x: "x = (i, f)" by (cases x)
    obtain s1 where s1: "apply_fill now ord cid rid (i, f) s = Inr s1"
      and rest: "fold_res (apply_fill now ord cid rid) xs s1 = Inr s'"
      using Cons.prems by (auto simp: x case_sum_Inr_iff)
    note st = apply_fill_step[OF s1] and IH = Cons.IH[OF rest]
    have rec: "recorded ord f (db_Fills s')" using IH st(3) recorded_append by metis
    have app: "\<exists>gs. db_Fills s' = db_Fills s @ gs \<and> list_all (fill_of ord) gs"
      using IH st(2) by (metis append_assoc list_all_append)
    have ok: "store_ok s'" if "store_ok s" "list_all (\<lambda>x. in_int64 (fi_Qty (snd x))) (x # xs)"
      "distinct (map fst (x # xs))" "set (map fst (x # xs)) \<inter> lot_refs s = {}"
    proof -
      have "store_ok s1" using st(6) that by (simp add: x)
      moreover have "set (map fst xs) \<inter> lot_refs s1 = {}" using that st(5) by (auto simp: x)
      ultimately show ?thesis using IH that by simp
    qed
    show ?case using st(1,4) IH rec ok app fill_frame_trans by (simp add: x)
  qed
  then show "fill_frame s s'" "\<exists>gs. db_Fills s' = db_Fills s @ gs \<and> list_all (fill_of ord) gs"
    "list_all (\<lambda>x. recorded ord (snd x) (db_Fills s') \<and> fill_sane (snd x)) xs"
    "store_ok s \<Longrightarrow> list_all (\<lambda>x. in_int64 (fi_Qty (snd x))) xs \<Longrightarrow> distinct (map fst xs) \<Longrightarrow>
       set (map fst xs) \<inter> lot_refs s = {} \<Longrightarrow> store_ok s'" by blast+
qed

lemma apply_fills_known:
  assumes "list_all (\<lambda>x. recorded ord (snd x) (db_Fills s) \<and> fill_sane (snd x)) xs"
  shows "fold_res (apply_fill now ord cid rid) xs s = Inr s"
  using assms
proof (induction xs)
  case (Cons x xs)
  then show ?case by (cases x) (simp add: apply_fill_known)
qed simp

text \<open>Settling a reservation writes that table only, and keeps it well formed.\<close>

lemma settle_close_frame:
  assumes "settle_close now st p cid s = Inr s'"
  shows "s' = s\<lparr>db_CloseReservations := db_CloseReservations s'\<rparr>"
  using assms by (auto simp: settle_close_def release_close_def case_sum_Inr_iff split: option.splits if_splits)

lemma settle_open_frame:
  assumes "settle_open now st p rid s = Inr s'"
  shows "s' = s\<lparr>db_OpenReservations := db_OpenReservations s'\<rparr>"
  using assms by (auto simp: settle_open_def release_open_def case_sum_Inr_iff split: option.splits if_splits)

lemma settle_open_ok:
  assumes "settle_open now st p rid s = Inr s'" "list_all reservation_ok (db_OpenReservations s)"
  shows "list_all reservation_ok (db_OpenReservations s')"
proof -
  have "list_all reservation_ok (db_OpenReservations (release_open now r s))" for r
    using assms(2) by (auto simp: release_open_def list_all_iff set_update_rows reservation_ok_def)
  then show ?thesis using assms
    by (auto simp: settle_open_def case_sum_Inr_iff split: option.splits if_splits)
qed

lemma apply_report_cases:
  assumes "apply_report now newID u p ord attempt s = Inr s'"
  obtains s1 s2 where "fold_res (apply_fill now ord (at_CloseReservationID attempt) (at_OpenReservationID attempt))
      (zip (map newID [0..<length (ou_Fills u)]) (ou_Fills u)) s = Inr s1"
    "order_filled s1 (o_ID ord) = ou_FilledQty u" "ou_State u = ''filled'' \<longrightarrow> ou_FilledQty u = o_Qty ord"
    "settle_close now (ou_State u) p (at_CloseReservationID attempt) s1 = Inr s2"
    "settle_open now (ou_State u) p (at_OpenReservationID attempt) s2 = Inr s'"
  using assms unfolding apply_report_def by (auto simp: case_sum_Inr_iff split: if_splits)

lemma applyOrderUpdate_cases:
  assumes "applyOrderUpdate now newID u p s = Inr (ord', s')"
  obtains ord attempt s1 where "find_order u s = Inr ord"
    "\<not> (o_BrokerOrderID ord \<noteq> [] \<and> ou_BrokerOrderID u \<noteq> [] \<and> o_BrokerOrderID ord \<noteq> ou_BrokerOrderID u)"
    "ou_ExecutionAttemptID u \<noteq> [] \<or> ou_BrokerOrderID u \<noteq> []"
    "validateOrderTransition (o_State ord) (ou_State u) = Inr ()"
    "one_row (\<lambda>a. at_ID a = o_ExecutionAttemptID ord) (db_Attempts s) = Inr attempt"
    "apply_report now newID u p ord attempt s = Inr s1" "write_order now u ord s1 = (ord', s')"
proof -
  have id: "\<not> (ou_ExecutionAttemptID u = [] \<and> ou_BrokerOrderID u = [])"
    using assms unfolding applyOrderUpdate_def by (metis Inl_Inr_False)
  then obtain ord where o: "find_order u s = Inr ord"
    using assms unfolding applyOrderUpdate_def by (auto simp: case_sum_Inr_iff split: if_splits)
  obtain R where R: "R = (\<not> p \<and> o_BrokerOrderID ord \<noteq> [] \<and> reprice_managed ord s)" by blast
  have "\<not> (o_BrokerOrderID ord \<noteq> [] \<and> ou_BrokerOrderID u \<noteq> [] \<and> o_BrokerOrderID ord \<noteq> ou_BrokerOrderID u)"
    and "\<exists>attempt s1. validateOrderTransition (o_State ord) (ou_State u) = Inr () \<and>
      one_row (\<lambda>a. at_ID a = o_ExecutionAttemptID ord) (db_Attempts s) = Inr attempt \<and>
      apply_report now newID u p ord attempt s = Inr s1 \<and> write_order now u ord s1 = (ord', s')"
    using assms id o unfolding applyOrderUpdate_def R [symmetric]
    by (auto simp: case_sum_Inr_iff R [symmetric] split: if_splits)
  then show ?thesis using that o id by blast
qed

lemma write_order_frame:
  assumes "write_order now u ord s = (ord', s')"
  shows "s' = s\<lparr>db_Orders := db_Orders s', db_Events := db_Events s'\<rparr>"
    "db_Orders s' = update_rows (\<lambda>r. o_ID r = o_ID ord)
       (\<lambda>r. r\<lparr>o_BrokerOrderID := (if ou_BrokerOrderID u \<noteq> [] then ou_BrokerOrderID u else o_BrokerOrderID ord),
             o_State := ou_State u, o_UpdatedAt := now,
             o_WorkingSince := (if ou_State u = ''submitted'' \<or> ou_State u = ''partially_filled''
                then (case o_WorkingSince r of None \<Rightarrow> Some now | Some t \<Rightarrow> Some t) else o_WorkingSince r)\<rparr>)
       (db_Orders s)"
    "ord' = ord\<lparr>o_BrokerOrderID := (if ou_BrokerOrderID u \<noteq> [] then ou_BrokerOrderID u else o_BrokerOrderID ord),
       o_State := ou_State u\<rparr>"
  using assms by (auto simp: write_order_def Let_def insert_event_def)

text \<open>The identifiers the Kernel draws for the fills of a report are new to the ledger.\<close>

definition fresh_ids :: "(nat \<Rightarrow> string) \<Rightarrow> nat \<Rightarrow> db \<Rightarrow> bool" where
  "fresh_ids newID n s \<longleftrightarrow> distinct (map newID [0..<n]) \<and>
     list_all (\<lambda>i. i \<notin> set (map xl_OpenFillID (db_Lots s) @ map ca_OpenFillID (db_Allocations s @ db_ExternalReductions s))) (map newID [0..<n])"

lemma fresh_ids_refs:
  "fresh_ids newID n s \<longleftrightarrow> distinct (map newID [0..<n]) \<and> set (map newID [0..<n]) \<inter> lot_refs s = {}"
  by (auto simp: fresh_ids_def lot_refs_def list_all_iff)

lemma map_snd_zip_ids: "length (ou_Fills u) = n \<Longrightarrow> map fst (zip (map newID [0..<n]) (ou_Fills u)) = map newID [0..<n]"
  by simp

lemma list_all_zip_snd: "list_all P ys \<Longrightarrow> list_all (\<lambda>x. P (snd x)) (zip xs ys)"
  by (auto simp: list_all_iff dest: set_zip_rightD)

lemma apply_report_ok:
  assumes run: "apply_report now newID u p ord attempt s = Inr s'"
    and ok: "store_ok s" "list_all (\<lambda>f. in_int64 (fi_Qty f)) (ou_Fills u)"
      "fresh_ids newID (length (ou_Fills u)) s"
  shows "store_ok s'"
proof -
  let ?xs = "zip (map newID [0..<length (ou_Fills u)]) (ou_Fills u)"
  obtain s1 s2 where f: "fold_res (apply_fill now ord (at_CloseReservationID attempt) (at_OpenReservationID attempt)) ?xs s = Inr s1"
    and c: "settle_close now (ou_State u) p (at_CloseReservationID attempt) s1 = Inr s2"
    and o: "settle_open now (ou_State u) p (at_OpenReservationID attempt) s2 = Inr s'"
    by (rule apply_report_cases[OF run])
  have "store_ok s1"
    using apply_fills_ok(4)[OF f ok(1) list_all_zip_snd[OF ok(2)]] ok(3) by (simp add: fresh_ids_refs)
  moreover have "db_Lots s2 = db_Lots s1" "db_Allocations s2 = db_Allocations s1" "db_Episodes s2 = db_Episodes s1"
    "db_OpenReservations s2 = db_OpenReservations s1" "db_ExternalReductions s2 = db_ExternalReductions s1"
    by (subst settle_close_frame[OF c], simp)+
  ultimately have ok2: "store_ok s2" using ledger_ok_frame(1)[of s2 s1] by simp
  have "db_Lots s' = db_Lots s2" "db_Allocations s' = db_Allocations s2" "db_Episodes s' = db_Episodes s2"
    "db_ExternalReductions s' = db_ExternalReductions s2"
    by (subst settle_open_frame[OF o], simp)+
  then show ?thesis using ok2 settle_open_ok[OF o] by (simp add: store_ok_def ledger_ok_def)
qed

text \<open>C13: a broker's report keeps the ledger exact. Applied to a ledger whose lots are fully accounted for and
  whose reservations hold their exact share, any report that is accepted, with any number of new
  and repeated fills, opens and closes, leaves the ledger so.\<close>

theorem report_keeps_ledger:
  assumes "applyOrderUpdate now newID u p s = Inr (ord', s')" "store_ok s"
    and "list_all (\<lambda>f. in_int64 (fi_Qty f)) (ou_Fills u)" "fresh_ids newID (length (ou_Fills u)) s"
  shows "store_ok s'"
proof -
  obtain ord attempt s1 where r: "apply_report now newID u p ord attempt s = Inr s1"
    and w: "write_order now u ord s1 = (ord', s')"
    by (rule applyOrderUpdate_cases[OF assms(1)])
  have "db_Lots s' = db_Lots s1" "db_Allocations s' = db_Allocations s1" "db_Episodes s' = db_Episodes s1"
    "db_OpenReservations s' = db_OpenReservations s1" "db_ExternalReductions s' = db_ExternalReductions s1"
    by (subst write_order_frame(1)[OF w], simp)+
  then show ?thesis using ledger_ok_frame(1)[of s' s1] apply_report_ok[OF r assms(2-4)] by simp
qed

definition sample_attempt :: execution_attempt where
  "sample_attempt = \<lparr>at_ID = ''a1'', at_OperationID = ''op1'', at_Seq = 1, at_CloseReservationID = None,
     at_OpenReservationID = Some ''r1'', at_Intent = ''place'', at_ClientOrderID = ''c1'',
     at_TargetBrokerOrderID = [], at_State = ''placed'', at_BrokerOrderID = [], at_Qty = 3000000,
     at_Limit = 100000000, at_Attempt = 1, at_ClaimedBy = ''k1'', at_CreatedAt = 1, at_ClaimedAt = 2,
     at_ResolvedAt = 0, at_LastError = [], at_IntentFingerprint = None, at_ProviderAccountID = None,
     at_ProviderIntent = None, at_SentAt = None, at_SendWindowStart = None, at_SendWindowEnd = None,
     at_ReplayCount = 0, at_ProviderErrorCode = [], at_CandidateBrokerOrderID = [],
     at_CandidateObservedAt = None, at_KernelPolicyRevisionID = 1, at_KernelPolicyGeneration = 1,
     at_KernelPolicyDigest = [], at_AuthorizationExpiresAt = 9, at_MaxReprices = 3,
     at_RepriceIntervalSec = 30, at_QuoteMaxAgeSec = 60, at_LeaseExpiresAt = 8\<rparr>"

definition sample_grant :: trade_grant where
  "sample_grant = \<lparr>tg_OperationID = ''op1'', tg_Ledger = ''live'', tg_MarketDay = 0,
     tg_AuthorizedRisk = 300000001, tg_RiskSource = ''computed'', tg_LiveCanaryRevisionID = 0, tg_GrantedAt = 0,
     tg_KernelPolicyRevisionID = 1, tg_KernelPolicyGeneration = 1, tg_KernelPolicyDigest = []\<rparr>"

definition sample_store :: db where
  "sample_store = sample_db\<lparr>db_M3A := True,
     db_Operations := [sample_operation\<lparr>ow_Action := ''open'', ow_Side := ''buy'', ow_ApprovedPriceCap := 100000000\<rparr>],
     db_Attempts := [sample_attempt], db_Grants := [sample_grant],
     db_Orders := [sample_order\<lparr>o_Side := ''buy''\<rparr>]\<rparr>"

definition sample_report :: order_update where
  "sample_report = \<lparr>ou_ExecutionAttemptID = ''a1'', ou_BrokerOrderID = ''b1'', ou_State = ''partially_filled'',
     ou_FilledQty = 2000000, ou_Fills =
       [\<lparr>fi_BrokerFillID = ''x1'', fi_Qty = 500000, fi_Price = 99000000, fi_Fees = 10, fi_TS = 31\<rparr>,
        \<lparr>fi_BrokerFillID = ''x2'', fi_Qty = 1500000, fi_Price = 100000000, fi_Fees = 0, fi_TS = 32\<rparr>,
        \<lparr>fi_BrokerFillID = ''x1'', fi_Qty = 500000, fi_Price = 99000000, fi_Fees = 10, fi_TS = 31\<rparr>]\<rparr>"

definition sample_ids :: "nat \<Rightarrow> string" where
  "sample_ids n = ''n'' @ replicate n CHR ''x''"

lemma sample_report_applies:
  "\<exists>ord' s'. applyOrderUpdate 50 sample_ids sample_report False sample_store = Inr (ord', s')"
proof -
  have "is_ok (applyOrderUpdate 50 sample_ids sample_report False sample_store)" by code_simp
  then show ?thesis by (auto simp: is_ok_iff)
qed

theorem report_keeps_ledger_witness:
  "\<exists>ord' s'. applyOrderUpdate 50 sample_ids sample_report False sample_store = Inr (ord', s') \<and> store_ok s'"
proof -
  obtain ord' s' where r: "applyOrderUpdate 50 sample_ids sample_report False sample_store = Inr (ord', s')"
    using sample_report_applies by blast
  have "store_ok sample_store" "list_all (\<lambda>f. in_int64 (fi_Qty f)) (ou_Fills sample_report)"
    "fresh_ids sample_ids (length (ou_Fills sample_report)) sample_store" by code_simp+
  then show ?thesis using report_keeps_ledger[OF r] r by blast
qed

text \<open>What an accepted report has done to the orders and fills.\<close>

definition report_outcome :: "order_update \<Rightarrow> order_row \<Rightarrow> db \<Rightarrow> db \<Rightarrow> bool" where
  "report_outcome u ord s s' \<longleftrightarrow>
     (o_State ord = ou_State u \<or> order_change (o_State ord) (ou_State u)) \<and>
     order_filled s' (o_ID ord) = ou_FilledQty u \<and> order_filled s (o_ID ord) \<le> ou_FilledQty u \<and>
     (ou_State u \<noteq> ''filled'' \<or> ou_FilledQty u = o_Qty ord) \<and>
     (\<exists>gs. db_Fills s' = db_Fills s @ gs \<and> list_all (fill_of ord) gs) \<and>
     map o_ID (db_Orders s') = map o_ID (db_Orders s) \<and>
     (\<forall>r \<in> set (db_Orders s'). if o_ID r = o_ID ord then o_State r = ou_State u else r \<in> set (db_Orders s)) \<and>
     db_Attempts s' = db_Attempts s \<and> db_GateActive s' = db_GateActive s \<and> db_GateUnknown s' = db_GateUnknown s"

lemma order_filled_append:
  assumes "db_Fills s' = db_Fills s @ gs" "list_all (fill_of ord) gs"
  shows "order_filled s (o_ID ord) \<le> order_filled s' (o_ID ord)"
    "i \<noteq> o_ID ord \<Longrightarrow> order_filled s' i = order_filled s i"
proof -
  have "0 \<le> total fl_Qty (filter (\<lambda>f. fl_OrderID f = o_ID ord) gs)"
    using assms(2) by (intro total_nonneg) (auto simp: list_all_iff fill_of_def)
  then show "order_filled s (o_ID ord) \<le> order_filled s' (o_ID ord)"
    using assms(1) by (simp add: order_filled_def)
  show "order_filled s' i = order_filled s i" if "i \<noteq> o_ID ord"
  proof -
    have "filter (\<lambda>f. fl_OrderID f = i) gs = []"
      using assms(2) that by (auto simp: filter_empty_conv list_all_iff fill_of_def)
    then show ?thesis using assms(1) by (simp add: order_filled_def)
  qed
qed

lemma apply_report_fills:
  assumes "apply_report now newID u p ord attempt s = Inr s'"
  shows "order_filled s' (o_ID ord) = ou_FilledQty u" "ou_State u = ''filled'' \<Longrightarrow> ou_FilledQty u = o_Qty ord"
    "\<exists>gs. db_Fills s' = db_Fills s @ gs \<and> list_all (fill_of ord) gs" "fill_frame s s'"
    "list_all (\<lambda>f. recorded ord f (db_Fills s') \<and> fill_sane f) (ou_Fills u)"
proof -
  let ?xs = "zip (map newID [0..<length (ou_Fills u)]) (ou_Fills u)"
  obtain s1 s2 where f: "fold_res (apply_fill now ord (at_CloseReservationID attempt) (at_OpenReservationID attempt)) ?xs s = Inr s1"
    and t: "order_filled s1 (o_ID ord) = ou_FilledQty u" "ou_State u = ''filled'' \<longrightarrow> ou_FilledQty u = o_Qty ord"
    and c: "settle_close now (ou_State u) p (at_CloseReservationID attempt) s1 = Inr s2"
    and o: "settle_open now (ou_State u) p (at_OpenReservationID attempt) s2 = Inr s'"
    by (rule apply_report_cases[OF assms])
  have s2: "db_Fills s2 = db_Fills s1" "fill_frame s1 s2"
    by (subst settle_close_frame[OF c], simp add: fill_frame_def)+
  have s': "db_Fills s' = db_Fills s2" "fill_frame s2 s'"
    by (subst settle_open_frame[OF o], simp add: fill_frame_def)+
  note a = apply_fills_ok[OF f]
  show "order_filled s' (o_ID ord) = ou_FilledQty u" using t(1) s2(1) s'(1) by (simp add: order_filled_def)
  show "ou_State u = ''filled'' \<Longrightarrow> ou_FilledQty u = o_Qty ord" using t(2) by blast
  show "\<exists>gs. db_Fills s' = db_Fills s @ gs \<and> list_all (fill_of ord) gs" using a(2) s2(1) s'(1) by simp
  show "fill_frame s s'" using a(1) s2(2) s'(2) fill_frame_trans by blast
  have "list_all (\<lambda>x. recorded ord (snd x) (db_Fills s') \<and> fill_sane (snd x)) ?xs"
    using a(3) s2(1) s'(1) by simp
  then have "list_all (\<lambda>f. recorded ord f (db_Fills s') \<and> fill_sane f) (map snd ?xs)"
    by (simp only: list.pred_map comp_def)
  then show "list_all (\<lambda>f. recorded ord f (db_Fills s') \<and> fill_sane f) (ou_Fills u)" by simp
qed

text \<open>C17: an accepted report is the truth about its order. The order moves along the state machine (or stays), its
  durable fills add up to exactly the quantity the broker reports, which for a filled order is the
  order's quantity and never less than what was recorded before; fills are only ever appended, all
  of them to this order; and no other order, no attempt and no execution gate is touched.\<close>

theorem report_outcome_holds:
  assumes "applyOrderUpdate now newID u p s = Inr (ord', s')"
  shows "\<exists>ord. find_order u s = Inr ord \<and> o_ID ord' = o_ID ord \<and> o_State ord' = ou_State u \<and>
    report_outcome u ord s s'"
proof -
  obtain ord attempt s1 where o: "find_order u s = Inr ord" and v: "validateOrderTransition (o_State ord) (ou_State u) = Inr ()"
    and r: "apply_report now newID u p ord attempt s = Inr s1"
    and w: "write_order now u ord s1 = (ord', s')"
    by (rule applyOrderUpdate_cases[OF assms])
  note a = apply_report_fills[OF r] and wf = write_order_frame[OF w]
  have eq: "db_Fills s' = db_Fills s1" "db_Attempts s' = db_Attempts s1" "db_GateActive s' = db_GateActive s1"
    "db_GateUnknown s' = db_GateUnknown s1"
    by (subst wf(1), simp)+
  have orders: "db_Orders s1 = db_Orders s" using a(4) by (simp add: fill_frame_def)
  have st: "o_State ord = ou_State u \<or> order_change (o_State ord) (ou_State u)"
    using v by (auto simp: order_change_def)
  have fq: "order_filled s' (o_ID ord) = ou_FilledQty u"
    using a(1) by (simp add: order_filled_def eq(1))
  have mono: "order_filled s (o_ID ord) \<le> ou_FilledQty u"
    using a(3) order_filled_append(1)[of s1 s _ ord] a(1) by auto
  have rows: "map o_ID (db_Orders s') = map o_ID (db_Orders s)"
    unfolding wf(2) orders by (rule map_update_rows) simp
  have each: "\<forall>r \<in> set (db_Orders s'). if o_ID r = o_ID ord then o_State r = ou_State u else r \<in> set (db_Orders s)"
    unfolding wf(2) orders set_update_rows by auto
  have "report_outcome u ord s s'"
    using st fq mono a(2-4) rows each eq unfolding report_outcome_def fill_frame_def by auto
  then show ?thesis using o wf(3) by auto
qed

theorem report_outcome_holds_witness:
  "\<exists>ord' s' ord. applyOrderUpdate 50 sample_ids sample_report False sample_store = Inr (ord', s') \<and>
    find_order sample_report sample_store = Inr ord \<and> report_outcome sample_report ord sample_store s'"
proof -
  obtain ord' s' where r: "applyOrderUpdate 50 sample_ids sample_report False sample_store = Inr (ord', s')"
    using sample_report_applies by blast
  then show ?thesis using report_outcome_holds[OF r] by blast
qed

section \<open>Repeated reports\<close>

text \<open>Everything a report can move: fills, lots, allocations, reservations and the paper account.\<close>

definition money_state where
  "money_state s = (db_Fills s, db_Lots s, db_Allocations s, db_ExternalAllocations s,
     db_OpenReservations s, db_CloseReservations s, db_ShadowAccount s, db_ShadowPositions s)"

definition apply_or_keep :: "time \<Rightarrow> (nat \<Rightarrow> string) \<Rightarrow> order_update \<Rightarrow> bool \<Rightarrow> db \<Rightarrow> db" where
  "apply_or_keep now newID u p s =
     (case applyOrderUpdate now newID u p s of Inl _ \<Rightarrow> s | Inr (_, s') \<Rightarrow> s')"

lemma updated_rows_settle:
  "(\<And>r. c r \<Longrightarrow> \<not> c (f r)) \<Longrightarrow> update_rows c g (update_rows c f rows) = update_rows c f rows"
  by (induction rows) auto

lemma released_close_again:
  assumes "db_CloseReservations t = db_CloseReservations (release_close now c s)"
  shows "release_close now' c t = t"
proof -
  have "update_rows (\<lambda>r. cr_ID r = c \<and> cr_State r = ''held'') g (db_CloseReservations t) = db_CloseReservations t" for g
    unfolding assms by (simp add: release_close_def updated_rows_settle)
  then show ?thesis by (simp add: release_close_def)
qed

lemma released_open_again:
  assumes "db_OpenReservations t = db_OpenReservations (release_open now c s)"
  shows "release_open now' c t = t"
proof -
  have "update_rows (\<lambda>r. rs_ID r = c \<and> rs_ResourceState r = ''held'') g (db_OpenReservations t) = db_OpenReservations t" for g
    unfolding assms by (simp add: release_open_def updated_rows_settle)
  then show ?thesis by (simp add: release_open_def)
qed

lemma settle_close_unchanged:
  "\<lbrakk>\<not> isTerminalUnfilledOrderState st; settle_close now st p cid t = Inr t'\<rbrakk> \<Longrightarrow> t' = t"
  by (cases cid; cases "st = ''filled''")
     (auto simp: settle_close_def isTerminalUnfilledOrderState_def case_sum_Inr_iff split: if_split_asm)

lemma settle_open_unchanged:
  "\<lbrakk>\<not> isTerminalUnfilledOrderState st; settle_open now st p cid t = Inr t'\<rbrakk> \<Longrightarrow> t' = t"
  by (cases cid; cases "st = ''filled''")
     (auto simp: settle_open_def isTerminalUnfilledOrderState_def case_sum_Inr_iff split: if_split_asm)

lemma settle_close_twice:
  assumes "settle_close now st p cid s = Inr s1" "db_CloseReservations t = db_CloseReservations s1"
    and "settle_close now' st p cid t = Inr t'"
  shows "t' = t"
proof (cases "isTerminalUnfilledOrderState st")
  case True
  show ?thesis
  proof (cases cid)
    case (Some c)
    then show ?thesis using assms True released_close_again[of t now c s now']
      by (cases p) (simp_all add: settle_close_def)
  qed (use assms(3) in \<open>simp add: settle_close_def\<close>)
qed (use assms(3) settle_close_unchanged in blast)

lemma settle_open_twice:
  assumes "settle_open now st p rid s = Inr s1" "db_OpenReservations t = db_OpenReservations s1"
    and "settle_open now' st p rid t = Inr t'"
  shows "t' = t"
proof (cases "isTerminalUnfilledOrderState st")
  case True
  show ?thesis
  proof (cases rid)
    case (Some c)
    then show ?thesis using assms True released_open_again[of t now c s now']
      by (cases p) (simp_all add: settle_open_def)
  qed (use assms(3) in \<open>simp add: settle_open_def\<close>)
qed (use assms(3) settle_open_unchanged in blast)

text \<open>The order found again after the report is the same order with its two columns updated.\<close>

lemma find_update_rows:
  "(\<And>r. r \<in> set rows \<Longrightarrow> c r \<Longrightarrow> P (f r) = P r) \<Longrightarrow>
     find P (update_rows c f rows) = map_option (\<lambda>r. if c r then f r else r) (find P rows)"
  by (induction rows) auto

lemma find_order_again:
  assumes o: "find_order u s = Inr ord" "distinct (map o_ID (db_Orders s))"
    and id: "ou_ExecutionAttemptID u \<noteq> [] \<or> ou_BrokerOrderID u \<noteq> []"
    and t: "db_Orders t = db_Orders s" "write_order now u ord t = (ord', s')"
  shows "\<exists>r. find_order u s' = Inr r \<and> o_ID r = o_ID ord \<and> o_Ledger r = o_Ledger ord \<and>
    o_ExecutionAttemptID r = o_ExecutionAttemptID ord"
proof -
  obtain f :: "order_row \<Rightarrow> order_row" where f: "f = (\<lambda>r. r\<lparr>o_BrokerOrderID := (if ou_BrokerOrderID u \<noteq> [] then ou_BrokerOrderID u else o_BrokerOrderID ord),
             o_State := ou_State u, o_UpdatedAt := now,
             o_WorkingSince := (if ou_State u = ''submitted'' \<or> ou_State u = ''partially_filled''
                then (case o_WorkingSince r of None \<Rightarrow> Some now | Some t \<Rightarrow> Some t) else o_WorkingSince r)\<rparr>)"
    by blast
  have rows: "db_Orders s' = update_rows (\<lambda>r. o_ID r = o_ID ord) f (db_Orders s)"
    using write_order_frame(2)[OF t(2)] by (simp add: f t(1))
  have keep: "o_ID (f r) = o_ID r" "o_Ledger (f r) = o_Ledger r" "o_ExecutionAttemptID (f r) = o_ExecutionAttemptID r" for r
    by (simp_all add: f)
  let ?P = "\<lambda>r. if ou_ExecutionAttemptID u \<noteq> [] then o_ExecutionAttemptID r = ou_ExecutionAttemptID u
    else o_BrokerOrderID r = ou_BrokerOrderID u"
  have fo: "find_order u x = one_row ?P (db_Orders x)" for x by (simp add: find_order_def)
  have ord: "find ?P (db_Orders s) = Some ord" using o(1) by (simp only: fo one_row_ok)
  then have mem: "ord \<in> set (db_Orders s)" "?P ord" by (auto dest: find_SomeD)
  have "?P (f r) = ?P r" if r: "r \<in> set (db_Orders s)" "o_ID r = o_ID ord" for r
  proof -
    have "r = ord" using r mem(1) o(2) by (auto simp: distinct_map inj_on_def)
    then show ?thesis using mem(2) id by (cases "ou_ExecutionAttemptID u = []") (simp_all add: f)
  qed
  then have "find ?P (db_Orders s') = map_option (\<lambda>r. if o_ID r = o_ID ord then f r else r) (find ?P (db_Orders s))"
    unfolding rows by (rule find_update_rows)
  then have "find_order u s' = Inr (f ord)" unfolding fo one_row_ok using ord by simp
  then show ?thesis using keep by blast
qed

lemma repeated_report:
  assumes first: "applyOrderUpdate now newID u p s = Inr (ord', s')" and d: "distinct (map o_ID (db_Orders s))"
  shows "money_state (apply_or_keep now' newID' u p s') = money_state s'"
proof (cases "applyOrderUpdate now' newID' u p s'")
  case (Inl e)
  then show ?thesis by (simp add: apply_or_keep_def)
next
  case (Inr r)
  obtain ord2' s'' where r: "r = (ord2', s'')" by (cases r)
  obtain ord attempt s1 where o: "find_order u s = Inr ord"
    and id: "ou_ExecutionAttemptID u \<noteq> [] \<or> ou_BrokerOrderID u \<noteq> []"
    and a: "one_row (\<lambda>a. at_ID a = o_ExecutionAttemptID ord) (db_Attempts s) = Inr attempt"
    and rep: "apply_report now newID u p ord attempt s = Inr s1" and w: "write_order now u ord s1 = (ord', s')"
    by (rule applyOrderUpdate_cases[OF first])
  obtain ord2 attempt2 t1 where o2: "find_order u s' = Inr ord2"
    and a2: "one_row (\<lambda>a. at_ID a = o_ExecutionAttemptID ord2) (db_Attempts s') = Inr attempt2"
    and rep2: "apply_report now' newID' u p ord2 attempt2 s' = Inr t1" and w2: "write_order now' u ord2 t1 = (ord2', s'')"
    by (rule applyOrderUpdate_cases[OF Inr[unfolded r]])
  note f1 = apply_report_fills[OF rep]
  have orders: "db_Orders s1 = db_Orders s" using f1(4) by (simp add: fill_frame_def)
  have same: "o_ID ord2 = o_ID ord" "o_Ledger ord2 = o_Ledger ord" "o_ExecutionAttemptID ord2 = o_ExecutionAttemptID ord"
    using find_order_again[OF o d id orders w] o2 by auto
  have s': "db_Fills s' = db_Fills s1" "db_Attempts s' = db_Attempts s1"
    "db_CloseReservations s' = db_CloseReservations s1" "db_OpenReservations s' = db_OpenReservations s1"
    by (subst write_order_frame(1)[OF w], simp)+
  have att: "attempt2 = attempt"
    using a a2 f1(4) s'(2) by (simp add: same(3) fill_frame_def)
  have rec: "recorded ord2 f fs = recorded ord f fs" for f fs
    unfolding recorded_def same_economics_def fill_row_of_def by (simp only: fill_row.simps same)
  let ?xs = "zip (map newID' [0..<length (ou_Fills u)]) (ou_Fills u)"
  have known: "list_all (\<lambda>x. recorded ord2 (snd x) (db_Fills s') \<and> fill_sane (snd x)) ?xs"
    by (rule list_all_zip_snd) (use f1(5) rec s'(1) in simp)
  obtain x1 x2 where x: "settle_close now (ou_State u) p (at_CloseReservationID attempt) x1 = Inr x2"
    "settle_open now (ou_State u) p (at_OpenReservationID attempt) x2 = Inr s1"
    by (rule apply_report_cases[OF rep])
  obtain y1 y2 where y: "fold_res (apply_fill now' ord2 (at_CloseReservationID attempt2) (at_OpenReservationID attempt2)) ?xs s' = Inr y1"
    "settle_close now' (ou_State u) p (at_CloseReservationID attempt2) y1 = Inr y2"
    "settle_open now' (ou_State u) p (at_OpenReservationID attempt2) y2 = Inr t1"
    by (rule apply_report_cases[OF rep2])
  have y1: "y1 = s'" using y(1) apply_fills_known[OF known] by simp
  have cl: "db_CloseReservations s1 = db_CloseReservations x2" by (subst settle_open_frame[OF x(2)]) simp
  have y2: "y2 = s'"
    by (rule settle_close_twice[OF x(1) _ y(2)[unfolded y1 att]]) (simp add: s'(3) cl)
  have "t1 = s'"
    by (rule settle_open_twice[OF x(2) s'(4) y(3)[unfolded y2 att]])
  moreover have "money_state s'' = money_state t1"
    unfolding money_state_def by (subst (1 2 3 4 5 6 7 8) write_order_frame(1)[OF w2]) simp
  ultimately show ?thesis by (simp add: apply_or_keep_def Inr r)
qed

text \<open>C18: repeating a report moves no money. Once a report has been accepted, applying it again, at any time and
  with any new identifiers, accepted or refused, leaves fills, exposure lots, allocations,
  reservations and the paper account exactly as they are.\<close>

theorem repeated_report_moves_nothing:
  assumes "applyOrderUpdate now newID u p s = Inr (ord', s')" "distinct (map o_ID (db_Orders s))"
  shows "money_state (apply_or_keep now' newID' u p s') = money_state s'"
  by (rule repeated_report[OF assms])

theorem repeated_report_moves_nothing_witness:
  "\<exists>ord' s'. applyOrderUpdate 50 sample_ids sample_report False sample_store = Inr (ord', s') \<and>
     money_state (apply_or_keep 60 (\<lambda>_. ''other'') sample_report False s') = money_state s'"
proof -
  obtain ord' s' where r: "applyOrderUpdate 50 sample_ids sample_report False sample_store = Inr (ord', s')"
    using sample_report_applies by blast
  have "distinct (map o_ID (db_Orders sample_store))" by code_simp
  then show ?thesis using repeated_report_moves_nothing[OF r] r by blast
qed

end
