(* ===== verification/Hex.thy ===== *)
theory Hex
  imports Prelude
begin

text \<open>Go's \<open>encoding/hex\<close> on byte strings: digests are stored as bytes and shown in hexadecimal.\<close>

definition hex_table :: string where
  "hex_table = ''0123456789abcdef''"

definition byte :: "char \<Rightarrow> nat" where
  "byte c = of_char c"

definition hex_encode :: "string \<Rightarrow> string" where
  "hex_encode s = concat (map (\<lambda>c. [hex_table ! (byte c div 16), hex_table ! (byte c mod 16)]) s)"

definition hex_value :: "char \<Rightarrow> nat option" where
  "hex_value c =
     (if 48 \<le> byte c \<and> byte c \<le> 57 then Some (byte c - 48)
      else if 97 \<le> byte c \<and> byte c \<le> 102 then Some (byte c - 87)
      else if 65 \<le> byte c \<and> byte c \<le> 70 then Some (byte c - 55)
      else None)"

fun hex_decode :: "string \<Rightarrow> string option" where
  "hex_decode [] = Some []"
| "hex_decode [_] = None"
| "hex_decode (a # b # s) =
     (case (hex_value a, hex_value b, hex_decode s) of
        (Some x, Some y, Some t) \<Rightarrow> Some (char_of (16 * x + y) # t)
      | _ \<Rightarrow> None)"

lemma byte_less: "byte c < 256"
  by (simp add: byte_def)

lemma hex_value_table: "n < 16 \<Longrightarrow> hex_value (hex_table ! n) = Some n"
proof -
  have "list_all (\<lambda>n. hex_value (hex_table ! n) = Some n) [0..<16]" by code_simp
  then show "n < 16 \<Longrightarrow> hex_value (hex_table ! n) = Some n" by (simp add: list_all_iff)
qed

lemma hex_round_trip [simp]: "hex_decode (hex_encode s) = Some s"
proof (induction s)
  case (Cons c s)
  have "byte c div 16 < 16" "byte c mod 16 < 16" using byte_less[of c] by auto
  moreover have "16 * (byte c div 16) + byte c mod 16 = byte c" by simp
  ultimately have "hex_decode (hex_encode (c # s)) = Some (char_of (byte c) # s)"
    using Cons by (simp add: hex_encode_def hex_value_table)
  then show ?case by (simp add: byte_def)
qed (simp add: hex_encode_def)

lemma length_hex_encode [simp]: "length (hex_encode s) = 2 * length s"
  by (induction s) (simp_all add: hex_encode_def)

end
