(* ===== verification/Pre_Effect.thy ===== *)
theory Pre_Effect
  imports Exposure Halt Hex "HOL-Library.Word"
begin

text \<open>
  \<^verbatim>\<open>kernel/internal/store/pre_effect.go\<close>: the manifest of read facts that authorises one
  send to the broker, and its check inside the sending transaction.

  JSON and SHA-256 come as the functions of \<open>codec\<close>: whether a text is valid JSON, whether it is a JSON
  object, Postgres' normal form of a JSON value (\<open>jsonb\<close>), Go's canonical re-marshalling of an object,
  and the digest.
\<close>

record codec =
  json_valid :: "string \<Rightarrow> bool"
  json_object :: "string \<Rightarrow> bool"
  jsonb :: "string \<Rightarrow> string"
  canonicalJSONObject :: "string \<Rightarrow> string result"
  sha256 :: "string \<Rightarrow> string"

definition ErrPreEffectStale :: go_error where
  "ErrPreEffectStale = Sentinel ''pre-effect authority stale''"

abbreviation stale :: "string \<Rightarrow> go_error" where
  "stale m \<equiv> Wrapf ErrPreEffectStale m"

definition expectedPreEffect :: "string \<Rightarrow> string \<Rightarrow> string" where
  "expectedPreEffect intent action =
     (if intent = ''place'' \<and> action = ''open'' then ''place_open''
      else if intent = ''place'' \<and> action = ''close'' then ''place_close''
      else if intent = ''cancel'' \<and> action = ''cancel'' then ''cancel_order''
      else if intent = ''cancel'' \<and> (action = ''open'' \<or> action = ''close'') then ''replace_cancel''
      else [])"

fun different :: "string \<Rightarrow> string \<Rightarrow> 8 word" where
  "different (x # xs) (y # ys) = or (different xs ys) (xor (word_of_nat (byte x)) (word_of_nat (byte y)))"
| "different _ _ = 0"

definition equalBytes :: "string \<Rightarrow> string \<Rightarrow> bool" where
  "equalBytes left right \<longleftrightarrow> length left = length right \<and> different left right = 0"

lemma byte_word_inject: "(word_of_nat (byte x) :: 8 word) = word_of_nat (byte y) \<longleftrightarrow> x = y"
proof
  assume "(word_of_nat (byte x) :: 8 word) = word_of_nat (byte y)"
  then have "unat (word_of_nat (byte x) :: 8 word) = unat (word_of_nat (byte y) :: 8 word)" by simp
  then have "byte x = byte y" using byte_less[of x] byte_less[of y] by (simp add: unat_of_nat)
  then show "x = y" by (simp add: byte_def)
qed simp

lemma xor_zero: "xor a b = 0 \<longleftrightarrow> a = (b :: 8 word)"
proof
  assume "xor a b = 0"
  then have "xor (xor a b) b = b" by simp
  then show "a = b" by (simp add: xor.assoc)
qed simp

lemma equalBytes_iff: "equalBytes left right \<longleftrightarrow> left = right"
proof -
  have "length left = length right \<Longrightarrow> different left right = 0 \<longleftrightarrow> left = right"
    by (induction left right rule: list_induct2) (auto simp: or_eq_0_iff xor_zero byte_word_inject)
  then show ?thesis by (auto simp: equalBytes_def)
qed

text \<open>\<open>PreEffectManifestInput\<close> is a manifest without its digest and creation time; the digests are in
  hexadecimal.\<close>

definition effect_target_error :: "string \<Rightarrow> string \<Rightarrow> string option" where
  "effect_target_error effect target =
     (if effect = ''place_open'' \<or> effect = ''place_close''
      then (if target \<noteq> [] then Some ''place pre-effect manifest has a cancel target'' else None)
      else if effect = ''cancel_order'' \<or> effect = ''replace_cancel''
      then (if target = [] then Some ''cancel pre-effect manifest lacks an exact target'' else None)
      else Some ''pre-effect manifest effect is invalid'')"

definition hex_digest :: "string \<Rightarrow> string option" where
  "hex_digest t = (case hex_decode t of None \<Rightarrow> None | Some d \<Rightarrow> if length d = 32 then Some d else None)"

definition manifest_input_guards :: "pre_effect_manifest \<Rightarrow> (bool \<times> go_error) list" where
  "manifest_input_guards i =
     [(pm_AttemptID i = [] \<or> pm_FencingToken i \<le> 0 \<or> pm_AccountID i = [] \<or> pm_ObservationID i = [] \<or>
         pm_ObservationGeneration i \<le> 0 \<or> pm_ExpiresAt i = 0,
         Errorf ''pre-effect manifest identity is invalid'' []),
      (effect_target_error (pm_Effect i) (pm_TargetBrokerOrderID i) \<noteq> None,
         Errorf (null_string (effect_target_error (pm_Effect i) (pm_TargetBrokerOrderID i))) []),
      (hex_digest (pm_ObservationManifestDigest i) = None,
         Errorf ''pre-effect observation digest is invalid'' []),
      (pm_Ledger i \<noteq> ''live'' \<or> pm_ActivePolicyRevisionID i \<le> 0 \<or> pm_ActivePolicyGeneration i \<le> 0 \<or>
         hex_digest (pm_ActivePolicyDigest i) = None \<or> pm_ExpectedLocalOpenRisk i < 0 \<or>
         pm_ExpectedLocalHeldCash i < 0 \<or> pm_ExpectedOtherCloseQty i < 0,
         Errorf ''pre-effect evaluation binding is invalid'' [])]"

definition manifest_matches :: "pre_effect_manifest \<Rightarrow> execution_attempt \<Rightarrow> string \<Rightarrow> bool" where
  "manifest_matches i a action \<longleftrightarrow>
     pm_Effect i = expectedPreEffect (at_Intent a) action \<and>
     (at_Intent a = ''place'' \<longrightarrow> null_string (at_ProviderAccountID a) = pm_AccountID i) \<and>
     (at_Intent a = ''cancel'' \<longrightarrow> at_TargetBrokerOrderID a = pm_TargetBrokerOrderID i)"

definition observation_matches :: "pre_effect_manifest \<Rightarrow> observation_row \<Rightarrow> bool" where
  "observation_matches i b \<longleftrightarrow>
     bo_Status b = ''complete'' \<and> bo_Purpose b = ''pre_effect'' \<and> bo_AccountID b = pm_AccountID i \<and>
     bo_Generation b = pm_ObservationGeneration i \<and>
     equalBytes (bo_ManifestDigest b) (null_string (hex_digest (pm_ObservationManifestDigest i)))"

text \<open>The row that is inserted: digests as bytes, the canonical facts and their digest.\<close>

definition manifest_row :: "codec \<Rightarrow> time \<Rightarrow> string \<Rightarrow> pre_effect_manifest \<Rightarrow> pre_effect_manifest" where
  "manifest_row c now facts i = i\<lparr>
     pm_ObservationManifestDigest := null_string (hex_digest (pm_ObservationManifestDigest i)),
     pm_ActivePolicyDigest := null_string (hex_digest (pm_ActivePolicyDigest i)),
     pm_Facts := facts, pm_FactsDigest := sha256 c facts, pm_CreatedAt := now\<rparr>"

definition insert_manifest :: "codec \<Rightarrow> time \<Rightarrow> string \<Rightarrow> pre_effect_manifest \<Rightarrow> db \<Rightarrow> db" where
  "insert_manifest c now facts input s = insert_event ''execution_pre_effect_recorded''
     [(''attempt_id'', PText (pm_AttemptID input)), (''fencing_token'', PInt (pm_FencingToken input)),
      (''manifest_id'', PText (pm_ID input)), (''observation_id'', PText (pm_ObservationID input)),
      (''observation_generation'', PInt (pm_ObservationGeneration input)),
      (''effect'', PText (pm_Effect input)), (''facts_digest'', PText (sha256 c facts)),
      (''expires_at'', PInt (pm_ExpiresAt input))]
     (s\<lparr>db_Manifests := db_Manifests s @ [manifest_row c now facts input]\<rparr>)"

definition record_manifest ::
  "codec \<Rightarrow> time \<Rightarrow> pre_effect_manifest \<Rightarrow> db \<Rightarrow> (pre_effect_manifest \<times> db) result" where
  "record_manifest c now input s =
     (case canonicalJSONObject c (pm_Facts input) of
        Inl e \<Rightarrow> Inl (Wrapf e ''pre-effect facts are invalid: %w'')
      | Inr facts \<Rightarrow>
         (case find (\<lambda>a. at_ID a = pm_AttemptID input \<and> at_Attempt a = pm_FencingToken input \<and>
             at_State a = ''claimed'') (db_Attempts s) of
            None \<Rightarrow> Inl (stale ''pre-effect attempt fencing is stale'')
          | Some a \<Rightarrow>
             (case find (\<lambda>w. ow_ID w = at_OperationID a) (db_Operations s) of
                None \<Rightarrow> Inl (stale ''pre-effect attempt fencing is stale'')
              | Some w \<Rightarrow>
                 if \<not> manifest_matches input a (ow_Action w)
                 then Inl (stale ''pre-effect manifest does not match persisted intent'')
                 else (case one_row (\<lambda>b. bo_ID b = pm_ObservationID input) (db_Observations s) of
                    Inl e \<Rightarrow> Inl e
                  | Inr b \<Rightarrow>
                     if \<not> observation_matches input b
                     then Inl (stale ''pre-effect observation identity is invalid'')
                     else if pm_ID input \<in> pm_ID ` set (db_Manifests s)
                     then Inl (Errorf ''duplicate key value violates unique constraint'' [])
                     else Inr (input\<lparr>pm_Facts := facts, pm_FactsDigest := sha256 c facts, pm_CreatedAt := now\<rparr>,
                            insert_manifest c now facts input s)))))"

definition RecordPreEffectManifest ::
  "codec \<Rightarrow> time \<Rightarrow> string \<Rightarrow> pre_effect_manifest \<Rightarrow> db \<Rightarrow> (pre_effect_manifest \<times> db) result" where
  "RecordPreEffectManifest c now newID input s =
     (let input = input\<lparr>pm_AccountID := trim_space (pm_AccountID input),
              pm_TargetBrokerOrderID := trim_space (pm_TargetBrokerOrderID input),
              pm_ID := (if pm_ID input = [] then newID else pm_ID input)\<rparr>
      in guarded (manifest_input_guards input) (record_manifest c now input s))"

lemma record_manifest_effect:
  assumes "record_manifest c now input s = Inr (m, s')"
  shows "\<exists>facts. s' = insert_manifest c now facts input s \<and> pm_ID input \<notin> pm_ID ` set (db_Manifests s)"
proof -
  obtain facts where f: "canonicalJSONObject c (pm_Facts input) = Inr facts"
    using assms by (auto simp: record_manifest_def case_sum_Inr_iff)
  have "s' = insert_manifest c now facts input s \<and> pm_ID input \<notin> pm_ID ` set (db_Manifests s)"
    using assms f unfolding record_manifest_def
    by (auto simp: case_sum_Inr_iff if_Inl_eq_Inr simp del: not_not split: option.splits)
  then show ?thesis ..
qed


section \<open>The check at the send\<close>

definition lockPreEffectEvaluationScope :: "string \<Rightarrow> db \<Rightarrow> unit result" where
  "lockPreEffectEvaluationScope manifestID s =
     (case find (\<lambda>m. pm_ID m = manifestID) (db_Manifests s) of
        None \<Rightarrow> Inl (stale ''pre-effect manifest lacks an aggregate evaluation'')
      | Some m \<Rightarrow> if pm_Ledger m \<noteq> ''live'' then Inl (stale ''pre-effect manifest ledger is invalid'') else Inr ())"

text \<open>\<open>active_head\<close> is the join of the head with its revision.\<close>

definition active_head :: "db \<Rightarrow> (policy_head_row \<times> policy_revision_row) option" where
  "active_head s =
     (case db_PolicyHead s of
        None \<Rightarrow> None
      | Some h \<Rightarrow> map_option (\<lambda>r. (h, r)) (find (\<lambda>r. kr_ID r = kh_RevisionID h) (db_PolicyRevisions s)))"

definition manifest_consistent :: "codec \<Rightarrow> time \<Rightarrow> pre_effect_manifest \<Rightarrow> observation_row \<Rightarrow> string \<Rightarrow> bool" where
  "manifest_consistent c databaseNow m b canonical \<longleftrightarrow>
     databaseNow < pm_ExpiresAt m \<and> bo_Status b = ''complete'' \<and> bo_Purpose b = ''pre_effect'' \<and>
     pm_Ledger m = ''live'' \<and> 0 < pm_ActivePolicyRevisionID m \<and> 0 < pm_ActivePolicyGeneration m \<and>
     0 \<le> pm_ExpectedLocalOpenRisk m \<and> 0 \<le> pm_ExpectedLocalHeldCash m \<and> 0 \<le> pm_ExpectedOtherCloseQty m \<and>
     equalBytes (sha256 c canonical) (pm_FactsDigest m) \<and>
     equalBytes (pm_ObservationManifestDigest m) (bo_ManifestDigest b)"

definition policy_unchanged :: "pre_effect_manifest \<Rightarrow> policy_head_row \<times> policy_revision_row \<Rightarrow> bool" where
  "policy_unchanged m hr \<longleftrightarrow> (case hr of (h, r) \<Rightarrow>
     kh_RevisionID h = pm_ActivePolicyRevisionID m \<and> kh_Generation h = pm_ActivePolicyGeneration m \<and>
     equalBytes (kr_Digest r) (pm_ActivePolicyDigest m))"

definition proposal_expired :: "time \<Rightarrow> pre_effect_manifest \<Rightarrow> execution_attempt \<Rightarrow> operation_row \<Rightarrow> bool" where
  "proposal_expired databaseNow m a w \<longleftrightarrow>
     (let reviewApproved = ow_Class w = ''C'' \<and> ow_Status w = ''approved'';
          ttlRequired = pm_Effect m \<noteq> ''replace_cancel'' \<and> \<not> (at_Intent a = ''place'' \<and> at_Seq a > 1)
      in ow_KernelPolicyRevisionID w \<noteq> None \<and> ttlRequired \<and> \<not> reviewApproved \<and>
         (case ow_ExpiresAt w of None \<Rightarrow> True | Some t \<Rightarrow> \<not> databaseNow < t))"

definition held_close_excluding :: "string \<Rightarrow> string \<Rightarrow> string \<Rightarrow> db \<Rightarrow> qty" where
  "held_close_excluding ledger symbol operationID s = total cr_RemainingQty
     (filter (\<lambda>r. cr_Ledger r = ledger \<and> cr_Symbol r = symbol \<and> cr_State r = ''held'' \<and>
        cr_OperationID r \<noteq> operationID) (db_CloseReservations s))"

definition resources_unchanged :: "pre_effect_manifest \<Rightarrow> operation_row \<Rightarrow> db \<Rightarrow> unit result" where
  "resources_unchanged m w s =
     (let resources = ledgerResources s (pm_Ledger m) (ow_ID w)
      in if lr_OpenRisk resources \<noteq> pm_ExpectedLocalOpenRisk m \<or> lr_HeldCash resources \<noteq> pm_ExpectedLocalHeldCash m
         then Inl (stale ''local resources changed after pre-effect evaluation'')
         else if pm_Effect m = ''place_close'' \<and>
           held_close_excluding (pm_Ledger m) (ow_Symbol w) (ow_ID w) s \<noteq> pm_ExpectedOtherCloseQty m
         then Inl (stale ''closable reservations changed after pre-effect evaluation'')
         else Inr ())"

definition send_guards ::
  "codec \<Rightarrow> time \<Rightarrow> pre_effect_manifest \<Rightarrow> observation_row \<Rightarrow> string \<Rightarrow> db \<Rightarrow>
     execution_attempt \<Rightarrow> operation_row \<Rightarrow> unit result" where
  "send_guards c databaseNow m b canonical s a w =
     (if \<not> manifest_consistent c databaseNow m b canonical
      then Inl (stale ''pre-effect manifest is expired or inconsistent'')
      else case active_head s of
        None \<Rightarrow> Inl ErrNoRows
      | Some hr \<Rightarrow>
          if \<not> policy_unchanged m hr
          then Inl (stale ''active kernel policy changed after pre-effect evaluation'')
          else if proposal_expired databaseNow m a w
          then Inl (stale ''proposal expired after pre-effect evaluation'')
          else resources_unchanged m w s)"

text \<open>The join of manifest, observation, attempt and operation.\<close>

definition manifest_join ::
  "string \<Rightarrow> string \<Rightarrow> int64 \<Rightarrow> db \<Rightarrow>
     (pre_effect_manifest \<times> observation_row \<times> execution_attempt \<times> operation_row) option" where
  "manifest_join manifestID attemptID fencingToken s =
     (case find (\<lambda>m. pm_ID m = manifestID \<and> pm_AttemptID m = attemptID \<and> pm_FencingToken m = fencingToken)
         (db_Manifests s) of
        None \<Rightarrow> None
      | Some m \<Rightarrow>
         (case (find (\<lambda>b. bo_ID b = pm_ObservationID m) (db_Observations s),
                find (\<lambda>a. at_ID a = pm_AttemptID m) (db_Attempts s)) of
            (Some b, Some a) \<Rightarrow>
               map_option (\<lambda>w. (m, b, a, w)) (find (\<lambda>w. ow_ID w = at_OperationID a) (db_Operations s))
          | _ \<Rightarrow> None))"

definition validatePreEffectManifestForSend ::
  "codec \<Rightarrow> string \<Rightarrow> string \<Rightarrow> int64 \<Rightarrow> int64 \<Rightarrow> time \<Rightarrow> db \<Rightarrow> db result" where
  "validatePreEffectManifestForSend c manifestID attemptID fencingToken sendOrdinal databaseNow s =
     (if trim_space manifestID = [] then Inl (stale ''pre-effect manifest is required'')
      else case manifest_join manifestID attemptID fencingToken s of
        None \<Rightarrow> Inl (stale ''pre-effect manifest does not match attempt fencing'')
      | Some (m, b, a, w) \<Rightarrow>
         (case canonicalJSONObject c (pm_Facts m) of
            Inl _ \<Rightarrow> Inl (stale ''pre-effect manifest facts are invalid'')
          | Inr canonical \<Rightarrow>
             (case send_guards c databaseNow m b canonical s a w of
                Inl e \<Rightarrow> Inl e
              | Inr _ \<Rightarrow> Inr (s\<lparr>db_Bindings := db_Bindings s @
                    [\<lparr>sb_AttemptID = attemptID, sb_SendOrdinal = sendOrdinal,
                      sb_FencingToken = fencingToken, sb_ManifestID = manifestID\<rparr>]\<rparr>))))"


section \<open>What an accepted manifest proves\<close>

text \<open>The facts the kernel relies on when it sends.\<close>

definition authorised ::
  "codec \<Rightarrow> string \<Rightarrow> string \<Rightarrow> int64 \<Rightarrow> time \<Rightarrow> db \<Rightarrow> pre_effect_manifest \<Rightarrow> bool" where
  "authorised c manifestID attemptID fencingToken now s m \<longleftrightarrow>
     m \<in> set (db_Manifests s) \<and> pm_ID m = manifestID \<and> pm_AttemptID m = attemptID \<and>
     pm_FencingToken m = fencingToken \<and> now < pm_ExpiresAt m \<and> pm_Ledger m = ''live'' \<and>
     (\<exists>h r. active_head s = Some (h, r) \<and> kh_RevisionID h = pm_ActivePolicyRevisionID m \<and>
        kh_Generation h = pm_ActivePolicyGeneration m \<and> kr_Digest r = pm_ActivePolicyDigest m) \<and>
     (\<exists>b\<in>set (db_Observations s). bo_ID b = pm_ObservationID m \<and> bo_Status b = ''complete'' \<and>
        bo_Purpose b = ''pre_effect'' \<and> bo_ManifestDigest b = pm_ObservationManifestDigest m) \<and>
     (\<exists>a\<in>set (db_Attempts s). at_ID a = attemptID \<and>
        lr_OpenRisk (ledgerResources s ''live'' (at_OperationID a)) = pm_ExpectedLocalOpenRisk m \<and>
        lr_HeldCash (ledgerResources s ''live'' (at_OperationID a)) = pm_ExpectedLocalHeldCash m)"

lemma manifest_join_ok:
  assumes "manifest_join mid aid tok s = Some (m, b, a, w)"
  shows "m \<in> set (db_Manifests s)" "pm_ID m = mid" "pm_AttemptID m = aid" "pm_FencingToken m = tok"
    "b \<in> set (db_Observations s)" "bo_ID b = pm_ObservationID m"
    "a \<in> set (db_Attempts s)" "at_ID a = aid" "w \<in> set (db_Operations s)" "ow_ID w = at_OperationID a"
  using assms unfolding manifest_join_def
  by (auto split: option.splits prod.splits dest!: find_SomeD)

lemma send_guards_ok:
  assumes "send_guards c now m b canonical s a w = Inr u"
  shows "manifest_consistent c now m b canonical" "\<exists>hr. active_head s = Some hr \<and> policy_unchanged m hr"
    "\<not> proposal_expired now m a w" "resources_unchanged m w s = Inr u"
  using assms unfolding send_guards_def by (auto simp: if_Inl_eq_Inr split: option.splits)

lemma validatePreEffect_cases:
  assumes "validatePreEffectManifestForSend c mid aid tok n now s = Inr s'"
  obtains m b a w canonical where "manifest_join mid aid tok s = Some (m, b, a, w)"
    "send_guards c now m b canonical s a w = Inr ()"
    "s' = s\<lparr>db_Bindings := db_Bindings s @ [\<lparr>sb_AttemptID = aid, sb_SendOrdinal = n,
       sb_FencingToken = tok, sb_ManifestID = mid\<rparr>]\<rparr>"
  using assms unfolding validatePreEffectManifestForSend_def
  by (auto simp: if_Inl_eq_Inr case_sum_Inr_iff split: option.splits)

lemma validated_manifest_authorised:
  assumes "validatePreEffectManifestForSend c mid aid tok n now s = Inr s'"
  shows "\<exists>m. authorised c mid aid tok now s m"
proof -
  obtain m b a w canonical where j: "manifest_join mid aid tok s = Some (m, b, a, w)"
    and g: "send_guards c now m b canonical s a w = Inr ()"
    by (rule validatePreEffect_cases[OF assms])
  note g' = send_guards_ok[OF g]
  have "lr_OpenRisk (ledgerResources s ''live'' (ow_ID w)) = pm_ExpectedLocalOpenRisk m"
    "lr_HeldCash (ledgerResources s ''live'' (ow_ID w)) = pm_ExpectedLocalHeldCash m"
    using g'(1,4) by (simp_all add: resources_unchanged_def manifest_consistent_def Let_def if_Inl_eq_Inr)
  moreover obtain h r where "active_head s = Some (h, r)" "policy_unchanged m (h, r)" using g'(2) by auto
  ultimately have "authorised c mid aid tok now s m"
    unfolding authorised_def using manifest_join_ok[OF j] g'(1)
    by (auto simp: manifest_consistent_def policy_unchanged_def equalBytes_iff)
  then show ?thesis ..
qed

end
