(* ===== verification/Attempts.thy ===== *)
theory Attempts
  imports Order_Store Pre_Effect
begin

text \<open>
  \<^verbatim>\<open>kernel/internal/store/entitlements.go\<close>: the life of an execution attempt, from the
  pending row through its claim, the evidence of what will be sent, the single send and the single
  replay, to its resolution; and the live execution gate that admits one live attempt at a time.

  Ids compare as the code compares them: a NULL column scanned into \<open>sql.NullString\<close> is the empty
  string. \<open>now\<close> is the database clock of the transaction; where the code reads \<open>clock_timestamp()\<close>
  several times in one transaction, \<open>clock n\<close> is its n-th reading. A zero time stands for NULL.
\<close>

definition ErrLiveSendHalted :: go_error where
  "ErrLiveSendHalted = Sentinel ''live send halted''"

definition ErrReplayWindowExpired :: go_error where
  "ErrReplayWindowExpired = Sentinel ''replay window expired''"

record attempt_resolution =
  ar_State :: string
  ar_BrokerOrderID :: string
  ar_LastError :: string
  ar_ProviderErrorCode :: string
  ar_CandidateBrokerOrderID :: string
  ar_OperatorSubject :: string
  ar_OperationStatus :: string
  ar_ReleaseReservation :: bool
  ar_OrderUpdate :: "order_update option"
  ar_OrderEvent :: "(string \<times> payload) list option"

record provider_intent_evidence =
  ie_AccountID :: string
  ie_Canonical :: string
  ie_Fingerprint :: string

definition millisecond :: int where
  "millisecond = 1000000"

definition day_duration :: int where
  "day_duration = 86400000000000"


section \<open>Reports outside a resolution\<close>

definition recordOrderUpdateFailure ::
  "(go_error \<Rightarrow> string) \<Rightarrow> time \<Rightarrow> order_update \<Rightarrow> go_error \<Rightarrow> db \<Rightarrow> go_error \<times> db" where
  "recordOrderUpdateFailure errtext now u cause s =
     (if errors_is cause ErrIllegalOrderTransition
      then (cause, insert_event ''order_transition_rejected''
        [(''execution_attempt_id'', PText (ou_ExecutionAttemptID u)), (''broker_order_id'', PText (ou_BrokerOrderID u)),
         (''next_state'', PText (ou_State u)), (''error'', PText (errtext cause))] s)
      else if errors_is cause ErrFillIntegrity
      then recordIntegrityFailure errtext now ''fill_integrity_error''
        [(''execution_attempt_id'', PText (ou_ExecutionAttemptID u)), (''broker_order_id'', PText (ou_BrokerOrderID u)),
         (''error'', PText (errtext cause))] cause s
      else (cause, s))"

definition finish_placement :: "time \<Rightarrow> string \<Rightarrow> order_row \<Rightarrow> db \<Rightarrow> db" where
  "finish_placement now state ord s =
     (case terminalPlacementState state of
        (attemptState, operationStatus) \<Rightarrow>
          if attemptState = [] then s
          else
           (let status = (if operationStatus = ''failed''
                  then operationStatusAfterFailedAttempt s (o_OperationID ord) else operationStatus);
                s = s\<lparr>db_Attempts := update_rows
                  (\<lambda>a. at_ID a = o_ExecutionAttemptID ord \<and> at_State a = ''placed'')
                  (\<lambda>a. a\<lparr>at_State := attemptState, at_ResolvedAt := now, at_LastError := []\<rparr>) (db_Attempts s)\<rparr>
            in set_operation_status (o_OperationID ord) status s))"

definition ApplyOrderUpdate ::
  "(go_error \<Rightarrow> string) \<Rightarrow> time \<Rightarrow> (nat \<Rightarrow> string) \<Rightarrow> order_update \<Rightarrow> db \<Rightarrow> unit outcome" where
  "ApplyOrderUpdate errtext now newID u s =
     (case applyOrderUpdate now newID u False s of
        Inl e \<Rightarrow>
          if errors_is e errRepriceManagedOrder then (Inr (), s)
          else (case recordOrderUpdateFailure errtext now u e s of (e', s') \<Rightarrow> (Inl e', s'))
      | Inr (ord, s') \<Rightarrow> (Inr (), finish_placement now (ou_State u) ord s'))"


section \<open>New attempts and pending ones\<close>

definition ErrInvalidOperationReference :: go_error where
  "ErrInvalidOperationReference = Sentinel ''invalid operation reference''"

definition opt_or_zero :: "int option \<Rightarrow> int" where
  "opt_or_zero x = (case x of None \<Rightarrow> 0 | Some v \<Rightarrow> v)"

definition nullable :: "string option \<Rightarrow> string option" where
  "nullable x = (if x = Some [] then None else x)"

text \<open>The columns \<open>InsertExecutionAttempt\<close> copies from the operation and its policy revision; \<open>limits\<close> reads
  the three limits out of a stored policy.\<close>

definition attempt_row ::
  "(string \<Rightarrow> int64 \<times> int64 \<times> int64) \<Rightarrow> time \<Rightarrow> db \<Rightarrow> operation_row \<Rightarrow> execution_attempt \<Rightarrow> execution_attempt" where
  "attempt_row limits now s w a =
     (let placed = at_Intent a = ''place'' \<or> at_Intent a = ''paper_place'';
          revision = Option.bind (ow_KernelPolicyRevisionID w) (\<lambda>i. find (\<lambda>r. kr_ID r = i) (db_PolicyRevisions s));
          bounds = (case revision of None \<Rightarrow> (0, 0, 0) | Some r \<Rightarrow> limits (kr_Policy r))
      in \<lparr>at_ID = at_ID a, at_OperationID = at_OperationID a, at_Seq = at_Seq a,
          at_CloseReservationID = nullable (at_CloseReservationID a),
          at_OpenReservationID = nullable (at_OpenReservationID a), at_Intent = at_Intent a,
          at_ClientOrderID = at_ClientOrderID a, at_TargetBrokerOrderID = at_TargetBrokerOrderID a,
          at_State = at_State a, at_BrokerOrderID = [],
          at_Qty = (if placed then at_Qty a else 0), at_Limit = (if placed then at_Limit a else 0),
          at_Attempt = 0, at_ClaimedBy = [], at_CreatedAt = now, at_ClaimedAt = 0, at_ResolvedAt = 0,
          at_LastError = [], at_IntentFingerprint = nullable (at_IntentFingerprint a),
          at_ProviderAccountID = None, at_ProviderIntent = None, at_SentAt = None,
          at_SendWindowStart = None, at_SendWindowEnd = None, at_ReplayCount = 0,
          at_ProviderErrorCode = [], at_CandidateBrokerOrderID = [], at_CandidateObservedAt = None,
          at_KernelPolicyRevisionID = opt_or_zero (ow_KernelPolicyRevisionID w),
          at_KernelPolicyGeneration = opt_or_zero (ow_KernelPolicyGeneration w),
          at_KernelPolicyDigest = null_string (ow_KernelPolicyDigest w),
          at_AuthorizationExpiresAt = opt_or_zero (ow_ExpiresAt w),
          at_MaxReprices = fst bounds, at_RepriceIntervalSec = fst (snd bounds),
          at_QuoteMaxAgeSec = snd (snd bounds), at_LeaseExpiresAt = 0\<rparr>)"

definition InsertExecutionAttempt ::
  "(string \<Rightarrow> int64 \<times> int64 \<times> int64) \<Rightarrow> time \<Rightarrow> execution_attempt \<Rightarrow> db \<Rightarrow> db result" where
  "InsertExecutionAttempt limits now a s =
     (case find (\<lambda>w. ow_ID w = at_OperationID a) (db_Operations s) of
        None \<Rightarrow> Inl ErrInvalidOperationReference
      | Some w \<Rightarrow>
          if at_ID a \<in> at_ID ` set (db_Attempts s)
          then Inl (Errorf ''duplicate key value violates unique constraint'' [])
          else Inr (s\<lparr>db_Attempts := db_Attempts s @ [attempt_row limits now s w a]\<rparr>))"

definition UpdatePendingAttemptLimit :: "time \<Rightarrow> string \<Rightarrow> micros \<Rightarrow> db \<Rightarrow> bool \<times> db" where
  "UpdatePendingAttemptLimit now i limit s =
     (let cond = (\<lambda>a. at_ID a = i \<and> at_State a = ''pending'' \<and> at_Intent a = ''place'')
      in if affected cond (db_Attempts s) \<noteq> 1 then (False, s)
         else (True, s\<lparr>db_Attempts := update_rows cond (\<lambda>a. a\<lparr>at_Limit := min (at_Limit a) limit\<rparr>) (db_Attempts s),
           db_Orders := update_rows (\<lambda>r. o_ExecutionAttemptID r = i \<and> o_State r = ''new'')
             (\<lambda>r. r\<lparr>o_Limit := min (o_Limit r) limit, o_UpdatedAt := now\<rparr>) (db_Orders s)\<rparr>))"


section \<open>Claiming\<close>

definition unresolved_other :: "string \<Rightarrow> db \<Rightarrow> bool" where
  "unresolved_other i s \<longleftrightarrow> list_ex (\<lambda>a. at_ID a \<noteq> i \<and> at_Intent a \<noteq> ''paper_place'' \<and>
     (at_State a = ''claimed'' \<or> at_State a = ''unknown'')) (db_Attempts s)"

definition gate_idle :: "db \<Rightarrow> bool" where
  "gate_idle s \<longleftrightarrow> db_GateActive s = None \<and> db_GateUnknown s = None"

definition recovering_unknown :: "string \<Rightarrow> string \<Rightarrow> db \<Rightarrow> bool" where
  "recovering_unknown i expectedState s \<longleftrightarrow> expectedState = ''claimed'' \<and>
     null_string (db_GateUnknown s) = i \<and> db_GateActive s = None"

definition claim_allowed :: "string \<Rightarrow> string \<Rightarrow> db \<Rightarrow> bool" where
  "claim_allowed i expectedState s \<longleftrightarrow>
     (if expectedState = ''pending'' then gate_idle s \<and> \<not> unresolved_other i s
      else if expectedState = ''claimed''
      then (null_string (db_GateActive s) = i \<and> db_GateUnknown s = None) \<or>
           recovering_unknown i expectedState s \<or> gate_idle s \<and> \<not> unresolved_other i s
      else if expectedState = ''unknown''
      then (null_string (db_GateUnknown s) = i \<and> db_GateActive s = None) \<or>
           gate_idle s \<and> \<not> unresolved_other i s
      else False)"

definition claimable :: "time \<Rightarrow> string \<Rightarrow> string \<Rightarrow> int64 \<Rightarrow> execution_attempt \<Rightarrow> bool" where
  "claimable now i expectedState expectedToken a \<longleftrightarrow>
     at_ID a = i \<and> at_State a = expectedState \<and>
     (expectedState \<noteq> ''pending'' \<longrightarrow> at_Attempt a = expectedToken) \<and>
     (expectedState = ''claimed'' \<longrightarrow> at_LeaseExpiresAt a \<noteq> 0 \<and> at_LeaseExpiresAt a \<le> now)"

definition claimed_row :: "time \<Rightarrow> string \<Rightarrow> int \<Rightarrow> execution_attempt \<Rightarrow> execution_attempt" where
  "claimed_row now instance_id leaseDuration a = a\<lparr>at_State := ''claimed'', at_Attempt := at_Attempt a + 1,
     at_ClaimedBy := instance_id, at_ClaimedAt := now,
     at_LeaseExpiresAt := now + leaseDuration sdiv millisecond * millisecond, at_ResolvedAt := 0\<rparr>"

definition since :: "time \<Rightarrow> time option \<Rightarrow> time option" where
  "since now t = (case t of None \<Rightarrow> Some now | Some x \<Rightarrow> Some x)"

definition enter_gate :: "time \<Rightarrow> string \<Rightarrow> bool \<Rightarrow> db \<Rightarrow> db" where
  "enter_gate now i as_unknown s =
     (if as_unknown
      then s\<lparr>db_GateUnknown := Some i, db_GateUnknownSince := since now (db_GateUnknownSince s)\<rparr>
      else s\<lparr>db_GateActive := Some i, db_GateActiveSince := since now (db_GateActiveSince s)\<rparr>)"

definition claim_row ::
  "(go_error \<Rightarrow> string) \<Rightarrow> time \<Rightarrow> string \<Rightarrow> string \<Rightarrow> string \<Rightarrow> int64 \<Rightarrow> int \<Rightarrow> bool \<Rightarrow> db \<Rightarrow>
     execution_attempt option outcome" where
  "claim_row errtext now i instance_id expectedState expectedToken leaseDuration useLiveGate s =
     (case find (claimable now i expectedState expectedToken) (db_Attempts s) of
        None \<Rightarrow> (Inr None, s)
      | Some a \<Rightarrow>
          (let a' = claimed_row now instance_id leaseDuration a;
               s1 = s\<lparr>db_Attempts := update_rows (claimable now i expectedState expectedToken)
                        (claimed_row now instance_id leaseDuration) (db_Attempts s)\<rparr>
           in case validateM3AExecutionEntitlement s1 a' of
                Inl e \<Rightarrow> (case recordExecutionEntitlementFailure errtext now (at_ID a') e s of
                  (e', s') \<Rightarrow> (Inl e', s'))
              | Inr _ \<Rightarrow>
                  (Inr (Some a'), insert_event ''execution_attempt_claimed''
                     [(''attempt_id'', PText (at_ID a')), (''operation_id'', PText (at_OperationID a')),
                      (''fencing_token'', PInt (at_Attempt a')), (''lease_expires_at'', PInt (at_LeaseExpiresAt a'))]
                     (if useLiveGate
                      then enter_gate now (at_ID a')
                        (expectedState = ''unknown'' \<or> recovering_unknown i expectedState s) s1
                      else s1))))"

definition claimAttempt ::
  "(go_error \<Rightarrow> string) \<Rightarrow> time \<Rightarrow> string \<Rightarrow> string \<Rightarrow> string \<Rightarrow> int64 \<Rightarrow> int \<Rightarrow> bool \<Rightarrow> db \<Rightarrow>
     execution_attempt option outcome" where
  "claimAttempt errtext now i instance_id expectedState expectedToken leaseDuration liveGate s =
     (if leaseDuration \<le> 0 \<or> leaseDuration > day_duration
      then (Inl (Errorf ''claim lease duration is outside the structural range'' []), s)
      else case find (\<lambda>a. at_ID a = i) (db_Attempts s) of
        None \<Rightarrow> (Inr None, s)
      | Some a \<Rightarrow>
          (let useLiveGate = liveGate \<and> at_Intent a \<noteq> ''paper_place''
           in if useLiveGate \<and> \<not> claim_allowed i expectedState s then (Inr None, s)
              else claim_row errtext now i instance_id expectedState expectedToken leaseDuration useLiveGate s))"

section \<open>The evidence and the send\<close>

definition evidence_guards :: "codec \<Rightarrow> string \<Rightarrow> string \<Rightarrow> string \<Rightarrow> (bool \<times> go_error) list" where
  "evidence_guards c accountID canonical fingerprint =
     [(trim_space accountID = [] \<or> canonical = [] \<or> \<not> json_valid c canonical \<or> length fingerprint \<noteq> 32,
         Errorf ''invalid provider intent evidence'' []),
      (\<not> json_object c canonical, Errorf ''provider intent must be an object'' []),
      (sha256 c canonical \<noteq> fingerprint, Errorf ''provider intent fingerprint mismatch'' [])]"

definition preparable :: "codec \<Rightarrow> string \<Rightarrow> int64 \<Rightarrow> string \<Rightarrow> string \<Rightarrow> string \<Rightarrow> execution_attempt \<Rightarrow> bool" where
  "preparable c i fencingToken accountID canonical fingerprint a \<longleftrightarrow>
     at_ID a = i \<and> at_Attempt a = fencingToken \<and> at_State a = ''claimed'' \<and> at_Intent a = ''place'' \<and>
     at_SentAt a = None \<and>
     (at_IntentFingerprint a = None \<or>
      at_ProviderAccountID a = Some accountID \<and> at_ProviderIntent a = Some (jsonb c canonical) \<and>
      at_IntentFingerprint a = Some fingerprint)"

definition PrepareAttemptProviderIntent ::
  "codec \<Rightarrow> string \<Rightarrow> int64 \<Rightarrow> string \<Rightarrow> string \<Rightarrow> string \<Rightarrow> db \<Rightarrow> (bool \<times> db) result" where
  "PrepareAttemptProviderIntent c i fencingToken accountID canonical fingerprint s =
     guarded (evidence_guards c accountID canonical fingerprint)
       (let cond = preparable c i fencingToken accountID canonical fingerprint
        in Inr (affected cond (db_Attempts s) = 1,
             s\<lparr>db_Attempts := update_rows cond
               (\<lambda>a. a\<lparr>at_ProviderAccountID := Some accountID, at_ProviderIntent := Some (jsonb c canonical),
                     at_IntentFingerprint := Some fingerprint\<rparr>) (db_Attempts s)\<rparr>))"

definition replay_evidence_guards :: "codec \<Rightarrow> provider_intent_evidence option \<Rightarrow> (bool \<times> go_error) list" where
  "replay_evidence_guards c evidence =
     (case evidence of
        None \<Rightarrow> [(True, Errorf ''replay provider intent evidence is invalid'' [])]
      | Some ev \<Rightarrow>
          [(trim_space (ie_AccountID ev) = [] \<or> ie_Canonical ev = [] \<or> \<not> json_valid c (ie_Canonical ev) \<or>
              length (ie_Fingerprint ev) \<noteq> 32, Errorf ''replay provider intent evidence is invalid'' []),
           (sha256 c (ie_Canonical ev) \<noteq> ie_Fingerprint ev, Errorf ''replay provider intent fingerprint mismatch'' [])])"

definition send_admitted :: "string \<Rightarrow> bool \<Rightarrow> db \<Rightarrow> bool" where
  "send_admitted i replay s \<longleftrightarrow>
     (if replay then null_string (db_GateUnknown s) = i \<and> db_GateActive s = None
      else null_string (db_GateActive s) = i \<and> db_GateUnknown s = None)"

definition fenced :: "string \<Rightarrow> int64 \<Rightarrow> execution_attempt \<Rightarrow> bool" where
  "fenced i fencingToken a \<longleftrightarrow> at_ID a = i \<and> at_Attempt a = fencingToken \<and> at_State a = ''claimed''"

definition has_evidence :: "execution_attempt \<Rightarrow> bool" where
  "has_evidence a \<longleftrightarrow> at_Intent a = ''cancel'' \<or>
     at_IntentFingerprint a \<noteq> None \<and> at_ProviderIntent a \<noteq> None \<and> at_ProviderAccountID a \<noteq> None"

text \<open>The first send: the attempt is fenced, unsent, and carries its evidence.\<close>

definition sent_row :: "time \<Rightarrow> execution_attempt \<Rightarrow> execution_attempt" where
  "sent_row sentAt a = a\<lparr>at_SentAt := Some sentAt, at_SendWindowStart := Some (sentAt - 30000000000),
     at_SendWindowEnd := Some (sentAt + 120000000000)\<rparr>"

definition first_send :: "time \<Rightarrow> string \<Rightarrow> int64 \<Rightarrow> db \<Rightarrow> (bool \<times> db) result" where
  "first_send now i fencingToken s =
     (let cond = (\<lambda>a. fenced i fencingToken a \<and> at_SentAt a = None \<and> has_evidence a)
      in Inr (affected cond (db_Attempts s) = 1,
           s\<lparr>db_Attempts := update_rows cond (sent_row now) (db_Attempts s)\<rparr>))"

text \<open>The replay: sent before, never replayed, inside the window by \<open>replayGuard\<close> (rounded up to a
  millisecond), with the evidence of the first send.\<close>

definition guard_millis :: "int \<Rightarrow> int" where
  "guard_millis d = (if d smod millisecond \<noteq> 0 then d sdiv millisecond + 1 else d sdiv millisecond)"

definition replayable ::
  "codec \<Rightarrow> time \<Rightarrow> int \<Rightarrow> provider_intent_evidence \<Rightarrow> string \<Rightarrow> int64 \<Rightarrow> execution_attempt \<Rightarrow> bool" where
  "replayable c now guardMillis ev i fencingToken a \<longleftrightarrow>
     fenced i fencingToken a \<and> at_SentAt a \<noteq> None \<and> at_ReplayCount a = 0 \<and>
     (case at_SendWindowEnd a of None \<Rightarrow> False | Some e \<Rightarrow> now + guardMillis * millisecond < e) \<and>
     at_ProviderAccountID a = Some (ie_AccountID ev) \<and> at_ProviderIntent a = Some (jsonb c (ie_Canonical ev)) \<and>
     at_IntentFingerprint a = Some (ie_Fingerprint ev)"

definition replay_expired :: "time \<Rightarrow> int \<Rightarrow> string \<Rightarrow> int64 \<Rightarrow> db \<Rightarrow> bool" where
  "replay_expired now guardMillis i fencingToken s =
     (case find (\<lambda>a. fenced i fencingToken a \<and> at_ReplayCount a = 0) (db_Attempts s) of
        None \<Rightarrow> False
      | Some a \<Rightarrow> (case at_SendWindowEnd a of None \<Rightarrow> False | Some e \<Rightarrow> now + guardMillis * millisecond \<ge> e))"

definition replay_send ::
  "codec \<Rightarrow> (nat \<Rightarrow> time) \<Rightarrow> int \<Rightarrow> provider_intent_evidence \<Rightarrow> execution_attempt \<Rightarrow> string \<Rightarrow> int64 \<Rightarrow> db \<Rightarrow>
     (bool \<times> db) result" where
  "replay_send c clock replayGuard ev a i fencingToken s =
     (if replayGuard \<le> 0 then Inl (Errorf ''replay guard must be positive'' [])
      else if at_SentAt a = None \<or> at_ReplayCount a \<noteq> 0 then Inr (False, s)
      else if (case at_SendWindowEnd a of None \<Rightarrow> True | Some e \<Rightarrow> \<not> clock 0 + replayGuard < e)
      then Inl ErrReplayWindowExpired
      else
       (let cond = replayable c (clock 1) (guard_millis replayGuard) ev i fencingToken
        in if affected cond (db_Attempts s) = 1
           then Inr (True, s\<lparr>db_Attempts := update_rows cond
             (\<lambda>a. a\<lparr>at_ReplayCount := at_ReplayCount a + 1\<rparr>) (db_Attempts s)\<rparr>)
           else if replay_expired (clock 2) (guard_millis replayGuard) i fencingToken s
           then Inl ErrReplayWindowExpired
           else Inr (False, s)))"

definition bind_manifest :: "codec \<Rightarrow> string \<Rightarrow> string \<Rightarrow> int64 \<Rightarrow> bool \<Rightarrow> time \<Rightarrow> db \<Rightarrow> db result" where
  "bind_manifest c manifestID i fencingToken replay databaseNow s =
     (if manifestID = [] then Inr s
      else validatePreEffectManifestForSend c manifestID i fencingToken (if replay then 1 else 0) databaseNow s)"

definition complete_send ::
  "codec \<Rightarrow> string \<Rightarrow> string \<Rightarrow> int64 \<Rightarrow> bool \<Rightarrow> time \<Rightarrow> (bool \<times> db) result \<Rightarrow> db \<Rightarrow> (bool \<times> db) result" where
  "complete_send c manifestID i fencingToken replay databaseNow sent s =
     (case sent of
        Inl e \<Rightarrow> Inl e
      | Inr (ok, s1) \<Rightarrow>
          if \<not> ok then Inr (False, s)
          else (case bind_manifest c manifestID i fencingToken replay databaseNow s1 of
             Inl e \<Rightarrow> Inl e
           | Inr s2 \<Rightarrow> Inr (True, insert_event ''execution_attempt_sent''
               [(''attempt_id'', PText i), (''fencing_token'', PInt fencingToken), (''replay'', PBool replay),
                (''pre_effect_manifest_id'', PText manifestID)] s2)))"

definition send_claimed ::
  "codec \<Rightarrow> (nat \<Rightarrow> time) \<Rightarrow> string \<Rightarrow> int64 \<Rightarrow> bool \<Rightarrow> int \<Rightarrow> provider_intent_evidence option \<Rightarrow> string \<Rightarrow>
     execution_attempt \<Rightarrow> operation_row \<Rightarrow> db \<Rightarrow> (bool \<times> db) result" where
  "send_claimed c clock i fencingToken replay replayGuard evidence manifestID a w s =
     (if (replay \<or> at_Intent a = ''place'' \<and> ow_Action w = ''open'') \<and> halted s
      then Inl ErrLiveSendHalted
      else complete_send c manifestID i fencingToken replay (clock 0)
        (if replay
         then (case evidence of
            None \<Rightarrow> Inl (Errorf ''replay provider intent evidence is invalid'' [])
          | Some ev \<Rightarrow> replay_send c clock replayGuard ev a i fencingToken s)
         else first_send (clock 1) i fencingToken s) s)"

definition markAttemptSent ::
  "codec \<Rightarrow> (nat \<Rightarrow> time) \<Rightarrow> string \<Rightarrow> int64 \<Rightarrow> bool \<Rightarrow> int \<Rightarrow> provider_intent_evidence option \<Rightarrow> string \<Rightarrow>
     db \<Rightarrow> (bool \<times> db) result" where
  "markAttemptSent c clock i fencingToken replay replayGuard evidence manifestID s =
     guarded (if replay then replay_evidence_guards c evidence else [])
      (case (if manifestID = [] then Inr () else lockPreEffectEvaluationScope manifestID s) of
         Inl e \<Rightarrow> Inl e
       | Inr _ \<Rightarrow>
          if \<not> send_admitted i replay s then Inr (False, s)
          else (case find (fenced i fencingToken) (db_Attempts s) of
             None \<Rightarrow> Inr (False, s)
           | Some a \<Rightarrow>
              (case find (\<lambda>w. ow_ID w = at_OperationID a) (db_Operations s) of
                 None \<Rightarrow> Inr (False, s)
               | Some w \<Rightarrow> send_claimed c clock i fencingToken replay replayGuard evidence manifestID a w s)))"

definition MarkAttemptSentWithManifest ::
  "codec \<Rightarrow> (nat \<Rightarrow> time) \<Rightarrow> string \<Rightarrow> int64 \<Rightarrow> bool \<Rightarrow> int \<Rightarrow> provider_intent_evidence option \<Rightarrow> string \<Rightarrow>
     db \<Rightarrow> (bool \<times> db) result" where
  "MarkAttemptSentWithManifest c clock i fencingToken replay replayGuard evidence manifestID s =
     (if trim_space manifestID = [] then Inl (Errorf ''pre-effect manifest is required'' [])
      else markAttemptSent c clock i fencingToken replay replayGuard evidence manifestID s)"

section \<open>Resolution\<close>

text \<open>The reservations an attempt refers to must exist, and be at most one.\<close>

definition reservation_lookup :: "execution_attempt \<Rightarrow> db \<Rightarrow> unit result" where
  "reservation_lookup a s =
     (case (at_CloseReservationID a, at_OpenReservationID a) of
        (Some _, Some _) \<Rightarrow> Inl (Errorf ''execution attempt references both open and close reservations'' [])
      | (Some c, None) \<Rightarrow>
          (case one_row (\<lambda>r. cr_ID r = c) (db_CloseReservations s) of Inl e \<Rightarrow> Inl e | Inr _ \<Rightarrow> Inr ())
      | (None, Some r) \<Rightarrow>
          (case one_row (\<lambda>x. rs_ID x = r) (db_OpenReservations s) of Inl e \<Rightarrow> Inl e | Inr _ \<Rightarrow> Inr ())
      | (None, None) \<Rightarrow> Inr ())"

definition resolved_row :: "time \<Rightarrow> attempt_resolution \<Rightarrow> execution_attempt \<Rightarrow> execution_attempt" where
  "resolved_row now r a = a\<lparr>at_State := ar_State r, at_BrokerOrderID := ar_BrokerOrderID r,
     at_LastError := ar_LastError r,
     at_ProviderErrorCode := (if ar_ProviderErrorCode r \<noteq> [] then ar_ProviderErrorCode r else at_ProviderErrorCode a),
     at_CandidateBrokerOrderID := (if at_CandidateBrokerOrderID a \<noteq> [] then at_CandidateBrokerOrderID a
       else ar_CandidateBrokerOrderID r),
     at_CandidateObservedAt := (if at_CandidateBrokerOrderID a \<noteq> [] \<or> ar_CandidateBrokerOrderID r \<noteq> []
       then since now (at_CandidateObservedAt a) else None),
     at_ResolvedAt := (if ar_State r = ''settled'' \<or> ar_State r = ''failed'' then now else 0)\<rparr>"

definition resolvable :: "string \<Rightarrow> int64 \<Rightarrow> attempt_resolution \<Rightarrow> execution_attempt \<Rightarrow> bool" where
  "resolvable i fencingToken r a \<longleftrightarrow> fenced i fencingToken a \<and>
     (ar_CandidateBrokerOrderID r = [] \<or> at_CandidateBrokerOrderID a = [] \<or>
      at_CandidateBrokerOrderID a = ar_CandidateBrokerOrderID r)"

definition leave_gate :: "string \<Rightarrow> db \<Rightarrow> db" where
  "leave_gate i s = s\<lparr>
     db_GateActive := (if db_GateActive s = Some i then None else db_GateActive s),
     db_GateActiveSince := (if db_GateActive s = Some i then None else db_GateActiveSince s),
     db_GateUnknown := (if db_GateUnknown s = Some i then None else db_GateUnknown s),
     db_GateUnknownSince := (if db_GateUnknown s = Some i then None else db_GateUnknownSince s)\<rparr>"

definition resolve_gate :: "time \<Rightarrow> string \<Rightarrow> string \<Rightarrow> db \<Rightarrow> db" where
  "resolve_gate now i state s =
     (if state = ''unknown''
      then (if null_string (db_GateActive s) = i
            then s\<lparr>db_GateActive := None, db_GateActiveSince := None, db_GateUnknown := Some i,
                   db_GateUnknownSince := since now (db_GateUnknownSince s)\<rparr>
            else s)
      else if null_string (db_GateActive s) = i \<or> null_string (db_GateUnknown s) = i then leave_gate i s
      else s)"

definition resolve_operation :: "string \<Rightarrow> string \<Rightarrow> db \<Rightarrow> db" where
  "resolve_operation operationID status s =
     (if status = [] then s
      else set_operation_status operationID
        (if status = ''failed'' then operationStatusAfterFailedAttempt s operationID else status) s)"

definition release_reservations :: "time \<Rightarrow> execution_attempt \<Rightarrow> db \<Rightarrow> db" where
  "release_reservations now a s =
     (let s = (case at_CloseReservationID a of None \<Rightarrow> s | Some c \<Rightarrow> release_close now c s)
      in (case at_OpenReservationID a of None \<Rightarrow> s | Some r \<Rightarrow> release_open now r s))"

definition resolution_events :: "string \<Rightarrow> int64 \<Rightarrow> string \<Rightarrow> attempt_resolution \<Rightarrow> db \<Rightarrow> db" where
  "resolution_events i fencingToken operationID r s =
     (let s = insert_event ''execution_attempt_resolved''
        [(''attempt_id'', PText i), (''operation_id'', PText operationID), (''state'', PText (ar_State r)),
         (''broker_order_id'', PText (ar_BrokerOrderID r)), (''fencing_token'', PInt fencingToken),
         (''last_error'', PText (ar_LastError r)), (''provider_error_code'', PText (ar_ProviderErrorCode r)),
         (''candidate_broker_order_id'', PText (ar_CandidateBrokerOrderID r)),
         (''operator_subject'', PText (ar_OperatorSubject r))] s
      in case ar_OrderEvent r of None \<Rightarrow> s | Some p \<Rightarrow> insert_event ''order_update'' p s)"

text \<open>From the accepted order report on.\<close>

definition resolve_rows :: "time \<Rightarrow> string \<Rightarrow> int64 \<Rightarrow> attempt_resolution \<Rightarrow> execution_attempt \<Rightarrow> db \<Rightarrow> db" where
  "resolve_rows now i fencingToken r a s =
     (let s = s\<lparr>db_Attempts := update_rows (resolvable i fencingToken r) (resolved_row now r) (db_Attempts s)\<rparr>;
          s = resolve_gate now i (ar_State r) s;
          s = resolve_operation (at_OperationID a) (ar_OperationStatus r) s;
          s = (if ar_ReleaseReservation r then release_reservations now a s else s)
      in resolution_events i fencingToken (at_OperationID a) r s)"

definition resolution_report :: "string \<Rightarrow> attempt_resolution \<Rightarrow> order_update option" where
  "resolution_report i r = map_option
     (\<lambda>u. if ou_ExecutionAttemptID u = [] then u\<lparr>ou_ExecutionAttemptID := i\<rparr> else u) (ar_OrderUpdate r)"

definition apply_resolution_report ::
  "time \<Rightarrow> (nat \<Rightarrow> string) \<Rightarrow> order_update option \<Rightarrow> db \<Rightarrow> db result" where
  "apply_resolution_report now newID u s =
     (case u of None \<Rightarrow> Inr s
      | Some u \<Rightarrow> (case applyOrderUpdate now newID u False s of Inl e \<Rightarrow> Inl e | Inr (_, s') \<Rightarrow> Inr s'))"

definition record_report_failure ::
  "(go_error \<Rightarrow> string) \<Rightarrow> time \<Rightarrow> order_update option \<Rightarrow> go_error \<Rightarrow> db \<Rightarrow> go_error \<times> db" where
  "record_report_failure errtext now u cause s =
     (case u of None \<Rightarrow> (cause, s) | Some u \<Rightarrow> recordOrderUpdateFailure errtext now u cause s)"

definition ResolveAttempt ::
  "(go_error \<Rightarrow> string) \<Rightarrow> time \<Rightarrow> (nat \<Rightarrow> string) \<Rightarrow> string \<Rightarrow> int64 \<Rightarrow> attempt_resolution \<Rightarrow> db \<Rightarrow> bool outcome" where
  "ResolveAttempt errtext now newID i fencingToken r s =
     (case find (fenced i fencingToken) (db_Attempts s) of
        None \<Rightarrow> (Inr False, s)
      | Some a \<Rightarrow>
         (case reservation_lookup a s of
            Inl e \<Rightarrow> (Inl e, s)
          | Inr _ \<Rightarrow>
             (case apply_resolution_report now newID (resolution_report i r) s of
                Inl e \<Rightarrow> (case record_report_failure errtext now (resolution_report i r) e s of
                            (e', s') \<Rightarrow> (Inl e', s'))
              | Inr s1 \<Rightarrow>
                  if affected (resolvable i fencingToken r) (db_Attempts s1) \<noteq> 1 then (Inr False, s)
                  else (Inr True, resolve_rows now i fencingToken r a s1))))"


section \<open>Giving up a pending attempt\<close>

definition reject_new_order :: "time \<Rightarrow> execution_attempt \<Rightarrow> db \<Rightarrow> db" where
  "reject_new_order now a s =
     (let cond = (\<lambda>r. o_ExecutionAttemptID r = at_ID a \<and> o_State r = ''new'' \<and> o_BrokerOrderID r = [])
      in if at_Intent a = ''place'' \<or> at_Intent a = ''paper_place''
         then (case find cond (db_Orders s) of
                 None \<Rightarrow> s
               | Some ord \<Rightarrow> insert_event ''order_update''
                   [(''order_id'', PText (o_ID ord)), (''operation_id'', PText (at_OperationID a)),
                    (''state'', PText ''rejected'')]
                   (s\<lparr>db_Orders := update_rows cond (\<lambda>r. r\<lparr>o_State := ''rejected'', o_UpdatedAt := now\<rparr>) (db_Orders s)\<rparr>))
         else s)"

definition expired_prefix :: string where
  "expired_prefix = ''order_expired_policy:''"

definition failure_events :: "execution_attempt \<Rightarrow> string \<Rightarrow> db \<Rightarrow> db" where
  "failure_events a reason s =
     (let s = insert_event ''execution_attempt_failed_gate''
        [(''attempt_id'', PText (at_ID a)), (''operation_id'', PText (at_OperationID a)), (''reason'', PText reason)] s
      in if take (length expired_prefix) reason = expired_prefix
         then insert_event ''order_expired_policy''
           [(''operation_id'', PText (at_OperationID a)), (''attempt_id'', PText (at_ID a)),
            (''reason'', PText (drop (length expired_prefix) reason))] s
         else s)"

definition pending :: "string \<Rightarrow> execution_attempt \<Rightarrow> bool" where
  "pending i a \<longleftrightarrow> at_ID a = i \<and> at_State a = ''pending''"

definition FailPendingAttempt :: "time \<Rightarrow> string \<Rightarrow> string \<Rightarrow> db \<Rightarrow> (bool \<times> db) result" where
  "FailPendingAttempt now i reason s =
     (case find (pending i) (db_Attempts s) of
        None \<Rightarrow> Inr (False, s)
      | Some a \<Rightarrow>
         (case reservation_lookup a s of
            Inl e \<Rightarrow> Inl e
          | Inr _ \<Rightarrow>
             (let s = s\<lparr>db_Attempts := update_rows (pending i)
                    (\<lambda>a. a\<lparr>at_State := ''failed'', at_LastError := reason, at_ResolvedAt := now\<rparr>) (db_Attempts s)\<rparr>;
                  s = set_operation_status (at_OperationID a)
                    (operationStatusAfterFailedAttempt s (at_OperationID a)) s;
                  s = reject_new_order now a s;
                  s = release_reservations now a s
              in Inr (True, failure_events a reason s))))"

end
