(* ===== verification/Policy_Authority.thy ===== *)
theory Policy_Authority
  imports Risk Halt Hex State_Graph
begin

text \<open>
  \<^verbatim>\<open>kernel/internal/store/kernel_policy.go\<close>: which policy is in force. Revisions are immutable rows;
  the single head row names the active one and its generation; every activation leaves an event,
  without which the head is not believed. \<open>clock n\<close> is the n-th reading of the database clock in
  the transaction, \<open>newID\<close> the identity value of the inserted revision.
\<close>

definition ErrKernelPolicyAuthorityMissing :: go_error where
  "ErrKernelPolicyAuthorityMissing = Sentinel ''kernel policy authority is missing''"

definition ErrKernelPolicyAuthorityInvalid :: go_error where
  "ErrKernelPolicyAuthorityInvalid = Sentinel ''kernel policy authority is invalid''"

definition ErrKernelPolicyRevisionConflict :: go_error where
  "ErrKernelPolicyRevisionConflict = Sentinel ''kernel policy revision conflict''"

record kernel_policy_revision =
  kp_ID :: int64
  kp_Generation :: int64
  kp_SchemaVersion :: int64
  kp_Digest :: string
  kp_Policy :: policy
  kp_RecordedAt :: time
  kp_RecordedBy :: string
  kp_Reason :: string
  kp_ChangeClass :: string
  kp_ActivatedAt :: time
  kp_ActivatedBy :: string
  kp_ObservedAt :: time
  kp_auditPresent :: bool
  kp_digestBytes :: string

record policy_codec =
  pc_decode :: "string \<Rightarrow> policy result"
  pc_marshal :: "policy \<Rightarrow> string"
  pc_document :: "int64 \<Rightarrow> policy \<Rightarrow> string"
  pc_sha256 :: "string \<Rightarrow> string"

record revision_input =
  ri_Policy :: policy
  ri_ExpectedGeneration :: int64
  ri_RecordedBy :: string
  ri_Reason :: string

definition change_text :: "change_class \<Rightarrow> string" where
  "change_text c = (case c of ChangeInitial \<Rightarrow> ''initial'' | ChangeTighten \<Rightarrow> ''tighten''
     | ChangeWiden \<Rightarrow> ''widen'' | ChangeMixed \<Rightarrow> ''mixed'')"

definition activation_kind :: string where
  "activation_kind = ''kernel_policy_activated''"

definition conflict_kind :: string where
  "conflict_kind = ''kernel_policy_activation_conflict''"

definition activates :: "int64 \<Rightarrow> int64 \<Rightarrow> event \<Rightarrow> bool" where
  "activates i generation e \<longleftrightarrow> ev_Kind e = activation_kind \<and>
     map_of (ev_Payload e) ''revision_id'' = Some (PInt i) \<and>
     map_of (ev_Payload e) ''generation'' = Some (PInt generation)"


section \<open>Reading the authority\<close>

definition activeKernelPolicyRevision :: "policy_codec \<Rightarrow> db \<Rightarrow> kernel_policy_revision result" where
  "activeKernelPolicyRevision c s =
     (case db_PolicyHead s of
        None \<Rightarrow> Inl ErrNoRows
      | Some h \<Rightarrow>
         (case find (\<lambda>r. kr_ID r = kh_RevisionID h) (db_PolicyRevisions s) of
            None \<Rightarrow> Inl ErrNoRows
          | Some r \<Rightarrow>
             (case DecodeCanonical (pc_decode c) (pc_marshal c) (pc_document c) (pc_sha256 c)
                 (kr_SchemaVersion r) (kr_Policy r) (kr_Digest r) of
                Inl e \<Rightarrow> Inl (Wrapf ErrKernelPolicyAuthorityInvalid ''%w: %v'')
              | Inr decoded \<Rightarrow> Inr \<lparr>kp_ID = kr_ID r, kp_Generation = kh_Generation h,
                  kp_SchemaVersion = kr_SchemaVersion r, kp_Digest = hex_encode (kr_Digest r),
                  kp_Policy = decoded, kp_RecordedAt = kr_RecordedAt r, kp_RecordedBy = kr_RecordedBy r,
                  kp_Reason = kr_Reason r, kp_ChangeClass = kr_ChangeClass r,
                  kp_ActivatedAt = kh_ActivatedAt h, kp_ActivatedBy = kh_ActivatedBy h, kp_ObservedAt = 0,
                  kp_auditPresent = list_ex (activates (kr_ID r) (kh_Generation h)) (db_Events s),
                  kp_digestBytes = kr_Digest r\<rparr>)))"

definition change_known :: "string \<Rightarrow> bool" where
  "change_known t \<longleftrightarrow> t = ''initial'' \<or> t = ''tighten'' \<or> t = ''widen'' \<or> t = ''mixed''"

definition authority_guards :: "kernel_policy_revision \<Rightarrow> (bool \<times> go_error) list" where
  "authority_guards r =
     [(kp_ID r \<le> 0 \<or> kp_Generation r \<le> 0 \<or> kp_SchemaVersion r \<noteq> SchemaVersion \<or> length (kp_digestBytes r) \<noteq> 32 \<or>
         trim_space (kp_RecordedBy r) = [] \<or> trim_space (kp_Reason r) = [] \<or> trim_space (kp_ActivatedBy r) = [] \<or>
         kp_RecordedAt r = 0 \<or> kp_ActivatedAt r = 0 \<or> kp_ObservedAt r = 0 \<or> \<not> kp_auditPresent r,
         ErrKernelPolicyAuthorityInvalid),
      (\<not> change_known (kp_ChangeClass r), ErrKernelPolicyAuthorityInvalid),
      (kp_RecordedAt r > kp_ActivatedAt r \<or> kp_ActivatedAt r > kp_ObservedAt r,
         Wrapf ErrKernelPolicyAuthorityInvalid ''%w: authority is future-dated'')]"

definition validateKernelPolicyAuthority :: "kernel_policy_revision \<Rightarrow> unit result" where
  "validateKernelPolicyAuthority r = guarded (authority_guards r) (Inr ())"

definition LoadKernelPolicyAuthority :: "policy_codec \<Rightarrow> time \<Rightarrow> db \<Rightarrow> kernel_policy_revision result" where
  "LoadKernelPolicyAuthority c now s =
     (case activeKernelPolicyRevision c s of
        Inl e \<Rightarrow> Inl (if errors_is e ErrNoRows then ErrKernelPolicyAuthorityMissing else e)
      | Inr r \<Rightarrow>
         (let r = r\<lparr>kp_ObservedAt := now\<rparr>
          in case validateKernelPolicyAuthority r of Inl e \<Rightarrow> Inl e | Inr _ \<Rightarrow> Inr r))"

text \<open>\<open>BoundKernelPolicy\<close>: the revision an operation was bound to, active or not.\<close>

definition BoundKernelPolicy :: "policy_codec \<Rightarrow> time \<Rightarrow> operation_row option \<Rightarrow> db \<Rightarrow> kernel_policy_revision result" where
  "BoundKernelPolicy c now operation s =
     (case operation of
        None \<Rightarrow> Inl ErrKernelPolicyAuthorityInvalid
      | Some w \<Rightarrow>
         (case (ow_KernelPolicyRevisionID w, ow_KernelPolicyGeneration w, ow_KernelPolicyDigest w) of
            (Some i, Some g, Some d) \<Rightarrow>
              if i \<le> 0 \<or> g \<le> 0 \<or> length d \<noteq> 64 then Inl ErrKernelPolicyAuthorityInvalid
              else (case find (\<lambda>r. kr_ID r = i \<and> hex_encode (kr_Digest r) = d) (db_PolicyRevisions s) of
                None \<Rightarrow> Inl ErrKernelPolicyAuthorityInvalid
              | Some r \<Rightarrow>
                 (case find (activates i g) (db_Events s) of
                    None \<Rightarrow> Inl ErrKernelPolicyAuthorityInvalid
                  | Some e \<Rightarrow>
                     (case DecodeCanonical (pc_decode c) (pc_marshal c) (pc_document c) (pc_sha256 c)
                         (kr_SchemaVersion r) (kr_Policy r) (kr_Digest r) of
                        Inl _ \<Rightarrow> Inl ErrKernelPolicyAuthorityInvalid
                      | Inr decoded \<Rightarrow>
                         (let rev = \<lparr>kp_ID = kr_ID r, kp_Generation = g,
                            kp_SchemaVersion = kr_SchemaVersion r, kp_Digest = hex_encode (kr_Digest r),
                            kp_Policy = decoded, kp_RecordedAt = kr_RecordedAt r, kp_RecordedBy = kr_RecordedBy r,
                            kp_Reason = kr_Reason r, kp_ChangeClass = kr_ChangeClass r,
                            kp_ActivatedAt = (case ev_TS e of None \<Rightarrow> 0 | Some t \<Rightarrow> t),
                            kp_ActivatedBy = payload_text ''recorded_by'' e, kp_ObservedAt = now,
                            kp_auditPresent = True, kp_digestBytes = kr_Digest r\<rparr>
                          in case validateKernelPolicyAuthority rev of Inl e \<Rightarrow> Inl e | Inr _ \<Rightarrow> Inr rev))))
          | _ \<Rightarrow> Inl ErrKernelPolicyAuthorityInvalid))"


section \<open>Recording a revision\<close>

definition recordKernelPolicyConflict :: "revision_input \<Rightarrow> string \<Rightarrow> int64 \<Rightarrow> db \<Rightarrow> db" where
  "recordKernelPolicyConflict i digest activeGeneration s = insert_event conflict_kind
     [(''expected_generation'', PInt (ri_ExpectedGeneration i)), (''active_generation'', PInt activeGeneration),
      (''candidate_digest'', PText digest), (''recorded_by'', PText (ri_RecordedBy i)),
      (''reason'', PText (ri_Reason i))] s"

text \<open>The three writes of an activation: the revision, the head, the event.\<close>

definition activation_payload :: "kernel_policy_revision \<Rightarrow> kernel_policy_revision option \<Rightarrow> (string \<times> payload) list" where
  "activation_payload r active =
     [(''revision_id'', PInt (kp_ID r)), (''generation'', PInt (kp_Generation r)),
      (''schema_version'', PInt (kp_SchemaVersion r)), (''digest'', PText (kp_Digest r)),
      (''change'', PText (kp_ChangeClass r)), (''recorded_by'', PText (kp_RecordedBy r)),
      (''reason'', PText (kp_Reason r))] @
     (case active of None \<Rightarrow> []
      | Some a \<Rightarrow> [(''previous_revision_id'', PInt (kp_ID a)), (''previous_generation'', PInt (kp_Generation a)),
                  (''previous_digest'', PText (kp_Digest a))])"

definition set_head :: "revision_input \<Rightarrow> kernel_policy_revision \<Rightarrow> db \<Rightarrow> db" where
  "set_head i r s = s\<lparr>db_PolicyHead := Some \<lparr>kh_RevisionID = kp_ID r, kh_Generation = kp_Generation r,
     kh_ActivatedAt = kp_ActivatedAt r, kh_ActivatedBy = ri_RecordedBy i, kh_Reason = ri_Reason i\<rparr>\<rparr>"

definition head_updatable :: "revision_input \<Rightarrow> kernel_policy_revision option \<Rightarrow> db \<Rightarrow> bool" where
  "head_updatable i active s \<longleftrightarrow>
     (case (active, db_PolicyHead s) of
        (None, h) \<Rightarrow> h = None
      | (Some _, Some h) \<Rightarrow> kh_Generation h = ri_ExpectedGeneration i
      | _ \<Rightarrow> False)"

definition activate_revision ::
  "revision_input \<Rightarrow> kernel_policy_revision \<Rightarrow> string \<Rightarrow> kernel_policy_revision option \<Rightarrow> db \<Rightarrow>
     (kernel_policy_revision \<times> db) result" where
  "activate_revision i r body active s =
     (let s = s\<lparr>db_PolicyRevisions := db_PolicyRevisions s @ [\<lparr>kr_ID = kp_ID r, kr_SchemaVersion = SchemaVersion,
          kr_Policy = body, kr_Digest = kp_digestBytes r, kr_RecordedAt = kp_RecordedAt r,
          kr_RecordedBy = ri_RecordedBy i, kr_Reason = ri_Reason i, kr_ChangeClass = kp_ChangeClass r\<rparr>]\<rparr>
      in if \<not> head_updatable i active s then Inl ErrKernelPolicyRevisionConflict
         else case insert_event_at (kp_ActivatedAt r) activation_kind (activation_payload r active) (set_head i r s) of
           Inl e \<Rightarrow> Inl e
         | Inr s \<Rightarrow>
             (case validateKernelPolicyAuthority r of Inl e \<Rightarrow> Inl e | Inr _ \<Rightarrow> Inr (r, s)))"

definition new_revision ::
  "revision_input \<Rightarrow> int64 \<Rightarrow> (nat \<Rightarrow> time) \<Rightarrow> policy \<Rightarrow> string \<Rightarrow> int64 \<Rightarrow> change_class \<Rightarrow> kernel_policy_revision" where
  "new_revision i newID clock normalized digest generation change =
     \<lparr>kp_ID = newID, kp_Generation = generation, kp_SchemaVersion = SchemaVersion,
      kp_Digest = hex_encode digest, kp_Policy = normalized, kp_RecordedAt = clock 1,
      kp_RecordedBy = ri_RecordedBy i, kp_Reason = ri_Reason i, kp_ChangeClass = change_text change,
      kp_ActivatedAt = clock 2, kp_ActivatedBy = ri_RecordedBy i, kp_ObservedAt = clock 3,
      kp_auditPresent = True, kp_digestBytes = digest\<rparr>"

definition first_revision ::
  "revision_input \<Rightarrow> int64 \<Rightarrow> (nat \<Rightarrow> time) \<Rightarrow> policy \<Rightarrow> string \<Rightarrow> string \<Rightarrow> db \<Rightarrow> kernel_policy_revision outcome" where
  "first_revision i newID clock normalized body digest s =
     (if ri_ExpectedGeneration i \<noteq> 0
      then (Inl (Wrapf ErrKernelPolicyRevisionConflict ''%w: expected %d, active generation is missing''),
            recordKernelPolicyConflict i (hex_encode digest) 0 s)
      else case activate_revision i (new_revision i newID clock normalized digest 1 ChangeInitial) body None s of
        Inl e \<Rightarrow> (Inl e, s)
      | Inr (r, s') \<Rightarrow> (Inr r, s'))"

definition next_revision ::
  "revision_input \<Rightarrow> int64 \<Rightarrow> (nat \<Rightarrow> time) \<Rightarrow> policy \<Rightarrow> string \<Rightarrow> string \<Rightarrow> kernel_policy_revision \<Rightarrow> db \<Rightarrow>
     kernel_policy_revision outcome" where
  "next_revision i newID clock normalized body digest active s =
     (if kp_digestBytes active = digest then (Inr active, s)
      else if ri_ExpectedGeneration i \<noteq> kp_Generation active
      then (Inl (Wrapf ErrKernelPolicyRevisionConflict ''%w: expected %d, active %d''),
            recordKernelPolicyConflict i (hex_encode digest) (kp_Generation active) s)
      else case ClassifyChange (kp_Policy active) normalized of
        Inl e \<Rightarrow> (Inl (Wrapf e ''classify kernel policy revision: %w''), s)
      | Inr change \<Rightarrow>
          (let nextGeneration = wrap64 (kp_Generation active + 1)
           in if nextGeneration \<le> kp_Generation active then (Inl ErrKernelPolicyAuthorityInvalid, s)
              else case activate_revision i (new_revision i newID clock normalized digest nextGeneration change)
                  body (Some active) s of
                Inl e \<Rightarrow> (Inl e, s)
              | Inr (r, s') \<Rightarrow> (Inr r, s')))"

definition revision_input_invalid :: "revision_input \<Rightarrow> bool" where
  "revision_input_invalid i \<longleftrightarrow> ri_ExpectedGeneration i < 0 \<or> ri_RecordedBy i = [] \<or>
     length (ri_RecordedBy i) > 200 \<or> ri_Reason i = [] \<or> length (ri_Reason i) > 1000"

definition record_revision ::
  "policy_codec \<Rightarrow> revision_input \<Rightarrow> int64 \<Rightarrow> (nat \<Rightarrow> time) \<Rightarrow> policy \<Rightarrow> string \<Rightarrow> string \<Rightarrow> db \<Rightarrow>
     kernel_policy_revision outcome" where
  "record_revision c i newID clock normalized body digest s =
     (case activeKernelPolicyRevision c s of
        Inl e \<Rightarrow>
          if errors_is e ErrNoRows then first_revision i newID clock normalized body digest s else (Inl e, s)
      | Inr active \<Rightarrow>
          (let active = active\<lparr>kp_ObservedAt := clock 0\<rparr>
           in case validateKernelPolicyAuthority active of
                Inl e \<Rightarrow> (Inl e, s)
              | Inr _ \<Rightarrow> next_revision i newID clock normalized body digest active s))"

definition RecordKernelPolicyRevision ::
  "policy_codec \<Rightarrow> revision_input \<Rightarrow> int64 \<Rightarrow> (nat \<Rightarrow> time) \<Rightarrow> db \<Rightarrow> kernel_policy_revision outcome" where
  "RecordKernelPolicyRevision c input newID clock s =
     (let i = input\<lparr>ri_RecordedBy := trim_space (ri_RecordedBy input), ri_Reason := trim_space (ri_Reason input)\<rparr>
      in if revision_input_invalid i then (Inl (Errorf ''invalid kernel policy revision'' []), s)
         else case Canonical (pc_marshal c) (pc_document c) (pc_sha256 c) (ri_Policy i) of
           Inl e \<Rightarrow> (Inl (Wrapf e ''invalid kernel policy revision: %w''), s)
         | Inr (normalized, body, digest) \<Rightarrow> record_revision c i newID clock normalized body digest s)"

section \<open>Compare and swap\<close>

definition head_generation :: "db \<Rightarrow> int64" where
  "head_generation s = (case db_PolicyHead s of None \<Rightarrow> 0 | Some h \<Rightarrow> kh_Generation h)"

text \<open>The rows an activation of \<open>r\<close> writes, and what it did.\<close>

definition stored_row :: "kernel_policy_revision \<Rightarrow> string \<Rightarrow> policy_revision_row" where
  "stored_row r body = \<lparr>kr_ID = kp_ID r, kr_SchemaVersion = kp_SchemaVersion r, kr_Policy = body,
     kr_Digest = kp_digestBytes r, kr_RecordedAt = kp_RecordedAt r, kr_RecordedBy = kp_RecordedBy r,
     kr_Reason = kp_Reason r, kr_ChangeClass = kp_ChangeClass r\<rparr>"

definition head_of :: "kernel_policy_revision \<Rightarrow> policy_head_row" where
  "head_of r = \<lparr>kh_RevisionID = kp_ID r, kh_Generation = kp_Generation r, kh_ActivatedAt = kp_ActivatedAt r,
     kh_ActivatedBy = kp_ActivatedBy r, kh_Reason = kp_Reason r\<rparr>"

definition activated ::
  "int64 \<Rightarrow> policy \<Rightarrow> string \<Rightarrow> string \<Rightarrow> int64 \<Rightarrow> kernel_policy_revision \<Rightarrow> db \<Rightarrow> db \<Rightarrow> bool" where
  "activated newID n body digest expected r s s' \<longleftrightarrow>
     head_generation s = expected \<and> kp_Generation r = expected + 1 \<and> kp_ID r = newID \<and> kp_Policy r = n \<and>
     kp_digestBytes r = digest \<and> kp_Digest r = hex_encode digest \<and> kp_SchemaVersion r = SchemaVersion \<and>
     kp_auditPresent r \<and> validateKernelPolicyAuthority r = Inr () \<and>
     (\<exists>e. activates (kp_ID r) (kp_Generation r) e \<and>
        s' = s\<lparr>db_PolicyRevisions := db_PolicyRevisions s @ [stored_row r body],
               db_PolicyHead := Some (head_of r), db_Events := db_Events s @ [e]\<rparr>)"

text \<open>What a call did: it failed and at most left events; or the policy was active already; or it was activated.\<close>

definition revision_effect ::
  "policy_codec \<Rightarrow> int64 \<Rightarrow> policy \<Rightarrow> string \<Rightarrow> string \<Rightarrow> int64 \<Rightarrow> db \<Rightarrow> kernel_policy_revision result \<Rightarrow> db \<Rightarrow> bool" where
  "revision_effect c newID n body digest expected s res s' =
     (case res of
        Inl _ \<Rightarrow> only_events s s'
      | Inr r \<Rightarrow>
          s' = s \<and> (\<exists>a t. activeKernelPolicyRevision c s = Inr a \<and> r = a\<lparr>kp_ObservedAt := t\<rparr> \<and>
             kp_digestBytes a = digest \<and> validateKernelPolicyAuthority r = Inr ()) \<or>
          activated newID n body digest expected r s s')"

lemma revision_effect_simps [simp]:
  "revision_effect c newID n body digest expected s (Inl e) s' = only_events s s'"
  "revision_effect c newID n body digest expected s (Inr r) s' =
     (s' = s \<and> (\<exists>a t. activeKernelPolicyRevision c s = Inr a \<and> r = a\<lparr>kp_ObservedAt := t\<rparr> \<and>
             kp_digestBytes a = digest \<and> validateKernelPolicyAuthority r = Inr ()) \<or>
          activated newID n body digest expected r s s')"
  by (simp_all add: revision_effect_def)

lemma activates_payload:
  "activates (kp_ID r) (kp_Generation r) \<lparr>ev_Kind = activation_kind, ev_Payload = activation_payload r a, ev_TS = t\<rparr>"
  by (simp add: activates_def activation_payload_def)

lemma activate_revision_effect:
  assumes "activate_revision i r body a s = Inr (r', s')"
  shows "r' = r" "head_updatable i a s" "validateKernelPolicyAuthority r = Inr ()"
    "s' = s\<lparr>db_PolicyRevisions := db_PolicyRevisions s @ [\<lparr>kr_ID = kp_ID r, kr_SchemaVersion = SchemaVersion,
          kr_Policy = body, kr_Digest = kp_digestBytes r, kr_RecordedAt = kp_RecordedAt r,
          kr_RecordedBy = ri_RecordedBy i, kr_Reason = ri_Reason i, kr_ChangeClass = kp_ChangeClass r\<rparr>],
        db_PolicyHead := Some \<lparr>kh_RevisionID = kp_ID r, kh_Generation = kp_Generation r,
          kh_ActivatedAt = kp_ActivatedAt r, kh_ActivatedBy = ri_RecordedBy i, kh_Reason = ri_Reason i\<rparr>,
        db_Events := db_Events s @ [\<lparr>ev_Kind = activation_kind, ev_Payload = activation_payload r a,
          ev_TS = Some (kp_ActivatedAt r)\<rparr>]\<rparr>"
  using assms unfolding activate_revision_def insert_event_at_def set_head_def head_updatable_def Let_def
  by (auto simp: case_sum_Inr_iff split: if_splits)

lemma activate_new:
  assumes "activate_revision i (new_revision i newID clock n digest g change) body a s = Inr (r', s')"
    "head_generation s = expected" "g = expected + 1"
  shows "activated newID n body digest expected r' s s'"
proof -
  obtain r where r: "r = new_revision i newID clock n digest g change" by blast
  note e = activate_revision_effect[OF assms(1)[folded r]]
  have "s' = s\<lparr>db_PolicyRevisions := db_PolicyRevisions s @ [stored_row r body],
      db_PolicyHead := Some (head_of r), db_Events := db_Events s @ [\<lparr>ev_Kind = activation_kind,
        ev_Payload = activation_payload r a, ev_TS = Some (kp_ActivatedAt r)\<rparr>]\<rparr>"
    unfolding e(4) by (simp add: stored_row_def head_of_def r new_revision_def)
  then have "\<exists>ev. activates (kp_ID r) (kp_Generation r) ev \<and>
      s' = s\<lparr>db_PolicyRevisions := db_PolicyRevisions s @ [stored_row r body],
             db_PolicyHead := Some (head_of r), db_Events := db_Events s @ [ev]\<rparr>"
    using activates_payload by blast
  moreover have "kp_Generation r = expected + 1" "kp_ID r = newID" "kp_Policy r = n" "kp_digestBytes r = digest"
    "kp_Digest r = hex_encode digest" "kp_SchemaVersion r = SchemaVersion" "kp_auditPresent r"
    by (simp_all add: r new_revision_def assms(3))
  ultimately show ?thesis unfolding activated_def e(1) using assms(2) e(3) by blast
qed

lemma first_revision_effect:
  assumes "first_revision i newID clock n body digest s = (res, s')"
  shows "revision_effect c newID n body digest (ri_ExpectedGeneration i) s res s'"
proof (cases "ri_ExpectedGeneration i \<noteq> 0")
  case True
  then have "only_events s s' \<and> (\<exists>e. res = Inl e)" using assms
    by (auto simp: first_revision_def recordKernelPolicyConflict_def)
  then show ?thesis by auto
next
  case False
  show ?thesis
  proof (cases "activate_revision i (new_revision i newID clock n digest 1 ChangeInitial) body None s")
    case (Inl e)
    then show ?thesis using assms False by (auto simp: first_revision_def)
  next
    case (Inr p)
    obtain r t where p: "p = (r, t)" by (cases p)
    have "head_generation s = 0"
      using activate_revision_effect(2)[OF Inr[unfolded p]] by (simp add: head_updatable_def head_generation_def)
    then have "activated newID n body digest (ri_ExpectedGeneration i) r s t"
      using activate_new[OF Inr[unfolded p]] False by simp
    then show ?thesis using assms False Inr p by (auto simp: first_revision_def)
  qed
qed

lemma next_generation: "in_int64 g \<Longrightarrow> \<not> wrap64 (g + 1) \<le> g \<Longrightarrow> wrap64 (g + 1) = g + 1"
  by (cases "in_int64 (g + 1)") (auto simp: int64_simps in_int64_def wrap64_def)

lemma next_revision_effect:
  assumes run: "next_revision i newID clock n body digest (a\<lparr>kp_ObservedAt := t\<rparr>) s = (res, s')"
    and a: "activeKernelPolicyRevision c s = Inr a" and g: "in_int64 (ri_ExpectedGeneration i)"
    and ok: "validateKernelPolicyAuthority (a\<lparr>kp_ObservedAt := t\<rparr>) = Inr ()"
  shows "revision_effect c newID n body digest (ri_ExpectedGeneration i) s res s'"
proof -
  let ?a = "a\<lparr>kp_ObservedAt := t\<rparr>"
  obtain h where h: "db_PolicyHead s = Some h" "kp_Generation a = kh_Generation h"
    using a by (auto simp: activeKernelPolicyRevision_def case_sum_Inr_iff split: option.splits)
  consider "kp_digestBytes a = digest" | "kp_digestBytes a \<noteq> digest" "ri_ExpectedGeneration i \<noteq> kp_Generation a"
    | "kp_digestBytes a \<noteq> digest" "ri_ExpectedGeneration i = kp_Generation a" by blast
  then show ?thesis
  proof cases
    case 1
    then have "res = Inr ?a" "s' = s" using run by (auto simp: next_revision_def)
    then show ?thesis using a 1 ok by auto
  next
    case 2
    then show ?thesis using run by (auto simp: next_revision_def recordKernelPolicyConflict_def)
  next
    case 3
    show ?thesis
    proof (cases "ClassifyChange (kp_Policy a) n")
      case (Inl e)
      then show ?thesis using run 3 by (auto simp: next_revision_def)
    next
      case (Inr change)
      let ?g = "wrap64 (kp_Generation a + 1)"
      show ?thesis
      proof (cases "?g \<le> kp_Generation a")
        case True
        then show ?thesis using run 3 Inr by (auto simp: next_revision_def Let_def)
      next
        case False
        have gen: "?g = ri_ExpectedGeneration i + 1" using next_generation g False 3 by simp
        show ?thesis
        proof (cases "activate_revision i (new_revision i newID clock n digest ?g change) body (Some ?a) s")
          case (Inl e)
          then show ?thesis using run 3 Inr False by (auto simp: next_revision_def Let_def)
        next
          case act: (Inr p)
          obtain r u where p: "p = (r, u)" by (cases p)
          have "activated newID n body digest (ri_ExpectedGeneration i) r s u"
            by (rule activate_new[OF act[unfolded p]]) (use h 3 gen in \<open>simp_all add: head_generation_def\<close>)
          moreover have "res = Inr r" "s' = u" using run 3 Inr False act p by (auto simp: next_revision_def Let_def)
          ultimately show ?thesis by simp
        qed
      qed
    qed
  qed
qed

lemma record_revision_effect:
  assumes run: "record_revision c i newID clock n body digest s = (res, s')" and g: "in_int64 (ri_ExpectedGeneration i)"
  shows "revision_effect c newID n body digest (ri_ExpectedGeneration i) s res s'"
proof (cases "activeKernelPolicyRevision c s")
  case (Inl e)
  show ?thesis
  proof (cases "errors_is e ErrNoRows")
    case True
    then show ?thesis using run Inl by (intro first_revision_effect) (simp add: record_revision_def)
  next
    case False
    then have "res = Inl e" "s' = s" using run Inl by (auto simp: record_revision_def)
    then show ?thesis by simp
  qed
next
  case (Inr a)
  let ?a = "a\<lparr>kp_ObservedAt := clock 0\<rparr>"
  show ?thesis
  proof (cases "validateKernelPolicyAuthority ?a")
    case (Inl e)
    then have "res = Inl e" "s' = s" using run Inr by (auto simp: record_revision_def Let_def)
    then show ?thesis by simp
  next
    case ok: (Inr u)
    then have "next_revision i newID clock n body digest ?a s = (res, s')"
      using run Inr by (simp add: record_revision_def Let_def)
    then show ?thesis by (rule next_revision_effect[OF _ Inr g]) (use ok in simp)
  qed
qed

text \<open>The three things a caller's policy is stored as.\<close>

definition document_of :: "policy_codec \<Rightarrow> policy \<Rightarrow> string" where
  "document_of c p = pc_marshal c (canonical_form p)"

definition digest_of :: "policy_codec \<Rightarrow> policy \<Rightarrow> string" where
  "digest_of c p = pc_sha256 c (pc_document c SchemaVersion (canonical_form p))"

abbreviation call_effect :: "policy_codec \<Rightarrow> revision_input \<Rightarrow> int64 \<Rightarrow> db \<Rightarrow> kernel_policy_revision result \<Rightarrow> db \<Rightarrow> bool" where
  "call_effect c i newID s res s' \<equiv> revision_effect c newID (canonical_form (ri_Policy i)) (document_of c (ri_Policy i))
     (digest_of c (ri_Policy i)) (ri_ExpectedGeneration i) s res s'"

lemma revision_call_effect:
  assumes run: "RecordKernelPolicyRevision c i newID clock s = (res, s')" and g: "in_int64 (ri_ExpectedGeneration i)"
  shows "call_effect c i newID s res s'" "is_ok res \<Longrightarrow> canonical_policy (canonical_form (ri_Policy i))"
proof -
  obtain j where j: "j = i\<lparr>ri_RecordedBy := trim_space (ri_RecordedBy i), ri_Reason := trim_space (ri_Reason i)\<rparr>" by blast
  have jf: "ri_ExpectedGeneration j = ri_ExpectedGeneration i" "ri_Policy j = ri_Policy i" by (simp_all add: j)
  have both: "call_effect c i newID s res s' \<and> (is_ok res \<longrightarrow> canonical_policy (canonical_form (ri_Policy i)))"
  proof (cases "revision_input_invalid j")
    case True
    then have "s' = s \<and> (\<exists>e. res = Inl e)" using run by (auto simp: RecordKernelPolicyRevision_def Let_def simp flip: j)
    then show ?thesis by auto
  next
    case False
    show ?thesis
    proof (cases "Canonical (pc_marshal c) (pc_document c) (pc_sha256 c) (ri_Policy i)")
      case (Inl e)
      then have "s' = s \<and> (\<exists>e. res = Inl e)"
        using run False by (auto simp: RecordKernelPolicyRevision_def Let_def jf simp flip: j)
      then show ?thesis by auto
    next
      case (Inr p)
      then have p: "p = (canonical_form (ri_Policy i), document_of c (ri_Policy i), digest_of c (ri_Policy i))"
        and can: "canonical_policy (canonical_form (ri_Policy i))"
        by (simp_all add: Canonical_ok document_of_def digest_of_def)
      have "record_revision c j newID clock (canonical_form (ri_Policy i)) (document_of c (ri_Policy i))
          (digest_of c (ri_Policy i)) s = (res, s')"
        using run False Inr p by (simp add: RecordKernelPolicyRevision_def Let_def jf flip: j)
      then show ?thesis using record_revision_effect g can jf by metis
    qed
  qed
  show "call_effect c i newID s res s'" using both by blast
  show "is_ok res \<Longrightarrow> canonical_policy (canonical_form (ri_Policy i))" using both by blast
qed

section \<open>What was recorded is what is in force\<close>

definition codec_faithful :: "policy_codec \<Rightarrow> policy \<Rightarrow> bool" where
  "codec_faithful c p \<longleftrightarrow> pc_decode c (pc_marshal c p) = Inr p \<and>
     length (pc_sha256 c (pc_document c SchemaVersion p)) = 32"

definition unused_revision :: "int64 \<Rightarrow> db \<Rightarrow> bool" where
  "unused_revision i s \<longleftrightarrow> list_all (\<lambda>r. kr_ID r \<noteq> i) (db_PolicyRevisions s)"

lemma find_last: "\<not> P x \<Longrightarrow> find P (xs @ [x]) = find P xs" "list_all (\<lambda>r. \<not> P r) xs \<Longrightarrow> P x \<Longrightarrow> find P (xs @ [x]) = Some x"
  by (induction xs) auto

lemma activated_active:
  assumes act: "activated newID (canonical_form p) (document_of c p) (digest_of c p) expected r s s'"
    and c: "codec_faithful c (canonical_form p)" "canonical_policy (canonical_form p)" and u: "unused_revision newID s"
  shows "activeKernelPolicyRevision c s' = Inr (r\<lparr>kp_ObservedAt := 0\<rparr>)"
proof -
  obtain e where e: "activates (kp_ID r) (kp_Generation r) e"
    and s': "s' = s\<lparr>db_PolicyRevisions := db_PolicyRevisions s @ [stored_row r (document_of c p)],
        db_PolicyHead := Some (head_of r), db_Events := db_Events s @ [e]\<rparr>"
    and f: "kp_ID r = newID" "kp_Policy r = canonical_form p" "kp_digestBytes r = digest_of c p"
      "kp_Digest r = hex_encode (digest_of c p)" "kp_SchemaVersion r = SchemaVersion" "kp_auditPresent r"
    using act unfolding activated_def by blast
  have "find (\<lambda>x. kr_ID x = kp_ID r) (db_PolicyRevisions s @ [stored_row r (document_of c p)]) = Some (stored_row r (document_of c p))"
    using u by (intro find_last(2)) (simp_all add: unused_revision_def f(1) stored_row_def)
  moreover have "DecodeCanonical (pc_decode c) (pc_marshal c) (pc_document c) (pc_sha256 c)
      SchemaVersion (document_of c p) (digest_of c p) = Inr (canonical_form p)"
    using c unfolding DecodeCanonical_ok by (simp add: codec_faithful_def document_of_def digest_of_def)
  ultimately show ?thesis using e
    by (simp add: activeKernelPolicyRevision_def s' head_of_def)
      (simp add: stored_row_def f)
qed

lemma validate_later:
  assumes "validateKernelPolicyAuthority r = Inr ()" "kp_ObservedAt r \<le> now" "now \<noteq> 0"
  shows "validateKernelPolicyAuthority (r\<lparr>kp_ObservedAt := now\<rparr>) = Inr ()"
  using assms by (auto simp: validateKernelPolicyAuthority_def authority_guards_def)

text \<open>what was recorded is what is in force. After a successful call, whether the policy was activated
  or was active already, loading the authority at any later time returns exactly the revision the
  call returned.\<close>

lemma recorded_policy_loads:
  assumes "RecordKernelPolicyRevision c i newID clock s = (Inr r, s')" "in_int64 (ri_ExpectedGeneration i)"
    and "codec_faithful c (canonical_form (ri_Policy i))" "unused_revision newID s"
    and "kp_ObservedAt r \<le> now" "now \<noteq> 0"
  shows "LoadKernelPolicyAuthority c now s' = Inr (r\<lparr>kp_ObservedAt := now\<rparr>)"
proof -
  note e = revision_call_effect[OF assms(1,2)]
  have "\<exists>t. activeKernelPolicyRevision c s' = Inr (r\<lparr>kp_ObservedAt := t\<rparr>)" "validateKernelPolicyAuthority r = Inr ()"
  proof -
    from e(1)[simplified]
    have "(\<exists>t. activeKernelPolicyRevision c s' = Inr (r\<lparr>kp_ObservedAt := t\<rparr>)) \<and> validateKernelPolicyAuthority r = Inr ()"
    proof
      assume "s' = s \<and> (\<exists>a. activeKernelPolicyRevision c s = Inr a \<and> (\<exists>t. r = a\<lparr>kp_ObservedAt := t\<rparr>) \<and>
        kp_digestBytes a = digest_of c (ri_Policy i) \<and> validateKernelPolicyAuthority r = Inr ())"
      then obtain a t where a: "s' = s" "activeKernelPolicyRevision c s = Inr a" "r = a\<lparr>kp_ObservedAt := t\<rparr>"
        "validateKernelPolicyAuthority r = Inr ()" by blast
      then have "activeKernelPolicyRevision c s' = Inr (r\<lparr>kp_ObservedAt := kp_ObservedAt a\<rparr>)" by simp
      then show ?thesis using a(4) by blast
    next
      assume act: "activated newID (canonical_form (ri_Policy i)) (document_of c (ri_Policy i)) (digest_of c (ri_Policy i))
        (ri_ExpectedGeneration i) r s s'"
      have "activeKernelPolicyRevision c s' = Inr (r\<lparr>kp_ObservedAt := 0\<rparr>)"
        by (rule activated_active[OF act assms(3) e(2) assms(4)]) simp
      then show ?thesis using act by (auto simp: activated_def)
    qed
    then show "\<exists>t. activeKernelPolicyRevision c s' = Inr (r\<lparr>kp_ObservedAt := t\<rparr>)" "validateKernelPolicyAuthority r = Inr ()" by blast+
  qed
  then show ?thesis using validate_later[of r now] assms(5,6) by (auto simp: LoadKernelPolicyAuthority_def Let_def)
qed


section \<open>Concurrent writers\<close>

text \<open>A step is one call by any writer with any input.\<close>

inductive policy_step :: "policy_codec \<Rightarrow> db \<Rightarrow> db \<Rightarrow> bool" for c where
  record_call: "RecordKernelPolicyRevision c i newID clock s = (res, s') \<Longrightarrow> in_int64 (ri_ExpectedGeneration i) \<Longrightarrow>
    policy_step c s s'"

inductive_cases policy_stepE: "policy_step c s t"

text \<open>The history of activations: how often the head moved, and the revisions in order.\<close>

definition extends_authority :: "db \<Rightarrow> db \<Rightarrow> bool" where
  "extends_authority s t \<longleftrightarrow> (\<exists>rows. db_PolicyRevisions t = db_PolicyRevisions s @ rows \<and>
     head_generation t = head_generation s + int (length rows) \<and>
     (rows = [] \<or> (\<exists>h. db_PolicyHead t = Some h \<and> kh_RevisionID h = kr_ID (last rows))) \<and>
     (rows = [] \<longrightarrow> db_PolicyHead t = db_PolicyHead s))"

lemma extends_refl [simp]: "extends_authority s s"
  by (simp add: extends_authority_def)

lemma extends_trans:
  assumes "extends_authority s t" "extends_authority t u"
  shows "extends_authority s u"
proof -
  obtain xs ys where x: "db_PolicyRevisions t = db_PolicyRevisions s @ xs" "head_generation t = head_generation s + int (length xs)"
      "xs = [] \<or> (\<exists>h. db_PolicyHead t = Some h \<and> kh_RevisionID h = kr_ID (last xs))" "xs = [] \<longrightarrow> db_PolicyHead t = db_PolicyHead s"
    and y: "db_PolicyRevisions u = db_PolicyRevisions t @ ys" "head_generation u = head_generation t + int (length ys)"
      "ys = [] \<or> (\<exists>h. db_PolicyHead u = Some h \<and> kh_RevisionID h = kr_ID (last ys))" "ys = [] \<longrightarrow> db_PolicyHead u = db_PolicyHead t"
    using assms unfolding extends_authority_def by blast
  show ?thesis unfolding extends_authority_def
    by (rule exI[of _ "xs @ ys"], cases "ys = []") (use x y in auto)
qed

lemma call_extends:
  assumes "RecordKernelPolicyRevision c i newID clock s = (res, s')" "in_int64 (ri_ExpectedGeneration i)"
  shows "extends_authority s s'"
proof (cases res)
  case (Inl e)
  then have "only_events s s'" using revision_call_effect(1)[OF assms] by simp
  then have s': "s' = s\<lparr>db_Events := db_Events s'\<rparr>" by (simp add: only_events_def)
  show ?thesis by (subst s') (simp add: extends_authority_def head_generation_def)
next
  case (Inr r)
  from revision_call_effect(1)[OF assms] Inr have "s' = s \<or> activated newID (canonical_form (ri_Policy i)) (document_of c (ri_Policy i))
      (digest_of c (ri_Policy i)) (ri_ExpectedGeneration i) r s s'" by auto
  then show ?thesis
  proof
    assume "activated newID (canonical_form (ri_Policy i)) (document_of c (ri_Policy i))
      (digest_of c (ri_Policy i)) (ri_ExpectedGeneration i) r s s'"
    then show ?thesis unfolding extends_authority_def
      by (intro exI[of _ "[stored_row r (document_of c (ri_Policy i))]"])
         (auto simp: activated_def head_generation_def head_of_def stored_row_def)
  qed simp
qed

interpretation policy_writers: monotone_system "policy_step c" "\<lambda>_. True" head_generation
proof unfold_locales
  show "head_generation s \<le> head_generation t" if "policy_step c s t" for s t
    using that by (rule policy_stepE) (drule (1) call_extends, auto simp: extends_authority_def)
qed simp

lemma writers_extend: "(policy_step c)\<^sup>*\<^sup>* s t \<Longrightarrow> extends_authority s t"
  by (induction rule: rtranclp_induct) (auto elim!: policy_stepE intro: extends_trans call_extends)

text \<open>no update is lost. However many writers record policies concurrently, revisions are only ever
  appended, the generation grows by exactly one per appended revision, and the head points at the
  last one; so two writers that expected the same generation are never both activated.\<close>

lemma policy_updates_serialise:
  assumes "(policy_step c)\<^sup>*\<^sup>* s t"
  shows "extends_authority s t \<and> head_generation s \<le> head_generation t"
  using writers_extend[OF assms] policy_writers.steps_view[OF assms] by simp

text \<open>C22: a call either fails, leaving revisions and head untouched, or returns the policy that was active
  already, or activates the caller's policy: and then the generation the caller expected was the
  active one, the new generation is its successor, and revision, head and audit event are written
  together.\<close>

theorem policy_compare_and_swap:
  assumes "RecordKernelPolicyRevision c i newID clock s = (res, s')" "in_int64 (ri_ExpectedGeneration i)"
  shows "call_effect c i newID s res s'"
  by (rule revision_call_effect(1)[OF assms])


section \<open>A concrete run\<close>

definition sample_codec :: policy_codec where
  "sample_codec = \<lparr>pc_decode = (\<lambda>b. if b = ''P'' then Inr sample_policy else Inl (Errorf ''bad'' [])),
     pc_marshal = (\<lambda>_. ''P''), pc_document = (\<lambda>_ _. ''D''), pc_sha256 = (\<lambda>_. replicate 32 CHR ''x'')\<rparr>"

definition sample_input :: revision_input where
  "sample_input = \<lparr>ri_Policy = sample_policy, ri_ExpectedGeneration = 0, ri_RecordedBy = '' ada '', ri_Reason = ''first''\<rparr>"

definition sample_authority :: db where
  "sample_authority = \<lparr>db_M3A = False, db_M3AActivatedAt = 0, db_Operations = [], db_Attempts = [], db_Grants = [],
     db_OpenReservations = [], db_CloseReservations = [], db_Orders = [], db_Fills = [], db_Lots = [],
     db_Allocations = [], db_Episodes = [], db_ExternalAllocations = [],
     db_ShadowAccount = \<lparr>sa_Cash = 0, sa_BuyingPower = 0\<rparr>, db_ShadowPositions = [],
     db_GateActive = None, db_GateUnknown = None, db_Events = [], db_GateActiveSince = None,
     db_GateUnknownSince = None, db_Observations = [], db_Manifests = [], db_Bindings = [],
     db_PolicyRevisions = [], db_PolicyHead = None, db_ObservationFamilies = [],
     db_ObservationItems = [], db_ObjectOrigins = [], db_ObservationHeads = [],
     db_ExternalReductions = [], db_ExternalChanges = [], db_Projections = [], db_ReconciliationHeads = [],
     db_Invalidations = [], db_Proposals = [], db_CanaryRevisions = [], db_CanaryEvidence = []\<rparr>"

definition sample_clock :: "nat \<Rightarrow> time" where
  "sample_clock n = 100 + int n"

lemma sample_call: "\<exists>r s'. RecordKernelPolicyRevision sample_codec sample_input 7 sample_clock sample_authority = (Inr r, s') \<and>
    head_generation s' = 1 \<and> kp_ObservedAt r \<le> 200"
proof -
  obtain res s' where run: "RecordKernelPolicyRevision sample_codec sample_input 7 sample_clock sample_authority = (res, s')"
    by (metis surj_pair)
  have "(case RecordKernelPolicyRevision sample_codec sample_input 7 sample_clock sample_authority of
      (Inl _, _) \<Rightarrow> False | (Inr r, s') \<Rightarrow> head_generation s' = 1 \<and> kp_ObservedAt r \<le> 200)" by code_simp
  then show ?thesis using run by (cases res) auto
qed

theorem policy_compare_and_swap_witness:
  "\<exists>r s'. RecordKernelPolicyRevision sample_codec sample_input 7 sample_clock sample_authority = (Inr r, s') \<and>
     call_effect sample_codec sample_input 7 sample_authority (Inr r) s'"
proof -
  obtain r s' where r: "RecordKernelPolicyRevision sample_codec sample_input 7 sample_clock sample_authority = (Inr r, s')"
    using sample_call by blast
  have "in_int64 (ri_ExpectedGeneration sample_input)" by code_simp
  then show ?thesis using policy_compare_and_swap[OF r] r by blast
qed

end
