(* ===== verification/Placement.thy ===== *)
theory Placement
  imports Operations Pricing Attempts Policy_Authority
begin

text \<open>
  The pure decisions of the executor (\<^verbatim>\<open>kernel/cmd/kernel/main.go\<close>) and of the repricer
  (\<^verbatim>\<open>repricer.go\<close>, \<^verbatim>\<open>reconciler.go\<close>): what is sent to the broker, at what price, what the broker's answer does to
  the attempt, and the execution envelope of a working order.
\<close>

section \<open>The request and its evidence\<close>

record provider_place_intent =
  pi_Kind :: string
  pi_InstrumentID :: string
  pi_Symbol :: string
  pi_Side :: string
  pi_PositionEffect :: string
  pi_Qty :: qty
  pi_Limit :: micros
  pi_StopPrice :: micros
  pi_OrderType :: string
  pi_Trigger :: string
  pi_TimeInForce :: string
  pi_MarketHours :: string

definition valueOrZero :: "micros option \<Rightarrow> micros" where
  "valueOrZero v = (case v of None \<Rightarrow> 0 | Some x \<Rightarrow> x)"

definition persistedPlaceRequest :: "operation \<Rightarrow> execution_attempt \<Rightarrow> place_request" where
  "persistedPlaceRequest op a =
     \<lparr>pr_ClientOrderID = at_ClientOrderID a, pr_Symbol = operationSymbol op, pr_Side = op_Side op,
      pr_PositionEffect = (if op_Action op = ''close'' then ''close'' else ''open''),
      pr_OrderType = (if op_OrderType op = [] then ''limit'' else op_OrderType op),
      pr_Qty = at_Qty a, pr_Limit = at_Limit a, pr_StopPrice = valueOrZero (op_StopPrice op), pr_Kind = op_Kind op\<rparr>"

definition order_terms :: "place_request \<Rightarrow> (string \<times> string \<times> micros \<times> micros) option" where
  "order_terms r =
     (if pr_OrderType r = ''limit'' then Some (''limit'', ''immediate'', pr_Limit r, 0)
      else if pr_OrderType r = ''market'' then Some (''market'', ''immediate'', 0, 0)
      else if pr_OrderType r = ''stop_limit'' then Some (''limit'', ''stop'', pr_Limit r, pr_StopPrice r)
      else if pr_OrderType r = ''stop_market'' then Some (''market'', ''stop'', 0, pr_StopPrice r)
      else None)"

definition intent_incomplete :: "provider_place_intent \<Rightarrow> bool" where
  "intent_incomplete i \<longleftrightarrow>
     pi_InstrumentID i = [] \<or> trim_space (pi_Symbol i) = [] \<or>
     pi_Kind i \<noteq> ''equity'' \<and> pi_Kind i \<noteq> ''option'' \<or> pi_Side i \<noteq> ''buy'' \<and> pi_Side i \<noteq> ''sell'' \<or>
     pi_PositionEffect i \<noteq> ''open'' \<and> pi_PositionEffect i \<noteq> ''close'' \<or> pi_Qty i \<le> 0 \<or>
     pi_OrderType i = ''limit'' \<and> pi_Limit i \<le> 0 \<or>
     pi_OrderType i = ''market'' \<and> (pi_Kind i \<noteq> ''equity'' \<or> pi_Side i \<noteq> ''buy'' \<or> pi_Limit i \<noteq> 0) \<or>
     pi_Trigger i = ''immediate'' \<and> pi_StopPrice i \<noteq> 0 \<or> pi_Trigger i = ''stop'' \<and> pi_StopPrice i \<le> 0 \<or>
     pi_Trigger i \<noteq> ''immediate'' \<and> pi_Trigger i \<noteq> ''stop'' \<or> pi_OrderType i \<noteq> ''limit'' \<and> pi_OrderType i \<noteq> ''market''"

text \<open>The intent before it is marshalled: \<open>json.Marshal\<close> is the argument \<open>marshal\<close>.\<close>

definition place_intent :: "place_request \<Rightarrow> string \<Rightarrow> provider_place_intent result" where
  "place_intent r instrumentID =
     (case order_terms r of
        None \<Rightarrow> Inl (Errorf ''provider place intent is incomplete'' [])
      | Some (orderType, trigger, limit, stop) \<Rightarrow>
         (let i = \<lparr>pi_Kind = pr_Kind r, pi_InstrumentID = trim_space instrumentID, pi_Symbol = pr_Symbol r,
                pi_Side = pr_Side r, pi_PositionEffect = pr_PositionEffect r, pi_Qty = pr_Qty r, pi_Limit = limit,
                pi_StopPrice = stop, pi_OrderType = orderType, pi_Trigger = trigger, pi_TimeInForce = ''gfd'',
                pi_MarketHours = ''regular_hours''\<rparr>
          in if intent_incomplete i then Inl (Errorf ''provider place intent is incomplete'' []) else Inr i))"

definition canonicalProviderIntent ::
  "(provider_place_intent \<Rightarrow> string) \<Rightarrow> (string \<Rightarrow> string) \<Rightarrow> place_request \<Rightarrow> string \<Rightarrow> (string \<times> string) result" where
  "canonicalProviderIntent marshal sha r instrumentID =
     (case place_intent r instrumentID of
        Inl e \<Rightarrow> Inl e
      | Inr i \<Rightarrow> Inr (marshal i, sha (marshal i)))"

definition providerIntentEvidenceMatches ::
  "(provider_place_intent \<Rightarrow> string) \<Rightarrow> (string \<Rightarrow> provider_place_intent option) \<Rightarrow> (string \<Rightarrow> string) \<Rightarrow>
     execution_attempt \<Rightarrow> string \<Rightarrow> string \<Rightarrow> bool" where
  "providerIntentEvidenceMatches marshal unmarshal sha a canonical fingerprint \<longleftrightarrow>
     (case unmarshal (null_string (at_ProviderIntent a)) of
        None \<Rightarrow> False
      | Some persisted \<Rightarrow>
          marshal persisted = canonical \<and> sha (marshal persisted) = fingerprint \<and>
          sha (marshal persisted) = null_string (at_IntentFingerprint a))"


section \<open>Prices\<close>

definition minQty :: "qty \<Rightarrow> qty \<Rightarrow> qty" where
  "minQty l r = (if l < r then l else r)"

definition executionLimit :: "operation \<Rightarrow> quote option \<Rightarrow> int64 \<Rightarrow> time \<Rightarrow> micros result" where
  "executionLimit op q maxAgeSec now =
     (if op_Action op = ''open''
      then (if op_OrderType op = ''market'' \<or> op_OrderType op = ''stop_market''
            then (if op_ApprovedPriceCap op \<le> 0 then Inl (Errorf ''no authorized risk bound for unpriced open'' [])
                  else Inr (op_ApprovedPriceCap op))
            else if op_WorkingPrice op \<le> 0 then Inl (Errorf ''no executable price for open'' [])
            else Inr (op_WorkingPrice op))
      else case q of
        None \<Rightarrow> Inl (Errorf ''market_data_unavailable'' [])
      | Some q \<Rightarrow>
          if \<not> Usable q maxAgeSec now then Inl (Errorf ''market_data_unavailable'' [])
          else (case op_Limit op of
             Some l \<Rightarrow> Inr l
           | None \<Rightarrow>
               if op_Side op = ''sell'' then Inr (q_Bid q)
               else if op_Side op = ''buy'' then Inr (q_Ask q)
               else Inl (Errorf ''no executable price for close'' [])))"

definition executionPriceBound :: "operation \<Rightarrow> micros \<Rightarrow> micros" where
  "executionPriceBound op fallback =
     (if op_Action op = ''open'' \<and> op_ApprovedPriceCap op > 0 then op_ApprovedPriceCap op
      else if op_Action op = ''close'' then (case op_Limit op of Some l \<Rightarrow> if l > 0 then l else fallback | None \<Rightarrow> fallback)
      else fallback)"


section \<open>The broker's answer\<close>

definition fill_of :: "read_fill \<Rightarrow> fill_input" where
  "fill_of f = \<lparr>fi_BrokerFillID = rf_FillID f, fi_Qty = rf_Qty f, fi_Price = rf_Price f, fi_Fees = rf_Fees f, fi_TS = rf_AsOf f\<rparr>"

definition placing :: "execution_attempt \<Rightarrow> bool" where
  "placing a \<longleftrightarrow> at_Intent a = ''place'' \<or> at_Intent a = ''paper_place''"

text \<open>\<open>order_facts\<close> renders the order of a cancel's event.\<close>

definition order_resolution ::
  "(order_result \<Rightarrow> string) \<Rightarrow> execution_attempt \<Rightarrow> order_result \<Rightarrow> attempt_resolution" where
  "order_resolution order_facts a r =
     \<lparr>ar_State = ''unknown'', ar_BrokerOrderID = or_BrokerOrderID r, ar_LastError = [], ar_ProviderErrorCode = [],
      ar_CandidateBrokerOrderID = [], ar_OperatorSubject = [], ar_OperationStatus = [], ar_ReleaseReservation = False,
      ar_OrderUpdate = (if placing a then Some \<lparr>ou_ExecutionAttemptID = at_ID a, ou_BrokerOrderID = or_BrokerOrderID r,
         ou_State = or_State r, ou_FilledQty = or_FilledQty r, ou_Fills = map fill_of (or_Fills r)\<rparr> else None),
      ar_OrderEvent = (if placing a then None
         else Some [(''operation_id'', PText (at_OperationID a)), (''order'', PText (order_facts r))])\<rparr>"

definition untouched_close :: "execution_attempt \<Rightarrow> order_result \<Rightarrow> bool" where
  "untouched_close a r \<longleftrightarrow> null_string (at_CloseReservationID a) \<noteq> [] \<and> or_FilledQty r = 0"

definition resolutionForOrder ::
  "(order_result \<Rightarrow> string) \<Rightarrow> execution_attempt \<Rightarrow> order_result \<Rightarrow> attempt_resolution" where
  "resolutionForOrder order_facts a r =
     (let base = order_resolution order_facts a r; st = or_State r
      in if st = ''filled'' then base\<lparr>ar_State := ''settled'', ar_OperationStatus := ''executed''\<rparr>
         else if st = ''rejected''
         then base\<lparr>ar_State := ''failed'', ar_OperationStatus := ''failed'', ar_ReleaseReservation := untouched_close a r\<rparr>
         else if st = ''cancelled'' \<or> st = ''expired''
         then base\<lparr>ar_State := ''settled'',
            ar_OperationStatus := (if at_Intent a = ''cancel'' then ''executed'' else ''failed''),
            ar_ReleaseReservation := untouched_close a r\<rparr>
         else if st = ''submitted'' \<or> st = ''partially_filled''
         then (if at_Intent a = ''cancel'' then base\<lparr>ar_LastError := ''cancel not confirmed by broker''\<rparr>
               else base\<lparr>ar_State := ''placed''\<rparr>)
         else base\<lparr>ar_LastError := ''unknown broker order state''\<rparr>)"


section \<open>The execution envelope of a working order\<close>

record effective_execution_policy =
  ef_maxReprices :: int64
  ef_repriceIntervalSec :: int64
  ef_quoteMaxAgeSec :: int64
  ef_currentLimits :: policy

definition minInt :: "int64 \<Rightarrow> int64 \<Rightarrow> int64" where
  "minInt l r = (if l < r then l else r)"

definition maxInt :: "int64 \<Rightarrow> int64 \<Rightarrow> int64" where
  "maxInt l r = (if l > r then l else r)"

text \<open>\<open>current\<close> is the result of \<open>LoadKernelPolicyAuthority\<close>, \<open>limits\<close> the process's configured policy.\<close>

definition effectiveOrderPolicy ::
  "policy \<Rightarrow> kernel_policy_revision result \<Rightarrow> order_row option \<Rightarrow> effective_execution_policy result" where
  "effectiveOrderPolicy limits current order' =
     (case order' of
        None \<Rightarrow> Inl (Errorf ''order is missing'' [])
      | Some ord \<Rightarrow>
         (case current of
            Inl e \<Rightarrow> Inl e
          | Inr revision \<Rightarrow>
             (let unbound = (o_KernelPolicyRevisionID ord = 0);
                  boundMax = (if unbound then MaxReprices (ExecutionPolicy limits) else o_MaxReprices ord);
                  boundInterval = (if unbound then RepriceIntervalSec (ExecutionPolicy limits) else o_RepriceIntervalSec ord);
                  boundQuoteAge = (if unbound then QuoteMaxAgeSec limits else o_QuoteMaxAgeSec ord);
                  p = kp_Policy revision
              in if boundMax < 0 \<or> boundInterval \<le> 0 \<or> boundQuoteAge \<le> 0
                 then Inl (Errorf ''order execution envelope is invalid'' [])
                 else Inr \<lparr>ef_maxReprices = minInt boundMax (MaxReprices (ExecutionPolicy p)),
                   ef_repriceIntervalSec = maxInt boundInterval (RepriceIntervalSec (ExecutionPolicy p)),
                   ef_quoteMaxAgeSec = minInt boundQuoteAge (QuoteMaxAgeSec p), ef_currentLimits = p\<rparr>)))"

definition validateOrderPolicyBinding :: "operation_row option \<Rightarrow> order_row option \<Rightarrow> unit result" where
  "validateOrderPolicyBinding operation order' =
     (case (operation, order') of
        (Some w, Some ord) \<Rightarrow>
          (let revision = opt_or_zero (ow_KernelPolicyRevisionID w)
           in if revision = 0 \<and> o_KernelPolicyRevisionID ord = 0 then Inr ()
              else if o_KernelPolicyRevisionID ord \<noteq> revision \<or>
                o_KernelPolicyGeneration ord \<noteq> opt_or_zero (ow_KernelPolicyGeneration w) \<or>
                o_KernelPolicyDigest ord \<noteq> null_string (ow_KernelPolicyDigest w)
              then Inl (Errorf ''order policy binding differs from operation'' []) else Inr ())
      | _ \<Rightarrow> Inl (Errorf ''operation or order is missing'' []))"

text \<open>The ledger's halt is the argument \<open>ledgerHalted\<close>, evaluated only for opens.\<close>

definition repricePolicy ::
  "effective_execution_policy result \<Rightarrow> bool result \<Rightarrow> operation \<Rightarrow> order_row \<Rightarrow> string result" where
  "repricePolicy effective ledgerHalted op ord =
     (case effective of
        Inl e \<Rightarrow> Inl e
      | Inr ef \<Rightarrow>
          if o_Reprices ord \<ge> ef_maxReprices ef then Inr ''max_reprices''
          else if op_Action op \<noteq> ''open'' then Inr []
          else (case ledgerHalted of
             Inl e \<Rightarrow> Inl e
           | Inr h \<Rightarrow> Inr (if h then ''ledger_halted'' else [])))"

definition errRepriceIneligible :: go_error where
  "errRepriceIneligible = Sentinel ''order is not eligible for repricing''"

definition replacement_side_error :: "operation \<Rightarrow> go_error option" where
  "replacement_side_error op =
     (if op_Action op = ''close'' \<and> op_Limit op = None then Some errRepriceIneligible
      else if op_Action op = ''open'' \<and> op_Side op \<noteq> ''buy''
      then Some (Errorf ''unsupported open reprice side %q'' [op_Side op])
      else if op_Action op = ''close'' \<and> op_Side op \<noteq> ''buy'' \<and> op_Side op \<noteq> ''sell''
      then Some (Errorf ''unsupported close reprice side %q'' [op_Side op]) else None)"

text \<open>The provider's quote and instrument are arguments. On the sell side the code dereferences the operation's
  limit; the earlier checks leave a nil limit there only for an operation that is neither an open nor a close,
  where the program would stop: that is the error result here.\<close>

definition boundedReplacementLimit ::
  "effective_execution_policy result \<Rightarrow> (quote result \<times> instrument result) option \<Rightarrow> time \<Rightarrow>
     operation \<Rightarrow> order_row \<Rightarrow> micros result" where
  "boundedReplacementLimit effective provider now op ord =
     (case effective of
        Inl e \<Rightarrow> Inl e
      | Inr ef \<Rightarrow>
         (case replacement_side_error op of
            Some e \<Rightarrow> Inl e
          | None \<Rightarrow>
             (case provider of
                None \<Rightarrow> Inl (Errorf ''market data provider unavailable'' [])
              | Some (Inl _, _) \<Rightarrow> Inl (Errorf ''market data unavailable for repricing'' [])
              | Some (Inr q, ir) \<Rightarrow>
                  if \<not> Usable q (ef_quoteMaxAgeSec ef) now
                  then Inl (Errorf ''market data unavailable for repricing'' [])
                  else (case ir of
                     Inl _ \<Rightarrow> Inl (Errorf ''instrument tick unavailable for repricing'' [])
                   | Inr i \<Rightarrow>
                       if \<not> PrecisionSane i \<or> i_Kind i \<noteq> o_Kind ord \<or> i_Multiplier i \<noteq> o_Multiplier ord
                       then Inl (Errorf ''instrument tick unavailable for repricing'' [])
                       else if \<not> SupportsPrice i (q_Bid q) \<or> \<not> SupportsPrice i (q_Ask q) \<or>
                         \<not> SupportsPrice i (o_Limit ord) \<or> o_Qty ord smod i_QtyIncrement i \<noteq> 0
                       then Inl (Errorf ''quote or quantity violates instrument increments'' [])
                       else if op_Side op = ''buy''
                       then nextBoundedBuyLimitForInstrument (o_Limit ord) (q_Ask q)
                         (if o_ApprovedPriceBound ord > 0 then o_ApprovedPriceBound ord
                          else if op_Action op = ''close'' then valueOrZero (op_Limit op) else op_ApprovedPriceCap op) i
                       else if o_ApprovedPriceBound ord > 0
                       then nextBoundedSellLimitForInstrument (o_Limit ord) (q_Bid q) (o_ApprovedPriceBound ord) i
                       else (case op_Limit op of
                          None \<Rightarrow> Inl (Errorf ''invalid memory address or nil pointer dereference'' [])
                        | Some l \<Rightarrow> nextBoundedSellLimitForInstrument (o_Limit ord) (q_Bid q) l i)))))"

definition recoveredCloseCapacity :: "operation \<Rightarrow> qty \<Rightarrow> qty \<Rightarrow> qty \<times> bool" where
  "recoveredCloseCapacity op providerQty exposureQty =
     (if op_DecisionObservationID op = [] then (minQty providerQty exposureQty, True)
      else case AddQty (op_TrackedCloseQty op) (op_ExternalCloseQty op) of
        Inl _ \<Rightarrow> (0, False)
      | Inr tot \<Rightarrow> if tot \<noteq> op_Qty op \<or> op_TrackedCloseQty op > exposureQty then (0, False) else (providerQty, True))"

section \<open>Replacement prices\<close>

text \<open>The bound a replacement must respect: the order's own, else what the operation was approved with.\<close>

definition replacement_bound :: "operation \<Rightarrow> order_row \<Rightarrow> micros" where
  "replacement_bound op ord = (if o_ApprovedPriceBound ord > 0 then o_ApprovedPriceBound ord
     else if op_Side op = ''buy'' \<and> op_Action op \<noteq> ''close'' then op_ApprovedPriceCap op else valueOrZero (op_Limit op))"

lemma replacement_cases:
  assumes run: "boundedReplacementLimit (Inr ef) (Some (Inr q, Inr i)) now op ord = Inr r"
  shows "Usable q (ef_quoteMaxAgeSec ef) now"
    "(if op_Side op = ''buy'' then nextBoundedBuyLimitForInstrument (o_Limit ord) (q_Ask q) (replacement_bound op ord) i
      else nextBoundedSellLimitForInstrument (o_Limit ord) (q_Bid q) (replacement_bound op ord) i) = Inr r"
proof -
  have side: "replacement_side_error op = None" using run by (cases "replacement_side_error op") (simp_all add: boundedReplacementLimit_def)
  show u: "Usable q (ef_quoteMaxAgeSec ef) now" using run side
    by (cases "Usable q (ef_quoteMaxAgeSec ef) now") (simp_all add: boundedReplacementLimit_def)
  have p: "\<not> (\<not> PrecisionSane i \<or> i_Kind i \<noteq> o_Kind ord \<or> i_Multiplier i \<noteq> o_Multiplier ord)"
    using run side u by (simp add: boundedReplacementLimit_def split: if_split_asm)
  have inc: "\<not> (\<not> SupportsPrice i (q_Bid q) \<or> \<not> SupportsPrice i (q_Ask q) \<or>
      \<not> SupportsPrice i (o_Limit ord) \<or> o_Qty ord smod i_QtyIncrement i \<noteq> 0)"
    using run side u p by (simp add: boundedReplacementLimit_def split: if_split_asm)
  show "(if op_Side op = ''buy'' then nextBoundedBuyLimitForInstrument (o_Limit ord) (q_Ask q) (replacement_bound op ord) i
      else nextBoundedSellLimitForInstrument (o_Limit ord) (q_Bid q) (replacement_bound op ord) i) = Inr r"
    using run side u p inc unfolding replacement_bound_def valueOrZero_def
    by (cases "op_Side op = ''buy''"; cases "o_ApprovedPriceBound ord > 0"; cases "op_Action op = ''close''"; cases "op_Limit op")
      (simp_all add: boundedReplacementLimit_def valueOrZero_def)
qed

text \<open>A replacement price never leaves the authority of its order. When the repricer computes one, the quote was
  fresh under the effective policy, the price is on the instrument's tick schedule, a buy pays at most and a sell asks
  at least the approved bound, and the price moves from the working limit towards the market by at least half of the
  distance that the bound leaves, never past it.\<close>
lemma replacement_within_authority:
  assumes run: "boundedReplacementLimit (Inr ef) (Some (Inr q, Inr i)) now op ord = Inr r"
    and ints: "instrument_int64 i" "in_int64 (o_Limit ord)" "in_int64 (q_Ask q)" "in_int64 (q_Bid q)" "in_int64 (replacement_bound op ord)"
  shows "Usable q (ef_quoteMaxAgeSec ef) now \<and> SupportsPrice i r \<and>
    (if op_Side op = ''buy''
     then \<exists>t. buy_target (q_Ask q) (replacement_bound op ord) i = Some t \<and> r \<le> t \<and> t \<le> replacement_bound op ord \<and>
       (if o_Limit ord < t then o_Limit ord < r \<and> 2 * (t - r) \<le> t - o_Limit ord else r = t)
     else \<exists>t. sell_target (q_Bid q) (replacement_bound op ord) i = Some t \<and> replacement_bound op ord \<le> t \<and> t \<le> r \<and>
       (if t < o_Limit ord then r < o_Limit ord \<and> 2 * (r - t) \<le> o_Limit ord - t else r = t))"
proof -
  note u = replacement_cases(1)[OF run] and n = replacement_cases(2)[OF run]
  show ?thesis
  proof (cases "op_Side op = ''buy''")
    case True
    then have "nextBoundedBuyLimitForInstrument (o_Limit ord) (q_Ask q) (replacement_bound op ord) i = Inr r" using n by simp
    then show ?thesis using True u buy_reprice_bounded[OF _ ints(1,2,3,5)] by (simp only: if_True simp_thms) metis
  next
    case False
    then have "nextBoundedSellLimitForInstrument (o_Limit ord) (q_Bid q) (replacement_bound op ord) i = Inr r" using n by simp
    then show ?thesis using False u sell_reprice_bounded[OF _ ints(1,2,4,5)] by (simp only: if_False simp_thms) metis
  qed
qed

definition demo_tick :: instrument where
  "demo_tick = (fixed_tick_instrument 10000)\<lparr>i_Kind := ''equity'', i_Multiplier := 1, i_QtyIncrement := 1000000\<rparr>"

definition demo_market :: quote where
  "demo_market = \<lparr>q_Symbol = ''SPY'', q_Bid = 1060000, q_Ask = 1070000, q_OpenInterest = 500, q_Source = ''feed'', q_AsOf = 1000000000000\<rparr>"

definition demo_working :: order_row where
  "demo_working = sample_order\<lparr>o_Kind := ''equity'', o_Multiplier := 1, o_Qty := 1000000, o_Limit := 1000000, o_ApprovedPriceBound := 1100000\<rparr>"

definition demo_envelope :: effective_execution_policy where
  "demo_envelope = \<lparr>ef_maxReprices = 3, ef_repriceIntervalSec = 15, ef_quoteMaxAgeSec = 60, ef_currentLimits = sample_policy\<rparr>"

end
