(* ===== verification/Repricing.thy ===== *)
theory Repricing
  imports Attempts Policy_Authority
begin

text \<open>
  \<^verbatim>\<open>kernel/internal/store/repricing.go\<close> and \<open>InsertOrder\<close> of \<^verbatim>\<open>orders.go\<close>: moving a working order to
  another price. A reprice is a cancel attempt on the working order; once the broker has confirmed
  its end, one transaction takes in the fills that raced the cancel, settles both attempts, and
  either expires the remainder or hands its reservation to one replacement attempt and order.
\<close>

record reprice_replacement =
  rp_AttemptID :: string
  rp_OrderID :: string
  rp_ClientOrderID :: string
  rp_Limit :: micros

definition InsertOrder :: "time \<Rightarrow> order_row \<Rightarrow> db \<Rightarrow> db result" where
  "InsertOrder now ord s =
     (case find (\<lambda>a. at_ID a = o_ExecutionAttemptID ord \<and> at_OperationID a = o_OperationID ord) (db_Attempts s) of
        None \<Rightarrow> Inl ErrInvalidOperationReference
      | Some a \<Rightarrow>
         (let priceBound = (if o_ApprovedPriceBound ord \<le> 0 then o_Limit ord else o_ApprovedPriceBound ord)
          in Inr (s\<lparr>db_Orders := db_Orders s @ [ord\<lparr>
              o_BrokerOrderID := [], o_CreatedAt := now, o_UpdatedAt := now,
              o_KernelPolicyRevisionID := at_KernelPolicyRevisionID a,
              o_KernelPolicyGeneration := at_KernelPolicyGeneration a,
              o_KernelPolicyDigest := at_KernelPolicyDigest a,
              o_AuthorizationExpiresAt := at_AuthorizationExpiresAt a,
              o_ApprovedPriceBound := (if at_KernelPolicyRevisionID a = 0 then 0 else priceBound),
              o_MaxReprices := at_MaxReprices a, o_RepriceIntervalSec := at_RepriceIntervalSec a,
              o_QuoteMaxAgeSec := at_QuoteMaxAgeSec a, o_WorkingSince := None\<rparr>]\<rparr>)))"

text \<open>The fields \<open>InsertExecutionAttempt\<close> and \<open>InsertOrder\<close> do not read are zero.\<close>

definition blank_attempt :: execution_attempt where
  "blank_attempt = \<lparr>at_ID = [], at_OperationID = [], at_Seq = 0, at_CloseReservationID = None,
     at_OpenReservationID = None, at_Intent = [], at_ClientOrderID = [], at_TargetBrokerOrderID = [],
     at_State = [], at_BrokerOrderID = [], at_Qty = 0, at_Limit = 0, at_Attempt = 0, at_ClaimedBy = [],
     at_CreatedAt = 0, at_ClaimedAt = 0, at_ResolvedAt = 0, at_LastError = [],
     at_IntentFingerprint = None, at_ProviderAccountID = None, at_ProviderIntent = None, at_SentAt = None,
     at_SendWindowStart = None, at_SendWindowEnd = None, at_ReplayCount = 0, at_ProviderErrorCode = [],
     at_CandidateBrokerOrderID = [], at_CandidateObservedAt = None, at_KernelPolicyRevisionID = 0,
     at_KernelPolicyGeneration = 0, at_KernelPolicyDigest = [], at_AuthorizationExpiresAt = 0,
     at_MaxReprices = 0, at_RepriceIntervalSec = 0, at_QuoteMaxAgeSec = 0, at_LeaseExpiresAt = 0\<rparr>"


section \<open>Staging the cancel\<close>

definition cancel_unresolved :: "order_row \<Rightarrow> db \<Rightarrow> bool" where
  "cancel_unresolved ord s \<longleftrightarrow>
     list_ex (\<lambda>a. at_OperationID a = o_OperationID ord \<and> at_Intent a = ''cancel'' \<and>
        at_TargetBrokerOrderID a = o_BrokerOrderID ord \<and>
        (at_State a = ''pending'' \<or> at_State a = ''claimed'' \<or> at_State a = ''unknown'')) (db_Attempts s)"

definition next_seq :: "string \<Rightarrow> db \<Rightarrow> int64" where
  "next_seq operationID s =
     foldr max (map at_Seq (filter (\<lambda>a. at_OperationID a = operationID) (db_Attempts s))) 0 + 1"

definition cancel_attempt :: "string \<Rightarrow> order_row \<Rightarrow> db \<Rightarrow> execution_attempt" where
  "cancel_attempt newID ord s = blank_attempt\<lparr>at_ID := newID, at_OperationID := o_OperationID ord,
     at_Seq := next_seq (o_OperationID ord) s, at_Intent := ''cancel'',
     at_TargetBrokerOrderID := o_BrokerOrderID ord, at_State := ''pending''\<rparr>"

definition StageRepriceCancel ::
  "(string \<Rightarrow> int64 \<times> int64 \<times> int64) \<Rightarrow> time \<Rightarrow> string \<Rightarrow> string \<Rightarrow> db \<Rightarrow> (execution_attempt option \<times> db) result" where
  "StageRepriceCancel limits now newID orderID s =
     (case find (\<lambda>r. o_ID r = orderID) (db_Orders s) of
        None \<Rightarrow> Inr (None, s)
      | Some ord \<Rightarrow>
          if (o_State ord \<noteq> ''submitted'' \<and> o_State ord \<noteq> ''partially_filled'') \<or> o_BrokerOrderID ord = []
          then Inr (None, s)
          else if cancel_unresolved ord s then Inr (None, s)
          else (case InsertExecutionAttempt limits now (cancel_attempt newID ord s) s of
             Inl e \<Rightarrow> Inl e
           | Inr s' \<Rightarrow> Inr (Some (cancel_attempt newID ord s), insert_event ''reprice_cancel_staged''
               [(''operation_id'', PText (o_OperationID ord)), (''order_id'', PText (o_ID ord)),
                (''attempt_id'', PText newID), (''broker_order_id'', PText (o_BrokerOrderID ord))] s')))"


section \<open>Finalising\<close>

definition validateRepriceReplacementBounds :: "order_row \<Rightarrow> micros \<Rightarrow> db \<Rightarrow> unit result" where
  "validateRepriceReplacementBounds source limit s =
     (case one_row (\<lambda>w. ow_ID w = o_OperationID source) (db_Operations s) of
        Inl e \<Rightarrow> Inl e
      | Inr w \<Rightarrow>
          if ow_Side w \<noteq> o_Side source then Inl (Errorf ''replacement side differs from persisted operation'' [])
          else if ow_Action w = ''open''
          then (if ow_Side w \<noteq> ''buy'' \<or> ow_ApprovedPriceCap w \<le> 0 \<or> limit > ow_ApprovedPriceCap w
                then Inl (Errorf ''replacement exceeds approved open price cap'' []) else Inr ())
          else if ow_Action w = ''close''
          then (case ow_Limit w of
                  None \<Rightarrow> Inl (Errorf ''close without an explicit limit is not replaceable'' [])
                | Some l \<Rightarrow>
                    if (ow_Side w \<noteq> ''buy'' \<and> ow_Side w \<noteq> ''sell'') \<or> l \<le> 0
                    then Inl (Errorf ''close without an explicit limit is not replaceable'' [])
                    else if (ow_Side w = ''buy'' \<and> limit > l) \<or> (ow_Side w = ''sell'' \<and> limit < l)
                    then Inl (Errorf ''replacement exceeds explicit close price bound'' [])
                    else Inr ())
          else Inl (Errorf ''operation action %q is not replaceable'' [ow_Action w]))"

definition heldRepriceQuantity :: "execution_attempt \<Rightarrow> db \<Rightarrow> qty result" where
  "heldRepriceQuantity a s =
     (case (at_CloseReservationID a, at_OpenReservationID a) of
        (Some c, None) \<Rightarrow>
          (case one_row (\<lambda>r. cr_ID r = c \<and> cr_State r = ''held'') (db_CloseReservations s) of
             Inl e \<Rightarrow> Inl e | Inr r \<Rightarrow> Inr (cr_RemainingQty r))
      | (None, Some i) \<Rightarrow>
          (case one_row (\<lambda>r. rs_ID r = i \<and> rs_ResourceState r = ''held'') (db_OpenReservations s) of
             Inl e \<Rightarrow> Inl e | Inr r \<Rightarrow> Inr (rs_RemainingQty r))
      | _ \<Rightarrow> Inl (Errorf ''source placement does not have exactly one reservation'' []))"

text \<open>The two attempts and the gate, once the broker's report is in.\<close>

definition settle_cancel :: "time \<Rightarrow> string \<Rightarrow> int64 \<Rightarrow> execution_attempt \<Rightarrow> order_row \<Rightarrow> db \<Rightarrow> db" where
  "settle_cancel now i fencingToken cancelAttempt source s =
     (let s = s\<lparr>db_Attempts := update_rows
            (\<lambda>a. at_ID a = o_ExecutionAttemptID source \<and> at_State a = ''placed'')
            (\<lambda>a. a\<lparr>at_State := ''settled'', at_ResolvedAt := now\<rparr>) (db_Attempts s)\<rparr>;
          s = s\<lparr>db_Attempts := update_rows (fenced i fencingToken)
            (\<lambda>a. a\<lparr>at_State := ''settled'', at_BrokerOrderID := at_TargetBrokerOrderID cancelAttempt,
                  at_LastError := [], at_ResolvedAt := now\<rparr>) (db_Attempts s)\<rparr>;
          s = (if null_string (db_GateActive s) = i \<or> null_string (db_GateUnknown s) = i then leave_gate i s else s)
      in insert_event ''execution_attempt_resolved''
        [(''attempt_id'', PText i), (''operation_id'', PText (at_OperationID cancelAttempt)),
         (''state'', PText ''settled''), (''broker_order_id'', PText (at_TargetBrokerOrderID cancelAttempt)),
         (''fencing_token'', PInt fencingToken)] s)"

text \<open>The policy in force may withdraw a replacement that the approving policy allowed.\<close>

definition withdrawn :: "time \<Rightarrow> policy \<Rightarrow> order_row \<Rightarrow> int64 \<Rightarrow> string option" where
  "withdrawn now p source nextReprice =
     (let x = ExecutionPolicy p;
          effectiveMax = (if MaxReprices x < o_MaxReprices source then MaxReprices x else o_MaxReprices source)
      in if nextReprice > effectiveMax then Some ''max_reprices''
         else if RepriceIntervalSec x > o_RepriceIntervalSec source \<and>
           (case o_WorkingSince source of None \<Rightarrow> False
            | Some t \<Rightarrow> now < t + RepriceIntervalSec x * 1000000000)
         then Some ''reprice_interval_tightened''
         else if QuoteMaxAgeSec p < o_QuoteMaxAgeSec source then Some ''quote_age_tightened''
         else None)"

definition effective_replacement ::
  "policy_codec \<Rightarrow> time \<Rightarrow> order_row \<Rightarrow> order_row \<Rightarrow> reprice_replacement option \<Rightarrow> string \<Rightarrow> db \<Rightarrow>
     (reprice_replacement option \<times> string) result" where
  "effective_replacement c now source updated replacement policyReason s =
     (if replacement = None \<or> o_KernelPolicyRevisionID source \<le> 0 then Inr (replacement, policyReason)
      else case activeKernelPolicyRevision c s of
        Inl e \<Rightarrow> Inl e
      | Inr r \<Rightarrow>
         (let current = r\<lparr>kp_ObservedAt := now\<rparr>
          in case validateKernelPolicyAuthority current of
               Inl e \<Rightarrow> Inl e
             | Inr _ \<Rightarrow>
                 (case withdrawn now (kp_Policy current) source (o_Reprices updated + 1) of
                    Some reason \<Rightarrow> Inr (None, reason)
                  | None \<Rightarrow> Inr (replacement, policyReason))))"

definition expire_remainder ::
  "time \<Rightarrow> order_row \<Rightarrow> string \<Rightarrow> execution_attempt \<Rightarrow> qty \<Rightarrow> string \<Rightarrow> string \<Rightarrow> db \<Rightarrow> db result" where
  "expire_remainder now source target sourceAttempt remaining failureStatus policyReason s =
     (if policyReason = [] then Inl (Errorf ''terminal reprice cancel has no replacement or policy reason'' [])
      else Inr (insert_event ''order_expired_policy''
        [(''operation_id'', PText (o_OperationID source)), (''order_id'', PText (o_ID source)),
         (''broker_order_id'', PText target), (''reason'', PText policyReason), (''remaining_qty'', PInt remaining)]
        (set_operation_status (o_OperationID source) failureStatus (release_reservations now sourceAttempt s))))"

definition replacement_attempt ::
  "order_row \<Rightarrow> execution_attempt \<Rightarrow> execution_attempt \<Rightarrow> qty \<Rightarrow> reprice_replacement \<Rightarrow> execution_attempt" where
  "replacement_attempt source cancelAttempt sourceAttempt remaining rp = blank_attempt\<lparr>
     at_ID := rp_AttemptID rp, at_OperationID := o_OperationID source, at_Seq := at_Seq cancelAttempt + 1,
     at_CloseReservationID := at_CloseReservationID sourceAttempt,
     at_OpenReservationID := at_OpenReservationID sourceAttempt, at_Intent := ''place'',
     at_ClientOrderID := rp_ClientOrderID rp, at_State := ''pending'', at_Qty := remaining, at_Limit := rp_Limit rp\<rparr>"

definition replacement_order :: "order_row \<Rightarrow> int64 \<Rightarrow> qty \<Rightarrow> reprice_replacement \<Rightarrow> order_row" where
  "replacement_order source reprices remaining rp = source\<lparr>o_ID := rp_OrderID rp,
     o_ExecutionAttemptID := rp_AttemptID rp, o_ClientOrderID := rp_ClientOrderID rp, o_Qty := remaining,
     o_Limit := rp_Limit rp, o_State := ''new'', o_Reprices := reprices\<rparr>"

definition replacement_guards ::
  "order_row \<Rightarrow> execution_attempt \<Rightarrow> qty \<Rightarrow> reprice_replacement \<Rightarrow> db \<Rightarrow> unit result" where
  "replacement_guards source sourceAttempt remaining rp s =
     (if rp_AttemptID rp = [] \<or> rp_OrderID rp = [] \<or> rp_ClientOrderID rp = [] \<or> rp_Limit rp \<le> 0
      then Inl (Errorf ''replacement identity or limit is incomplete'' [])
      else case validateRepriceReplacementBounds source (rp_Limit rp) s of
        Inl e \<Rightarrow> Inl e
      | Inr _ \<Rightarrow>
         (case heldRepriceQuantity sourceAttempt s of
            Inl e \<Rightarrow> Inl e
          | Inr reservedQty \<Rightarrow>
              if reservedQty \<noteq> remaining then Inl (Errorf ''replacement quantity differs from held reservation'' [])
              else Inr ()))"

definition stage_replacement ::
  "(string \<Rightarrow> int64 \<times> int64 \<times> int64) \<Rightarrow> time \<Rightarrow> order_row \<Rightarrow> order_row \<Rightarrow> execution_attempt \<Rightarrow>
     execution_attempt \<Rightarrow> qty \<Rightarrow> reprice_replacement \<Rightarrow> db \<Rightarrow> (execution_attempt option \<times> db) result" where
  "stage_replacement limits now source updated cancelAttempt sourceAttempt remaining rp s =
     (case replacement_guards source sourceAttempt remaining rp s of
        Inl e \<Rightarrow> Inl e
      | Inr _ \<Rightarrow>
         (let reprices = o_Reprices updated + 1;
              s = s\<lparr>db_Orders := update_rows (\<lambda>r. o_ID r = o_ID source) (\<lambda>r. r\<lparr>o_Reprices := reprices\<rparr>) (db_Orders s)\<rparr>;
              next = replacement_attempt source cancelAttempt sourceAttempt remaining rp
          in case InsertExecutionAttempt limits now next s of
               Inl e \<Rightarrow> Inl e
             | Inr s \<Rightarrow>
                 (case InsertOrder now (replacement_order source reprices remaining rp) s of
                    Inl e \<Rightarrow> Inl e
                  | Inr s \<Rightarrow> Inr (Some next, insert_event ''order_replacement_staged''
                      [(''operation_id'', PText (o_OperationID source)), (''source_order_id'', PText (o_ID source)),
                       (''replacement_order_id'', PText (rp_OrderID rp)), (''attempt_id'', PText (at_ID next)),
                       (''reprices'', PInt reprices), (''qty'', PInt remaining),
                       (''limit_micros'', PInt (rp_Limit rp))] s))))"

text \<open>After both attempts are settled: what becomes of the remainder.\<close>

definition finish_reprice ::
  "policy_codec \<Rightarrow> (string \<Rightarrow> int64 \<times> int64 \<times> int64) \<Rightarrow> time \<Rightarrow> string \<Rightarrow> order_row \<Rightarrow> order_row \<Rightarrow>
     execution_attempt \<Rightarrow> reprice_replacement option \<Rightarrow> string \<Rightarrow> db \<Rightarrow> (execution_attempt option \<times> db) result" where
  "finish_reprice c limits now state source updated cancelAttempt replacement policyReason s =
     (let remaining = wrap64 (o_Qty source - order_filled s (o_ID source));
          failureStatus = operationStatusAfterFailedAttempt s (o_OperationID source)
      in if remaining < 0 then Inl (Errorf ''reprice fill exceeds source order quantity'' [])
         else
          (let s = (if failureStatus = ''executed'' then set_operation_status (o_OperationID source) ''executed'' s else s)
           in case one_row (\<lambda>a. at_ID a = o_ExecutionAttemptID source) (db_Attempts s) of
                Inl e \<Rightarrow> Inl e
              | Inr sourceAttempt \<Rightarrow>
                  if state = ''filled'' \<or> remaining = 0
                  then Inr (None, set_operation_status (o_OperationID source) ''executed'' s)
                  else (case effective_replacement c now source updated replacement policyReason s of
                     Inl e \<Rightarrow> Inl e
                   | Inr (None, reason) \<Rightarrow>
                       (case expire_remainder now source (at_TargetBrokerOrderID cancelAttempt) sourceAttempt remaining
                           failureStatus reason s of
                          Inl e \<Rightarrow> Inl e | Inr s \<Rightarrow> Inr (None, s))
                   | Inr (Some rp, _) \<Rightarrow>
                       stage_replacement limits now source updated cancelAttempt sourceAttempt remaining rp s)))"

definition terminal_report :: "string \<Rightarrow> bool" where
  "terminal_report state \<longleftrightarrow> state = ''cancelled'' \<or> state = ''filled'' \<or> state = ''rejected'' \<or> state = ''expired''"

definition commit_or_keep :: "db \<Rightarrow> ('a \<times> db) result \<Rightarrow> 'a outcome" where
  "commit_or_keep s r = (case r of Inl e \<Rightarrow> (Inl e, s) | Inr (x, s') \<Rightarrow> (Inr x, s'))"

definition finalize_report ::
  "policy_codec \<Rightarrow> (string \<Rightarrow> int64 \<times> int64 \<times> int64) \<Rightarrow> (go_error \<Rightarrow> string) \<Rightarrow> time \<Rightarrow> (nat \<Rightarrow> string) \<Rightarrow> string \<Rightarrow>
     int64 \<Rightarrow> order_update \<Rightarrow> order_row \<Rightarrow> execution_attempt \<Rightarrow> reprice_replacement option \<Rightarrow> string \<Rightarrow> db \<Rightarrow>
     execution_attempt option outcome" where
  "finalize_report c limits errtext now newID i fencingToken u source cancelAttempt replacement policyReason s =
     (case applyOrderUpdate now newID u True s of
        Inl e \<Rightarrow> (case recordOrderUpdateFailure errtext now u e s of (e', s') \<Rightarrow> (Inl e', s'))
      | Inr (updated, s1) \<Rightarrow>
          commit_or_keep s (finish_reprice c limits now (ou_State u) source updated cancelAttempt replacement policyReason
            (settle_cancel now i fencingToken cancelAttempt source s1)))"

definition FinalizeRepriceCancel ::
  "policy_codec \<Rightarrow> (string \<Rightarrow> int64 \<times> int64 \<times> int64) \<Rightarrow> (go_error \<Rightarrow> string) \<Rightarrow> time \<Rightarrow> (nat \<Rightarrow> string) \<Rightarrow> string \<Rightarrow>
     int64 \<Rightarrow> order_update \<Rightarrow> reprice_replacement option \<Rightarrow> string \<Rightarrow> db \<Rightarrow> execution_attempt option outcome" where
  "FinalizeRepriceCancel c limits errtext now newID i fencingToken u replacement policyReason s =
     (case find (\<lambda>a. at_ID a = i) (db_Attempts s) of
        None \<Rightarrow> (Inl ErrNoRows, s)
      | Some a \<Rightarrow>
         (case find (\<lambda>r. at_TargetBrokerOrderID a \<noteq> [] \<and> o_BrokerOrderID r = at_TargetBrokerOrderID a) (db_Orders s) of
            None \<Rightarrow> (Inl ErrNoRows, s)
          | Some source \<Rightarrow>
             (case find (fenced i fencingToken) (db_Attempts s) of
                None \<Rightarrow> (Inr None, s)
              | Some cancelAttempt \<Rightarrow>
                  if at_Intent cancelAttempt \<noteq> ''cancel'' \<or> at_TargetBrokerOrderID cancelAttempt \<noteq> at_TargetBrokerOrderID a
                  then (Inl (Errorf ''reprice cancel attempt identity changed'' []), s)
                  else if \<not> terminal_report (ou_State u)
                  then (Inl (Errorf ''reprice cancel lacks terminal order proof'' []), s)
                  else finalize_report c limits errtext now newID i fencingToken
                    (u\<lparr>ou_ExecutionAttemptID := o_ExecutionAttemptID source,
                       ou_BrokerOrderID := at_TargetBrokerOrderID a\<rparr>)
                    source cancelAttempt replacement policyReason s)))"

end
