(* ===== verification/Observations.thy ===== *)
theory Observations
  imports Repricing "HOL-Library.Multiset"
begin

text \<open>
  Broker observations, \<^verbatim>\<open>kernel/internal/store/broker_observations.go\<close>: what a provider reported
  about the shared account, stored as immutable evidence, and for each reported object whether it is one of this
  ledger's own. The pre-effect barrier trusts these origins: an order of origin \<open>alpheus\<close> is not
  counted as somebody else's risk.

  JSON, SHA-256 and what the database does with a value are arguments (\<open>observation_codec\<close>): the text form of a JSONB
  column, the time a \<^verbatim>\<open>TIMESTAMPTZ\<close> column keeps of a time given in nanoseconds (\<open>oc_timestamptz\<close>), and the
  sort key of the database's collation (\<open>oc_collate\<close>). The zero time is 0, and a NULL \<open>broker_order_id\<close> of an order is the empty string, which is what the code
  stores as NULL.
\<close>

section \<open>Inputs and results\<close>

record observed_account =
  oa_AccountID :: string
  oa_AccountType :: string
  oa_BuyingPower :: micros
  oa_Equity :: micros
  oa_EquityKnown :: bool
  oa_DayTradesUsed :: int64
  oa_Cash :: micros
  oa_CashKnown :: bool
  oa_Source :: string
  oa_AsOf :: time

text \<open>What the callers give as the canonical value of an item.\<close>

datatype observed_value =
  AccountValue observed_account | PositionValue position | OrderValue read_order | FillValue read_fill

record item_input =
  ii_ObjectKey :: string
  ii_ObservedAt :: time
  ii_Canonical :: observed_value

record family_input =
  fi_Family :: string
  fi_Status :: string
  fi_ErrorCode :: string
  fi_CompletedAt :: time
  fi_Items :: "item_input list"

record observation_input =
  bi_ID :: string
  bi_AccountID :: string
  bi_Source :: string
  bi_Purpose :: string
  bi_StartedAt :: time
  bi_CompletedAt :: time
  bi_LocalStateGeneration :: int64
  bi_Families :: "family_input list"

record broker_observation =
  ob_ID :: string
  ob_Generation :: int64
  ob_AccountID :: string
  ob_Source :: string
  ob_Purpose :: string
  ob_StartedAt :: time
  ob_CompletedAt :: time
  ob_Status :: string
  ob_ManifestDigest :: string
  ob_LocalStateGeneration :: int64

record observed_object =
  oo_Family :: string
  oo_ObjectKey :: string
  oo_ObservedAt :: time
  oo_ObjectDigest :: string
  oo_Canonical :: string
  oo_Origin :: string
  oo_Evidence :: string

record account_view =
  av_Observation :: broker_observation
  av_Objects :: "observed_object list"

record normalized_item =
  ni_key :: string
  ni_observedAt :: time
  ni_canonical :: string
  ni_digest :: string

record normalized_family =
  nf_name :: string
  nf_status :: string
  nf_errorCode :: string
  nf_completedAt :: time
  nf_digest :: string
  nf_items :: "normalized_item list"

record broker_origin =
  br_origin :: string
  br_evidence :: string
  br_matchedOrderID :: string
  br_matchedAttemptID :: string

text \<open>What is decoded from a canonical value, and from the intent stored with an attempt.\<close>

record observed_order =
  od_BrokerOrderID :: string
  od_ClientOrderID :: string
  od_Symbol :: string
  od_Side :: string
  od_Kind :: string
  od_PositionEffect :: string
  od_Qty :: qty
  od_FilledQty :: qty
  od_LimitPrice :: micros
  od_LimitPriceKnown :: bool
  od_StopPrice :: micros
  od_StopPriceKnown :: bool
  od_OrderType :: string

record observed_fill =
  ofl_FillID :: string
  ofl_BrokerOrderID :: string
  ofl_Qty :: qty
  ofl_Price :: micros
  ofl_Fees :: micros

record observed_position =
  opn_PositionID :: string
  opn_Symbol :: string
  opn_Kind :: string
  opn_Qty :: qty

record observed_intent =
  it_Limit :: micros
  it_StopPrice :: micros
  it_OrderType :: string
  it_Trigger :: string

record observation_codec =
  oc_canonical :: "observed_value \<Rightarrow> string result"
  oc_account_id :: "string \<Rightarrow> string option"
  oc_position :: "string \<Rightarrow> observed_position option"
  oc_order :: "string \<Rightarrow> observed_order option"
  oc_fill :: "string \<Rightarrow> observed_fill option"
  oc_intent :: "string \<Rightarrow> observed_intent option"
  oc_intent_effect :: "string \<Rightarrow> string"
  oc_family_manifest :: "(string \<times> string) list \<Rightarrow> string"
  oc_manifest :: "observation_input \<Rightarrow> normalized_family list \<Rightarrow> string"
  oc_jsonb :: "string \<Rightarrow> string"
  oc_timestamptz :: "time \<Rightarrow> time"
  oc_collate :: "string \<Rightarrow> string"
  oc_sha256 :: "string \<Rightarrow> string"

definition BrokerFamilyAccount :: string where
  "BrokerFamilyAccount = ''account''"

definition BrokerFamilyPositions :: string where
  "BrokerFamilyPositions = ''positions''"

definition BrokerFamilyOrders :: string where
  "BrokerFamilyOrders = ''orders''"

definition BrokerFamilyFills :: string where
  "BrokerFamilyFills = ''fills''"

section \<open>Normalising an observation\<close>

definition validBrokerFamily :: "string \<Rightarrow> bool" where
  "validBrokerFamily family \<longleftrightarrow> family = BrokerFamilyAccount \<or> family = BrokerFamilyPositions \<or>
     family = BrokerFamilyOrders \<or> family = BrokerFamilyFills"

definition validObservationErrorCode :: "string \<Rightarrow> bool" where
  "validObservationErrorCode v \<longleftrightarrow> v \<noteq> [] \<and> length v \<le> 64 \<and>
     list_all (\<lambda>c. 97 \<le> byte c \<and> byte c \<le> 122 \<or> 48 \<le> byte c \<and> byte c \<le> 57 \<or> c = CHR ''_'') v"

definition validateObservationObjectKey ::
  "observation_codec \<Rightarrow> string \<Rightarrow> string \<Rightarrow> string \<Rightarrow> string \<Rightarrow> unit result" where
  "validateObservationObjectKey c family key accountID canonical =
     (if family = BrokerFamilyAccount
      then (case oc_account_id c canonical of
          None \<Rightarrow> Inl (Errorf ''observed account identity is invalid'' [])
        | Some i \<Rightarrow> if key \<noteq> accountID \<or> i \<noteq> accountID
                   then Inl (Errorf ''observed account identity is invalid'' []) else Inr ())
      else if family = BrokerFamilyPositions
      then (case oc_position c canonical of
          None \<Rightarrow> Inl (Errorf ''observed position key is invalid'' [])
        | Some p \<Rightarrow> if opn_PositionID p = [] \<or> opn_PositionID p \<noteq> key
                   then Inl (Errorf ''observed position key is invalid'' []) else Inr ())
      else if family = BrokerFamilyOrders
      then (case oc_order c canonical of
          None \<Rightarrow> Inl (Errorf ''observed order key is invalid'' [])
        | Some r \<Rightarrow> if od_BrokerOrderID r = [] \<or> od_BrokerOrderID r \<noteq> key
                   then Inl (Errorf ''observed order key is invalid'' []) else Inr ())
      else if family = BrokerFamilyFills
      then (case oc_fill c canonical of
          None \<Rightarrow> Inl (Errorf ''observed fill key is invalid'' [])
        | Some f \<Rightarrow> if ofl_FillID f = [] \<or> ofl_FillID f \<noteq> key
                   then Inl (Errorf ''observed fill key is invalid'' []) else Inr ())
      else Inr ())"

fun normalize_items ::
  "observation_codec \<Rightarrow> string \<Rightarrow> family_input \<Rightarrow> string list \<Rightarrow> item_input list \<Rightarrow> normalized_item list result" where
  "normalize_items c accountID family seen [] = Inr []"
| "normalize_items c accountID family seen (i # is) =
     (let key = trim_space (ii_ObjectKey i)
      in if key = [] \<or> key \<in> set seen \<or> ii_ObservedAt i = 0 \<or> ii_ObservedAt i > fi_CompletedAt family
         then Inl (Errorf ''broker observation item is invalid'' [])
         else (case oc_canonical c (ii_Canonical i) of
            Inl e \<Rightarrow> Inl e
          | Inr canonical \<Rightarrow>
             (case validateObservationObjectKey c (fi_Family family) key accountID canonical of
                Inl e \<Rightarrow> Inl e
              | Inr _ \<Rightarrow>
                 (case normalize_items c accountID family (key # seen) is of
                    Inl e \<Rightarrow> Inl e
                  | Inr rest \<Rightarrow> Inr (\<lparr>ni_key = key, ni_observedAt = ii_ObservedAt i, ni_canonical = canonical,
                      ni_digest = oc_sha256 c canonical\<rparr> # rest)))))"

definition family_status :: "family_input \<Rightarrow> unit result" where
  "family_status family =
     (if fi_Status family = ''success''
      then if trim_space (fi_ErrorCode family) \<noteq> [] then Inl (Errorf ''successful broker family has an error'' []) else Inr ()
      else if fi_Status family = ''error''
      then if \<not> validObservationErrorCode (trim_space (fi_ErrorCode family)) \<or> fi_Items family \<noteq> []
           then Inl (Errorf ''failed broker family is invalid'' []) else Inr ()
      else Inl (Errorf ''broker observation family status is invalid'' []))"

definition family_row :: "observation_codec \<Rightarrow> family_input \<Rightarrow> normalized_item list \<Rightarrow> normalized_family" where
  "family_row c family items =
     (let sorted = sort_key ni_key items
      in \<lparr>nf_name = fi_Family family, nf_status = fi_Status family,
          nf_errorCode = (if fi_Status family = ''error'' then trim_space (fi_ErrorCode family) else []),
          nf_completedAt = fi_CompletedAt family,
          nf_digest = oc_sha256 c (oc_family_manifest c (map (\<lambda>i. (ni_key i, hex_encode (ni_digest i))) sorted)),
          nf_items = sorted\<rparr>)"

fun normalize_families ::
  "observation_codec \<Rightarrow> observation_input \<Rightarrow> string list \<Rightarrow> family_input list \<Rightarrow> normalized_family list result" where
  "normalize_families c input seen [] = Inr []"
| "normalize_families c input seen (family # families) =
     (if fi_Family family \<in> set seen \<or> \<not> validBrokerFamily (fi_Family family) \<or> fi_CompletedAt family = 0 \<or>
         fi_CompletedAt family < bi_StartedAt input \<or> fi_CompletedAt family > bi_CompletedAt input
      then Inl (Errorf ''broker observation family is invalid'' [])
      else (case family_status family of
         Inl e \<Rightarrow> Inl e
       | Inr _ \<Rightarrow>
          (case normalize_items c (bi_AccountID input) family [] (fi_Items family) of
             Inl e \<Rightarrow> Inl e
           | Inr items \<Rightarrow>
              (case normalize_families c input (fi_Family family # seen) families of
                 Inl e \<Rightarrow> Inl e
               | Inr rest \<Rightarrow> Inr (family_row c family items # rest)))))"

definition purpose_known :: "string \<Rightarrow> bool" where
  "purpose_known p \<longleftrightarrow> p = ''decision'' \<or> p = ''pre_effect'' \<or> p = ''reconciliation'' \<or> p = ''read_model'' \<or>
     p = ''manual_refresh''"

definition observation_guards :: "observation_input \<Rightarrow> (bool \<times> go_error) list" where
  "observation_guards input =
     [(bi_ID input = [] \<or> bi_AccountID input = [] \<or> bi_Source input = [] \<or> bi_LocalStateGeneration input < 0 \<or>
         bi_StartedAt input = 0 \<or> bi_CompletedAt input = 0 \<or> bi_CompletedAt input < bi_StartedAt input,
         Errorf ''broker observation identity or time range is invalid'' []),
      (\<not> purpose_known (bi_Purpose input), Errorf ''broker observation purpose is invalid'' []),
      (bi_Families input = [] \<or> 4 < length (bi_Families input), Errorf ''broker observation family set is invalid'' [])]"

text \<open>The result: the families by name, the status, the digest, and whether this is a complete view of the account.\<close>

definition complete_view :: "normalized_family list \<Rightarrow> bool" where
  "complete_view families \<longleftrightarrow> list_all (\<lambda>f. nf_status f = ''success'') families \<and>
     {BrokerFamilyAccount, BrokerFamilyPositions, BrokerFamilyOrders} \<subseteq> nf_name ` set families"

definition normalizeBrokerObservation ::
  "observation_codec \<Rightarrow> observation_input \<Rightarrow> (normalized_family list \<times> string \<times> string \<times> bool) result" where
  "normalizeBrokerObservation c input =
     guarded (observation_guards input)
       (case normalize_families c input [] (bi_Families input) of
          Inl e \<Rightarrow> Inl e
        | Inr families \<Rightarrow>
            (let status = (if list_all (\<lambda>f. nf_status f = ''success'') families then ''complete'' else ''partial'');
                 normalized = sort_key nf_name families
             in Inr (normalized, status, oc_sha256 c (oc_manifest c input normalized), complete_view families)))"


section \<open>Whose object it is\<close>

definition external_origin :: broker_origin where
  "external_origin = \<lparr>br_origin = ''external'', br_evidence = ''unmatched'', br_matchedOrderID = [], br_matchedAttemptID = []\<rparr>"

definition ambiguous_origin :: "string \<Rightarrow> broker_origin" where
  "ambiguous_origin evidence = \<lparr>br_origin = ''ambiguous'', br_evidence = evidence, br_matchedOrderID = [], br_matchedAttemptID = []\<rparr>"

text \<open>The rows of the ledger with the broker's or the client's reference of the order.\<close>

definition order_candidates :: "db \<Rightarrow> observed_order \<Rightarrow> (order_row \<times> execution_attempt) list" where
  "order_candidates s observed =
     [(o', a). o' \<leftarrow> filter (\<lambda>o'. o_BrokerOrderID o' = od_BrokerOrderID observed \<or>
                  od_ClientOrderID observed \<noteq> [] \<and> o_ClientOrderID o' = od_ClientOrderID observed) (db_Orders s),
               a \<leftarrow> filter (\<lambda>a. at_ID a = o_ExecutionAttemptID o') (db_Attempts s)]"

definition scan_error :: go_error where
  "scan_error = Errorf ''sql: Scan error on column index 3, name broker_order_id: converting NULL to string is unsupported'' []"

definition observed_terms :: "string \<Rightarrow> string \<times> string" where
  "observed_terms orderType =
     (if orderType = ''limit'' then (''limit'', ''immediate'')
      else if orderType = ''market'' then (''market'', ''immediate'')
      else if orderType = ''stop_limit'' then (''limit'', ''stop'')
      else if orderType = ''stop_market'' then (''market'', ''stop'')
      else ([], []))"

definition stored_intent :: "observation_codec \<Rightarrow> execution_attempt \<Rightarrow> observed_intent option" where
  "stored_intent c a =
     (let text = null_string (at_ProviderIntent a)
      in if text = [] then None
         else case oc_intent c text of
           None \<Rightarrow> None
         | Some intent \<Rightarrow> if it_OrderType intent = [] then None else Some intent)"

definition prices_match :: "observation_codec \<Rightarrow> observed_order \<Rightarrow> order_row \<Rightarrow> execution_attempt \<Rightarrow> bool" where
  "prices_match c observed o' a \<longleftrightarrow>
     (case stored_intent c a of
        Some intent \<Rightarrow>
          observed_terms (od_OrderType observed) = (it_OrderType intent, it_Trigger intent) \<and>
          (od_StopPriceKnown observed \<longleftrightarrow> it_StopPrice intent > 0) \<and> od_StopPrice observed = it_StopPrice intent \<and>
          (od_LimitPriceKnown observed \<longleftrightarrow> it_Limit intent > 0) \<and> od_LimitPrice observed = it_Limit intent
      | None \<Rightarrow> od_LimitPriceKnown observed \<and> o_Limit o' = od_LimitPrice observed)"

definition stored_effect :: "observation_codec \<Rightarrow> execution_attempt \<Rightarrow> string" where
  "stored_effect c a = (case at_ProviderIntent a of None \<Rightarrow> [] | Some t \<Rightarrow> oc_intent_effect c t)"

definition semantics_match ::
  "observation_codec \<Rightarrow> string \<Rightarrow> observed_order \<Rightarrow> order_row \<Rightarrow> execution_attempt \<Rightarrow> bool" where
  "semantics_match c accountID observed o' a \<longleftrightarrow>
     null_string (at_ProviderAccountID a) = accountID \<and> o_Symbol o' = od_Symbol observed \<and>
     o_Side o' = od_Side observed \<and> o_Kind o' = od_Kind observed \<and> o_Qty o' = od_Qty observed \<and>
     prices_match c observed o' a \<and>
     (od_PositionEffect observed = [] \<or> od_PositionEffect observed = ''unknown'' \<or>
        stored_effect c a = od_PositionEffect observed)"

definition judge_candidate ::
  "observation_codec \<Rightarrow> string \<Rightarrow> observed_order \<Rightarrow> order_row \<Rightarrow> execution_attempt \<Rightarrow> broker_origin" where
  "judge_candidate c accountID observed o' a =
     (let brokerMatch = o_BrokerOrderID o' \<noteq> [] \<and> o_BrokerOrderID o' = od_BrokerOrderID observed;
          clientMatch = od_ClientOrderID observed \<noteq> [] \<and> o_ClientOrderID o' = od_ClientOrderID observed
      in if \<not> semantics_match c accountID observed o' a \<or> \<not> brokerMatch \<and> \<not> clientMatch \<or>
            o_BrokerOrderID o' \<noteq> [] \<and> \<not> brokerMatch
         then ambiguous_origin ''identity_conflict''
         else \<lparr>br_origin = ''alpheus'',
               br_evidence = (if brokerMatch then ''exact_broker_order_id'' else ''exact_client_reference''),
               br_matchedOrderID = o_ID o', br_matchedAttemptID = at_ID a\<rparr>)"

text \<open>The scan reads the broker's id into a string: a row where it is NULL stops it.\<close>

definition classifyObservedOrder :: "observation_codec \<Rightarrow> string \<Rightarrow> string \<Rightarrow> db \<Rightarrow> broker_origin result" where
  "classifyObservedOrder c accountID canonical s =
     (case oc_order c canonical of
        None \<Rightarrow> Inl (Errorf ''observed order identity is invalid'' [])
      | Some observed \<Rightarrow>
         if od_BrokerOrderID observed = [] \<or> od_Symbol observed = [] \<or> od_Kind observed = [] \<or>
            od_Side observed \<noteq> ''buy'' \<and> od_Side observed \<noteq> ''sell'' \<or> od_Qty observed \<le> 0
         then Inl (Errorf ''observed order identity is invalid'' [])
         else if list_ex (\<lambda>(o', a). o_BrokerOrderID o' = []) (order_candidates s observed) then Inl scan_error
         else (case order_candidates s observed of
             [] \<Rightarrow> Inr external_origin
           | [(o', a)] \<Rightarrow> Inr (judge_candidate c accountID observed o' a)
           | _ \<Rightarrow> Inr (ambiguous_origin ''identity_conflict'')))"

definition fill_candidates :: "db \<Rightarrow> string \<Rightarrow> (fill_row \<times> order_row \<times> execution_attempt) list" where
  "fill_candidates s fillID =
     [(f, o', a). f \<leftarrow> filter (\<lambda>f. fl_BrokerFillID f = fillID) (db_Fills s),
                  o' \<leftarrow> filter (\<lambda>o'. o_ID o' = fl_OrderID f) (db_Orders s),
                  a \<leftarrow> filter (\<lambda>a. at_ID a = o_ExecutionAttemptID o') (db_Attempts s)]"

definition classifyObservedFill :: "observation_codec \<Rightarrow> string \<Rightarrow> string \<Rightarrow> db \<Rightarrow> broker_origin result" where
  "classifyObservedFill c accountID canonical s =
     (case oc_fill c canonical of
        None \<Rightarrow> Inl (Errorf ''observed fill identity is invalid'' [])
      | Some observed \<Rightarrow>
         if ofl_FillID observed = [] \<or> ofl_BrokerOrderID observed = [] \<or> ofl_Qty observed \<le> 0 \<or>
            ofl_Price observed \<le> 0 \<or> ofl_Fees observed < 0
         then Inl (Errorf ''observed fill identity is invalid'' [])
         else (case fill_candidates s (ofl_FillID observed) of
             [] \<Rightarrow> Inr external_origin
           | (f, o', a) # _ \<Rightarrow>
               if null_string (at_ProviderAccountID a) \<noteq> accountID \<or> o_BrokerOrderID o' \<noteq> ofl_BrokerOrderID observed \<or>
                  fl_Qty f \<noteq> ofl_Qty observed \<or> fl_Price f \<noteq> ofl_Price observed \<or> fl_Fees f \<noteq> ofl_Fees observed
               then Inr (ambiguous_origin ''identity_conflict'')
               else Inr \<lparr>br_origin = ''alpheus'', br_evidence = ''exact_broker_fill_id'',
                      br_matchedOrderID = o_ID o', br_matchedAttemptID = at_ID a\<rparr>))"

definition classify_position :: "observation_codec \<Rightarrow> string \<Rightarrow> db \<Rightarrow> broker_origin result" where
  "classify_position c canonical s =
     (case oc_position c canonical of
        None \<Rightarrow> Inl (Errorf ''observed position identity is invalid'' [])
      | Some p \<Rightarrow>
         if opn_PositionID p = [] \<or> opn_Symbol p = [] \<or> opn_Kind p = [] \<or> opn_Qty p = 0
         then Inl (Errorf ''observed position identity is invalid'' [])
         else if OpenExposureQuantity s ''live'' (opn_Symbol p) (opn_Kind p) = 0 then Inr external_origin
         else Inr (ambiguous_origin ''aggregate_overlap''))"

definition classifyBrokerObjectOrigin :: "observation_codec \<Rightarrow> string \<Rightarrow> string \<Rightarrow> string \<Rightarrow> db \<Rightarrow> broker_origin result" where
  "classifyBrokerObjectOrigin c accountID family canonical s =
     (if family = BrokerFamilyOrders then classifyObservedOrder c accountID canonical s
      else if family = BrokerFamilyFills then classifyObservedFill c accountID canonical s
      else if family = BrokerFamilyPositions then classify_position c canonical s
      else Inl (Errorf ''unsupported broker origin family'' []))"

section \<open>Recording and loading\<close>

definition item_row :: "observation_codec \<Rightarrow> string \<Rightarrow> string \<Rightarrow> normalized_item \<Rightarrow> observation_item_row" where
  "item_row c i family n = \<lparr>oi_ObservationID = i, oi_Family = family, oi_ObjectKey = ni_key n,
     oi_ObservedAt = oc_timestamptz c (ni_observedAt n), oi_Digest = ni_digest n, oi_Canonical = oc_jsonb c (ni_canonical n)\<rparr>"

definition origin_row :: "string \<Rightarrow> string \<Rightarrow> normalized_item \<Rightarrow> broker_origin \<Rightarrow> object_origin_row" where
  "origin_row i family n g = \<lparr>og_ObservationID = i, og_Family = family, og_ObjectKey = ni_key n,
     og_Origin = br_origin g, og_Evidence = br_evidence g,
     og_MatchedOrderID = (if br_matchedOrderID g = [] then None else Some (br_matchedOrderID g)),
     og_MatchedAttemptID = (if br_matchedAttemptID g = [] then None else Some (br_matchedAttemptID g))\<rparr>"

definition record_item ::
  "observation_codec \<Rightarrow> string \<Rightarrow> string \<Rightarrow> string \<Rightarrow> normalized_item \<Rightarrow> db \<Rightarrow> db result" where
  "record_item c i accountID family n s0 =
     (let s = s0\<lparr>db_ObservationItems := db_ObservationItems s0 @ [item_row c i family n]\<rparr>
      in if family = BrokerFamilyAccount then Inr s
         else (case classifyBrokerObjectOrigin c accountID family (ni_canonical n) s of
            Inl e \<Rightarrow> Inl e
          | Inr g \<Rightarrow> Inr (s\<lparr>db_ObjectOrigins := db_ObjectOrigins s @ [origin_row i family n g]\<rparr>)))"

definition record_family ::
  "observation_codec \<Rightarrow> string \<Rightarrow> string \<Rightarrow> normalized_family \<Rightarrow> db \<Rightarrow> db result" where
  "record_family c i accountID f s =
     fold_res (record_item c i accountID (nf_name f)) (nf_items f)
       (s\<lparr>db_ObservationFamilies := db_ObservationFamilies s @
          [\<lparr>of_ObservationID = i, of_Family = nf_name f, of_Status = nf_status f,
            of_ErrorCode = (if nf_errorCode f = [] then None else Some (nf_errorCode f)),
            of_CompletedAt = oc_timestamptz c (nf_completedAt f), of_ItemCount = int (length (nf_items f)), of_Digest = nf_digest f\<rparr>]\<rparr>)"

text \<open>The upsert of the account's head, which only moves to a larger generation.\<close>

definition raise_head :: "observation_codec \<Rightarrow> broker_observation \<Rightarrow> db \<Rightarrow> db" where
  "raise_head c b s =
     (let mine = (\<lambda>h. oh_AccountID h = ob_AccountID b);
          row = \<lparr>oh_AccountID = ob_AccountID b, oh_ObservationID = ob_ID b, oh_Generation = ob_Generation b,
                 oh_UpdatedAt = oc_timestamptz c (ob_CompletedAt b)\<rparr>
      in s\<lparr>db_ObservationHeads :=
             (if list_ex mine (db_ObservationHeads s)
              then update_rows (\<lambda>h. mine h \<and> oh_Generation h < ob_Generation b) (\<lambda>_. row) (db_ObservationHeads s)
              else db_ObservationHeads s @ [row])\<rparr>)"

definition observation_of :: "observation_input \<Rightarrow> int64 \<Rightarrow> string \<Rightarrow> string \<Rightarrow> broker_observation" where
  "observation_of input generation status manifest =
     \<lparr>ob_ID = bi_ID input, ob_Generation = generation, ob_AccountID = bi_AccountID input, ob_Source = bi_Source input,
      ob_Purpose = bi_Purpose input, ob_StartedAt = bi_StartedAt input, ob_CompletedAt = bi_CompletedAt input,
      ob_Status = status, ob_ManifestDigest = hex_encode manifest,
      ob_LocalStateGeneration = bi_LocalStateGeneration input\<rparr>"

definition insert_observation :: "observation_codec \<Rightarrow> observation_input \<Rightarrow> int64 \<Rightarrow> string \<Rightarrow> string \<Rightarrow> db \<Rightarrow> db" where
  "insert_observation c input generation status manifest s =
     s\<lparr>db_Observations := db_Observations s @
         [\<lparr>bo_ID = bi_ID input, bo_Status = status, bo_Purpose = bi_Purpose input, bo_AccountID = bi_AccountID input,
           bo_Generation = generation, bo_ManifestDigest = manifest, bo_Source = bi_Source input,
           bo_StartedAt = oc_timestamptz c (bi_StartedAt input), bo_CompletedAt = oc_timestamptz c (bi_CompletedAt input),
           bo_LocalStateGeneration = bi_LocalStateGeneration input\<rparr>]\<rparr>"

definition recorded_event :: "broker_observation \<Rightarrow> bool \<Rightarrow> db \<Rightarrow> db" where
  "recorded_event b completeAccountView s = insert_event ''broker_observation_recorded''
     [(''observation_id'', PText (ob_ID b)), (''generation'', PInt (ob_Generation b)),
      (''account_id'', PText (ob_AccountID b)), (''source'', PText (ob_Source b)), (''purpose'', PText (ob_Purpose b)),
      (''status'', PText (ob_Status b)), (''manifest_digest'', PText (ob_ManifestDigest b)),
      (''local_state_generation'', PInt (ob_LocalStateGeneration b)),
      (''complete_account_view'', PBool completeAccountView)] s"

text \<open>\<open>newID\<close> is the generated id and \<open>generation\<close> the value of the sequence.\<close>

definition prepared_input :: "string \<Rightarrow> observation_input \<Rightarrow> observation_input" where
  "prepared_input newID input = input\<lparr>bi_AccountID := trim_space (bi_AccountID input),
     bi_Source := trim_space (bi_Source input), bi_ID := (if bi_ID input = [] then newID else bi_ID input)\<rparr>"

definition RecordBrokerObservation ::
  "observation_codec \<Rightarrow> int64 \<Rightarrow> string \<Rightarrow> observation_input \<Rightarrow> db \<Rightarrow> (broker_observation \<times> db) result" where
  "RecordBrokerObservation c generation newID input0 s =
     (let input = prepared_input newID input0
      in case normalizeBrokerObservation c input of
           Inl e \<Rightarrow> Inl e
         | Inr (families, status, manifest, completeAccountView) \<Rightarrow>
             (let b = observation_of input generation status manifest
              in case fold_res (record_family c (bi_ID input) (bi_AccountID input)) families
                     (insert_observation c input generation status manifest s) of
                   Inl e \<Rightarrow> Inl e
                 | Inr s' \<Rightarrow> Inr (b, recorded_event b completeAccountView
                     (if completeAccountView then raise_head c b s' else s'))))"

definition observation_of_row :: "observation_row \<Rightarrow> broker_observation" where
  "observation_of_row b =
     \<lparr>ob_ID = bo_ID b, ob_Generation = bo_Generation b, ob_AccountID = bo_AccountID b, ob_Source = bo_Source b,
      ob_Purpose = bo_Purpose b, ob_StartedAt = bo_StartedAt b, ob_CompletedAt = bo_CompletedAt b,
      ob_Status = bo_Status b, ob_ManifestDigest = hex_encode (bo_ManifestDigest b),
      ob_LocalStateGeneration = bo_LocalStateGeneration b\<rparr>"

text \<open>An item with its origin, which an account has none of.\<close>

definition object_of_row :: "db \<Rightarrow> observation_item_row \<Rightarrow> observed_object" where
  "object_of_row s i =
     (let origin = find (\<lambda>g. og_ObservationID g = oi_ObservationID i \<and> og_Family g = oi_Family i \<and>
            og_ObjectKey g = oi_ObjectKey i) (db_ObjectOrigins s)
      in \<lparr>oo_Family = oi_Family i, oo_ObjectKey = oi_ObjectKey i, oo_ObservedAt = oi_ObservedAt i,
          oo_ObjectDigest = hex_encode (oi_Digest i), oo_Canonical = oi_Canonical i,
          oo_Origin = (case origin of None \<Rightarrow> [] | Some g \<Rightarrow> og_Origin g),
          oo_Evidence = (case origin of None \<Rightarrow> [] | Some g \<Rightarrow> og_Evidence g)\<rparr>)"

text \<open>\<^verbatim>\<open>ORDER BY\<close> a family and a key: by the collation, and where that does not tell two texts apart, by their bytes.\<close>

definition collated :: "observation_codec \<Rightarrow> ('a \<Rightarrow> string) \<Rightarrow> ('a \<Rightarrow> string) \<Rightarrow> 'a list \<Rightarrow> 'a list" where
  "collated c family key xs =
     sort_key (\<lambda>x. oc_collate c (family x)) (sort_key family (sort_key (\<lambda>x. oc_collate c (key x)) (sort_key key xs)))"

definition loadBrokerObservation :: "observation_codec \<Rightarrow> string \<Rightarrow> db \<Rightarrow> account_view result" where
  "loadBrokerObservation c i s =
     (case one_row (\<lambda>b. bo_ID b = i) (db_Observations s) of
        Inl e \<Rightarrow> Inl e
      | Inr b \<Rightarrow> Inr \<lparr>av_Observation = observation_of_row b,
          av_Objects = map (object_of_row s)
            (collated c oi_Family oi_ObjectKey (filter (\<lambda>x. oi_ObservationID x = bo_ID b) (db_ObservationItems s)))\<rparr>)"

definition LoadBrokerObservation :: "observation_codec \<Rightarrow> string \<Rightarrow> db \<Rightarrow> account_view result" where
  "LoadBrokerObservation c i s =
     (if trim_space i = [] then Inl (Errorf ''broker observation id is required'' []) else loadBrokerObservation c i s)"

definition LoadBrokerAccountView :: "observation_codec \<Rightarrow> string \<Rightarrow> db \<Rightarrow> account_view result" where
  "LoadBrokerAccountView c accountID s =
     (if trim_space accountID = [] then Inl (Errorf ''broker account id is required'' [])
      else case one_row (\<lambda>h. oh_AccountID h = trim_space accountID) (db_ObservationHeads s) of
        Inl e \<Rightarrow> Inl e
      | Inr h \<Rightarrow> loadBrokerObservation c (oh_ObservationID h) s)"

section \<open>Origins\<close>

lemma origins_of [simp]: "br_origin external_origin = ''external''" "br_origin (ambiguous_origin e) = ''ambiguous''"
  by (simp_all add: external_origin_def ambiguous_origin_def)

lemma order_candidates_iff:
  "(o', a) \<in> set (order_candidates s r) \<longleftrightarrow> o' \<in> set (db_Orders s) \<and> a \<in> set (db_Attempts s) \<and>
     at_ID a = o_ExecutionAttemptID o' \<and>
     (o_BrokerOrderID o' = od_BrokerOrderID r \<or> od_ClientOrderID r \<noteq> [] \<and> o_ClientOrderID o' = od_ClientOrderID r)"
  by (auto simp: order_candidates_def)

lemma classify_order_alpheus:
  assumes "classifyObservedOrder c accountID canonical s = Inr g" "br_origin g = ''alpheus''"
  obtains r o' a where "oc_order c canonical = Some r" "order_candidates s r = [(o', a)]" "o_BrokerOrderID o' \<noteq> []"
    "g = judge_candidate c accountID r o' a"
proof -
  obtain r where r: "oc_order c canonical = Some r" using assms(1) by (cases "oc_order c canonical") (simp_all add: classifyObservedOrder_def)
  show ?thesis
  proof (cases "order_candidates s r")
    case Nil
    then show ?thesis using assms r by (auto simp: classifyObservedOrder_def split: if_split_asm)
  next
    case (Cons x xs)
    obtain o' a where x: "x = (o', a)" by (cases x)
    show ?thesis
    proof (cases xs)
      case Nil
      then show ?thesis using assms(1) r Cons x by (intro that[OF r]) (auto simp: classifyObservedOrder_def split: if_split_asm)
    next
      case (Cons y ys)
      then show ?thesis using assms r \<open>order_candidates s r = x # xs\<close> x
        by (auto simp: classifyObservedOrder_def split: if_split_asm)
    qed
  qed
qed

lemma judge_candidate_alpheus:
  assumes "br_origin (judge_candidate c accountID r o' a) = ''alpheus''" "o_BrokerOrderID o' \<noteq> []"
  shows "semantics_match c accountID r o' a" "o_BrokerOrderID o' = od_BrokerOrderID r"
    "br_evidence (judge_candidate c accountID r o' a) = ''exact_broker_order_id''"
    "br_matchedOrderID (judge_candidate c accountID r o' a) = o_ID o'"
    "br_matchedAttemptID (judge_candidate c accountID r o' a) = at_ID a"
  using assms by (auto simp: judge_candidate_def Let_def split: if_split_asm)

text \<open>Only the ledger's own orders are taken for its own. An observed order is given the origin
  \<open>alpheus\<close> only when exactly one order of the ledger, with its attempt, carries its broker or client reference,
  and that order has the same broker id, account, symbol, side, kind and quantity, its recorded limit and stop
  are the observed ones, and the effect that was reported is the recorded one. The row found is the evidence.\<close>
lemma alpheus_origin_exact:
  assumes run: "classifyObservedOrder c accountID canonical s = Inr g" and own: "br_origin g = ''alpheus''"
  shows "\<exists>r o' a. oc_order c canonical = Some r \<and> order_candidates s r = [(o', a)] \<and>
    o' \<in> set (db_Orders s) \<and> a \<in> set (db_Attempts s) \<and> at_ID a = o_ExecutionAttemptID o' \<and>
    o_BrokerOrderID o' = od_BrokerOrderID r \<and> null_string (at_ProviderAccountID a) = accountID \<and>
    o_Symbol o' = od_Symbol r \<and> o_Side o' = od_Side r \<and> o_Kind o' = od_Kind r \<and> o_Qty o' = od_Qty r \<and>
    (case stored_intent c a of
       None \<Rightarrow> od_LimitPriceKnown r \<and> o_Limit o' = od_LimitPrice r
     | Some i \<Rightarrow> it_Limit i = od_LimitPrice r \<and> it_StopPrice i = od_StopPrice r \<and>
         observed_terms (od_OrderType r) = (it_OrderType i, it_Trigger i)) \<and>
    (od_PositionEffect r \<in> {[], ''unknown''} \<or> stored_effect c a = od_PositionEffect r) \<and>
    br_matchedOrderID g = o_ID o' \<and> br_matchedAttemptID g = at_ID a \<and> br_evidence g = ''exact_broker_order_id''"
proof -
  obtain r o' a where r: "oc_order c canonical = Some r" "order_candidates s r = [(o', a)]" "o_BrokerOrderID o' \<noteq> []"
    and g: "g = judge_candidate c accountID r o' a"
    by (rule classify_order_alpheus[OF run own])
  note j = judge_candidate_alpheus[OF own[unfolded g] r(3)]
  have "(o', a) \<in> set (order_candidates s r)" using r(2) by simp
  note row = order_candidates_iff[THEN iffD1, OF this]
  have p: "prices_match c r o' a" using j(1) by (simp add: semantics_match_def)
  show ?thesis
    using r(1,2) j row p unfolding g
    by (intro exI[of _ r] exI[of _ o'] exI[of _ a])
       (simp add: semantics_match_def prices_match_def split: option.split_asm option.split)
qed


section \<open>Orders without an answer\<close>

text \<open>A row the scan cannot read makes the whole observation fail.\<close>

lemma classify_unanswered:
  assumes "oc_order c canonical = Some r" "od_ClientOrderID r \<noteq> []"
    and "o' \<in> set (db_Orders s)" "a \<in> set (db_Attempts s)" "at_ID a = o_ExecutionAttemptID o'"
    and "o_BrokerOrderID o' = []" "o_ClientOrderID o' = od_ClientOrderID r"
  shows "\<exists>e. classifyObservedOrder c accountID canonical s = Inl e"
proof -
  have "(o', a) \<in> set (order_candidates s r)" using assms by (simp add: order_candidates_iff)
  then have "list_ex (\<lambda>(o', a). o_BrokerOrderID o' = []) (order_candidates s r)"
    using assms(6) by (auto simp: list_ex_iff)
  then show ?thesis using assms(1) by (simp add: classifyObservedOrder_def)
qed

text \<open>Recording changes no row the origins are read from.\<close>

definition origin_tables where
  "origin_tables s = (db_Orders s, db_Attempts s, db_Fills s, db_Lots s)"

lemma classify_frame:
  assumes "origin_tables s = origin_tables t"
  shows "classifyBrokerObjectOrigin c accountID family canonical s = classifyBrokerObjectOrigin c accountID family canonical t"
proof -
  have "order_candidates s = order_candidates t" "fill_candidates s = fill_candidates t"
    "OpenExposureQuantity s = OpenExposureQuantity t"
    using assms by (simp_all add: fun_eq_iff origin_tables_def order_candidates_def fill_candidates_def OpenExposureQuantity_def)
  then show ?thesis
    by (simp only: classifyBrokerObjectOrigin_def classifyObservedOrder_def classifyObservedFill_def classify_position_def)
qed

lemma origin_tables_frame [simp]:
  "origin_tables (s\<lparr>db_ObservationItems := x\<rparr>) = origin_tables s"
  "origin_tables (s\<lparr>db_ObjectOrigins := y\<rparr>) = origin_tables s"
  "origin_tables (s\<lparr>db_ObservationFamilies := z\<rparr>) = origin_tables s"
  "origin_tables (s\<lparr>db_Observations := w\<rparr>) = origin_tables s"
  by (simp_all add: origin_tables_def)

text \<open>Recording an observation appends its rows, each with the origin it has on the ledger it started from.\<close>

definition found_origin :: "observation_codec \<Rightarrow> string \<Rightarrow> string \<Rightarrow> db \<Rightarrow> normalized_item \<Rightarrow> broker_origin" where
  "found_origin c accountID family s n =
     (case classifyBrokerObjectOrigin c accountID family (ni_canonical n) s of Inl _ \<Rightarrow> external_origin | Inr g \<Rightarrow> g)"

definition origin_rows :: "observation_codec \<Rightarrow> string \<Rightarrow> string \<Rightarrow> string \<Rightarrow> normalized_item list \<Rightarrow> db \<Rightarrow> object_origin_row list" where
  "origin_rows c i accountID family ns s =
     (if family = BrokerFamilyAccount then [] else map (\<lambda>n. origin_row i family n (found_origin c accountID family s n)) ns)"

definition classified :: "observation_codec \<Rightarrow> string \<Rightarrow> db \<Rightarrow> string \<Rightarrow> normalized_item \<Rightarrow> bool" where
  "classified c accountID s family n \<longleftrightarrow>
     family = BrokerFamilyAccount \<or> is_ok (classifyBrokerObjectOrigin c accountID family (ni_canonical n) s)"

lemma record_item_rows:
  assumes "record_item c i accountID family n s = Inr t" "origin_tables s = origin_tables s0"
  shows "t = s\<lparr>db_ObservationItems := db_ObservationItems s @ [item_row c i family n],
      db_ObjectOrigins := db_ObjectOrigins s @ origin_rows c i accountID family [n] s0\<rparr> \<and>
    classified c accountID s0 family n"
proof (cases "family = BrokerFamilyAccount")
  case True
  then show ?thesis using assms by (auto simp: record_item_def origin_rows_def classified_def)
next
  case False
  have "classifyBrokerObjectOrigin c accountID family (ni_canonical n) (s\<lparr>db_ObservationItems := x\<rparr>) =
      classifyBrokerObjectOrigin c accountID family (ni_canonical n) s0" for x
    by (rule classify_frame) (simp add: assms(2))
  then show ?thesis using assms(1) False
    by (auto simp: record_item_def origin_rows_def classified_def found_origin_def case_sum_Inr_iff is_ok_def Let_def)
qed

lemma record_items_rows:
  assumes "fold_res (record_item c i accountID family) ns s = Inr t" "origin_tables s = origin_tables s0"
  shows "t = s\<lparr>db_ObservationItems := db_ObservationItems s @ map (item_row c i family) ns,
      db_ObjectOrigins := db_ObjectOrigins s @ origin_rows c i accountID family ns s0\<rparr> \<and>
    list_all (classified c accountID s0 family) ns"
  using assms
proof (induction ns arbitrary: s)
  case (Cons n ns)
  obtain u where u: "record_item c i accountID family n s = Inr u" and rest: "fold_res (record_item c i accountID family) ns u = Inr t"
    using Cons.prems(1) by (auto simp: case_sum_Inr_iff)
  note one = record_item_rows[OF u Cons.prems(2)]
  have "origin_tables u = origin_tables s0" using one Cons.prems(2) by simp
  note all = Cons.IH[OF rest this]
  show ?case using one all by (simp add: origin_rows_def)
qed (simp add: origin_rows_def)

definition family_items :: "observation_codec \<Rightarrow> string \<Rightarrow> normalized_family list \<Rightarrow> observation_item_row list" where
  "family_items c i fs = concat (map (\<lambda>f. map (item_row c i (nf_name f)) (nf_items f)) fs)"

definition family_origins :: "observation_codec \<Rightarrow> string \<Rightarrow> string \<Rightarrow> normalized_family list \<Rightarrow> db \<Rightarrow> object_origin_row list" where
  "family_origins c i accountID fs s = concat (map (\<lambda>f. origin_rows c i accountID (nf_name f) (nf_items f) s) fs)"

lemma record_families_rows:
  assumes "fold_res (record_family c i accountID) fs s = Inr t" "origin_tables s = origin_tables s0"
  shows "db_ObservationItems t = db_ObservationItems s @ family_items c i fs \<and>
    db_ObjectOrigins t = db_ObjectOrigins s @ family_origins c i accountID fs s0 \<and>
    db_Observations t = db_Observations s \<and> db_ObservationHeads t = db_ObservationHeads s \<and> origin_tables t = origin_tables s \<and>
    (\<forall>f\<in>set fs. list_all (classified c accountID s0 (nf_name f)) (nf_items f))"
  using assms
proof (induction fs arbitrary: s)
  case (Cons f fs)
  obtain u where u: "record_family c i accountID f s = Inr u" and rest: "fold_res (record_family c i accountID) fs u = Inr t"
    using Cons.prems(1) by (auto simp: case_sum_Inr_iff)
  note one = record_items_rows[OF u[unfolded record_family_def], where ?s0.0 = s0, simplified, OF Cons.prems(2)]
  have "origin_tables u = origin_tables s0" using one Cons.prems(2) by simp
  note all = Cons.IH[OF rest this]
  show ?case using one all by (simp add: family_items_def family_origins_def)
qed (simp add: family_items_def family_origins_def)

lemma record_observation_cases:
  assumes "RecordBrokerObservation c generation newID input0 s = Inr (b, s')"
  obtains input fs status manifest complete s1 where "input = prepared_input newID input0"
    "normalizeBrokerObservation c input = Inr (fs, status, manifest, complete)"
    "b = observation_of input generation status manifest"
    "fold_res (record_family c (bi_ID input) (bi_AccountID input)) fs (insert_observation c input generation status manifest s) = Inr s1"
    "s' = recorded_event b complete (if complete then raise_head c b s1 else s1)"
  using assms unfolding RecordBrokerObservation_def Let_def
  by (auto simp: case_sum_Inr_iff split: prod.splits)

lemma origin_tables_insert [simp]: "origin_tables (insert_observation c input g st m s) = origin_tables s"
  by (simp add: insert_observation_def)

lemma normalized_cases:
  assumes "normalizeBrokerObservation c input = Inr (fs, status, manifest, complete)"
  obtains fs0 where "normalize_families c input [] (bi_Families input) = Inr fs0" "fs = sort_key nf_name fs0"
    "status = (if list_all (\<lambda>f. nf_status f = ''success'') fs0 then ''complete'' else ''partial'')"
    "complete = complete_view fs0" "bi_ID input \<noteq> []" "bi_AccountID input \<noteq> []"
  using assms unfolding normalizeBrokerObservation_def guarded_ok case_sum_Inr_iff Let_def
  by (auto simp: observation_guards_def)

lemma family_row_fields [simp]:
  "nf_name (family_row c f items) = fi_Family f" "nf_items (family_row c f items) = sort_key ni_key items"
  "nf_status (family_row c f items) = fi_Status f"
  by (simp_all add: family_row_def Let_def)

lemma normalize_items_valid:
  assumes "normalize_items c accountID family seen is = Inr ns" "n \<in> set ns"
  shows "validateObservationObjectKey c (fi_Family family) (ni_key n) accountID (ni_canonical n) = Inr ()"
  using assms
  by (induction "is" arbitrary: seen ns) (auto simp: case_sum_Inr_iff Let_def if_Inl_eq_Inr simp del: not_not)

text \<open>Every item of the input is in the result under its trimmed key.\<close>

lemma normalize_items_of:
  assumes "normalize_items c accountID family seen is = Inr ns" "x \<in> set is"
  shows "\<exists>n\<in>set ns. oc_canonical c (ii_Canonical x) = Inr (ni_canonical n) \<and> ni_key n = trim_space (ii_ObjectKey x)"
  using assms
  by (induction "is" arbitrary: seen ns) (auto simp: case_sum_Inr_iff Let_def if_Inl_eq_Inr simp del: not_not)

lemma normalize_families_of:
  assumes "normalize_families c input seen fs = Inr ns" "f \<in> set fs" "x \<in> set (fi_Items f)"
  shows "\<exists>m\<in>set ns. nf_name m = fi_Family f \<and> (\<exists>n\<in>set (nf_items m). oc_canonical c (ii_Canonical x) = Inr (ni_canonical n) \<and>
    ni_key n = trim_space (ii_ObjectKey x) \<and>
    validateObservationObjectKey c (fi_Family f) (ni_key n) (bi_AccountID input) (ni_canonical n) = Inr ())"
  using assms
proof (induction fs arbitrary: seen ns)
  case (Cons g gs)
  obtain items rest where items: "normalize_items c (bi_AccountID input) g [] (fi_Items g) = Inr items"
    and rest: "normalize_families c input (fi_Family g # seen) gs = Inr rest" and ns: "ns = family_row c g items # rest"
    using Cons.prems(1) by (auto simp: case_sum_Inr_iff if_Inl_eq_Inr simp del: not_not)
  show ?case
  proof (cases "f = g")
    case True
    then obtain n where "n \<in> set items" "oc_canonical c (ii_Canonical x) = Inr (ni_canonical n)" "ni_key n = trim_space (ii_ObjectKey x)"
      using normalize_items_of[OF items] Cons.prems(3) by blast
    then show ?thesis using True ns normalize_items_valid[OF items] by (intro bexI[of _ "family_row c g items"]) auto
  next
    case False
    then show ?thesis using Cons.IH[OF rest _ Cons.prems(3)] Cons.prems(2) ns by auto
  qed
qed simp

text \<open>C10: An order whose answer is outstanding blocks every observation. If the ledger has an order that was created for
  an attempt and has no broker id yet, then no observation in which the provider reports an order with that
  client reference can be recorded: the whole call fails, and with it every read of the account that a
  live effect depends on.\<close>
theorem unanswered_order_blocks:
  assumes order: "o' \<in> set (db_Orders s)" "a \<in> set (db_Attempts s)" "at_ID a = o_ExecutionAttemptID o'"
    and unanswered: "o_BrokerOrderID o' = []"
    and reported: "f \<in> set (bi_Families input)" "fi_Family f = BrokerFamilyOrders" "x \<in> set (fi_Items f)"
      "oc_canonical c (ii_Canonical x) = Inr canonical" "oc_order c canonical = Some r"
    and same: "od_ClientOrderID r = o_ClientOrderID o'" "o_ClientOrderID o' \<noteq> []"
  shows "\<exists>e. RecordBrokerObservation c generation newID input s = Inl e"
proof (cases "RecordBrokerObservation c generation newID input s")
  case (Inr y)
  obtain b s' where "y = (b, s')" by (cases y)
  then obtain input' fs status manifest complete s1 where i: "input' = prepared_input newID input"
    and n: "normalizeBrokerObservation c input' = Inr (fs, status, manifest, complete)"
    and run: "fold_res (record_family c (bi_ID input') (bi_AccountID input')) fs (insert_observation c input' generation status manifest s) = Inr s1"
    using record_observation_cases[OF Inr[unfolded \<open>y = (b, s')\<close>]] by metis
  obtain fs0 where fs0: "normalize_families c input' [] (bi_Families input') = Inr fs0" "fs = sort_key nf_name fs0"
    by (rule normalized_cases[OF n])
  have "f \<in> set (bi_Families input')" using reported(1) i by (simp add: prepared_input_def)
  from normalize_families_of[OF fs0(1) this reported(3)] obtain m k where m: "m \<in> set fs0" "nf_name m = fi_Family f" "k \<in> set (nf_items m)" "ni_canonical k = canonical"
    using reported(4) by auto
  have "\<forall>g\<in>set fs. list_all (classified c (bi_AccountID input') s (nf_name g)) (nf_items g)"
    using record_families_rows[OF run, of s] by simp
  then have "classified c (bi_AccountID input') s BrokerFamilyOrders k"
    using m fs0(2) reported(2) by (auto simp: list_all_iff)
  then have "is_ok (classifyObservedOrder c (bi_AccountID input') canonical s)"
    by (simp add: classified_def classifyBrokerObjectOrigin_def m(4) BrokerFamilyOrders_def BrokerFamilyAccount_def)
  moreover have "od_ClientOrderID r \<noteq> []" using same by simp
  then obtain e where "classifyObservedOrder c (bi_AccountID input') canonical s = Inl e"
    using classify_unanswered[OF reported(5) _ order unanswered same(1)[symmetric]] by blast
  ultimately show ?thesis by simp
qed simp

section \<open>What is recorded is what is loaded\<close>

text \<open>Sorting commutes with a map that keeps the key.\<close>

lemma sort_key_map: "sort_key k (map f xs) = map f (sort_key (\<lambda>x. k (f x)) xs)"
proof -
  have "insort_key k (f x) (map f ys) = map f (insort_key (\<lambda>x. k (f x)) x ys)" for x ys by (induction ys) simp_all
  then show ?thesis by (induction xs) simp_all
qed

lemma collated_map: "collated c family key (map f xs) = map f (collated c (\<lambda>x. family (f x)) (\<lambda>x. key (f x)) xs)"
  by (simp add: collated_def sort_key_map)

lemma set_collated [simp]: "set (collated c family key xs) = set xs"
  by (simp add: collated_def)

definition ordered_families :: "normalized_family list \<Rightarrow> bool" where
  "ordered_families fs \<longleftrightarrow> sorted (map nf_name fs) \<and> distinct (map nf_name fs) \<and>
     list_all (\<lambda>f. sorted (map ni_key (nf_items f)) \<and> distinct (map ni_key (nf_items f))) fs"

lemma distinct_sort_key [simp]: "distinct (map f (sort_key g xs)) \<longleftrightarrow> distinct (map f xs)"
proof -
  have "mset (map f (sort_key g xs)) = mset (map f xs)" by simp
  then show ?thesis by (rule mset_eq_imp_distinct_iff)
qed

lemma normalize_items_keys:
  "normalize_items c accountID family seen is = Inr ns \<Longrightarrow> distinct (map ni_key ns) \<and> set (map ni_key ns) \<inter> set seen = {}"
  by (induction "is" arbitrary: seen ns) (auto simp: case_sum_Inr_iff Let_def if_Inl_eq_Inr simp del: not_not, fastforce+)

lemma normalize_families_ordered:
  assumes "normalize_families c input seen fs = Inr ns"
  shows "distinct (map nf_name ns) \<and> set (map nf_name ns) \<inter> set seen = {} \<and>
    list_all (\<lambda>f. sorted (map ni_key (nf_items f)) \<and> distinct (map ni_key (nf_items f))) ns"
  using assms
proof (induction fs arbitrary: seen ns)
  case (Cons g gs)
  obtain items rest where items: "normalize_items c (bi_AccountID input) g [] (fi_Items g) = Inr items" and new: "fi_Family g \<notin> set seen"
    and rest: "normalize_families c input (fi_Family g # seen) gs = Inr rest" and ns: "ns = family_row c g items # rest"
    using Cons.prems(1) by (auto simp: case_sum_Inr_iff if_Inl_eq_Inr simp del: not_not)
  show ?case using Cons.IH[OF rest] normalize_items_keys[OF items] new ns by auto
qed simp

lemma normalized_ordered:
  assumes "normalizeBrokerObservation c input = Inr (fs, status, manifest, complete)"
  shows "ordered_families fs"
proof -
  obtain fs0 where fs0: "normalize_families c input [] (bi_Families input) = Inr fs0" "fs = sort_key nf_name fs0"
    by (rule normalized_cases[OF assms])
  show ?thesis using normalize_families_ordered[OF fs0(1)] by (simp add: ordered_families_def fs0(2) list_all_iff)
qed

lemma item_row_fields [simp]:
  "oi_ObservationID (item_row c i k n) = i" "oi_Family (item_row c i k n) = k" "oi_ObjectKey (item_row c i k n) = ni_key n"
  "oi_ObservedAt (item_row c i k n) = oc_timestamptz c (ni_observedAt n)" "oi_Digest (item_row c i k n) = ni_digest n"
  "oi_Canonical (item_row c i k n) = oc_jsonb c (ni_canonical n)"
  by (simp_all add: item_row_def)

lemma family_items_of: "x \<in> set (family_items c i fs) \<longleftrightarrow> (\<exists>f\<in>set fs. \<exists>n\<in>set (nf_items f). x = item_row c i (nf_name f) n)"
  by (auto simp: family_items_def)

text \<open>The origin of a loaded item is the one that was recorded for it.\<close>

lemma find_unique:
  assumes "x \<in> set xs" "P x" "\<And>y. y \<in> set xs \<Longrightarrow> P y \<Longrightarrow> y = x"
  shows "find P xs = Some x"
proof (cases "find P xs")
  case None
  then show ?thesis using assms(1,2) by (simp add: find_None_iff)
next
  case (Some y)
  then show ?thesis using find_SomeD assms(3) by metis
qed

lemma family_origins_of:
  "y \<in> set (family_origins c i accountID fs s) \<longleftrightarrow> (\<exists>f\<in>set fs. nf_name f \<noteq> BrokerFamilyAccount \<and>
     (\<exists>n\<in>set (nf_items f). y = origin_row i (nf_name f) n (found_origin c accountID (nf_name f) s n)))"
  by (auto simp: family_origins_def origin_rows_def)

lemma origin_row_fields [simp]:
  "og_ObservationID (origin_row i k n g) = i" "og_Family (origin_row i k n g) = k" "og_ObjectKey (origin_row i k n g) = ni_key n"
  "og_Origin (origin_row i k n g) = br_origin g" "og_Evidence (origin_row i k n g) = br_evidence g"
  by (simp_all add: origin_row_def)

lemma ordered_unique:
  assumes "ordered_families fs" "f \<in> set fs" "h \<in> set fs" "nf_name h = nf_name f"
    and "n \<in> set (nf_items f)" "m \<in> set (nf_items h)" "ni_key m = ni_key n"
  shows "h = f \<and> m = n"
proof -
  have "h = f" using assms(1-4) by (auto simp: ordered_families_def distinct_map dest: inj_onD)
  then show ?thesis using assms(1,2,5-7) by (auto simp: ordered_families_def list_all_iff distinct_map dest: inj_onD)
qed

definition recorded_origin where
  "recorded_origin i k key g \<longleftrightarrow> og_ObservationID g = i \<and> og_Family g = k \<and> og_ObjectKey g = key"

lemma find_origin:
  assumes "ordered_families fs" "f \<in> set fs" "n \<in> set (nf_items f)"
  shows "find (recorded_origin i (nf_name f) (ni_key n)) (family_origins c i accountID fs s) =
    (if nf_name f = BrokerFamilyAccount then None
     else Some (origin_row i (nf_name f) n (found_origin c accountID (nf_name f) s n)))"
proof (cases "nf_name f = BrokerFamilyAccount")
  case True
  have "\<not> recorded_origin i (nf_name f) (ni_key n) y" if "y \<in> set (family_origins c i accountID fs s)" for y
    using that True by (auto simp: family_origins_of recorded_origin_def)
  then show ?thesis using True by (auto simp: find_None_iff)
next
  case False
  have "find (recorded_origin i (nf_name f) (ni_key n)) (family_origins c i accountID fs s) =
      Some (origin_row i (nf_name f) n (found_origin c accountID (nf_name f) s n))"
  proof (rule find_unique)
    fix y assume rows: "y \<in> set (family_origins c i accountID fs s)" and key: "recorded_origin i (nf_name f) (ni_key n) y"
    obtain h m where h: "h \<in> set fs" "m \<in> set (nf_items h)"
      and y: "y = origin_row i (nf_name h) m (found_origin c accountID (nf_name h) s m)"
      using rows unfolding family_origins_of by blast
    then have h: "h \<in> set fs" "m \<in> set (nf_items h)" "nf_name h = nf_name f" "ni_key m = ni_key n"
      using key by (simp_all add: recorded_origin_def)
    show "y = origin_row i (nf_name f) n (found_origin c accountID (nf_name f) s n)"
      using y ordered_unique[OF assms(1,2) h(1,3) assms(3) h(2,4)] by simp
  qed (use assms False in \<open>auto simp: family_origins_of recorded_origin_def\<close>)
  then show ?thesis using False by simp
qed

text \<open>How an item appears in the loaded view, and the observation itself: with the times as they were stored.\<close>

definition object_in :: "observation_codec \<Rightarrow> string \<Rightarrow> db \<Rightarrow> string \<Rightarrow> normalized_item \<Rightarrow> observed_object" where
  "object_in c accountID s family n =
     (let own = family = BrokerFamilyAccount; g = found_origin c accountID family s n
      in \<lparr>oo_Family = family, oo_ObjectKey = ni_key n, oo_ObservedAt = oc_timestamptz c (ni_observedAt n),
          oo_ObjectDigest = hex_encode (ni_digest n), oo_Canonical = oc_jsonb c (ni_canonical n),
          oo_Origin = (if own then [] else br_origin g), oo_Evidence = (if own then [] else br_evidence g)\<rparr>)"

definition stored_observation :: "observation_codec \<Rightarrow> broker_observation \<Rightarrow> broker_observation" where
  "stored_observation c b = b\<lparr>ob_StartedAt := oc_timestamptz c (ob_StartedAt b), ob_CompletedAt := oc_timestamptz c (ob_CompletedAt b)\<rparr>"

definition recorded_objects :: "observation_codec \<Rightarrow> string \<Rightarrow> db \<Rightarrow> normalized_family list \<Rightarrow> observed_object list" where
  "recorded_objects c accountID s fs = concat (map (\<lambda>f. map (object_in c accountID s (nf_name f)) (nf_items f)) fs)"

definition unused_observation :: "string \<Rightarrow> db \<Rightarrow> bool" where
  "unused_observation i s \<longleftrightarrow> (\<forall>b\<in>set (db_Observations s). bo_ID b \<noteq> i) \<and>
     (\<forall>x\<in>set (db_ObservationItems s). oi_ObservationID x \<noteq> i) \<and> (\<forall>g\<in>set (db_ObjectOrigins s). og_ObservationID g \<noteq> i)"

lemma find_append_none: "(\<And>x. x \<in> set xs \<Longrightarrow> \<not> P x) \<Longrightarrow> find P (xs @ ys) = find P ys"
  by (induction xs) auto

lemma loaded_objects:
  assumes "ordered_families fs" "unused_observation i s"
    and rows: "db_ObservationItems t = db_ObservationItems s @ family_items c i fs"
      "db_ObjectOrigins t = db_ObjectOrigins s @ family_origins c i accountID fs s"
  shows "map (object_of_row t) (collated c oi_Family oi_ObjectKey (filter (\<lambda>x. oi_ObservationID x = i) (db_ObservationItems t))) =
    collated c oo_Family oo_ObjectKey (recorded_objects c accountID s fs)"
proof -
  have old: "filter (\<lambda>x. oi_ObservationID x = i) (db_ObservationItems s) = []"
    using assms(2) by (auto simp: unused_observation_def filter_empty_conv)
  have new: "filter (\<lambda>x. oi_ObservationID x = i) (family_items c i fs) = family_items c i fs"
    by (auto simp: filter_id_conv family_items_of)
  have one: "object_of_row t (item_row c i (nf_name f) n) = object_in c accountID s (nf_name f) n"
    if "f \<in> set fs" "n \<in> set (nf_items f)" for f n
  proof -
    have "find (recorded_origin i (nf_name f) (ni_key n)) (db_ObjectOrigins t) =
        find (recorded_origin i (nf_name f) (ni_key n)) (family_origins c i accountID fs s)"
      unfolding rows(2) using assms(2) by (intro find_append_none) (auto simp: unused_observation_def recorded_origin_def)
    then show ?thesis
      unfolding find_origin[OF assms(1) that] recorded_origin_def
      by (simp add: object_of_row_def object_in_def Let_def)
  qed
  have keys: "oo_Family (object_of_row t r) = oi_Family r" "oo_ObjectKey (object_of_row t r) = oi_ObjectKey r" for r
    by (simp_all add: object_of_row_def Let_def)
  have "map (object_of_row t) (family_items c i fs) = recorded_objects c accountID s fs"
    by (simp add: family_items_def recorded_objects_def map_concat comp_def one cong: map_cong)
  then show ?thesis
    unfolding rows(1) filter_append old new append_Nil using collated_map[of c oo_Family oo_ObjectKey "object_of_row t" "family_items c i fs"]
    by (simp add: keys)
qed

lemma recorded_loads:
  assumes run: "RecordBrokerObservation c generation newID input s = Inr (b, s')"
    and fresh: "unused_observation (ob_ID b) s" and named: "trim_space (ob_ID b) \<noteq> []"
  obtains fs status manifest complete where
    "normalizeBrokerObservation c (prepared_input newID input) = Inr (fs, status, manifest, complete)"
    "b = observation_of (prepared_input newID input) generation status manifest"
    "ordered_families fs" "list_all (\<lambda>f. list_all (classified c (ob_AccountID b) s (nf_name f)) (nf_items f)) fs"
    "LoadBrokerObservation c (ob_ID b) s' = Inr \<lparr>av_Observation = stored_observation c b,
      av_Objects = collated c oo_Family oo_ObjectKey (recorded_objects c (ob_AccountID b) s fs)\<rparr>"
proof -
  obtain inp fs status manifest complete s1 where i: "inp = prepared_input newID input"
    and n: "normalizeBrokerObservation c inp = Inr (fs, status, manifest, complete)"
    and b: "b = observation_of inp generation status manifest"
    and run': "fold_res (record_family c (bi_ID inp) (bi_AccountID inp)) fs (insert_observation c inp generation status manifest s) = Inr s1"
    and s': "s' = recorded_event b complete (if complete then raise_head c b s1 else s1)"
    by (rule record_observation_cases[OF run])
  have ids: "ob_ID b = bi_ID inp" "ob_AccountID b = bi_AccountID inp" by (simp_all add: b observation_of_def)
  note rows = record_families_rows[OF run', of s]
  have same: "db_ObservationItems s' = db_ObservationItems s1" "db_ObjectOrigins s' = db_ObjectOrigins s1"
      "db_Observations s' = db_Observations s1"
    by (simp_all add: s' recorded_event_def insert_event_def raise_head_def Let_def)
  have items: "db_ObservationItems s' = db_ObservationItems s @ family_items c (bi_ID inp) fs"
      "db_ObjectOrigins s' = db_ObjectOrigins s @ family_origins c (bi_ID inp) (bi_AccountID inp) fs s"
    using rows by (simp_all add: same insert_observation_def)
  have "find (\<lambda>x. bo_ID x = bi_ID inp) (db_Observations s') = find (\<lambda>x. bo_ID x = bi_ID inp)
      [last (db_Observations (insert_observation c inp generation status manifest s))]"
    using rows fresh ids(1) by (simp add: same insert_observation_def find_append_none unused_observation_def)
  then obtain row where row: "find (\<lambda>x. bo_ID x = bi_ID inp) (db_Observations s') = Some row"
      "observation_of_row row = stored_observation c b" "bo_ID row = bi_ID inp"
    by (simp add: insert_observation_def observation_of_row_def b observation_of_def stored_observation_def)
  have "LoadBrokerObservation c (ob_ID b) s' = Inr \<lparr>av_Observation = stored_observation c b,
      av_Objects = collated c oo_Family oo_ObjectKey (recorded_objects c (bi_AccountID inp) s fs)\<rparr>"
    using named row loaded_objects[OF normalized_ordered[OF n] fresh[unfolded ids(1)] items]
    by (simp add: LoadBrokerObservation_def loadBrokerObservation_def one_row_def ids(1))
  moreover have "list_all (\<lambda>f. list_all (classified c (ob_AccountID b) s (nf_name f)) (nf_items f)) fs"
    using rows by (simp add: list_all_iff ids(2))
  ultimately show thesis
    by (intro that[OF n[unfolded i] b[unfolded i] normalized_ordered[OF n]]) (simp_all only: ids(2))
qed

text \<open>C9: What is recorded about the account is what is loaded, to the precision of the database. After an observation was recorded under
  a fresh id, loading that id returns the recorded observation with its two times as a \<^verbatim>\<open>TIMESTAMPTZ\<close> column keeps
  them, and exactly the normalised items of its families, each with its key, digest and stored time and with the origin
  that the ledger gave it when it was recorded, in the order of the database's collation.\<close>
theorem observation_loads_back:
  assumes run: "RecordBrokerObservation c generation newID input s = Inr (b, s')"
    and fresh: "unused_observation (ob_ID b) s" and named: "trim_space (ob_ID b) \<noteq> []"
  shows "\<exists>fs status manifest complete.
    normalizeBrokerObservation c (prepared_input newID input) = Inr (fs, status, manifest, complete) \<and>
    b = observation_of (prepared_input newID input) generation status manifest \<and>
    LoadBrokerObservation c (ob_ID b) s' = Inr \<lparr>av_Observation = stored_observation c b,
      av_Objects = collated c oo_Family oo_ObjectKey (recorded_objects c (ob_AccountID b) s fs)\<rparr>"
  by (rule recorded_loads[OF assms]) blast


section \<open>A sample account\<close>

text \<open>A codec whose texts are the keys, a ledger with one working order, and a report of that order.\<close>

definition sample_observed :: observed_order where
  "sample_observed = \<lparr>od_BrokerOrderID = ''b1'', od_ClientOrderID = ''c1'', od_Symbol = ''SPY'', od_Side = ''sell'',
     od_Kind = ''equity'', od_PositionEffect = ''close'', od_Qty = 3000000, od_FilledQty = 0, od_LimitPrice = 100000000,
     od_LimitPriceKnown = True, od_StopPrice = 0, od_StopPriceKnown = False, od_OrderType = ''limit''\<rparr>"

definition sample_observations :: observation_codec where
  "sample_observations = \<lparr>
     oc_canonical = (\<lambda>v. Inr (case v of AccountValue a \<Rightarrow> oa_AccountID a | PositionValue p \<Rightarrow> p_PositionID p
        | OrderValue r \<Rightarrow> ro_BrokerOrderID r | FillValue f \<Rightarrow> rf_FillID f)),
     oc_account_id = Some, oc_position = (\<lambda>t. Some \<lparr>opn_PositionID = t, opn_Symbol = t, opn_Kind = ''equity'', opn_Qty = 1000000\<rparr>),
     oc_order = (\<lambda>t. if t = ''b1'' then Some sample_observed else None), oc_fill = (\<lambda>_. None),
     oc_intent = (\<lambda>t. Some \<lparr>it_Limit = 100000000, it_StopPrice = 0, it_OrderType = ''limit'', it_Trigger = ''immediate''\<rparr>),
     oc_intent_effect = (\<lambda>_. ''close''), oc_family_manifest = (\<lambda>ks. concat (map fst ks)),
     oc_manifest = (\<lambda>i fs. bi_ID i), oc_jsonb = (\<lambda>t. t), oc_timestamptz = (\<lambda>t. (t + 500) div 1000 * 1000), oc_collate = (\<lambda>t. t), oc_sha256 = (\<lambda>t. t)\<rparr>"

definition sample_sender :: execution_attempt where
  "sample_sender = blank_attempt\<lparr>at_ID := ''a1'', at_OperationID := ''op1'', at_Intent := ''place'',
     at_ProviderAccountID := Some ''acct'', at_ProviderIntent := Some ''{}''\<rparr>"

definition sample_live :: db where
  "sample_live = sample_db\<lparr>db_Attempts := [sample_sender]\<rparr>"

definition sample_report :: read_order where
  "sample_report = \<lparr>ro_BrokerOrderID = ''b1'', ro_ClientOrderID = ''c1'', ro_InstrumentID = [], ro_Symbol = ''SPY'',
     ro_Side = ''sell'', ro_Kind = ''equity'', ro_PositionEffect = ''close'', ro_State = ''queued'', ro_Qty = 3000000,
     ro_FilledQty = 0, ro_LimitPrice = 100000000, ro_LimitPriceKnown = True, ro_StopPrice = 0, ro_StopPriceKnown = False,
     ro_OrderType = ''limit'', ro_Source = ''rh'', ro_AsOf = 5\<rparr>"

definition sample_family :: family_input where
  "sample_family = \<lparr>fi_Family = ''orders'', fi_Status = ''success'', fi_ErrorCode = [], fi_CompletedAt = 6400,
     fi_Items = [\<lparr>ii_ObjectKey = ''b1'', ii_ObservedAt = 5400, ii_Canonical = OrderValue sample_report\<rparr>]\<rparr>"

definition sample_input_report :: observation_input where
  "sample_input_report = \<lparr>bi_ID = ''obs'', bi_AccountID = ''acct'', bi_Source = ''rh'', bi_Purpose = ''pre_effect'',
     bi_StartedAt = 4400, bi_CompletedAt = 7400, bi_LocalStateGeneration = 0, bi_Families = [sample_family]\<rparr>"

lemma sample_origin:
  "classifyObservedOrder sample_observations ''acct'' ''b1'' sample_live =
     Inr \<lparr>br_origin = ''alpheus'', br_evidence = ''exact_broker_order_id'', br_matchedOrderID = ''o1'', br_matchedAttemptID = ''a1''\<rparr>"
  by code_simp

theorem unanswered_order_blocks_witness:
  "\<exists>e. RecordBrokerObservation sample_observations 1 ''n'' sample_input_report
     (sample_live\<lparr>db_Orders := [sample_order\<lparr>o_BrokerOrderID := []\<rparr>]\<rparr>) = Inl e"
  by (rule unanswered_order_blocks[where o' = "sample_order\<lparr>o_BrokerOrderID := []\<rparr>" and a = sample_sender
        and f = sample_family and x = "hd (fi_Items sample_family)" and canonical = "''b1''" and r = sample_observed])
     (simp_all add: sample_live_def sample_order_def sample_sender_def sample_input_report_def sample_family_def
        sample_report_def sample_observations_def sample_observed_def BrokerFamilyOrders_def)

definition sample_recording :: "broker_observation \<times> db" where
  "sample_recording = (case RecordBrokerObservation sample_observations 1 ''n'' sample_input_report sample_live of
     Inr y \<Rightarrow> y | Inl _ \<Rightarrow> (observation_of sample_input_report 0 [] [], sample_live))"

lemma sample_recorded:
  "RecordBrokerObservation sample_observations 1 ''n'' sample_input_report sample_live = Inr sample_recording"
proof -
  have "is_ok (RecordBrokerObservation sample_observations 1 ''n'' sample_input_report sample_live)" by code_simp
  then show ?thesis
    by (cases "RecordBrokerObservation sample_observations 1 ''n'' sample_input_report sample_live")
       (simp_all add: sample_recording_def)
qed

theorem observation_loads_back_witness:
  "\<exists>v. LoadBrokerObservation sample_observations ''obs'' (snd sample_recording) = Inr v \<and>
     av_Observation v = stored_observation sample_observations (fst sample_recording) \<and> ob_CompletedAt (av_Observation v) = 7000 \<and>
     ob_CompletedAt (fst sample_recording) = 7400"
proof -
  have i: "ob_ID (fst sample_recording) = ''obs''" "ob_CompletedAt (fst sample_recording) = 7400" by code_simp+
  then have t': "ob_CompletedAt (stored_observation sample_observations (fst sample_recording)) = 7000"
    by (simp add: stored_observation_def sample_observations_def)
  have u: "unused_observation (ob_ID (fst sample_recording)) sample_live"
    by (simp add: unused_observation_def sample_live_def sample_db_def)
  have t: "trim_space (ob_ID (fst sample_recording)) \<noteq> []" by code_simp
  have run: "RecordBrokerObservation sample_observations 1 ''n'' sample_input_report sample_live =
      Inr (fst sample_recording, snd sample_recording)"
    by (simp add: sample_recorded)
  show ?thesis using observation_loads_back[OF run u t] i t' by auto
qed

end
