(* ===== verification/Barrier.thy ===== *)
theory Barrier
  imports Placement Observations
begin

text \<open>
  The pre-effect barrier of \<^verbatim>\<open>kernel/cmd/kernel/broker_observations.go\<close>, on one snapshot of the
  shared broker account: what a working order may do to a position, how much risk and how much closing quantity
  other orders of the account hold, and whether an open or a close still fits.
\<close>

section \<open>The snapshot\<close>

record provider_snapshot =
  sn_Observation :: "broker_observation option"
  sn_View :: "account_view option"
  sn_Account :: account_state
  sn_Positions :: "position list"
  sn_Orders :: "read_order list"

definition bindDecisionObservation :: "provider_snapshot option \<Rightarrow> operation \<Rightarrow> operation" where
  "bindDecisionObservation snapshot op =
     (case Option.bind snapshot sn_Observation of
        None \<Rightarrow> op
      | Some b \<Rightarrow> op\<lparr>op_DecisionObservationID := ob_ID b, op_DecisionObservationGeneration := ob_Generation b,
          op_DecisionObservationDigest := ob_ManifestDigest b\<rparr>)"

definition observedObjectOrigin :: "provider_snapshot option \<Rightarrow> string \<Rightarrow> string \<Rightarrow> string" where
  "observedObjectOrigin snapshot family key =
     (case Option.bind snapshot sn_View of
        None \<Rightarrow> []
      | Some view \<Rightarrow>
         (case find (\<lambda>x. oo_Family x = family \<and> oo_ObjectKey x = key) (av_Objects view) of
            None \<Rightarrow> [] | Some x \<Rightarrow> oo_Origin x))"

definition observedWorkingOrder :: "provider_snapshot option \<Rightarrow> string \<Rightarrow> read_order option" where
  "observedWorkingOrder snapshot brokerOrderID =
     Option.bind snapshot (\<lambda>sn. find (\<lambda>r. ro_BrokerOrderID r = brokerOrderID) (sn_Orders sn))"

text \<open>The snapshots of the barrier are complete, so they have a view.\<close>

definition view_objects :: "provider_snapshot \<Rightarrow> observed_object list" where
  "view_objects sn = (case sn_View sn of None \<Rightarrow> [] | Some v \<Rightarrow> av_Objects v)"

text \<open>The map the loops below build from the view: the last object with a key wins.\<close>

definition origin_of :: "observed_object list \<Rightarrow> string \<Rightarrow> string" where
  "origin_of objects key =
     (case find (\<lambda>x. oo_Family x = BrokerFamilyOrders \<and> oo_ObjectKey x = key) (rev objects) of
        None \<Rightarrow> [] | Some x \<Rightarrow> oo_Origin x)"

definition own_order :: "provider_snapshot \<Rightarrow> read_order \<Rightarrow> bool" where
  "own_order sn r \<longleftrightarrow> origin_of (view_objects sn) (ro_BrokerOrderID r) = ''alpheus''"


section \<open>What a working order may do\<close>

definition remaining_qty :: "read_order \<Rightarrow> qty" where
  "remaining_qty r = wrap64 (ro_Qty r - ro_FilledQty r)"

definition same_identity :: "read_order \<Rightarrow> position \<Rightarrow> bool" where
  "same_identity r p \<longleftrightarrow>
     (if ro_InstrumentID r \<noteq> [] \<and> p_InstrumentID p \<noteq> [] then p_InstrumentID p = ro_InstrumentID r
      else p_Symbol p = ro_Symbol r \<and> p_Kind p = ro_Kind r)"

definition closing_side :: "position \<Rightarrow> string" where
  "closing_side p = (if p_Qty p < 0 then ''buy'' else ''sell'')"

text \<open>The result says whether the order may open and whether it may close.\<close>

definition effects_on :: "read_order \<Rightarrow> bool \<Rightarrow> position option \<Rightarrow> (bool \<times> bool) result" where
  "effects_on r declaredClose position =
     (case position of
        None \<Rightarrow> Inr (if declaredClose then (True, True) else (True, False))
      | Some p \<Rightarrow>
         (case AbsQty (p_Qty p) of
            Inl e \<Rightarrow> Inl e
          | Inr positionQty \<Rightarrow>
              if ro_Side r \<noteq> closing_side p then Inr (if declaredClose then (True, True) else (True, False))
              else if remaining_qty r > positionQty then Inr (True, True)
              else Inr (False, True)))"

definition workingOrderEffects :: "read_order \<Rightarrow> position list \<Rightarrow> (bool \<times> bool) result" where
  "workingOrderEffects r positions =
     (if remaining_qty r \<le> 0 then Inl (Errorf ''working order has no remaining quantity'' [])
      else if ro_PositionEffect r = ''open'' then Inr (True, False)
      else if ro_PositionEffect r \<noteq> ''close'' \<and> ro_PositionEffect r \<noteq> ''unknown''
      then Inl (Errorf ''working order effect is invalid'' [])
      else (case filter (\<lambda>p. same_identity r p \<and> p_Qty p \<noteq> 0) positions of
          [] \<Rightarrow> effects_on r (ro_PositionEffect r = ''close'') None
        | [p] \<Rightarrow> effects_on r (ro_PositionEffect r = ''close'') (Some p)
        | _ \<Rightarrow> Inl (Errorf ''working order position match is ambiguous'' [])))"

text \<open>What may not be taken as both, nor be left undecided.\<close>

definition order_effect :: "string \<Rightarrow> read_order \<Rightarrow> position list \<Rightarrow> (bool \<times> bool) result" where
  "order_effect message r positions =
     (case workingOrderEffects r positions of
        Inl _ \<Rightarrow> Inl (Errorf message [])
      | Inr (mayOpen, mayClose) \<Rightarrow> if mayOpen \<and> mayClose then Inl (Errorf message []) else Inr (mayOpen, mayClose))"


section \<open>Cancel decisions\<close>

record cancel_target =
  ct_BrokerOrderID :: string
  ct_InstrumentID :: string
  ct_Symbol :: string
  ct_Side :: string
  ct_Kind :: string
  ct_PositionEffect :: string
  ct_State :: string
  ct_Qty :: qty
  ct_FilledQty :: qty
  ct_LimitPrice :: micros
  ct_LimitKnown :: bool
  ct_StopPrice :: micros
  ct_StopKnown :: bool
  ct_OrderType :: string

definition target_semantics :: "read_order \<Rightarrow> cancel_target" where
  "target_semantics r =
     \<lparr>ct_BrokerOrderID = ro_BrokerOrderID r, ct_InstrumentID = ro_InstrumentID r, ct_Symbol = ro_Symbol r,
      ct_Side = ro_Side r, ct_Kind = ro_Kind r, ct_PositionEffect = ro_PositionEffect r, ct_State = ro_State r,
      ct_Qty = ro_Qty r, ct_FilledQty = ro_FilledQty r, ct_LimitPrice = ro_LimitPrice r,
      ct_LimitKnown = ro_LimitPriceKnown r, ct_StopPrice = ro_StopPrice r, ct_StopKnown = ro_StopPriceKnown r,
      ct_OrderType = ro_OrderType r\<rparr>"

text \<open>\<open>marshal\<close> and \<open>sha\<close> stand for \<open>json.Marshal\<close> of the semantic fields and SHA-256.\<close>

definition cancelTargetFingerprint :: "(cancel_target \<Rightarrow> string) \<Rightarrow> (string \<Rightarrow> string) \<Rightarrow> read_order \<Rightarrow> string" where
  "cancelTargetFingerprint marshal sha r = hex_encode (sha (marshal (target_semantics r)))"

definition cancel_effect :: "(bool \<times> bool) result \<Rightarrow> string" where
  "cancel_effect effects =
     (case effects of
        Inl _ \<Rightarrow> ''ambiguous''
      | Inr (mayOpen, mayClose) \<Rightarrow>
          if mayOpen \<and> mayClose then ''ambiguous''
          else if mayOpen then ''opening''
          else if mayClose then ''closing''
          else ''ambiguous'')"

definition classifyCancelDecision ::
  "(cancel_target \<Rightarrow> string) \<Rightarrow> (string \<Rightarrow> string) \<Rightarrow> provider_snapshot option \<Rightarrow> operation \<Rightarrow> operation" where
  "classifyCancelDecision marshal sha snapshot op0 =
     (let op = bindDecisionObservation snapshot op0
      in case observedWorkingOrder snapshot (op_BrokerOrderID op) of
           None \<Rightarrow> op\<lparr>op_CancelTargetEffect := ''missing''\<rparr>
         | Some target \<Rightarrow>
            (let op = op\<lparr>op_BrokerObjectOrigin := observedObjectOrigin snapshot BrokerFamilyOrders (ro_BrokerOrderID target),
                   op_CancelTargetFingerprint := cancelTargetFingerprint marshal sha target\<rparr>;
                 effect = cancel_effect (workingOrderEffects target
                   (case snapshot of None \<Rightarrow> [] | Some sn \<Rightarrow> sn_Positions sn))
             in op\<lparr>op_CancelTargetEffect := effect,
                  op_VerifiedReduction := (effect = ''opening'' \<or> op_VerifiedReduction op)\<rparr>))"


section \<open>Closing quantity held by other orders\<close>

definition ambiguous_close :: string where
  "ambiguous_close = ''working close order effect is ambiguous''"

text \<open>The loop over the working orders: \<open>own\<close> are the orders of this ledger, \<open>counts\<close> those that close the position.\<close>

fun external_close ::
  "(read_order \<Rightarrow> bool) \<Rightarrow> (read_order \<Rightarrow> bool) \<Rightarrow> position list \<Rightarrow> qty \<Rightarrow> read_order list \<Rightarrow> qty result" where
  "external_close own counts positions acc [] = Inr acc"
| "external_close own counts positions acc (r # rs) =
     (if own r then external_close own counts positions acc rs
      else case order_effect ambiguous_close r positions of
        Inl e \<Rightarrow> Inl e
      | Inr (mayOpen, mayClose) \<Rightarrow>
          if \<not> mayClose \<or> \<not> counts r then external_close own counts positions acc rs
          else (case AddQty acc (remaining_qty r) of
             Inl e \<Rightarrow> Inl e
           | Inr acc' \<Rightarrow> external_close own counts positions acc' rs))"

definition externalWorkingCloseQuantity :: "provider_snapshot option \<Rightarrow> operation \<Rightarrow> qty result" where
  "externalWorkingCloseQuantity snapshot op =
     (case snapshot of
        None \<Rightarrow> Inl (Errorf ''broker order observation is unavailable'' [])
      | Some sn \<Rightarrow>
         (case sn_View sn of
            None \<Rightarrow> Inl (Errorf ''broker order observation is unavailable'' [])
          | Some _ \<Rightarrow> external_close
              (\<lambda>r. observedObjectOrigin snapshot BrokerFamilyOrders (ro_BrokerOrderID r) = ''alpheus'')
              (\<lambda>r. ro_Symbol r = operationSymbol op \<and> ro_Kind r = op_Kind op) (sn_Positions sn) 0 (sn_Orders sn)))"

definition position_changed :: "operation \<Rightarrow> position \<Rightarrow> bool" where
  "position_changed op p \<longleftrightarrow>
     p_PositionID p \<noteq> op_BrokerPositionID op \<or> p_Qty p \<noteq> op_DecisionPositionQty op \<or> p_Kind p \<noteq> op_Kind op \<or>
     p_Multiplier p \<noteq> op_Multiplier op \<or> op_InstrumentID op = [] \<or>
     p_Kind p = ''option'' \<and> p_InstrumentID p \<noteq> op_InstrumentID op \<or>
     p_Kind p = ''equity'' \<and> p_InstrumentID p \<noteq> [] \<and> p_InstrumentID p \<noteq> op_InstrumentID op"

definition close_fits :: "operation \<Rightarrow> qty \<Rightarrow> qty \<Rightarrow> qty \<Rightarrow> qty result" where
  "close_fits op otherLocal externalClose positionQty =
     (case AddQty otherLocal externalClose of
        Inl e \<Rightarrow> Inl e
      | Inr reserved \<Rightarrow>
          if reserved > positionQty \<or> op_Qty op > wrap64 (positionQty - reserved)
          then Inl (Errorf ''proposal is stale: aggregate closable quantity changed'' [])
          else Inr externalClose)"

definition close_capacity :: "provider_snapshot \<Rightarrow> operation \<Rightarrow> qty \<Rightarrow> position \<Rightarrow> qty result" where
  "close_capacity sn op otherLocal p =
     (if position_changed op p then Inl (Errorf ''close position changed at pre-effect barrier'' [])
      else if op_Side op \<noteq> closing_side p then Inl (Errorf ''close direction changed at pre-effect barrier'' [])
      else case AbsQty (p_Qty p) of
        Inl e \<Rightarrow> Inl e
      | Inr positionQty \<Rightarrow>
         (case external_close (own_order sn)
             (\<lambda>r. ro_Symbol r = p_Symbol p \<and> ro_Kind r = p_Kind p) (sn_Positions sn) 0 (sn_Orders sn) of
            Inl e \<Rightarrow> Inl e
          | Inr externalClose \<Rightarrow> close_fits op otherLocal externalClose positionQty))"

definition validateFreshCloseCapacity :: "provider_snapshot \<Rightarrow> operation \<Rightarrow> qty \<Rightarrow> qty result" where
  "validateFreshCloseCapacity sn op otherLocal =
     (case filter (\<lambda>p. p_Symbol p = operationSymbol op \<and> p_Qty p \<noteq> 0) (sn_Positions sn) of
        [] \<Rightarrow> Inl (Errorf ''close position changed at pre-effect barrier'' [])
      | [p] \<Rightarrow> close_capacity sn op otherLocal p
      | _ \<Rightarrow> Inl (Errorf ''close position identity is ambiguous'' []))"

section \<open>Risk of the rest of the account\<close>

text \<open>The key of a position: kind and symbol around a zero byte.\<close>

definition position_key :: "position \<Rightarrow> string" where
  "position_key p = p_Kind p @ [CHR 0x00] @ p_Symbol p"

text \<open>What the account holds beyond the ledger's own exposure, at its average price.\<close>

definition position_excess :: "db \<Rightarrow> position \<Rightarrow> micros result" where
  "position_excess s p =
     (let internalQty = OpenExposureQuantity s ''live'' (p_Symbol p) (p_Kind p)
      in if internalQty < 0 then Inl (Errorf ''internal exposure quantity is invalid'' [])
         else if p_Qty p \<le> internalQty then Inr 0
         else if \<not> p_AvgPriceKnown p \<or> p_AvgPrice p \<le> 0 then Inl (Errorf ''external position risk is unknown'' [])
         else MulQtyPrice (wrap64 (p_Qty p - internalQty)) (p_AvgPrice p) (p_Multiplier p) True)"

fun position_risk :: "db \<Rightarrow> string list \<Rightarrow> micros \<Rightarrow> position list \<Rightarrow> micros result" where
  "position_risk s seen acc [] = Inr acc"
| "position_risk s seen acc (p # ps) =
     (if p_Kind p = ''option'' then Inl (Errorf ''option-position coexistence is not certified'' [])
      else if position_key p \<in> set seen then Inl (Errorf ''aggregate position identity is ambiguous'' [])
      else if p_Qty p < 0 then Inl (Errorf ''external short position cannot authorize new risk'' [])
      else case position_excess s p of
        Inl e \<Rightarrow> Inl e
      | Inr x \<Rightarrow>
         (case Add acc x of
            Inl e \<Rightarrow> Inl e
          | Inr acc' \<Rightarrow> position_risk s (position_key p # seen) acc' ps))"

definition opening_risk :: "read_order \<Rightarrow> micros result" where
  "opening_risk r =
     (if ro_Side r \<noteq> ''buy'' \<or> \<not> ro_LimitPriceKnown r \<or> ro_LimitPrice r \<le> 0
      then Inl (Errorf ''working opening order risk is unbounded'' [])
      else MulQtyPrice (remaining_qty r) (ro_LimitPrice r) (if ro_Kind r = ''option'' then 100 else 1) True)"

fun working_risk :: "(read_order \<Rightarrow> bool) \<Rightarrow> position list \<Rightarrow> micros \<Rightarrow> read_order list \<Rightarrow> micros result" where
  "working_risk own positions acc [] = Inr acc"
| "working_risk own positions acc (r # rs) =
     (if own r then working_risk own positions acc rs
      else if ro_Kind r = ''option'' then Inl (Errorf ''external option-order coexistence is not certified'' [])
      else case order_effect ''working order effect is ambiguous'' r positions of
        Inl e \<Rightarrow> Inl e
      | Inr (mayOpen, mayClose) \<Rightarrow>
          if \<not> mayOpen then working_risk own positions acc rs
          else (case opening_risk r of
             Inl e \<Rightarrow> Inl e
           | Inr x \<Rightarrow>
              (case Add acc x of
                 Inl e \<Rightarrow> Inl e
               | Inr acc' \<Rightarrow> working_risk own positions acc' rs)))"

definition aggregateExternalOpenRisk :: "provider_snapshot \<Rightarrow> db \<Rightarrow> (micros \<times> micros) result" where
  "aggregateExternalOpenRisk sn s =
     (case position_risk s [] 0 (sn_Positions sn) of
        Inl e \<Rightarrow> Inl e
      | Inr positionRisk \<Rightarrow>
         (case working_risk (own_order sn) (sn_Positions sn) 0 (sn_Orders sn) of
            Inl e \<Rightarrow> Inl e
          | Inr workingRisk \<Rightarrow> Inr (positionRisk, workingRisk)))"


section \<open>Small checks\<close>

definition sameReferenceOrderVisible :: "read_order list \<Rightarrow> string \<Rightarrow> bool" where
  "sameReferenceOrderVisible orders clientOrderID \<longleftrightarrow>
     trim_space clientOrderID \<noteq> [] \<and> list_ex (\<lambda>r. ro_ClientOrderID r = clientOrderID) orders"

fun add_micros :: "micros \<Rightarrow> micros list \<Rightarrow> micros result" where
  "add_micros acc [] = Inr acc"
| "add_micros acc (v # vs) = (case Add acc v of Inl e \<Rightarrow> Inl e | Inr acc' \<Rightarrow> add_micros acc' vs)"

definition addMicros :: "micros list \<Rightarrow> micros result" where
  "addMicros values = add_micros 0 values"

definition earlierTime :: "time \<Rightarrow> time \<Rightarrow> time" where
  "earlierTime left right = (if right < left then right else left)"

definition preEffectInstrumentMatches :: "time \<Rightarrow> operation \<Rightarrow> execution_attempt \<Rightarrow> instrument \<Rightarrow> bool" where
  "preEffectInstrumentMatches now op a i \<longleftrightarrow>
     i_InstrumentID i \<noteq> [] \<and> i_InstrumentID i = op_InstrumentID op \<and> i_Kind i = op_Kind op \<and>
     i_Multiplier i = op_Multiplier op \<and> i_Source i \<noteq> [] \<and> i_AsOf i \<noteq> 0 \<and> i_AsOf i \<le> now \<and> PrecisionSane i \<and>
     SupportsPrice i (at_Limit a) \<and> (case op_StopPrice op of None \<Rightarrow> True | Some p \<Rightarrow> SupportsPrice i p) \<and>
     0 < i_QtyIncrement i \<and> at_Qty a smod i_QtyIncrement i = 0"

definition preEffectQuoteMatches :: "operation \<Rightarrow> quote \<Rightarrow> instrument \<Rightarrow> bool" where
  "preEffectQuoteMatches op q i \<longleftrightarrow>
     (q_Symbol q = operationSymbol op \<or> op_Kind op = ''option'' \<and> q_Symbol q = i_InstrumentID i) \<and>
     q_Source q \<noteq> [] \<and> q_Source q = i_Source i"

definition preEffectRequiresProposalTTL :: "execution_attempt \<Rightarrow> operation \<Rightarrow> bool" where
  "preEffectRequiresProposalTTL a op \<longleftrightarrow>
     \<not> (at_Intent a = ''cancel'' \<and> op_Action op \<noteq> ''cancel'') \<and> (at_Intent a \<noteq> ''place'' \<or> at_Seq a \<le> 1)"

definition valid_position :: "string \<Rightarrow> time \<Rightarrow> position \<Rightarrow> bool" where
  "valid_position source completedAt p \<longleftrightarrow>
     p_PositionID p \<noteq> [] \<and> p_Symbol p \<noteq> [] \<and> p_Qty p \<noteq> 0 \<and> (p_Kind p = ''equity'' \<or> p_Kind p = ''option'') \<and>
     0 < p_Multiplier p \<and> p_Source p = source \<and> p_AsOf p \<noteq> 0 \<and> p_AsOf p \<le> completedAt"

text \<open>The map \<open>seen\<close> of the loops refuses a second row with a key.\<close>

definition brokerPositionsValid :: "position list \<Rightarrow> string \<Rightarrow> string \<Rightarrow> time \<Rightarrow> bool" where
  "brokerPositionsValid positions accountID source completedAt \<longleftrightarrow>
     list_all (valid_position source completedAt) positions \<and> distinct (map p_PositionID positions) \<and> accountID \<noteq> []"

definition order_prices_match :: "read_order \<Rightarrow> bool" where
  "order_prices_match r \<longleftrightarrow>
     (if ro_OrderType r = [] then True
      else if ro_OrderType r = ''limit'' then ro_LimitPriceKnown r \<and> \<not> ro_StopPriceKnown r
      else if ro_OrderType r = ''market'' then \<not> ro_StopPriceKnown r
      else if ro_OrderType r = ''stop_limit'' then ro_LimitPriceKnown r \<and> ro_StopPriceKnown r
      else if ro_OrderType r = ''stop_market'' then \<not> ro_LimitPriceKnown r \<and> ro_StopPriceKnown r
      else False)"

definition valid_order :: "string \<Rightarrow> time \<Rightarrow> read_order \<Rightarrow> bool" where
  "valid_order source completedAt r \<longleftrightarrow>
     ro_BrokerOrderID r \<noteq> [] \<and> ro_Symbol r \<noteq> [] \<and> (ro_Side r = ''buy'' \<or> ro_Side r = ''sell'') \<and>
     (ro_Kind r = ''equity'' \<or> ro_Kind r = ''option'') \<and>
     (ro_PositionEffect r = ''open'' \<or> ro_PositionEffect r = ''close'' \<or> ro_PositionEffect r = ''unknown'') \<and>
     trim_space (ro_State r) \<noteq> [] \<and> 0 < ro_Qty r \<and> 0 \<le> ro_FilledQty r \<and> ro_FilledQty r \<le> ro_Qty r \<and>
     ro_Source r = source \<and> ro_AsOf r \<noteq> 0 \<and> ro_AsOf r \<le> completedAt \<and>
     (ro_LimitPriceKnown r \<longrightarrow> 0 < ro_LimitPrice r) \<and> (ro_StopPriceKnown r \<longrightarrow> 0 < ro_StopPrice r) \<and> order_prices_match r"

definition brokerOrdersValid :: "read_order list \<Rightarrow> string \<Rightarrow> time \<Rightarrow> bool" where
  "brokerOrdersValid orders source completedAt \<longleftrightarrow>
     list_all (valid_order source completedAt) orders \<and> distinct (map ro_BrokerOrderID orders)"

definition valid_fill :: "string \<Rightarrow> time \<Rightarrow> read_fill \<Rightarrow> bool" where
  "valid_fill source completedAt f \<longleftrightarrow>
     rf_FillID f \<noteq> [] \<and> rf_BrokerOrderID f \<noteq> [] \<and> rf_Symbol f \<noteq> [] \<and> (rf_Side f = ''buy'' \<or> rf_Side f = ''sell'') \<and>
     0 < rf_Qty f \<and> 0 < rf_Price f \<and> 0 \<le> rf_Fees f \<and> rf_Source f = source \<and> rf_AsOf f \<noteq> 0 \<and> rf_AsOf f \<le> completedAt"

definition brokerFillsValid :: "read_fill list \<Rightarrow> string \<Rightarrow> time \<Rightarrow> bool" where
  "brokerFillsValid fills source completedAt \<longleftrightarrow>
     list_all (valid_fill source completedAt) fills \<and> distinct (map rf_FillID fills)"

section \<open>What a granted close leaves\<close>

lemma order_effect_Inr:
  "order_effect m r positions = Inr (o', c) \<longleftrightarrow> workingOrderEffects r positions = Inr (o', c) \<and> \<not> (o' \<and> c)"
  by (auto simp: order_effect_def split: sum.splits prod.splits if_splits)

lemma effects_remaining: "workingOrderEffects r positions = Inr e \<Longrightarrow> 0 < remaining_qty r"
  by (auto simp: workingOrderEffects_def split: if_splits)

text \<open>An order that surely closes, and how much the orders of others may still close.\<close>

definition surely_closes :: "position list \<Rightarrow> read_order \<Rightarrow> bool" where
  "surely_closes positions r \<longleftrightarrow> workingOrderEffects r positions = Inr (False, True)"

definition decided :: "position list \<Rightarrow> read_order \<Rightarrow> bool" where
  "decided positions r \<longleftrightarrow> (\<exists>o' c. workingOrderEffects r positions = Inr (o', c) \<and> \<not> (o' \<and> c))"

lemma external_close_sum:
  assumes "external_close own counts positions acc rs = Inr t"
  shows "t = acc + total remaining_qty (filter (\<lambda>r. \<not> own r \<and> counts r \<and> surely_closes positions r) rs) \<and>
    (\<forall>r\<in>set rs. own r \<or> decided positions r)"
  using assms
proof (induction rs arbitrary: acc)
  case (Cons r rs)
  show ?case
  proof (cases "own r")
    case True
    then show ?thesis using Cons by simp
  next
    case False
    obtain o' c where e: "workingOrderEffects r positions = Inr (o', c)" "\<not> (o' \<and> c)" "order_effect ambiguous_close r positions = Inr (o', c)"
      using Cons.prems False by (cases "order_effect ambiguous_close r positions") (auto simp: order_effect_Inr)
    have d: "decided positions r" using e by (auto simp: decided_def)
    have s: "surely_closes positions r \<longleftrightarrow> c" using e by (auto simp: surely_closes_def)
    show ?thesis
    proof (cases "c \<and> counts r")
      case True
      then obtain acc' where "AddQty acc (remaining_qty r) = Inr acc'" "external_close own counts positions acc' rs = Inr t"
        using Cons.prems False e by (cases "AddQty acc (remaining_qty r)") simp_all
      then show ?thesis using Cons.IH[of acc'] True False d s by (simp add: AddQty_iff total_def)
    next
      case skip: False
      then have "external_close own counts positions acc rs = Inr t" using Cons.prems False e by auto
      then show ?thesis using Cons.IH skip False d s by (auto simp: total_def)
    qed
  qed
qed (simp add: total_def)

lemma surely_closes_sum:
  assumes "\<And>r. P r \<Longrightarrow> surely_closes positions r"
  shows "0 \<le> total remaining_qty (filter P rs)"
proof (rule total_nonneg)
  fix r assume "r \<in> set (filter P rs)"
  then have "workingOrderEffects r positions = Inr (False, True)" using assms by (simp add: surely_closes_def)
  then show "0 \<le> remaining_qty r" by (rule effects_remaining[THEN less_imp_le])
qed

text \<open>A granted close cannot reverse a position. When the barrier lets a close through, the account has exactly one position
  in the symbol, it is the one the operation was decided on, the order is on the side that reduces it, every
  working order of others has a decided effect, and the close together with the ledger's other reserved closes and
  everything the orders of others may still close is at most the size of the position.\<close>
lemma close_never_reverses:
  assumes run: "validateFreshCloseCapacity sn op otherLocal = Inr external"
    and nonneg: "0 \<le> otherLocal" and ints: "\<forall>p\<in>set (sn_Positions sn). in_int64 (p_Qty p)"
  shows "\<exists>p. filter (\<lambda>p. p_Symbol p = operationSymbol op \<and> p_Qty p \<noteq> 0) (sn_Positions sn) = [p] \<and>
    \<not> position_changed op p \<and> op_Side op = closing_side p \<and>
    external = total remaining_qty (filter (\<lambda>r. \<not> own_order sn r \<and>
      (ro_Symbol r = p_Symbol p \<and> ro_Kind r = p_Kind p) \<and> surely_closes (sn_Positions sn) r) (sn_Orders sn)) \<and>
    (\<forall>r\<in>set (sn_Orders sn). own_order sn r \<or> decided (sn_Positions sn) r) \<and>
    op_Qty op + otherLocal + external \<le> \<bar>p_Qty p\<bar>"
proof -
  obtain p where p: "filter (\<lambda>p. p_Symbol p = operationSymbol op \<and> p_Qty p \<noteq> 0) (sn_Positions sn) = [p]"
    and cap: "close_capacity sn op otherLocal p = Inr external"
    using run by (auto simp: validateFreshCloseCapacity_def split: list.splits)
  have "p \<in> set (sn_Positions sn)" using arg_cong[OF p, of set] by auto
  then have int: "in_int64 (p_Qty p)" using ints by blast
  have ok: "\<not> position_changed op p" "op_Side op = closing_side p"
    using cap by (simp_all add: close_capacity_def split: if_split_asm)
  obtain n where n: "AbsQty (p_Qty p) = Inr n" using cap ok by (cases "AbsQty (p_Qty p)") (simp_all add: close_capacity_def)
  obtain x where x: "external_close (own_order sn)
      (\<lambda>r. ro_Symbol r = p_Symbol p \<and> ro_Kind r = p_Kind p) (sn_Positions sn) 0 (sn_Orders sn) = Inr x"
    using cap ok n by (auto simp: close_capacity_def split: sum.splits)
  then have fits: "close_fits op otherLocal x n = Inr external" using cap ok n by (simp add: close_capacity_def)
  obtain r where r: "AddQty otherLocal x = Inr r" using fits by (auto simp: close_fits_def split: sum.splits)
  then have f: "x = external" "r \<le> n" "op_Qty op \<le> wrap64 (n - r)"
    using fits by (simp_all add: close_fits_def split: if_split_asm)
  note sum = external_close_sum[OF x, simplified]
  have n': "n = \<bar>p_Qty p\<bar>" "in_int64 n" using n int by (auto simp: AbsQty_iff in_int64_def min_int64_def)
  have r': "r = otherLocal + external" using r f(1) by (simp add: AddQty_iff)
  have "0 \<le> external"
    using sum f(1) by (auto intro!: surely_closes_sum[where positions = "sn_Positions sn"])
  then have "in_int64 (n - r)" using n'(2) r' nonneg f(2) by (auto simp: in_int64_def)
  then have "op_Qty op + otherLocal + external \<le> \<bar>p_Qty p\<bar>" using f(3) r' n'(1) by (simp add: wrap64_id)
  then show ?thesis using p ok sum f(1) by (intro exI[of _ p]) (auto simp: conj_assoc)
qed

section \<open>What the aggregate risk covers\<close>

definition excess_cost :: "db \<Rightarrow> position \<Rightarrow> int" where
  "excess_cost s p = max 0 (p_Qty p - OpenExposureQuantity s ''live'' (p_Symbol p) (p_Kind p)) * p_AvgPrice p * p_Multiplier p"

text \<open>An order that may open and how much it may still cost at its limit.\<close>

definition may_open :: "position list \<Rightarrow> read_order \<Rightarrow> bool" where
  "may_open positions r \<longleftrightarrow> (\<exists>c. workingOrderEffects r positions = Inr (True, c))"

definition opening_cost :: "read_order \<Rightarrow> int" where
  "opening_cost r = remaining_qty r * ro_LimitPrice r"

lemma MulQtyPrice_covers:
  assumes "MulQtyPrice q p m True = Inr x"
  shows "q * p * m \<le> x * Scale"
proof -
  have "x = - (- (q * p * m) div Scale)" using assms by (simp add: MulQtyPrice_Inr_eq)
  moreover have "- (q * p * m) div Scale * Scale \<le> - (q * p * m)" by (simp add: Scale_def)
  ultimately show ?thesis by simp
qed

lemma position_excess_covers:
  assumes "position_excess s p = Inr x" "in_int64 (p_Qty p)"
  shows "excess_cost s p \<le> x * Scale"
proof (cases "p_Qty p \<le> OpenExposureQuantity s ''live'' (p_Symbol p) (p_Kind p)")
  case True
  then show ?thesis using assms(1) by (simp add: position_excess_def excess_cost_def Let_def max_def split: if_split_asm)
next
  case False
  let ?q = "p_Qty p - OpenExposureQuantity s ''live'' (p_Symbol p) (p_Kind p)"
  have n: "0 \<le> OpenExposureQuantity s ''live'' (p_Symbol p) (p_Kind p)"
    and m: "MulQtyPrice (wrap64 ?q) (p_AvgPrice p) (p_Multiplier p) True = Inr x"
    using assms(1) False by (simp_all add: position_excess_def Let_def split: if_split_asm)
  have "in_int64 ?q" using n False assms(2) by (auto simp: in_int64_def)
  then show ?thesis using MulQtyPrice_covers[OF m] False by (simp add: excess_cost_def wrap64_id max_def)
qed

lemma position_risk_covers:
  assumes "position_risk s seen acc ps = Inr t" "\<forall>p\<in>set ps. in_int64 (p_Qty p)"
  shows "(\<forall>p\<in>set ps. p_Kind p \<noteq> ''option'' \<and> 0 \<le> p_Qty p) \<and> distinct (map position_key ps) \<and>
    set (map position_key ps) \<inter> set seen = {} \<and> total (excess_cost s) ps \<le> (t - acc) * Scale"
  using assms
proof (induction ps arbitrary: seen acc)
  case (Cons p ps)
  have ok: "p_Kind p \<noteq> ''option''" "position_key p \<notin> set seen" "0 \<le> p_Qty p"
    using Cons.prems(1) by (auto split: if_split_asm)
  obtain x where x: "position_excess s p = Inr x" using Cons.prems(1) ok by (cases "position_excess s p") simp_all
  obtain acc' where a: "Add acc x = Inr acc'" using Cons.prems(1) ok x by (cases "Add acc x") simp_all
  have rest: "position_risk s (position_key p # seen) acc' ps = Inr t" using Cons.prems(1) ok x a by simp
  have "excess_cost s p \<le> x * Scale" using position_excess_covers[OF x] Cons.prems(2) by simp
  then show ?case using Cons.IH[OF rest] Cons.prems(2) ok a by (auto simp: Add_iff algebra_simps)
qed simp

lemma opening_risk_covers:
  assumes "opening_risk r = Inr x" "ro_Kind r \<noteq> ''option''"
  shows "ro_Side r = ''buy''" "ro_LimitPriceKnown r" "0 < ro_LimitPrice r" "opening_cost r \<le> x * Scale"
  using assms MulQtyPrice_covers[of "remaining_qty r" "ro_LimitPrice r" 1 x]
  by (auto simp: opening_risk_def opening_cost_def split: if_split_asm)

text \<open>What the barrier knows of an order of somebody else before it lets a new risk through.\<close>

definition bounded_order :: "position list \<Rightarrow> read_order \<Rightarrow> bool" where
  "bounded_order positions r \<longleftrightarrow> ro_Kind r \<noteq> ''option'' \<and> decided positions r \<and>
     (may_open positions r \<longrightarrow> ro_Side r = ''buy'' \<and> ro_LimitPriceKnown r \<and> 0 < ro_LimitPrice r)"

lemma working_risk_covers:
  assumes "working_risk own positions acc rs = Inr t"
  shows "(\<forall>r\<in>set rs. own r \<or> bounded_order positions r) \<and>
    total opening_cost (filter (\<lambda>r. \<not> own r \<and> may_open positions r) rs) \<le> (t - acc) * Scale"
  using assms
proof (induction rs arbitrary: acc)
  case (Cons r rs)
  show ?case
  proof (cases "own r")
    case True
    then show ?thesis using Cons by simp
  next
    case False
    have k: "ro_Kind r \<noteq> ''option''" using Cons.prems False by (auto split: if_split_asm)
    obtain o' c where e: "workingOrderEffects r positions = Inr (o', c)" "\<not> (o' \<and> c)"
        "order_effect ''working order effect is ambiguous'' r positions = Inr (o', c)"
      using Cons.prems False k by (cases "order_effect ''working order effect is ambiguous'' r positions") (auto simp: order_effect_Inr)
    have d: "decided positions r" and m: "may_open positions r \<longleftrightarrow> o'" using e by (auto simp: decided_def may_open_def)
    show ?thesis
    proof (cases o')
      case True
      obtain x where x: "opening_risk r = Inr x" using Cons.prems False k e True by (cases "opening_risk r") simp_all
      obtain acc' where a: "Add acc x = Inr acc'" using Cons.prems False k e True x by (cases "Add acc x") simp_all
      have rest: "working_risk own positions acc' rs = Inr t" using Cons.prems False k e True x a by simp
      show ?thesis using Cons.IH[OF rest] opening_risk_covers[OF x k] False True m d k a
        by (auto simp: bounded_order_def Add_iff algebra_simps)
    next
      case opens: False
      then have "working_risk own positions acc rs = Inr t" using Cons.prems False k e by simp
      then show ?thesis using Cons.IH False opens m d k by (simp add: bounded_order_def)
    qed
  qed
qed simp

lemma aggregate_risk_covers:
  assumes run: "aggregateExternalOpenRisk sn s = Inr (positionRisk, workingRisk)"
    and ints: "\<forall>p\<in>set (sn_Positions sn). in_int64 (p_Qty p)"
  shows "\<forall>p\<in>set (sn_Positions sn). p_Kind p \<noteq> ''option'' \<and> 0 \<le> p_Qty p"
    and "distinct (map position_key (sn_Positions sn))"
    and "total (excess_cost s) (sn_Positions sn) \<le> positionRisk * Scale"
    and "\<forall>r\<in>set (sn_Orders sn). own_order sn r \<or> bounded_order (sn_Positions sn) r"
    and "total opening_cost (filter (\<lambda>r. \<not> own_order sn r \<and> may_open (sn_Positions sn) r) (sn_Orders sn)) \<le> workingRisk * Scale"
proof -
  have p: "position_risk s [] 0 (sn_Positions sn) = Inr positionRisk"
    and w: "working_risk (own_order sn) (sn_Positions sn) 0 (sn_Orders sn) = Inr workingRisk"
    using run by (auto simp: aggregateExternalOpenRisk_def case_sum_Inr_iff)
  note position_risk_covers[OF p ints] working_risk_covers[OF w]
  then show "\<forall>p\<in>set (sn_Positions sn). p_Kind p \<noteq> ''option'' \<and> 0 \<le> p_Qty p"
    "distinct (map position_key (sn_Positions sn))" "total (excess_cost s) (sn_Positions sn) \<le> positionRisk * Scale"
    "\<forall>r\<in>set (sn_Orders sn). own_order sn r \<or> bounded_order (sn_Positions sn) r"
    "total opening_cost (filter (\<lambda>r. \<not> own_order sn r \<and> may_open (sn_Positions sn) r) (sn_Orders sn)) \<le> workingRisk * Scale"
    by simp_all
qed

end
