(* ===== verification/Snapshots.thy ===== *)
theory Snapshots
  imports Barrier
begin

text \<open>
  The capture of one snapshot of the shared account, \<open>captureProviderSnapshotFrom\<close> and
  \<open>captureProviderFills\<close> of \<^verbatim>\<open>kernel/cmd/kernel/broker_observations.go\<close>. What the provider answers,
  and when, is the argument; every answer is recorded as an observation before anything is decided on it, and
  what is returned is bound to the observation that was recorded.
\<close>

section \<open>The answers of a provider\<close>

record provider_answers =
  pv_AccountID :: "string result"
  pv_Account :: "account_state result"
  pv_Positions :: "position list result"
  pv_Orders :: "read_order list result"
  pv_StartedAt :: time
  pv_AccountAt :: time
  pv_PositionsAt :: time
  pv_OrdersAt :: time
  pv_CompletedAt :: time

definition family_error :: "string \<Rightarrow> string \<Rightarrow> time \<Rightarrow> family_input" where
  "family_error family code completedAt = \<lparr>fi_Family = family, fi_Status = ''error'', fi_ErrorCode = code,
     fi_CompletedAt = completedAt, fi_Items = []\<rparr>"

definition family_success :: "string \<Rightarrow> time \<Rightarrow> item_input list \<Rightarrow> family_input" where
  "family_success family completedAt items = \<lparr>fi_Family = family, fi_Status = ''success'', fi_ErrorCode = [],
     fi_CompletedAt = completedAt, fi_Items = items\<rparr>"

definition account_valid :: "string \<Rightarrow> time \<Rightarrow> account_state \<Rightarrow> bool" where
  "account_valid accountID completedAt a \<longleftrightarrow>
     a_ExternalID a = accountID \<and> a_Source a \<noteq> [] \<and> a_AsOf a \<noteq> 0 \<and> a_AsOf a \<le> completedAt"

definition account_item :: "string \<Rightarrow> account_state \<Rightarrow> item_input" where
  "account_item accountID a = \<lparr>ii_ObjectKey = accountID, ii_ObservedAt = a_AsOf a, ii_Canonical = AccountValue
     \<lparr>oa_AccountID = accountID, oa_AccountType = a_AccountType a, oa_BuyingPower = a_BuyingPower a,
      oa_Equity = a_Equity a, oa_EquityKnown = a_EquityKnown a, oa_DayTradesUsed = a_DayTradesUsed a,
      oa_Cash = a_Cash a, oa_CashKnown = a_CashKnown a, oa_Source = a_Source a, oa_AsOf = a_AsOf a\<rparr>\<rparr>"

definition account_family :: "provider_answers \<Rightarrow> string \<Rightarrow> family_input" where
  "account_family pv accountID =
     (case pv_Account pv of
        Inl _ \<Rightarrow> family_error BrokerFamilyAccount ''unavailable'' (pv_AccountAt pv)
      | Inr a \<Rightarrow>
          if account_valid accountID (pv_AccountAt pv) a
          then family_success BrokerFamilyAccount (pv_AccountAt pv) [account_item accountID a]
          else family_error BrokerFamilyAccount ''wrong_account'' (pv_AccountAt pv))"

text \<open>The other families must name the source of the account, or \<open>provider\<close> when there is none.\<close>

definition snapshot_source :: "provider_answers \<Rightarrow> string \<Rightarrow> string" where
  "snapshot_source pv accountID =
     (case pv_Account pv of
        Inl _ \<Rightarrow> ''provider''
      | Inr a \<Rightarrow> if account_valid accountID (pv_AccountAt pv) a then a_Source a else ''provider'')"

definition position_item :: "position \<Rightarrow> item_input" where
  "position_item p = \<lparr>ii_ObjectKey = p_PositionID p, ii_ObservedAt = p_AsOf p, ii_Canonical = PositionValue p\<rparr>"

definition positions_family :: "provider_answers \<Rightarrow> string \<Rightarrow> string \<Rightarrow> family_input" where
  "positions_family pv accountID source =
     (case pv_Positions pv of
        Inl _ \<Rightarrow> family_error BrokerFamilyPositions ''unavailable'' (pv_PositionsAt pv)
      | Inr positions \<Rightarrow>
          if brokerPositionsValid positions accountID source (pv_PositionsAt pv)
          then family_success BrokerFamilyPositions (pv_PositionsAt pv) (map position_item positions)
          else family_error BrokerFamilyPositions ''invalid'' (pv_PositionsAt pv))"

definition order_item :: "read_order \<Rightarrow> item_input" where
  "order_item r = \<lparr>ii_ObjectKey = ro_BrokerOrderID r, ii_ObservedAt = ro_AsOf r, ii_Canonical = OrderValue r\<rparr>"

definition orders_family :: "provider_answers \<Rightarrow> string \<Rightarrow> family_input" where
  "orders_family pv source =
     (case pv_Orders pv of
        Inl _ \<Rightarrow> family_error BrokerFamilyOrders ''unavailable'' (pv_OrdersAt pv)
      | Inr orders \<Rightarrow>
          if brokerOrdersValid orders source (pv_OrdersAt pv)
          then family_success BrokerFamilyOrders (pv_OrdersAt pv) (map order_item orders)
          else family_error BrokerFamilyOrders ''invalid'' (pv_OrdersAt pv))"

text \<open>An answer that was recorded as a success; the zero value otherwise, which no complete snapshot has.\<close>

definition taken :: "family_input \<Rightarrow> 'a result \<Rightarrow> 'a \<Rightarrow> 'a" where
  "taken family r zero = (if fi_Status family = ''success'' then (case r of Inl _ \<Rightarrow> zero | Inr x \<Rightarrow> x) else zero)"

definition no_account :: account_state where
  "no_account = \<lparr>a_ExternalID = [], a_AccountType = [], a_BuyingPower = 0, a_Equity = 0, a_EquityKnown = False,
     a_DayTradesUsed = 0, a_Cash = 0, a_CashKnown = False, a_Source = [], a_AsOf = 0\<rparr>"


section \<open>The snapshot\<close>

definition snapshot_input :: "provider_answers \<Rightarrow> string \<Rightarrow> string \<Rightarrow> int64 \<Rightarrow> observation_input" where
  "snapshot_input pv accountID purpose localStateGeneration =
     (let source = snapshot_source pv accountID
      in \<lparr>bi_ID = [], bi_AccountID = accountID, bi_Source = source, bi_Purpose = purpose,
          bi_StartedAt = pv_StartedAt pv, bi_CompletedAt = pv_CompletedAt pv,
          bi_LocalStateGeneration = localStateGeneration,
          bi_Families = [account_family pv accountID, positions_family pv accountID source, orders_family pv source]\<rparr>)"

definition snapshot_of :: "provider_answers \<Rightarrow> string \<Rightarrow> broker_observation \<Rightarrow> account_view \<Rightarrow> provider_snapshot" where
  "snapshot_of pv accountID b view =
     (let source = snapshot_source pv accountID
      in \<lparr>sn_Observation = Some b, sn_View = Some view,
          sn_Account = taken (account_family pv accountID) (pv_Account pv) no_account,
          sn_Positions = taken (positions_family pv accountID source) (pv_Positions pv) [],
          sn_Orders = taken (orders_family pv source) (pv_Orders pv) []\<rparr>)"

text \<open>
  \<open>generation\<close> and \<open>newID\<close> are given by the database and the random source, \<open>localStateGeneration\<close> is
  the read of the counter that the triggers of the schema keep.
\<close>

definition captureProviderSnapshotFrom ::
  "observation_codec \<Rightarrow> string \<Rightarrow> int64 result \<Rightarrow> int64 \<Rightarrow> string \<Rightarrow> string \<Rightarrow> provider_answers option \<Rightarrow> db \<Rightarrow>
     provider_snapshot outcome" where
  "captureProviderSnapshotFrom c bound localStateGeneration generation newID purpose provider s =
     (case provider of
        None \<Rightarrow> (Inl (Errorf ''account provider unavailable'' []), s)
      | Some pv \<Rightarrow>
         (case localStateGeneration of
            Inl _ \<Rightarrow> (Inl (Errorf ''local broker state generation unavailable'' []), s)
          | Inr lsg \<Rightarrow>
             (case pv_AccountID pv of
                Inl _ \<Rightarrow> (Inl (Errorf ''provider account identity unavailable'' []), s)
              | Inr answered \<Rightarrow>
                 (let accountID = trim_space answered
                  in if accountID = [] then (Inl (Errorf ''provider account identity unavailable'' []), s)
                     else if trim_space bound \<noteq> [] \<and> accountID \<noteq> trim_space bound
                     then (Inl (Errorf ''provider account binding mismatch'' []), s)
                     else (case RecordBrokerObservation c generation newID (snapshot_input pv accountID purpose lsg) s of
                        Inl e \<Rightarrow> (Inl e, s)
                      | Inr (b, s') \<Rightarrow>
                          if ob_Status b \<noteq> ''complete'' then (Inl (Errorf ''provider snapshot is partial'' []), s')
                          else (case LoadBrokerObservation c (ob_ID b) s' of
                             Inl e \<Rightarrow> (Inl e, s')
                           | Inr view \<Rightarrow> (Inr (snapshot_of pv accountID b view), s')))))))"

definition fill_item :: "read_fill \<Rightarrow> item_input" where
  "fill_item f = \<lparr>ii_ObjectKey = rf_FillID f, ii_ObservedAt = rf_AsOf f, ii_Canonical = FillValue f\<rparr>"

definition captureProviderFills ::
  "observation_codec \<Rightarrow> int64 result \<Rightarrow> int64 \<Rightarrow> string \<Rightarrow> string \<Rightarrow> string \<Rightarrow> string \<Rightarrow> time \<Rightarrow> time \<Rightarrow> read_fill list result \<Rightarrow> db \<Rightarrow>
     (read_fill list \<times> broker_observation \<times> observed_object list) outcome" where
  "captureProviderFills c localStateGeneration generation newID purpose accountID source startedAt completedAt answer s =
     (case localStateGeneration of
        Inl _ \<Rightarrow> (Inl (Errorf ''local broker state generation unavailable'' []), s)
      | Inr lsg \<Rightarrow>
         (let family = (case answer of
               Inl _ \<Rightarrow> family_error BrokerFamilyFills ''unavailable'' completedAt
             | Inr fills \<Rightarrow> if brokerFillsValid fills source completedAt
                 then family_success BrokerFamilyFills completedAt (map fill_item fills)
                 else family_error BrokerFamilyFills ''invalid'' completedAt)
          in case RecordBrokerObservation c generation newID
                 \<lparr>bi_ID = [], bi_AccountID = accountID, bi_Source = source, bi_Purpose = purpose, bi_StartedAt = startedAt,
                  bi_CompletedAt = completedAt, bi_LocalStateGeneration = lsg, bi_Families = [family]\<rparr> s of
               Inl e \<Rightarrow> (Inl e, s)
             | Inr (b, s') \<Rightarrow>
                 if ob_Status b \<noteq> ''complete'' then (Inl (Errorf ''provider fill snapshot is partial'' []), s')
                 else (case LoadBrokerObservation c (ob_ID b) s' of
                    Inl e \<Rightarrow> (Inl e, s')
                  | Inr view \<Rightarrow> (Inr (taken family answer [], b, av_Objects view), s'))))"

section \<open>A snapshot is the evidence that was recorded\<close>

lemma normalize_families_status:
  "normalize_families c input seen fs = Inr ns \<Longrightarrow> map nf_status ns = map fi_Status fs"
  by (induction fs arbitrary: seen ns) (auto simp: case_sum_Inr_iff if_Inl_eq_Inr simp del: not_not)

lemma complete_families:
  assumes "normalizeBrokerObservation c input = Inr (fs, ''complete'', manifest, complete)"
  shows "\<forall>f\<in>set (bi_Families input). fi_Status f = ''success''"
proof -
  obtain fs0 where fs0: "normalize_families c input [] (bi_Families input) = Inr fs0"
    and st: "''complete'' = (if list_all (\<lambda>f. nf_status f = ''success'') fs0 then ''complete'' else ''partial'')"
    by (rule normalized_cases[OF assms])
  have "list_all (\<lambda>f. nf_status f = ''success'') fs0" using st by (simp split: if_split_asm)
  then have "list_all (\<lambda>x. x = ''success'') (map nf_status fs0)" by (simp add: list_all_iff)
  then show ?thesis unfolding normalize_families_status[OF fs0] by (simp add: list_all_iff)
qed

lemma family_fields [simp]:
  "fi_Family (family_error k e t) = k" "fi_Status (family_error k e t) = ''error''"
  "fi_Family (family_success k t is) = k" "fi_Status (family_success k t is) = ''success''" "fi_Items (family_success k t is) = is"
  by (simp_all add: family_error_def family_success_def)

lemma families_taken:
  assumes "fi_Status (account_family pv accountID) = ''success''" "fi_Status (positions_family pv accountID source) = ''success''"
    "fi_Status (orders_family pv source) = ''success''"
  shows "pv_Account pv = Inr (taken (account_family pv accountID) (pv_Account pv) no_account)"
    and "account_valid accountID (pv_AccountAt pv) (taken (account_family pv accountID) (pv_Account pv) no_account)"
    and "pv_Positions pv = Inr (taken (positions_family pv accountID source) (pv_Positions pv) [])"
    and "brokerPositionsValid (taken (positions_family pv accountID source) (pv_Positions pv) []) accountID source (pv_PositionsAt pv)"
    and "pv_Orders pv = Inr (taken (orders_family pv source) (pv_Orders pv) [])"
    and "brokerOrdersValid (taken (orders_family pv source) (pv_Orders pv) []) source (pv_OrdersAt pv)"
    and "fi_Items (orders_family pv source) = map order_item (taken (orders_family pv source) (pv_Orders pv) [])"
proof -
  show "pv_Account pv = Inr (taken (account_family pv accountID) (pv_Account pv) no_account)"
    "account_valid accountID (pv_AccountAt pv) (taken (account_family pv accountID) (pv_Account pv) no_account)"
    using assms(1) by (cases "pv_Account pv"; simp add: account_family_def taken_def split: if_split_asm)+
  show "pv_Positions pv = Inr (taken (positions_family pv accountID source) (pv_Positions pv) [])"
    "brokerPositionsValid (taken (positions_family pv accountID source) (pv_Positions pv) []) accountID source (pv_PositionsAt pv)"
    using assms(2) by (cases "pv_Positions pv"; simp add: positions_family_def taken_def split: if_split_asm)+
  show "pv_Orders pv = Inr (taken (orders_family pv source) (pv_Orders pv) [])"
    "brokerOrdersValid (taken (orders_family pv source) (pv_Orders pv) []) source (pv_OrdersAt pv)"
    "fi_Items (orders_family pv source) = map order_item (taken (orders_family pv source) (pv_Orders pv) [])"
    using assms(3) by (cases "pv_Orders pv"; simp add: orders_family_def taken_def split: if_split_asm)+
qed

lemma object_in_fields [simp]:
  "oo_Family (object_in c accountID s k n) = k" "oo_ObjectKey (object_in c accountID s k n) = ni_key n"
  "k \<noteq> BrokerFamilyAccount \<Longrightarrow> oo_Origin (object_in c accountID s k n) = br_origin (found_origin c accountID k s n)"
  by (simp_all add: object_in_def Let_def)

lemma view_origin:
  assumes "ordered_families fs" "f \<in> set fs" "n \<in> set (nf_items f)" "nf_name f = BrokerFamilyOrders"
  shows "origin_of (collated c oo_Family oo_ObjectKey (recorded_objects c accountID s fs)) (ni_key n) =
    br_origin (found_origin c accountID BrokerFamilyOrders s n)"
proof -
  let ?os = "collated c oo_Family oo_ObjectKey (recorded_objects c accountID s fs)"
  have "find (\<lambda>x. oo_Family x = BrokerFamilyOrders \<and> oo_ObjectKey x = ni_key n) (rev ?os) =
      Some (object_in c accountID s BrokerFamilyOrders n)"
  proof (rule find_unique)
    show "object_in c accountID s BrokerFamilyOrders n \<in> set (rev ?os)" using assms(2-4) by (force simp: recorded_objects_def)
    fix y assume y: "y \<in> set (rev ?os)" and key: "oo_Family y = BrokerFamilyOrders \<and> oo_ObjectKey y = ni_key n"
    obtain h m where h: "h \<in> set fs" "m \<in> set (nf_items h)" "y = object_in c accountID s (nf_name h) m"
      using y by (auto simp: recorded_objects_def)
    then have "nf_name h = nf_name f" "ni_key m = ni_key n" using key assms(4) by simp_all
    then show "y = object_in c accountID s BrokerFamilyOrders n"
      using ordered_unique[OF assms(1,2) h(1) _ assms(3) h(2)] h(3) assms(4) by simp
  qed simp
  then show ?thesis by (simp add: origin_of_def BrokerFamilyOrders_def BrokerFamilyAccount_def)
qed

text \<open>What JSON keeps of an order.\<close>

definition order_identity :: "read_order \<Rightarrow> observed_order" where
  "order_identity r = \<lparr>od_BrokerOrderID = ro_BrokerOrderID r, od_ClientOrderID = ro_ClientOrderID r, od_Symbol = ro_Symbol r,
     od_Side = ro_Side r, od_Kind = ro_Kind r, od_PositionEffect = ro_PositionEffect r, od_Qty = ro_Qty r,
     od_FilledQty = ro_FilledQty r, od_LimitPrice = ro_LimitPrice r, od_LimitPriceKnown = ro_LimitPriceKnown r,
     od_StopPrice = ro_StopPrice r, od_StopPriceKnown = ro_StopPriceKnown r, od_OrderType = ro_OrderType r\<rparr>"

definition orders_decode :: "observation_codec \<Rightarrow> bool" where
  "orders_decode c \<longleftrightarrow> (\<forall>r t. oc_canonical c (OrderValue r) = Inr t \<longrightarrow> oc_order c t = Some (order_identity r))"

text \<open>An order of the account that is one of the ledger's own, by the evidence of the ledger.\<close>

definition recognised :: "observation_codec \<Rightarrow> string \<Rightarrow> db \<Rightarrow> read_order \<Rightarrow> bool" where
  "recognised c accountID s r \<longleftrightarrow>
     (case oc_canonical c (OrderValue r) of
        Inl _ \<Rightarrow> False
      | Inr t \<Rightarrow> (case classifyObservedOrder c accountID t s of Inl _ \<Rightarrow> False | Inr g \<Rightarrow> br_origin g = ''alpheus''))"

lemma snapshot_cases:
  assumes "captureProviderSnapshotFrom c bound localGeneration generation newID purpose provider s = (Inr sn, s')"
  obtains pv lsg b view answered where "provider = Some pv" "pv_AccountID pv = Inr answered"
    "trim_space bound = [] \<or> trim_space answered = trim_space bound"
    "RecordBrokerObservation c generation newID (snapshot_input pv (trim_space answered) purpose lsg) s = Inr (b, s')"
    "ob_Status b = ''complete''" "LoadBrokerObservation c (ob_ID b) s' = Inr view" "sn = snapshot_of pv (trim_space answered) b view"
  using assms unfolding captureProviderSnapshotFrom_def Let_def
  by (auto split: option.split_asm sum.split_asm prod.split_asm if_split_asm)

lemma recognised_order:
  assumes json: "orders_decode c"
    and n: "normalizeBrokerObservation c inp = Inr (fs, status, manifest, complete)"
    and classified: "list_all (\<lambda>f. list_all (classified c (bi_AccountID inp) s (nf_name f)) (nf_items f)) fs"
    and f: "f \<in> set (bi_Families inp)" "fi_Family f = BrokerFamilyOrders" "order_item r \<in> set (fi_Items f)"
  shows "origin_of (collated c oo_Family oo_ObjectKey (recorded_objects c (bi_AccountID inp) s fs)) (ro_BrokerOrderID r) =
      ''alpheus'' \<longleftrightarrow> recognised c (bi_AccountID inp) s r"
proof -
  obtain fs0 where fs0: "normalize_families c inp [] (bi_Families inp) = Inr fs0" "fs = sort_key nf_name fs0"
    by (rule normalized_cases[OF n])
  obtain m k where m: "m \<in> set fs0" "nf_name m = BrokerFamilyOrders" "k \<in> set (nf_items m)"
      "oc_canonical c (OrderValue r) = Inr (ni_canonical k)"
    and key: "validateObservationObjectKey c BrokerFamilyOrders (ni_key k) (bi_AccountID inp) (ni_canonical k) = Inr ()"
    using normalize_families_of[OF fs0(1) f(1,3)] f(2) by (auto simp: order_item_def)
  have d: "oc_order c (ni_canonical k) = Some (order_identity r)" using json m(4) by (simp add: orders_decode_def)
  have "ni_key k = ro_BrokerOrderID r"
    using key d by (simp add: validateObservationObjectKey_def BrokerFamilyOrders_def BrokerFamilyAccount_def
        BrokerFamilyPositions_def order_identity_def split: if_split_asm)
  moreover have mf: "m \<in> set fs" using m(1) fs0(2) by simp
  then have "is_ok (classifyObservedOrder c (bi_AccountID inp) (ni_canonical k) s)"
    using classified m(2,3) by (auto simp: list_all_iff classified_def classifyBrokerObjectOrigin_def BrokerFamilyOrders_def BrokerFamilyAccount_def)
  then obtain g where "classifyObservedOrder c (bi_AccountID inp) (ni_canonical k) s = Inr g" by (auto simp: is_ok_def split: sum.split_asm)
  moreover note view_origin[OF normalized_ordered[OF n] mf m(3,2)]
  ultimately show ?thesis by (simp add: recognised_def m(4) found_origin_def classifyBrokerObjectOrigin_def)
qed

text \<open>What a snapshot shows is what the provider answered.\<close>

lemma snapshot_answers:
  assumes run: "captureProviderSnapshotFrom c bound localGeneration generation newID purpose provider s = (Inr sn, s')"
  shows "\<exists>pv b. provider = Some pv \<and> sn_Observation sn = Some b \<and> ob_Status b = ''complete'' \<and> ob_Purpose b = purpose \<and>
    ob_StartedAt b = pv_StartedAt pv \<and> ob_CompletedAt b = pv_CompletedAt pv \<and>
    (trim_space bound = [] \<or> ob_AccountID b = trim_space bound) \<and> pv_Account pv = Inr (sn_Account sn) \<and>
    a_ExternalID (sn_Account sn) = ob_AccountID b \<and> pv_Positions pv = Inr (sn_Positions sn) \<and> pv_Orders pv = Inr (sn_Orders sn)"
proof -
  obtain pv lsg b view answered where pv: "provider = Some pv"
    and bound: "trim_space bound = [] \<or> trim_space answered = trim_space bound"
    and rec: "RecordBrokerObservation c generation newID (snapshot_input pv (trim_space answered) purpose lsg) s = Inr (b, s')"
    and b: "ob_Status b = ''complete''" and sn: "sn = snapshot_of pv (trim_space answered) b view"
    by (rule snapshot_cases[OF run])
  let ?a = "trim_space answered"
  let ?src = "snapshot_source pv ?a" and ?inp = "prepared_input newID (snapshot_input pv ?a purpose lsg)"
  obtain fs status manifest complete where n: "normalizeBrokerObservation c ?inp = Inr (fs, status, manifest, complete)"
    and obs: "b = observation_of ?inp generation status manifest"
    by (rule record_observation_cases[OF rec]) simp
  have fields: "ob_AccountID b = ?a" "ob_Purpose b = purpose" "ob_StartedAt b = pv_StartedAt pv" "ob_CompletedAt b = pv_CompletedAt pv"
    by (simp_all add: obs observation_of_def prepared_input_def snapshot_input_def Let_def)
  have "status = ''complete''" using b by (simp add: obs observation_of_def)
  note success = complete_families[OF n[unfolded this]]
  have "bi_Families ?inp = [account_family pv ?a, positions_family pv ?a ?src, orders_family pv ?src]"
    by (simp add: prepared_input_def snapshot_input_def Let_def)
  then have st: "fi_Status (account_family pv ?a) = ''success''" "fi_Status (positions_family pv ?a ?src) = ''success''"
      "fi_Status (orders_family pv ?src) = ''success''"
    using success by simp_all
  have parts: "sn_Observation sn = Some b" "sn_Account sn = taken (account_family pv ?a) (pv_Account pv) no_account"
      "sn_Positions sn = taken (positions_family pv ?a ?src) (pv_Positions pv) []"
      "sn_Orders sn = taken (orders_family pv ?src) (pv_Orders pv) []"
    by (simp_all add: sn snapshot_of_def Let_def)
  show ?thesis
    using pv bound b fields families_taken(1,2,3,5)[OF st, folded parts(2-4)] parts(1)
    by (intro exI[of _ pv] exI[of _ b]) (simp add: account_valid_def)
qed

lemma snapshot_evidence:
  assumes run: "captureProviderSnapshotFrom c bound localGeneration generation newID purpose provider s = (Inr sn, s')"
    and fresh: "unused_observation newID s" "trim_space newID \<noteq> []" and json: "orders_decode c"
  shows "\<exists>pv b. provider = Some pv \<and> sn_Observation sn = Some b \<and> ob_ID b = newID \<and> ob_Status b = ''complete'' \<and>
    ob_Purpose b = purpose \<and> (trim_space bound = [] \<or> ob_AccountID b = trim_space bound) \<and>
    ob_StartedAt b = pv_StartedAt pv \<and>
    pv_Account pv = Inr (sn_Account sn) \<and> a_ExternalID (sn_Account sn) = ob_AccountID b \<and>
    pv_Positions pv = Inr (sn_Positions sn) \<and> brokerPositionsValid (sn_Positions sn) (ob_AccountID b) (a_Source (sn_Account sn)) (pv_PositionsAt pv) \<and>
    pv_Orders pv = Inr (sn_Orders sn) \<and> brokerOrdersValid (sn_Orders sn) (a_Source (sn_Account sn)) (pv_OrdersAt pv) \<and>
    (\<forall>r\<in>set (sn_Orders sn). own_order sn r \<longleftrightarrow> recognised c (ob_AccountID b) s r)"
proof -
  obtain pv lsg b view answered where pv: "provider = Some pv" "pv_AccountID pv = Inr answered"
    and bound: "trim_space bound = [] \<or> trim_space answered = trim_space bound"
    and rec: "RecordBrokerObservation c generation newID (snapshot_input pv (trim_space answered) purpose lsg) s = Inr (b, s')"
    and b: "ob_Status b = ''complete''" "LoadBrokerObservation c (ob_ID b) s' = Inr view"
    and sn: "sn = snapshot_of pv (trim_space answered) b view"
    by (rule snapshot_cases[OF run])
  let ?a = "trim_space answered"
  let ?src = "snapshot_source pv ?a"
  let ?inp = "prepared_input newID (snapshot_input pv ?a purpose lsg)"
  have id: "ob_ID b = newID"
    by (rule record_observation_cases[OF rec]) (simp add: observation_of_def prepared_input_def snapshot_input_def Let_def)
  obtain fs status manifest complete where n: "normalizeBrokerObservation c ?inp = Inr (fs, status, manifest, complete)"
    and obs: "b = observation_of ?inp generation status manifest"
    and classified: "list_all (\<lambda>f. list_all (classified c (ob_AccountID b) s (nf_name f)) (nf_items f)) fs"
    and load: "LoadBrokerObservation c (ob_ID b) s' = Inr \<lparr>av_Observation = stored_observation c b,
      av_Objects = collated c oo_Family oo_ObjectKey (recorded_objects c (ob_AccountID b) s fs)\<rparr>"
    by (rule recorded_loads[OF rec]) (use fresh id in simp_all)
  have fields: "ob_AccountID b = bi_AccountID ?inp" "bi_AccountID ?inp = ?a" "ob_Source b = trim_space ?src" "ob_Purpose b = purpose" "ob_StartedAt b = pv_StartedAt pv"
    by (simp_all add: obs observation_of_def prepared_input_def snapshot_input_def Let_def)
  have "status = ''complete''" using b(1) by (simp add: obs observation_of_def)
  note success = complete_families[OF n[unfolded this]]
  have fams: "bi_Families ?inp = [account_family pv ?a, positions_family pv ?a ?src, orders_family pv ?src]"
    by (simp add: prepared_input_def snapshot_input_def Let_def)
  have st: "fi_Status (account_family pv ?a) = ''success''" "fi_Status (positions_family pv ?a ?src) = ''success''"
      "fi_Status (orders_family pv ?src) = ''success''"
    using success unfolding fams by simp_all
  note taken = families_taken[OF st]
  have parts: "sn_Observation sn = Some b" "sn_Account sn = taken (account_family pv ?a) (pv_Account pv) no_account"
      "sn_Positions sn = taken (positions_family pv ?a ?src) (pv_Positions pv) []"
      "sn_Orders sn = taken (orders_family pv ?src) (pv_Orders pv) []"
    by (simp_all add: sn snapshot_of_def Let_def)
  have src: "?src = a_Source (sn_Account sn)"
    using taken(1,2)[folded parts(2)] by (simp add: snapshot_source_def)
  have objects: "view_objects sn = collated c oo_Family oo_ObjectKey (recorded_objects c (bi_AccountID ?inp) s fs)"
    using b(2) load by (auto simp: sn snapshot_of_def Let_def view_objects_def fields(1))
  have "own_order sn r \<longleftrightarrow> recognised c (ob_AccountID b) s r" if "r \<in> set (sn_Orders sn)" for r
    unfolding own_order_def objects fields(1)
  proof (rule recognised_order[OF json n classified[unfolded fields(1)]])
    show "orders_family pv ?src \<in> set (bi_Families ?inp)" by (simp add: fams)
    show "fi_Family (orders_family pv ?src) = BrokerFamilyOrders" by (simp add: orders_family_def split: sum.split)
    show "order_item r \<in> set (fi_Items (orders_family pv ?src))" using that unfolding parts(4) taken(7) by simp
  qed
  then show ?thesis
    using pv(1) bound id b(1) fields taken(1-6)[folded parts(2-4)] parts(1)
    unfolding src by (intro exI[of _ pv] exI[of _ b]) (simp add: account_valid_def)
qed

end
