(* ===== verification/Live_Gate.thy ===== *)
theory Live_Gate
  imports Attempts State_Graph
begin

text \<open>
  The live execution gate as an invariant. At most one live attempt is in flight, and the send bindings
  record each attempt's single send and single replay. \<open>move\<close> lists the few ways in which the operations
  change the attempts, the gate and the bindings, whatever else they do, and \<open>attempt_step\<close> what a move
  does to one attempt; the invariant, the life of an attempt and the gate are followed through the moves.
\<close>

section \<open>The invariant\<close>

definition live_attempt :: "execution_attempt \<Rightarrow> bool" where
  "live_attempt a \<longleftrightarrow> at_Intent a \<noteq> ''paper_place'' \<and> (at_State a = ''claimed'' \<or> at_State a = ''unknown'')"

definition held_by :: "db \<Rightarrow> execution_attempt \<Rightarrow> bool" where
  "held_by s a \<longleftrightarrow> db_GateActive s = Some (at_ID a) \<or> db_GateUnknown s = Some (at_ID a)"

definition row_ok :: "execution_attempt \<Rightarrow> bool" where
  "row_ok a \<longleftrightarrow> at_ID a \<noteq> [] \<and> (at_State a = ''pending'' \<longrightarrow> at_SentAt a = None) \<and>
     (at_SentAt a = None \<longrightarrow> at_ReplayCount a = 0) \<and> 0 \<le> at_ReplayCount a \<and> at_ReplayCount a \<le> 1"

definition gate_ok :: "db \<Rightarrow> bool" where
  "gate_ok s \<longleftrightarrow> distinct (map at_ID (db_Attempts s)) \<and> list_all row_ok (db_Attempts s) \<and>
     (db_GateActive s = None \<or> db_GateUnknown s = None) \<and>
     list_all (\<lambda>a. live_attempt a \<longrightarrow> held_by s a) (db_Attempts s)"

definition sends :: "string \<Rightarrow> int64 \<Rightarrow> db \<Rightarrow> nat" where
  "sends i ordinal s = length (filter (\<lambda>b. sb_AttemptID b = i \<and> sb_SendOrdinal b = ordinal) (db_Bindings s))"

definition sends_recorded :: "db \<Rightarrow> execution_attempt \<Rightarrow> bool" where
  "sends_recorded s a \<longleftrightarrow> sends (at_ID a) 0 s = (if at_SentAt a = None then 0 else 1) \<and>
     int (sends (at_ID a) 1 s) = at_ReplayCount a"

definition bindings_ok :: "db \<Rightarrow> bool" where
  "bindings_ok s \<longleftrightarrow> list_all (sends_recorded s) (db_Attempts s) \<and>
     list_all (\<lambda>b. sb_AttemptID b \<in> at_ID ` set (db_Attempts s)) (db_Bindings s)"

definition live_ok :: "db \<Rightarrow> bool" where
  "live_ok s \<longleftrightarrow> gate_ok s \<and> bindings_ok s"

lemma gate_okD:
  assumes "gate_ok s"
  shows "distinct (map at_ID (db_Attempts s))" "db_GateActive s = None \<or> db_GateUnknown s = None"
    "a \<in> set (db_Attempts s) \<Longrightarrow> row_ok a"
    "a \<in> set (db_Attempts s) \<Longrightarrow> live_attempt a \<Longrightarrow> held_by s a"
  using assms by (auto simp: gate_ok_def list_all_iff)

lemma attempts_by_id:
  "gate_ok s \<Longrightarrow> a \<in> set (db_Attempts s) \<Longrightarrow> b \<in> set (db_Attempts s) \<Longrightarrow> at_ID a = at_ID b \<Longrightarrow> a = b"
  by (auto simp: gate_ok_def distinct_map inj_on_def)

text \<open>The point of the gate: two live attempts are the same attempt.\<close>

lemma single_flight:
  assumes "gate_ok s" "a \<in> set (db_Attempts s)" "b \<in> set (db_Attempts s)" "live_attempt a" "live_attempt b"
  shows "a = b"
  using assms gate_okD(2)[OF assms(1)] gate_okD(4)[OF assms(1,2,4)] gate_okD(4)[OF assms(1,3,5)]
  by (intro attempts_by_id[OF assms(1-3)]) (auto simp: held_by_def)

text \<open>Both invariants only depend on the attempts, the gate and the bindings; the manifests are in the view as well,
  since a run only adds to them.\<close>

definition live_view where
  "live_view s = (db_Attempts s, db_GateActive s, db_GateUnknown s, db_Bindings s, db_Manifests s)"

lemma live_ok_view: "live_view s' = live_view s \<Longrightarrow> live_ok s \<Longrightarrow> live_ok s'"
proof -
  assume "live_view s' = live_view s"
  then have e: "db_Attempts s' = db_Attempts s" "db_GateActive s' = db_GateActive s"
    "db_GateUnknown s' = db_GateUnknown s" "db_Bindings s' = db_Bindings s" by (simp_all add: live_view_def)
  have "held_by s' = held_by s" "sends_recorded s' = sends_recorded s"
    by (simp_all add: fun_eq_iff held_by_def sends_recorded_def sends_def e)
  then show "live_ok s \<Longrightarrow> live_ok s'" by (simp add: live_ok_def gate_ok_def bindings_ok_def e)
qed

lemma live_ok_manifests [simp]: "live_ok (s\<lparr>db_Manifests := ms\<rparr>) \<longleftrightarrow> live_ok s"
proof -
  have "held_by (s\<lparr>db_Manifests := ms\<rparr>) = held_by s" "sends_recorded (s\<lparr>db_Manifests := ms\<rparr>) = sends_recorded s"
    by (simp_all add: fun_eq_iff held_by_def sends_recorded_def sends_def)
  then show ?thesis by (simp add: live_ok_def gate_ok_def bindings_ok_def)
qed

lemma live_view_events [simp]:
  "live_view (insert_event k p s) = live_view s" "live_view (set_operation_status i st s) = live_view s"
  "live_view (release_close n i s) = live_view s" "live_view (release_open n i s) = live_view s"
  by (simp_all add: live_view_def insert_event_def set_operation_status_def release_close_def release_open_def)

lemma only_events_view: "only_events s s' \<Longrightarrow> live_view s' = live_view s"
proof -
  assume "only_events s s'"
  then have e: "s' = s\<lparr>db_Events := db_Events s'\<rparr>" by (simp add: only_events_def)
  show ?thesis by (subst e) (simp add: live_view_def)
qed

section \<open>Claims\<close>

lemma null_string_eq: "i \<noteq> [] \<Longrightarrow> null_string g = i \<longleftrightarrow> g = Some i"
  by (auto simp: null_string_def split: option.splits)

lemma no_other_live:
  "gate_ok s \<Longrightarrow> \<not> unresolved_other i s \<Longrightarrow> b \<in> set (db_Attempts s) \<Longrightarrow> at_ID b \<noteq> i \<Longrightarrow> \<not> live_attempt b"
  by (auto simp: unresolved_other_def live_attempt_def list_ex_iff)

lemma held_only:
  assumes "gate_ok s" "db_GateActive s = Some i \<or> db_GateUnknown s = Some i" "b \<in> set (db_Attempts s)" "at_ID b \<noteq> i"
  shows "\<not> live_attempt b"
  using assms gate_okD(2)[OF assms(1)] gate_okD(4)[OF assms(1,3)] by (auto simp: held_by_def)

text \<open>An admitted claim finds no other live attempt, and leaves exactly its own id in the gate.\<close>

lemma claim_gate:
  assumes ok: "gate_ok s" and al: "claim_allowed i st s" and i: "i \<noteq> []"
  shows "b \<in> set (db_Attempts s) \<Longrightarrow> at_ID b \<noteq> i \<Longrightarrow> \<not> live_attempt b"
    and "db_GateActive s \<in> {None, Some i}" "db_GateUnknown s \<in> {None, Some i}"
    and "st = ''unknown'' \<or> recovering_unknown i st s \<Longrightarrow> db_GateActive s = None"
    and "\<not> (st = ''unknown'' \<or> recovering_unknown i st s) \<Longrightarrow> db_GateUnknown s = None"
proof -
  have n: "null_string g = i \<longleftrightarrow> g = Some i" for g using i by (rule null_string_eq)
  have cases: "db_GateActive s = Some i \<and> db_GateUnknown s = None \<and> st = ''claimed'' \<or>
      db_GateUnknown s = Some i \<and> db_GateActive s = None \<and> (st = ''unknown'' \<or> recovering_unknown i st s) \<or>
      gate_idle s \<and> \<not> unresolved_other i s"
    using al unfolding claim_allowed_def n recovering_unknown_def by (auto split: if_splits)
  show "b \<in> set (db_Attempts s) \<Longrightarrow> at_ID b \<noteq> i \<Longrightarrow> \<not> live_attempt b"
    using cases held_only[OF ok, of i b] no_other_live[OF ok, of i b] by blast
  show "db_GateActive s \<in> {None, Some i}" "db_GateUnknown s \<in> {None, Some i}"
    using cases by (auto simp: gate_idle_def)
  show "st = ''unknown'' \<or> recovering_unknown i st s \<Longrightarrow> db_GateActive s = None"
    using cases by (auto simp: gate_idle_def recovering_unknown_def)
  show "\<not> (st = ''unknown'' \<or> recovering_unknown i st s) \<Longrightarrow> db_GateUnknown s = None"
    using cases by (auto simp: gate_idle_def)
qed

text \<open>What every change of one attempt has to show.\<close>

lemma gate_ok_change:
  assumes ok: "gate_ok s" and rows: "db_Attempts s' = update_rows cond f (db_Attempts s)"
    and cond: "\<And>a. cond a \<Longrightarrow> at_ID a = i" and key: "\<And>a. at_ID (f a) = at_ID a"
    and row: "\<And>a. a \<in> set (db_Attempts s) \<Longrightarrow> cond a \<Longrightarrow> row_ok (f a)"
    and gate: "db_GateActive s' = None \<or> db_GateUnknown s' = None"
    and live: "\<And>a. a \<in> set (db_Attempts s) \<Longrightarrow> cond a \<Longrightarrow> live_attempt (f a) \<Longrightarrow> held_by s' (f a)"
    and others: "\<And>a. a \<in> set (db_Attempts s) \<Longrightarrow> \<not> cond a \<Longrightarrow> live_attempt a \<Longrightarrow> held_by s' a"
  shows "gate_ok s'"
  using ok row gate live others unfolding gate_ok_def rows
  by (auto simp: map_update_rows[of at_ID, OF key] list_all_iff set_update_rows)

lemma sends_attempts [simp]: "sends i n (s\<lparr>db_Attempts := x\<rparr>) = sends i n s"
  by (simp add: sends_def)

lemma bindings_ok_change:
  assumes ok: "bindings_ok s" and rows: "db_Attempts s' = update_rows cond f (db_Attempts s)"
    and key: "\<And>a. at_ID (f a) = at_ID a" and same: "\<And>a. at_SentAt (f a) = at_SentAt a" "\<And>a. at_ReplayCount (f a) = at_ReplayCount a"
    and b: "db_Bindings s' = db_Bindings s"
  shows "bindings_ok s'"
proof -
  have "sends j n s' = sends j n s" for j n by (simp add: sends_def b)
  moreover have "at_ID ` set (db_Attempts s') = at_ID ` set (db_Attempts s)"
    unfolding rows by (metis map_update_rows[of at_ID, OF key] set_map)
  ultimately show ?thesis using ok unfolding bindings_ok_def
    by (auto simp: rows b list_all_iff set_update_rows sends_recorded_def key same)
qed

lemma claimed_row_fields [simp]:
  "at_ID (claimed_row n w l a) = at_ID a" "at_SentAt (claimed_row n w l a) = at_SentAt a"
  "at_ReplayCount (claimed_row n w l a) = at_ReplayCount a" "at_State (claimed_row n w l a) = ''claimed''"
  "at_Intent (claimed_row n w l a) = at_Intent a" "at_OperationID (claimed_row n w l a) = at_OperationID a"
  by (simp_all add: claimed_row_def)

lemma enter_gate_fields [simp]:
  "db_Attempts (enter_gate n i u s) = db_Attempts s" "db_Bindings (enter_gate n i u s) = db_Bindings s"
  "db_GateActive (enter_gate n i u s) = (if u then db_GateActive s else Some i)"
  "db_GateUnknown (enter_gate n i u s) = (if u then Some i else db_GateUnknown s)"
  by (simp_all add: enter_gate_def)

lemma claimed_rows_ok:
  assumes ok: "live_ok s" and gate: "use \<Longrightarrow> claim_allowed i st s"
    and paper: "\<And>a. a \<in> set (db_Attempts s) \<Longrightarrow> at_ID a = i \<Longrightarrow> \<not> use \<Longrightarrow> at_Intent a = ''paper_place''"
    and found: "a0 \<in> set (db_Attempts s)" "at_ID a0 = i"
    and s': "live_view s' = live_view (let s1 = s\<lparr>db_Attempts := update_rows (claimable n i st tok) (claimed_row n w l) (db_Attempts s)\<rparr>
      in if use then enter_gate n i (st = ''unknown'' \<or> recovering_unknown i st s) s1 else s1)" (is "_ = live_view ?s")
  shows "live_ok s'"
proof -
  let ?u = "st = ''unknown'' \<or> recovering_unknown i st s"
  have g: "gate_ok s" and b: "bindings_ok s" using ok by (simp_all add: live_ok_def)
  have i: "i \<noteq> []" using gate_okD(3)[OF g found(1)] found(2) by (auto simp: row_ok_def)
  have c: "at_ID a = i" if "claimable n i st tok a" for a using that by (simp add: claimable_def)
  have rows: "db_Attempts ?s = update_rows (claimable n i st tok) (claimed_row n w l) (db_Attempts s)"
    by (simp add: Let_def)
  have "gate_ok ?s"
  proof (rule gate_ok_change[OF g rows c])
    show "row_ok (claimed_row n w l a)" if "a \<in> set (db_Attempts s)" for a
      using gate_okD(3)[OF g that] by (simp add: row_ok_def)
    show "db_GateActive ?s = None \<or> db_GateUnknown ?s = None"
      using claim_gate(4,5)[OF g gate i] gate_okD(2)[OF g] by (cases use) (auto simp: Let_def)
    show "held_by ?s (claimed_row n w l a)"
      if "a \<in> set (db_Attempts s)" "claimable n i st tok a" "live_attempt (claimed_row n w l a)" for a
      using that c[OF that(2)] paper[OF that(1)] by (cases use) (auto simp: held_by_def live_attempt_def Let_def)
    show "held_by ?s a" if a: "a \<in> set (db_Attempts s)" "\<not> claimable n i st tok a" "live_attempt a" for a
    proof (cases use)
      case True
      then have "at_ID a = i" using claim_gate(1)[OF g gate i a(1)] a(3) by blast
      then show ?thesis using True by (auto simp: held_by_def Let_def)
    next
      case False
      then show ?thesis using gate_okD(4)[OF g a(1,3)] by (simp add: held_by_def Let_def)
    qed
  qed simp_all
  moreover have "bindings_ok ?s" by (rule bindings_ok_change[OF b rows]) (simp_all add: Let_def)
  ultimately show ?thesis using live_ok_view[OF s'] by (simp add: live_ok_def)
qed

section \<open>The other changes\<close>

definition new_attempt :: "execution_attempt \<Rightarrow> bool" where
  "new_attempt a \<longleftrightarrow> at_ID a \<noteq> [] \<and> at_State a = ''pending'' \<and> at_SentAt a = None \<and> at_ReplayCount a = 0"

lemma arrival_ok:
  assumes ok: "live_ok s" and fresh: "at_ID a \<notin> at_ID ` set (db_Attempts s)" and new: "new_attempt a"
  shows "live_ok (s\<lparr>db_Attempts := db_Attempts s @ [a]\<rparr>)" (is "live_ok ?s")
proof -
  have row: "row_ok a" "\<not> live_attempt a" using new by (simp_all add: new_attempt_def row_ok_def live_attempt_def)
  have "\<forall>b\<in>set (db_Bindings s). sb_AttemptID b \<in> at_ID ` set (db_Attempts s)"
    using ok unfolding live_ok_def bindings_ok_def list_all_iff by (elim conjE)
  then have "\<forall>b\<in>set (db_Bindings s). sb_AttemptID b \<noteq> at_ID a" using fresh by metis
  then have none: "sends (at_ID a) k s = 0" for k by (simp add: sends_def filter_empty_conv)
  have "gate_ok ?s" using ok row fresh unfolding live_ok_def gate_ok_def
    by (auto simp: list_all_iff held_by_def)
  moreover have "sends_recorded ?s b" if "b \<in> set (db_Attempts ?s)" for b
  proof (cases "b = a")
    case True
    then show ?thesis using none new by (simp add: sends_recorded_def new_attempt_def)
  next
    case False
    then show ?thesis using that ok
      by (auto simp: live_ok_def bindings_ok_def list_all_iff sends_recorded_def)
  qed
  ultimately show ?thesis using ok by (auto simp: live_ok_def bindings_ok_def list_all_iff)
qed

lemma plain_change:
  assumes ok: "live_ok s" and rows: "db_Attempts s' = update_rows cond f (db_Attempts s)"
    and gate: "db_GateActive s' = db_GateActive s" "db_GateUnknown s' = db_GateUnknown s" "db_Bindings s' = db_Bindings s"
    and cond: "\<And>a. cond a \<Longrightarrow> at_ID a = i" and key: "\<And>a. at_ID (f a) = at_ID a"
    and same: "\<And>a. at_SentAt (f a) = at_SentAt a" "\<And>a. at_ReplayCount (f a) = at_ReplayCount a"
    and state: "\<And>a. cond a \<Longrightarrow> at_State (f a) = ''pending'' \<Longrightarrow> at_State a = ''pending''"
    and live: "\<And>a. cond a \<Longrightarrow> live_attempt (f a) \<Longrightarrow> live_attempt a"
  shows "live_ok s'"
proof -
  have g: "gate_ok s" and b: "bindings_ok s" using ok by (simp_all add: live_ok_def)
  have h: "held_by s' a = held_by s a" for a by (simp add: held_by_def gate)
  have "gate_ok s'"
  proof (rule gate_ok_change[OF g rows cond key])
    show "row_ok (f a)" if "a \<in> set (db_Attempts s)" "cond a" for a
      using gate_okD(3)[OF g that(1)] state[OF that(2)] by (auto simp: row_ok_def key same)
    show "held_by s' (f a)" if "a \<in> set (db_Attempts s)" "cond a" "live_attempt (f a)" for a
      using gate_okD(4)[OF g that(1) live[OF that(2,3)]] by (simp add: held_by_def gate key)
  qed (use gate_okD[OF g] gate h in auto)
  moreover have "bindings_ok s'" by (rule bindings_ok_change[OF b rows key same gate(3)])
  ultimately show ?thesis by (simp add: live_ok_def)
qed

section \<open>Sends\<close>

definition marks_first :: "execution_attempt \<Rightarrow> execution_attempt \<Rightarrow> bool" where
  "marks_first a b \<longleftrightarrow> at_SentAt a = None \<and> at_SentAt b \<noteq> None \<and> at_ReplayCount b = at_ReplayCount a"

definition marks_replay :: "execution_attempt \<Rightarrow> execution_attempt \<Rightarrow> bool" where
  "marks_replay a b \<longleftrightarrow> at_SentAt a \<noteq> None \<and> at_SentAt b = at_SentAt a \<and> at_ReplayCount a = 0 \<and> at_ReplayCount b = 1"

definition marks :: "int64 \<Rightarrow> execution_attempt \<Rightarrow> execution_attempt \<Rightarrow> bool" where
  "marks k a b \<longleftrightarrow> at_ID b = at_ID a \<and> at_State b = at_State a \<and> at_Intent b = at_Intent a \<and>
     (if k = 0 then marks_first a b else k = 1 \<and> marks_replay a b)"

lemma sends_bind:
  "db_Bindings s' = db_Bindings s @ [x] \<Longrightarrow>
     sends j n s' = sends j n s + (if sb_AttemptID x = j \<and> sb_SendOrdinal x = n then 1 else 0)"
  by (simp add: sends_def)

lemma send_change:
  assumes ok: "live_ok s" and rows: "db_Attempts s' = update_rows cond f (db_Attempts s)"
    and gate: "db_GateActive s' = db_GateActive s" "db_GateUnknown s' = db_GateUnknown s"
    and b: "db_Bindings s' = db_Bindings s @ [x]" "sb_AttemptID x = i" "sb_SendOrdinal x = k"
    and some: "row \<in> set (db_Attempts s)" "cond row"
    and cond: "\<And>a. cond a \<Longrightarrow> at_ID a = i \<and> at_State a = ''claimed'' \<and> marks k a (f a)"
  shows "live_ok s'"
proof -
  have g: "gate_ok s" and bo: "bindings_ok s" using ok by (simp_all add: live_ok_def)
  have uniq: "cond a" if "a \<in> set (db_Attempts s)" "at_ID a = i" for a
  proof -
    have "at_ID a = at_ID row" using that(2) cond[OF some(2)] by simp
    then have "a = row" by (rule attempts_by_id[OF g that(1) some(1)])
    then show ?thesis using some(2) by simp
  qed
  have h: "held_by s' a = held_by s a" for a by (simp add: held_by_def gate)
  have ids: "map at_ID (db_Attempts s') = map at_ID (db_Attempts s)"
    unfolding rows update_rows_def using cond by (auto simp: marks_def)
  have new: "row_ok (f a) \<and> (live_attempt (f a) \<longrightarrow> held_by s' (f a)) \<and> sends_recorded s' (f a)"
    if a: "a \<in> set (db_Attempts s)" "cond a" for a
  proof -
    have r: "row_ok a" "live_attempt a \<longrightarrow> held_by s a" "sends_recorded s a"
      using gate_okD(3,4)[OF g a(1)] bo a(1) by (auto simp: bindings_ok_def list_all_iff)
    note c = cond[OF a(2)]
    have "held_by s' (f a) = held_by s a" using c h by (simp add: held_by_def marks_def gate)
    moreover have "live_attempt (f a) = live_attempt a" using c by (simp add: live_attempt_def marks_def)
    moreover have "row_ok (f a)" using r(1) c by (auto simp: row_ok_def marks_def marks_first_def marks_replay_def split: if_splits)
    moreover have "sends_recorded s' (f a)"
      using r(3) c sends_bind[OF b(1)] b(2,3)
      by (auto simp: sends_recorded_def marks_def marks_first_def marks_replay_def split: if_splits)
    ultimately show ?thesis using r(2) by simp
  qed
  have old: "row_ok a \<and> (live_attempt a \<longrightarrow> held_by s' a) \<and> sends_recorded s' a"
    if a: "a \<in> set (db_Attempts s)" "\<not> cond a" for a
  proof -
    have "at_ID a \<noteq> i" using uniq a by blast
    then have "sends_recorded s' a = sends_recorded s a"
      using sends_bind[OF b(1)] b(2) by (simp add: sends_recorded_def)
    then show ?thesis using gate_okD(3,4)[OF g a(1)] bo a(1) h by (auto simp: bindings_ok_def list_all_iff)
  qed
  have all: "row_ok a \<and> (live_attempt a \<longrightarrow> held_by s' a) \<and> sends_recorded s' a" if "a \<in> set (db_Attempts s')" for a
    using that new old by (auto simp: rows set_update_rows split: if_splits)
  have "at_ID ` set (db_Attempts s') = at_ID ` set (db_Attempts s)" using ids by (metis set_map)
  moreover have "i \<in> at_ID ` set (db_Attempts s)" using some cond by blast
  ultimately show ?thesis using all ids g bo gate b(1,2)
    by (simp add: live_ok_def gate_ok_def bindings_ok_def list_all_iff)
qed

definition resolution_state :: "string \<Rightarrow> bool" where
  "resolution_state st \<longleftrightarrow> st = ''placed'' \<or> st = ''settled'' \<or> st = ''failed'' \<or> st = ''unknown''"


text \<open>The gate after a resolution: the resolved attempt leaves it, or stays in it as unknown.\<close>

lemma resolve_gate_cases:
  assumes "i \<noteq> []"
  shows "st = ''unknown'' \<Longrightarrow> db_GateActive s = Some i \<Longrightarrow>
      db_GateActive (resolve_gate n i st s) = None \<and> db_GateUnknown (resolve_gate n i st s) = Some i"
    and "st = ''unknown'' \<Longrightarrow> db_GateActive s \<noteq> Some i \<Longrightarrow> resolve_gate n i st s = s"
    and "st \<noteq> ''unknown'' \<Longrightarrow>
      db_GateActive (resolve_gate n i st s) = (if db_GateActive s = Some i then None else db_GateActive s) \<and>
      db_GateUnknown (resolve_gate n i st s) = (if db_GateUnknown s = Some i then None else db_GateUnknown s)"
  using assms by (auto simp: resolve_gate_def leave_gate_def null_string_eq)

lemma resolve_gate_rows [simp]:
  "db_Attempts (resolve_gate n i st s) = db_Attempts s" "db_Bindings (resolve_gate n i st s) = db_Bindings s"
  by (simp_all add: resolve_gate_def leave_gate_def)

text \<open>Any change of a fenced attempt to a resolution state, followed by the gate's, keeps the invariant.\<close>

lemma exit_gate_ok:
  assumes ok: "live_ok s" and st: "resolution_state st" and found: "row \<in> set (db_Attempts s)" "cond row"
    and cond: "\<And>a. cond a \<Longrightarrow> fenced i tok a"
    and f: "\<And>a. at_ID (f a) = at_ID a" "\<And>a. at_SentAt (f a) = at_SentAt a" "\<And>a. at_ReplayCount (f a) = at_ReplayCount a"
      "\<And>a. at_State (f a) = st" "\<And>a. at_Intent (f a) = at_Intent a"
  shows "live_ok (resolve_gate n i st (s\<lparr>db_Attempts := update_rows cond f (db_Attempts s)\<rparr>))"
    (is "live_ok ?s")
proof -
  have g: "gate_ok s" and b: "bindings_ok s" using ok by (simp_all add: live_ok_def)
  have row: "at_ID row = i" using cond[OF found(2)] by (simp add: fenced_def)
  have i: "i \<noteq> []" using gate_okD(3)[OF g found(1)] row by (auto simp: row_ok_def)
  note gc = resolve_gate_cases[OF i]
  have rows: "db_Attempts ?s = update_rows cond f (db_Attempts s)" by simp
  have "gate_ok ?s"
  proof (rule gate_ok_change[OF g rows])
    show "at_ID a = i" if "cond a" for a using cond[OF that] by (simp add: fenced_def)
    show "row_ok (f a)" if "a \<in> set (db_Attempts s)" for a
      using gate_okD(3)[OF g that] st by (auto simp: row_ok_def resolution_state_def f)
    show "db_GateActive ?s = None \<or> db_GateUnknown ?s = None"
      using gate_okD(2)[OF g] gc by (cases "st = ''unknown''"; cases "db_GateActive s = Some i") auto
    show "held_by ?s (f a)"
      if a: "a \<in> set (db_Attempts s)" "cond a" "live_attempt (f a)" for a
    proof -
      have u: "st = ''unknown''" using a(3) st by (auto simp: live_attempt_def resolution_state_def f)
      have "live_attempt a" "at_ID a = i" using a(3) cond[OF a(2)] by (auto simp: live_attempt_def fenced_def f)
      then have "held_by s a" "at_ID a = i" using gate_okD(4)[OF g a(1)] by simp_all
      then show ?thesis using gc(1,2)[OF u] by (cases "db_GateActive s = Some i") (auto simp: held_by_def f)
    qed
    show "held_by ?s a" if a: "a \<in> set (db_Attempts s)" "\<not> cond a" "live_attempt a" for a
    proof (cases "at_ID a = i")
      case True
      then have "a = row" using row by (intro attempts_by_id[OF g a(1) found(1)]) simp
      then show ?thesis using found(2) a(2) by simp
    next
      case False
      have "held_by s a" by (rule gate_okD(4)[OF g a(1,3)])
      then show ?thesis using False gc gate_okD(2)[OF g] unfolding held_by_def
        by (cases "st = ''unknown''"; cases "db_GateActive s = Some i") auto
    qed
  qed (simp_all add: f)
  moreover have "bindings_ok ?s" by (rule bindings_ok_change[OF b rows]) (simp_all add: f)
  ultimately show ?thesis by (simp add: live_ok_def)
qed

section \<open>The life of one attempt\<close>

definition claim_source :: "string \<Rightarrow> bool" where
  "claim_source st \<longleftrightarrow> st = ''pending'' \<or> st = ''claimed'' \<or> st = ''unknown''"

definition finished_attempt :: "execution_attempt \<Rightarrow> bool" where
  "finished_attempt a \<longleftrightarrow> at_State a = ''settled'' \<or> at_State a = ''failed''"

text \<open>What identifies the order an attempt sends: fixed once it is sent.\<close>

definition sent_identity where
  "sent_identity a = (at_OperationID a, at_Intent a, at_ClientOrderID a, at_TargetBrokerOrderID a, at_Qty a, at_Limit a,
     at_ProviderAccountID a, at_ProviderIntent a, at_IntentFingerprint a, at_SentAt a, at_SendWindowEnd a)"

definition mark_row :: "int64 \<Rightarrow> time \<Rightarrow> execution_attempt \<Rightarrow> execution_attempt" where
  "mark_row k n a = (if k = 0 then sent_row n a else a\<lparr>at_ReplayCount := at_ReplayCount a + 1\<rparr>)"

text \<open>A worker leaves the attempt it holds: the state of the resolution, the broker's answer, nothing else.\<close>

definition leaves :: "string \<Rightarrow> execution_attempt \<Rightarrow> execution_attempt \<Rightarrow> bool" where
  "leaves st a b \<longleftrightarrow> at_ID b = at_ID a \<and> at_State b = st \<and> at_Attempt b = at_Attempt a \<and>
     at_ReplayCount b = at_ReplayCount a \<and> sent_identity b = sent_identity a"

inductive plain_step :: "execution_attempt \<Rightarrow> execution_attempt \<Rightarrow> bool" where
  relimit: "at_State a = ''pending'' \<Longrightarrow> p \<le> at_Limit a \<Longrightarrow> plain_step a (a\<lparr>at_Limit := p\<rparr>)"
| evidence: "at_State a = ''claimed'' \<Longrightarrow> at_SentAt a = None \<Longrightarrow>
    at_IntentFingerprint a = None \<or> at_ProviderAccountID a = Some acc \<and> at_ProviderIntent a = Some can \<and> at_IntentFingerprint a = Some fp \<Longrightarrow>
    plain_step a (a\<lparr>at_ProviderAccountID := Some acc, at_ProviderIntent := Some can, at_IntentFingerprint := Some fp\<rparr>)"
| finish: "at_State a = ''placed'' \<Longrightarrow> st = ''settled'' \<or> st = ''failed'' \<Longrightarrow> leaves st a b \<Longrightarrow> plain_step a b"
| abandon: "at_State a = ''pending'' \<Longrightarrow> plain_step a (a\<lparr>at_State := ''failed'', at_LastError := reason, at_ResolvedAt := n\<rparr>)"

inductive attempt_step :: "execution_attempt \<Rightarrow> execution_attempt \<Rightarrow> bool" where
  plain: "plain_step a b \<Longrightarrow> attempt_step a b"
| claim: "claim_source (at_State a) \<Longrightarrow> attempt_step a (claimed_row n w l a)"
| mark: "at_State a = ''claimed'' \<Longrightarrow> has_evidence a \<Longrightarrow> marks k a (mark_row k n a) \<Longrightarrow> attempt_step a (mark_row k n a)"
| leave: "at_State a = ''claimed'' \<Longrightarrow> resolution_state st \<Longrightarrow> leaves st a b \<Longrightarrow> attempt_step a b"

lemma plain_step_unfinished: "plain_step a b \<Longrightarrow> \<not> finished_attempt a"
  by (erule plain_step.cases) (simp_all add: finished_attempt_def)

lemma claim_source_unfinished: "claim_source (at_State a) \<Longrightarrow> \<not> finished_attempt a"
  unfolding claim_source_def finished_attempt_def by (elim disjE) simp_all

interpretation attempts: state_graph attempt_step finished_attempt
proof
  fix a b
  assume f: "finished_attempt a"
  show "\<not> attempt_step a b"
  proof
    assume "attempt_step a b"
    then show False
      by cases (use f plain_step_unfinished claim_source_unfinished in \<open>auto simp: finished_attempt_def\<close>)
  qed
qed

lemma leaves_fields:
  assumes "leaves st a b"
  shows "at_ID b = at_ID a" "at_SentAt b = at_SentAt a" "at_ReplayCount b = at_ReplayCount a" "at_Attempt b = at_Attempt a"
    "at_Intent b = at_Intent a" "at_State b = st" "sent_identity b = sent_identity a"
  using assms by (simp_all add: leaves_def sent_identity_def)

lemma plain_step_fields:
  assumes "plain_step a b"
  shows "at_ID b = at_ID a" "at_SentAt b = at_SentAt a" "at_ReplayCount b = at_ReplayCount a" "at_Attempt b = at_Attempt a"
    "at_Intent b = at_Intent a"
  using assms by (cases; simp add: leaves_fields)+

lemma finish_states:
  assumes "leaves st a b" "st = ''settled'' \<or> st = ''failed''"
  shows "at_State b \<noteq> ''pending''" "\<not> live_attempt b"
  using assms(2) leaves_fields(6)[OF assms(1)] by (elim disjE; simp add: live_attempt_def)+

lemma plain_step_states:
  assumes "plain_step a b"
  shows "(at_State b = ''pending'' \<longrightarrow> at_State a = ''pending'') \<and> (live_attempt b \<longrightarrow> live_attempt a)"
  using assms
proof cases
  case (finish st)
  then show ?thesis using finish_states by blast
qed (simp_all add: live_attempt_def)

lemma marks_fields:
  assumes "marks k a b"
  shows "at_ID b = at_ID a" "at_Intent b = at_Intent a" "at_State b = at_State a"
  using assms by (simp_all add: marks_def)

lemma mark_row_fields [simp]:
  "at_Attempt (mark_row k n a) = at_Attempt a" "at_ID (mark_row k n a) = at_ID a"
  by (simp_all add: mark_row_def sent_row_def)

lemma attempt_step_fields:
  assumes "attempt_step a b"
  shows "at_ID b = at_ID a" "at_Attempt a \<le> at_Attempt b" "at_Intent b = at_Intent a"
proof -
  show "at_ID b = at_ID a" using assms
    by cases (simp_all add: plain_step_fields leaves_fields)
  show "at_Attempt a \<le> at_Attempt b" using assms
    by cases (simp_all add: plain_step_fields claimed_row_def leaves_fields)
  show "at_Intent b = at_Intent a" using assms
    by cases (simp_all add: plain_step_fields leaves_fields marks_fields)
qed

lemma attempt_step_pending:
  assumes "attempt_step a b" "at_State a \<noteq> ''pending''"
  shows "at_State b \<noteq> ''pending''"
  using assms(1)
proof cases
  case plain
  then show ?thesis using plain_step_states assms(2) by blast
next
  case (mark k n)
  then show ?thesis by (simp add: marks_fields)
next
  case (leave st)
  then show ?thesis unfolding leaves_fields(6)[OF leave(3)] resolution_state_def by (elim disjE) simp_all
qed simp

lemma attempt_step_sent:
  assumes "attempt_step a b" and sent: "at_SentAt a \<noteq> None" "at_State a \<noteq> ''pending''"
  shows "sent_identity b = sent_identity a"
  using assms(1)
proof cases
  case plain
  then show ?thesis
  proof cases
    case finish
    then show ?thesis using leaves_fields(7) by blast
  qed (use sent in simp_all)
next
  case (mark k n)
  then have "k \<noteq> 0" using sent by (auto simp: marks_def marks_first_def)
  then show ?thesis using mark by (simp add: mark_row_def sent_identity_def)
qed (simp_all add: claimed_row_def sent_identity_def leaves_def)


section \<open>The moves\<close>

definition claim_change ::
  "time \<Rightarrow> string \<Rightarrow> string \<Rightarrow> string \<Rightarrow> int64 \<Rightarrow> int \<Rightarrow> bool \<Rightarrow> db \<Rightarrow> db" where
  "claim_change n i w st tok l use s =
     (let s1 = s\<lparr>db_Attempts := update_rows (claimable n i st tok) (claimed_row n w l) (db_Attempts s)\<rparr>
      in if use then enter_gate n i (st = ''unknown'' \<or> recovering_unknown i st s) s1 else s1)"

definition plain_changes :: "string \<Rightarrow> (execution_attempt \<Rightarrow> bool) \<Rightarrow> (execution_attempt \<Rightarrow> execution_attempt) \<Rightarrow> bool" where
  "plain_changes i cond f \<longleftrightarrow> (\<forall>a. cond a \<longrightarrow> at_ID a = i \<and> plain_step a (f a)) \<and>
     (\<forall>a. at_ID (f a) = at_ID a) \<and> (\<forall>a. at_SentAt (f a) = at_SentAt a) \<and> (\<forall>a. at_ReplayCount (f a) = at_ReplayCount a)"

definition send_marks :: "string \<Rightarrow> int64 \<Rightarrow> int64 \<Rightarrow> time \<Rightarrow> (execution_attempt \<Rightarrow> bool) \<Rightarrow> db \<Rightarrow> bool" where
  "send_marks i tok k n cond s \<longleftrightarrow> (\<exists>a\<in>set (db_Attempts s). cond a) \<and> (\<forall>a. cond a \<longrightarrow> fenced i tok a \<and> has_evidence a \<and> marks k a (mark_row k n a))"

definition exits :: "string \<Rightarrow> int64 \<Rightarrow> string \<Rightarrow> (execution_attempt \<Rightarrow> bool) \<Rightarrow> (execution_attempt \<Rightarrow> execution_attempt) \<Rightarrow> db \<Rightarrow> bool" where
  "exits i tok st cond f s \<longleftrightarrow> (\<exists>a\<in>set (db_Attempts s). cond a) \<and> resolution_state st \<and> (\<forall>a. cond a \<longrightarrow> fenced i tok a) \<and> (\<forall>a. leaves st a (f a))"

inductive move :: "db \<Rightarrow> db \<Rightarrow> bool" where
  view: "live_view s' = live_view s \<Longrightarrow> move s s'"
| evidence: "pm_ID m \<notin> pm_ID ` set (db_Manifests s) \<Longrightarrow> live_view s' = live_view (s\<lparr>db_Manifests := db_Manifests s @ [m]\<rparr>) \<Longrightarrow> move s s'"
| arrive: "at_ID a \<notin> at_ID ` set (db_Attempts s) \<Longrightarrow> new_attempt a \<Longrightarrow>
    live_view s' = live_view (s\<lparr>db_Attempts := db_Attempts s @ [a]\<rparr>) \<Longrightarrow> move s s'"
| claim: "a0 \<in> set (db_Attempts s) \<Longrightarrow> at_ID a0 = i \<Longrightarrow> claim_source st \<Longrightarrow>
    use \<longleftrightarrow> at_Intent a0 \<noteq> ''paper_place'' \<Longrightarrow> (use \<Longrightarrow> claim_allowed i st s) \<Longrightarrow>
    live_view s' = live_view (claim_change n i w st tok l use s) \<Longrightarrow> move s s'"
| change: "plain_changes i cond f \<Longrightarrow>
    live_view s' = live_view (s\<lparr>db_Attempts := update_rows cond f (db_Attempts s)\<rparr>) \<Longrightarrow> move s s'"
| send: "send_marks i tok k n cond s \<Longrightarrow>
    live_view s' = live_view (s\<lparr>db_Attempts := update_rows cond (mark_row k n) (db_Attempts s),
      db_Bindings := db_Bindings s @ [\<lparr>sb_AttemptID = i, sb_SendOrdinal = k, sb_FencingToken = tok, sb_ManifestID = mid\<rparr>]\<rparr>) \<Longrightarrow> move s s'"
| leave: "exits i tok st cond f s \<Longrightarrow>
    live_view s' = live_view (resolve_gate n i st (s\<lparr>db_Attempts := update_rows cond f (db_Attempts s)\<rparr>)) \<Longrightarrow> move s s'"

text \<open>Each move keeps the invariant.\<close>

lemma move_ok:
  assumes ok: "live_ok s" and mv: "move s s'"
  shows "live_ok s'"
  using mv
proof cases
  case view
  then show ?thesis using live_ok_view ok by blast
next
  case (evidence m)
  have "live_ok (s\<lparr>db_Manifests := db_Manifests s @ [m]\<rparr>)" using ok live_ok_manifests by blast
  then show ?thesis by (rule live_ok_view[OF evidence(2)])
next
  case (arrive a)
  then show ?thesis using arrival_ok[OF ok] live_ok_view by blast
next
  case (claim a0 i st use n w tok l)
  show ?thesis
  proof (rule claimed_rows_ok[OF ok claim(5) _ claim(1,2)])
    show "at_Intent a = ''paper_place''" if "a \<in> set (db_Attempts s)" "at_ID a = i" "\<not> use" for a
      using attempts_by_id[of s a a0] that claim ok by (simp add: live_ok_def)
  qed (use claim(6) in \<open>simp_all add: claim_change_def\<close>)
next
  case (change i cond f)
  have c: "at_ID a = i" "plain_step a (f a)" if "cond a" for a using change(1) that by (simp_all add: plain_changes_def)
  have "live_ok (s\<lparr>db_Attempts := update_rows cond f (db_Attempts s)\<rparr>)"
  proof (rule plain_change[OF ok, where cond = cond and f = f and i = i])
    show "at_State (f a) = ''pending'' \<Longrightarrow> at_State a = ''pending''" if "cond a" for a
      using plain_step_states[OF c(2)[OF that]] by blast
    show "live_attempt (f a) \<Longrightarrow> live_attempt a" if "cond a" for a
      using plain_step_states[OF c(2)[OF that]] by blast
  qed (use change(1) in \<open>simp_all add: c(1) plain_changes_def\<close>)
  then show ?thesis by (rule live_ok_view[OF change(2)])
next
  case (send i tok k n cond mid)
  obtain row where row: "row \<in> set (db_Attempts s)" "cond row" using send(1) by (auto simp: send_marks_def)
  have c: "at_ID a = i \<and> at_State a = ''claimed'' \<and> marks k a (mark_row k n a)" if "cond a" for a
    using send(1) that by (simp add: send_marks_def fenced_def)
  have "live_ok (s\<lparr>db_Attempts := update_rows cond (mark_row k n) (db_Attempts s), db_Bindings := db_Bindings s @ [\<lparr>sb_AttemptID = i, sb_SendOrdinal = k, sb_FencingToken = tok, sb_ManifestID = mid\<rparr>]\<rparr>)"
    by (rule send_change[where cond = cond and f = "mark_row k n" and row = row and i = i and k = k
      and x = "\<lparr>sb_AttemptID = i, sb_SendOrdinal = k, sb_FencingToken = tok, sb_ManifestID = mid\<rparr>", OF ok])
       (simp_all add: c row)
  then show ?thesis by (rule live_ok_view[OF send(2)])
next
  case (leave i tok st cond f n)
  obtain row where row: "row \<in> set (db_Attempts s)" "cond row" using leave(1) by (auto simp: exits_def)
  have st: "resolution_state st" and c: "\<And>a. cond a \<Longrightarrow> fenced i tok a" and f: "\<And>a. leaves st a (f a)"
    using leave(1) unfolding exits_def by blast+
  have "live_ok (resolve_gate n i st (s\<lparr>db_Attempts := update_rows cond f (db_Attempts s)\<rparr>))"
    by (rule exit_gate_ok[where cond = cond and f = f and row = row and tok = tok, OF ok st row c])
       (simp_all add: leaves_fields[OF f])
  then show ?thesis by (rule live_ok_view[OF leave(2)])
qed

interpretation moves: invariant_system move live_ok
  by unfold_locales (rule move_ok)


section \<open>Following an attempt and the gate\<close>

text \<open>Every attempt of the first state is in the second one, some steps of its life later.\<close>

definition attempts_follow :: "db \<Rightarrow> db \<Rightarrow> bool" where
  "attempts_follow s s' \<longleftrightarrow> (\<forall>a\<in>set (db_Attempts s). \<exists>b\<in>set (db_Attempts s'). attempt_step\<^sup>*\<^sup>* a b)"

lemma follow_update:
  assumes "\<And>a. cond a \<Longrightarrow> attempt_step a (f a)" "db_Attempts s' = update_rows cond f (db_Attempts s)"
  shows "attempts_follow s s'"
  unfolding attempts_follow_def
proof
  fix a assume a: "a \<in> set (db_Attempts s)"
  have "(if cond a then f a else a) \<in> set (db_Attempts s')" using a by (auto simp: assms(2) set_update_rows)
  moreover have "attempt_step\<^sup>*\<^sup>* a (if cond a then f a else a)" using assms(1) by (simp add: r_into_rtranclp)
  ultimately show "\<exists>b\<in>set (db_Attempts s'). attempt_step\<^sup>*\<^sup>* a b" by blast
qed

lemma follow_view: "attempts_follow s t \<Longrightarrow> live_view t' = live_view t \<Longrightarrow> attempts_follow s t'"
  by (simp add: attempts_follow_def live_view_def)

lemma follow_refl: "attempts_follow s s"
  by (auto simp: attempts_follow_def)

lemma move_follow:
  assumes "move s s'"
  shows "attempts_follow s s'"
  using assms
proof cases
  case view
  then show ?thesis using follow_view follow_refl by blast
next
  case (evidence m)
  then show ?thesis by (simp add: live_view_def attempts_follow_def) (blast intro: rtranclp.rtrancl_refl)
next
  case (arrive a)
  then show ?thesis by (intro follow_view[OF _ arrive(3)]) (auto simp: attempts_follow_def)
next
  case (claim a0 i st use n w tok l)
  have "attempts_follow s (claim_change n i w st tok l use s)"
  proof (rule follow_update)
    show "attempt_step a (claimed_row n w l a)" if "claimable n i st tok a" for a
      using that claim(3) attempt_step.claim by (simp add: claimable_def)
  qed (simp add: claim_change_def Let_def)
  then show ?thesis by (rule follow_view[OF _ claim(6)])
next
  case (change i cond f)
  then show ?thesis
    by (intro follow_view[OF follow_update change(2)]) (auto simp: plain_changes_def intro: attempt_step.plain)
next
  case (send i tok k n cond mid)
  show ?thesis
    by (rule follow_view[OF follow_update send(2), of cond "mark_row k n"])
       (use send(1) in \<open>auto simp: send_marks_def fenced_def intro: attempt_step.mark\<close>)
next
  case (leave i tok st cond f n)
  show ?thesis
    by (rule follow_view[OF follow_update leave(2), of cond f])
       (use leave(1) in \<open>auto simp: exits_def fenced_def intro: attempt_step.leave\<close>)
qed

lemma moves_follow: "move\<^sup>*\<^sup>* s s' \<Longrightarrow> attempts_follow s s'"
proof (induction rule: rtranclp_induct)
  case (step t u)
  then show ?case using move_follow[OF step(2)] unfolding attempts_follow_def
    by (meson rtranclp_trans)
qed (rule follow_refl)

lemma gate_manifests [simp]:
  "db_Manifests (enter_gate n i r s) = db_Manifests s" "db_Manifests (resolve_gate n i st s) = db_Manifests s"
  by (simp_all add: enter_gate_def resolve_gate_def leave_gate_def)

text \<open>A run only adds manifests.\<close>

definition manifests_kept :: "db \<Rightarrow> db \<Rightarrow> bool" where
  "manifests_kept s s' \<longleftrightarrow> (\<exists>ms. db_Manifests s' = db_Manifests s @ ms)"

lemma move_manifests: "move s s' \<Longrightarrow> manifests_kept s s'"
  by (erule move.cases) (simp_all add: manifests_kept_def live_view_def claim_change_def Let_def resolve_gate_def leave_gate_def enter_gate_def)

lemma moves_manifests: "move\<^sup>*\<^sup>* s s' \<Longrightarrow> manifests_kept s s'"
proof (induction rule: rtranclp_induct)
  case (step t u)
  then show ?case using move_manifests[OF step(2)] by (auto simp: manifests_kept_def)
qed (simp add: manifests_kept_def)

text \<open>Ids of manifests are the primary key of their table.\<close>

definition manifest_keys :: "db \<Rightarrow> bool" where
  "manifest_keys s \<longleftrightarrow> distinct (map pm_ID (db_Manifests s))"

lemma move_keys: "move s s' \<Longrightarrow> manifest_keys s \<Longrightarrow> manifest_keys s'"
  by (erule move.cases)
     (simp_all add: manifest_keys_def live_view_def claim_change_def Let_def resolve_gate_def leave_gate_def enter_gate_def)

lemma moves_keys: "move\<^sup>*\<^sup>* s s' \<Longrightarrow> manifest_keys s \<Longrightarrow> manifest_keys s'"
  by (induction rule: rtranclp_induct) (blast intro: move_keys)+

text \<open>The gate as it is meant: free, or owned by one attempt that is being sent or whose outcome is unknown.\<close>

datatype gate = Free | Active string | Unknown string

definition gate_of :: "db \<Rightarrow> gate" where
  "gate_of s = (case db_GateUnknown s of Some i \<Rightarrow> Unknown i
     | None \<Rightarrow> (case db_GateActive s of Some i \<Rightarrow> Active i | None \<Rightarrow> Free))"

fun gate_step :: "gate \<Rightarrow> gate \<Rightarrow> bool" where
  "gate_step Free g \<longleftrightarrow> g \<noteq> Free"
| "gate_step (Active i) g \<longleftrightarrow> g = Free \<or> g = Unknown i"
| "gate_step (Unknown i) g \<longleftrightarrow> g = Free"

lemma gate_of_same: "db_GateActive t = db_GateActive s \<Longrightarrow> db_GateUnknown t = db_GateUnknown s \<Longrightarrow> gate_of t = gate_of s"
  unfolding gate_of_def by metis

lemma gate_of_view: "live_view t = live_view s \<Longrightarrow> gate_of t = gate_of s"
  by (rule gate_of_same) (simp_all add: live_view_def)

lemma claim_gate_of:
  assumes ok: "gate_ok s" and al: "use \<Longrightarrow> claim_allowed i st s" and i: "i \<noteq> []"
  shows "gate_step\<^sup>=\<^sup>= (gate_of s) (gate_of (claim_change n i w st tok l use s))"
proof (cases use)
  case False
  have "gate_of (claim_change n i w st tok l use s) = gate_of s"
    by (rule gate_of_same) (simp_all add: False claim_change_def)
  then show ?thesis by simp
next
  case True
  note g = claim_gate(2-5)[OF ok al[OF True] i]
  let ?u = "st = ''unknown'' \<or> recovering_unknown i st s"
  have "gate_of (claim_change n i w st tok l use s) = (if ?u then Unknown i else Active i)"
    using True g(3,4) by (cases ?u) (simp_all add: claim_change_def Let_def gate_of_def)
  moreover have "gate_of s = Free \<or> gate_of s = (if ?u then Unknown i else Active i)"
    using g by (cases ?u) (auto simp: gate_of_def)
  ultimately show ?thesis by (cases ?u) auto
qed

lemma exit_gate_of:
  assumes ok: "gate_ok s" and i: "i \<noteq> []" and a: "db_GateActive t = db_GateActive s" "db_GateUnknown t = db_GateUnknown s"
  shows "gate_step\<^sup>=\<^sup>= (gate_of s) (gate_of (resolve_gate n i st t))"
proof (cases "st = ''unknown''")
  case True
  show ?thesis
  proof (cases "db_GateActive t = Some i")
    case act: True
    then have "gate_of (resolve_gate n i st t) = Unknown i" "gate_of s = Active i"
      using resolve_gate_cases(1)[OF i True act] gate_okD(2)[OF ok] a by (auto simp: gate_of_def)
    then show ?thesis by simp
  next
    case False
    then show ?thesis using resolve_gate_cases(2)[OF i True False] gate_of_same[OF a] by simp
  qed
next
  case False
  then show ?thesis using resolve_gate_cases(3)[OF i False] gate_okD(2)[OF ok] a
    by (auto simp: gate_of_def split: option.splits)
qed

lemma move_gate:
  assumes ok: "live_ok s" and mv: "move s s'"
  shows "gate_step\<^sup>=\<^sup>= (gate_of s) (gate_of s')"
  using mv
proof cases
  case (claim a0 i st use n w tok l)
  have "i \<noteq> []" using ok gate_okD(3)[of s a0] claim(1,2) by (auto simp: live_ok_def row_ok_def)
  then have "gate_step\<^sup>=\<^sup>= (gate_of s) (gate_of (claim_change n i w st tok l use s))"
    using claim_gate_of claim(5) ok unfolding live_ok_def by blast
  then show ?thesis by (simp only: gate_of_view[OF claim(6)])
next
  case (leave i tok st cond f n)
  have "i \<noteq> []" using ok gate_okD(3)[of s] leave(1) by (auto simp: live_ok_def row_ok_def exits_def fenced_def)
  then have "gate_step\<^sup>=\<^sup>= (gate_of s) (gate_of (resolve_gate n i st (s\<lparr>db_Attempts := update_rows cond f (db_Attempts s)\<rparr>)))"
    using ok by (intro exit_gate_of) (simp_all add: live_ok_def)
  then show ?thesis using gate_of_view[OF leave(2)] by simp
next
  case view
  then show ?thesis by (simp add: gate_of_view[OF view])
next
  case (evidence m)
  have "gate_of s' = gate_of s" by (rule gate_of_same) (use evidence in \<open>simp_all add: live_view_def\<close>)
  then show ?thesis by simp
next
  case (arrive a)
  have "gate_of s' = gate_of s" by (rule gate_of_same) (use arrive(3) in \<open>simp_all add: live_view_def\<close>)
  then show ?thesis by simp
next
  case (change i cond f)
  have "gate_of s' = gate_of s" by (rule gate_of_same) (use change(2) in \<open>simp_all add: live_view_def\<close>)
  then show ?thesis by simp
next
  case (send i tok k n cond mid)
  have "gate_of s' = gate_of s" by (rule gate_of_same) (use send(2) in \<open>simp_all add: live_view_def\<close>)
  then show ?thesis by simp
qed

lemma moves_gate: "move\<^sup>*\<^sup>* s s' \<Longrightarrow> live_ok s \<Longrightarrow> gate_step\<^sup>*\<^sup>* (gate_of s) (gate_of s')"
proof (induction rule: rtranclp_induct)
  case (step t u)
  have "gate_step\<^sup>=\<^sup>= (gate_of t) (gate_of u)"
    using move_gate[OF moves.steps_inv[OF step(1,4)] step(2)] .
  then have "gate_step\<^sup>*\<^sup>* (gate_of t) (gate_of u)" by auto
  then show ?case using step(3)[OF step(4)] by (rule rtranclp_trans[rotated])
qed simp

end
