(* ===== verification/Live_Moves.thy ===== *)
theory Live_Moves
  imports Live_Gate Repricing
begin

text \<open>
  Every operation on attempts, of \<^verbatim>\<open>entitlements.go\<close>, \<^verbatim>\<open>repricing.go\<close>, \<^verbatim>\<open>orders.go\<close> and
  \<^verbatim>\<open>pre_effect.go\<close>, and the halt of \<^verbatim>\<open>store.go\<close> is a sequence of moves of the gate.
\<close>

lemma claim_row_view:
  assumes "claim_row errtext n i w st tok l use s = (r, s')"
  shows "live_view s' = live_view s \<or> live_view s' = live_view (claim_change n i w st tok l use s)"
proof (cases "find (claimable n i st tok) (db_Attempts s)")
  case None
  then show ?thesis using assms by (simp add: claim_row_def)
next
  case (Some a)
  let ?s1 = "s\<lparr>db_Attempts := update_rows (claimable n i st tok) (claimed_row n w l) (db_Attempts s)\<rparr>"
  have i: "at_ID (claimed_row n w l a) = i" using find_SomeD[OF Some] by (simp add: claimable_def)
  show ?thesis
  proof (cases "validateM3AExecutionEntitlement ?s1 (claimed_row n w l a)")
    case (Inl e)
    then have "s' = snd (recordExecutionEntitlementFailure errtext n (at_ID (claimed_row n w l a)) e s)"
      using assms Some by (auto simp: claim_row_def Let_def split: prod.splits)
    then have "only_events s s'"
      by (simp add: recordExecutionEntitlementFailure_def recordIntegrityFailure_events)
    then show ?thesis by (simp add: only_events_view)
  next
    case (Inr u)
    have s': "s' = snd (claim_row errtext n i w st tok l use s)" using assms by simp
    have "at_ID a = i" using i by simp
    then have "live_view s' = live_view (claim_change n i w st tok l use s)"
      unfolding s' claim_row_def claim_change_def using Some Inr by (simp add: Let_def del: enter_gate_fields)
    then show ?thesis ..
  qed
qed

lemma claim_move:
  assumes run: "claimAttempt errtext n i w st tok l True s = (r, s')" and st: "claim_source st"
  shows "move s s'"
proof (cases "l \<le> 0 \<or> l > day_duration")
  case True
  then show ?thesis using run by (simp add: claimAttempt_def move.view)
next
  case False
  show ?thesis
  proof (cases "find (\<lambda>a. at_ID a = i) (db_Attempts s)")
    case None
    then show ?thesis using run False by (simp add: claimAttempt_def move.view)
  next
    case (Some a)
    then have a: "a \<in> set (db_Attempts s)" "at_ID a = i" by (auto dest: find_SomeD)
    let ?use = "at_Intent a \<noteq> ''paper_place''"
    show ?thesis
    proof (cases "?use \<and> \<not> claim_allowed i st s")
      case True
      then show ?thesis using run False Some by (simp add: claimAttempt_def move.view)
    next
      case gate: False
      have "claim_row errtext n i w st tok l ?use s = (r, s')"
        using run False Some gate by (auto simp: claimAttempt_def Let_def split: if_splits)
      then show ?thesis using claim_row_view move.view move.claim[OF a st refl] gate by blast
    qed
  qed
qed

section \<open>The other operations\<close>

lemma insert_move:
  assumes run: "InsertExecutionAttempt limits n a s = Inr s'"
    and new: "at_ID a \<noteq> []" "at_State a = ''pending''"
  shows "move s s'"
proof -
  obtain w where s': "s' = s\<lparr>db_Attempts := db_Attempts s @ [attempt_row limits n s w a]\<rparr>"
    and fresh: "at_ID a \<notin> at_ID ` set (db_Attempts s)"
    using run by (auto simp: InsertExecutionAttempt_def split: option.splits if_splits)
  show ?thesis
    by (rule move.arrive[of "attempt_row limits n s w a"])
       (use fresh new in \<open>simp_all add: s' attempt_row_def new_attempt_def Let_def\<close>)
qed

lemma limit_move:
  assumes run: "UpdatePendingAttemptLimit n i limit s = (r, s')"
  shows "move s s'"
proof (cases "affected (\<lambda>a. at_ID a = i \<and> at_State a = ''pending'' \<and> at_Intent a = ''place'') (db_Attempts s) = 1")
  case True
  let ?c = "\<lambda>a. at_ID a = i \<and> at_State a = ''pending'' \<and> at_Intent a = ''place''"
  let ?f = "\<lambda>a. a\<lparr>at_Limit := min (at_Limit a) limit\<rparr>"
  have s': "s' = snd (UpdatePendingAttemptLimit n i limit s)" using run by simp
  have "plain_changes i ?c ?f" by (simp add: plain_changes_def plain_step.relimit)
  then show ?thesis by (rule move.change) (use True in \<open>simp add: s' UpdatePendingAttemptLimit_def Let_def live_view_def\<close>)
next
  case False
  then show ?thesis using run by (simp add: UpdatePendingAttemptLimit_def Let_def move.view)
qed

lemma prepare_move:
  assumes run: "PrepareAttemptProviderIntent c i tok acc can fp s = Inr (r, s')"
  shows "move s s'"
proof -
  let ?f = "\<lambda>a. a\<lparr>at_ProviderAccountID := Some acc, at_ProviderIntent := Some (jsonb c can), at_IntentFingerprint := Some fp\<rparr>"
  have s': "s' = s\<lparr>db_Attempts := update_rows (preparable c i tok acc can fp) ?f (db_Attempts s)\<rparr>"
    using run by (simp add: PrepareAttemptProviderIntent_def Let_def)
  have "plain_changes i (preparable c i tok acc can fp) ?f"
    by (simp add: plain_changes_def preparable_def plain_step.evidence)
  then show ?thesis by (rule move.change) (simp add: s')
qed

lemma affected_one: "affected c rows = 1 \<Longrightarrow> \<exists>r\<in>set rows. c r"
proof -
  assume "affected c rows = 1"
  then obtain r rs where "filter c rows = r # rs" by (cases "filter c rows") (simp_all add: affected_def)
  then have "r \<in> set (filter c rows)" by simp
  then show ?thesis by auto
qed

text \<open>What a successful mark did to the attempts.\<close>

definition carries :: "codec \<Rightarrow> provider_intent_evidence \<Rightarrow> execution_attempt \<Rightarrow> bool" where
  "carries c e a \<longleftrightarrow> at_ProviderAccountID a = Some (ie_AccountID e) \<and>
     at_ProviderIntent a = Some (jsonb c (ie_Canonical e)) \<and> at_IntentFingerprint a = Some (ie_Fingerprint e)"

definition mark_effect where
  "mark_effect c ev i tok k s s1 \<longleftrightarrow> (\<exists>cond n. send_marks i tok k n cond s \<and>
     (k = 1 \<longrightarrow> (\<exists>e. ev = Some e \<and> (\<forall>a. cond a \<longrightarrow> carries c e a))) \<and>
     s1 = s\<lparr>db_Attempts := update_rows cond (mark_row k n) (db_Attempts s)\<rparr>)"

lemma first_send_effect:
  assumes "first_send n i tok s = Inr (True, s1)"
  shows "mark_effect c ev i tok 0 s s1"
proof -
  let ?c = "\<lambda>a. fenced i tok a \<and> at_SentAt a = None \<and> has_evidence a"
  have s1: "affected ?c (db_Attempts s) = 1" "s1 = s\<lparr>db_Attempts := update_rows ?c (sent_row n) (db_Attempts s)\<rparr>"
    using assms by (simp_all add: first_send_def Let_def)
  have "mark_row 0 n = sent_row n" by (simp add: mark_row_def fun_eq_iff)
  moreover have "marks 0 b (sent_row n b)" if "?c b" for b
    using that by (simp add: marks_def marks_first_def sent_row_def)
  ultimately have "send_marks i tok 0 n ?c s" using affected_one[OF s1(1)] by (simp add: send_marks_def)
  then show ?thesis unfolding mark_effect_def s1(2) \<open>mark_row 0 n = sent_row n\<close>[symmetric] by (metis zero_neq_one)
qed

lemma replay_send_effect:
  assumes "replay_send c clock g ev a i tok s = Inr (True, s1)"
  shows "mark_effect c (Some ev) i tok 1 s s1"
proof -
  let ?c = "replayable c (clock 1) (guard_millis g) ev i tok"
  let ?f = "\<lambda>a. a\<lparr>at_ReplayCount := at_ReplayCount a + 1\<rparr>"
  have s1: "affected ?c (db_Attempts s) = 1" "s1 = s\<lparr>db_Attempts := update_rows ?c ?f (db_Attempts s)\<rparr>"
    using assms by (auto simp: replay_send_def Let_def split: if_splits)
  have f: "mark_row 1 0 = ?f" by (simp add: mark_row_def fun_eq_iff)
  have "fenced i tok b" "has_evidence b" "marks 1 b (?f b)" if "?c b" for b
    using that by (simp_all add: replayable_def has_evidence_def marks_def marks_replay_def)
  then have "send_marks i tok 1 0 ?c s" using affected_one[OF s1(1)] by (simp add: send_marks_def f)
  moreover have "carries c ev b" if "?c b" for b using that by (simp add: replayable_def carries_def)
  ultimately show ?thesis unfolding mark_effect_def s1(2) f[symmetric] by blast
qed

definition ordinal :: "bool \<Rightarrow> int64" where
  "ordinal replay = (if replay then 1 else 0)"

lemma complete_send_true:
  assumes "complete_send c mid i tok replay n sent s = Inr (True, s')" "mid \<noteq> []"
  obtains s1 s2 where "sent = Inr (True, s1)"
    "validatePreEffectManifestForSend c mid i tok (ordinal replay) n s1 = Inr s2"
    "s' = insert_event ''execution_attempt_sent''
       [(''attempt_id'', PText i), (''fencing_token'', PInt tok), (''replay'', PBool replay),
        (''pre_effect_manifest_id'', PText mid)] s2"
proof (cases sent)
  case (Inr p)
  obtain b s1 where p: "p = (b, s1)" by (cases p)
  show ?thesis
  proof (cases b)
    case True
    then show ?thesis using that assms Inr p
      by (auto simp: complete_send_def bind_manifest_def ordinal_def case_sum_Inr_iff)
  qed (use assms Inr p in \<open>simp add: complete_send_def\<close>)
qed (use assms in \<open>simp add: complete_send_def\<close>)

text \<open>A send that reports success did all of this.\<close>

lemma send_cases:
  assumes run: "MarkAttemptSentWithManifest c clock i tok replay g ev mid s = Inr (True, s')"
  obtains a w s1 s2 where "send_admitted i replay s" "find (fenced i tok) (db_Attempts s) = Some a"
    "find (\<lambda>w. ow_ID w = at_OperationID a) (db_Operations s) = Some w"
    "\<not> ((replay \<or> at_Intent a = ''place'' \<and> ow_Action w = ''open'') \<and> halted s)"
    "mark_effect c ev i tok (ordinal replay) s s1"
    "validatePreEffectManifestForSend c mid i tok (ordinal replay) (clock 0) s1 = Inr s2"
    "s' = insert_event ''execution_attempt_sent''
       [(''attempt_id'', PText i), (''fencing_token'', PInt tok), (''replay'', PBool replay),
        (''pre_effect_manifest_id'', PText mid)] s2"
proof -
  have mid: "mid \<noteq> []" and r: "markAttemptSent c clock i tok replay g ev mid s = Inr (True, s')"
    using run by (auto simp: MarkAttemptSentWithManifest_def split: if_splits)
  have adm: "send_admitted i replay s"
    using r by (auto simp: markAttemptSent_def case_sum_Inr_iff split: if_splits)
  obtain a where a: "find (fenced i tok) (db_Attempts s) = Some a"
    using r by (auto simp: markAttemptSent_def case_sum_Inr_iff split: if_splits option.splits)
  obtain w where w: "find (\<lambda>w. ow_ID w = at_OperationID a) (db_Operations s) = Some w"
    using r a by (auto simp: markAttemptSent_def case_sum_Inr_iff split: if_splits option.splits)
  have sc: "send_claimed c clock i tok replay g ev mid a w s = Inr (True, s')"
    using r a w adm by (auto simp: markAttemptSent_def case_sum_Inr_iff)
  have h: "\<not> ((replay \<or> at_Intent a = ''place'' \<and> ow_Action w = ''open'') \<and> halted s)"
    using sc unfolding send_claimed_def by (metis Inl_Inr_False)
  have cs: "complete_send c mid i tok replay (clock 0)
        (if replay
         then (case ev of None \<Rightarrow> Inl (Errorf ''replay provider intent evidence is invalid'' [])
               | Some ev \<Rightarrow> replay_send c clock g ev a i tok s)
         else first_send (clock 1) i tok s) s = Inr (True, s')"
    using sc h unfolding send_claimed_def by (simp only: if_False)
  obtain s1 s2 where s: "(if replay
         then (case ev of None \<Rightarrow> Inl (Errorf ''replay provider intent evidence is invalid'' [])
               | Some ev \<Rightarrow> replay_send c clock g ev a i tok s)
         else first_send (clock 1) i tok s) = Inr (True, s1)"
    "validatePreEffectManifestForSend c mid i tok (ordinal replay) (clock 0) s1 = Inr s2"
    "s' = insert_event ''execution_attempt_sent''
       [(''attempt_id'', PText i), (''fencing_token'', PInt tok), (''replay'', PBool replay),
        (''pre_effect_manifest_id'', PText mid)] s2"
    by (rule complete_send_true[OF cs mid])
  have "mark_effect c ev i tok (ordinal replay) s s1"
    using s(1) first_send_effect replay_send_effect unfolding ordinal_def
    by (cases replay; cases ev) auto
  then show ?thesis using that adm a w h s(2,3) by blast
qed

lemma send_move:
  assumes run: "MarkAttemptSentWithManifest c clock i tok replay g ev mid s = Inr (r, s')"
  shows "move s s'"
proof (cases r)
  case True
  obtain s1 s2 where m: "mark_effect c ev i tok (ordinal replay) s s1"
    and v: "validatePreEffectManifestForSend c mid i tok (ordinal replay) (clock 0) s1 = Inr s2"
    and s': "s' = insert_event ''execution_attempt_sent''
       [(''attempt_id'', PText i), (''fencing_token'', PInt tok), (''replay'', PBool replay),
        (''pre_effect_manifest_id'', PText mid)] s2"
    by (rule send_cases[of c clock i tok replay g ev mid s s']) (use run True in simp)
  obtain cond n where c: "send_marks i tok (ordinal replay) n cond s"
    and s1: "s1 = s\<lparr>db_Attempts := update_rows cond (mark_row (ordinal replay) n) (db_Attempts s)\<rparr>"
    using m unfolding mark_effect_def by blast
  have s2: "s2 = s1\<lparr>db_Bindings := db_Bindings s1 @ [\<lparr>sb_AttemptID = i, sb_SendOrdinal = ordinal replay,
       sb_FencingToken = tok, sb_ManifestID = mid\<rparr>]\<rparr>"
    by (rule validatePreEffect_cases[OF v])
  show ?thesis by (rule move.send[OF c, where mid = mid]) (simp add: s' s2 s1)
next
  case False
  have "s' = s" using run False
    by (auto simp: MarkAttemptSentWithManifest_def markAttemptSent_def case_sum_Inr_iff send_claimed_def complete_send_def
        split: if_splits option.splits sum.splits prod.splits)
  then show ?thesis by (simp add: move.view)
qed

section \<open>Reports, resolutions and failures\<close>

lemma applyOrderUpdate_view:
  assumes "applyOrderUpdate n newID u p s = Inr (ord', s')"
  shows "live_view s' = live_view s"
proof -
  obtain ord attempt s1 where rep: "apply_report n newID u p ord attempt s = Inr s1"
    and w: "write_order n u ord s1 = (ord', s')"
    by (rule applyOrderUpdate_cases[OF assms])
  have "live_view s1 = live_view s"
    using apply_report_fills(4)[OF rep] by (simp add: fill_frame_def live_view_def)
  moreover have "live_view s' = live_view s1"
    unfolding live_view_def by (subst (1 2 3 4 5) write_order_frame(1)[OF w]) simp
  ultimately show ?thesis by simp
qed

lemma recordOrderUpdateFailure_view:
  "live_view (snd (recordOrderUpdateFailure errtext n u e s)) = live_view s"
  unfolding recordOrderUpdateFailure_def
  by (simp add: only_events_view[OF recordIntegrityFailure_events])

lemma move_to_view: "move s s1 \<Longrightarrow> live_view s' = live_view s1 \<Longrightarrow> move s s'"
  by (erule move.cases) (auto intro: move.intros)

lemma move_from_view:
  assumes v: "live_view s1 = live_view s" and m: "move s1 s'"
  shows "move s s'"
proof -
  have e: "db_Attempts s1 = db_Attempts s" "db_GateActive s1 = db_GateActive s"
    "db_GateUnknown s1 = db_GateUnknown s" "db_Bindings s1 = db_Bindings s" "db_Manifests s1 = db_Manifests s"
    using v by (simp_all add: live_view_def)
  have g: "claim_allowed i st s1 = claim_allowed i st s" "recovering_unknown i st s1 = recovering_unknown i st s" for i st
    by (simp_all add: claim_allowed_def gate_idle_def unresolved_other_def recovering_unknown_def e)
  from m show ?thesis
  proof cases
    case view
    then show ?thesis using v move.view by simp
  next
    case (evidence m)
    then show ?thesis by (intro move.evidence[of m]) (simp_all add: e live_view_def)
  next
    case (arrive a)
    then show ?thesis by (intro move.arrive[of a]) (simp_all add: e live_view_def)
  next
    case (claim a0 i st use n w tok l)
    show ?thesis
      by (rule move.claim[of a0 s i st use _ n w tok l])
         (use claim in \<open>simp_all add: e g live_view_def claim_change_def Let_def\<close>)
  next
    case (change i cond f)
    show ?thesis by (rule move.change[OF change(1)]) (use change(2) in \<open>simp add: e live_view_def\<close>)
  next
    case (send i tok k n cond mid)
    have "send_marks i tok k n cond s" using send(1) by (simp add: send_marks_def e)
    then show ?thesis by (rule move.send[where mid = mid]) (use send(2) in \<open>simp add: e live_view_def\<close>)
  next
    case (leave i tok st cond f n)
    have "exits i tok st cond f s" using leave(1) by (simp add: exits_def e)
    then show ?thesis
      by (rule move.leave[where n = n]) (use leave(2) in \<open>simp add: e live_view_def resolve_gate_def leave_gate_def\<close>)
  qed
qed

lemma finish_placement_move: "move s (finish_placement n st ord s)"
proof (cases "fst (terminalPlacementState st) = []")
  case True
  then show ?thesis by (simp add: finish_placement_def case_prod_unfold move.view)
next
  case False
  have t: "fst (terminalPlacementState st) = ''settled'' \<or> fst (terminalPlacementState st) = ''failed''"
    using False by (simp add: terminalPlacementState_def split: if_splits)
  let ?c = "\<lambda>a. at_ID a = o_ExecutionAttemptID ord \<and> at_State a = ''placed''"
  let ?f = "\<lambda>a. a\<lparr>at_State := fst (terminalPlacementState st), at_ResolvedAt := n, at_LastError := []\<rparr>"
  have "plain_step a (?f a)" if "?c a" for a
    by (rule plain_step.finish[OF _ t]) (use that in \<open>simp_all add: leaves_def sent_identity_def\<close>)
  then have "plain_changes (o_ExecutionAttemptID ord) ?c ?f" by (simp add: plain_changes_def)
  then show ?thesis
    by (rule move.change) (use False in \<open>simp add: finish_placement_def case_prod_unfold Let_def\<close>)
qed

lemma report_move:
  assumes run: "ApplyOrderUpdate errtext n newID u s = (r, s')"
  shows "move s s'"
proof (cases "applyOrderUpdate n newID u False s")
  case (Inl e)
  have "live_view s' = live_view s"
    using run Inl recordOrderUpdateFailure_view[of errtext n u e s]
    by (auto simp: ApplyOrderUpdate_def split: if_splits prod.splits)
  then show ?thesis by (rule move.view)
next
  case (Inr p)
  obtain ord s1 where p: "p = (ord, s1)" by (cases p)
  have v: "live_view s1 = live_view s" using applyOrderUpdate_view[OF Inr[unfolded p]] .
  have "s' = finish_placement n (ou_State u) ord s1" using run Inr p by (simp add: ApplyOrderUpdate_def)
  then show ?thesis using move_from_view[OF v] finish_placement_move by blast
qed

lemma resolved_row_fields [simp]:
  "at_ID (resolved_row n r a) = at_ID a" "at_SentAt (resolved_row n r a) = at_SentAt a"
  "at_ReplayCount (resolved_row n r a) = at_ReplayCount a" "at_State (resolved_row n r a) = ar_State r"
  "at_Intent (resolved_row n r a) = at_Intent a"
  by (simp_all add: resolved_row_def)

lemma resolve_rows_view:
  "live_view (resolve_rows n i tok r a s) =
     live_view (resolve_gate n i (ar_State r) (s\<lparr>db_Attempts := update_rows (resolvable i tok r) (resolved_row n r) (db_Attempts s)\<rparr>))"
  by (simp add: resolve_rows_def Let_def resolution_events_def resolve_operation_def release_reservations_def split: option.splits)

lemma record_report_failure_view: "live_view (snd (record_report_failure errtext n u e s)) = live_view s"
  by (simp add: record_report_failure_def recordOrderUpdateFailure_view split: option.splits)

lemma apply_resolution_report_view:
  "apply_resolution_report n newID u s = Inr s' \<Longrightarrow> live_view s' = live_view s"
  unfolding apply_resolution_report_def
  by (cases u) (auto simp: case_sum_Inr_iff dest: applyOrderUpdate_view)

lemma resolve_cases:
  assumes run: "ResolveAttempt errtext n newID i tok r s = (b, s')"
  obtains "b \<noteq> Inr True" "live_view s' = live_view s"
  | a s1 where "b = Inr True" "find (fenced i tok) (db_Attempts s) = Some a"
      "apply_resolution_report n newID (resolution_report i r) s = Inr s1"
      "affected (resolvable i tok r) (db_Attempts s1) = 1" "s' = resolve_rows n i tok r a s1"
proof (cases "find (fenced i tok) (db_Attempts s)")
  case None
  then show ?thesis using run that(1) by (auto simp: ResolveAttempt_def)
next
  case (Some a)
  show ?thesis
  proof (cases "reservation_lookup a s")
    case (Inl e)
    then show ?thesis using run Some that(1) by (auto simp: ResolveAttempt_def)
  next
    case look: (Inr u)
    show ?thesis
    proof (cases "apply_resolution_report n newID (resolution_report i r) s")
      case (Inl e)
      then have "s' = snd (record_report_failure errtext n (resolution_report i r) e s)" "b \<noteq> Inr True"
        using run Some look by (auto simp: ResolveAttempt_def split: prod.splits)
      then show ?thesis using that(1) record_report_failure_view by blast
    next
      case (Inr s1)
      then show ?thesis using run Some look that by (auto simp: ResolveAttempt_def split: if_splits)
    qed
  qed
qed

lemma resolve_move:
  assumes st: "resolution_state (ar_State r)" and run: "ResolveAttempt errtext n newID i tok r s = (b, s')"
  shows "move s s'"
proof (cases rule: resolve_cases[OF run])
  case 1
  then show ?thesis by (intro move.view)
next
  case (2 a s1)
  have "leaves (ar_State r) x (resolved_row n r x)" for x
    by (simp add: leaves_def sent_identity_def resolved_row_def)
  then have "exits i tok (ar_State r) (resolvable i tok r) (resolved_row n r) s1"
    using affected_one[OF 2(4)] st by (auto simp: exits_def resolvable_def)
  then have "move s1 s'" by (rule move.leave) (simp only: 2(5) resolve_rows_view)
  then show ?thesis using move_from_view apply_resolution_report_view[OF 2(3)] by blast
qed

lemma fail_move:
  assumes run: "FailPendingAttempt n i reason s = Inr (b, s')"
  shows "move s s'"
proof (cases "find (pending i) (db_Attempts s)")
  case None
  then show ?thesis using run by (simp add: FailPendingAttempt_def move.view)
next
  case (Some a)
  let ?f = "\<lambda>a. a\<lparr>at_State := ''failed'', at_LastError := reason, at_ResolvedAt := n\<rparr>"
  have "plain_changes i (pending i) ?f" by (simp add: plain_changes_def pending_def plain_step.abandon)
  moreover have "live_view (reject_new_order n a t) = live_view t" for t
    by (simp add: reject_new_order_def Let_def live_view_def insert_event_def split: option.splits)
  then have "live_view s' = live_view (s\<lparr>db_Attempts := update_rows (pending i) ?f (db_Attempts s)\<rparr>)"
    using run Some by (auto simp: FailPendingAttempt_def case_sum_Inr_iff Let_def failure_events_def release_reservations_def
        split: option.splits if_splits)
  ultimately show ?thesis by (rule move.change)
qed

lemma halt_move: "ActivateGlobalHalt n reason subj mode s = Inr (t, s') \<Longrightarrow> move s s'"
  by (rule move.view[OF only_events_view])
     (auto simp: ActivateGlobalHalt_def case_sum_Inr_iff dest: only_events_insert_at split: prod.splits bool.splits)

lemma resume_move: "ResumeGlobalHalt n reason subj mode s = Inr (t, s') \<Longrightarrow> move s s'"
  by (rule move.view[OF only_events_view])
     (auto simp: ResumeGlobalHalt_def case_sum_Inr_iff dest: only_events_insert_at split: prod.splits bool.splits if_splits)

lemma manifest_move:
  assumes "RecordPreEffectManifest c n newID input s = Inr (m, s')"
  shows "move s s'"
proof -
  obtain inp where "record_manifest c n inp s = Inr (m, s')"
    using assms unfolding RecordPreEffectManifest_def Let_def guarded_ok by blast
  then obtain facts where "s' = insert_manifest c n facts inp s" "pm_ID inp \<notin> pm_ID ` set (db_Manifests s)"
    using record_manifest_effect by blast
  then show ?thesis
    by (intro move.evidence[of "manifest_row c n facts inp"])
      (simp_all add: insert_manifest_def live_view_def insert_event_def manifest_row_def)
qed


section \<open>Reprices\<close>

lemma stage_cancel_move:
  assumes run: "StageRepriceCancel limits n newID oid s = Inr (r, s')" and new: "newID \<noteq> []"
  shows "move s s'"
proof (cases "s' = s")
  case False
  obtain ord s1 where i: "InsertExecutionAttempt limits n (cancel_attempt newID ord s) s = Inr s1"
    and v: "live_view s' = live_view s1"
    using run False by (auto simp: StageRepriceCancel_def case_sum_Inr_iff split: option.splits if_splits)
  have "move s s1" by (rule insert_move[OF i]) (simp_all add: cancel_attempt_def blank_attempt_def new)
  then show ?thesis by (rule move_to_view[OF _ v])
qed (simp add: move.view)

lemma settle_cancel_view:
  "live_view (settle_cancel n i tok ca src s) =
     live_view (resolve_gate n i ''settled'' (s\<lparr>db_Attempts := update_rows (fenced i tok)
       (\<lambda>a. a\<lparr>at_State := ''settled'', at_BrokerOrderID := at_TargetBrokerOrderID ca, at_LastError := [], at_ResolvedAt := n\<rparr>)
       (update_rows (\<lambda>a. at_ID a = o_ExecutionAttemptID src \<and> at_State a = ''placed'')
         (\<lambda>a. a\<lparr>at_State := ''settled'', at_ResolvedAt := n\<rparr>) (db_Attempts s))\<rparr>))"
  by (simp add: settle_cancel_def resolve_gate_def Let_def)

lemma settle_cancel_moves:
  assumes row: "row \<in> set (db_Attempts s)" "fenced i tok row"
  shows "move\<^sup>*\<^sup>* s (settle_cancel n i tok ca src s)"
proof -
  let ?c = "\<lambda>a. at_ID a = o_ExecutionAttemptID src \<and> at_State a = ''placed''"
  let ?f = "\<lambda>a. a\<lparr>at_State := ''settled'', at_ResolvedAt := n\<rparr>"
  let ?g = "\<lambda>a. a\<lparr>at_State := ''settled'', at_BrokerOrderID := at_TargetBrokerOrderID ca, at_LastError := [], at_ResolvedAt := n\<rparr>"
  obtain s1 where s1: "s1 = s\<lparr>db_Attempts := update_rows ?c ?f (db_Attempts s)\<rparr>" by blast
  have "plain_step a (?f a)" if "?c a" for a
    by (rule plain_step.finish[of a "''settled''"]) (use that in \<open>simp_all add: leaves_def sent_identity_def\<close>)
  then have "plain_changes (o_ExecutionAttemptID src) ?c ?f" by (simp add: plain_changes_def)
  then have m1: "move s s1" by (rule move.change) (simp add: s1)
  have row1: "row \<in> set (db_Attempts s1)"
    using row by (auto simp: s1 set_update_rows fenced_def intro!: image_eqI[of _ _ row])
  have "leaves ''settled'' a (?g a)" for a by (simp add: leaves_def sent_identity_def)
  then have "exits i tok ''settled'' (fenced i tok) ?g s1"
    using row1 row(2) by (auto simp: exits_def resolution_state_def)
  then have "move s1 (settle_cancel n i tok ca src s)"
    by (rule move.leave) (simp add: settle_cancel_view s1)
  then show ?thesis using m1 by simp
qed

lemma stage_replacement_move:
  assumes run: "stage_replacement limits n src upd ca sa q rp s = Inr (r, s')"
  shows "move s s'"
proof -
  obtain t where t: "t = s\<lparr>db_Orders := update_rows (\<lambda>r. o_ID r = o_ID src) (\<lambda>r. r\<lparr>o_Reprices := o_Reprices upd + 1\<rparr>) (db_Orders s)\<rparr>"
    by blast
  have g: "replacement_guards src sa q rp s = Inr ()"
    using run by (auto simp: stage_replacement_def case_sum_Inr_iff)
  obtain s1 s2 where i: "InsertExecutionAttempt limits n (replacement_attempt src ca sa q rp) t = Inr s1"
    and o: "InsertOrder n (replacement_order src (o_Reprices upd + 1) q rp) s1 = Inr s2"
    and v: "live_view s' = live_view s2"
    using run g unfolding stage_replacement_def Let_def t[symmetric] by (auto simp: case_sum_Inr_iff)
  have "rp_AttemptID rp \<noteq> []" using g by (auto simp: replacement_guards_def split: if_splits)
  then have "move t s1"
    by (intro insert_move[OF i]) (simp_all add: replacement_attempt_def blank_attempt_def)
  moreover have "live_view s2 = live_view s1"
    using o by (auto simp: InsertOrder_def live_view_def Let_def split: option.splits)
  moreover have "live_view t = live_view s" by (simp add: t live_view_def)
  ultimately show ?thesis using move_from_view move_to_view v by metis
qed

lemma expire_view: "expire_remainder n src t sa q fs reason s = Inr s' \<Longrightarrow> live_view s' = live_view s"
  by (auto simp: expire_remainder_def release_reservations_def Let_def split: if_splits option.splits)

lemma finish_reprice_move:
  assumes run: "finish_reprice c limits n st src upd ca rp reason s = Inr (r, s')"
  shows "move s s'"
proof -
  obtain t where t: "t = (if operationStatusAfterFailedAttempt s (o_OperationID src) = ''executed''
      then set_operation_status (o_OperationID src) ''executed'' s else s)" by blast
  have okt: "live_view t = live_view s" by (simp add: t)
  obtain q where q: "q = wrap64 (o_Qty src - order_filled s (o_ID src))" by blast
  have nn: "\<not> q < 0" using run unfolding finish_reprice_def Let_def q by (metis Inl_Inr_False)
  obtain sa where sa: "one_row (\<lambda>a. at_ID a = o_ExecutionAttemptID src) (db_Attempts t) = Inr sa"
    using run nn unfolding finish_reprice_def Let_def t[symmetric] q[symmetric] by (auto simp: case_sum_Inr_iff)
  show ?thesis
  proof (cases "st = ''filled'' \<or> q = 0")
    case True
    then have "live_view s' = live_view t" using run nn sa
      unfolding finish_reprice_def Let_def t[symmetric] q[symmetric] by auto
    then show ?thesis using move.view okt by simp
  next
    case False
    then obtain e where e: "effective_replacement c n src upd rp reason t = Inr e"
      using run nn sa unfolding finish_reprice_def Let_def t[symmetric] q[symmetric]
      by (auto simp: case_sum_Inr_iff simp del: split_paired_Ex)
    show ?thesis
    proof (cases "fst e")
      case None
      then have "\<exists>u. expire_remainder n src (at_TargetBrokerOrderID ca) sa q (operationStatusAfterFailedAttempt s (o_OperationID src)) (snd e) t = Inr u \<and> s' = u"
        using run nn sa False e unfolding finish_reprice_def Let_def t[symmetric] q[symmetric]
        by (cases e) (auto simp: case_sum_Inr_iff)
      then show ?thesis using expire_view move.view okt by metis
    next
      case (Some p)
      then have "stage_replacement limits n src upd ca sa q p t = Inr (r, s')"
        using run nn sa False e unfolding finish_reprice_def Let_def t[symmetric] q[symmetric]
        by (cases e) auto
      then show ?thesis by (intro move_from_view[OF okt] stage_replacement_move)
    qed
  qed
qed

lemma finalize_moves:
  assumes run: "FinalizeRepriceCancel c limits errtext n newID i tok u rp reason s = (r, s')"
  shows "move\<^sup>*\<^sup>* s s'"
proof (cases "s' = s")
  case False
  obtain a where a: "find (\<lambda>a. at_ID a = i) (db_Attempts s) = Some a"
    using run False by (auto simp: FinalizeRepriceCancel_def split: option.splits)
  obtain src where src: "find (\<lambda>r. at_TargetBrokerOrderID a \<noteq> [] \<and> o_BrokerOrderID r = at_TargetBrokerOrderID a) (db_Orders s) = Some src"
    using run False a by (auto simp: FinalizeRepriceCancel_def split: option.splits)
  obtain ca where ca: "find (fenced i tok) (db_Attempts s) = Some ca"
    using run False a src by (auto simp: FinalizeRepriceCancel_def split: option.splits)
  obtain v where v: "finalize_report c limits errtext n newID i tok v src ca rp reason s = (r, s')"
    using run False a src ca by (auto simp: FinalizeRepriceCancel_def split: if_splits)
  show ?thesis
  proof (cases "applyOrderUpdate n newID v True s")
    case (Inl e)
    then have "s' = snd (recordOrderUpdateFailure errtext n v e s)"
      using v by (auto simp: finalize_report_def split: prod.splits)
    then show ?thesis using move.view[OF recordOrderUpdateFailure_view] by blast
  next
    case (Inr p)
    obtain upd s1 where p: "p = (upd, s1)" by (cases p)
    have view: "live_view s1 = live_view s" by (rule applyOrderUpdate_view[OF Inr[unfolded p]])
    have "ca \<in> set (db_Attempts s1)" "fenced i tok ca"
      using find_SomeD[OF ca] view by (simp_all add: live_view_def)
    then have "move\<^sup>*\<^sup>* s1 (settle_cancel n i tok ca src s1)" by (rule settle_cancel_moves)
    then have ms: "move\<^sup>*\<^sup>* s (settle_cancel n i tok ca src s1)" using move.view[OF view] by simp
    obtain res where res: "finish_reprice c limits n (ou_State v) src upd ca rp reason (settle_cancel n i tok ca src s1) = res" by blast
    have "(r, s') = commit_or_keep s res" using v Inr p res by (simp add: finalize_report_def)
    then obtain x where "res = Inr (x, s')" using False
      by (cases res) (auto simp: commit_or_keep_def)
    then show ?thesis using ms finish_reprice_move res by (metis rtranclp.rtrancl_into_rtrancl)
  qed
qed simp

end
