(* ===== verification/Reconciliation.thy ===== *)
theory Reconciliation
  imports Observations Live_Moves "HOL-Library.AList"
begin

text \<open>
  \<^verbatim>\<open>kernel/internal/store/broker_reconciliation.go\<close>: the reconciliation of the exposure ledger with a complete
  observation of the account. Positions may have been closed or changed by others; the ledger then tracks at most what
  the account still has, the reductions are kept as evidence, and work decided on the old state is
  invalidated. While an effect of the Kernel may be in flight nothing is touched.

  The maps of the code are association lists over the same string keys, the kind and the symbol with a NUL
  byte between. \<open>newID\<close> gives the id of the episode of a key; \<open>locked\<close> is whether the lock of the account was
  got, \<open>localGeneration\<close> the counter the triggers of the schema keep.
\<close>

section \<open>The maps\<close>

record broker_reconciliation_result =
  rr_ObservationID :: string
  rr_ObservationGeneration :: int64
  rr_Applied :: bool
  rr_Deferred :: bool
  rr_DeferredReason :: string
  rr_Episodes :: "external_change list"
  rr_InvalidatedOperationIDs :: "string list"

record reconciliation_position =
  rp_symbol :: string
  rp_kind :: string
  rp_qty :: qty
  rp_keys :: "string list"

record reconciliation_projection =
  rj_provider :: qty
  rj_tracked :: qty
  rj_keys :: "string list"

definition reconciliationEconomicKey :: "string \<Rightarrow> string \<Rightarrow> string" where
  "reconciliationEconomicKey kind symbol = kind @ CHR 0x00 # symbol"

text \<open>\<open>strings.SplitN(key, NUL, 2)\<close>.\<close>

definition split_key :: "string \<Rightarrow> (string \<times> string) result" where
  "split_key key =
     (case dropWhile (\<lambda>c. c \<noteq> CHR 0x00) key of
        [] \<Rightarrow> Inl (Errorf ''invalid reconciliation economic key'' [])
      | _ # symbol \<Rightarrow> Inr (takeWhile (\<lambda>c. c \<noteq> CHR 0x00) key, symbol))"

definition no_position :: reconciliation_position where
  "no_position = \<lparr>rp_symbol = [], rp_kind = [], rp_qty = 0, rp_keys = []\<rparr>"

definition position_at :: "(string \<times> reconciliation_position) list \<Rightarrow> string \<Rightarrow> reconciliation_position" where
  "position_at positions key = (case map_of positions key of None \<Rightarrow> no_position | Some p \<Rightarrow> p)"

text \<open>The items of the observation, in the order of family and key.\<close>

definition load_position ::
  "observation_codec \<Rightarrow> observation_item_row \<Rightarrow> (string \<times> reconciliation_position) list \<Rightarrow>
     (string \<times> reconciliation_position) list result" where
  "load_position c item positions =
     (let invalid = Inl (Errorf ''broker reconciliation position is invalid'' [])
      in case oc_position c (oi_Canonical item) of
           None \<Rightarrow> invalid
         | Some observed \<Rightarrow>
             if opn_Symbol observed = [] \<or> opn_Kind observed = [] \<or> opn_Qty observed = 0 then invalid
             else (let key = reconciliationEconomicKey (opn_Kind observed) (opn_Symbol observed);
                       position = position_at positions key
                   in case AddQty (rp_qty position) (opn_Qty observed) of
                        Inl e \<Rightarrow> Inl e
                      | Inr qty \<Rightarrow> Inr (AList.update key
                          \<lparr>rp_symbol = opn_Symbol observed, rp_kind = opn_Kind observed, rp_qty = qty,
                           rp_keys = rp_keys position @ [oi_ObjectKey item]\<rparr> positions)))"

fun load_items ::
  "observation_codec \<Rightarrow> observation_item_row list \<Rightarrow> (string \<times> reconciliation_position) list \<times> (string \<times> observed_order) list \<Rightarrow>
     ((string \<times> reconciliation_position) list \<times> (string \<times> observed_order) list) result" where
  "load_items c [] (positions, orders) = Inr (positions, orders)"
| "load_items c (item # items) (positions, orders) =
     (if oi_Family item = BrokerFamilyPositions
      then (case load_position c item positions of
          Inl e \<Rightarrow> Inl e
        | Inr positions \<Rightarrow> load_items c items (positions, orders))
      else (case oc_order c (oi_Canonical item) of
          None \<Rightarrow> Inl (Errorf ''broker reconciliation order is invalid'' [])
        | Some observed \<Rightarrow> load_items c items (positions, AList.update (oi_ObjectKey item) observed orders)))"

definition reconciled_items :: "string \<Rightarrow> db \<Rightarrow> observation_item_row list" where
  "reconciled_items observationID s =
     sort_key (\<lambda>i. (oi_Family i, oi_ObjectKey i))
       (filter (\<lambda>i. oi_ObservationID i = observationID \<and>
          (oi_Family i = BrokerFamilyPositions \<or> oi_Family i = BrokerFamilyOrders)) (db_ObservationItems s))"

definition family_count :: "string \<Rightarrow> db \<Rightarrow> nat" where
  "family_count observationID s =
     length (filter (\<lambda>f. of_ObservationID f = observationID \<and> of_Status f = ''success'' \<and>
       (of_Family f = BrokerFamilyAccount \<or> of_Family f = BrokerFamilyPositions \<or> of_Family f = BrokerFamilyOrders))
       (db_ObservationFamilies s))"

definition loadReconciliationPositions ::
  "observation_codec \<Rightarrow> string \<Rightarrow> db \<Rightarrow> ((string \<times> reconciliation_position) list \<times> (string \<times> observed_order) list) result" where
  "loadReconciliationPositions c observationID s =
     (if family_count observationID s \<noteq> 3
      then Inl (Errorf ''broker reconciliation observation family set is incomplete'' [])
      else case load_items c (reconciled_items observationID s) ([], []) of
        Inl e \<Rightarrow> Inl e
      | Inr (positions, orders) \<Rightarrow>
          Inr (map (\<lambda>(key, p). (key, p\<lparr>rp_keys := sort (rp_keys p)\<rparr>)) positions, orders))"

text \<open>An order of the ledger that works, and that the snapshot does not show with exactly its durable fills.\<close>

definition working_live :: "order_row \<Rightarrow> bool" where
  "working_live o' \<longleftrightarrow> o_Ledger o' = ''live'' \<and> o_BrokerOrderID o' \<noteq> [] \<and>
     (o_State o' = ''submitted'' \<or> o_State o' = ''partially_filled'')"

definition durable_filled :: "db \<Rightarrow> string \<Rightarrow> qty" where
  "durable_filled s orderID = total fl_Qty (filter (\<lambda>f. fl_OrderID f = orderID) (db_Fills s))"

definition hasUnappliedAlpheusOrderEffect :: "(string \<times> observed_order) list \<Rightarrow> db \<Rightarrow> bool" where
  "hasUnappliedAlpheusOrderEffect current s =
     list_ex (\<lambda>o'. case map_of current (o_BrokerOrderID o') of
         None \<Rightarrow> True
       | Some observed \<Rightarrow> od_FilledQty observed \<noteq> durable_filled s (o_ID o'))
       (filter working_live (db_Orders s))"

definition loadReconciliationProjections :: "string \<Rightarrow> db \<Rightarrow> (string \<times> reconciliation_projection) list" where
  "loadReconciliationProjections accountID s =
     map (\<lambda>r. (reconciliationEconomicKey (pj_Kind r) (pj_Symbol r),
         \<lparr>rj_provider = pj_ProviderQty r, rj_tracked = pj_TrackedQty r, rj_keys = pj_PositionKeys r\<rparr>))
       (filter (\<lambda>r. pj_AccountID r = accountID) (db_Projections s))"

definition live_open_lots :: "db \<Rightarrow> exposure_lot list" where
  "live_open_lots s = filter (\<lambda>l. xl_Ledger l = ''live'' \<and> xl_ClosedQty l < xl_OpenedQty l) (db_Lots s)"

definition lot_key :: "exposure_lot \<Rightarrow> string" where
  "lot_key l = reconciliationEconomicKey (xl_Kind l) (xl_Symbol l)"

definition tracked_sums :: "db \<Rightarrow> (string \<times> qty) list" where
  "tracked_sums s =
     map (\<lambda>key. (key, total (\<lambda>l. xl_OpenedQty l - xl_ClosedQty l) (filter (\<lambda>l. lot_key l = key) (live_open_lots s))))
       (remdups (map lot_key (live_open_lots s)))"

text \<open>The sum is a \<open>numeric\<close>; scanning it fails when it is no \<open>int64\<close>.\<close>

definition loadTrackedExposureQuantities :: "db \<Rightarrow> (string \<times> qty) list result" where
  "loadTrackedExposureQuantities s =
     (if list_all (\<lambda>(_, q). in_int64 q) (tracked_sums s) then Inr (tracked_sums s)
      else Inl (Errorf ''sql: Scan error on column index 2, name sum: value out of range'' []))"

definition reconciliationKeys ::
  "(string \<times> reconciliation_position) list \<Rightarrow> (string \<times> reconciliation_projection) list \<Rightarrow> (string \<times> qty) list \<Rightarrow> string list" where
  "reconciliationKeys current previous tracked = sort (remdups (map fst current @ map fst previous @ map fst tracked))"


section \<open>A change\<close>

definition absoluteQty :: "qty \<Rightarrow> qty" where
  "absoluteQty q = (if q < 0 then wrap64 (- q) else q)"

definition externalPositionChangeKind :: "bool \<Rightarrow> qty \<Rightarrow> qty \<Rightarrow> qty \<Rightarrow> string" where
  "externalPositionChangeKind hasPrior beforeExternal afterExternal adjusted =
     (if \<not> hasPrior then ''baseline''
      else if beforeExternal \<noteq> 0 \<and> afterExternal \<noteq> 0 \<and> (beforeExternal < 0) \<noteq> (afterExternal < 0) then ''external_reversal''
      else if adjusted > 0 \<or> absoluteQty afterExternal < absoluteQty beforeExternal then ''external_reduce''
      else ''external_add'')"

definition externalPositionChangeOrigin :: "qty \<Rightarrow> nat \<Rightarrow> string" where
  "externalPositionChangeOrigin trackedBefore positionKeyCount =
     (if positionKeyCount > 1 then ''ambiguous'' else if trackedBefore > 0 then ''mixed'' else ''external'')"

text \<open>The reduction of the lots, first in, first out. It splits a lot as a close fill does.\<close>

definition external_lot :: "string \<Rightarrow> time \<Rightarrow> qty \<Rightarrow> exposure_lot \<Rightarrow> (exposure_lot \<times> close_allocation) result" where
  "external_lot episodeID observedAt remaining lot =
     (let available = wrap64 (xl_OpenedQty lot - xl_ClosedQty lot);
          matched = (if available > remaining then remaining else available);
          nextClosed = wrap64 (xl_ClosedQty lot + matched);
          nextRemaining = wrap64 (xl_OpenedQty lot - nextClosed)
      in case proportionalInt64 (xl_EntryCost lot) nextRemaining (xl_OpenedQty lot) True of
           Inl e \<Rightarrow> Inl e
         | Inr nextRisk \<Rightarrow>
             (case proportionalInt64 (xl_EntryCost lot) nextRemaining (xl_OpenedQty lot) False of
                Inl e \<Rightarrow> Inl e
              | Inr nextCost \<Rightarrow>
                  (let matchedCost = wrap64 (xl_RemainingCost lot - nextCost);
                       releasedRisk = wrap64 (xl_RemainingRisk lot - nextRisk)
                   in if matchedCost < 0 \<or> releasedRisk < 0
                      then Inl (integrity ''%w: external reduction increased exposure remainder'')
                      else Inr (lot\<lparr>xl_ClosedQty := nextClosed, xl_RemainingCost := nextCost, xl_RemainingRisk := nextRisk,
                                    xl_ClosedAt := (if nextRemaining = 0 then Some observedAt else None)\<rparr>,
                                \<lparr>ca_CloseFillID = episodeID, ca_OpenFillID = xl_OpenFillID lot, ca_Qty = matched,
                                 ca_MatchedCost = matchedCost, ca_ReleasedRisk = releasedRisk\<rparr>))))"

fun external_lots ::
  "string \<Rightarrow> time \<Rightarrow> exposure_lot list \<Rightarrow> qty \<Rightarrow> exposure_lot list \<Rightarrow> close_allocation list
     \<Rightarrow> (exposure_lot list \<times> close_allocation list \<times> qty) result" where
  "external_lots episodeID observedAt [] remaining lots allocations = Inr (lots, allocations, remaining)"
| "external_lots episodeID observedAt (lot # rest) remaining lots allocations =
     (if remaining = 0 then Inr (lots, allocations, remaining)
      else case external_lot episodeID observedAt remaining lot of
        Inl e \<Rightarrow> Inl e
      | Inr (lot', a) \<Rightarrow>
          external_lots episodeID observedAt rest (wrap64 (remaining - ca_Qty a))
            (update_rows (\<lambda>l. xl_OpenFillID l = xl_OpenFillID lot) (\<lambda>_. lot') lots) (allocations @ [a]))"

definition live_fifo :: "string \<Rightarrow> string \<Rightarrow> exposure_lot list \<Rightarrow> exposure_lot list" where
  "live_fifo symbol kind lots =
     sort_key (\<lambda>l. (xl_OpenedAt l, xl_OpenFillID l))
       (filter (\<lambda>l. xl_Ledger l = ''live'' \<and> xl_Symbol l = symbol \<and> xl_Kind l = kind \<and> xl_ClosedQty l < xl_OpenedQty l) lots)"

definition applyExternalExposureReduction :: "external_change \<Rightarrow> time \<Rightarrow> db \<Rightarrow> db result" where
  "applyExternalExposureReduction episode observedAt s =
     (case external_lots (ex_ID episode) observedAt (live_fifo (ex_Symbol episode) (ex_Kind episode) (db_Lots s))
           (ex_AdjustedTrackedQty episode) (db_Lots s) (db_ExternalReductions s) of
        Inl e \<Rightarrow> Inl e
      | Inr (lots, reductions, remaining) \<Rightarrow>
          if remaining \<noteq> 0 then Inl (integrity ''%w: external reduction exceeds FIFO exposure'')
          else Inr (s\<lparr>db_Lots := lots, db_ExternalReductions := reductions\<rparr>))"

section \<open>The reconciliation of one key\<close>

definition tracked_at :: "(string \<times> qty) list \<Rightarrow> string \<Rightarrow> qty" where
  "tracked_at tracked key = (case map_of tracked key of None \<Rightarrow> 0 | Some q \<Rightarrow> q)"

definition tracked_after :: "qty \<Rightarrow> qty \<Rightarrow> qty" where
  "tracked_after providerQty trackedBefore =
     (let providerLong = (if providerQty < 0 then 0 else providerQty)
      in if trackedBefore > providerLong then providerLong else trackedBefore)"

definition external_before :: "reconciliation_projection option \<Rightarrow> qty" where
  "external_before prior = (case prior of None \<Rightarrow> 0 | Some p \<Rightarrow> wrap64 (rj_provider p - rj_tracked p))"

text \<open>What the transaction is about: the account, and the head observation.\<close>

record reconciliation_scope =
  sc_AccountID :: string
  sc_ObservationID :: string
  sc_Generation :: int64
  sc_CompletedAt :: time

definition external_change_of ::
  "reconciliation_scope \<Rightarrow> string \<Rightarrow> string \<Rightarrow> string \<Rightarrow> reconciliation_projection option \<Rightarrow> reconciliation_position \<Rightarrow> qty \<Rightarrow>
     external_change option" where
  "external_change_of x episodeID kind symbol prior position trackedBefore =
     (let providerQty = rp_qty position;
          trackedAfter = tracked_after providerQty trackedBefore;
          adjusted = wrap64 (trackedBefore - trackedAfter);
          beforeExternal = external_before prior;
          afterExternal = wrap64 (providerQty - trackedAfter);
          episodeNeeded = (adjusted > 0 \<or>
            (if prior \<noteq> None then beforeExternal \<noteq> afterExternal else providerQty \<noteq> trackedAfter))
      in if \<not> episodeNeeded then None
         else Some \<lparr>ex_ID = episodeID, ex_AccountID = sc_AccountID x, ex_BrokerObservationID = sc_ObservationID x,
           ex_ObservationGeneration = sc_Generation x, ex_Symbol = symbol, ex_Kind = kind,
           ex_ChangeKind = externalPositionChangeKind (prior \<noteq> None) beforeExternal afterExternal adjusted,
           ex_Origin = externalPositionChangeOrigin trackedBefore (length (rp_keys position)),
           ex_ProviderQtyBefore = map_option rj_provider prior, ex_ProviderQtyAfter = providerQty,
           ex_TrackedQtyBefore = trackedBefore, ex_TrackedQtyAfter = trackedAfter, ex_AdjustedTrackedQty = adjusted,
           ex_PositionKeys = rp_keys position, ex_AttributionStatus = ''uncertain''\<rparr>)"

definition change_payload :: "external_change \<Rightarrow> (string \<times> payload) list" where
  "change_payload e =
     [(''id'', PText (ex_ID e)), (''account_id'', PText (ex_AccountID e)),
      (''broker_observation_id'', PText (ex_BrokerObservationID e)),
      (''observation_generation'', PInt (ex_ObservationGeneration e)), (''symbol'', PText (ex_Symbol e)),
      (''kind'', PText (ex_Kind e)), (''change_kind'', PText (ex_ChangeKind e)), (''origin'', PText (ex_Origin e))] @
     (case ex_ProviderQtyBefore e of None \<Rightarrow> [] | Some q \<Rightarrow> [(''provider_qty_before'', PInt q)]) @
     [(''provider_qty_after'', PInt (ex_ProviderQtyAfter e)), (''tracked_qty_before'', PInt (ex_TrackedQtyBefore e)),
      (''tracked_qty_after'', PInt (ex_TrackedQtyAfter e)), (''adjusted_tracked_qty'', PInt (ex_AdjustedTrackedQty e)),
      (''position_keys'', PList (ex_PositionKeys e)), (''attribution_status'', PText (ex_AttributionStatus e))]"

definition insertBrokerExternalChangeEpisode :: "external_change \<Rightarrow> db \<Rightarrow> db" where
  "insertBrokerExternalChangeEpisode episode s = s\<lparr>db_ExternalChanges := db_ExternalChanges s @ [episode]\<rparr>"

definition record_change :: "external_change \<Rightarrow> time \<Rightarrow> db \<Rightarrow> db result" where
  "record_change episode completedAt s =
     (let s = insertBrokerExternalChangeEpisode episode s
      in case (if ex_AdjustedTrackedQty episode > 0 then applyExternalExposureReduction episode completedAt s else Inr s) of
           Inl e \<Rightarrow> Inl e
         | Inr s \<Rightarrow> Inr (insert_event ''broker_external_change_reconciled'' (change_payload episode) s))"

definition same_projection :: "position_projection_row \<Rightarrow> position_projection_row \<Rightarrow> bool" where
  "same_projection r r' \<longleftrightarrow> pj_AccountID r' = pj_AccountID r \<and> pj_Symbol r' = pj_Symbol r \<and> pj_Kind r' = pj_Kind r"

definition upsert_projection :: "position_projection_row \<Rightarrow> db \<Rightarrow> db" where
  "upsert_projection r s = s\<lparr>db_Projections :=
     (if list_ex (same_projection r) (db_Projections s)
      then update_rows (\<lambda>x. same_projection r x \<and> pj_ObservationGeneration x < pj_ObservationGeneration r) (\<lambda>_. r) (db_Projections s)
      else db_Projections s @ [r])\<rparr>"

definition projection_row ::
  "reconciliation_scope \<Rightarrow> string \<Rightarrow> string \<Rightarrow> reconciliation_position \<Rightarrow> qty \<Rightarrow> position_projection_row" where
  "projection_row x kind symbol position trackedAfter =
     \<lparr>pj_AccountID = sc_AccountID x, pj_Symbol = symbol, pj_Kind = kind, pj_ObservationID = sc_ObservationID x,
      pj_ObservationGeneration = sc_Generation x, pj_ProviderQty = rp_qty position, pj_TrackedQty = trackedAfter,
      pj_PositionKeys = rp_keys position\<rparr>"

text \<open>The maps as they were loaded, and the ids of the episodes.\<close>

record reconciliation_maps =
  mp_current :: "(string \<times> reconciliation_position) list"
  mp_previous :: "(string \<times> reconciliation_projection) list"
  mp_tracked :: "(string \<times> qty) list"

definition reconcile_key ::
  "(string \<Rightarrow> string) \<Rightarrow> reconciliation_scope \<Rightarrow> reconciliation_maps \<Rightarrow> string \<Rightarrow> external_change list \<times> db \<Rightarrow>
     (external_change list \<times> db) result" where
  "reconcile_key newID x m key = (\<lambda>(episodes, s).
     case split_key key of
       Inl e \<Rightarrow> Inl e
     | Inr (kind, symbol) \<Rightarrow>
         (let position = position_at (mp_current m) key;
              trackedBefore = tracked_at (mp_tracked m) key;
              row = projection_row x kind symbol position (tracked_after (rp_qty position) trackedBefore)
          in case external_change_of x (newID key) kind symbol (map_of (mp_previous m) key) position trackedBefore of
               None \<Rightarrow> Inr (episodes, upsert_projection row s)
             | Some episode \<Rightarrow>
                 (case record_change episode (sc_CompletedAt x) s of
                    Inl e \<Rightarrow> Inl e
                  | Inr s \<Rightarrow> Inr (episodes @ [episode], upsert_projection row s))))"


section \<open>Stale work\<close>

definition stale_operation :: "time \<Rightarrow> db \<Rightarrow> operation_row \<Rightarrow> bool" where
  "stale_operation completedAt s w \<longleftrightarrow>
     ow_TS w < completedAt \<and>
     (ow_Status w = ''auto_approved'' \<or> ow_Status w = ''pending_review'' \<or> ow_Status w = ''approved'') \<and> \<not> ow_Shadow w \<and>
     \<not> list_ex (\<lambda>a. at_OperationID a = ow_ID w \<and> (at_State a = ''claimed'' \<or> at_State a = ''unknown'')) (db_Attempts s) \<and>
     \<not> list_ex (\<lambda>o'. o_OperationID o' = ow_ID w \<and> (o_State o' = ''submitted'' \<or> o_State o' = ''partially_filled'')) (db_Orders s)"

definition stale_candidates :: "time \<Rightarrow> db \<Rightarrow> operation_row list" where
  "stale_candidates completedAt s =
     sort_key (\<lambda>w. (ow_TS w, ow_ID w)) (filter (stale_operation completedAt s) (db_Operations s))"

text \<open>The attempts, orders and reservations of an operation that never reached the broker are given up.\<close>

definition give_up :: "time \<Rightarrow> string \<Rightarrow> db \<Rightarrow> db" where
  "give_up now operationID s = s\<lparr>
     db_Attempts := update_rows (\<lambda>a. at_OperationID a = operationID \<and> at_State a = ''pending'')
       (\<lambda>a. a\<lparr>at_State := ''failed'', at_LastError := ''external broker state changed'', at_ResolvedAt := now\<rparr>) (db_Attempts s),
     db_Orders := update_rows (\<lambda>o'. o_OperationID o' = operationID \<and> o_State o' = ''new'' \<and> o_BrokerOrderID o' = [])
       (\<lambda>o'. o'\<lparr>o_State := ''rejected'', o_UpdatedAt := now\<rparr>) (db_Orders s),
     db_CloseReservations := update_rows (\<lambda>r. cr_OperationID r = operationID \<and> cr_State r = ''held'')
       (\<lambda>r. r\<lparr>cr_State := ''released'', cr_RemainingQty := 0,
          cr_ReleasedAt := (case cr_ReleasedAt r of None \<Rightarrow> Some now | Some t \<Rightarrow> Some t)\<rparr>) (db_CloseReservations s),
     db_OpenReservations := update_rows (\<lambda>r. rs_OperationID r = operationID \<and> rs_ResourceState r = ''held'')
       (\<lambda>r. r\<lparr>rs_ResourceState := ''released'', rs_RemainingRisk := 0, rs_RemainingCash := 0,
          rs_SettledAt := (case rs_SettledAt r of None \<Rightarrow> Some now | Some t \<Rightarrow> Some t)\<rparr>) (db_OpenReservations s)\<rparr>"

definition invalidate_operation :: "time \<Rightarrow> reconciliation_scope \<Rightarrow> operation_row \<Rightarrow> string list \<times> db \<Rightarrow> string list \<times> db" where
  "invalidate_operation now x w = (\<lambda>(invalidated, s).
     if list_ex (\<lambda>i. iv_OperationID i = ow_ID w) (db_Invalidations s) then (invalidated, s)
     else (let s = s\<lparr>db_Invalidations := db_Invalidations s @ [\<lparr>iv_OperationID = ow_ID w,
                   iv_BrokerObservationID = sc_ObservationID x, iv_ObservationGeneration = sc_Generation x,
                   iv_Reason = ''external_broker_state_changed''\<rparr>]\<rparr>;
               s = give_up now (ow_ID w) s;
               nextStatus = (if ow_Status w = ''pending_review'' then ''expired''
                 else operationStatusAfterFailedAttempt s (ow_ID w));
               s = insert_event ''operation_stale_broker_state''
                 [(''operation_id'', PText (ow_ID w)), (''observation_id'', PText (sc_ObservationID x)),
                  (''observation_generation'', PInt (sc_Generation x)), (''reason'', PText ''external_broker_state_changed'')]
                 (set_operation_status (ow_ID w) nextStatus s)
           in (invalidated @ [ow_ID w], s)))"

definition invalidateStaleBrokerWork :: "time \<Rightarrow> reconciliation_scope \<Rightarrow> db \<Rightarrow> string list \<times> db" where
  "invalidateStaleBrokerWork now x s =
     fold (invalidate_operation now x) (stale_candidates (sc_CompletedAt x) s) ([], s)"


section \<open>The transaction\<close>

definition upsert_head :: "reconciliation_scope \<Rightarrow> db \<Rightarrow> db" where
  "upsert_head x s = (let r = \<lparr>rh_AccountID = sc_AccountID x, rh_ObservationID = sc_ObservationID x, rh_Generation = sc_Generation x\<rparr>
     in s\<lparr>db_ReconciliationHeads :=
       (if list_ex (\<lambda>h. rh_AccountID h = sc_AccountID x) (db_ReconciliationHeads s)
        then update_rows (\<lambda>h. rh_AccountID h = sc_AccountID x \<and> rh_Generation h < sc_Generation x) (\<lambda>_. r) (db_ReconciliationHeads s)
        else db_ReconciliationHeads s @ [r])\<rparr>)"

definition reconciled_event :: "reconciliation_scope \<Rightarrow> external_change list \<Rightarrow> string list \<Rightarrow> db \<Rightarrow> db" where
  "reconciled_event x episodes invalidated = insert_event ''broker_observation_reconciled''
     [(''observation_id'', PText (sc_ObservationID x)), (''generation'', PInt (sc_Generation x)),
      (''account_id'', PText (sc_AccountID x)), (''external_change_count'', PInt (int (length episodes))),
      (''invalidated_operation_count'', PInt (int (length invalidated)))]"

definition reconcile_changes ::
  "(string \<Rightarrow> string) \<Rightarrow> time \<Rightarrow> reconciliation_scope \<Rightarrow> reconciliation_maps \<Rightarrow> string list \<Rightarrow> db \<Rightarrow>
     (external_change list \<times> string list \<times> db) result" where
  "reconcile_changes newID now x m keys s =
     (case fold_res (reconcile_key newID x m) keys ([], s) of
        Inl e \<Rightarrow> Inl e
      | Inr (episodes, s) \<Rightarrow>
          (let (invalidated, s) = (if episodes \<noteq> [] then invalidateStaleBrokerWork now x s else ([], s))
           in Inr (episodes, invalidated, reconciled_event x episodes invalidated (upsert_head x s))))"

definition reconciliation_result :: "reconciliation_scope \<Rightarrow> broker_reconciliation_result" where
  "reconciliation_result x = \<lparr>rr_ObservationID = sc_ObservationID x, rr_ObservationGeneration = sc_Generation x,
     rr_Applied = False, rr_Deferred = False, rr_DeferredReason = [], rr_Episodes = [], rr_InvalidatedOperationIDs = []\<rparr>"

definition deferred :: "string \<Rightarrow> reconciliation_scope \<Rightarrow> broker_reconciliation_result" where
  "deferred reason x = (reconciliation_result x)\<lparr>rr_Deferred := True, rr_DeferredReason := reason\<rparr>"

definition reconcile_head ::
  "observation_codec \<Rightarrow> (string \<Rightarrow> string) \<Rightarrow> int64 \<Rightarrow> time \<Rightarrow> reconciliation_scope \<Rightarrow> int64 \<Rightarrow> db \<Rightarrow>
     (broker_reconciliation_result \<times> db) result" where
  "reconcile_head c newID localGeneration now x boundGeneration s =
     (if db_GateActive s \<noteq> None \<or> db_GateUnknown s \<noteq> None then Inr (deferred ''live_execution_unresolved'' x, s)
      else case loadReconciliationPositions c (sc_ObservationID x) s of
        Inl e \<Rightarrow> Inl e
      | Inr (current, currentOrders) \<Rightarrow>
          if hasUnappliedAlpheusOrderEffect currentOrders s
          then Inr (deferred ''alpheus_order_effect_not_yet_applied'' x, s)
          else (case loadTrackedExposureQuantities s of
              Inl e \<Rightarrow> Inl e
            | Inr tracked \<Rightarrow>
                (let m = \<lparr>mp_current = current, mp_previous = loadReconciliationProjections (sc_AccountID x) s,
                       mp_tracked = tracked\<rparr>;
                     keys = reconciliationKeys current (mp_previous m) tracked
                 in if \<not> list_all (\<lambda>key. is_ok (split_key key)) keys
                    then Inl (Errorf ''invalid reconciliation economic key'' [])
                    else if localGeneration \<noteq> boundGeneration
                    then Inr (deferred ''local_order_changed_after_observation'' x, s)
                    else (case reconcile_changes newID now x m keys s of
                        Inl e \<Rightarrow> Inl e
                      | Inr (episodes, invalidated, s) \<Rightarrow>
                          Inr ((reconciliation_result x)\<lparr>rr_Applied := True, rr_Episodes := episodes,
                             rr_InvalidatedOperationIDs := invalidated\<rparr>, s)))))"

text \<open>The observation of the account's head.\<close>

definition head_observation :: "string \<Rightarrow> db \<Rightarrow> observation_row result" where
  "head_observation accountID s =
     (case one_row (\<lambda>h. oh_AccountID h = accountID) (db_ObservationHeads s) of
        Inl e \<Rightarrow> Inl e
      | Inr h \<Rightarrow> one_row (\<lambda>o'. bo_ID o' = oh_ObservationID h) (db_Observations s))"

definition ReconcileBrokerObservation ::
  "observation_codec \<Rightarrow> (string \<Rightarrow> string) \<Rightarrow> bool \<Rightarrow> int64 \<Rightarrow> time \<Rightarrow> string \<Rightarrow> db \<Rightarrow>
     (broker_reconciliation_result \<times> db) result" where
  "ReconcileBrokerObservation c newID locked localGeneration now observationID s =
     (if trim_space observationID = [] then Inl (Errorf ''broker observation id is required'' [])
      else case one_row (\<lambda>o'. bo_ID o' = observationID) (db_Observations s) of
        Inl e \<Rightarrow> Inl (Wrapf e ''load broker observation for reconciliation: %w'')
      | Inr requested \<Rightarrow>
          if \<not> locked
          then Inr (deferred ''reconciliation_busy'' \<lparr>sc_AccountID = bo_AccountID requested, sc_ObservationID = observationID,
                 sc_Generation = bo_Generation requested, sc_CompletedAt = bo_CompletedAt requested\<rparr>, s)
          else (case head_observation (bo_AccountID requested) s of
              Inl e \<Rightarrow> Inl (Wrapf e ''load broker observation head for reconciliation: %w'')
            | Inr b \<Rightarrow>
                (let x = \<lparr>sc_AccountID = bo_AccountID requested, sc_ObservationID = bo_ID b, sc_Generation = bo_Generation b,
                       sc_CompletedAt = bo_CompletedAt b\<rparr>
                 in if bo_Status b \<noteq> ''complete'' then Inl (Errorf ''broker reconciliation requires a complete observation'' [])
                    else case find (\<lambda>h. rh_AccountID h = bo_AccountID requested) (db_ReconciliationHeads s) of
                      Some h \<Rightarrow> if rh_Generation h \<ge> bo_Generation b then Inr (reconciliation_result x, s)
                          else reconcile_head c newID localGeneration now x (bo_LocalStateGeneration b) s
                    | None \<Rightarrow> reconcile_head c newID localGeneration now x (bo_LocalStateGeneration b) s)))"

section \<open>The reduction of the lots\<close>

lemma external_lot_ok: "external_lot e t q l = Inr r \<longleftrightarrow> close_lot e t q l = Inr r"
  by (simp add: external_lot_def close_lot_def Let_def case_sum_Inr_iff split: if_split)

lemma external_lots_ok: "external_lots e t fs q T A = Inr r \<longleftrightarrow> close_lots e t fs q T A = Inr r"
  by (induction e t fs q T A rule: external_lots.induct) (auto simp: case_sum_Inr_iff external_lot_ok)

text \<open>The lots are read as a close of an order with the same symbol and kind reads them.\<close>

lemma live_fifo_lots:
  "live_fifo symbol kind lots = fifo_lots (sample_order\<lparr>o_Ledger := ''live'', o_Symbol := symbol, o_Kind := kind\<rparr>) lots"
  by (simp add: live_fifo_def fifo_lots_def)

lemma reduction_effect:
  assumes run: "applyExternalExposureReduction e t s = Inr s'" and ok: "ledger_ok s"
    and q: "0 \<le> ex_AdjustedTrackedQty e" "in_int64 (ex_AdjustedTrackedQty e)"
  obtains lots reds where "s' = s\<lparr>db_Lots := lots, db_ExternalReductions := reds\<rparr>" "ledger_ok s'"
    "\<And>k. class_open k lots = class_open k (db_Lots s) -
       (if k = (''live'', ex_Symbol e, ex_Kind e) then ex_AdjustedTrackedQty e else 0)"
    "\<And>k. class_risk k lots \<le> class_risk k (db_Lots s)"
proof -
  let ?o = "sample_order\<lparr>o_Ledger := ''live'', o_Symbol := ex_Symbol e, o_Kind := ex_Kind e\<rparr>"
  let ?fs = "live_fifo (ex_Symbol e) (ex_Kind e) (db_Lots s)"
  obtain lots reds where loop: "close_lots (ex_ID e) t ?fs (ex_AdjustedTrackedQty e) (db_Lots s) (db_ExternalReductions s)
      = Inr (lots, reds, 0)" and s': "s' = s\<lparr>db_Lots := lots, db_ExternalReductions := reds\<rparr>"
    using run by (auto simp: applyExternalExposureReduction_def case_sum_Inr_iff external_lots_ok split: if_splits)
  have lo: "lots_ok (db_ExternalReductions s @ db_Allocations s) (db_Lots s)"
    using ok lots_ok_swap by (simp add: ledger_ok_def)
  have fs: "set ?fs \<subseteq> set (db_Lots s)" "distinct (map xl_OpenFillID ?fs)"
    "\<And>l. l \<in> set ?fs \<Longrightarrow> xl_ClosedQty l < xl_OpenedQty l \<and> lot_class l = (''live'', ex_Symbol e, ex_Kind e)"
    using lo fifo_lots_distinct[of "db_Lots s" ?o]
    by (auto simp: live_fifo_lots fifo_lots_set lots_ok_def order_key_def)
  obtain T' A' m where c: "close_lots (ex_ID e) t ?fs (ex_AdjustedTrackedQty e) (db_Lots s) (db_ExternalReductions s) = Inr (T', A', m)"
    "lots_ok (A' @ db_Allocations s) T'"
    "\<forall>k'. class_open k' T' = class_open k' (db_Lots s) - (if k' = (''live'', ex_Symbol e, ex_Kind e) then ex_AdjustedTrackedQty e - m else 0)"
    "\<forall>k'. class_risk k' T' \<le> class_risk k' (db_Lots s)"
    using close_lots_ok[OF lo fs q, of "ex_ID e" t] by blast
  have eq: "T' = lots" "A' = reds" "m = 0" using c(1) loop by simp_all
  have "ledger_ok s'" using ok c(2) lots_ok_swap by (simp add: ledger_ok_def s' eq)
  then show thesis by (rule that[OF s']) (use c(3)[rule_format] c(4)[rule_format] eq in simp_all)
qed

section \<open>What the ledger tracks\<close>

lemma key_inject:
  assumes "CHR 0x00 \<notin> set kind" "CHR 0x00 \<notin> set kind'"
  shows "reconciliationEconomicKey kind symbol = reconciliationEconomicKey kind' symbol' \<longleftrightarrow> kind = kind' \<and> symbol = symbol'"
proof -
  have "takeWhile (\<lambda>c. c \<noteq> CHR 0x00) (k @ CHR 0x00 # y) = k" if "CHR 0x00 \<notin> set k" for k y
    using that by (subst takeWhile_append2) auto
  then show ?thesis using assms unfolding reconciliationEconomicKey_def by (metis append_same_eq same_append_eq list.inject)
qed

lemma split_economic:
  assumes "CHR 0x00 \<notin> set kind"
  shows "split_key (reconciliationEconomicKey kind symbol) = Inr (kind, symbol)"
proof -
  have "takeWhile (\<lambda>c. c \<noteq> CHR 0x00) (kind @ CHR 0x00 # symbol) = kind"
    "dropWhile (\<lambda>c. c \<noteq> CHR 0x00) (kind @ CHR 0x00 # symbol) = CHR 0x00 # symbol"
    using assms by (subst takeWhile_append2 dropWhile_append2; auto)+
  then show ?thesis by (simp add: split_key_def reconciliationEconomicKey_def)
qed

text \<open>Text columns of Postgres hold no NUL byte.\<close>

definition plain_kinds :: "db \<Rightarrow> bool" where
  "plain_kinds s \<longleftrightarrow> list_all (\<lambda>l. CHR 0x00 \<notin> set (xl_Kind l)) (db_Lots s)"

lemma map_of_keyed: "map_of (map (\<lambda>k. (k, f k)) ks) k = (if k \<in> set ks then Some (f k) else None)"
  by (induction ks) auto

lemma total_none: "(\<And>r. r \<in> set rows \<Longrightarrow> \<not> P r) \<Longrightarrow> total v (filter P rows) = 0"
  by (simp add: filter_False)

lemma total_filter_skip:
  assumes "\<And>r. r \<in> set rows \<Longrightarrow> P r \<Longrightarrow> \<not> Q r \<Longrightarrow> v r = 0" "\<And>r. Q r \<Longrightarrow> P r"
  shows "total v (filter P rows) = total v (filter Q rows)"
  using assms(1) assms(2) by (induction rows) auto

lemma tracked_class:
  assumes ok: "ledger_ok s" "plain_kinds s" and kind: "CHR 0x00 \<notin> set kind"
    and load: "loadTrackedExposureQuantities s = Inr tracked"
  shows "tracked_at tracked (reconciliationEconomicKey kind symbol) = class_open (''live'', symbol, kind) (db_Lots s)"
    and "in_int64 (tracked_at tracked (reconciliationEconomicKey kind symbol))"
proof -
  let ?key = "reconciliationEconomicKey kind symbol"
  have sums: "tracked = tracked_sums s" "list_all (\<lambda>(_, q). in_int64 q) tracked"
    using load by (auto simp: loadTrackedExposureQuantities_def split: if_splits)
  have "tracked_at tracked ?key = total open_qty (filter (\<lambda>l. lot_key l = ?key) (live_open_lots s))"
    unfolding sums(1) tracked_at_def tracked_sums_def map_of_keyed
    by (cases "?key \<in> lot_key ` set (live_open_lots s)")
       (simp_all add: open_qty_def[abs_def], subst total_none, metis imageI, simp)
  also have "\<dots> = total open_qty (filter (\<lambda>l. lot_class l = (''live'', symbol, kind) \<and> xl_ClosedQty l < xl_OpenedQty l) (db_Lots s))"
  proof -
    have "lot_key l = ?key \<longleftrightarrow> xl_Kind l = kind \<and> xl_Symbol l = symbol" if "l \<in> set (db_Lots s)" for l
      using ok(2) that kind by (simp add: lot_key_def key_inject plain_kinds_def list_all_iff)
    then have "filter (\<lambda>l. lot_key l = ?key) (live_open_lots s) =
      filter (\<lambda>l. lot_class l = (''live'', symbol, kind) \<and> xl_ClosedQty l < xl_OpenedQty l) (db_Lots s)"
      by (auto simp: live_open_lots_def lot_class_def intro!: filter_cong)
    then show ?thesis by simp
  qed
  also have "\<dots> = class_open (''live'', symbol, kind) (db_Lots s)"
    unfolding class_open_def
    by (rule sym, rule total_filter_skip)
       (use ok(1) in \<open>auto simp: ledger_ok_def lots_ok_def list_all_iff lot_ok_def open_qty_def not_less\<close>)
  finally show "tracked_at tracked ?key = class_open (''live'', symbol, kind) (db_Lots s)" .
  show "in_int64 (tracked_at tracked ?key)"
    using sums(2) by (auto simp: tracked_at_def list_all_iff in_int64_0 split: option.split dest!: map_of_SomeD)
qed

lemma class_open_nonneg: "ledger_ok s \<Longrightarrow> 0 \<le> class_open k (db_Lots s)"
  unfolding class_open_def
  by (rule total_nonneg) (auto simp: ledger_ok_def lots_ok_def list_all_iff lot_ok_def open_qty_def)

section \<open>The effect on the ledger\<close>

lemma split_key_Inr:
  assumes "split_key key = Inr (kind, symbol)"
  shows "key = reconciliationEconomicKey kind symbol" "CHR 0x00 \<notin> set kind"
proof -
  obtain c rest where d: "dropWhile (\<lambda>c. c \<noteq> CHR 0x00) key = c # rest" and k: "kind = takeWhile (\<lambda>c. c \<noteq> CHR 0x00) key" "symbol = rest"
    using assms by (auto simp: split_key_def split: list.split_asm)
  have "c = CHR 0x00" using hd_dropWhile[of "\<lambda>c. c \<noteq> CHR 0x00" key] d by simp
  then show "key = reconciliationEconomicKey kind symbol"
    using takeWhile_dropWhile_id[of "\<lambda>c. c \<noteq> CHR 0x00" key] d k by (simp add: reconciliationEconomicKey_def)
  show "CHR 0x00 \<notin> set kind" unfolding k(1) by (auto dest: set_takeWhileD)
qed

lemma update_all:
  "list_all (\<lambda>(_, p). P p) ps \<Longrightarrow> P v \<Longrightarrow> list_all (\<lambda>(_, p). P p) (AList.update k v ps)"
  by (induction ps) auto

lemma load_position_int64:
  assumes "load_position c i ps = Inr ps'" "list_all (\<lambda>(_, p). in_int64 (rp_qty p)) ps"
  shows "list_all (\<lambda>(_, p). in_int64 (rp_qty p)) ps'"
  using assms by (auto simp: load_position_def Let_def case_sum_Inr_iff AddQty_iff split: option.splits if_splits intro!: update_all)

lemma load_items_int64:
  "load_items c is (ps, os) = Inr (ps', os') \<Longrightarrow> list_all (\<lambda>(_, p). in_int64 (rp_qty p)) ps \<Longrightarrow> list_all (\<lambda>(_, p). in_int64 (rp_qty p)) ps'"
proof (induction "is" arbitrary: ps os)
  case (Cons i "is")
  then show ?case
    by (auto simp: case_sum_Inr_iff split: if_splits option.splits dest: load_position_int64)
qed simp

lemma position_int64:
  assumes "loadReconciliationPositions c i s = Inr (current, orders)"
  shows "in_int64 (rp_qty (position_at current key))"
proof -
  obtain ps where ps: "load_items c (reconciled_items i s) ([], []) = Inr (ps, orders)"
    "current = map (\<lambda>(key, p). (key, p\<lparr>rp_keys := sort (rp_keys p)\<rparr>)) ps"
    using assms by (auto simp: loadReconciliationPositions_def case_sum_Inr_iff split: if_splits)
  have "list_all (\<lambda>(_, p). in_int64 (rp_qty p)) ps" using load_items_int64[OF ps(1)] by simp
  then have "\<forall>(_, p)\<in>set current. in_int64 (rp_qty p)" by (auto simp: ps(2) list_all_iff)
  then show ?thesis
    by (auto simp: position_at_def no_position_def in_int64_0 split: option.split dest!: map_of_SomeD)
qed

lemma tracked_after_min: "0 \<le> t \<Longrightarrow> tracked_after p t = min t (max 0 p)"
  by (auto simp: tracked_after_def)

text \<open>The tables the loop over the keys writes.\<close>

definition key_frame :: "db \<Rightarrow> db \<Rightarrow> bool" where
  "key_frame s s' \<longleftrightarrow> s' = s\<lparr>db_Lots := db_Lots s', db_ExternalReductions := db_ExternalReductions s',
     db_ExternalChanges := db_ExternalChanges s', db_Projections := db_Projections s', db_Events := db_Events s'\<rparr>"

lemma key_frame_refl: "key_frame s s"
  by (simp add: key_frame_def)

lemma key_frame_trans:
  assumes "key_frame s t" "key_frame t u"
  shows "key_frame s u"
proof -
  have "u = (s\<lparr>db_Lots := db_Lots t, db_ExternalReductions := db_ExternalReductions t,
     db_ExternalChanges := db_ExternalChanges t, db_Projections := db_Projections t, db_Events := db_Events t\<rparr>)\<lparr>db_Lots := db_Lots u,
     db_ExternalReductions := db_ExternalReductions u, db_ExternalChanges := db_ExternalChanges u,
     db_Projections := db_Projections u, db_Events := db_Events u\<rparr>"
    using assms unfolding key_frame_def by metis
  then show ?thesis unfolding key_frame_def by simp
qed

lemma change_fields:
  assumes "external_change_of x i kind symbol prior p t = Some e"
  shows "ex_Symbol e = symbol" "ex_Kind e = kind" "ex_AdjustedTrackedQty e = wrap64 (t - tracked_after (rp_qty p) t)"
  using assms by (auto simp: external_change_of_def Let_def split: if_splits)

lemma no_change:
  "external_change_of x i kind symbol prior p t = None \<Longrightarrow> \<not> 0 < wrap64 (t - tracked_after (rp_qty p) t)"
  by (auto simp: external_change_of_def Let_def split: if_splits)

lemma record_change_effect:
  assumes run: "record_change e t s = Inr s'" and ok: "ledger_ok s"
    and q: "0 \<le> ex_AdjustedTrackedQty e" "in_int64 (ex_AdjustedTrackedQty e)"
  shows "ledger_ok s' \<and> key_frame s s' \<and>
    (\<forall>k. class_open k (db_Lots s') = class_open k (db_Lots s) -
       (if k = (''live'', ex_Symbol e, ex_Kind e) then ex_AdjustedTrackedQty e else 0)) \<and>
    (\<forall>k. class_risk k (db_Lots s') \<le> class_risk k (db_Lots s))"
proof (cases "0 < ex_AdjustedTrackedQty e")
  case True
  let ?s = "insertBrokerExternalChangeEpisode e s"
  have ok': "ledger_ok ?s" using ok by (simp add: ledger_ok_def insertBrokerExternalChangeEpisode_def)
  obtain s1 where r: "applyExternalExposureReduction e t ?s = Inr s1"
    and s': "s' = insert_event ''broker_external_change_reconciled'' (change_payload e) s1"
    using run True by (auto simp: record_change_def Let_def case_sum_Inr_iff)
  obtain lots reds where s1: "s1 = ?s\<lparr>db_Lots := lots, db_ExternalReductions := reds\<rparr>" and ok1: "ledger_ok s1"
    and eff: "\<And>k. class_open k lots = class_open k (db_Lots ?s) - (if k = (''live'', ex_Symbol e, ex_Kind e) then ex_AdjustedTrackedQty e else 0)"
      "\<And>k. class_risk k lots \<le> class_risk k (db_Lots ?s)"
    by (rule reduction_effect[OF r ok' q]) (rule that)
  have "ledger_ok s'" using ok1 by (simp add: s' ledger_ok_def insert_event_def)
  moreover have "key_frame s s'"
    by (simp add: key_frame_def s' s1 insert_event_def insertBrokerExternalChangeEpisode_def)
  ultimately show ?thesis using eff by (simp add: s' s1 insert_event_def insertBrokerExternalChangeEpisode_def del: split_paired_All)
next
  case False
  then have "s' = insert_event ''broker_external_change_reconciled'' (change_payload e) (insertBrokerExternalChangeEpisode e s)"
    using run by (simp add: record_change_def Let_def)
  then show ?thesis using ok q False
    by (simp add: insert_event_def insertBrokerExternalChangeEpisode_def ledger_ok_def key_frame_def del: split_paired_All)
qed

lemma upsert_projection_effect:
  "key_frame s (upsert_projection r s)" "db_Lots (upsert_projection r s) = db_Lots s"
  "ledger_ok (upsert_projection r s) = ledger_ok s"
  by (simp_all add: key_frame_def upsert_projection_def ledger_ok_def)

lemma reconcile_key_effect:
  assumes run: "reconcile_key newID x m key (es, s) = Inr (es', s')" and ok: "ledger_ok s"
    and key: "split_key key = Inr (kind, symbol)"
    and t: "tracked_at (mp_tracked m) key = class_open (''live'', symbol, kind) (db_Lots s)" "in_int64 (tracked_at (mp_tracked m) key)"
    and k0: "k0 = (''live'', symbol, kind)"
  shows "ledger_ok s' \<and> key_frame s s' \<and>
    (\<forall>k. class_open k (db_Lots s') = (if k = k0 then min (class_open k (db_Lots s)) (max 0 (rp_qty (position_at (mp_current m) key)))
       else class_open k (db_Lots s))) \<and>
    (\<forall>k. class_risk k (db_Lots s') \<le> class_risk k (db_Lots s)) \<and> (\<exists>fs. es' = es @ fs)"
proof -
  let ?t = "tracked_at (mp_tracked m) key" and ?p = "position_at (mp_current m) key"
  let ?row = "projection_row x kind symbol ?p (tracked_after (rp_qty ?p) ?t)"
  have t0: "0 \<le> ?t" using class_open_nonneg[OF ok] t(1) by simp
  have "0 \<le> ?t - tracked_after (rp_qty ?p) ?t" "?t - tracked_after (rp_qty ?p) ?t \<le> ?t"
    using tracked_after_min[OF t0] t0 by auto
  then have adj: "wrap64 (?t - tracked_after (rp_qty ?p) ?t) = ?t - min ?t (max 0 (rp_qty ?p))"
    "in_int64 (?t - min ?t (max 0 (rp_qty ?p)))"
    using in_int64_between[OF in_int64_0 t(2)] tracked_after_min[OF t0] by (simp_all add: wrap64_id)
  show ?thesis
  proof (cases "external_change_of x (newID key) kind symbol (map_of (mp_previous m) key) ?p ?t")
    case None
    then have s': "s' = upsert_projection ?row s" "es' = es" using run key by (simp_all add: reconcile_key_def Let_def)
    have "?t = min ?t (max 0 (rp_qty ?p))" using no_change[OF None] adj(1) t0 by auto
    then show ?thesis using t(1) k0 ok by (auto simp: s' upsert_projection_effect)
  next
    case (Some e)
    obtain s1 where r: "record_change e (sc_CompletedAt x) s = Inr s1" and s': "s' = upsert_projection ?row s1" "es' = es @ [e]"
      using run key Some by (auto simp: reconcile_key_def Let_def case_sum_Inr_iff)
    note f = change_fields[OF Some]
    have q: "0 \<le> ex_AdjustedTrackedQty e" "in_int64 (ex_AdjustedTrackedQty e)"
      using adj t0 by (simp_all add: f(3))
    note eff = record_change_effect[OF r ok q]
    have "key_frame s s'" using key_frame_trans eff upsert_projection_effect(1) s'(1) by blast
    then show ?thesis
      using eff adj(1) t(1) k0 by (simp add: s' upsert_projection_effect f del: split_paired_All)
  qed
qed

lemma reconcile_keys_effect:
  assumes "fold_res (reconcile_key newID x m) keys (es, s) = Inr (es', s')" "distinct keys" "ledger_ok s"
    and "\<And>key kind symbol. key \<in> set keys \<Longrightarrow> split_key key = Inr (kind, symbol) \<Longrightarrow>
      tracked_at (mp_tracked m) key = class_open (''live'', symbol, kind) (db_Lots s) \<and> in_int64 (tracked_at (mp_tracked m) key)"
  shows "ledger_ok s' \<and> key_frame s s' \<and> (\<exists>fs. es' = es @ fs) \<and>
    (\<forall>kind symbol. CHR 0x00 \<notin> set kind \<longrightarrow> class_open (''live'', symbol, kind) (db_Lots s') =
      (let key = reconciliationEconomicKey kind symbol; q = class_open (''live'', symbol, kind) (db_Lots s)
       in if key \<in> set keys then min q (max 0 (rp_qty (position_at (mp_current m) key))) else q)) \<and>
    (\<forall>k. fst k \<noteq> ''live'' \<longrightarrow> class_open k (db_Lots s') = class_open k (db_Lots s)) \<and>
    (\<forall>k. class_risk k (db_Lots s') \<le> class_risk k (db_Lots s))"
  using assms
proof (induction keys arbitrary: es s)
  case Nil
  then show ?case by (simp add: key_frame_refl Let_def)
next
  case (Cons key keys)
  obtain es1 s1 where r: "reconcile_key newID x m key (es, s) = Inr (es1, s1)"
    and rest: "fold_res (reconcile_key newID x m) keys (es1, s1) = Inr (es', s')"
    using Cons.prems(1) by (auto simp: case_sum_Inr_iff)
  obtain kind symbol where k: "split_key key = Inr (kind, symbol)"
    using r by (auto simp: reconcile_key_def split: sum.split_asm)
  have t: "tracked_at (mp_tracked m) key = class_open (''live'', symbol, kind) (db_Lots s) \<and> in_int64 (tracked_at (mp_tracked m) key)"
    by (rule Cons.prems(4)[OF _ k]) simp
  have eff: "ledger_ok s1 \<and> key_frame s s1 \<and>
    (\<forall>k. class_open k (db_Lots s1) = (if k = (''live'', symbol, kind) then min (class_open k (db_Lots s)) (max 0 (rp_qty (position_at (mp_current m) key)))
       else class_open k (db_Lots s))) \<and>
    (\<forall>k. class_risk k (db_Lots s1) \<le> class_risk k (db_Lots s)) \<and> (\<exists>fs. es1 = es @ fs)"
    by (rule reconcile_key_effect[OF r Cons.prems(3) k conjunct1[OF t] conjunct2[OF t] refl])
  note open1 = conjunct1[OF conjunct2[OF conjunct2[OF eff]], rule_format]
  have other: "class_open (''live'', y, z) (db_Lots s1) = class_open (''live'', y, z) (db_Lots s)"
    if "split_key key' = Inr (z, y)" "key' \<noteq> key" for key' y z
    using split_key_Inr(1)[OF k] split_key_Inr(1)[OF that(1)] that(2) open1 by auto
  have IH: "ledger_ok s' \<and> key_frame s1 s' \<and> (\<exists>fs. es' = es1 @ fs) \<and>
    (\<forall>kind symbol. CHR 0x00 \<notin> set kind \<longrightarrow> class_open (''live'', symbol, kind) (db_Lots s') =
      (let key = reconciliationEconomicKey kind symbol; q = class_open (''live'', symbol, kind) (db_Lots s1)
       in if key \<in> set keys then min q (max 0 (rp_qty (position_at (mp_current m) key))) else q)) \<and>
    (\<forall>k. fst k \<noteq> ''live'' \<longrightarrow> class_open k (db_Lots s') = class_open k (db_Lots s1)) \<and>
    (\<forall>k. class_risk k (db_Lots s') \<le> class_risk k (db_Lots s1))"
  proof (rule Cons.IH[OF rest])
    fix key' z y
    assume key': "key' \<in> set keys" "split_key key' = Inr (z, y)"
    then have "key' \<noteq> key" using Cons.prems(2) by auto
    then show "tracked_at (mp_tracked m) key' = class_open (''live'', y, z) (db_Lots s1) \<and> in_int64 (tracked_at (mp_tracked m) key')"
      unfolding other[OF key'(2) \<open>key' \<noteq> key\<close>] by (intro Cons.prems(4)[OF _ key'(2)]) (simp add: key'(1))
  qed (use Cons.prems(2) eff in auto)
  have opened: "class_open (''live'', y, z) (db_Lots s') =
      (let key' = reconciliationEconomicKey z y; q = class_open (''live'', y, z) (db_Lots s)
       in if key' \<in> set (key # keys) then min q (max 0 (rp_qty (position_at (mp_current m) key'))) else q)"
    if z: "CHR 0x00 \<notin> set z" for y z
  proof (cases "reconciliationEconomicKey z y = key")
    case True
    then have "z = kind" "y = symbol" using key_inject[OF z split_key_Inr(2)[OF k]] split_key_Inr(1)[OF k] by auto
    moreover have "key \<notin> set keys" using Cons.prems(2) by simp
    ultimately show ?thesis using IH z True open1[of "(''live'', symbol, kind)"] by (simp add: Let_def)
  next
    case False
    then have "class_open (''live'', y, z) (db_Lots s1) = class_open (''live'', y, z) (db_Lots s)"
      using other[OF split_economic[OF z]] by blast
    then show ?thesis using IH z False by (simp add: Let_def)
  qed
  have shadow: "class_open k (db_Lots s') = class_open k (db_Lots s)" if "fst k \<noteq> ''live''" for k
    using IH that open1[of k] by (cases k) auto
  have risk: "class_risk k (db_Lots s') \<le> class_risk k (db_Lots s)" for k
    using IH eff order_trans by blast
  have frame: "key_frame s s'" using IH eff key_frame_trans by blast
  have "\<exists>fs. es' = es @ fs" using IH eff by auto
  then show ?case using IH opened shadow risk frame by blast
qed


section \<open>What stale work leaves alone\<close>

definition invalidation_frame :: "db \<Rightarrow> db \<Rightarrow> bool" where
  "invalidation_frame s s' \<longleftrightarrow> (\<exists>iv as os crs ors ops evs. s' = s\<lparr>db_Invalidations := iv, db_Attempts := as, db_Orders := os,
     db_CloseReservations := crs, db_OpenReservations := ors, db_Operations := ops, db_Events := evs\<rparr> \<and>
     (list_all reservation_ok (db_OpenReservations s) \<longrightarrow> list_all reservation_ok ors))"

lemma invalidation_frame_refl: "invalidation_frame s s"
  unfolding invalidation_frame_def
  by (rule exI[of _ "db_Invalidations s"], rule exI[of _ "db_Attempts s"], rule exI[of _ "db_Orders s"],
      rule exI[of _ "db_CloseReservations s"], rule exI[of _ "db_OpenReservations s"], rule exI[of _ "db_Operations s"],
      rule exI[of _ "db_Events s"]) simp

lemma invalidation_frame_trans: "invalidation_frame s t \<Longrightarrow> invalidation_frame t u \<Longrightarrow> invalidation_frame s u"
  unfolding invalidation_frame_def by (elim exE conjE) fastforce

lemma invalidate_operation_frame:
  assumes "invalidate_operation now x w (is, s) = (is', s')"
  shows "invalidation_frame s s'"
proof (cases "list_ex (\<lambda>i. iv_OperationID i = ow_ID w) (db_Invalidations s)")
  case True
  then show ?thesis using assms invalidation_frame_refl by (simp add: invalidate_operation_def)
next
  case False
  let ?f = "\<lambda>r. r\<lparr>rs_ResourceState := ''released'', rs_RemainingRisk := 0, rs_RemainingCash := 0,
          rs_SettledAt := (case rs_SettledAt r of None \<Rightarrow> Some now | Some t \<Rightarrow> Some t)\<rparr>"
  have "list_all reservation_ok (update_rows (\<lambda>r. rs_OperationID r = ow_ID w \<and> rs_ResourceState r = ''held'') ?f (db_OpenReservations s))"
    if "list_all reservation_ok (db_OpenReservations s)"
    using that by (auto simp: list_all_iff set_update_rows reservation_ok_def)
  then show ?thesis using assms False
    unfolding invalidation_frame_def
    by (intro exI[of _ "db_Invalidations s'"] exI[of _ "db_Attempts s'"] exI[of _ "db_Orders s'"]
          exI[of _ "db_CloseReservations s'"] exI[of _ "db_OpenReservations s'"] exI[of _ "db_Operations s'"] exI[of _ "db_Events s'"])
       (auto simp: invalidate_operation_def give_up_def Let_def set_operation_status_def insert_event_def)
qed

lemma invalidations_frame:
  "fold (invalidate_operation now x) ws (is, s) = (is', s') \<Longrightarrow> invalidation_frame s s'"
proof (induction ws arbitrary: "is" s)
  case (Cons w ws)
  obtain is1 s1 where w: "invalidate_operation now x w (is, s) = (is1, s1)" by (metis surj_pair)
  then show ?case using Cons invalidate_operation_frame[OF w] invalidation_frame_trans by auto
qed (simp add: invalidation_frame_refl)

section \<open>The transaction\<close>

lemma reconcile_head_cases:
  assumes "reconcile_head c newID lg now x bg s = Inr (r, s')"
  shows "(\<not> rr_Applied r \<and> s' = s) \<or>
    (rr_Applied r \<and> rr_ObservationID r = sc_ObservationID x \<and> rr_ObservationGeneration r = sc_Generation x \<and>
     db_GateActive s = None \<and> db_GateUnknown s = None \<and> lg = bg \<and>
     (\<exists>current orders tracked. loadReconciliationPositions c (sc_ObservationID x) s = Inr (current, orders) \<and>
        \<not> hasUnappliedAlpheusOrderEffect orders s \<and> loadTrackedExposureQuantities s = Inr tracked \<and>
        reconcile_changes newID now x \<lparr>mp_current = current, mp_previous = loadReconciliationProjections (sc_AccountID x) s,
            mp_tracked = tracked\<rparr> (reconciliationKeys current (loadReconciliationProjections (sc_AccountID x) s) tracked) s
          = Inr (rr_Episodes r, rr_InvalidatedOperationIDs r, s')))"
proof (cases "db_GateActive s \<noteq> None \<or> db_GateUnknown s \<noteq> None")
  case True
  then show ?thesis using assms by (auto simp: reconcile_head_def deferred_def reconciliation_result_def)
next
  case False
  obtain current orders where p: "loadReconciliationPositions c (sc_ObservationID x) s = Inr (current, orders)"
    using assms False by (auto simp: reconcile_head_def split: sum.split_asm)
  show ?thesis
  proof (cases "hasUnappliedAlpheusOrderEffect orders s")
    case True
    then show ?thesis using assms False p by (auto simp: reconcile_head_def deferred_def reconciliation_result_def)
  next
    case quiet: False
    obtain tracked where t: "loadTrackedExposureQuantities s = Inr tracked"
      using assms False p quiet by (auto simp: reconcile_head_def split: sum.split_asm)
    let ?prev = "loadReconciliationProjections (sc_AccountID x) s"
    let ?m = "\<lparr>mp_current = current, mp_previous = ?prev, mp_tracked = tracked\<rparr>"
    let ?keys = "reconciliationKeys current ?prev tracked"
    have keys: "list_all (\<lambda>key. is_ok (split_key key)) ?keys"
      using assms False p quiet t by (auto simp: reconcile_head_def Let_def split: if_split_asm)
    show ?thesis
    proof (cases "lg = bg")
      case bound: True
      obtain es ids s1 where ch: "reconcile_changes newID now x ?m ?keys s = Inr (es, ids, s1)"
        using assms False p quiet t keys bound by (auto simp: reconcile_head_def Let_def split: sum.split_asm)
      show ?thesis using assms False p quiet t keys bound ch
        by (auto simp: reconcile_head_def Let_def reconciliation_result_def)
    next
      case unbound: False
      then show ?thesis using assms False p quiet t keys
        by (auto simp: reconcile_head_def Let_def deferred_def reconciliation_result_def)
    qed
  qed
qed

definition observation_scope :: "observation_row \<Rightarrow> string \<Rightarrow> reconciliation_scope" where
  "observation_scope b accountID = \<lparr>sc_AccountID = accountID, sc_ObservationID = bo_ID b, sc_Generation = bo_Generation b,
     sc_CompletedAt = bo_CompletedAt b\<rparr>"

definition newer_than_reconciled :: "observation_row \<Rightarrow> string \<Rightarrow> db \<Rightarrow> bool" where
  "newer_than_reconciled b accountID s \<longleftrightarrow>
     (case find (\<lambda>h. rh_AccountID h = accountID) (db_ReconciliationHeads s) of None \<Rightarrow> True | Some h \<Rightarrow> rh_Generation h < bo_Generation b)"

lemma reconcile_cases:
  assumes "ReconcileBrokerObservation c newID locked lg now oid s = Inr (r, s')"
  shows "(\<not> rr_Applied r \<and> s' = s) \<or>
    (\<exists>q b. trim_space oid \<noteq> [] \<and> one_row (\<lambda>o'. bo_ID o' = oid) (db_Observations s) = Inr q \<and> locked \<and> head_observation (bo_AccountID q) s = Inr b \<and>
       bo_Status b = ''complete'' \<and>
       newer_than_reconciled b (bo_AccountID q) s \<and>
       reconcile_head c newID lg now (observation_scope b (bo_AccountID q)) (bo_LocalStateGeneration b) s = Inr (r, s'))"
proof -
  obtain q where q: "one_row (\<lambda>o'. bo_ID o' = oid) (db_Observations s) = Inr q"
    using assms by (auto simp: ReconcileBrokerObservation_def split: if_split_asm sum.split_asm)
  have q': "trim_space oid \<noteq> []" using assms by (auto simp: ReconcileBrokerObservation_def split: if_split_asm)
  show ?thesis
  proof (cases locked)
    case False
    then show ?thesis using assms q
      by (auto simp: ReconcileBrokerObservation_def deferred_def reconciliation_result_def split: if_split_asm)
  next
    case True
    obtain b where b: "head_observation (bo_AccountID q) s = Inr b" "bo_Status b = ''complete''"
      using assms q True by (auto simp: ReconcileBrokerObservation_def Let_def split: if_split_asm sum.split_asm)
    show ?thesis
    proof (cases "find (\<lambda>h. rh_AccountID h = bo_AccountID q) (db_ReconciliationHeads s)")
      case None
      then show ?thesis using assms q q' True b None
        by (auto simp: ReconcileBrokerObservation_def Let_def observation_scope_def newer_than_reconciled_def split: if_split_asm)
    next
      case (Some h)
      show ?thesis
      proof (cases "rh_Generation h \<ge> bo_Generation b")
        case True
        then show ?thesis using assms q \<open>locked\<close> b Some
          by (auto simp: ReconcileBrokerObservation_def Let_def reconciliation_result_def split: if_split_asm)
      next
        case False
        then show ?thesis using assms q q' \<open>locked\<close> b Some
          by (auto simp: ReconcileBrokerObservation_def Let_def observation_scope_def newer_than_reconciled_def split: if_split_asm)
      qed
    qed
  qed
qed

lemma reconciliation_keys: "set (reconciliationKeys current previous tracked) = fst ` set current \<union> fst ` set previous \<union> fst ` set tracked"
  "distinct (reconciliationKeys current previous tracked)"
  by (auto simp: reconciliationKeys_def)

lemma invalidated_frame: "invalidation_frame s (snd (invalidateStaleBrokerWork now x s))"
  unfolding invalidateStaleBrokerWork_def using invalidations_frame by (metis prod.collapse)

lemma key_frame_keeps:
  assumes "key_frame s s'"
  shows "db_Fills s' = db_Fills s" "db_Allocations s' = db_Allocations s" "db_OpenReservations s' = db_OpenReservations s"
    "db_CloseReservations s' = db_CloseReservations s" "db_Attempts s' = db_Attempts s" "db_Orders s' = db_Orders s"
    "db_Operations s' = db_Operations s" "db_Invalidations s' = db_Invalidations s" "db_Observations s' = db_Observations s"
    "db_ObservationHeads s' = db_ObservationHeads s" "db_ReconciliationHeads s' = db_ReconciliationHeads s"
  using assms[unfolded key_frame_def, THEN arg_cong, of db_Fills] assms[unfolded key_frame_def, THEN arg_cong, of db_Allocations]
    assms[unfolded key_frame_def, THEN arg_cong, of db_OpenReservations] assms[unfolded key_frame_def, THEN arg_cong, of db_CloseReservations]
    assms[unfolded key_frame_def, THEN arg_cong, of db_Attempts] assms[unfolded key_frame_def, THEN arg_cong, of db_Orders]
    assms[unfolded key_frame_def, THEN arg_cong, of db_Operations] assms[unfolded key_frame_def, THEN arg_cong, of db_Invalidations]
    assms[unfolded key_frame_def, THEN arg_cong, of db_Observations] assms[unfolded key_frame_def, THEN arg_cong, of db_ObservationHeads]
    assms[unfolded key_frame_def, THEN arg_cong, of db_ReconciliationHeads]
  by simp_all

lemma store_ok_ledger: "ledger_ok s' \<Longrightarrow> key_frame s s' \<Longrightarrow> store_ok s \<Longrightarrow> store_ok s'"
  by (simp add: store_ok_def key_frame_keeps)

lemma reconcile_changes_split:
  assumes "reconcile_changes newID now x m keys s = Inr (es, ids, s')"
  obtains s1 s2 where "fold_res (reconcile_key newID x m) keys ([], s) = Inr (es, s1)"
    "(ids, s2) = (if es \<noteq> [] then invalidateStaleBrokerWork now x s1 else ([], s1))"
    "s' = reconciled_event x es ids (upsert_head x s2)" "invalidation_frame s1 s2"
proof -
  obtain s1 where f: "fold_res (reconcile_key newID x m) keys ([], s) = Inr (es, s1)"
    using assms by (auto simp: reconcile_changes_def Let_def split: sum.split_asm prod.split_asm)
  obtain ids2 s2 where i: "(if es \<noteq> [] then invalidateStaleBrokerWork now x s1 else ([], s1)) = (ids2, s2)" by (metis surj_pair)
  have "invalidation_frame s1 s2"
    using i invalidated_frame[of s1 now x] invalidation_frame_refl by (auto split: if_split_asm)
  moreover have "ids2 = ids" "s' = reconciled_event x es ids (upsert_head x s2)"
    using assms f i by (auto simp: reconcile_changes_def)
  ultimately show thesis using that[OF f] i by metis
qed

lemma reconcile_changes_effect:
  assumes run: "reconcile_changes newID now x m keys s = Inr (es, ids, s')"
    and keys: "distinct keys" "fst ` set (mp_tracked m) \<subseteq> set keys"
    and ok: "store_ok s" "plain_kinds s" and t: "loadTrackedExposureQuantities s = Inr (mp_tracked m)"
  shows "store_ok s' \<and> db_Fills s' = db_Fills s \<and> db_Allocations s' = db_Allocations s \<and>
    (\<forall>kind symbol. CHR 0x00 \<notin> set kind \<longrightarrow> class_open (''live'', symbol, kind) (db_Lots s') =
      min (class_open (''live'', symbol, kind) (db_Lots s)) (max 0 (rp_qty (position_at (mp_current m) (reconciliationEconomicKey kind symbol))))) \<and>
    (\<forall>k. fst k \<noteq> ''live'' \<longrightarrow> class_open k (db_Lots s') = class_open k (db_Lots s)) \<and>
    (\<forall>k. class_risk k (db_Lots s') \<le> class_risk k (db_Lots s))"
proof -
  obtain s1 s2 where f: "fold_res (reconcile_key newID x m) keys ([], s) = Inr (es, s1)"
    and s': "s' = reconciled_event x es ids (upsert_head x s2)" and inv: "invalidation_frame s1 s2"
    by (rule reconcile_changes_split[OF run]) (rule that)
  have lo: "ledger_ok s" using ok(1) by (simp add: store_ok_def)
  have track: "tracked_at (mp_tracked m) key = class_open (''live'', symbol, kind) (db_Lots s) \<and> in_int64 (tracked_at (mp_tracked m) key)"
    if "split_key key = Inr (kind, symbol)" for key kind symbol
    using tracked_class[OF lo ok(2) split_key_Inr(2)[OF that] t] split_key_Inr(1)[OF that] by simp
  note eff = reconcile_keys_effect[OF f keys(1) lo track]
  have st1: "store_ok s1" using store_ok_ledger[OF _ _ ok(1)] eff by blast
  have same: "db_Lots s' = db_Lots s1" "db_Fills s' = db_Fills s1" "db_Allocations s' = db_Allocations s1"
    using inv by (auto simp: s' reconciled_event_def insert_event_def upsert_head_def Let_def invalidation_frame_def)
  have st: "store_ok s'" using st1 inv
    by (auto simp: s' reconciled_event_def insert_event_def upsert_head_def Let_def invalidation_frame_def store_ok_def ledger_ok_def)
  have frame: "db_Fills s1 = db_Fills s" "db_Allocations s1 = db_Allocations s"
    using eff key_frame_keeps by blast+
  have unkeyed: "class_open (''live'', symbol, kind) (db_Lots s) = 0"
    if "CHR 0x00 \<notin> set kind" "reconciliationEconomicKey kind symbol \<notin> set keys" for kind symbol
  proof -
    have "map_of (mp_tracked m) (reconciliationEconomicKey kind symbol) = None"
      using that(2) keys(2) by (auto simp: map_of_eq_None_iff)
    then show ?thesis using tracked_class(1)[OF lo ok(2) that(1) t, of symbol] by (simp add: tracked_at_def)
  qed
  have "class_open (''live'', symbol, kind) (db_Lots s') =
      min (class_open (''live'', symbol, kind) (db_Lots s)) (max 0 (rp_qty (position_at (mp_current m) (reconciliationEconomicKey kind symbol))))"
    if "CHR 0x00 \<notin> set kind" for kind symbol
    using eff that unkeyed[OF that, of symbol] by (simp add: same Let_def)
  then show ?thesis using eff st same frame by simp
qed

section \<open>Work that is given up\<close>

text \<open>Nothing of the operation is with the broker: no attempt that a worker holds or whose outcome is unknown, no working order.\<close>

definition at_rest :: "string \<Rightarrow> db \<Rightarrow> bool" where
  "at_rest i s \<longleftrightarrow>
     list_all (\<lambda>a. \<not> (at_OperationID a = i \<and> (at_State a = ''claimed'' \<or> at_State a = ''unknown''))) (db_Attempts s) \<and>
     list_all (\<lambda>o'. \<not> (o_OperationID o' = i \<and> (o_State o' = ''submitted'' \<or> o_State o' = ''partially_filled''))) (db_Orders s)"

definition released :: "string \<Rightarrow> db \<Rightarrow> bool" where
  "released i s \<longleftrightarrow> at_rest i s \<and>
     list_all (\<lambda>a. \<not> (at_OperationID a = i \<and> at_State a = ''pending'')) (db_Attempts s) \<and>
     list_all (\<lambda>o'. \<not> (o_OperationID o' = i \<and> o_State o' = ''new'' \<and> o_BrokerOrderID o' = [])) (db_Orders s) \<and>
     list_all (\<lambda>r. \<not> (cr_OperationID r = i \<and> cr_State r = ''held'')) (db_CloseReservations s) \<and>
     list_all (\<lambda>r. \<not> (rs_OperationID r = i \<and> rs_ResourceState r = ''held'')) (db_OpenReservations s)"

definition untouched :: "string list \<Rightarrow> db \<Rightarrow> db \<Rightarrow> bool" where
  "untouched ids s s' \<longleftrightarrow>
     filter (\<lambda>a. at_OperationID a \<notin> set ids) (db_Attempts s') = filter (\<lambda>a. at_OperationID a \<notin> set ids) (db_Attempts s) \<and>
     filter (\<lambda>o'. o_OperationID o' \<notin> set ids) (db_Orders s') = filter (\<lambda>o'. o_OperationID o' \<notin> set ids) (db_Orders s)"

lemma filter_update_rows:
  assumes "\<And>r. P r \<Longrightarrow> \<not> Q r" "\<And>r. P r \<Longrightarrow> \<not> Q (f r)"
  shows "filter Q (update_rows P f rows) = filter Q rows"
  using assms by (induction rows) (auto simp: update_rows_def)

lemma untouched_filter:
  "set ids \<subseteq> set ids' \<Longrightarrow> filter (\<lambda>r. g r \<notin> set ids) xs = filter (\<lambda>r. g r \<notin> set ids) ys \<Longrightarrow>
     filter (\<lambda>r. g r \<notin> set ids') xs = filter (\<lambda>r. g r \<notin> set ids') ys"
proof -
  assume a: "set ids \<subseteq> set ids'" "filter (\<lambda>r. g r \<notin> set ids) xs = filter (\<lambda>r. g r \<notin> set ids) ys"
  have "filter (\<lambda>r. g r \<notin> set ids') zs = filter (\<lambda>r. g r \<notin> set ids') (filter (\<lambda>r. g r \<notin> set ids) zs)" for zs
    using a(1) by (auto intro!: filter_cong)
  then show ?thesis using a(2) by metis
qed

lemma untouched_refl: "untouched ids s s"
  by (simp add: untouched_def)

lemma untouched_trans:
  assumes "untouched ids s t" "untouched ids' t u" "set ids \<subseteq> set ids''" "set ids' \<subseteq> set ids''"
  shows "untouched ids'' s u"
  using assms untouched_filter[OF assms(3)] untouched_filter[OF assms(4)] unfolding untouched_def by metis

lemma stale_at_rest: "w \<in> set (stale_candidates t s) \<Longrightarrow> at_rest (ow_ID w) s"
  by (auto simp: stale_candidates_def stale_operation_def at_rest_def list_all_iff list_ex_iff)

lemma invalidate_operation_effect:
  assumes "invalidate_operation now x w (ids, s) = (ids', s')"
  shows "(ids' = ids \<and> s' = s) \<or>
    (ids' = ids @ [ow_ID w] \<and> (at_rest (ow_ID w) s \<longrightarrow> released (ow_ID w) s') \<and> untouched [ow_ID w] s s' \<and>
     (\<forall>i. at_rest i s \<longrightarrow> at_rest i s') \<and> (\<forall>i. released i s \<longrightarrow> released i s') \<and>
     (\<exists>v. db_Invalidations s' = db_Invalidations s @ [v] \<and> iv_OperationID v = ow_ID w \<and> iv_BrokerObservationID v = sc_ObservationID x))"
proof (cases "list_ex (\<lambda>i. iv_OperationID i = ow_ID w) (db_Invalidations s)")
  case True
  then show ?thesis using assms by (simp add: invalidate_operation_def)
next
  case False
  have rows: "db_Attempts s' = db_Attempts (give_up now (ow_ID w) s)" "db_Orders s' = db_Orders (give_up now (ow_ID w) s)"
    "db_CloseReservations s' = db_CloseReservations (give_up now (ow_ID w) s)"
    "db_OpenReservations s' = db_OpenReservations (give_up now (ow_ID w) s)"
    "ids' = ids @ [ow_ID w]"
    "db_Invalidations s' = db_Invalidations s @ [\<lparr>iv_OperationID = ow_ID w, iv_BrokerObservationID = sc_ObservationID x,
       iv_ObservationGeneration = sc_Generation x, iv_Reason = ''external_broker_state_changed''\<rparr>]"
    using assms False
    by (auto simp: invalidate_operation_def Let_def set_operation_status_def insert_event_def give_up_def)
  have rest: "at_rest i s'" if "at_rest i s" for i
    using that unfolding at_rest_def rows by (auto simp: give_up_def list_all_iff set_update_rows)
  have rel: "released (ow_ID w) s'" if "at_rest (ow_ID w) s"
    using rest[OF that] unfolding released_def rows by (auto simp: give_up_def list_all_iff set_update_rows)
  have keep: "released i s'" if "released i s" for i
    using that rest[of i] unfolding released_def rows by (auto simp: give_up_def list_all_iff set_update_rows)
  have un: "untouched [ow_ID w] s s'"
    unfolding untouched_def rows by (auto simp: give_up_def intro!: filter_update_rows)
  show ?thesis using rel rest keep un rows(5,6) by simp
qed

lemma invalidations_effect:
  "fold (invalidate_operation now x) ws (ids, s) = (ids', s') \<Longrightarrow> \<forall>w\<in>set ws. at_rest (ow_ID w) s \<Longrightarrow>
     (\<exists>ks. ids' = ids @ ks \<and> untouched ks s s' \<and> (\<forall>i. released i s \<or> i \<in> set ks \<longrightarrow> released i s') \<and>
        (\<exists>vs. db_Invalidations s' = db_Invalidations s @ vs \<and> map iv_OperationID vs = ks \<and>
           (\<forall>v\<in>set vs. iv_BrokerObservationID v = sc_ObservationID x)))"
proof (induction ws arbitrary: ids s)
  case Nil
  then show ?case by (auto simp: untouched_refl)
next
  case (Cons w ws)
  obtain ids1 s1 where w: "invalidate_operation now x w (ids, s) = (ids1, s1)" by (metis surj_pair)
  have go: "fold (invalidate_operation now x) ws (ids1, s1) = (ids', s')" using Cons.prems(1) w by simp
  have "\<forall>w\<in>set ws. at_rest (ow_ID w) s1" using invalidate_operation_effect[OF w] Cons.prems(2) by auto
  from Cons.IH[OF go this] obtain ks vs where IH: "ids' = ids1 @ ks" "untouched ks s1 s'"
    "\<forall>i. released i s1 \<or> i \<in> set ks \<longrightarrow> released i s'"
    "db_Invalidations s' = db_Invalidations s1 @ vs" "map iv_OperationID vs = ks"
    "\<forall>v\<in>set vs. iv_BrokerObservationID v = sc_ObservationID x" by blast
  from invalidate_operation_effect[OF w] show ?case
  proof (elim disjE conjE exE)
    assume "ids1 = ids" "s1 = s"
    then show ?thesis using IH by blast
  next
    fix v
    assume rel: "at_rest (ow_ID w) s \<longrightarrow> released (ow_ID w) s1" and h: "ids1 = ids @ [ow_ID w]" "untouched [ow_ID w] s s1" "\<forall>i. released i s \<longrightarrow> released i s1"
      "db_Invalidations s1 = db_Invalidations s @ [v]" "iv_OperationID v = ow_ID w" "iv_BrokerObservationID v = sc_ObservationID x"
    have "untouched (ow_ID w # ks) s s'" by (rule untouched_trans[OF h(2) IH(2)]) auto
    moreover have "released (ow_ID w) s1" using rel Cons.prems(2) by simp
    ultimately show ?thesis using h IH
      by (intro exI[of _ "ow_ID w # ks"] conjI exI[of _ "v # vs"]) auto
  qed
qed

lemma record_change_frame: "record_change e t s = Inr s' \<Longrightarrow> key_frame s s'"
  by (auto simp: record_change_def Let_def case_sum_Inr_iff applyExternalExposureReduction_def key_frame_def
      insertBrokerExternalChangeEpisode_def insert_event_def split: if_split_asm prod.split_asm)

lemma reconcile_key_frame: "reconcile_key newID x m key (es, s) = Inr (es', s') \<Longrightarrow> key_frame s s'"
  by (auto simp: reconcile_key_def Let_def case_sum_Inr_iff upsert_projection_effect split: option.split_asm
      dest!: record_change_frame intro: key_frame_trans[OF _ upsert_projection_effect(1)] upsert_projection_effect(1))

lemma reconcile_keys_frame: "fold_res (reconcile_key newID x m) keys (es, s) = Inr (es', s') \<Longrightarrow> key_frame s s'"
proof (induction keys arbitrary: es s)
  case (Cons key keys)
  then show ?case by (auto simp: case_sum_Inr_iff intro: key_frame_trans[OF reconcile_key_frame])
qed (simp add: key_frame_refl)

lemma reconcile_changes_stale:
  assumes run: "reconcile_changes newID now x m keys s = Inr (es, ids, s')"
  shows "(es = [] \<longrightarrow> ids = []) \<and> untouched ids s s' \<and> (\<forall>i\<in>set ids. released i s') \<and>
    (\<forall>i\<in>set ids. \<exists>v\<in>set (db_Invalidations s'). iv_OperationID v = i \<and> iv_BrokerObservationID v = sc_ObservationID x)"
proof -
  obtain s1 s2 where f: "fold_res (reconcile_key newID x m) keys ([], s) = Inr (es, s1)"
    and inv: "(ids, s2) = (if es \<noteq> [] then invalidateStaleBrokerWork now x s1 else ([], s1))"
    and s': "s' = reconciled_event x es ids (upsert_head x s2)"
    by (rule reconcile_changes_split[OF run]) (rule that)
  have "untouched [] s s1" using key_frame_keeps[OF reconcile_keys_frame[OF f]] by (simp add: untouched_def)
  show ?thesis
  proof (cases "es = []")
    case True
    then show ?thesis using inv \<open>untouched [] s s1\<close>
      by (simp add: s' untouched_def reconciled_event_def insert_event_def upsert_head_def Let_def)
  next
    case False
    then have "fold (invalidate_operation now x) (stale_candidates (sc_CompletedAt x) s1) ([], s1) = (ids, s2)"
      using inv by (simp add: invalidateStaleBrokerWork_def)
    from invalidations_effect[OF this] stale_at_rest obtain ks vs where e: "ids = ks" "untouched ks s1 s2" "\<forall>i. released i s1 \<or> i \<in> set ks \<longrightarrow> released i s2"
      "db_Invalidations s2 = db_Invalidations s1 @ vs" "map iv_OperationID vs = ks"
      "\<forall>v\<in>set vs. iv_BrokerObservationID v = sc_ObservationID x" by auto
    have un: "untouched ids s s2" by (rule untouched_trans[OF \<open>untouched [] s s1\<close> e(2)]) (simp_all add: e(1))
    have rel: "released i s2" if "i \<in> set ids" for i using e that by blast
    have ev: "\<exists>v\<in>set (db_Invalidations s2). iv_OperationID v = i \<and> iv_BrokerObservationID v = sc_ObservationID x" if "i \<in> set ids" for i
      using e(4,6) e(5)[symmetric] that unfolding e(1) by auto
    show ?thesis using un rel ev False
      by (simp add: s' untouched_def released_def at_rest_def reconciled_event_def insert_event_def upsert_head_def Let_def)
  qed
qed

section \<open>The properties\<close>

lemma reconcile_applied:
  assumes "ReconcileBrokerObservation c newID locked lg now oid s = Inr (r, s')" "rr_Applied r"
  obtains q b current orders tracked where
    "trim_space oid \<noteq> []" "one_row (\<lambda>o'. bo_ID o' = oid) (db_Observations s) = Inr q" "locked" "head_observation (bo_AccountID q) s = Inr b"
    "bo_Status b = ''complete''" "newer_than_reconciled b (bo_AccountID q) s" "bo_ID b = rr_ObservationID r"
    "bo_LocalStateGeneration b = lg" "db_GateActive s = None" "db_GateUnknown s = None"
    "loadReconciliationPositions c (rr_ObservationID r) s = Inr (current, orders)" "\<not> hasUnappliedAlpheusOrderEffect orders s"
    "loadTrackedExposureQuantities s = Inr tracked"
    "reconcile_changes newID now (observation_scope b (bo_AccountID q))
       \<lparr>mp_current = current, mp_previous = loadReconciliationProjections (bo_AccountID q) s, mp_tracked = tracked\<rparr>
       (reconciliationKeys current (loadReconciliationProjections (bo_AccountID q) s) tracked) s
       = Inr (rr_Episodes r, rr_InvalidatedOperationIDs r, s')"
proof -
  from reconcile_cases[OF assms(1)] assms(2) obtain q b where h: "trim_space oid \<noteq> []" "one_row (\<lambda>o'. bo_ID o' = oid) (db_Observations s) = Inr q" "locked"
    "head_observation (bo_AccountID q) s = Inr b" "bo_Status b = ''complete''" "newer_than_reconciled b (bo_AccountID q) s"
    and run: "reconcile_head c newID lg now (observation_scope b (bo_AccountID q)) (bo_LocalStateGeneration b) s = Inr (r, s')"
    by blast
  have x: "sc_ObservationID (observation_scope b (bo_AccountID q)) = bo_ID b" "sc_AccountID (observation_scope b (bo_AccountID q)) = bo_AccountID q"
    by (simp_all add: observation_scope_def)
  from reconcile_head_cases[OF run, unfolded x] assms(2) show thesis
    by (elim disjE conjE exE) (blast, rule that[OF h], simp_all)
qed

text \<open>
  C14: After a reconciliation that is applied the ledger tracks, of every class of live positions, the smaller of what
  it tracked before and what the account holds by the observation (nothing, when the account is short or holds none);
  the other ledgers, the fills and their allocations stay, no class has more risk, and the invariant of the tables holds.
\<close>

theorem reconciled_exposure:
  assumes "ReconcileBrokerObservation c newID locked lg now oid s = Inr (r, s')" "rr_Applied r"
    and "store_ok s" "plain_kinds s"
  shows "\<exists>current orders. loadReconciliationPositions c (rr_ObservationID r) s = Inr (current, orders) \<and>
    store_ok s' \<and> db_Fills s' = db_Fills s \<and> db_Allocations s' = db_Allocations s \<and>
    (\<forall>kind symbol. CHR 0x00 \<in> set kind \<or> class_open (''live'', symbol, kind) (db_Lots s') =
      min (class_open (''live'', symbol, kind) (db_Lots s)) (max 0 (rp_qty (position_at current (reconciliationEconomicKey kind symbol))))) \<and>
    (\<forall>k. fst k = ''live'' \<or> class_open k (db_Lots s') = class_open k (db_Lots s)) \<and>
    (\<forall>k. class_risk k (db_Lots s') \<le> class_risk k (db_Lots s))"
proof (rule reconcile_applied[OF assms(1,2)])
  fix q b current orders tracked
  assume p: "loadReconciliationPositions c (rr_ObservationID r) s = Inr (current, orders)"
    and t: "loadTrackedExposureQuantities s = Inr tracked"
    and run: "reconcile_changes newID now (observation_scope b (bo_AccountID q))
       \<lparr>mp_current = current, mp_previous = loadReconciliationProjections (bo_AccountID q) s, mp_tracked = tracked\<rparr>
       (reconciliationKeys current (loadReconciliationProjections (bo_AccountID q) s) tracked) s
       = Inr (rr_Episodes r, rr_InvalidatedOperationIDs r, s')"
  from reconcile_changes_effect[OF run _ _ assms(3,4)] t p show ?thesis
    by (auto simp: reconciliation_keys)
qed

text \<open>
  C15: A reconciliation is applied only while nothing of the Kernel can be in flight: no attempt in the gate, none of
  unknown outcome, no working order that the snapshot does not show with its fills, no local change since the
  observation began, which must be complete and newer than the last one reconciled. Otherwise nothing is written.
\<close>

theorem reconciled_when_quiet:
  assumes "ReconcileBrokerObservation c newID locked lg now oid s = Inr (r, s')"
  shows "if rr_Applied r
    then db_GateActive s = None \<and> db_GateUnknown s = None \<and> locked \<and>
      (\<exists>q b current orders. one_row (\<lambda>o'. bo_ID o' = oid) (db_Observations s) = Inr q \<and>
         head_observation (bo_AccountID q) s = Inr b \<and>
         rr_ObservationID r = bo_ID b \<and> bo_Status b = ''complete'' \<and> bo_LocalStateGeneration b = lg \<and>
         newer_than_reconciled b (bo_AccountID q) s \<and>
         loadReconciliationPositions c (bo_ID b) s = Inr (current, orders) \<and> \<not> hasUnappliedAlpheusOrderEffect orders s)
    else s' = s"
proof (cases "rr_Applied r")
  case True
  show ?thesis by (rule reconcile_applied[OF assms True]) (use True in auto)
next
  case False
  with reconcile_cases[OF assms] show ?thesis using reconcile_head_cases by fastforce
qed

text \<open>
  C16: A change made by others invalidates the work decided before it: the operations the reconciliation names have no
  attempt that is pending, claimed or of unknown outcome, no order that is working or still to be sent, and hold no shares and
  no cash; each has its evidence, the attempts and orders of all others are as they were, and without a change no operation is
  named.
\<close>

theorem stale_work_released:
  assumes "ReconcileBrokerObservation c newID locked lg now oid s = Inr (r, s')" "rr_Applied r"
  shows "(rr_Episodes r \<noteq> [] \<or> rr_InvalidatedOperationIDs r = []) \<and> untouched (rr_InvalidatedOperationIDs r) s s' \<and>
    list_all (\<lambda>i. released i s' \<and>
       list_ex (\<lambda>v. iv_OperationID v = i \<and> iv_BrokerObservationID v = rr_ObservationID r) (db_Invalidations s'))
      (rr_InvalidatedOperationIDs r)"
proof (rule reconcile_applied[OF assms])
  fix q b current orders tracked
  assume i: "bo_ID b = rr_ObservationID r"
    and run: "reconcile_changes newID now (observation_scope b (bo_AccountID q))
       \<lparr>mp_current = current, mp_previous = loadReconciliationProjections (bo_AccountID q) s, mp_tracked = tracked\<rparr>
       (reconciliationKeys current (loadReconciliationProjections (bo_AccountID q) s) tracked) s
       = Inr (rr_Episodes r, rr_InvalidatedOperationIDs r, s')"
  from reconcile_changes_stale[OF run] i show ?thesis
    by (auto simp: list_all_iff list_ex_iff observation_scope_def)
qed

text \<open>The head is moved, so that a second call for the account has nothing to do.\<close>

lemma find_map_upd: "find P xs = Some h \<Longrightarrow> Q h \<Longrightarrow> P r \<Longrightarrow> find P (update_rows (\<lambda>x. P x \<and> Q x) (\<lambda>_. r) xs) = Some r"
  by (induction xs) (auto simp: update_rows_def split: if_split_asm)

lemma find_appended: "find P xs = None \<Longrightarrow> P r \<Longrightarrow> find P (xs @ [r]) = Some r"
  by (induction xs) (auto split: if_split_asm)

lemma upsert_head_found:
  assumes "newer_than_reconciled b a s" "x = observation_scope b a"
  shows "find (\<lambda>h. rh_AccountID h = a) (db_ReconciliationHeads (upsert_head x s)) =
    Some \<lparr>rh_AccountID = a, rh_ObservationID = bo_ID b, rh_Generation = bo_Generation b\<rparr>"
proof (cases "find (\<lambda>h. rh_AccountID h = a) (db_ReconciliationHeads s)")
  case None
  then have "\<not> list_ex (\<lambda>h. rh_AccountID h = a) (db_ReconciliationHeads s)"
    by (auto simp: list_ex_iff find_None_iff)
  then show ?thesis using None by (simp add: upsert_head_def Let_def assms(2) observation_scope_def find_appended)
next
  case (Some h)
  then have "list_ex (\<lambda>h. rh_AccountID h = a) (db_ReconciliationHeads s)" "rh_Generation h < bo_Generation b"
    using assms(1) by (auto simp: list_ex_iff newer_than_reconciled_def dest: find_SomeD)
  then show ?thesis using Some
    by (simp add: upsert_head_def Let_def assms(2) observation_scope_def find_map_upd)
qed

lemma reconcile_changes_head:
  assumes run: "reconcile_changes newID now x m keys s = Inr (es, ids, s')"
    and new: "newer_than_reconciled b a s" "x = observation_scope b a"
  shows "db_Observations s' = db_Observations s" "db_ObservationHeads s' = db_ObservationHeads s"
    "find (\<lambda>h. rh_AccountID h = a) (db_ReconciliationHeads s') =
       Some \<lparr>rh_AccountID = a, rh_ObservationID = bo_ID b, rh_Generation = bo_Generation b\<rparr>"
proof -
  obtain s1 s2 where f: "fold_res (reconcile_key newID x m) keys ([], s) = Inr (es, s1)"
    and s': "s' = reconciled_event x es ids (upsert_head x s2)" and inv: "invalidation_frame s1 s2"
    by (rule reconcile_changes_split[OF run]) (rule that)
  note k = key_frame_keeps[OF reconcile_keys_frame[OF f]]
  have i: "db_Observations s2 = db_Observations s1" "db_ObservationHeads s2 = db_ObservationHeads s1"
    "db_ReconciliationHeads s2 = db_ReconciliationHeads s1"
    using inv by (auto simp: invalidation_frame_def)
  have "newer_than_reconciled b a s2" using new(1) i k by (simp add: newer_than_reconciled_def)
  from upsert_head_found[OF this new(2)]
  show "find (\<lambda>h. rh_AccountID h = a) (db_ReconciliationHeads s') =
       Some \<lparr>rh_AccountID = a, rh_ObservationID = bo_ID b, rh_Generation = bo_Generation b\<rparr>"
    by (simp add: s' reconciled_event_def insert_event_def)
  show "db_Observations s' = db_Observations s" "db_ObservationHeads s' = db_ObservationHeads s"
    using i k by (simp_all add: s' reconciled_event_def insert_event_def upsert_head_def Let_def)
qed

text \<open>
  A reconciliation that was applied is final: called again for the same observation, with whatever has become of the
  codec, the clock and the local counter, it finds the head it left behind and writes nothing.
\<close>

lemma reconciled_once:
  assumes "ReconcileBrokerObservation c newID locked lg now oid s = Inr (r, s')" "rr_Applied r"
  shows "\<exists>r'. ReconcileBrokerObservation c' newID' True lg' now' oid s' = Inr (r', s') \<and> \<not> rr_Applied r' \<and>
    \<not> rr_Deferred r' \<and> rr_ObservationID r' = rr_ObservationID r"
proof (rule reconcile_applied[OF assms])
  fix q b current orders tracked
  assume h: "head_observation (bo_AccountID q) s = Inr b" "bo_Status b = ''complete''" "newer_than_reconciled b (bo_AccountID q) s"
    "bo_ID b = rr_ObservationID r"
    and q: "trim_space oid \<noteq> []" "one_row (\<lambda>o'. bo_ID o' = oid) (db_Observations s) = Inr q"
    and run: "reconcile_changes newID now (observation_scope b (bo_AccountID q))
       \<lparr>mp_current = current, mp_previous = loadReconciliationProjections (bo_AccountID q) s, mp_tracked = tracked\<rparr>
       (reconciliationKeys current (loadReconciliationProjections (bo_AccountID q) s) tracked) s
       = Inr (rr_Episodes r, rr_InvalidatedOperationIDs r, s')"
  note e = reconcile_changes_head[OF run h(3) refl]
  have "head_observation (bo_AccountID q) s' = Inr b" using h(1) unfolding head_observation_def e .
  then show ?thesis using h(2,4) q
    by (simp add: ReconcileBrokerObservation_def e reconciliation_result_def Let_def)
qed

definition sample_account_row :: observation_row where
  "sample_account_row = \<lparr>bo_ID = ''obs'', bo_Status = ''complete'', bo_Purpose = ''scheduled'', bo_AccountID = ''acct'',
     bo_Generation = 2, bo_ManifestDigest = [], bo_Source = ''rh'', bo_StartedAt = 4, bo_CompletedAt = 7,
     bo_LocalStateGeneration = 5\<rparr>"

definition sample_family_row :: "string \<Rightarrow> observation_family_row" where
  "sample_family_row f = \<lparr>of_ObservationID = ''obs'', of_Family = f, of_Status = ''success'', of_ErrorCode = None,
     of_CompletedAt = 6, of_ItemCount = 1, of_Digest = []\<rparr>"

definition sample_item_row :: "string \<Rightarrow> string \<Rightarrow> observation_item_row" where
  "sample_item_row f k = \<lparr>oi_ObservationID = ''obs'', oi_Family = f, oi_ObjectKey = k, oi_ObservedAt = 5,
     oi_Digest = [], oi_Canonical = k\<rparr>"

text \<open>The account holds one share of five; a second operation waits with a pending attempt.\<close>

definition sample_sold :: db where
  "sample_sold = sample_db\<lparr>db_Observations := [sample_account_row],
     db_ObservationHeads := [\<lparr>oh_AccountID = ''acct'', oh_ObservationID = ''obs'', oh_Generation = 2, oh_UpdatedAt = 7\<rparr>],
     db_ObservationFamilies := map sample_family_row [''account'', ''positions'', ''orders''],
     db_ObservationItems := [sample_item_row ''positions'' ''SPY'', sample_item_row ''orders'' ''b1''],
     db_Operations := [sample_operation, sample_operation\<lparr>ow_ID := ''op2''\<rparr>],
     db_Attempts := [blank_attempt\<lparr>at_ID := ''a2'', at_OperationID := ''op2'', at_State := ''pending''\<rparr>]\<rparr>"

definition sample_reconciled :: "(broker_reconciliation_result \<times> db) result" where
  "sample_reconciled = ReconcileBrokerObservation sample_observations (\<lambda>k. k) True 5 8 ''obs'' sample_sold"

lemma sample_reconciles:
  "\<exists>r s'. ReconcileBrokerObservation sample_observations (\<lambda>k. k) True 5 8 ''obs'' sample_sold = Inr (r, s') \<and> rr_Applied r \<and>
     rr_InvalidatedOperationIDs r = [''op2''] \<and> rr_ObservationID r = ''obs'' \<and> class_open (''live'', ''SPY'', ''equity'') (db_Lots s') = 1000000"
proof -
  have "case sample_reconciled of Inl _ \<Rightarrow> False | Inr (r, s') \<Rightarrow> rr_Applied r \<and>
     rr_InvalidatedOperationIDs r = [''op2''] \<and> rr_ObservationID r = ''obs'' \<and> class_open (''live'', ''SPY'', ''equity'') (db_Lots s') = 1000000"
    by code_simp
  then show ?thesis by (auto simp: sample_reconciled_def split: sum.split_asm)
qed

lemma sample_sold_ok: "store_ok sample_sold" "plain_kinds sample_sold"
  by code_simp+

theorem reconciled_exposure_witness:
  "\<exists>r s' current orders. ReconcileBrokerObservation sample_observations (\<lambda>k. k) True 5 8 ''obs'' sample_sold = Inr (r, s') \<and>
     class_open (''live'', ''SPY'', ''equity'') (db_Lots s') = 1000000 \<and> store_ok s' \<and>
     loadReconciliationPositions sample_observations (rr_ObservationID r) sample_sold = Inr (current, orders)"
proof -
  obtain r s' where r: "ReconcileBrokerObservation sample_observations (\<lambda>k. k) True 5 8 ''obs'' sample_sold = Inr (r, s')" "rr_Applied r"
    "class_open (''live'', ''SPY'', ''equity'') (db_Lots s') = 1000000"
    using sample_reconciles by metis
  show ?thesis using reconciled_exposure[OF r(1,2) sample_sold_ok] r by blast
qed

theorem reconciled_when_quiet_witness:
  "\<exists>r s'. ReconcileBrokerObservation sample_observations (\<lambda>k. k) True 5 8 ''obs'' sample_sold = Inr (r, s') \<and>
     rr_Applied r \<and> db_GateActive sample_sold = None"
proof -
  obtain r s' where r: "ReconcileBrokerObservation sample_observations (\<lambda>k. k) True 5 8 ''obs'' sample_sold = Inr (r, s')" "rr_Applied r"
    using sample_reconciles by metis
  show ?thesis using reconciled_when_quiet[OF r(1)] r by auto
qed

theorem stale_work_released_witness:
  "\<exists>r s'. ReconcileBrokerObservation sample_observations (\<lambda>k. k) True 5 8 ''obs'' sample_sold = Inr (r, s') \<and>
     rr_InvalidatedOperationIDs r = [''op2''] \<and> released ''op2'' s' \<and> \<not> released ''op2'' sample_sold"
proof -
  obtain r s' where r: "ReconcileBrokerObservation sample_observations (\<lambda>k. k) True 5 8 ''obs'' sample_sold = Inr (r, s')" "rr_Applied r"
    "rr_InvalidatedOperationIDs r = [''op2'']"
    using sample_reconciles by metis
  have "\<not> released ''op2'' sample_sold" by (simp add: released_def sample_sold_def blank_attempt_def)
  then show ?thesis using stale_work_released[OF r(1,2)] r by auto
qed

end
