(* ===== verification/Live_System.thy ===== *)
theory Live_System
  imports Live_Moves Reconciliation
begin

text \<open>
  The live side of the Kernel as one system: every operation on attempts of
  \<^verbatim>\<open>entitlements.go\<close>, \<^verbatim>\<open>repricing.go\<close>, \<^verbatim>\<open>orders.go\<close>, \<^verbatim>\<open>pre_effect.go\<close> and \<^verbatim>\<open>broker_reconciliation.go\<close>, the
  observations of \<^verbatim>\<open>broker_observations.go\<close> and the halt of \<^verbatim>\<open>store.go\<close> is a step, with any arguments, and so is every
  transaction that adds one new pending attempt, as admission and review do, or leaves the attempts, the gate, the bindings and the manifests
  alone, as everything else does; a run is any interleaving of any number of workers. The claims of
  live attempts go through the gate and sends carry a manifest, as the live kernel calls them.
\<close>

section \<open>One step of the live kernel\<close>

text \<open>
  Every operation of the ledger that touches an attempt, the gate, a binding or a manifest, with any arguments, clocks and reports.
  A new attempt has an id of its own and starts pending, as every caller creates it; the states
  given to a resolution are the ones the callers use. Not a step is the one-time activation of the exact accounting (\<^verbatim>\<open>activation.go\<close>), which
  runs when the broker is first connected and gives attempts of before the reservation it rebuilds for them.
\<close>

inductive live_step :: "codec \<Rightarrow> policy_codec \<Rightarrow> (string \<Rightarrow> int64 \<times> int64 \<times> int64) \<Rightarrow> (go_error \<Rightarrow> string) \<Rightarrow> db \<Rightarrow> db \<Rightarrow> bool"
  for c :: codec and pc :: policy_codec and limits errtext where
  insert: "InsertExecutionAttempt limits n a s = Inr s' \<Longrightarrow> at_ID a \<noteq> [] \<Longrightarrow> at_State a = ''pending'' \<Longrightarrow>
    live_step c pc limits errtext s s'"
| limit: "UpdatePendingAttemptLimit n i p s = (r, s') \<Longrightarrow> live_step c pc limits errtext s s'"
| claim: "claimAttempt errtext n i w st tok l True s = (r, s') \<Longrightarrow> claim_source st \<Longrightarrow> live_step c pc limits errtext s s'"
| prepare: "PrepareAttemptProviderIntent c i tok acc can fp s = Inr (r, s') \<Longrightarrow> live_step c pc limits errtext s s'"
| manifest: "RecordPreEffectManifest c n newID1 m s = Inr (r, s') \<Longrightarrow> live_step c pc limits errtext s s'"
| send: "MarkAttemptSentWithManifest c clock i tok replay g ev mid s = Inr (r, s') \<Longrightarrow> live_step c pc limits errtext s s'"
| resolve: "ResolveAttempt errtext n newID i tok res s = (r, s') \<Longrightarrow> resolution_state (ar_State res) \<Longrightarrow>
    live_step c pc limits errtext s s'"
| fail: "FailPendingAttempt n i reason s = Inr (r, s') \<Longrightarrow> live_step c pc limits errtext s s'"
| report: "ApplyOrderUpdate errtext n newID u s = (r, s') \<Longrightarrow> live_step c pc limits errtext s s'"
| cancel: "StageRepriceCancel limits n newID1 oid s = Inr (r, s') \<Longrightarrow> newID1 \<noteq> [] \<Longrightarrow> live_step c pc limits errtext s s'"
| finalize: "FinalizeRepriceCancel pc limits errtext n newID i tok u rp reason s = (r, s') \<Longrightarrow>
    live_step c pc limits errtext s s'"
| observe: "RecordBrokerObservation oc generation newID1 input s = Inr (b, s') \<Longrightarrow> live_step c pc limits errtext s s'"
| refusal: "kind = ''execution_pre_effect_refused'' \<or> kind = ''account_binding_violation'' \<Longrightarrow>
    live_step c pc limits errtext s (insert_event kind payload s)"
| halt: "ActivateGlobalHalt n reason subj mode s = Inr (t, s') \<Longrightarrow> live_step c pc limits errtext s s'"
| resume: "ResumeGlobalHalt n reason subj mode s = Inr (t, s') \<Longrightarrow> live_step c pc limits errtext s s'"
| reconcile: "ReconcileBrokerObservation oc episodeID locked lg n oid s = Inr (rr, s') \<Longrightarrow> live_step c pc limits errtext s s'"
| admit: "at_ID a \<notin> at_ID ` set (db_Attempts s) \<Longrightarrow> new_attempt a \<Longrightarrow>
    live_view s' = live_view (s\<lparr>db_Attempts := db_Attempts s @ [a]\<rparr>) \<Longrightarrow> live_step c pc limits errtext s s'"
| outside: "live_view s' = live_view s \<Longrightarrow> live_step c pc limits errtext s s'"

abbreviation live_steps where
  "live_steps c pc limits errtext \<equiv> (live_step c pc limits errtext)\<^sup>*\<^sup>*"

text \<open>Every step is a sequence of moves, which is all the theorems below need to know of it.\<close>

lemma observe_move:
  assumes "RecordBrokerObservation oc generation newID1 input s = Inr (b, s')"
  shows "move s s'"
proof -
  obtain inp fs st m cp s1 where run: "fold_res (record_family oc (bi_ID inp) (bi_AccountID inp)) fs (insert_observation oc inp generation st m s) = Inr s1"
    and s': "s' = recorded_event b cp (if cp then raise_head oc b s1 else s1)"
    by (rule record_observation_cases[OF assms])
  have item: "live_view u = live_view t" if "record_item oc i a k n t = Inr u" for i a k n t u
    using that by (auto simp: record_item_def Let_def case_sum_Inr_iff live_view_def split: if_split_asm)
  have "live_view u = live_view t" if "record_family oc i a f t = Inr u" for i a f t u
  proof (rule fold_res_invariant[where P = "\<lambda>x. live_view x = live_view t"])
    show "fold_res (record_item oc i a (nf_name f)) (nf_items f) (t\<lparr>db_ObservationFamilies := db_ObservationFamilies t @
          [\<lparr>of_ObservationID = i, of_Family = nf_name f, of_Status = nf_status f,
            of_ErrorCode = (if nf_errorCode f = [] then None else Some (nf_errorCode f)),
            of_CompletedAt = oc_timestamptz oc (nf_completedAt f), of_ItemCount = int (length (nf_items f)), of_Digest = nf_digest f\<rparr>]\<rparr>) = Inr u"
      using that by (simp only: record_family_def)
    show "live_view w = live_view t" if "live_view v = live_view t" "record_item oc i a (nf_name f) x v = Inr w" for x v w
      using item[OF that(2)] that(1) by simp
  qed (simp add: live_view_def)
  then have "live_view s1 = live_view s"
    by (intro fold_res_invariant[where P = "\<lambda>x. live_view x = live_view s", OF _ _ run])
       (simp_all add: insert_observation_def live_view_def)
  then have "live_view s' = live_view s"
    by (simp add: s' recorded_event_def raise_head_def Let_def live_view_def insert_event_def)
  then show ?thesis by (rule move.view)
qed

lemma refusal_move: "move s (insert_event kind payload s)"
  by (rule move.view) simp

text \<open>Giving up the pending attempts of an operation, one after the other.\<close>

lemma update_rows_each:
  assumes f: "\<And>a. P a \<Longrightarrow> \<not> P (f a)" "\<And>a. k (f a) = k a"
  shows "fold (\<lambda>i. update_rows (\<lambda>a. k a = i \<and> P a) f) ids rows = map (\<lambda>a. if k a \<in> set ids \<and> P a then f a else a) rows"
proof (induction ids arbitrary: rows)
  case (Cons i ids)
  then show ?case by (auto simp: update_rows_def f)
qed simp

lemma give_up_moves:
  fixes s :: db
  assumes cond: "\<And>a. P a \<Longrightarrow> at_State a = ''pending''"
    and f: "f = (\<lambda>a. a\<lparr>at_State := ''failed'', at_LastError := reason, at_ResolvedAt := n\<rparr>)"
  shows "move\<^sup>*\<^sup>* s (s\<lparr>db_Attempts := update_rows P f (db_Attempts s)\<rparr>)"
proof -
  have changes: "plain_changes i (\<lambda>a. at_ID a = i \<and> P a) f" for i
    unfolding f by (simp add: plain_changes_def cond plain_step.abandon)
  have step: "move t (t\<lparr>db_Attempts := update_rows (\<lambda>a. at_ID a = i \<and> P a) f (db_Attempts t)\<rparr>)" for i and t :: db
    by (rule move.change[OF changes]) simp
  have all: "move\<^sup>*\<^sup>* t (t\<lparr>db_Attempts := fold (\<lambda>i. update_rows (\<lambda>a. at_ID a = i \<and> P a) f) ids (db_Attempts t)\<rparr>)" for ids and t :: db
  proof (induction ids arbitrary: t)
    case (Cons i ids)
    let ?t = "t\<lparr>db_Attempts := update_rows (\<lambda>a. at_ID a = i \<and> P a) f (db_Attempts t)\<rparr>"
    show ?case using converse_rtranclp_into_rtranclp[OF step[of t i] Cons.IH[of ?t]] by simp
  qed simp
  have "fold (\<lambda>i. update_rows (\<lambda>a. at_ID a = i \<and> P a) f) (map at_ID (db_Attempts s)) (db_Attempts s) =
      update_rows P f (db_Attempts s)"
  proof (subst update_rows_each)
    show "\<not> P (f a)" for a
    proof
      assume "P (f a)"
      then have "at_State (f a) = ''pending''" by (rule cond)
      then show False by (simp add: f)
    qed
    show "at_ID (f a) = at_ID a" for a by (simp add: f)
    show "map (\<lambda>a. if at_ID a \<in> set (map at_ID (db_Attempts s)) \<and> P a then f a else a) (db_Attempts s) =
        update_rows P f (db_Attempts s)"
      unfolding update_rows_def by (rule map_cong) simp_all
  qed
  then show ?thesis using all[of s "map at_ID (db_Attempts s)"] by simp
qed

lemma key_frame_live: "key_frame s s' \<Longrightarrow> live_view s' = live_view s"
  unfolding key_frame_def by (drule arg_cong[where f = live_view]) (simp add: live_view_def)

lemma invalidation_moves:
  assumes "invalidate_operation n x w (ids, s) = (ids', s')"
  shows "move\<^sup>*\<^sup>* s s'"
proof (cases "list_ex (\<lambda>i. iv_OperationID i = ow_ID w) (db_Invalidations s)")
  case True
  then show ?thesis using assms by (simp add: invalidate_operation_def)
next
  case False
  let ?P = "\<lambda>a. at_OperationID a = ow_ID w \<and> at_State a = ''pending''"
  let ?f = "\<lambda>a. a\<lparr>at_State := ''failed'', at_LastError := ''external broker state changed'', at_ResolvedAt := n\<rparr>"
  let ?t = "s\<lparr>db_Attempts := update_rows ?P ?f (db_Attempts s)\<rparr>"
  have "move\<^sup>*\<^sup>* s ?t" by (rule give_up_moves[OF _ refl]) simp
  moreover have "live_view s' = live_view ?t"
    using assms False by (auto simp: invalidate_operation_def Let_def give_up_def set_operation_status_def insert_event_def live_view_def)
  ultimately show ?thesis using move.view by (meson rtranclp.rtrancl_into_rtrancl)
qed

lemma invalidations_moves: "fold (invalidate_operation n x) ws (ids, s) = (ids', s') \<Longrightarrow> move\<^sup>*\<^sup>* s s'"
proof (induction ws arbitrary: ids s)
  case (Cons w ws)
  obtain ids1 s1 where w: "invalidate_operation n x w (ids, s) = (ids1, s1)" by (metis surj_pair)
  then show ?case using Cons.IH[of ids1 s1] Cons.prems invalidation_moves[OF w] by (auto intro: rtranclp_trans)
qed simp

lemma reconcile_moves:
  assumes run: "ReconcileBrokerObservation oc episodeID locked lg n oid s = Inr (r, s')"
  shows "move\<^sup>*\<^sup>* s s'"
proof (cases "rr_Applied r")
  case False
  then have "s' = s" using reconcile_cases[OF run] reconcile_head_cases by fastforce
  then show ?thesis by simp
next
  case True
  show ?thesis
  proof (rule reconcile_applied[OF run True], erule reconcile_changes_split)
    fix q b and current :: "(string \<times> reconciliation_position) list" and tracked s1 s2
    let ?x = "observation_scope b (bo_AccountID q)"
    assume f: "fold_res (reconcile_key episodeID ?x \<lparr>mp_current = current,
          mp_previous = loadReconciliationProjections (bo_AccountID q) s, mp_tracked = tracked\<rparr>)
        (reconciliationKeys current (loadReconciliationProjections (bo_AccountID q) s) tracked) ([], s) = Inr (rr_Episodes r, s1)"
      and i: "(rr_InvalidatedOperationIDs r, s2) = (if rr_Episodes r \<noteq> [] then invalidateStaleBrokerWork n ?x s1 else ([], s1))"
      and s': "s' = reconciled_event ?x (rr_Episodes r) (rr_InvalidatedOperationIDs r) (upsert_head ?x s2)"
    have "move s s1" by (rule move.view[OF key_frame_live[OF reconcile_keys_frame[OF f]]])
    moreover have "move\<^sup>*\<^sup>* s1 s2"
      using i invalidations_moves by (auto simp: invalidateStaleBrokerWork_def split: if_split_asm) metis
    moreover have "move s2 s'" by (rule move.view) (simp add: s' reconciled_event_def insert_event_def upsert_head_def Let_def live_view_def)
    ultimately show ?thesis by (meson converse_rtranclp_into_rtranclp rtranclp.rtrancl_into_rtrancl)
  qed
qed

lemma live_step_moves:
  assumes "live_step c pc limits errtext s t"
  shows "move\<^sup>*\<^sup>* s t"
  using assms
proof cases
  case finalize
  then show ?thesis by (rule finalize_moves)
next
  case reconcile
  then show ?thesis by (rule reconcile_moves)
next
  case admit
  then show ?thesis by (blast intro: r_into_rtranclp move.arrive)
next
  case outside
  then show ?thesis by (blast intro: r_into_rtranclp move.view)
qed (blast intro: r_into_rtranclp insert_move limit_move claim_move prepare_move manifest_move send_move
    resolve_move fail_move report_move stage_cancel_move observe_move refusal_move halt_move resume_move)+

interpretation live_kernel: invariant_system "live_step c pc limits errtext" live_ok
  using live_step_moves moves.steps_inv by unfold_locales blast

lemma live_steps_moves: "live_steps c pc limits errtext s t \<Longrightarrow> move\<^sup>*\<^sup>* s t"
proof (induction rule: rtranclp_induct)
  case (step t u)
  then show ?case using live_step_moves[OF step(2)] by simp
qed simp


section \<open>What every run of the live kernel guarantees\<close>

text \<open>C1: At most one live attempt is in flight. From a ledger that satisfies the invariant, whatever the workers,
  broker reports, reconciliations, admissions, reviews, reprices, halts and resumes do and in whatever order, two live attempts that are claimed
  or unknown are the same attempt, and the gate row names it.\<close>
theorem one_attempt_in_flight:
  assumes ok: "live_ok s" and run: "live_steps c pc limits errtext s t"
    and a: "a \<in> set (db_Attempts t)" "live_attempt a" and b: "b \<in> set (db_Attempts t)" "live_attempt b"
  shows "a = b \<and> held_by t a"
proof -
  have g: "gate_ok t" using live_kernel.steps_inv[OF run ok] by (simp add: live_ok_def)
  then show ?thesis using single_flight[OF g a(1) b(1) a(2) b(2)] gate_okD(4)[OF g a] by simp
qed

text \<open>An attempt is sent to the broker at most once and replayed at most once. In every reachable ledger the
  bindings record at most one first send and no more replays than first sends for an attempt, the sent
  time is set exactly when the first send is recorded, and a pending attempt has not been sent.\<close>
lemma attempt_sent_once:
  assumes ok: "live_ok s" and run: "live_steps c pc limits errtext s t" and a: "a \<in> set (db_Attempts t)"
  shows "sends (at_ID a) 0 t \<le> 1 \<and> sends (at_ID a) 1 t \<le> sends (at_ID a) 0 t \<and>
    (sends (at_ID a) 0 t = 0 \<longleftrightarrow> at_SentAt a = None) \<and> (at_State a = ''pending'' \<longrightarrow> sends (at_ID a) 0 t = 0)"
proof -
  have t: "live_ok t" by (rule live_kernel.steps_inv[OF run ok])
  then have r: "row_ok a" using gate_okD(3)[OF _ a] by (simp add: live_ok_def)
  have "sends_recorded t a" using t a by (simp add: live_ok_def bindings_ok_def list_all_iff)
  then show ?thesis using r by (auto simp: sends_recorded_def row_ok_def split: if_splits)
qed

text \<open>C20: The ledger implements the gate. Seen as a gate that is free, active for one attempt, or held by one
  attempt whose outcome is unknown, every run of the kernel is a run of the three-state machine: a free gate is
  taken, an active attempt frees it or becomes unknown, an unknown one frees it, and no step hands the
  gate from one attempt to another.\<close>
theorem gate_refinement:
  assumes "live_ok s" and "live_steps c pc limits errtext s t"
  shows "gate_step\<^sup>*\<^sup>* (gate_of s) (gate_of t)"
  using moves_gate live_steps_moves assms by blast

lemma followed:
  assumes run: "live_steps c pc limits errtext s t" and a: "a \<in> set (db_Attempts s)"
  obtains b where "b \<in> set (db_Attempts t)" "attempt_step\<^sup>*\<^sup>* a b"
  using moves_follow[OF live_steps_moves[OF run]] a unfolding attempts_follow_def by blast

lemma life_fields:
  assumes "attempt_step\<^sup>*\<^sup>* a b"
  shows "at_ID b = at_ID a \<and> at_Attempt a \<le> at_Attempt b \<and> at_Intent b = at_Intent a"
  using assms by (induction rule: rtranclp_induct) (use attempt_step_fields order_trans in \<open>metis order_refl\<close>)+

text \<open>Once sent, an attempt is never pending again, so its identity stays.\<close>

lemma life_identity:
  assumes "attempt_step\<^sup>*\<^sup>* a b" "at_SentAt a \<noteq> None" "at_State a \<noteq> ''pending''"
  shows "sent_identity b = sent_identity a \<and> at_State b \<noteq> ''pending''"
  using assms(1)
proof (induction rule: rtranclp_induct)
  case base
  then show ?case using assms(3) by simp
next
  case (step b c)
  have s: "at_SentAt b \<noteq> None" using step(3) assms(2) by (auto simp: sent_identity_def)
  have "sent_identity c = sent_identity b" using attempt_step_sent[OF step(2) s] step(3) by blast
  moreover have "at_State c \<noteq> ''pending''" using attempt_step_pending[OF step(2)] step(3) by blast
  ultimately show ?case using step(3) by simp
qed

text \<open>The life of an attempt. An attempt of the ledger stays in it under the same id, and what a run does to it is
  a sequence of the lifecycle's steps (claim, evidence, send, replay, resolution, settlement, failure):
  its fencing token never decreases, a settled or failed attempt never changes again, and once it has been
  sent, what was sent (order, quantity, limit, account, intent, fingerprint, time) is frozen.\<close>
lemma attempt_life:
  assumes "live_steps c pc limits errtext s t" and "a \<in> set (db_Attempts s)"
  shows "\<exists>b\<in>set (db_Attempts t). at_ID b = at_ID a \<and> attempt_step\<^sup>*\<^sup>* a b \<and> at_Attempt a \<le> at_Attempt b \<and>
    (finished_attempt a \<longrightarrow> b = a) \<and>
    (at_SentAt a \<noteq> None \<and> at_State a \<noteq> ''pending'' \<longrightarrow> sent_identity b = sent_identity a)"
proof -
  obtain b where b: "b \<in> set (db_Attempts t)" "attempt_step\<^sup>*\<^sup>* a b" by (rule followed[OF assms])
  have "finished_attempt a \<longrightarrow> b = a" using attempts.terminal_absorbing[OF b(2)] by blast
  then show ?thesis using b life_fields[OF b(2)] life_identity[OF b(2)] by blast
qed

lemma stale_fence:
  assumes ok: "live_ok s" and run: "live_steps c pc limits errtext s t" and a: "a \<in> set (db_Attempts s)"
    and tok: "tok < at_Attempt a"
  shows "b \<in> set (db_Attempts t) \<Longrightarrow> \<not> (at_ID b = at_ID a \<and> at_Attempt b = tok)"
proof
  assume b: "b \<in> set (db_Attempts t)" "at_ID b = at_ID a \<and> at_Attempt b = tok"
  obtain d where d: "d \<in> set (db_Attempts t)" "attempt_step\<^sup>*\<^sup>* a d" by (rule followed[OF run a])
  have "gate_ok t" using live_kernel.steps_inv[OF run ok] by (simp add: live_ok_def)
  then have "b = d" using attempts_by_id b d life_fields[OF d(2)] by metis
  then show False using b(2) life_fields[OF d(2)] tok by simp
qed

text \<open>C19: A fenced-out worker can do nothing. Once an attempt carries a higher token than the one a worker was
  given, then at any later time that worker's evidence is not stored, its sends and replays do not
  succeed, its resolution and its reprice change nothing.\<close>
theorem stale_worker_fenced:
  assumes ok: "live_ok s" and run: "live_steps c pc limits errtext s t" and a: "a \<in> set (db_Attempts s)"
    and tok: "tok < at_Attempt a"
  shows "PrepareAttemptProviderIntent cod (at_ID a) tok acc can fp t \<in> range Inl \<union> {Inr (False, t)} \<and>
    MarkAttemptSentWithManifest cod clock (at_ID a) tok replay g ev mid t \<in> range Inl \<union> {Inr (False, t)} \<and>
    ResolveAttempt errtext n newID (at_ID a) tok r t = (Inr False, t) \<and>
    snd (FinalizeRepriceCancel pcod lim errtext n newID (at_ID a) tok u rp reason t) = t"
proof -
  have no: "\<not> (at_ID b = at_ID a \<and> at_Attempt b = tok)" if "b \<in> set (db_Attempts t)" for b
    using stale_fence[OF ok run a tok that] .
  then have fence: "find (fenced (at_ID a) tok) (db_Attempts t) = None"
    by (auto simp: find_None_iff fenced_def)
  have none: "\<not> preparable cod (at_ID a) tok acc can fp b" if "b \<in> set (db_Attempts t)" for b
    using no[OF that] by (auto simp: preparable_def)
  have "PrepareAttemptProviderIntent cod (at_ID a) tok acc can fp t \<in> range Inl \<union> {Inr (False, t)}"
  proof (cases "PrepareAttemptProviderIntent cod (at_ID a) tok acc can fp t")
    case (Inr p)
    have "affected (preparable cod (at_ID a) tok acc can fp) (db_Attempts t) = 0"
      "update_rows (preparable cod (at_ID a) tok acc can fp) f (db_Attempts t) = db_Attempts t" for f
      using none by (auto simp: affected_def filter_empty_conv update_rows_def intro!: map_idI)
    then show ?thesis using Inr by (simp add: PrepareAttemptProviderIntent_def Let_def)
  qed simp
  moreover have "MarkAttemptSentWithManifest cod clock (at_ID a) tok replay g ev mid t \<in> range Inl \<union> {Inr (False, t)}"
  proof (cases "MarkAttemptSentWithManifest cod clock (at_ID a) tok replay g ev mid t")
    case (Inr p)
    then show ?thesis using fence
      by (auto simp: MarkAttemptSentWithManifest_def markAttemptSent_def case_sum_Inr_iff split: if_splits)
  qed simp
  moreover have "ResolveAttempt errtext n newID (at_ID a) tok r t = (Inr False, t)"
    using fence by (simp add: ResolveAttempt_def)
  moreover have "snd (FinalizeRepriceCancel pcod lim errtext n newID (at_ID a) tok u rp reason t) = t"
    using fence by (auto simp: FinalizeRepriceCancel_def split: option.splits)
  ultimately show ?thesis by blast
qed

lemma authorised_frame:
  assumes "authorised c mid i tok n s m" and s': "s' = s\<lparr>db_Events := y, db_Bindings := x\<rparr>"
  shows "authorised c mid i tok n s' m"
proof -
  have "active_head s' = active_head s"
    unfolding active_head_def s' by (cases "db_PolicyHead s") simp_all
  moreover have "ledgerResources s' l op = ledgerResources s l op" for l op
    by (simp add: ledgerResources_def s')
  ultimately show ?thesis using assms(1) by (simp add: authorised_def s')
qed

lemma attempt_row_ok:
  assumes "live_ok s" "a \<in> set (db_Attempts s)"
  shows "row_ok a" "sends_recorded s a"
  using assms gate_okD(3)[of s a] by (simp_all add: live_ok_def bindings_ok_def list_all_iff)

text \<open>The row a successful mark finds, and the row it leaves.\<close>

lemma send_row:
  assumes ok: "live_ok s" and run: "MarkAttemptSentWithManifest c clock i tok replay g ev mid s = Inr (True, s')"
  obtains a n where "a \<in> set (db_Attempts s)" "fenced i tok a" "i \<noteq> []" "has_evidence a"
    "at_SentAt a = None \<longleftrightarrow> \<not> replay" "at_ReplayCount a = 0" "marks (ordinal replay) a (mark_row (ordinal replay) n a)"
    "mark_row (ordinal replay) n a \<in> set (db_Attempts s')" "replay \<longrightarrow> (\<exists>e. ev = Some e \<and> carries c e a)"
proof -
  obtain a w s1 s2 where m: "mark_effect c ev i tok (ordinal replay) s s1"
    and v: "validatePreEffectManifestForSend c mid i tok (ordinal replay) (clock 0) s1 = Inr s2"
    and s': "s' = insert_event ''execution_attempt_sent''
       [(''attempt_id'', PText i), (''fencing_token'', PInt tok), (''replay'', PBool replay),
        (''pre_effect_manifest_id'', PText mid)] s2"
    by (rule send_cases[OF run])
  obtain cond n where mk: "send_marks i tok (ordinal replay) n cond s"
    and ev: "ordinal replay = 1 \<longrightarrow> (\<exists>e. ev = Some e \<and> (\<forall>a. cond a \<longrightarrow> carries c e a))"
    and s1: "s1 = s\<lparr>db_Attempts := update_rows cond (mark_row (ordinal replay) n) (db_Attempts s)\<rparr>"
    using m unfolding mark_effect_def by blast
  obtain d where d: "d \<in> set (db_Attempts s)" "cond d" using mk by (auto simp: send_marks_def)
  have mk': "fenced i tok d" "has_evidence d" "marks (ordinal replay) d (mark_row (ordinal replay) n d)"
    using mk d by (simp_all add: send_marks_def)
  have r: "row_ok d" by (rule attempt_row_ok[OF ok d(1)])
  have i: "i \<noteq> []" using mk'(1) r by (auto simp: fenced_def row_ok_def)
  have fresh: "at_SentAt d = None \<longleftrightarrow> \<not> replay" "at_ReplayCount d = 0"
    using mk'(3) r unfolding ordinal_def
    by (auto simp: marks_def marks_first_def marks_replay_def row_ok_def split: if_splits)
  have "s2 = s1\<lparr>db_Bindings := db_Bindings s1 @ [\<lparr>sb_AttemptID = i, sb_SendOrdinal = ordinal replay,
       sb_FencingToken = tok, sb_ManifestID = mid\<rparr>]\<rparr>"
    by (rule validatePreEffect_cases[OF v])
  then have "db_Attempts s' = update_rows cond (mark_row (ordinal replay) n) (db_Attempts s)"
    by (simp add: s' s1 insert_event_def)
  then have "mark_row (ordinal replay) n d \<in> set (db_Attempts s')" using d by (auto simp: set_update_rows)
  then show thesis
    by (rule that[OF d(1) mk'(1) i mk'(2) fresh mk'(3)]) (use ev d(2) in \<open>auto simp: ordinal_def\<close>)
qed

text \<open>C2: What stands behind every send. When a send (or replay) succeeds, the attempt holds the gate (as unknown for a
  replay), is claimed under the worker's token, carries its evidence and has not been sent (replayed)
  before; no replay and no opening order goes out while the global halt is active; and a manifest for this very
  attempt and token, not expired, matches the active policy, a complete broker observation and the
  open risk and held cash in the ledger. Exactly one binding records it.\<close>
theorem send_authorised:
  assumes ok: "live_ok s" and run: "MarkAttemptSentWithManifest c clock i tok replay g ev mid s = Inr (True, s')"
  shows "(if replay then gate_of s = Unknown i else gate_of s = Active i) \<and>
    (\<exists>a\<in>set (db_Attempts s). fenced i tok a \<and> has_evidence a \<and> (at_SentAt a = None \<longleftrightarrow> \<not> replay) \<and> at_ReplayCount a = 0 \<and>
      (\<exists>w\<in>set (db_Operations s). ow_ID w = at_OperationID a \<and>
         (replay \<or> at_Intent a = ''place'' \<and> ow_Action w = ''open'' \<longrightarrow> \<not> halted s))) \<and>
    (\<exists>m. authorised c mid i tok (clock 0) s' m) \<and>
    sends i (ordinal replay) s = 0 \<and> sends i (ordinal replay) s' = 1"
proof -
  obtain a w s1 s2 where adm: "send_admitted i replay s" and a: "find (fenced i tok) (db_Attempts s) = Some a"
    and w: "find (\<lambda>w. ow_ID w = at_OperationID a) (db_Operations s) = Some w"
    and h: "\<not> ((replay \<or> at_Intent a = ''place'' \<and> ow_Action w = ''open'') \<and> halted s)"
    and m: "mark_effect c ev i tok (ordinal replay) s s1"
    and v: "validatePreEffectManifestForSend c mid i tok (ordinal replay) (clock 0) s1 = Inr s2"
    and s': "s' = insert_event ''execution_attempt_sent''
       [(''attempt_id'', PText i), (''fencing_token'', PInt tok), (''replay'', PBool replay),
        (''pre_effect_manifest_id'', PText mid)] s2"
    by (rule send_cases[OF run])
  have g: "gate_ok s" using ok by (simp add: live_ok_def)
  have aa: "a \<in> set (db_Attempts s)" "fenced i tok a" using find_SomeD[OF a] by simp_all
  have ww: "w \<in> set (db_Operations s)" "ow_ID w = at_OperationID a" using find_SomeD[OF w] by simp_all
  obtain d n where d: "d \<in> set (db_Attempts s)" "fenced i tok d" "i \<noteq> []" "has_evidence d"
    "at_SentAt d = None \<longleftrightarrow> \<not> replay" "at_ReplayCount d = 0"
    by (rule send_row[OF ok run])
  have "d = a" using attempts_by_id[OF g d(1) aa(1)] d(2) aa(2) by (simp add: fenced_def)
  then have fresh: "has_evidence a" "at_SentAt a = None \<longleftrightarrow> \<not> replay" "at_ReplayCount a = 0" using d by simp_all
  have i: "at_ID a = i" "i \<noteq> []" using aa(2) d(3) by (auto simp: fenced_def)
  have r: "sends_recorded s a" by (rule attempt_row_ok[OF ok aa(1)])
  have s2: "s2 = s1\<lparr>db_Bindings := db_Bindings s1 @ [\<lparr>sb_AttemptID = i, sb_SendOrdinal = ordinal replay,
       sb_FencingToken = tok, sb_ManifestID = mid\<rparr>]\<rparr>"
    by (rule validatePreEffect_cases[OF v])
  obtain s0 where s1: "s1 = s\<lparr>db_Attempts := s0\<rparr>"
    using m unfolding mark_effect_def by blast
  have gate: "if replay then gate_of s = Unknown i else gate_of s = Active i"
    using adm i(2) by (auto simp: send_admitted_def null_string_eq gate_of_def split: if_splits)
  have none: "sends i (ordinal replay) s = 0"
    using r fresh unfolding i(1)[symmetric] ordinal_def by (auto simp: sends_recorded_def)
  then have one: "sends i (ordinal replay) s' = 1"
    by (simp add: sends_def s' s2 s1 insert_event_def)
  obtain m where "authorised c mid i tok (clock 0) s1 m" using validated_manifest_authorised[OF v] by blast
  then have "authorised c mid i tok (clock 0) s' m"
    by (rule authorised_frame[where x = "db_Bindings s2" and y = "db_Events s'"]) (simp add: s' s2 insert_event_def)
  then have m: "\<exists>m. authorised c mid i tok (clock 0) s' m" ..
  have "\<exists>w\<in>set (db_Operations s). ow_ID w = at_OperationID a \<and>
      (replay \<or> at_Intent a = ''place'' \<and> ow_Action w = ''open'' \<longrightarrow> \<not> halted s)"
    by (rule bexI[OF _ ww(1)]) (use ww(2) h in blast)
  then have "\<exists>a\<in>set (db_Attempts s). fenced i tok a \<and> has_evidence a \<and> (at_SentAt a = None \<longleftrightarrow> \<not> replay) \<and> at_ReplayCount a = 0 \<and>
      (\<exists>w\<in>set (db_Operations s). ow_ID w = at_OperationID a \<and>
         (replay \<or> at_Intent a = ''place'' \<and> ow_Action w = ''open'' \<longrightarrow> \<not> halted s))"
    by (intro bexI[OF _ aa(1)] conjI aa(2) fresh)
  then show ?thesis by (intro conjI gate m none one)
qed

section \<open>A concrete run\<close>

text \<open>Attempt A is claimed and ready to send, with its manifest; B waits.\<close>

definition demo_codec :: codec where
  "demo_codec = \<lparr>json_valid = (\<lambda>_. True), json_object = (\<lambda>_. True), jsonb = (\<lambda>x. x),
     canonicalJSONObject = (\<lambda>x. Inr x), sha256 = (\<lambda>_. ''H'')\<rparr>"

definition demo_limits :: "string \<Rightarrow> int64 \<times> int64 \<times> int64" where
  "demo_limits _ = (3, 15, 5)"

definition demo_errtext :: "go_error \<Rightarrow> string" where
  "demo_errtext _ = ''e''"

definition demo_clock :: "nat \<Rightarrow> time" where
  "demo_clock n = 100 + int n"

definition demo_operation :: "string \<Rightarrow> operation_row" where
  "demo_operation i = \<lparr>ow_ID = i, ow_Status = ''approved'', ow_Action = ''open'', ow_Side = ''buy'', ow_Symbol = ''XYZ'',
     ow_Limit = None, ow_ApprovedPriceCap = 5, ow_Class = ''A'', ow_ExpiresAt = Some 900,
     ow_KernelPolicyRevisionID = Some 1, ow_KernelPolicyGeneration = Some 1, ow_KernelPolicyDigest = Some ''D'',
     ow_TS = 10, ow_Shadow = False\<rparr>"

definition demo_attempt :: execution_attempt where
  "demo_attempt = blank_attempt\<lparr>at_ID := ''A'', at_OperationID := ''O'', at_Seq := 1, at_Intent := ''place'',
     at_State := ''claimed'', at_Attempt := 1, at_LeaseExpiresAt := 500, at_ProviderAccountID := Some ''acct'',
     at_ProviderIntent := Some ''{}'', at_IntentFingerprint := Some ''F''\<rparr>"

definition demo_manifest :: pre_effect_manifest where
  "demo_manifest = \<lparr>pm_ID = ''M'', pm_AttemptID = ''A'', pm_FencingToken = 1, pm_AccountID = ''acct'',
     pm_Effect = ''place_open'', pm_ObservationID = ''Q'', pm_ObservationGeneration = 1,
     pm_ObservationManifestDigest = ''D'', pm_TargetBrokerOrderID = [], pm_Facts = ''{}'', pm_FactsDigest = ''H'',
     pm_ExpiresAt = 900, pm_CreatedAt = 90, pm_Ledger = ''live'', pm_ActivePolicyRevisionID = 1,
     pm_ActivePolicyGeneration = 1, pm_ActivePolicyDigest = ''D'', pm_ExpectedLocalOpenRisk = 0,
     pm_ExpectedLocalHeldCash = 0, pm_ExpectedOtherCloseQty = 0\<rparr>"

definition demo_db :: db where
  "demo_db = sample_authority\<lparr>db_Operations := [demo_operation ''O'', demo_operation ''P''],
     db_Attempts := [demo_attempt, blank_attempt\<lparr>at_ID := ''B'', at_OperationID := ''P'', at_Intent := ''place'', at_State := ''pending''\<rparr>],
     db_GateActive := Some ''A'', db_GateActiveSince := Some 50,
     db_Observations := [\<lparr>bo_ID = ''Q'', bo_Status = ''complete'', bo_Purpose = ''pre_effect'', bo_AccountID = ''acct'',
       bo_Generation = 1, bo_ManifestDigest = ''D'', bo_Source = ''rh'', bo_StartedAt = 40, bo_CompletedAt = 45,
       bo_LocalStateGeneration = 0\<rparr>],
     db_Manifests := [demo_manifest],
     db_PolicyRevisions := [\<lparr>kr_ID = 1, kr_SchemaVersion = 1, kr_Policy = ''{}'', kr_Digest = ''D'', kr_RecordedAt = 10,
       kr_RecordedBy = ''ada'', kr_Reason = ''first'', kr_ChangeClass = ''initial''\<rparr>],
     db_PolicyHead := Some \<lparr>kh_RevisionID = 1, kh_Generation = 1, kh_ActivatedAt = 10, kh_ActivatedBy = ''ada'', kh_Reason = ''first''\<rparr>\<rparr>"

definition demo_sent :: db where
  "demo_sent = (case MarkAttemptSentWithManifest demo_codec demo_clock ''A'' 1 False 0 None ''M'' demo_db of
     Inr (True, s) \<Rightarrow> s | _ \<Rightarrow> demo_db)"

definition demo_reclaimed :: db where
  "demo_reclaimed = snd (claimAttempt demo_errtext 600 ''A'' ''w2'' ''claimed'' 1 1000000 True demo_db)"

lemma demo_ok: "live_ok demo_db"
  by code_simp

lemma demo_send: "MarkAttemptSentWithManifest demo_codec demo_clock ''A'' 1 False 0 None ''M'' demo_db = Inr (True, demo_sent)"
proof -
  have "(case MarkAttemptSentWithManifest demo_codec demo_clock ''A'' 1 False 0 None ''M'' demo_db of
      Inr (True, s) \<Rightarrow> True | _ \<Rightarrow> False)" by code_simp
  then show ?thesis unfolding demo_sent_def by (auto split: sum.splits prod.splits bool.splits)
qed

lemma demo_send_run: "live_steps demo_codec pc demo_limits demo_errtext demo_db demo_sent"
  by (rule r_into_rtranclp, rule live_step.send) (rule demo_send)

lemma demo_claim_run: "live_steps demo_codec pc demo_limits demo_errtext demo_db demo_reclaimed"
proof (rule r_into_rtranclp, rule live_step.claim)
  show "claimAttempt demo_errtext 600 ''A'' ''w2'' ''claimed'' 1 1000000 True demo_db =
      (fst (claimAttempt demo_errtext 600 ''A'' ''w2'' ''claimed'' 1 1000000 True demo_db), demo_reclaimed)"
    by (simp add: demo_reclaimed_def)
qed (simp add: claim_source_def)

lemma demo_reclaimed_attempt: "\<exists>a\<in>set (db_Attempts demo_reclaimed). at_ID a = ''A'' \<and> live_attempt a \<and> at_Attempt a = 2"
  by code_simp

theorem one_attempt_in_flight_witness:
  "\<exists>a\<in>set (db_Attempts demo_reclaimed). live_attempt a \<and> at_Attempt a = 2 \<and> held_by demo_reclaimed a"
  using one_attempt_in_flight[OF demo_ok demo_claim_run] demo_reclaimed_attempt by blast

theorem gate_refinement_witness: "gate_step\<^sup>*\<^sup>* (Active ''A'') (gate_of demo_sent)"
proof -
  have "gate_of demo_db = Active ''A''" by code_simp
  then show ?thesis using gate_refinement[OF demo_ok demo_send_run] by simp
qed

theorem stale_worker_fenced_witness:
  "ResolveAttempt demo_errtext 700 (\<lambda>_. ''N'') ''A'' 1
     \<lparr>ar_State = ''failed'', ar_BrokerOrderID = [], ar_LastError = [], ar_ProviderErrorCode = [], ar_CandidateBrokerOrderID = [],
      ar_OperatorSubject = [], ar_OperationStatus = ''failed'', ar_ReleaseReservation = True, ar_OrderUpdate = None,
      ar_OrderEvent = None\<rparr> demo_reclaimed = (Inr False, demo_reclaimed)"
proof -
  obtain a where a: "a \<in> set (db_Attempts demo_reclaimed)" "at_ID a = ''A''" "at_Attempt a = 2"
    using demo_reclaimed_attempt by blast
  have "live_ok demo_reclaimed" by (rule live_kernel.steps_inv[OF demo_claim_run demo_ok])
  then show ?thesis using stale_worker_fenced[OF _ rtranclp.rtrancl_refl a(1), of 1] a by simp
qed

theorem send_authorised_witness:
  "gate_of demo_db = Active ''A'' \<and> (\<exists>m. authorised demo_codec ''M'' ''A'' 1 100 demo_sent m) \<and>
     sends ''A'' 0 demo_db = 0 \<and> sends ''A'' 0 demo_sent = 1"
proof -
  have "demo_clock 0 = 100" "ordinal False = 0" by (simp_all add: demo_clock_def ordinal_def)
  then show ?thesis using send_authorised[OF demo_ok demo_send] by (simp only: if_False)
qed

end
