(* ===== verification/Live_Barrier.thy ===== *)
theory Live_Barrier
  imports Snapshots Live_System
begin

text \<open>
  The decision of the barrier, \<open>evaluateLivePreEffect\<close> and \<open>captureLivePreEffect\<close> of
  \<^verbatim>\<open>kernel/cmd/kernel/broker_observations.go\<close>: on a fresh snapshot of the whole account and on the
  ledger, an effect is judged under the policy its proposal was bound to and under the one now active, and
  the facts of the judgement are recorded as a manifest, which is what the send is bound to.
\<close>

section \<open>The evaluation\<close>

definition ErrUnavailable :: go_error where
  "ErrUnavailable = Sentinel ''database unavailable''"

definition errPreEffectRejected :: go_error where
  "errPreEffectRejected = Sentinel ''pre-effect proposal rejected''"

definition errPreEffectUnavailable :: go_error where
  "errPreEffectUnavailable = Sentinel ''pre-effect facts unavailable''"

definition errAccountBindingViolation :: go_error where
  "errAccountBindingViolation = Sentinel ''account binding violation''"

record pre_effect_evaluation =
  pe_ActivePolicyRevisionID :: int64
  pe_ActivePolicyGeneration :: int64
  pe_ActivePolicyDigest :: string
  pe_LocalOpenRisk :: micros
  pe_LocalHeldCash :: micros
  pe_OtherLocalCloseQty :: qty
  pe_ExternalPositionRisk :: micros
  pe_ExternalWorkingRisk :: micros
  pe_ExternalWorkingClose :: qty
  pe_AggregateOpenRisk :: micros
  pe_EffectiveBuyingPower :: micros
  pe_FreshnessExpiresAt :: time

definition lifetime :: "int64 \<Rightarrow> int" where
  "lifetime maxAgeSec = wrap64 (maxAgeSec * second_ns)"

text \<open>How long the facts count as fresh, if they are.\<close>

definition quote_deadline :: "int64 \<Rightarrow> time \<Rightarrow> quote option \<Rightarrow> time \<Rightarrow> time result" where
  "quote_deadline maxAgeSec now q deadline =
     (case q of
        None \<Rightarrow> Inr deadline
      | Some q \<Rightarrow>
          if \<not> Usable q maxAgeSec now then Inl (Errorf ''quote became stale at pre-effect barrier'' [])
          else Inr (earlierTime deadline (q_AsOf q + lifetime maxAgeSec)))"

definition instrument_deadline :: "int64 \<Rightarrow> time \<Rightarrow> instrument option \<Rightarrow> time \<Rightarrow> time result" where
  "instrument_deadline maxAgeSec now i deadline =
     (case i of
        None \<Rightarrow> Inr deadline
      | Some i \<Rightarrow>
          if i_AsOf i = 0 \<or> i_AsOf i > now \<or> time_sub now (i_AsOf i) > lifetime maxAgeSec
          then Inl (Errorf ''instrument became stale at pre-effect barrier'' [])
          else Inr (earlierTime deadline (i_AsOf i + lifetime maxAgeSec)))"

definition freshness_deadline ::
  "int64 \<Rightarrow> time \<Rightarrow> time \<Rightarrow> quote option \<Rightarrow> instrument option \<Rightarrow> time result" where
  "freshness_deadline maxAgeSec now startedAt q i =
     (if maxAgeSec \<le> 0 \<or> startedAt = 0 \<or> startedAt > now
      then Inl (Errorf ''provider snapshot freshness is invalid'' [])
      else case quote_deadline maxAgeSec now q (startedAt + lifetime maxAgeSec) of
        Inl e \<Rightarrow> Inl e
      | Inr deadline \<Rightarrow>
         (case instrument_deadline maxAgeSec now i deadline of
            Inl e \<Rightarrow> Inl e
          | Inr deadline \<Rightarrow>
              if \<not> now < deadline then Inl (Errorf ''provider snapshot became stale at pre-effect barrier'' [])
              else Inr deadline))"

definition review_approved :: "operation_row \<Rightarrow> bool" where
  "review_approved w \<longleftrightarrow> ow_Class w = ''C'' \<and> ow_Status w = ''approved''"

definition proposal_stale :: "time \<Rightarrow> execution_attempt \<Rightarrow> operation \<Rightarrow> operation_row \<Rightarrow> bool" where
  "proposal_stale now a op w \<longleftrightarrow> preEffectRequiresProposalTTL a op \<and> \<not> review_approved w \<and>
     (case ow_ExpiresAt w of None \<Rightarrow> True | Some t \<Rightarrow> \<not> now < t)"

text \<open>A replacement is judged on what is left of the reservation.\<close>

definition effect_operation :: "db \<Rightarrow> execution_attempt \<Rightarrow> operation \<Rightarrow> operation result" where
  "effect_operation s a op =
     (if at_Intent a = ''place'' \<and> 1 < at_Seq a
      then (let op = op\<lparr>op_Qty := at_Qty a\<rparr>
            in if op_Action op = ''open''
               then (case HeldOpenResources s (at_OperationID a) of
                   Inl e \<Rightarrow> Inl e
                 | Inr remaining \<Rightarrow> Inr (op\<lparr>op_DerivedMaxRisk := lr_OpenRisk remaining,
                     op_RequiredCash := lr_HeldCash remaining, op_MaxRiskUSD := None\<rparr>))
               else Inr op)
      else Inr op)"

text \<open>The trades of a market day on the live ledger, without those of one operation.\<close>

definition CountTradesForDayExcluding :: "db \<Rightarrow> time \<Rightarrow> string \<Rightarrow> int64" where
  "CountTradesForDayExcluding s marketDay operationID =
     int (length (filter (\<lambda>g. tg_Ledger g = ''live'' \<and> tg_MarketDay g = marketDay \<and>
        (operationID = [] \<or> tg_OperationID g \<noteq> operationID)) (db_Grants s)))"

definition spendableBuyingPower :: "micros \<Rightarrow> micros \<Rightarrow> micros result" where
  "spendableBuyingPower authoritative locallyHeld = Add authoritative (wrap64 (- locallyHeld))"

definition barrier_day :: "int64 \<Rightarrow> micros \<Rightarrow> account_state \<Rightarrow> micros \<Rightarrow> day_state" where
  "barrier_day trades openRisk account buyingPower =
     \<lparr>TradesToday = trades, OpenRisk = openRisk, RealizedPnL = 0, LocalRealizedPnL = 0, ProviderRealizedPnL = None,
      DailyLossLimit = 0, ConsecutiveLossDays = 0, Equity = a_Equity account, EquityKnown = a_EquityKnown account,
      BuyingPower = buyingPower, Halted = False, HaltReason = []\<rparr>"

definition authority_stale :: "bool \<Rightarrow> verdict \<Rightarrow> verdict \<Rightarrow> bool" where
  "authority_stale reviewApproved boundVerdict activeVerdict \<longleftrightarrow>
     Class boundVerdict = ''REJECT'' \<or> Class activeVerdict = ''REJECT'' \<or>
     \<not> reviewApproved \<and> (Class boundVerdict \<noteq> ''B'' \<or> Class activeVerdict \<noteq> ''B'')"

text \<open>\<open>window\<close> is the market day of a time of the database's clock.\<close>

definition judge_open ::
  "(time \<Rightarrow> time result) \<Rightarrow> (nat \<Rightarrow> time) \<Rightarrow> policy \<Rightarrow> policy \<Rightarrow> bool \<Rightarrow> provider_snapshot \<Rightarrow> string \<Rightarrow> operation \<Rightarrow>
     quote option \<Rightarrow> pre_effect_evaluation \<Rightarrow> db \<Rightarrow> pre_effect_evaluation result" where
  "judge_open window clock bound active reviewApproved sn operationID op q e s =
     (case aggregateExternalOpenRisk sn s of
        Inl err \<Rightarrow> Inl err
      | Inr (positionRisk, workingRisk) \<Rightarrow>
         (case addMicros [pe_LocalOpenRisk e, positionRisk, workingRisk] of
            Inl err \<Rightarrow> Inl err
          | Inr aggregate \<Rightarrow>
             (case spendableBuyingPower (a_BuyingPower (sn_Account sn)) (pe_LocalHeldCash e) of
                Inl err \<Rightarrow> Inl err
              | Inr buyingPower \<Rightarrow>
                 (case window (clock 1) of
                    Inl err \<Rightarrow> Inl err
                  | Inr marketDay \<Rightarrow>
                     (let day = barrier_day (CountTradesForDayExcluding s marketDay operationID) aggregate (sn_Account sn) buyingPower;
                          boundVerdict = ClassifyAt op bound day q (clock 0);
                          activeVerdict = ClassifyAt op active day q (clock 0)
                      in if authority_stale reviewApproved boundVerdict activeVerdict
                         then Inl (Errorf ''open authority became stale: bound=%s active=%s'' [])
                         else Inr (e\<lparr>pe_ExternalPositionRisk := positionRisk, pe_ExternalWorkingRisk := workingRisk,
                                pe_AggregateOpenRisk := aggregate, pe_EffectiveBuyingPower := buyingPower\<rparr>))))))"

definition cancel_reduces ::
  "(cancel_target \<Rightarrow> string) \<Rightarrow> (string \<Rightarrow> string) \<Rightarrow> provider_snapshot \<Rightarrow> operation \<Rightarrow> read_order \<Rightarrow> bool" where
  "cancel_reduces marshal sha sn op target \<longleftrightarrow>
     workingOrderEffects target (sn_Positions sn) = Inr (True, False) \<and> op_CancelTargetEffect op = ''opening'' \<and>
     op_CancelTargetFingerprint op \<noteq> [] \<and> cancelTargetFingerprint marshal sha target = op_CancelTargetFingerprint op"

definition judge_cancel ::
  "(cancel_target \<Rightarrow> string) \<Rightarrow> (string \<Rightarrow> string) \<Rightarrow> provider_snapshot \<Rightarrow> execution_attempt \<Rightarrow> operation \<Rightarrow>
     read_order option \<Rightarrow> unit result" where
  "judge_cancel marshal sha sn a op target =
     (case target of
        None \<Rightarrow> Inl (Errorf ''cancel target changed at pre-effect barrier'' [])
      | Some t \<Rightarrow>
          if ro_BrokerOrderID t \<noteq> at_TargetBrokerOrderID a
          then Inl (Errorf ''cancel target changed at pre-effect barrier'' [])
          else if op_Action op = ''cancel'' \<and> \<not> cancel_reduces marshal sha sn op t
          then Inl (Errorf ''cancel target is not proven risk-reducing'' [])
          else Inr ())"

definition judge_effect ::
  "(cancel_target \<Rightarrow> string) \<Rightarrow> (string \<Rightarrow> string) \<Rightarrow> (time \<Rightarrow> time result) \<Rightarrow> (nat \<Rightarrow> time) \<Rightarrow> policy \<Rightarrow> policy \<Rightarrow> bool \<Rightarrow>
     provider_snapshot \<Rightarrow> execution_attempt \<Rightarrow> operation \<Rightarrow> operation \<Rightarrow> quote option \<Rightarrow> read_order option \<Rightarrow>
     pre_effect_evaluation \<Rightarrow> db \<Rightarrow> pre_effect_evaluation result" where
  "judge_effect marshal sha window clock bound active reviewApproved sn a op effectOp q target e s =
     (if at_Intent a = ''place''
      then if op_Action effectOp = ''open''
           then judge_open window clock bound active reviewApproved sn (at_OperationID a) effectOp q e s
           else if op_Action effectOp = ''close''
           then (case validateFreshCloseCapacity sn effectOp (pe_OtherLocalCloseQty e) of
               Inl err \<Rightarrow> Inl err
             | Inr externalClose \<Rightarrow> Inr (e\<lparr>pe_ExternalWorkingClose := externalClose\<rparr>))
           else Inl (Errorf ''place operation changed semantics'' [])
      else if at_Intent a = ''cancel''
      then (case judge_cancel marshal sha sn a op target of Inl err \<Rightarrow> Inl err | Inr _ \<Rightarrow> Inr e)
      else Inl (Errorf ''unsupported pre-effect intent'' []))"

definition blank_evaluation :: "kernel_policy_revision \<Rightarrow> ledger_resources \<Rightarrow> qty \<Rightarrow> time \<Rightarrow> pre_effect_evaluation" where
  "blank_evaluation active resources otherClose deadline =
     \<lparr>pe_ActivePolicyRevisionID = kp_ID active, pe_ActivePolicyGeneration = kp_Generation active,
      pe_ActivePolicyDigest = kp_Digest active, pe_LocalOpenRisk = lr_OpenRisk resources,
      pe_LocalHeldCash = lr_HeldCash resources, pe_OtherLocalCloseQty = otherClose, pe_ExternalPositionRisk = 0,
      pe_ExternalWorkingRisk = 0, pe_ExternalWorkingClose = 0, pe_AggregateOpenRisk = 0, pe_EffectiveBuyingPower = 0,
      pe_FreshnessExpiresAt = deadline\<rparr>"

text \<open>What the barrier is run with: the market facts it was given, and what stands for code outside.\<close>

record barrier_facts =
  bf_Quote :: "quote option"
  bf_Instrument :: "instrument option"
  bf_Target :: "read_order option"

record barrier_rules =
  rl_Policies :: policy_codec
  rl_Marshal :: "cancel_target \<Rightarrow> string"
  rl_Sha :: "string \<Rightarrow> string"
  rl_Window :: "time \<Rightarrow> time result"
  rl_Clock :: "nat \<Rightarrow> time"

text \<open>The transaction of the evaluation, with the ledger locked; it writes nothing.\<close>

definition evaluate_locked ::
  "barrier_rules \<Rightarrow> provider_snapshot \<Rightarrow> execution_attempt \<Rightarrow> operation_row \<Rightarrow> operation \<Rightarrow> barrier_facts \<Rightarrow> bool \<Rightarrow>
     kernel_policy_revision \<Rightarrow> kernel_policy_revision \<Rightarrow> db \<Rightarrow> pre_effect_evaluation result" where
  "evaluate_locked x sn a w op f replay active bound s =
     (let now = rl_Clock x 0;
          startedAt = (case sn_Observation sn of None \<Rightarrow> 0 | Some b \<Rightarrow> ob_StartedAt b);
          maxAgeSec = minInt (QuoteMaxAgeSec (kp_Policy bound)) (QuoteMaxAgeSec (kp_Policy active))
      in case freshness_deadline maxAgeSec now startedAt (bf_Quote f) (bf_Instrument f) of
           Inl err \<Rightarrow> Inl err
         | Inr deadline \<Rightarrow>
             if proposal_stale now a op w then Inl (Errorf ''proposal is stale at pre-effect barrier'' [])
             else (let e = blank_evaluation active (ledgerResources s ''live'' (at_OperationID a))
                         (held_close_excluding ''live'' (operationSymbol op) (at_OperationID a) s) deadline
                   in if replay \<and> at_Intent a = ''place'' \<and> sameReferenceOrderVisible (sn_Orders sn) (at_ClientOrderID a)
                      then Inl (Errorf ''same-reference Provider candidate appeared before replay'' [])
                      else (case effect_operation s a op of
                          Inl err \<Rightarrow> Inl err
                        | Inr effectOp \<Rightarrow>
                            judge_effect (rl_Marshal x) (rl_Sha x) (rl_Window x) (rl_Clock x) (kp_Policy bound) (kp_Policy active)
                              (review_approved w) sn a op effectOp (bf_Quote f) (bf_Target f) e s)))"

definition evaluateLivePreEffect ::
  "barrier_rules \<Rightarrow> provider_snapshot \<Rightarrow> execution_attempt \<Rightarrow> operation_row \<Rightarrow> operation \<Rightarrow> barrier_facts \<Rightarrow> bool \<Rightarrow> db \<Rightarrow>
     pre_effect_evaluation result" where
  "evaluateLivePreEffect x sn a w op f replay s =
     (case (case LoadKernelPolicyAuthority (rl_Policies x) (rl_Clock x 2) s of
              Inl err \<Rightarrow> Inl err
            | Inr active \<Rightarrow>
               (case BoundKernelPolicy (rl_Policies x) (rl_Clock x 3) (Some w) s of
                  Inl err \<Rightarrow> Inl err
                | Inr bound \<Rightarrow> evaluate_locked x sn a w op f replay active bound s)) of
        Inr e \<Rightarrow> Inr e
      | Inl err \<Rightarrow>
          Inl (if errors_is err ErrUnavailable \<or> errors_is err errPreEffectRejected then err
               else Wrapf errPreEffectRejected ''%w: %v''))"


section \<open>The capture\<close>

record pre_effect_facts =
  pf_SnapshotCompletedAt :: time
  pf_Quote :: "quote option"
  pf_Instrument :: "instrument option"
  pf_TargetOrder :: "read_order option"
  pf_Evaluation :: pre_effect_evaluation

text \<open>Everything outside: the provider's answers, the market, the clocks, and the other workers between two transactions.\<close>

record barrier_env =
  be_Rules :: barrier_rules
  be_Live :: bool
  be_Bound :: string
  be_AccountID :: "string result"
  be_Provider :: "provider_answers option"
  be_Observations :: observation_codec
  be_LocalGeneration :: "int64 result"
  be_Generation :: int64
  be_ObservationID :: string
  be_HasMarket :: bool
  be_Quote :: "string \<Rightarrow> quote result"
  be_Instrument :: "string \<Rightarrow> instrument result"
  be_LimitMaxAgeSec :: int64
  be_Now :: "nat \<Rightarrow> time"
  be_Facts :: "pre_effect_facts \<Rightarrow> string"
  be_Codec :: codec
  be_RecordedAt :: time
  be_ManifestID :: string
  be_Other :: "nat \<Rightarrow> db \<Rightarrow> db"

definition recordPreEffectRefusal :: "execution_attempt \<Rightarrow> string \<Rightarrow> db \<Rightarrow> db" where
  "recordPreEffectRefusal a reason s = insert_event ''execution_pre_effect_refused''
     [(''attempt_id'', PText (at_ID a)), (''fencing_token'', PInt (at_Attempt a)), (''reason'', PText reason)] s"

definition assertLiveAccountBinding :: "barrier_env \<Rightarrow> string \<Rightarrow> db \<Rightarrow> unit outcome" where
  "assertLiveAccountBinding x operationID s =
     (if \<not> be_Live x then (Inr (), s)
      else if is_ok (be_AccountID x) \<and> be_AccountID x \<noteq> Inr [] \<and> be_AccountID x = Inr (be_Bound x) then (Inr (), s)
      else (Inl (Wrapf errAccountBindingViolation ''%w''),
            insert_event ''account_binding_violation''
              [(''operation_id'', PText operationID),
               (''reason'', PText (if is_ok (be_AccountID x) then ''mismatch'' else ''resolution_failed'')),
               (''mode'', PText ''live'')] s))"

definition max_age :: "barrier_env \<Rightarrow> execution_attempt \<Rightarrow> int64" where
  "max_age x a = (if at_QuoteMaxAgeSec a \<le> 0 then be_LimitMaxAgeSec x else at_QuoteMaxAgeSec a)"

definition quote_now :: "barrier_env \<Rightarrow> execution_attempt \<Rightarrow> operation \<Rightarrow> quote option" where
  "quote_now x a op =
     (case be_Quote x (operationSymbol op) of
        Inl _ \<Rightarrow> None
      | Inr q \<Rightarrow> if Usable q (max_age x a) (be_Now x 1) then Some q else None)"

text \<open>The market facts of an effect, or the refusal that is recorded and the error that is returned.\<close>

definition unavailable :: "string \<Rightarrow> go_error" where
  "unavailable message = Wrapf errPreEffectUnavailable message"

definition place_facts :: "barrier_env \<Rightarrow> execution_attempt \<Rightarrow> operation \<Rightarrow> string option \<times> go_error + barrier_facts" where
  "place_facts x a op =
     (if \<not> be_HasMarket x then Inl (Some ''market_provider_unavailable'', unavailable ''%w: market provider'')
      else case be_Instrument x (operationSymbol op) of
        Inl _ \<Rightarrow> Inl (Some ''instrument_facts_invalid'', unavailable ''%w: instrument facts'')
      | Inr i \<Rightarrow>
          if \<not> preEffectInstrumentMatches (be_Now x 0) op a i
          then Inl (Some ''instrument_facts_invalid'', unavailable ''%w: instrument facts'')
          else (case quote_now x a op of
              Some q \<Rightarrow>
                if \<not> preEffectQuoteMatches op q i then Inl (Some ''market_facts_invalid'', unavailable ''%w: market facts'')
                else Inr \<lparr>bf_Quote = Some q, bf_Instrument = Some i, bf_Target = None\<rparr>
            | None \<Rightarrow>
                if \<not> priceBoundedOpen op then Inl (Some ''market_facts_invalid'', unavailable ''%w: market facts'')
                else Inr \<lparr>bf_Quote = None, bf_Instrument = Some i, bf_Target = None\<rparr>))"

definition replace_facts :: "barrier_env \<Rightarrow> execution_attempt \<Rightarrow> operation \<Rightarrow> read_order \<Rightarrow> string option \<times> go_error + barrier_facts" where
  "replace_facts x a op target =
     (let invalid = Inl (Some ''replacement_facts_invalid'', unavailable ''%w: replacement market facts'')
      in if \<not> be_HasMarket x then Inl (None, unavailable ''%w: replacement market provider'')
         else case (quote_now x a op, be_Instrument x (operationSymbol op)) of
           (Some q, Inr i) \<Rightarrow>
             if \<not> preEffectQuoteMatches op q i \<or> \<not> PrecisionSane i then invalid
             else Inr \<lparr>bf_Quote = Some q, bf_Instrument = Some i, bf_Target = Some target\<rparr>
         | _ \<Rightarrow> invalid)"

definition cancel_facts ::
  "barrier_env \<Rightarrow> execution_attempt \<Rightarrow> operation \<Rightarrow> provider_snapshot \<Rightarrow> string option \<times> go_error + barrier_facts" where
  "cancel_facts x a op sn =
     (case find (\<lambda>r. ro_BrokerOrderID r = at_TargetBrokerOrderID a) (sn_Orders sn) of
        None \<Rightarrow> Inl (Some ''cancel_target_not_working'', Wrapf errPreEffectRejected ''%w: cancel target is not working'')
      | Some target \<Rightarrow>
          if op_Action op = ''cancel'' then Inr \<lparr>bf_Quote = None, bf_Instrument = None, bf_Target = Some target\<rparr>
          else replace_facts x a op target)"

text \<open>The effect of an attempt, and its facts.\<close>

definition effect_of :: "execution_attempt \<Rightarrow> operation \<Rightarrow> string result" where
  "effect_of a op =
     (if at_Intent a = ''place''
      then if op_Action op = ''open'' then Inr ''place_open''
           else if op_Action op = ''close'' then Inr ''place_close''
           else Inl (Errorf ''pre-effect place action is invalid'' [])
      else if at_Intent a = ''cancel''
      then if op_Action op = ''cancel'' then Inr ''cancel_order''
           else if op_Action op = ''open'' \<or> op_Action op = ''close'' then Inr ''replace_cancel''
           else Inl (Errorf ''pre-effect cancel action is invalid'' [])
      else Inl (Errorf ''pre-effect intent is unsupported'' []))"

definition market_facts ::
  "barrier_env \<Rightarrow> execution_attempt \<Rightarrow> operation \<Rightarrow> provider_snapshot \<Rightarrow> string option \<times> go_error + barrier_facts" where
  "market_facts x a op sn = (if at_Intent a = ''place'' then place_facts x a op else cancel_facts x a op sn)"

definition manifest_input ::
  "barrier_env \<Rightarrow> execution_attempt \<Rightarrow> string \<Rightarrow> broker_observation \<Rightarrow> barrier_facts \<Rightarrow> pre_effect_evaluation \<Rightarrow> pre_effect_manifest" where
  "manifest_input x a effect b f e =
     \<lparr>pm_ID = [], pm_AttemptID = at_ID a, pm_FencingToken = at_Attempt a, pm_AccountID = ob_AccountID b,
      pm_Effect = effect, pm_ObservationID = ob_ID b, pm_ObservationGeneration = ob_Generation b,
      pm_ObservationManifestDigest = ob_ManifestDigest b, pm_TargetBrokerOrderID = at_TargetBrokerOrderID a,
      pm_Facts = be_Facts x \<lparr>pf_SnapshotCompletedAt = ob_CompletedAt b, pf_Quote = bf_Quote f,
        pf_Instrument = bf_Instrument f, pf_TargetOrder = bf_Target f, pf_Evaluation = e\<rparr>,
      pm_FactsDigest = [], pm_ExpiresAt = pe_FreshnessExpiresAt e, pm_CreatedAt = 0, pm_Ledger = ''live'',
      pm_ActivePolicyRevisionID = pe_ActivePolicyRevisionID e, pm_ActivePolicyGeneration = pe_ActivePolicyGeneration e,
      pm_ActivePolicyDigest = pe_ActivePolicyDigest e, pm_ExpectedLocalOpenRisk = pe_LocalOpenRisk e,
      pm_ExpectedLocalHeldCash = pe_LocalHeldCash e, pm_ExpectedOtherCloseQty = pe_OtherLocalCloseQty e\<rparr>"

text \<open>The last two transactions.\<close>

definition record_manifest_of ::
  "barrier_env \<Rightarrow> execution_attempt \<Rightarrow> string \<Rightarrow> broker_observation \<Rightarrow> barrier_facts \<Rightarrow> pre_effect_evaluation \<Rightarrow> db \<Rightarrow> string outcome" where
  "record_manifest_of x a effect b f e s0 =
     (let s = be_Other x 3 s0
      in case RecordPreEffectManifest (be_Codec x) (be_RecordedAt x) (be_ManifestID x) (manifest_input x a effect b f e) s of
           Inl err \<Rightarrow> (Inl (if errors_is err ErrPreEffectStale then Wrapf errPreEffectRejected ''%w: %v'' else err),
                      recordPreEffectRefusal a ''manifest_persistence_failed'' (be_Other x 4 s))
         | Inr (m, s') \<Rightarrow> (Inr (pm_ID m), s'))"

definition judge_and_record ::
  "barrier_env \<Rightarrow> execution_attempt \<Rightarrow> operation \<Rightarrow> bool \<Rightarrow> string \<Rightarrow> provider_snapshot \<Rightarrow> barrier_facts \<Rightarrow> db \<Rightarrow> string outcome" where
  "judge_and_record x a op replay effect sn f s0 =
     (let s = be_Other x 1 s0
      in case one_row (\<lambda>w. ow_ID w = at_OperationID a) (db_Operations s) of
           Inl err \<Rightarrow> (Inl err, s)
         | Inr w \<Rightarrow>
            (let s = be_Other x 2 s
             in case evaluateLivePreEffect (be_Rules x) sn a w op f replay s of
                  Inl err \<Rightarrow> (Inl err, recordPreEffectRefusal a ''aggregate_gate_failed'' s)
                | Inr e \<Rightarrow>
                   (case sn_Observation sn of
                      None \<Rightarrow> (Inl (Errorf ''provider snapshot is partial'' []), s)
                    | Some b \<Rightarrow> record_manifest_of x a effect b f e s)))"

definition captureLivePreEffect :: "barrier_env \<Rightarrow> execution_attempt \<Rightarrow> operation \<Rightarrow> bool \<Rightarrow> db \<Rightarrow> string outcome" where
  "captureLivePreEffect x a op replay s =
     (if \<not> be_Live x then (Inl (Errorf ''pre-effect manifests are live-only'' []), s)
      else case assertLiveAccountBinding x (at_OperationID a) s of
        (Inl e, s) \<Rightarrow> (Inl e, s)
      | (Inr _, s) \<Rightarrow>
         (case captureProviderSnapshotFrom (be_Observations x) (be_Bound x) (be_LocalGeneration x) (be_Generation x)
             (be_ObservationID x) ''pre_effect'' (be_Provider x) (be_Other x 0 s) of
            (Inl _, s) \<Rightarrow> (Inl (unavailable ''%w: account snapshot''), recordPreEffectRefusal a ''account_snapshot_unavailable'' s)
          | (Inr sn, s) \<Rightarrow>
             (case effect_of a op of
                Inl e \<Rightarrow> (Inl e, s)
              | Inr effect \<Rightarrow>
                 (case market_facts x a op sn of
                    Inl (reason, e) \<Rightarrow> (Inl e, case reason of None \<Rightarrow> s | Some r \<Rightarrow> recordPreEffectRefusal a r s)
                  | Inr f \<Rightarrow> judge_and_record x a op replay effect sn f s))))"

section \<open>What lets an open through\<close>

lemma decoded_canonical: "DecodeCanonical d m md h v body digest = Inr p \<Longrightarrow> canonical_policy p"
  by (simp add: DecodeCanonical_ok)

lemma active_canonical:
  assumes "LoadKernelPolicyAuthority c now s = Inr r"
  shows "canonical_policy (kp_Policy r)"
proof -
  obtain r0 where r0: "activeKernelPolicyRevision c s = Inr r0" "r = r0\<lparr>kp_ObservedAt := now\<rparr>"
    using assms by (auto simp: LoadKernelPolicyAuthority_def Let_def split: sum.split_asm)
  have "canonical_policy (kp_Policy r0)"
    using r0(1) by (auto simp: activeKernelPolicyRevision_def split: option.split_asm sum.split_asm dest: decoded_canonical)
  then show ?thesis using r0(2) by simp
qed

lemma bound_canonical:
  assumes "BoundKernelPolicy c now (Some w) s = Inr r"
  shows "canonical_policy (kp_Policy r)"
  using assms by (auto simp: BoundKernelPolicy_def Let_def split: option.split_asm sum.split_asm if_split_asm dest: decoded_canonical)

lemma add_micros_sum: "add_micros acc vs = Inr t \<Longrightarrow> t = acc + sum_list vs"
  by (induction vs arbitrary: acc) (fastforce simp: Add_iff add.assoc split: sum.split_asm)+

lemma addMicros_sum: "addMicros vs = Inr t \<Longrightarrow> t = sum_list vs"
  using add_micros_sum by (fastforce simp: addMicros_def)

lemma spendable_exact:
  assumes "spendableBuyingPower a held = Inr bp" "0 \<le> held" "in_int64 held"
  shows "bp = a - held"
proof -
  have "in_int64 (- held)" using assms(2,3) by (auto simp: in_int64_def)
  then show ?thesis using assms(1) by (simp add: spendableBuyingPower_def Add_iff wrap64_id)
qed

lemma live_evaluate_cases:
  assumes "evaluateLivePreEffect x sn a w op f replay s = Inr e"
  obtains active bound where "LoadKernelPolicyAuthority (rl_Policies x) (rl_Clock x 2) s = Inr active"
    "BoundKernelPolicy (rl_Policies x) (rl_Clock x 3) (Some w) s = Inr bound"
    "evaluate_locked x sn a w op f replay active bound s = Inr e"
  using assms by (auto simp: evaluateLivePreEffect_def split: sum.split_asm)

lemma evaluate_locked_cases:
  assumes "evaluate_locked x sn a w op f replay active bound s = Inr e"
  obtains deadline effectOp where
    "freshness_deadline (minInt (QuoteMaxAgeSec (kp_Policy bound)) (QuoteMaxAgeSec (kp_Policy active))) (rl_Clock x 0)
       (case sn_Observation sn of None \<Rightarrow> 0 | Some b \<Rightarrow> ob_StartedAt b) (bf_Quote f) (bf_Instrument f) = Inr deadline"
    "\<not> proposal_stale (rl_Clock x 0) a op w"
    "\<not> (replay \<and> at_Intent a = ''place'' \<and> sameReferenceOrderVisible (sn_Orders sn) (at_ClientOrderID a))"
    "effect_operation s a op = Inr effectOp"
    "judge_effect (rl_Marshal x) (rl_Sha x) (rl_Window x) (rl_Clock x) (kp_Policy bound) (kp_Policy active)
       (review_approved w) sn a op effectOp (bf_Quote f) (bf_Target f)
       (blank_evaluation active (ledgerResources s ''live'' (at_OperationID a))
         (held_close_excluding ''live'' (operationSymbol op) (at_OperationID a) s) deadline) s = Inr e"
  using assms unfolding evaluate_locked_def Let_def case_sum_Inr_iff if_Inl_eq_Inr by blast

lemma effect_operation_action: "effect_operation s a op = Inr op' \<Longrightarrow> op_Action op' = op_Action op"
  by (auto simp: effect_operation_def Let_def split: if_split_asm sum.split_asm)

lemma judge_open_cases:
  assumes "judge_open window clock bound active reviewed sn i op q e s = Inr e'"
  obtains pr wr agg bp day where "aggregateExternalOpenRisk sn s = Inr (pr, wr)" "addMicros [pe_LocalOpenRisk e, pr, wr] = Inr agg"
    "spendableBuyingPower (a_BuyingPower (sn_Account sn)) (pe_LocalHeldCash e) = Inr bp" "window (clock 1) = Inr day"
    "\<not> authority_stale reviewed (ClassifyAt op bound (barrier_day (CountTradesForDayExcluding s day i) agg (sn_Account sn) bp) q (clock 0))
       (ClassifyAt op active (barrier_day (CountTradesForDayExcluding s day i) agg (sn_Account sn) bp) q (clock 0))"
    "e' = e\<lparr>pe_ExternalPositionRisk := pr, pe_ExternalWorkingRisk := wr, pe_AggregateOpenRisk := agg, pe_EffectiveBuyingPower := bp\<rparr>"
  using assms unfolding judge_open_def Let_def case_sum_Inr_iff if_Inl_eq_Inr
  by (auto simp: case_sum_Inr_iff if_Inl_eq_Inr simp del: not_not)

text \<open>The risk the account carries without the operation, in millionths of a unit: what the ledger holds,
  positions beyond it at their average price, and what the orders of others may still open.\<close>

definition account_exposure :: "provider_snapshot \<Rightarrow> string \<Rightarrow> db \<Rightarrow> int" where
  "account_exposure sn operationID s =
     lr_OpenRisk (ledgerResources s ''live'' operationID) * Scale + total (excess_cost s) (sn_Positions sn) +
     total opening_cost (filter (\<lambda>r. \<not> own_order sn r \<and> may_open (sn_Positions sn) r) (sn_Orders sn))"

text \<open>An open under a policy, beside everything else the account carries.\<close>

definition fits_policy :: "policy \<Rightarrow> provider_snapshot \<Rightarrow> int \<Rightarrow> operation \<Rightarrow> bool" where
  "fits_policy p sn exposure op \<longleftrightarrow> allows_symbol p (op_Underlying op) \<and>
     op_DerivedMaxRisk op * (100 * Scale) \<le> a_Equity (sn_Account sn) * MaxRiskPerTradePct (HardLimits p) \<and>
     (exposure + op_DerivedMaxRisk op * Scale) * 100 \<le> a_Equity (sn_Account sn) * MaxTotalOpenRiskPct (HardLimits p)"

lemma barrier_class:
  assumes "op_Action op = ''open''" "canonical_policy p" "in_int64 (a_Equity acct)"
  shows "Class (ClassifyAt op p (barrier_day n risk acct bp) q now) =
    (if \<not> admissible op p (barrier_day n risk acct bp) q now then ''REJECT''
     else if checklist op p (barrier_day n risk acct bp) q now then ''B'' else ''C'')"
  using classify_open_class[OF canonical_percent_range[OF assms(2)], of "barrier_day n risk acct bp"] assms(1,3)
  by (simp add: ClassifyAt_def barrier_day_def)

lemma checklist_fits:
  assumes "checklist op p (barrier_day n risk (sn_Account sn) bp) q now" "exposure \<le> risk * Scale"
  shows "fits_policy p sn exposure op" "n < MaxNewTradesPerDay (HardLimits p)"
proof -
  have "(exposure + op_DerivedMaxRisk op * Scale) * 100 \<le> (risk * Scale + op_DerivedMaxRisk op * Scale) * 100"
    using assms(2) by simp
  also have "\<dots> = (risk + op_DerivedMaxRisk op) * (100 * Scale)" by (simp add: algebra_simps)
  also have "\<dots> \<le> a_Equity (sn_Account sn) * MaxTotalOpenRiskPct (HardLimits p)"
    using assms(1) by (simp add: checklist_def within_share_def barrier_day_def)
  finally show "fits_policy p sn exposure op"
    using assms(1) by (simp add: fits_policy_def checklist_def within_share_def barrier_day_def)
  show "n < MaxNewTradesPerDay (HardLimits p)" using assms(1) by (simp add: checklist_def barrier_day_def)
qed

lemma freshness_live: "freshness_deadline m now st q i = Inr d \<Longrightarrow> now < d"
  by (auto simp: freshness_deadline_def case_sum_Inr_iff if_Inl_eq_Inr simp del: not_not split: if_split_asm)

lemma blank_evaluation_fields [simp]:
  "pe_LocalOpenRisk (blank_evaluation r l q d) = lr_OpenRisk l" "pe_LocalHeldCash (blank_evaluation r l q d) = lr_HeldCash l"
  "pe_OtherLocalCloseQty (blank_evaluation r l q d) = q" "pe_FreshnessExpiresAt (blank_evaluation r l q d) = d"
  by (simp_all add: blank_evaluation_def)

text \<open>C7: An open goes out only when the account can carry it. If the barrier lets an open through, then its cash and the cash
  already reserved are within the buying power, the equity is known and positive, no order of others is of unknown
  effect or size, and the facts are still fresh; and under the policy now active and under the one the proposal
  was bound to, the quote is usable or the order bounded in price, and the declared risk is not exceeded. If no human
  approved the proposal, then moreover, under each of the two policies, the risk of the operation, together with
  the ledger's own open risk, the cost of every position beyond it and the cost of everything the working orders of
  others may still open, is within the share of the equity that the policy allows, and so is the operation alone
  within the share for one trade. An approved proposal is exempt from these shares.\<close>
theorem live_open_within_account:
  assumes run: "evaluateLivePreEffect x sn a w op f replay s = Inr e"
    and place: "at_Intent a = ''place''" "op_Action op = ''open''"
    and ints: "\<forall>p\<in>set (sn_Positions sn). in_int64 (p_Qty p)" "in_int64 (a_Equity (sn_Account sn))"
      "0 \<le> lr_HeldCash (ledgerResources s ''live'' (at_OperationID a))"
      "in_int64 (lr_HeldCash (ledgerResources s ''live'' (at_OperationID a)))"
  shows "\<exists>active bound effectOp.
    LoadKernelPolicyAuthority (rl_Policies x) (rl_Clock x 2) s = Inr active \<and>
    BoundKernelPolicy (rl_Policies x) (rl_Clock x 3) (Some w) s = Inr bound \<and>
    effect_operation s a op = Inr effectOp \<and>
    (review_approved w \<or> (\<forall>p\<in>{kp_Policy bound, kp_Policy active}.
       fits_policy p sn (account_exposure sn (at_OperationID a) s) effectOp)) \<and>
    (\<forall>p\<in>{kp_Policy bound, kp_Policy active}. (quote_usable (bf_Quote f) p (rl_Clock x 0) \<or> priceBoundedOpen effectOp) \<and>
       \<not> declared_exceeded effectOp p) \<and>
    op_RequiredCash effectOp + lr_HeldCash (ledgerResources s ''live'' (at_OperationID a)) \<le> a_BuyingPower (sn_Account sn) \<and>
    a_EquityKnown (sn_Account sn) \<and> 0 < a_Equity (sn_Account sn) \<and>
    (\<forall>p\<in>set (sn_Positions sn). p_Kind p \<noteq> ''option'' \<and> 0 \<le> p_Qty p) \<and>
    (\<forall>r\<in>set (sn_Orders sn). own_order sn r \<or> bounded_order (sn_Positions sn) r) \<and>
    rl_Clock x 0 < pe_FreshnessExpiresAt e"
proof -
  let ?res = "ledgerResources s ''live'' (at_OperationID a)" and ?acct = "sn_Account sn" and ?now = "rl_Clock x 0"
  obtain active bound where load: "LoadKernelPolicyAuthority (rl_Policies x) (rl_Clock x 2) s = Inr active"
    "BoundKernelPolicy (rl_Policies x) (rl_Clock x 3) (Some w) s = Inr bound"
    and locked: "evaluate_locked x sn a w op f replay active bound s = Inr e"
    by (rule live_evaluate_cases[OF run])
  obtain deadline op' where fresh: "freshness_deadline (minInt (QuoteMaxAgeSec (kp_Policy bound)) (QuoteMaxAgeSec (kp_Policy active))) ?now
       (case sn_Observation sn of None \<Rightarrow> 0 | Some b \<Rightarrow> ob_StartedAt b) (bf_Quote f) (bf_Instrument f) = Inr deadline"
    and op': "effect_operation s a op = Inr op'"
    and judged: "judge_effect (rl_Marshal x) (rl_Sha x) (rl_Window x) (rl_Clock x) (kp_Policy bound) (kp_Policy active)
       (review_approved w) sn a op op' (bf_Quote f) (bf_Target f)
       (blank_evaluation active ?res (held_close_excluding ''live'' (operationSymbol op) (at_OperationID a) s) deadline) s = Inr e"
    by (rule evaluate_locked_cases[OF locked])
  have act: "op_Action op' = ''open''" using effect_operation_action[OF op'] place(2) by simp
  have judged': "judge_open (rl_Window x) (rl_Clock x) (kp_Policy bound) (kp_Policy active) (review_approved w) sn (at_OperationID a) op' (bf_Quote f)
       (blank_evaluation active ?res (held_close_excluding ''live'' (operationSymbol op) (at_OperationID a) s) deadline) s = Inr e"
    using judged place(1) act by (simp add: judge_effect_def)
  obtain pr wr agg bp day where agg: "aggregateExternalOpenRisk sn s = Inr (pr, wr)" "addMicros [lr_OpenRisk ?res, pr, wr] = Inr agg"
    and bp: "spendableBuyingPower (a_BuyingPower ?acct) (lr_HeldCash ?res) = Inr bp"
    and ok: "\<not> authority_stale (review_approved w)
       (ClassifyAt op' (kp_Policy bound) (barrier_day (CountTradesForDayExcluding s day (at_OperationID a)) agg ?acct bp) (bf_Quote f) ?now)
       (ClassifyAt op' (kp_Policy active) (barrier_day (CountTradesForDayExcluding s day (at_OperationID a)) agg ?acct bp) (bf_Quote f) ?now)"
    and e: "pe_FreshnessExpiresAt e = deadline"
    by (rule judge_open_cases[OF judged']) simp
  let ?day = "barrier_day (CountTradesForDayExcluding s day (at_OperationID a)) agg ?acct bp"
  note covers = aggregate_risk_covers[OF agg(1) ints(1)]
  have "account_exposure sn (at_OperationID a) s \<le> (lr_OpenRisk ?res + pr + wr) * Scale"
    using covers(3,5) by (simp add: account_exposure_def algebra_simps)
  then have exposure: "account_exposure sn (at_OperationID a) s \<le> agg * Scale" using addMicros_sum[OF agg(2)] by (simp add: add.assoc)
  note verdicts = barrier_class[OF act bound_canonical[OF load(2)] ints(2)] barrier_class[OF act active_canonical[OF load(1)] ints(2)]
  have adm: "admissible op' (kp_Policy active) ?day (bf_Quote f) ?now" "admissible op' (kp_Policy bound) ?day (bf_Quote f) ?now"
    using ok unfolding authority_stale_def verdicts by (simp_all split: if_split_asm)
  have "review_approved w \<or> (\<forall>p\<in>{kp_Policy bound, kp_Policy active}. checklist op' p ?day (bf_Quote f) ?now)"
    using ok unfolding authority_stale_def verdicts by (auto split: if_split_asm)
  then have fits: "review_approved w \<or> (\<forall>p\<in>{kp_Policy bound, kp_Policy active}. fits_policy p sn (account_exposure sn (at_OperationID a) s) op')"
    using checklist_fits(1)[OF _ exposure] by blast
  have "op_RequiredCash op' \<le> bp" "a_EquityKnown ?acct" "0 < a_Equity ?acct"
    using adm(1) by (simp_all add: admissible_def barrier_day_def)
  moreover have "\<forall>p\<in>{kp_Policy bound, kp_Policy active}. (quote_usable (bf_Quote f) p ?now \<or> priceBoundedOpen op') \<and>
      \<not> declared_exceeded op' p"
    using adm by (simp add: admissible_def)
  ultimately show ?thesis
    using load op' fits covers(1,4) spendable_exact[OF bp ints(3,4)] freshness_live[OF fresh] e by auto
qed

text \<open>C8: A close never reverses a position. When the barrier lets a close through, the account has exactly one position
  in the symbol, it is the one the proposal was decided on, the order is on the side that reduces it, every
  working order of others has a decided effect, and the quantity of the close together with the other closes
  this ledger has reserved and everything the orders of others may still close is at most the position.\<close>
theorem live_close_within_position:
  assumes run: "evaluateLivePreEffect x sn a w op f replay s = Inr e"
    and place: "at_Intent a = ''place''" "op_Action op = ''close''"
    and ints: "\<forall>p\<in>set (sn_Positions sn). in_int64 (p_Qty p)"
      "0 \<le> held_close_excluding ''live'' (operationSymbol op) (at_OperationID a) s"
  shows "\<exists>effectOp p. effect_operation s a op = Inr effectOp \<and>
    filter (\<lambda>p. p_Symbol p = operationSymbol effectOp \<and> p_Qty p \<noteq> 0) (sn_Positions sn) = [p] \<and>
    \<not> position_changed effectOp p \<and> op_Side effectOp = closing_side p \<and>
    pe_ExternalWorkingClose e = total remaining_qty (filter (\<lambda>r. \<not> own_order sn r \<and>
      (ro_Symbol r = p_Symbol p \<and> ro_Kind r = p_Kind p) \<and> surely_closes (sn_Positions sn) r) (sn_Orders sn)) \<and>
    (\<forall>r\<in>set (sn_Orders sn). own_order sn r \<or> decided (sn_Positions sn) r) \<and>
    op_Qty effectOp + held_close_excluding ''live'' (operationSymbol op) (at_OperationID a) s + pe_ExternalWorkingClose e
      \<le> \<bar>p_Qty p\<bar>"
proof -
  obtain active bound where locked: "evaluate_locked x sn a w op f replay active bound s = Inr e"
    by (rule live_evaluate_cases[OF run])
  obtain deadline op' where op': "effect_operation s a op = Inr op'"
    and judged: "judge_effect (rl_Marshal x) (rl_Sha x) (rl_Window x) (rl_Clock x) (kp_Policy bound) (kp_Policy active)
       (review_approved w) sn a op op' (bf_Quote f) (bf_Target f)
       (blank_evaluation active (ledgerResources s ''live'' (at_OperationID a))
         (held_close_excluding ''live'' (operationSymbol op) (at_OperationID a) s) deadline) s = Inr e"
    by (rule evaluate_locked_cases[OF locked])
  have act: "op_Action op' = ''close''" using effect_operation_action[OF op'] place(2) by simp
  obtain external where "validateFreshCloseCapacity sn op' (held_close_excluding ''live'' (operationSymbol op) (at_OperationID a) s) = Inr external"
    and "pe_ExternalWorkingClose e = external"
    using judged place(1) act by (auto simp: judge_effect_def split: sum.split_asm)
  then show ?thesis using close_never_reverses[OF _ ints(2,1)] op' by blast
qed

section \<open>A sample account at the barrier\<close>

definition barrier_db :: db where
  "barrier_db = sample_authority\<lparr>
     db_PolicyRevisions := [\<lparr>kr_ID = 7, kr_SchemaVersion = 1, kr_Policy = ''P'', kr_Digest = replicate 32 CHR ''x'',
       kr_RecordedAt = 10, kr_RecordedBy = ''ada'', kr_Reason = ''first'', kr_ChangeClass = ''initial''\<rparr>],
     db_PolicyHead := Some \<lparr>kh_RevisionID = 7, kh_Generation = 1, kh_ActivatedAt = 10, kh_ActivatedBy = ''ada'', kh_Reason = ''first''\<rparr>,
     db_Events := [\<lparr>ev_Kind = activation_kind, ev_Payload = [(''revision_id'', PInt 7), (''generation'', PInt 1),
       (''recorded_by'', PText ''ada'')], ev_TS = Some 10\<rparr>],
     db_Lots := [sample_lot ''f1'' 10 1000000 99000001]\<rparr>"

definition barrier_row :: operation_row where
  "barrier_row = (demo_operation ''O'')\<lparr>ow_Class := ''B'', ow_ExpiresAt := Some 2000000000000,
     ow_KernelPolicyRevisionID := Some 7, ow_KernelPolicyDigest := Some (hex_encode (replicate 32 CHR ''x''))\<rparr>"

definition held_position :: position where
  "held_position = \<lparr>p_PositionID = ''P'', p_InstrumentID = [], p_Symbol = ''SPY'', p_Qty = 10000000, p_AvgPrice = 100000000,
     p_AvgPriceKnown = True, p_Kind = ''equity'', p_Multiplier = 1, p_Source = ''rh'', p_AsOf = 5\<rparr>"

definition other_order :: "string \<Rightarrow> string \<Rightarrow> read_order" where
  "other_order side effect = sample_report\<lparr>ro_BrokerOrderID := ''b7'', ro_ClientOrderID := [], ro_Side := side,
     ro_PositionEffect := effect, ro_Qty := 2000000, ro_LimitPrice := 50000000\<rparr>"

definition barrier_observation :: broker_observation where
  "barrier_observation = \<lparr>ob_ID = ''Q'', ob_Generation = 1, ob_AccountID = ''acct'', ob_Source = ''rh'',
     ob_Purpose = ''pre_effect'', ob_StartedAt = 1005000000000, ob_CompletedAt = 1006000000000, ob_Status = ''complete'',
     ob_ManifestDigest = [], ob_LocalStateGeneration = 0\<rparr>"

definition barrier_snapshot :: "read_order \<Rightarrow> provider_snapshot" where
  "barrier_snapshot r = \<lparr>sn_Observation = Some barrier_observation,
     sn_View = Some \<lparr>av_Observation = barrier_observation, av_Objects = []\<rparr>,
     sn_Account = no_account\<lparr>a_Equity := 20000000000, a_EquityKnown := True, a_BuyingPower := 5000000000\<rparr>,
     sn_Positions = [held_position], sn_Orders = [r]\<rparr>"

definition barrier_rules_now :: barrier_rules where
  "barrier_rules_now = \<lparr>rl_Policies = sample_codec, rl_Marshal = (\<lambda>_. []), rl_Sha = (\<lambda>t. t), rl_Window = (\<lambda>t. Inr 0),
     rl_Clock = (\<lambda>_. 1010000000000)\<rparr>"

definition barrier_market :: barrier_facts where
  "barrier_market = \<lparr>bf_Quote = Some sample_quote, bf_Instrument = None, bf_Target = None\<rparr>"

definition barrier_close :: operation where
  "barrier_close = sample_open\<lparr>op_Action := ''close'', op_Side := ''sell'', op_Qty := 3000000, op_BrokerPositionID := ''P'',
     op_DecisionPositionQty := 10000000, op_InstrumentID := ''I''\<rparr>"

definition barrier_verdict :: "operation \<Rightarrow> read_order \<Rightarrow> pre_effect_evaluation result" where
  "barrier_verdict op r =
     evaluateLivePreEffect barrier_rules_now (barrier_snapshot r) demo_attempt barrier_row op barrier_market False barrier_db"

lemma barrier_passes:
  "is_ok (barrier_verdict sample_open (other_order ''buy'' ''open''))"
  "is_ok (barrier_verdict barrier_close (other_order ''sell'' ''close''))"
  by code_simp+

lemma barrier_ints: "\<forall>p\<in>set (sn_Positions (barrier_snapshot r)). in_int64 (p_Qty p)" "in_int64 (a_Equity (sn_Account (barrier_snapshot r)))"
  by (simp_all add: barrier_snapshot_def held_position_def no_account_def in_int64_def)

theorem live_open_within_account_witness:
  "fits_policy sample_policy (barrier_snapshot (other_order ''buy'' ''open''))
     (account_exposure (barrier_snapshot (other_order ''buy'' ''open'')) ''O'' barrier_db) sample_open"
proof -
  obtain e where e: "evaluateLivePreEffect barrier_rules_now (barrier_snapshot (other_order ''buy'' ''open'')) demo_attempt barrier_row
      sample_open barrier_market False barrier_db = Inr e"
    using barrier_passes(1) by (auto simp: barrier_verdict_def is_ok_def split: sum.split_asm)
  have held: "lr_HeldCash (ledgerResources barrier_db ''live'' (at_OperationID demo_attempt)) = 0" by code_simp
  then have cash: "0 \<le> lr_HeldCash (ledgerResources barrier_db ''live'' (at_OperationID demo_attempt))"
    "in_int64 (lr_HeldCash (ledgerResources barrier_db ''live'' (at_OperationID demo_attempt)))" by (simp_all add: in_int64_def)
  have place: "at_Intent demo_attempt = ''place''" "op_Action sample_open = ''open''" "at_OperationID demo_attempt = ''O''"
    by (simp_all add: demo_attempt_def sample_open_def)
  have rules: "rl_Policies barrier_rules_now = sample_codec" "\<And>n. rl_Clock barrier_rules_now n = 1010000000000"
    by (simp_all add: barrier_rules_now_def)
  obtain active where "LoadKernelPolicyAuthority sample_codec 1010000000000 barrier_db = Inr active" "kp_Policy active = sample_policy"
  proof -
    have "case LoadKernelPolicyAuthority sample_codec 1010000000000 barrier_db of Inl _ \<Rightarrow> False | Inr r \<Rightarrow> kp_Policy r = sample_policy"
      by code_simp
    then show thesis using that by (auto split: sum.split_asm)
  qed
  moreover have "effect_operation barrier_db demo_attempt sample_open = Inr sample_open"
    by (simp add: effect_operation_def demo_attempt_def)
  moreover have "\<not> review_approved barrier_row" by (simp add: review_approved_def barrier_row_def)
  ultimately show ?thesis
    using live_open_within_account[OF e place(1,2) barrier_ints cash] unfolding rules place(3) by auto
qed

theorem live_close_within_position_witness:
  "\<exists>e. barrier_verdict barrier_close (other_order ''sell'' ''close'') = Inr e \<and>
     op_Qty barrier_close + pe_ExternalWorkingClose e \<le> p_Qty held_position"
proof -
  obtain e where e: "evaluateLivePreEffect barrier_rules_now (barrier_snapshot (other_order ''sell'' ''close'')) demo_attempt barrier_row
      barrier_close barrier_market False barrier_db = Inr e"
    using barrier_passes(2) by (auto simp: barrier_verdict_def is_ok_def split: sum.split_asm)
  have held: "held_close_excluding ''live'' (operationSymbol barrier_close) (at_OperationID demo_attempt) barrier_db = 0" by code_simp
  have place: "at_Intent demo_attempt = ''place''" "op_Action barrier_close = ''close''"
    by (simp_all add: demo_attempt_def barrier_close_def)
  have "effect_operation barrier_db demo_attempt barrier_close = Inr barrier_close"
    by (simp add: effect_operation_def demo_attempt_def)
  moreover have "filter (\<lambda>p. p_Symbol p = operationSymbol barrier_close \<and> p_Qty p \<noteq> 0)
      (sn_Positions (barrier_snapshot (other_order ''sell'' ''close''))) = [held_position]" by code_simp
  ultimately have "op_Qty barrier_close + pe_ExternalWorkingClose e \<le> \<bar>p_Qty held_position\<bar>"
    using live_close_within_position[OF e place barrier_ints(1)] unfolding held by auto
  then show ?thesis using e by (simp add: barrier_verdict_def held_position_def)
qed

section \<open>The manifest of an evaluation\<close>

lemma record_manifest_id: "record_manifest c now inp s = Inr (m, s') \<Longrightarrow> pm_ID m = pm_ID inp"
  by (auto simp: record_manifest_def split: sum.split_asm option.split_asm if_split_asm)

lemma manifest_recorded:
  assumes "RecordPreEffectManifest c now newID input s = Inr (m, s')"
  shows "\<exists>row\<in>set (db_Manifests s'). pm_ID row = pm_ID m \<and> pm_AttemptID row = pm_AttemptID input \<and>
    pm_FencingToken row = pm_FencingToken input \<and> pm_Effect row = pm_Effect input \<and>
    pm_ObservationID row = pm_ObservationID input \<and> pm_ExpiresAt row = pm_ExpiresAt input \<and> pm_Ledger row = pm_Ledger input \<and>
    pm_ActivePolicyRevisionID row = pm_ActivePolicyRevisionID input \<and>
    pm_ActivePolicyGeneration row = pm_ActivePolicyGeneration input \<and>
    pm_ExpectedLocalOpenRisk row = pm_ExpectedLocalOpenRisk input \<and>
    pm_ExpectedLocalHeldCash row = pm_ExpectedLocalHeldCash input \<and> pm_ExpectedOtherCloseQty row = pm_ExpectedOtherCloseQty input"
proof -
  let ?inp = "input\<lparr>pm_AccountID := trim_space (pm_AccountID input),
    pm_TargetBrokerOrderID := trim_space (pm_TargetBrokerOrderID input), pm_ID := (if pm_ID input = [] then newID else pm_ID input)\<rparr>"
  have run: "record_manifest c now ?inp s = Inr (m, s')"
    using assms unfolding RecordPreEffectManifest_def Let_def guarded_ok by blast
  obtain facts where s': "s' = insert_manifest c now facts ?inp s" using record_manifest_effect[OF run] by blast
  have "pm_ID m = pm_ID ?inp" by (rule record_manifest_id[OF run])
  then show ?thesis
    by (intro bexI[of _ "manifest_row c now facts ?inp"]) (simp_all add: s' insert_manifest_def insert_event_def manifest_row_def)
qed

lemma capture_cases:
  assumes "captureLivePreEffect x a op replay s = (Inr mid, s')"
  obtains sn b s1 effect f w e m where "be_AccountID x = Inr (be_Bound x)" "be_Bound x \<noteq> []"
    "captureProviderSnapshotFrom (be_Observations x) (be_Bound x) (be_LocalGeneration x) (be_Generation x) (be_ObservationID x)
       ''pre_effect'' (be_Provider x) (be_Other x 0 s) = (Inr sn, s1)"
    "effect_of a op = Inr effect" "market_facts x a op sn = Inr f" "sn_Observation sn = Some b"
    "one_row (\<lambda>w. ow_ID w = at_OperationID a) (db_Operations (be_Other x 1 s1)) = Inr w"
    "evaluateLivePreEffect (be_Rules x) sn a w op f replay (be_Other x 2 (be_Other x 1 s1)) = Inr e"
    "RecordPreEffectManifest (be_Codec x) (be_RecordedAt x) (be_ManifestID x) (manifest_input x a effect b f e)
       (be_Other x 3 (be_Other x 2 (be_Other x 1 s1))) = Inr (m, s')" "pm_ID m = mid"
proof -
  have live: "be_Live x" using assms by (auto simp: captureLivePreEffect_def split: if_split_asm)
  have bind: "assertLiveAccountBinding x (at_OperationID a) s = (Inr (), s)"
    and acct: "be_AccountID x = Inr (be_Bound x)" "be_Bound x \<noteq> []"
    using assms live by (auto simp: captureLivePreEffect_def assertLiveAccountBinding_def split: if_split_asm)
  obtain sn s1 where sn: "captureProviderSnapshotFrom (be_Observations x) (be_Bound x) (be_LocalGeneration x) (be_Generation x)
      (be_ObservationID x) ''pre_effect'' (be_Provider x) (be_Other x 0 s) = (Inr sn, s1)"
    using assms live bind by (auto simp: captureLivePreEffect_def split: prod.split_asm sum.split_asm)
  obtain effect where effect: "effect_of a op = Inr effect"
    using assms live bind sn by (auto simp: captureLivePreEffect_def split: sum.split_asm)
  obtain f where f: "market_facts x a op sn = Inr f"
    using assms live bind sn effect by (auto simp: captureLivePreEffect_def split: sum.split_asm prod.split_asm)
  have judged: "judge_and_record x a op replay effect sn f s1 = (Inr mid, s')"
    using assms live bind sn effect f by (simp add: captureLivePreEffect_def)
  obtain w where w: "one_row (\<lambda>w. ow_ID w = at_OperationID a) (db_Operations (be_Other x 1 s1)) = Inr w"
    using judged by (auto simp: judge_and_record_def Let_def split: sum.split_asm)
  obtain e where e: "evaluateLivePreEffect (be_Rules x) sn a w op f replay (be_Other x 2 (be_Other x 1 s1)) = Inr e"
    using judged w by (auto simp: judge_and_record_def Let_def split: sum.split_asm)
  obtain b where b: "sn_Observation sn = Some b"
    using judged w e by (auto simp: judge_and_record_def Let_def split: option.split_asm)
  have recorded: "record_manifest_of x a effect b f e (be_Other x 2 (be_Other x 1 s1)) = (Inr mid, s')"
    using judged w e b by (simp add: judge_and_record_def Let_def)
  obtain m where m: "RecordPreEffectManifest (be_Codec x) (be_RecordedAt x) (be_ManifestID x) (manifest_input x a effect b f e)
      (be_Other x 3 (be_Other x 2 (be_Other x 1 s1))) = Inr (m, s')" "pm_ID m = mid"
    using recorded by (auto simp: record_manifest_of_def Let_def split: sum.split_asm prod.split_asm)
  show thesis by (rule that[OF acct sn effect f b w e m])
qed

text \<open>A manifest is recorded only for what was judged on what was observed. If the capture returns a manifest, the provider
  named the bound account; the snapshot it was judged on is a complete observation that was recorded before, of that
  account, whose positions and orders are the provider's answer, and in which exactly the orders that the ledger
  recognises count as its own; the evaluation accepted the effect on it; and the manifest of that id carries the
  attempt, its fencing token, the effect, that observation, and the figures of that evaluation, which the send
  compares with the ledger once more.\<close>
lemma manifest_from_evaluation:
  assumes run: "captureLivePreEffect x a op replay s = (Inr mid, s')"
    and fresh: "unused_observation (be_ObservationID x) (be_Other x 0 s)" "trim_space (be_ObservationID x) \<noteq> []"
    and named: "trim_space (be_Bound x) = be_Bound x" and json: "orders_decode (be_Observations x)"
  shows "\<exists>pv sn b f w e u m. be_Provider x = Some pv \<and> sn_Observation sn = Some b \<and> ob_Status b = ''complete'' \<and>
    ob_AccountID b = be_Bound x \<and> a_ExternalID (sn_Account sn) = be_Bound x \<and>
    pv_Positions pv = Inr (sn_Positions sn) \<and> pv_Orders pv = Inr (sn_Orders sn) \<and>
    (\<forall>r\<in>set (sn_Orders sn). own_order sn r \<longleftrightarrow> recognised (be_Observations x) (be_Bound x) (be_Other x 0 s) r) \<and>
    evaluateLivePreEffect (be_Rules x) sn a w op f replay u = Inr e \<and>
    m \<in> set (db_Manifests s') \<and> pm_ID m = mid \<and> pm_AttemptID m = at_ID a \<and> pm_FencingToken m = at_Attempt a \<and>
    effect_of a op = Inr (pm_Effect m) \<and> pm_ObservationID m = ob_ID b \<and> pm_ExpiresAt m = pe_FreshnessExpiresAt e \<and>
    pm_ExpectedLocalOpenRisk m = pe_LocalOpenRisk e \<and> pm_ExpectedLocalHeldCash m = pe_LocalHeldCash e \<and>
    pm_ExpectedOtherCloseQty m = pe_OtherLocalCloseQty e \<and>
    pm_ActivePolicyRevisionID m = pe_ActivePolicyRevisionID e \<and> pm_ActivePolicyGeneration m = pe_ActivePolicyGeneration e"
proof -
  obtain sn b s1 effect f w e m where acct: "be_Bound x \<noteq> []"
    and sn: "captureProviderSnapshotFrom (be_Observations x) (be_Bound x) (be_LocalGeneration x) (be_Generation x) (be_ObservationID x)
       ''pre_effect'' (be_Provider x) (be_Other x 0 s) = (Inr sn, s1)"
    and effect: "effect_of a op = Inr effect" and b: "sn_Observation sn = Some b"
    and e: "evaluateLivePreEffect (be_Rules x) sn a w op f replay (be_Other x 2 (be_Other x 1 s1)) = Inr e"
    and m: "RecordPreEffectManifest (be_Codec x) (be_RecordedAt x) (be_ManifestID x) (manifest_input x a effect b f e)
       (be_Other x 3 (be_Other x 2 (be_Other x 1 s1))) = Inr (m, s')" "pm_ID m = mid"
    by (rule capture_cases[OF run])
  obtain pv b' where pv: "be_Provider x = Some pv" and b': "sn_Observation sn = Some b'" "ob_Status b' = ''complete''"
      "trim_space (be_Bound x) = [] \<or> ob_AccountID b' = trim_space (be_Bound x)" "a_ExternalID (sn_Account sn) = ob_AccountID b'"
      "pv_Positions pv = Inr (sn_Positions sn)" "pv_Orders pv = Inr (sn_Orders sn)"
      "\<forall>r\<in>set (sn_Orders sn). own_order sn r \<longleftrightarrow> recognised (be_Observations x) (ob_AccountID b') (be_Other x 0 s) r"
    using snapshot_evidence[OF sn fresh json] by blast
  have same: "b' = b" "ob_AccountID b = be_Bound x" using b b'(1,3) acct named by auto
  obtain row where row: "row \<in> set (db_Manifests s')" "pm_ID row = mid" "pm_AttemptID row = at_ID a" "pm_FencingToken row = at_Attempt a"
      "pm_Effect row = effect" "pm_ObservationID row = ob_ID b" "pm_ExpiresAt row = pe_FreshnessExpiresAt e"
      "pm_ExpectedLocalOpenRisk row = pe_LocalOpenRisk e" "pm_ExpectedLocalHeldCash row = pe_LocalHeldCash e"
      "pm_ExpectedOtherCloseQty row = pe_OtherLocalCloseQty e" "pm_ActivePolicyRevisionID row = pe_ActivePolicyRevisionID e"
      "pm_ActivePolicyGeneration row = pe_ActivePolicyGeneration e"
    using manifest_recorded[OF m(1)] m(2) by (auto simp: manifest_input_def)
  show ?thesis
    by (rule exI[of _ pv], rule exI[of _ sn], rule exI[of _ b], rule exI[of _ f], rule exI[of _ w], rule exI[of _ e],
        rule exI[of _ "be_Other x 2 (be_Other x 1 s1)"], rule exI[of _ row])
       (use pv b'(2,4-7) same b e effect row in \<open>simp\<close>)
qed

definition capture_digest :: string where
  "capture_digest = replicate 32 (CHR ''H'')"

definition capture_codec :: observation_codec where
  "capture_codec = sample_observations\<lparr>
     oc_canonical := (\<lambda>v. case v of AccountValue a \<Rightarrow> Inr (oa_AccountID a) | PositionValue p \<Rightarrow> Inr (p_PositionID p)
        | OrderValue r \<Rightarrow> if order_identity r = order_identity (other_order ''buy'' ''open'') then Inr ''b7'' else Inl (Errorf ''json'' [])
        | FillValue f \<Rightarrow> Inl (Errorf ''json'' [])),
     oc_position := (\<lambda>t. Some \<lparr>opn_PositionID = t, opn_Symbol = ''SPY'', opn_Kind = ''equity'', opn_Qty = 10000000\<rparr>),
     oc_order := (\<lambda>t. Some (order_identity (other_order ''buy'' ''open''))), oc_sha256 := (\<lambda>_. capture_digest)\<rparr>"

definition capture_answers :: provider_answers where
  "capture_answers = \<lparr>pv_AccountID = Inr ''acct'',
     pv_Account = Inr (no_account\<lparr>a_ExternalID := ''acct'', a_Equity := 20000000000, a_EquityKnown := True,
       a_BuyingPower := 5000000000, a_Source := ''rh'', a_AsOf := 5\<rparr>),
     pv_Positions = Inr [held_position], pv_Orders = Inr [other_order ''buy'' ''open''],
     pv_StartedAt = 1005000000000, pv_AccountAt = 1005000000000, pv_PositionsAt = 1005000000000, pv_OrdersAt = 1005000000000,
     pv_CompletedAt = 1006000000000\<rparr>"

definition capture_attempt :: execution_attempt where
  "capture_attempt = demo_attempt\<lparr>at_Qty := 2000000, at_Limit := 101000000\<rparr>"

definition capture_open :: operation where
  "capture_open = sample_open\<lparr>op_InstrumentID := ''I''\<rparr>"

definition capture_db :: db where
  "capture_db = barrier_db\<lparr>db_Operations := [barrier_row], db_Attempts := [capture_attempt], db_GateActive := Some ''A'',
     db_GateActiveSince := Some 50\<rparr>"

definition capture_env :: barrier_env where
  "capture_env = \<lparr>be_Rules = barrier_rules_now, be_Live = True, be_Bound = ''acct'', be_AccountID = Inr ''acct'',
     be_Provider = Some capture_answers, be_Observations = capture_codec, be_LocalGeneration = Inr 0, be_Generation = 1,
     be_ObservationID = ''Q'', be_HasMarket = True, be_Quote = (\<lambda>_. Inr sample_quote),
     be_Instrument = (\<lambda>_. Inr \<lparr>i_Symbol = ''SPY'', i_InstrumentID = ''I'', i_Kind = ''equity'', i_Multiplier = 1, i_PriceTick = 10000,
       i_BelowPriceTick = 0, i_TickCutoff = 0, i_QtyIncrement = 1000000, i_Source = ''feed'', i_AsOf = 1000000000000\<rparr>),
     be_LimitMaxAgeSec = 60, be_Now = (\<lambda>_. 1010000000000), be_Facts = (\<lambda>_. ''{}''),
     be_Codec = demo_codec\<lparr>sha256 := (\<lambda>_. capture_digest)\<rparr>, be_RecordedAt = 1010000000000, be_ManifestID = ''M'',
     be_Other = (\<lambda>_ s. s)\<rparr>"

text \<open>The capture is a run of the kernel, so it may stand between the steps of the executor.\<close>

lemma snapshot_run:
  assumes "captureProviderSnapshotFrom c bound g generation newID1 purpose provider s = (r, s')"
  shows "live_steps cd pc limits errtext s s'"
proof (cases "s' = s")
  case False
  then obtain pv lsg acct b where "RecordBrokerObservation c generation newID1 (snapshot_input pv acct purpose lsg) s = Inr (b, s')"
    using assms unfolding captureProviderSnapshotFrom_def Let_def
    by (auto split: option.split_asm sum.split_asm prod.split_asm if_split_asm)
  then show ?thesis using live_step.observe by blast
qed simp

lemma refusal_run: "live_steps cd pc limits errtext s (recordPreEffectRefusal a reason s)"
  unfolding recordPreEffectRefusal_def by (intro r_into_rtranclp live_step.refusal) simp

lemma binding_run: "live_steps cd pc limits errtext s (snd (assertLiveAccountBinding x i s))"
  by (auto simp: assertLiveAccountBinding_def intro!: r_into_rtranclp live_step.refusal)

lemma record_run:
  assumes others: "\<And>k t. live_steps (be_Codec x) pc limits errtext t (be_Other x k t)"
  shows "live_steps (be_Codec x) pc limits errtext s (snd (record_manifest_of x a effect b f e s))"
proof (cases "RecordPreEffectManifest (be_Codec x) (be_RecordedAt x) (be_ManifestID x) (manifest_input x a effect b f e) (be_Other x 3 s)")
  case (Inl err)
  then show ?thesis
    using rtranclp_trans[OF rtranclp_trans[OF others[of s 3] others[of _ 4]] refusal_run]
    by (simp add: record_manifest_of_def)
next
  case (Inr r)
  obtain m t where r: "r = (m, t)" by (cases r)
  have "live_step (be_Codec x) pc limits errtext (be_Other x 3 s) t" using live_step.manifest Inr[unfolded r] by blast
  then show ?thesis using rtranclp.rtrancl_into_rtrancl[OF others[of s 3]] Inr r by (simp add: record_manifest_of_def)
qed

lemma judge_run:
  assumes others: "\<And>k t. live_steps (be_Codec x) pc limits errtext t (be_Other x k t)"
  shows "live_steps (be_Codec x) pc limits errtext s (snd (judge_and_record x a op replay effect sn f s))"
proof (cases "one_row (\<lambda>w. ow_ID w = at_OperationID a) (db_Operations (be_Other x 1 s))")
  case (Inl err)
  then show ?thesis using others[of s 1] by (simp add: judge_and_record_def Let_def)
next
  case (Inr w)
  let ?u = "be_Other x 2 (be_Other x 1 s)"
  have u: "live_steps (be_Codec x) pc limits errtext s ?u" by (rule rtranclp_trans[OF others others])
  show ?thesis
  proof (cases "evaluateLivePreEffect (be_Rules x) sn a w op f replay ?u")
    case (Inl err)
    then show ?thesis using Inr rtranclp_trans[OF u refusal_run] by (simp add: judge_and_record_def Let_def)
  next
    case e: (Inr e)
    show ?thesis
    proof (cases "sn_Observation sn")
      case None
      then show ?thesis using Inr e u by (simp add: judge_and_record_def Let_def)
    next
      case (Some b)
      then show ?thesis using Inr e rtranclp_trans[OF u record_run[OF others]] by (simp add: judge_and_record_def Let_def)
    qed
  qed
qed

lemma capture_run:
  assumes others: "\<And>k t. live_steps (be_Codec x) pc limits errtext t (be_Other x k t)"
  shows "live_steps (be_Codec x) pc limits errtext s (snd (captureLivePreEffect x a op replay s))"
proof (cases "be_Live x")
  case True
  obtain r t where bind: "assertLiveAccountBinding x (at_OperationID a) s = (r, t)" by (metis surj_pair)
  have t: "live_steps (be_Codec x) pc limits errtext s t" using binding_run[of _ pc limits errtext s x "at_OperationID a"] bind by simp
  obtain q v where snap: "captureProviderSnapshotFrom (be_Observations x) (be_Bound x) (be_LocalGeneration x) (be_Generation x)
      (be_ObservationID x) ''pre_effect'' (be_Provider x) (be_Other x 0 t) = (q, v)" by (metis surj_pair)
  have v: "live_steps (be_Codec x) pc limits errtext s v"
    by (rule rtranclp_trans[OF rtranclp_trans[OF t others] snapshot_run[OF snap]])
  note facts = True bind snap t v rtranclp_trans[OF v refusal_run] rtranclp_trans[OF v judge_run[OF others]]
  show ?thesis
    using facts unfolding captureLivePreEffect_def
    by (cases r; cases q; simp; cases "effect_of a op"; simp; cases "market_facts x a op (projr q)"; auto split: option.splits prod.splits)
qed (simp add: captureLivePreEffect_def)

end
