(* ===== verification/Executor.thy ===== *)
theory Executor
  imports Live_Barrier
begin

text \<open>
  The execution of a claimed attempt, \<open>executeClaimedAttemptWithReplay\<close> of
  \<^verbatim>\<open>kernel/cmd/kernel/main.go\<close>: evidence, pre-effect manifest, durable mark, one call of the broker, and the
  resolution by its answer. The function runs on the ledger, one transaction after another; between
  any two of them other workers may change it (\<open>xe_Other k\<close> before the k-th). It returns its
  result, the ledger and the calls it made.

  Arguments stand for the broker and its client, for JSON, and for the capture of the pre-effect facts, so that
  what is proved of the executor holds for any capture that is a run of the kernel; \<open>captureLivePreEffect\<close> of
  \<open>Live_Barrier\<close> is put in its place in \<open>Judged_Execution\<close>.
\<close>

datatype broker_call = PlaceOrder place_request | CancelOrder string

text \<open>\<open>rhmcp.MutationErrorFacts\<close> of a failed call.\<close>

record mutation_failure =
  mf_Kind :: string
  mf_Code :: string
  mf_Detail :: string
  mf_Classified :: bool

record exec_env =
  xe_Live :: bool
  xe_Kinds :: "(string \<Rightarrow> bool) option"
  xe_HasExecution :: bool
  xe_Decode :: "operation_row \<Rightarrow> operation result"
  xe_BoundAccount :: string
  xe_Marshal :: "provider_place_intent \<Rightarrow> string"
  xe_Unmarshal :: "string \<Rightarrow> provider_place_intent option"
  xe_Codec :: codec
  xe_Capture :: "execution_attempt \<Rightarrow> operation \<Rightarrow> bool \<Rightarrow> db \<Rightarrow> string result \<times> db"
  xe_Guard :: int
  xe_Broker :: "broker_call \<Rightarrow> mutation_failure + order_result"
  xe_OrderFacts :: "order_result \<Rightarrow> string"
  xe_Errtext :: "go_error \<Rightarrow> string"
  xe_Clock :: "nat \<Rightarrow> nat \<Rightarrow> time"
  xe_NewID :: "nat \<Rightarrow> nat \<Rightarrow> string"
  xe_Other :: "nat \<Rightarrow> db \<Rightarrow> db"

definition errBrokerMutationFailed :: go_error where
  "errBrokerMutationFailed = Sentinel ''broker mutation failed''"

definition errBrokerResultUnknown :: go_error where
  "errBrokerResultUnknown = Sentinel ''broker result uncertain''"

text \<open>\<open>errors.Join\<close> of an error and the error of a further call.\<close>

definition join_error :: "go_error \<Rightarrow> 'a result \<Rightarrow> go_error" where
  "join_error e r = (case r of Inl e' \<Rightarrow> Joined e e' | Inr _ \<Rightarrow> e)"


section \<open>Resolutions of the executor\<close>

definition unknown_resolution :: "string \<Rightarrow> string \<Rightarrow> string \<Rightarrow> attempt_resolution" where
  "unknown_resolution message code candidateID =
     \<lparr>ar_State = ''unknown'', ar_BrokerOrderID = [], ar_LastError = message, ar_ProviderErrorCode = code,
      ar_CandidateBrokerOrderID = candidateID, ar_OperatorSubject = [], ar_OperationStatus = [],
      ar_ReleaseReservation = False, ar_OrderUpdate = None, ar_OrderEvent = None\<rparr>"

definition failed_resolution :: "string \<Rightarrow> string \<Rightarrow> attempt_resolution" where
  "failed_resolution message code =
     \<lparr>ar_State = ''failed'', ar_BrokerOrderID = [], ar_LastError = message, ar_ProviderErrorCode = code,
      ar_CandidateBrokerOrderID = [], ar_OperatorSubject = [], ar_OperationStatus = ''failed'',
      ar_ReleaseReservation = True, ar_OrderUpdate = None, ar_OrderEvent = None\<rparr>"

definition rejected_update :: "execution_attempt \<Rightarrow> order_update" where
  "rejected_update a = \<lparr>ou_ExecutionAttemptID = at_ID a, ou_BrokerOrderID = [], ou_State = ''rejected'',
     ou_FilledQty = 0, ou_Fills = []\<rparr>"

text \<open>One transaction of the executor: the k-th, on the ledger as the others have left it.\<close>

definition resolve :: "exec_env \<Rightarrow> nat \<Rightarrow> execution_attempt \<Rightarrow> attempt_resolution \<Rightarrow> db \<Rightarrow> bool outcome" where
  "resolve x k a r s =
     ResolveAttempt (xe_Errtext x) (xe_Clock x k 0) (xe_NewID x k) (at_ID a) (at_Attempt a) r (xe_Other x k s)"

definition keepAttemptUnknown ::
  "exec_env \<Rightarrow> nat \<Rightarrow> execution_attempt \<Rightarrow> string \<Rightarrow> string \<Rightarrow> string \<Rightarrow> db \<Rightarrow> bool outcome" where
  "keepAttemptUnknown x k a message code candidateID s = resolve x k a (unknown_resolution message code candidateID) s"

text \<open>Resolve and stop with an error joined to the resolution's, or with the resolution's error first.\<close>

definition stop_joined ::
  "exec_env \<Rightarrow> nat \<Rightarrow> execution_attempt \<Rightarrow> attempt_resolution \<Rightarrow> go_error \<Rightarrow> db \<Rightarrow> 'a outcome" where
  "stop_joined x k a r e s = (case resolve x k a r s of (res, s') \<Rightarrow> (Inl (join_error e res), s'))"

definition stop_first ::
  "exec_env \<Rightarrow> nat \<Rightarrow> execution_attempt \<Rightarrow> attempt_resolution \<Rightarrow> go_error \<Rightarrow> db \<Rightarrow> 'a outcome" where
  "stop_first x k a r e s =
     (case resolve x k a r s of (Inl e', s') \<Rightarrow> (Inl e', s') | (Inr _, s') \<Rightarrow> (Inl e, s'))"

definition and_then :: "'a outcome \<Rightarrow> ('a \<Rightarrow> db \<Rightarrow> 'b outcome) \<Rightarrow> 'b outcome" where
  "and_then m f = (case m of (Inl e, s) \<Rightarrow> (Inl e, s) | (Inr y, s) \<Rightarrow> f y s)"


section \<open>The stages before the call\<close>

definition load_operation :: "exec_env \<Rightarrow> execution_attempt \<Rightarrow> db \<Rightarrow> operation outcome" where
  "load_operation x a s0 =
     (let s = xe_Other x 0 s0
      in case find (\<lambda>w. ow_ID w = at_OperationID a) (db_Operations s) of
           None \<Rightarrow> (Inl ErrNoRows, s)
         | Some w \<Rightarrow>
            (case xe_Decode x w of
               Inl e \<Rightarrow> (Inl (Wrapf e ''decode persisted operation: %w''), s)
             | Inr op \<Rightarrow>
                 if xe_Live x \<and> at_Intent a = ''place'' \<and> \<not> supportsOrderKind (xe_Kinds x) (op_Kind op)
                 then stop_joined x 1 a (failed_resolution ''provider order kind is not certified'' ''unsupported_order_kind'')
                   (Errorf ''provider order kind is not certified'' []) s
                 else if op_Action op = ''close'' \<and> null_string (at_CloseReservationID a) = []
                 then (Inl (Errorf ''refusing close without reservation'' []), s)
                 else (Inr op, s)))"

definition replay_evidence ::
  "exec_env \<Rightarrow> execution_attempt \<Rightarrow> string \<Rightarrow> string \<Rightarrow> db \<Rightarrow> provider_intent_evidence option outcome" where
  "replay_evidence x a canonical fingerprint s =
     (if null_string (at_ProviderAccountID a) \<noteq> xe_BoundAccount x \<or>
         \<not> providerIntentEvidenceMatches (xe_Marshal x) (xe_Unmarshal x) (sha256 (xe_Codec x)) a canonical fingerprint
      then stop_joined x 2 a (unknown_resolution ''same-ref replay evidence mismatch'' ''replay_intent_mismatch'' [])
        (Errorf ''same-ref replay evidence mismatch'' []) s
      else (Inr (Some \<lparr>ie_AccountID = xe_BoundAccount x, ie_Canonical = canonical, ie_Fingerprint = fingerprint\<rparr>), s))"

definition prepare_evidence ::
  "exec_env \<Rightarrow> execution_attempt \<Rightarrow> string \<Rightarrow> string \<Rightarrow> db \<Rightarrow> provider_intent_evidence option outcome" where
  "prepare_evidence x a canonical fingerprint s0 =
     (let s = xe_Other x 2 s0
      in case PrepareAttemptProviderIntent (xe_Codec x) (at_ID a) (at_Attempt a) (xe_BoundAccount x) canonical fingerprint s of
           Inl e \<Rightarrow> (Inl (Joined e (Errorf ''provider intent evidence was not durably prepared'' [])), s)
         | Inr (prepared, s') \<Rightarrow>
             if prepared then (Inr None, s')
             else (Inl (Errorf ''provider intent evidence was not durably prepared'' []), s'))"

definition gather_evidence ::
  "exec_env \<Rightarrow> execution_attempt \<Rightarrow> bool \<Rightarrow> operation \<Rightarrow> db \<Rightarrow> provider_intent_evidence option outcome" where
  "gather_evidence x a replay op s =
     (if at_Intent a \<noteq> ''place'' \<or> \<not> xe_Live x then (Inr None, s)
      else case canonicalProviderIntent (xe_Marshal x) (sha256 (xe_Codec x)) (persistedPlaceRequest op a) (op_InstrumentID op) of
        Inl e \<Rightarrow> stop_joined x 1 a (failed_resolution ''provider intent evidence invalid'' ''intent_invalid'') e s
      | Inr (canonical, fingerprint) \<Rightarrow>
          if xe_BoundAccount x = [] then (Inl (Errorf ''live provider account binding is unavailable'' []), s)
          else if replay then replay_evidence x a canonical fingerprint s
          else prepare_evidence x a canonical fingerprint s)"

definition capture_failed :: "exec_env \<Rightarrow> execution_attempt \<Rightarrow> bool \<Rightarrow> go_error \<Rightarrow> db \<Rightarrow> 'a outcome" where
  "capture_failed x a replay e s =
     (let rejected = errors_is e errPreEffectRejected
      in if replay
         then stop_joined x 4 a
           (if rejected then unknown_resolution ''pre-effect barrier rejected same-reference replay'' ''pre_effect_rejected'' []
            else unknown_resolution ''pre-effect refresh failed before same-reference replay'' ''pre_effect_unavailable'' []) e s
         else stop_first x 4 a
           (if rejected then failed_resolution ''proposal rejected at pre-effect barrier'' ''proposal_stale''
            else failed_resolution ''pre-effect refresh failed'' ''pre_effect_unavailable'') e s)"

definition capture :: "exec_env \<Rightarrow> execution_attempt \<Rightarrow> bool \<Rightarrow> operation \<Rightarrow> db \<Rightarrow> string outcome" where
  "capture x a replay op s =
     (case xe_Capture x a op replay (xe_Other x 3 s) of
        (Inl e, s') \<Rightarrow> capture_failed x a replay e s'
      | (Inr mid, s') \<Rightarrow> (Inr mid, s'))"

text \<open>What the executor does when the mark failed or was refused.\<close>

definition halted_before_send :: "exec_env \<Rightarrow> execution_attempt \<Rightarrow> go_error \<Rightarrow> db \<Rightarrow> 'a outcome" where
  "halted_before_send x a e s =
     (case resolve x 6 a ((failed_resolution ''global halt committed before provider send'' ''send_suppressed_halt'')
         \<lparr>ar_OrderUpdate := Some (rejected_update a)\<rparr>) s of
        (Inl e', s') \<Rightarrow> (Inl (Joined e e'), s')
      | (Inr False, s') \<Rightarrow>
          (let s' = xe_Other x 7 s'
           in case find (\<lambda>r. at_ID r = at_ID a) (db_Attempts s') of
             None \<Rightarrow> (Inl (Joined ErrNoRows (Errorf ''halt suppressed provider send but cleanup lost fencing'' [])), s')
           | Some r \<Rightarrow> (Inl (Errorf ''halt suppressed provider send but cleanup lost fencing: state=%s fencing_token=%d'' [at_State r]), s'))
      | (Inr True, s') \<Rightarrow> (Inl (Joined e errBrokerMutationFailed), s'))"

definition replay_not_marked :: "exec_env \<Rightarrow> execution_attempt \<Rightarrow> go_error option \<Rightarrow> db \<Rightarrow> 'a outcome" where
  "replay_not_marked x a e s =
     (let not_marked = Errorf ''provider replay send was not durably marked'' [];
          stale = (case e of None \<Rightarrow> False | Some e \<Rightarrow> errors_is e ErrPreEffectStale);
          r = (if stale then unknown_resolution ''pre-effect authority changed before same-reference replay'' ''pre_effect_rejected'' []
               else unknown_resolution ''same-reference replay send fence was not available'' ''replay_send_fence_lost'' [])
      in stop_joined x 6 a r (case e of None \<Rightarrow> not_marked | Some e \<Rightarrow> Joined e not_marked) s)"

definition mark_failed :: "exec_env \<Rightarrow> execution_attempt \<Rightarrow> bool \<Rightarrow> go_error option \<Rightarrow> db \<Rightarrow> 'a outcome" where
  "mark_failed x a replay e s =
     (case e of
        None \<Rightarrow> if replay then replay_not_marked x a None s
                else (Inl (Errorf ''provider send was not durably marked'' []), s)
      | Some e \<Rightarrow>
          if errors_is e ErrReplayWindowExpired
          then stop_joined x 6 a (unknown_resolution ''same-ref replay window expired'' ''replay_window_expired'' []) e s
          else if errors_is e ErrLiveSendHalted
          then (if replay
                then stop_joined x 6 a (unknown_resolution ''same-ref replay suppressed by global halt'' ''replay_suppressed_halt'' []) e s
                else halted_before_send x a e s)
          else if replay then replay_not_marked x a (Some e) s
          else if errors_is e ErrPreEffectStale
          then stop_joined x 6 a (failed_resolution ''proposal changed before provider send'' ''proposal_stale'')
            (Joined errPreEffectRejected e) s
          else (Inl (Joined e (Errorf ''provider send was not durably marked'' [])), s))"

definition mark_sent ::
  "exec_env \<Rightarrow> execution_attempt \<Rightarrow> bool \<Rightarrow> provider_intent_evidence option \<Rightarrow> string \<Rightarrow> db \<Rightarrow> unit outcome" where
  "mark_sent x a replay evidence mid s0 =
     (let s = xe_Other x 5 s0
      in case MarkAttemptSentWithManifest (xe_Codec x) (xe_Clock x 5) (at_ID a) (at_Attempt a) replay (xe_Guard x) evidence mid s of
           Inl e \<Rightarrow> mark_failed x a replay (Some e) s
         | Inr (marked, s') \<Rightarrow> if marked then (Inr (), s') else mark_failed x a replay None s')"

definition live_barrier ::
  "exec_env \<Rightarrow> execution_attempt \<Rightarrow> bool \<Rightarrow> operation \<Rightarrow> provider_intent_evidence option \<Rightarrow> db \<Rightarrow> unit outcome" where
  "live_barrier x a replay op evidence s =
     (if \<not> xe_Live x then (Inr (), s)
      else and_then (capture x a replay op s) (\<lambda>mid. mark_sent x a replay evidence mid))"

definition the_call :: "execution_attempt \<Rightarrow> operation \<Rightarrow> broker_call" where
  "the_call a op = (if at_Intent a = ''cancel'' then CancelOrder (at_TargetBrokerOrderID a)
     else PlaceOrder (if at_Intent a = ''place'' then persistedPlaceRequest op a
       else \<lparr>pr_ClientOrderID = [], pr_Symbol = [], pr_Side = [], pr_PositionEffect = [], pr_OrderType = [],
             pr_Qty = 0, pr_Limit = 0, pr_StopPrice = 0, pr_Kind = []\<rparr>))"

definition before_call :: "exec_env \<Rightarrow> execution_attempt \<Rightarrow> bool \<Rightarrow> db \<Rightarrow> broker_call outcome" where
  "before_call x a replay s =
     and_then (load_operation x a s) (\<lambda>op s.
       and_then (gather_evidence x a replay op s) (\<lambda>evidence s.
         and_then (live_barrier x a replay op evidence s) (\<lambda>_ s. (Inr (the_call a op), s))))"


section \<open>After the call\<close>

record exec_reply =
  xr_Status :: string
  xr_Order :: "order_result option"
  xr_AttemptID :: string
  xr_AttemptState :: string

definition provider_error_text :: "mutation_failure \<Rightarrow> string" where
  "provider_error_text f = ''provider mutation '' @ mf_Kind f @
     (if mf_Code f \<noteq> [] then '' ('' @ mf_Code f @ '')'' else []) @
     (if mf_Detail f \<noteq> [] then '': '' @ mf_Detail f else [])"

definition call_failed :: "exec_env \<Rightarrow> execution_attempt \<Rightarrow> bool \<Rightarrow> mutation_failure \<Rightarrow> db \<Rightarrow> exec_reply outcome" where
  "call_failed x a replay f s =
     (if \<not> replay \<and> mf_Classified f \<and> (mf_Kind f = ''not_sent'' \<or> mf_Kind f = ''rejected'')
      then stop_first x 7 a (failed_resolution (provider_error_text f) (mf_Code f)) errBrokerMutationFailed s
      else stop_first x 7 a (unknown_resolution ''provider mutation outcome unknown'' (mf_Code f) []) errBrokerResultUnknown s)"

definition current_reply :: "exec_env \<Rightarrow> execution_attempt \<Rightarrow> db \<Rightarrow> exec_reply outcome" where
  "current_reply x a s =
     (let s1 = xe_Other x 8 s
      in case find (\<lambda>r. at_ID r = at_ID a) (db_Attempts s1) of
        None \<Rightarrow> (Inl ErrNoRows, s1)
      | Some cur \<Rightarrow>
         (let s2 = xe_Other x 9 s1
          in case find (\<lambda>w. ow_ID w = at_OperationID cur) (db_Operations s2) of
            None \<Rightarrow> (Inl ErrNoRows, s2)
          | Some w \<Rightarrow> (Inr \<lparr>xr_Status = ow_Status w, xr_Order = None, xr_AttemptID = at_ID cur, xr_AttemptState = at_State cur\<rparr>, s2)))"

definition call_answered :: "exec_env \<Rightarrow> execution_attempt \<Rightarrow> order_result \<Rightarrow> db \<Rightarrow> exec_reply outcome" where
  "call_answered x a r s =
     (let resolution = resolutionForOrder (xe_OrderFacts x) a r
      in case resolve x 7 a resolution s of
           (Inl e, s') \<Rightarrow> (Inl e, s')
         | (Inr False, s') \<Rightarrow> current_reply x a s'
         | (Inr True, s') \<Rightarrow>
             (Inr \<lparr>xr_Status = (if ar_OperationStatus resolution = [] then ''auto_approved'' else ar_OperationStatus resolution),
                xr_Order = Some r, xr_AttemptID = at_ID a, xr_AttemptState = ar_State resolution\<rparr>, s'))"

definition after_call ::
  "exec_env \<Rightarrow> execution_attempt \<Rightarrow> bool \<Rightarrow> mutation_failure + order_result \<Rightarrow> db \<Rightarrow> exec_reply outcome" where
  "after_call x a replay answer s =
     (case answer of Inl f \<Rightarrow> call_failed x a replay f s | Inr r \<Rightarrow> call_answered x a r s)"

text \<open>The whole execution of an attempt that is not a paper one; the last component are the calls made.\<close>

definition executeClaimedAttemptWithReplay ::
  "exec_env \<Rightarrow> execution_attempt \<Rightarrow> bool \<Rightarrow> db \<Rightarrow> exec_reply result \<times> db \<times> broker_call list" where
  "executeClaimedAttemptWithReplay x a replay s =
     (if \<not> xe_HasExecution x
      then (case stop_first x 0 a ((failed_resolution ''execution capability unavailable'' [])) (Errorf ''execution capability unavailable'' []) s of
              (r, s') \<Rightarrow> (r, s', []))
      else case before_call x a replay s of
        (Inl e, s') \<Rightarrow> (Inl e, s', [])
      | (Inr call, s') \<Rightarrow>
          (case after_call x a replay (xe_Broker x call) s' of (r, s'') \<Rightarrow> (r, s'', [call])))"

end
