(* ===== verification/Execution.thy ===== *)
theory Execution
  imports Executor
begin

text \<open>
  The executor among the other workers. Its own transactions are steps of the live kernel, and what happens between them is
  any run of it; so whatever the system guarantees holds while an attempt is being executed. The claims are about
  the call of the broker: what must stand before it, that there is no second one, and what is left when its answer
  is lost.
\<close>

abbreviation reach where
  "reach x pc limits \<equiv> live_steps (xe_Codec x) pc limits (xe_Errtext x)"

text \<open>Between two transactions the other workers run, and the capture of the pre-effect facts is a run of its own.\<close>

definition shared_ledger :: "policy_codec \<Rightarrow> (string \<Rightarrow> int64 \<times> int64 \<times> int64) \<Rightarrow> exec_env \<Rightarrow> bool" where
  "shared_ledger pc limits x \<longleftrightarrow> (\<forall>k s. reach x pc limits s (xe_Other x k s)) \<and>
     (\<forall>a op r s. reach x pc limits s (snd (xe_Capture x a op r s)))"

text \<open>The outcome of a stage, as a run from the ledger it started on.\<close>

definition ran where
  "ran pc limits x s m \<longleftrightarrow> reach x pc limits s (snd m)"

named_theorems runs

lemma ran_Pair [simp]: "ran pc limits x s (r, t) \<longleftrightarrow> reach x pc limits s t"
  by (simp add: ran_def)

lemma ran_trans: "reach x pc limits s t \<Longrightarrow> ran pc limits x t m \<Longrightarrow> ran pc limits x s m"
  by (simp add: ran_def)

lemma ran_and_then:
  assumes "ran pc limits x s m" and "\<And>y t. ran pc limits x t (f y t)"
  shows "ran pc limits x s (and_then m f)"
proof (cases m)
  case (Pair r t)
  then show ?thesis using assms ran_trans[OF _ assms(2)] by (auto simp: and_then_def split: sum.split)
qed


section \<open>The resolutions of the executor\<close>

lemma executor_resolutions [runs]:
  "resolution_state (ar_State (unknown_resolution m c b))" "resolution_state (ar_State (failed_resolution m c))"
  "resolution_state (ar_State (r\<lparr>ar_OrderUpdate := u\<rparr>)) \<longleftrightarrow> resolution_state (ar_State r)"
  by (simp_all add: unknown_resolution_def failed_resolution_def resolution_state_def)

lemma order_resolutions [runs]: "resolution_state (ar_State (resolutionForOrder facts a r))"
  by (simp add: resolutionForOrder_def order_resolution_def untouched_close_def placing_def resolution_state_def Let_def split: prod.splits option.splits)

lemma ran_resolve [runs]:
  assumes "shared_ledger pc limits x" "resolution_state (ar_State r)"
  shows "ran pc limits x s (resolve x k a r s)"
proof -
  have "live_step (xe_Codec x) pc limits (xe_Errtext x) (xe_Other x k s) (snd (resolve x k a r s))"
    unfolding resolve_def by (rule live_step.resolve[OF prod.collapse[symmetric] assms(2)])
  then show ?thesis using assms(1) unfolding ran_def shared_ledger_def by (metis rtranclp.rtrancl_into_rtrancl)
qed

lemma ran_stop [runs]:
  assumes "shared_ledger pc limits x" "resolution_state (ar_State r)"
  shows "ran pc limits x s (stop_joined x k a r e s)" "ran pc limits x s (stop_first x k a r e s)"
  using ran_resolve[OF assms, of s k a] by (auto simp: stop_joined_def stop_first_def ran_def split: prod.split sum.split)

section \<open>Every stage is a run\<close>

lemma ran_other: "shared_ledger pc limits x \<Longrightarrow> reach x pc limits s (xe_Other x k s)"
  by (simp add: shared_ledger_def)

lemma ran_load [runs]:
  assumes "shared_ledger pc limits x"
  shows "ran pc limits x s (load_operation x a s)"
  by (rule ran_trans[OF ran_other[OF assms, of s 0]])
    (use assms in \<open>auto simp: load_operation_def Let_def intro!: runs split: option.split sum.split\<close>)

lemma prepare_run:
  assumes "PrepareAttemptProviderIntent (xe_Codec x) i tok acc can fp s = Inr (r, s')"
  shows "reach x pc limits s s'"
  by (rule r_into_rtranclp, rule live_step.prepare[OF assms])

lemma send_run:
  assumes "MarkAttemptSentWithManifest (xe_Codec x) clock i tok replay g ev mid s = Inr (r, s')"
  shows "reach x pc limits s s'"
  by (rule r_into_rtranclp, rule live_step.send[OF assms])

lemma ran_prepare [runs]:
  assumes "shared_ledger pc limits x"
  shows "ran pc limits x s (prepare_evidence x a can fp s)"
  by (rule ran_trans[OF ran_other[OF assms, of s 2]])
    (auto simp: prepare_evidence_def Let_def intro: prepare_run split: sum.split)

lemma ran_gather [runs]:
  assumes "shared_ledger pc limits x"
  shows "ran pc limits x s (gather_evidence x a replay op s)"
  using assms by (auto simp: gather_evidence_def replay_evidence_def intro!: runs split: sum.split)

lemma ran_capture [runs]:
  assumes "shared_ledger pc limits x"
  shows "ran pc limits x s (capture x a replay op s)"
proof -
  have "ran pc limits x t (capture_failed x a replay e t :: string outcome)" for e t
    using assms by (auto simp: capture_failed_def Let_def intro!: runs)
  moreover have "reach x pc limits s (snd (xe_Capture x a op replay (xe_Other x 3 s)))"
    using assms unfolding shared_ledger_def by (meson rtranclp_trans)
  ultimately show ?thesis
    by (auto simp: capture_def intro: ran_trans split: prod.split sum.split)
qed

lemma ran_halted [runs]:
  assumes "shared_ledger pc limits x"
  shows "ran pc limits x s (halted_before_send x a e s)"
proof -
  have "ran pc limits x s (resolve x 6 a ((failed_resolution ''global halt committed before provider send'' ''send_suppressed_halt'')
      \<lparr>ar_OrderUpdate := Some (rejected_update a)\<rparr>) s)"
    using assms by (auto intro!: runs simp: executor_resolutions)
  then show ?thesis using assms
    by (auto simp: halted_before_send_def Let_def ran_def intro: rtranclp_trans ran_other split: prod.split sum.split bool.split option.split)
qed

lemma ran_mark_failed [runs]:
  assumes "shared_ledger pc limits x"
  shows "ran pc limits x s (mark_failed x a replay e s)"
  using assms by (auto simp: mark_failed_def replay_not_marked_def Let_def intro!: runs split: option.split)

lemma ran_mark [runs]:
  assumes "shared_ledger pc limits x"
  shows "ran pc limits x s (mark_sent x a replay ev mid s)"
proof -
  have "ran pc limits x t (mark_failed x a replay e t)" for e t using assms by (rule ran_mark_failed)
  then show ?thesis
    by (intro ran_trans[OF ran_other[OF assms, of s 5]])
      (auto simp: mark_sent_def Let_def ran_def intro: send_run rtranclp_trans split: sum.split)
qed

lemma ran_barrier [runs]:
  assumes "shared_ledger pc limits x"
  shows "ran pc limits x s (live_barrier x a replay op ev s)"
  using assms by (auto simp: live_barrier_def intro!: ran_and_then runs)

lemma ran_before [runs]:
  assumes "shared_ledger pc limits x"
  shows "ran pc limits x s (before_call x a replay s)"
  using assms by (auto simp: before_call_def intro!: ran_and_then runs)

lemma ran_current:
  assumes "shared_ledger pc limits x"
  shows "ran pc limits x s (current_reply x a s)"
proof -
  have "reach x pc limits s (xe_Other x 8 s)" "reach x pc limits t (xe_Other x 9 t)" for t using assms by (rule ran_other)+
  then show ?thesis
    by (auto simp: current_reply_def Let_def intro: rtranclp_trans split: option.split)
qed

lemma ran_after [runs]:
  assumes "shared_ledger pc limits x"
  shows "ran pc limits x s (after_call x a replay answer s)"
proof -
  have "ran pc limits x s (call_failed x a replay f s)" for f
    using assms by (auto simp: call_failed_def intro!: runs)
  moreover have "ran pc limits x s (call_answered x a r s)" for r
  proof -
    have "ran pc limits x s (resolve x 7 a (resolutionForOrder (xe_OrderFacts x) a r) s)" using assms by (auto intro!: runs)
    then show ?thesis using ran_current[OF assms]
      by (auto simp: call_answered_def Let_def ran_def intro: rtranclp_trans split: prod.split sum.split bool.split)
  qed
  ultimately show ?thesis by (simp add: after_call_def split: sum.split)
qed

section \<open>What stands before a call\<close>

lemma and_then_Inr: "and_then m f = (Inr y, t) \<longleftrightarrow> (\<exists>z u. m = (Inr z, u) \<and> f z u = (Inr y, t))"
  by (cases m) (auto simp: and_then_def split: sum.splits)

lemma stops [simp]: "stop_joined x k a r e s \<noteq> (Inr y, t)" "stop_first x k a r e s \<noteq> (Inr y, t)"
  "halted_before_send x a e s \<noteq> (Inr y, t)"
  by (auto simp: stop_joined_def stop_first_def halted_before_send_def Let_def split: prod.split sum.split bool.split option.split)

lemma failures_stop [simp]: "mark_failed x a replay e s \<noteq> (Inr y, t)" "capture_failed x a replay err s \<noteq> (Inr y, t)"
  by (auto simp: mark_failed_def replay_not_marked_def capture_failed_def Let_def split: option.split)

lemma mark_sent_Inr:
  assumes "mark_sent x a replay ev mid s = (Inr y, t)"
  shows "MarkAttemptSentWithManifest (xe_Codec x) (xe_Clock x 5) (at_ID a) (at_Attempt a) replay (xe_Guard x) ev mid (xe_Other x 5 s) = Inr (True, t)"
  using assms by (auto simp: mark_sent_def Let_def split: sum.splits if_splits)

lemma call_stages:
  assumes "before_call x a replay s = (Inr call, s')" "xe_Live x" "shared_ledger pc limits x"
  obtains op ev mid s1 s2 t where "load_operation x a s = (Inr op, s1)" "gather_evidence x a replay op s1 = (Inr ev, s2)"
    "reach x pc limits s s2" "reach x pc limits s2 t"
    "MarkAttemptSentWithManifest (xe_Codec x) (xe_Clock x 5) (at_ID a) (at_Attempt a) replay (xe_Guard x) ev mid t = Inr (True, s')"
    "call = the_call a op"
proof -
  obtain op s1 ev s2 where l: "load_operation x a s = (Inr op, s1)" and g: "gather_evidence x a replay op s1 = (Inr ev, s2)"
    and b: "live_barrier x a replay op ev s2 = (Inr (), s')" and c: "call = the_call a op"
    using assms(1) by (auto simp: before_call_def and_then_Inr)
  obtain mid s3 where cap: "capture x a replay op s2 = (Inr mid, s3)" and m: "mark_sent x a replay ev mid s3 = (Inr (), s')"
    using b assms(2) by (auto simp: live_barrier_def and_then_Inr)
  have "reach x pc limits s s1" "reach x pc limits s1 s2" "reach x pc limits s2 s3"
    using ran_load[OF assms(3), of s a] ran_gather[OF assms(3), of s1 a replay op] ran_capture[OF assms(3), of s2 a replay op]
    by (simp_all add: l g cap)
  moreover have "reach x pc limits s3 (xe_Other x 5 s3)" by (rule ran_other[OF assms(3)])
  ultimately have "reach x pc limits s s2" "reach x pc limits s2 (xe_Other x 5 s3)" by (blast intro: rtranclp_trans)+
  then show thesis using that[OF l g _ _ mark_sent_Inr[OF m] c] by blast
qed

lemma load_operation_Inr:
  assumes "load_operation x a s = (Inr op, s1)"
  shows "\<exists>w\<in>set (db_Operations s1). ow_ID w = at_OperationID a \<and> xe_Decode x w = Inr op"
    "at_Intent a = ''place'' \<Longrightarrow> xe_Live x \<Longrightarrow> supportsOrderKind (xe_Kinds x) (op_Kind op)"
proof -
  have eq: "load_operation x a s = (Inr op, s1)" by (rule assms)
  show "\<exists>w\<in>set (db_Operations s1). ow_ID w = at_OperationID a \<and> xe_Decode x w = Inr op"
  proof (cases "find (\<lambda>w. ow_ID w = at_OperationID a) (db_Operations (xe_Other x 0 s))")
    case None
    then show ?thesis using eq by (simp add: load_operation_def Let_def)
  next
    case (Some w)
    then have w: "w \<in> set (db_Operations (xe_Other x 0 s))" "ow_ID w = at_OperationID a" by (auto dest: find_SomeD)
    have "xe_Decode x w = Inr op \<and> s1 = xe_Other x 0 s"
      using eq Some by (cases "xe_Decode x w") (simp_all add: load_operation_def Let_def split: if_splits)
    then show ?thesis using w by blast
  qed
  show "supportsOrderKind (xe_Kinds x) (op_Kind op)" if "at_Intent a = ''place''" "xe_Live x"
    using eq that by (auto simp: load_operation_def Let_def split: option.splits sum.splits if_splits)
qed

lemma executed_run:
  assumes "executeClaimedAttemptWithReplay x a replay s = (r, s', calls)"
  shows "(\<exists>call t. calls = [call] \<and> before_call x a replay s = (Inr call, t) \<and>
      after_call x a replay (xe_Broker x call) t = (r, s')) \<or>
    calls = [] \<and> ((\<exists>e. stop_first x 0 a (failed_resolution ''execution capability unavailable'' []) e s = (r, s')) \<or>
      (\<exists>e. r = Inl e \<and> before_call x a replay s = (Inl e, s')))"
  using assms unfolding executeClaimedAttemptWithReplay_def
  by (cases "xe_HasExecution x"; cases "before_call x a replay s") (auto split: prod.splits sum.splits)

lemma executed_reach:
  assumes env: "shared_ledger pc limits x" and run: "executeClaimedAttemptWithReplay x a replay s = (r, s', calls)"
  shows "reach x pc limits s s'"
  using executed_run[OF run]
proof (elim disjE exE conjE)
  fix call t
  assume b: "before_call x a replay s = (Inr call, t)" and a: "after_call x a replay (xe_Broker x call) t = (r, s')"
  have "reach x pc limits s t" "reach x pc limits t s'"
    using ran_before[OF env, of s a replay] ran_after[OF env, of t a replay "xe_Broker x call"] by (simp_all add: b a)
  then show ?thesis by simp
next
  fix e
  assume st: "stop_first x 0 a (failed_resolution ''execution capability unavailable'' []) e s = (r, s')"
  have "ran pc limits x s (r, s')" unfolding st[symmetric] by (rule ran_stop(2)[OF env executor_resolutions(2)])
  then show ?thesis by simp
next
  fix e
  assume "before_call x a replay s = (Inl e, s')"
  then show ?thesis using ran_before[OF env, of s a replay] by simp
qed


section \<open>Marks are not repeated\<close>

lemma step_replays:
  assumes "attempt_step a b"
  shows "at_ReplayCount a \<le> at_ReplayCount b"
  using assms
proof cases
  case (mark k n)
  then show ?thesis by (simp add: mark_row_def sent_row_def)
qed (simp_all add: plain_step_fields claimed_row_def leaves_fields)

lemma life_replays: "attempt_step\<^sup>*\<^sup>* a b \<Longrightarrow> at_ReplayCount a \<le> at_ReplayCount b"
  by (induction rule: rtranclp_induct) (use step_replays order_trans in \<open>metis order_refl\<close>)+

text \<open>After a first send there is no second first send; after a replay there is neither.\<close>

lemma marked_once:
  assumes ok: "live_ok s" and first: "MarkAttemptSentWithManifest c clock i tok replay g ev mid s = Inr (True, s1)"
    and run: "live_steps c pc limits errtext s1 t" and kind: "replay \<or> \<not> again"
  shows "MarkAttemptSentWithManifest c clock' i tok' again g' ev' mid' t \<noteq> Inr (True, t')"
proof
  assume again: "MarkAttemptSentWithManifest c clock' i tok' again g' ev' mid' t = Inr (True, t')"
  obtain a n where a: "fenced i tok a" "at_ReplayCount a = 0" "at_SentAt a = None \<longleftrightarrow> \<not> replay"
    "marks (ordinal replay) a (mark_row (ordinal replay) n a)" "mark_row (ordinal replay) n a \<in> set (db_Attempts s1)"
    by (rule send_row[OF ok first])
  let ?a = "mark_row (ordinal replay) n a"
  have ok1: "live_ok s1" using live_kernel.step_inv[OF ok live_step.send[OF first]] .
  have t: "live_ok t" by (rule live_kernel.steps_inv[OF run ok1])
  obtain d where d: "d \<in> set (db_Attempts t)" "attempt_step\<^sup>*\<^sup>* ?a d" by (rule followed[OF run a(5)])
  obtain b m where b: "b \<in> set (db_Attempts t)" "fenced i tok' b" "at_ReplayCount b = 0" "at_SentAt b = None \<longleftrightarrow> \<not> again"
    by (rule send_row[OF t again])
  have "b = d" using attempts_by_id[OF _ b(1) d(1)] t b(2) life_fields[OF d(2)] a(1) by (simp add: live_ok_def fenced_def)
  have "at_SentAt ?a \<noteq> None" "at_State ?a \<noteq> ''pending''" "replay \<longrightarrow> at_ReplayCount ?a = 1"
    using a by (auto simp: marks_def marks_first_def marks_replay_def ordinal_def fenced_def split: if_splits)
  then show False using life_identity[OF d(2)] life_replays[OF d(2)] b \<open>b = d\<close> kind
    by (auto simp: sent_identity_def)
qed

section \<open>The call of the broker\<close>

text \<open>The send is marked between \<open>t\<close> and \<open>t'\<close>, and no earlier ledger has a mark of it.\<close>

definition sole_mark where
  "sole_mark pc limits x a replay t t' \<longleftrightarrow>
     (\<exists>clock g ev mid. MarkAttemptSentWithManifest (xe_Codec x) clock (at_ID a) (at_Attempt a) replay g ev mid t = Inr (True, t')) \<and>
     (\<forall>u u' clock tok g ev mid. live_ok u \<longrightarrow>
        MarkAttemptSentWithManifest (xe_Codec x) clock (at_ID a) tok replay g ev mid u = Inr (True, u') \<longrightarrow> \<not> reach x pc limits u' t)"

definition persisted_as :: "exec_env \<Rightarrow> execution_attempt \<Rightarrow> operation \<Rightarrow> db \<Rightarrow> bool" where
  "persisted_as x a op s \<longleftrightarrow> (\<exists>w\<in>set (db_Operations s). ow_ID w = at_OperationID a \<and> xe_Decode x w = Inr op)"

lemma call_marked:
  assumes ok: "live_ok s" and env: "shared_ledger pc limits x" and live: "xe_Live x" and b: "before_call x a replay s = (Inr call, t')"
  shows "\<exists>op s0 t. call = the_call a op \<and> persisted_as x a op s0 \<and> reach x pc limits s s0 \<and> reach x pc limits s0 t \<and>
    sole_mark pc limits x a replay t t'"
proof -
  obtain op ev mid s1 s2 t where st: "load_operation x a s = (Inr op, s1)" "gather_evidence x a replay op s1 = (Inr ev, s2)"
    "reach x pc limits s s2" "reach x pc limits s2 t"
    and m: "MarkAttemptSentWithManifest (xe_Codec x) (xe_Clock x 5) (at_ID a) (at_Attempt a) replay (xe_Guard x) ev mid t = Inr (True, t')"
    and c: "call = the_call a op" by (rule call_stages[OF b live env])
  have "persisted_as x a op s1" using load_operation_Inr(1)[OF st(1)] by (simp add: persisted_as_def)
  moreover have "reach x pc limits s s1" "reach x pc limits s1 s2"
    using ran_load[OF env, of s a] ran_gather[OF env, of s1 a replay op] by (simp_all add: st)
  moreover from this have "reach x pc limits s1 t" using st(4) by (metis rtranclp_trans)
  moreover have "\<not> reach x pc limits u' t"
    if "live_ok u" "MarkAttemptSentWithManifest (xe_Codec x) clock (at_ID a) tok replay g e n u = Inr (True, u')" for u u' clock tok g e n
    using marked_once[OF that, of pc limits "xe_Errtext x" t replay] m by blast
  then have "sole_mark pc limits x a replay t t'" unfolding sole_mark_def using m by blast
  ultimately show ?thesis using c by blast
qed

text \<open>C3: No call without a mark. Executing an attempt among any other workers is a run of the live kernel: it keeps the
  invariant, and makes at most one call of the broker. If it makes one, the attempt's send (or its replay) was marked
  in the ledger first, under the token the worker was given; the call is the one that the attempt and its persisted
  operation describe; and by then nobody else had marked that send, in this or in any earlier execution.\<close>
theorem call_after_mark:
  assumes ok: "live_ok s" and env: "shared_ledger pc limits x" and live: "xe_Live x"
    and run: "executeClaimedAttemptWithReplay x a replay s = (r, s', calls)"
  shows "reach x pc limits s s' \<and> live_ok s' \<and> (calls = [] \<or>
    (\<exists>op s0 t t'. calls = [the_call a op] \<and> persisted_as x a op s0 \<and> reach x pc limits s s0 \<and> reach x pc limits s0 t \<and>
      sole_mark pc limits x a replay t t' \<and> reach x pc limits t' s'))"
proof -
  have run': "reach x pc limits s s'" by (rule executed_reach[OF env run])
  moreover have "live_ok s'" by (rule live_kernel.steps_inv[OF run' ok])
  moreover have "calls = [] \<or> (\<exists>call t'. calls = [call] \<and> before_call x a replay s = (Inr call, t') \<and> reach x pc limits t' s')"
    using executed_run[OF run] ran_after[OF env] unfolding ran_def by (metis snd_conv)
  ultimately show ?thesis using call_marked[OF ok env live] by metis
qed

text \<open>C4: No second order. Once anybody has marked the first send of an attempt, then however the ledger goes on, no first
  send of it is marked again, and executing it as a first send, by whatever worker and under whatever token, makes no
  call; what may still follow is one replay under the same reference. Once a replay of it has been marked, neither a first send
  nor a replay is, and no execution of either kind makes a call.\<close>
theorem no_second_send:
  assumes ok: "live_ok s" and env: "shared_ledger pc limits x" and live: "xe_Live x"
    and first: "MarkAttemptSentWithManifest (xe_Codec x) clock (at_ID a) tok replay g ev mid s = Inr (True, s1)"
    and later: "reach x pc limits s1 t" and kind: "replay \<or> \<not> again"
  shows "MarkAttemptSentWithManifest (xe_Codec x) clock' (at_ID a) tok' again g' ev' mid' t \<noteq> Inr (True, t') \<and>
    snd (snd (executeClaimedAttemptWithReplay x a again t)) = []"
proof
  show "MarkAttemptSentWithManifest (xe_Codec x) clock' (at_ID a) tok' again g' ev' mid' t \<noteq> Inr (True, t')"
    by (rule marked_once[OF ok first later kind])
  obtain r t2 calls where run: "executeClaimedAttemptWithReplay x a again t = (r, t2, calls)" by (cases "executeClaimedAttemptWithReplay x a again t")
  have "calls = []"
  proof (rule ccontr)
    assume "calls \<noteq> []"
    then obtain call t' where b: "before_call x a again t = (Inr call, t')" using executed_run[OF run] by blast
    obtain ev mid t2 s2 where st: "reach x pc limits t s2" "reach x pc limits s2 t2"
      and m: "MarkAttemptSentWithManifest (xe_Codec x) (xe_Clock x 5) (at_ID a) (at_Attempt a) again (xe_Guard x) ev mid t2 = Inr (True, t')"
      by (rule call_stages[OF b live env])
    have "reach x pc limits s1 t2" using later st by (metis rtranclp_trans)
    then show False using marked_once[OF ok first _ kind] m by blast
  qed
  then show "snd (snd (executeClaimedAttemptWithReplay x a again t)) = []" by (simp add: run)
qed

section \<open>What is sent is what was recorded\<close>

lemma evidence_frozen:
  assumes "attempt_step a b" "carries c e a"
  shows "carries c e b"
  using assms(1)
proof cases
  case plain
  then show ?thesis
    by cases (use assms(2) in \<open>auto simp: carries_def leaves_def sent_identity_def\<close>)
qed (use assms(2) in \<open>auto simp: carries_def claimed_row_def mark_row_def sent_row_def leaves_def sent_identity_def\<close>)

lemma life_evidence: "attempt_step\<^sup>*\<^sup>* a b \<Longrightarrow> carries c e a \<Longrightarrow> carries c e b"
  by (induction rule: rtranclp_induct) (auto intro: evidence_frozen)

lemma prepared_row:
  assumes "PrepareAttemptProviderIntent c i tok acc can fp s = Inr (True, s')"
  shows "\<exists>a\<in>set (db_Attempts s'). at_ID a = i \<and> carries c \<lparr>ie_AccountID = acc, ie_Canonical = can, ie_Fingerprint = fp\<rparr> a"
proof -
  let ?f = "\<lambda>a. a\<lparr>at_ProviderAccountID := Some acc, at_ProviderIntent := Some (jsonb c can), at_IntentFingerprint := Some fp\<rparr>"
  have p: "affected (preparable c i tok acc can fp) (db_Attempts s) = 1"
    "db_Attempts s' = update_rows (preparable c i tok acc can fp) ?f (db_Attempts s)"
    using assms by (auto simp: PrepareAttemptProviderIntent_def Let_def guarded_ok split: if_splits)
  obtain a where "a \<in> set (db_Attempts s)" "preparable c i tok acc can fp a" using affected_one[OF p(1)] by blast
  then have "?f a \<in> set (db_Attempts s')" "at_ID a = i" by (auto simp: p(2) set_update_rows preparable_def)
  then show ?thesis by (intro bexI[of _ "?f a"]) (simp_all add: carries_def)
qed

lemma gathered:
  assumes g: "gather_evidence x a replay op s = (Inr ev, s')" and live: "xe_Live x" "at_Intent a = ''place''"
  obtains i where "place_intent (persistedPlaceRequest op a) (op_InstrumentID op) = Inr i"
    "replay \<longrightarrow> ev = Some \<lparr>ie_AccountID = xe_BoundAccount x, ie_Canonical = xe_Marshal x i, ie_Fingerprint = sha256 (xe_Codec x) (xe_Marshal x i)\<rparr>"
    "\<not> replay \<longrightarrow> PrepareAttemptProviderIntent (xe_Codec x) (at_ID a) (at_Attempt a) (xe_BoundAccount x) (xe_Marshal x i)
       (sha256 (xe_Codec x) (xe_Marshal x i)) (xe_Other x 2 s) = Inr (True, s')"
proof -
  obtain i where i: "place_intent (persistedPlaceRequest op a) (op_InstrumentID op) = Inr i"
    using g live by (cases "place_intent (persistedPlaceRequest op a) (op_InstrumentID op)")
      (simp_all add: gather_evidence_def canonicalProviderIntent_def)
  have r: "(if replay then replay_evidence x a (xe_Marshal x i) (sha256 (xe_Codec x) (xe_Marshal x i)) s
      else prepare_evidence x a (xe_Marshal x i) (sha256 (xe_Codec x) (xe_Marshal x i)) s) = (Inr ev, s')"
    using g live i by (simp add: gather_evidence_def canonicalProviderIntent_def split: if_splits)
  show thesis
    by (rule that[OF i])
      (use r in \<open>auto simp: replay_evidence_def prepare_evidence_def Let_def split: sum.splits if_splits\<close>)
qed

text \<open>C5: What is sent is what was recorded. When executing a live order makes a call, the order is the one the attempt and
  its persisted operation describe, of a kind the provider is certified for; it makes a complete intent; and the row
  that was marked as sent, under the worker's token, holds exactly that intent, its digest and the account the
  broker client is bound to, whoever else was at work in between.\<close>
theorem call_as_recorded:
  assumes ok: "live_ok s" and env: "shared_ledger pc limits x" and live: "xe_Live x" "at_Intent a = ''place''"
    and run: "executeClaimedAttemptWithReplay x a replay s = (r, s', [call])"
  shows "\<exists>op i t b. call = PlaceOrder (persistedPlaceRequest op a) \<and> supportsOrderKind (xe_Kinds x) (op_Kind op) \<and>
    place_intent (persistedPlaceRequest op a) (op_InstrumentID op) = Inr i \<and>
    reach x pc limits t s' \<and> b \<in> set (db_Attempts t) \<and> at_ID b = at_ID a \<and> at_Attempt b = at_Attempt a \<and> at_SentAt b \<noteq> None \<and>
    at_ProviderAccountID b = Some (xe_BoundAccount x) \<and> at_ProviderIntent b = Some (jsonb (xe_Codec x) (xe_Marshal x i)) \<and>
    at_IntentFingerprint b = Some (sha256 (xe_Codec x) (xe_Marshal x i))"
proof -
  obtain t' where bc: "before_call x a replay s = (Inr call, t')" and ac: "after_call x a replay (xe_Broker x call) t' = (r, s')"
    using executed_run[OF run] by blast
  obtain op ev mid s1 s2 t where st: "load_operation x a s = (Inr op, s1)" "gather_evidence x a replay op s1 = (Inr ev, s2)"
    "reach x pc limits s s2" "reach x pc limits s2 t"
    and m: "MarkAttemptSentWithManifest (xe_Codec x) (xe_Clock x 5) (at_ID a) (at_Attempt a) replay (xe_Guard x) ev mid t = Inr (True, t')"
    and c: "call = the_call a op" by (rule call_stages[OF bc live(1) env])
  obtain i where i: "place_intent (persistedPlaceRequest op a) (op_InstrumentID op) = Inr i"
    and re: "replay \<longrightarrow> ev = Some \<lparr>ie_AccountID = xe_BoundAccount x, ie_Canonical = xe_Marshal x i, ie_Fingerprint = sha256 (xe_Codec x) (xe_Marshal x i)\<rparr>"
    and fi: "\<not> replay \<longrightarrow> PrepareAttemptProviderIntent (xe_Codec x) (at_ID a) (at_Attempt a) (xe_BoundAccount x) (xe_Marshal x i)
       (sha256 (xe_Codec x) (xe_Marshal x i)) (xe_Other x 2 s1) = Inr (True, s2)"
    by (rule gathered[OF st(2) live])
  have okt: "live_ok t" using live_kernel.steps_inv[OF _ ok] st(3,4) by (metis rtranclp_trans)
  obtain d n where d: "d \<in> set (db_Attempts t)" "fenced (at_ID a) (at_Attempt a) d" and fresh: "at_SentAt d = None \<longleftrightarrow> \<not> replay"
    and mk: "marks (ordinal replay) d (mark_row (ordinal replay) n d)" and b: "mark_row (ordinal replay) n d \<in> set (db_Attempts t')"
    and ev: "replay \<longrightarrow> (\<exists>e. ev = Some e \<and> carries (xe_Codec x) e d)"
    by (rule send_row[OF okt m])
  let ?e = "\<lparr>ie_AccountID = xe_BoundAccount x, ie_Canonical = xe_Marshal x i, ie_Fingerprint = sha256 (xe_Codec x) (xe_Marshal x i)\<rparr>"
  have "carries (xe_Codec x) ?e d"
  proof (cases replay)
    case False
    obtain p where p: "p \<in> set (db_Attempts s2)" "at_ID p = at_ID a" "carries (xe_Codec x) ?e p"
      using prepared_row[OF fi[rule_format, OF False]] by blast
    obtain q where q: "q \<in> set (db_Attempts t)" "attempt_step\<^sup>*\<^sup>* p q" by (rule followed[OF st(4) p(1)])
    have "q = d" using attempts_by_id[OF _ q(1) d(1)] okt life_fields[OF q(2)] p(2) d(2) by (simp add: live_ok_def fenced_def)
    then show ?thesis using life_evidence[OF q(2) p(3)] by simp
  qed (use ev re in auto)
  then have ca: "carries (xe_Codec x) ?e (mark_row (ordinal replay) n d)"
    by (simp add: carries_def mark_row_def sent_row_def)
  have sent: "at_SentAt (mark_row (ordinal replay) n d) \<noteq> None" using mk
    by (auto simp: marks_def marks_first_def marks_replay_def ordinal_def split: if_splits)
  have "reach x pc limits t' s'" using ran_after[OF env, of t' a replay "xe_Broker x call"] by (simp add: ac)
  moreover have "call = PlaceOrder (persistedPlaceRequest op a)" using c live(2) by (simp add: the_call_def)
  moreover have "supportsOrderKind (xe_Kinds x) (op_Kind op)" by (rule load_operation_Inr(2)[OF st(1) live(2,1)])
  moreover have "at_ID (mark_row (ordinal replay) n d) = at_ID a" "at_Attempt (mark_row (ordinal replay) n d) = at_Attempt a"
    using d(2) by (simp_all add: fenced_def)
  moreover have "at_ProviderAccountID (mark_row (ordinal replay) n d) = Some (xe_BoundAccount x)"
    "at_ProviderIntent (mark_row (ordinal replay) n d) = Some (jsonb (xe_Codec x) (xe_Marshal x i))"
    "at_IntentFingerprint (mark_row (ordinal replay) n d) = Some (sha256 (xe_Codec x) (xe_Marshal x i))"
    using ca by (simp_all add: carries_def)
  ultimately show ?thesis using i b sent by metis
qed

section \<open>A lost answer\<close>

definition in_gate :: "string \<Rightarrow> db \<Rightarrow> bool" where
  "in_gate i s \<longleftrightarrow> gate_of s = Active i \<or> gate_of s = Unknown i"

lemma send_gate:
  assumes run: "MarkAttemptSentWithManifest c clock i tok replay g ev mid s = Inr (True, s')" and "i \<noteq> []"
  shows "in_gate i s'"
proof -
  obtain a w s1 s2 where adm: "send_admitted i replay s" and m: "mark_effect c ev i tok (ordinal replay) s s1"
    and v: "validatePreEffectManifestForSend c mid i tok (ordinal replay) (clock 0) s1 = Inr s2"
    and s': "s' = insert_event ''execution_attempt_sent''
       [(''attempt_id'', PText i), (''fencing_token'', PInt tok), (''replay'', PBool replay),
        (''pre_effect_manifest_id'', PText mid)] s2"
    by (rule send_cases[OF run])
  have s2: "s2 = s1\<lparr>db_Bindings := db_Bindings s1 @ [\<lparr>sb_AttemptID = i, sb_SendOrdinal = ordinal replay,
       sb_FencingToken = tok, sb_ManifestID = mid\<rparr>]\<rparr>"
    by (rule validatePreEffect_cases[OF v])
  obtain rows where s1: "s1 = s\<lparr>db_Attempts := rows\<rparr>" using m unfolding mark_effect_def by blast
  have "gate_of s' = gate_of s" by (rule gate_of_same) (simp_all add: s' s2 s1 insert_event_def)
  then show ?thesis using adm \<open>i \<noteq> []\<close>
    by (auto simp: in_gate_def send_admitted_def null_string_eq gate_of_def split: if_splits)
qed

lemma in_gate_blocks:
  assumes "in_gate i s" "j \<noteq> i" "j \<noteq> []"
  shows "\<not> claim_allowed j st s"
  using assms by (auto simp: in_gate_def gate_of_def claim_allowed_def gate_idle_def recovering_unknown_def null_string_def
      split: option.splits if_splits)

lemma unknown_rows:
  assumes "ResolveAttempt errtext n newID i tok (unknown_resolution m c cand) s = (r, s')"
  shows "s' = s \<or> (\<exists>a. s' = resolve_rows n i tok (unknown_resolution m c cand) a s)"
  using assms by (auto simp: ResolveAttempt_def apply_resolution_report_def resolution_report_def unknown_resolution_def
      record_report_failure_def split: option.splits sum.splits if_splits)

lemma unknown_releases_nothing:
  assumes "ResolveAttempt errtext n newID i tok (unknown_resolution m c cand) s = (r, s')"
  shows "db_OpenReservations s' = db_OpenReservations s" "db_CloseReservations s' = db_CloseReservations s"
    "db_Operations s' = db_Operations s" "db_Orders s' = db_Orders s" "db_Lots s' = db_Lots s"
  using unknown_rows[OF assms]
  by (auto simp: resolve_rows_def Let_def unknown_resolution_def resolve_operation_def resolution_events_def
      insert_event_def resolve_gate_def leave_gate_def)

lemma unknown_resolved:
  assumes b: "b \<in> set (db_Attempts s)" "fenced i tok b"
    and run: "ResolveAttempt errtext n newID i tok (unknown_resolution m c cand) s = (r, s')"
  shows "\<exists>d\<in>set (db_Attempts s'). at_ID d = i \<and> (at_State d = ''claimed'' \<or> at_State d = ''unknown'')"
  using unknown_rows[OF run]
proof (elim disjE exE)
  let ?r = "unknown_resolution m c cand"
  fix a
  assume s': "s' = resolve_rows n i tok ?r a s"
  have rows: "db_Attempts s' = update_rows (resolvable i tok ?r) (resolved_row n ?r) (db_Attempts s)"
    by (simp add: s' resolve_rows_def Let_def unknown_resolution_def resolve_operation_def resolution_events_def
        insert_event_def resolve_gate_def)
  let ?d = "if resolvable i tok ?r b then resolved_row n ?r b else b"
  have "?d \<in> set (db_Attempts s')" unfolding rows set_update_rows using b(1) by (rule imageI)
  moreover have "at_ID ?d = i \<and> (at_State ?d = ''claimed'' \<or> at_State ?d = ''unknown'')"
    using b(2) by (simp add: fenced_def unknown_resolution_def)
  ultimately show ?thesis by blast
qed (use b in \<open>auto simp: fenced_def\<close>)

definition answer_lost :: "bool \<Rightarrow> mutation_failure \<Rightarrow> bool" where
  "answer_lost replay f \<longleftrightarrow> replay \<or> \<not> mf_Classified f \<or> mf_Kind f \<noteq> ''not_sent'' \<and> mf_Kind f \<noteq> ''rejected''"

text \<open>The place of a live attempt in the gate.\<close>

lemma live_in_gate:
  assumes ok: "live_ok s" and b: "b \<in> set (db_Attempts s)" "live_attempt b"
  shows "in_gate (at_ID b) s" "j \<noteq> at_ID b \<Longrightarrow> j \<noteq> [] \<Longrightarrow> \<not> claim_allowed j st s"
proof -
  have g: "gate_ok s" using ok by (simp add: live_ok_def)
  have "held_by s b" by (rule gate_okD(4)[OF g b])
  then show "in_gate (at_ID b) s" using gate_okD(2)[OF g] by (auto simp: in_gate_def held_by_def gate_of_def split: option.splits)
  then show "j \<noteq> at_ID b \<Longrightarrow> j \<noteq> [] \<Longrightarrow> \<not> claim_allowed j st s" by (rule in_gate_blocks)
qed

text \<open>C11: A lost answer suspends live trading. When a live attempt of the ledger is executed and the broker's answer is lost (or
  its failure is not a certain refusal, or it answers a replay), the execution reports an error. By then the send was
  marked, under the worker's token, and others may have acted on the ledger since the mark (\<open>u\<close> is what they left). The
  execution itself releases nothing there: reservations, operations, orders and lots stay as they are in \<open>u\<close>, and if the worker no longer
  holds the attempt nothing is written. The attempt stays recorded as sent; if the worker still held it, it is claimed or unknown
  afterwards; and while it is, whoever holds it, it keeps its place in the gate and no other attempt can be claimed.\<close>
theorem lost_answer_suspends:
  assumes ok: "live_ok s" and env: "shared_ledger pc limits x" and live: "xe_Live x"
    and mine: "a \<in> set (db_Attempts s)" "live_attempt a"
    and run: "executeClaimedAttemptWithReplay x a replay s = (r, s', [call])"
    and lost: "xe_Broker x call = Inl f" "answer_lost replay f"
  shows "r \<in> range Inl \<and>
    (\<exists>t u. before_call x a replay s = (Inr call, t) \<and> u = xe_Other x 7 t \<and>
      (\<exists>b\<in>set (db_Attempts t). fenced (at_ID a) (at_Attempt a) b \<and> at_SentAt b \<noteq> None) \<and>
      db_OpenReservations s' = db_OpenReservations u \<and> db_CloseReservations s' = db_CloseReservations u \<and>
      db_Operations s' = db_Operations u \<and> db_Orders s' = db_Orders u \<and> db_Lots s' = db_Lots u \<and>
      (\<exists>b\<in>set (db_Attempts s'). at_ID b = at_ID a \<and> at_SentAt b \<noteq> None \<and>
        (if \<exists>d\<in>set (db_Attempts u). fenced (at_ID a) (at_Attempt a) d
         then at_State b = ''claimed'' \<or> at_State b = ''unknown'' else s' = u) \<and>
        (at_State b = ''claimed'' \<or> at_State b = ''unknown'' \<longrightarrow>
           in_gate (at_ID a) s' \<and> (\<forall>j st. j \<noteq> at_ID a \<and> j \<noteq> [] \<longrightarrow> \<not> claim_allowed j st s'))))"
proof -
  let ?r = "unknown_resolution ''provider mutation outcome unknown'' (mf_Code f) []"
  obtain t where bc: "before_call x a replay s = (Inr call, t)" and ac: "after_call x a replay (Inl f) t = (r, s')"
    using executed_run[OF run] lost(1) by auto
  obtain ev mid s2 m where st: "reach x pc limits s s2" "reach x pc limits s2 m"
    and mark: "MarkAttemptSentWithManifest (xe_Codec x) (xe_Clock x 5) (at_ID a) (at_Attempt a) replay (xe_Guard x) ev mid m = Inr (True, t)"
    by (rule call_stages[OF bc live env])
  have okm: "live_ok m" using live_kernel.steps_inv[OF _ ok] st by (metis rtranclp_trans)
  obtain d n where d: "fenced (at_ID a) (at_Attempt a) d" "marks (ordinal replay) d (mark_row (ordinal replay) n d)"
    "mark_row (ordinal replay) n d \<in> set (db_Attempts t)"
    by (rule send_row[OF okm mark])
  let ?b = "mark_row (ordinal replay) n d" and ?u = "xe_Other x 7 t"
  have b: "fenced (at_ID a) (at_Attempt a) ?b" "at_SentAt ?b \<noteq> None" "at_State ?b \<noteq> ''pending''"
    using d(1,2) by (auto simp: fenced_def marks_def marks_first_def marks_replay_def ordinal_def split: if_splits)
  have cf: "call_failed x a replay f t = stop_first x 7 a ?r errBrokerResultUnknown t"
    using lost(2) by (auto simp: call_failed_def answer_lost_def)
  obtain r0 where res: "ResolveAttempt (xe_Errtext x) (xe_Clock x 7 0) (xe_NewID x 7) (at_ID a) (at_Attempt a) ?r ?u = (r0, s')"
    using ac by (auto simp: after_call_def cf stop_first_def resolve_def split: prod.splits sum.splits)
  have r: "r \<in> range Inl" using ac by (auto simp: after_call_def cf stop_first_def split: prod.splits sum.splits)
  have run': "reach x pc limits s t" "reach x pc limits t s'" "reach x pc limits s s'"
    using ran_before[OF env, of s a replay] ran_after[OF env, of t a replay "Inl f"] executed_reach[OF env run] by (simp_all add: bc ac)
  have ok': "live_ok s'" by (rule live_kernel.steps_inv[OF run'(3) ok])
  note one = attempts_by_id[OF ok'[unfolded live_ok_def, THEN conjunct1]]
  obtain b' where b': "b' \<in> set (db_Attempts s')" "attempt_step\<^sup>*\<^sup>* ?b b'" by (rule followed[OF run'(2) d(3)])
  have id: "at_ID b' = at_ID a" using life_fields[OF b'(2)] b(1) by (simp add: fenced_def)
  obtain c where "c \<in> set (db_Attempts s')" "attempt_step\<^sup>*\<^sup>* a c" by (rule followed[OF run'(3) mine(1)])
  then have int: "at_Intent b' = at_Intent a" using one[OF b'(1)] life_fields id by metis
  have sent: "at_SentAt b' \<noteq> None" using life_identity[OF b'(2) b(2,3)] b(2) by (simp add: sent_identity_def)
  have gate: "in_gate (at_ID a) s' \<and> (\<forall>j st. j \<noteq> at_ID a \<and> j \<noteq> [] \<longrightarrow> \<not> claim_allowed j st s')"
    if "at_State b' = ''claimed'' \<or> at_State b' = ''unknown''"
  proof -
    have "live_attempt b'" using that int mine(2) by (simp add: live_attempt_def)
    then show ?thesis using live_in_gate[OF ok' b'(1)] id by simp
  qed
  have held: "if \<exists>d\<in>set (db_Attempts ?u). fenced (at_ID a) (at_Attempt a) d
      then at_State b' = ''claimed'' \<or> at_State b' = ''unknown'' else s' = ?u"
  proof (cases "find (fenced (at_ID a) (at_Attempt a)) (db_Attempts ?u)")
    case None
    then have "s' = ?u" using res by (simp add: ResolveAttempt_def)
    moreover have "\<not> (\<exists>d\<in>set (db_Attempts ?u). fenced (at_ID a) (at_Attempt a) d)" using None by (simp add: find_None_iff)
    ultimately show ?thesis by (simp only: if_False)
  next
    case (Some e)
    then have e: "e \<in> set (db_Attempts ?u)" "fenced (at_ID a) (at_Attempt a) e" by (auto dest: find_SomeD)
    from unknown_resolved[OF e res] show ?thesis using one[OF b'(1)] id e by metis
  qed
  have "\<exists>b\<in>set (db_Attempts t). fenced (at_ID a) (at_Attempt a) b \<and> at_SentAt b \<noteq> None" using b(1,2) d(3) by blast
  moreover have "\<exists>b\<in>set (db_Attempts s'). at_ID b = at_ID a \<and> at_SentAt b \<noteq> None \<and>
      (if \<exists>d\<in>set (db_Attempts ?u). fenced (at_ID a) (at_Attempt a) d
       then at_State b = ''claimed'' \<or> at_State b = ''unknown'' else s' = ?u) \<and>
      (at_State b = ''claimed'' \<or> at_State b = ''unknown'' \<longrightarrow>
         in_gate (at_ID a) s' \<and> (\<forall>j st. j \<noteq> at_ID a \<and> j \<noteq> [] \<longrightarrow> \<not> claim_allowed j st s'))"
    by (intro bexI[OF _ b'(1)] conjI id sent held impI gate)
  ultimately show ?thesis using r bc unknown_releases_nothing[OF res] by blast
qed

section \<open>A concrete execution\<close>

text \<open>Attempt A without its evidence, a broker that does not answer, and nobody else at work.\<close>

definition demo_digest :: string where
  "demo_digest = replicate 32 (CHR ''H'')"

definition exec_codec :: codec where
  "exec_codec = demo_codec\<lparr>sha256 := (\<lambda>_. demo_digest)\<rparr>"

definition exec_attempt :: execution_attempt where
  "exec_attempt = demo_attempt\<lparr>at_ProviderAccountID := None, at_ProviderIntent := None, at_IntentFingerprint := None,
     at_ClientOrderID := ''C'', at_Qty := 2000000, at_Limit := 101000000\<rparr>"

definition exec_db :: db where
  "exec_db = demo_db\<lparr>db_Attempts := [exec_attempt], db_Manifests := [demo_manifest\<lparr>pm_FactsDigest := demo_digest\<rparr>]\<rparr>"

definition demo_exec :: exec_env where
  "demo_exec = \<lparr>xe_Live = True, xe_Kinds = None, xe_HasExecution = True,
     xe_Decode = (\<lambda>_. Inr (sample_open\<lparr>op_InstrumentID := ''I''\<rparr>)), xe_BoundAccount = ''acct'',
     xe_Marshal = (\<lambda>_. ''{}''), xe_Unmarshal = (\<lambda>_. None), xe_Codec = exec_codec,
     xe_Capture = (\<lambda>_ _ _ s. (Inr ''M'', s)), xe_Guard = 1,
     xe_Broker = (\<lambda>_. Inl \<lparr>mf_Kind = ''timeout'', mf_Code = [], mf_Detail = [], mf_Classified = False\<rparr>),
     xe_OrderFacts = (\<lambda>_. []), xe_Errtext = demo_errtext, xe_Clock = (\<lambda>_. demo_clock), xe_NewID = (\<lambda>_ _. ''N''),
     xe_Other = (\<lambda>_ s. s)\<rparr>"

definition exec_result where
  "exec_result = executeClaimedAttemptWithReplay demo_exec exec_attempt False exec_db"

lemma exec_ok: "live_ok exec_db"
  by code_simp

lemma exec_shared: "shared_ledger pc limits demo_exec"
  by (simp add: shared_ledger_def demo_exec_def)

lemma exec_calls: "length (snd (snd exec_result)) = 1 \<and> list_all (\<lambda>a. at_State a = ''unknown'') (db_Attempts (fst (snd exec_result)))"
  by code_simp

lemma exec_run:
  obtains r call where "executeClaimedAttemptWithReplay demo_exec exec_attempt False exec_db = (r, fst (snd exec_result), [call])"
proof -
  obtain call where "snd (snd exec_result) = [call]" using exec_calls by (cases "snd (snd exec_result)") auto
  then have "exec_result = (fst exec_result, fst (snd exec_result), [call])" by (metis prod.collapse)
  then show thesis by (intro that) (simp add: exec_result_def)
qed

lemma exec_live: "xe_Live demo_exec" "at_Intent exec_attempt = ''place''" "at_ID exec_attempt = ''A''"
  by (simp_all add: demo_exec_def exec_attempt_def demo_attempt_def)

theorem call_after_mark_witness:
  "live_ok (fst (snd exec_result)) \<and> (\<exists>op. snd (snd exec_result) = [the_call exec_attempt op])"
proof -
  obtain r call where run: "executeClaimedAttemptWithReplay demo_exec exec_attempt False exec_db = (r, fst (snd exec_result), [call])"
    by (rule exec_run)
  have call: "snd (snd exec_result) = [call]" by (subst exec_result_def, subst run) simp
  note c = call_after_mark[OF exec_ok exec_shared[of sample_codec demo_limits] exec_live(1) run]
  have "\<exists>op. [call] = [the_call exec_attempt op]" using conjunct2[OF conjunct2[OF c]] by (elim disjE exE conjE) (simp, blast)
  then show ?thesis using conjunct1[OF conjunct2[OF c]] call by simp
qed

theorem no_second_send_witness:
  "snd (snd (executeClaimedAttemptWithReplay demo_exec exec_attempt False (fst (snd exec_result)))) = []"
proof -
  obtain r call where run: "executeClaimedAttemptWithReplay demo_exec exec_attempt False exec_db = (r, fst (snd exec_result), [call])"
    by (rule exec_run)
  obtain t' where b: "before_call demo_exec exec_attempt False exec_db = (Inr call, t')"
    and a: "after_call demo_exec exec_attempt False (xe_Broker demo_exec call) t' = (r, fst (snd exec_result))"
    using executed_run[OF run] by blast
  obtain ev mid s2 t where st: "reach demo_exec sample_codec demo_limits exec_db s2" "reach demo_exec sample_codec demo_limits s2 t"
    and m: "MarkAttemptSentWithManifest (xe_Codec demo_exec) (xe_Clock demo_exec 5) (at_ID exec_attempt) (at_Attempt exec_attempt) False
      (xe_Guard demo_exec) ev mid t = Inr (True, t')"
    by (rule call_stages[OF b exec_live(1) exec_shared])
  have "live_ok t" using live_kernel.steps_inv[OF st(2) live_kernel.steps_inv[OF st(1) exec_ok]] .
  moreover have "reach demo_exec sample_codec demo_limits t' (fst (snd exec_result))"
    using ran_after[OF exec_shared[of sample_codec demo_limits], of t' exec_attempt False "xe_Broker demo_exec call"] by (simp add: a)
  ultimately show ?thesis using no_second_send[OF _ exec_shared exec_live(1) m, where again = False] by blast
qed

theorem call_as_recorded_witness:
  "\<exists>t::db. \<exists>b\<in>set (db_Attempts t). at_ID b = ''A'' \<and> at_SentAt b \<noteq> None \<and> at_ProviderIntent b = Some ''{}'' \<and>
     at_IntentFingerprint b = Some demo_digest"
proof -
  obtain r call where run: "executeClaimedAttemptWithReplay demo_exec exec_attempt False exec_db = (r, fst (snd exec_result), [call])"
    by (rule exec_run)
  have "jsonb (xe_Codec demo_exec) (xe_Marshal demo_exec i) = ''{}''" "sha256 (xe_Codec demo_exec) (xe_Marshal demo_exec i) = demo_digest" for i
    by (simp_all add: demo_exec_def exec_codec_def demo_codec_def)
  moreover obtain i b and t :: db where "b \<in> set (db_Attempts t)" "at_ID b = at_ID exec_attempt" "at_SentAt b \<noteq> None"
    "at_ProviderIntent b = Some (jsonb (xe_Codec demo_exec) (xe_Marshal demo_exec i))"
    "at_IntentFingerprint b = Some (sha256 (xe_Codec demo_exec) (xe_Marshal demo_exec i))"
    using call_as_recorded[OF exec_ok exec_shared[of sample_codec demo_limits] exec_live(1,2) run] by (elim exE conjE) (rule that)
  ultimately show ?thesis using exec_live(3) by metis
qed

theorem lost_answer_suspends_witness: "in_gate ''A'' (fst (snd exec_result)) \<and> \<not> claim_allowed ''B'' ''pending'' (fst (snd exec_result))"
proof -
  obtain r call where run: "executeClaimedAttemptWithReplay demo_exec exec_attempt False exec_db = (r, fst (snd exec_result), [call])"
    by (rule exec_run)
  have env: "xe_Broker demo_exec call = Inl \<lparr>mf_Kind = ''timeout'', mf_Code = [], mf_Detail = [], mf_Classified = False\<rparr>"
    "xe_Other demo_exec 7 u = u" for u by (simp_all add: demo_exec_def)
  have mine: "exec_attempt \<in> set (db_Attempts exec_db)" "live_attempt exec_attempt"
    by (simp_all add: exec_db_def live_attempt_def exec_attempt_def demo_attempt_def)
  have lost: "answer_lost False \<lparr>mf_Kind = ''timeout'', mf_Code = [], mf_Detail = [], mf_Classified = False\<rparr>"
    by (simp add: answer_lost_def)
  have "in_gate ''A'' (fst (snd exec_result)) \<and>
      (\<forall>j st. j \<noteq> ''A'' \<and> j \<noteq> [] \<longrightarrow> \<not> claim_allowed j st (fst (snd exec_result)))"
    using lost_answer_suspends[OF exec_ok exec_shared[of sample_codec demo_limits] exec_live(1) mine run env(1) lost]
    unfolding env(2) exec_live(3) by (elim conjE exE bexE) (metis (no_types))
  then show ?thesis by simp
qed

end
