(* ===== verification/Judged_Execution.thy ===== *)
theory Judged_Execution
  imports Execution
begin

text \<open>
  The executor with the barrier in its place: \<open>captureLivePreEffect\<close> is a run of the kernel, so everything proved of
  the executor holds with it, and what it judged is what stands in the ledger when the send is marked.
\<close>

definition captured_by :: "(execution_attempt \<Rightarrow> operation \<Rightarrow> barrier_env) \<Rightarrow> exec_env \<Rightarrow> bool" where
  "captured_by be x \<longleftrightarrow> xe_Capture x = (\<lambda>a op replay. captureLivePreEffect (be a op) a op replay) \<and>
     (\<forall>a op. be_Codec (be a op) = xe_Codec x)"

text \<open>Between two transactions, of the executor and of the capture, the other workers run.\<close>

definition others_run :: "policy_codec \<Rightarrow> (string \<Rightarrow> int64 \<times> int64 \<times> int64) \<Rightarrow> (execution_attempt \<Rightarrow> operation \<Rightarrow> barrier_env) \<Rightarrow> exec_env \<Rightarrow> bool" where
  "others_run pc limits be x \<longleftrightarrow> (\<forall>k s. reach x pc limits s (xe_Other x k s)) \<and>
     (\<forall>a op k s. reach x pc limits s (be_Other (be a op) k s))"

lemma shared_by_capture:
  assumes "captured_by be x" "others_run pc limits be x"
  shows "shared_ledger pc limits x"
proof -
  have "reach x pc limits s (snd (captureLivePreEffect (be a op) a op replay s))" for a op replay s
    using capture_run[of "be a op" pc limits "xe_Errtext x" s a op replay] assms by (simp add: captured_by_def others_run_def)
  then show ?thesis using assms by (simp add: shared_ledger_def captured_by_def others_run_def)
qed


section \<open>The manifest a send is marked with\<close>

lemma send_manifest:
  assumes run: "MarkAttemptSentWithManifest c clock i tok replay g ev mid s = Inr (True, s')"
  obtains m d where "find (\<lambda>m. pm_ID m = mid \<and> pm_AttemptID m = i \<and> pm_FencingToken m = tok) (db_Manifests s) = Some m"
    "d \<in> set (db_Attempts s)" "at_ID d = i" "clock 0 < pm_ExpiresAt m" "pm_Ledger m = ''live''"
    "lr_OpenRisk (ledgerResources s ''live'' (at_OperationID d)) = pm_ExpectedLocalOpenRisk m"
    "lr_HeldCash (ledgerResources s ''live'' (at_OperationID d)) = pm_ExpectedLocalHeldCash m"
    "\<exists>h r. active_head s = Some (h, r) \<and> kh_RevisionID h = pm_ActivePolicyRevisionID m \<and> kh_Generation h = pm_ActivePolicyGeneration m"
proof -
  obtain s1 s2 where mk: "mark_effect c ev i tok (ordinal replay) s s1"
    and v: "validatePreEffectManifestForSend c mid i tok (ordinal replay) (clock 0) s1 = Inr s2"
    by (rule send_cases[OF run])
  obtain cond n where s1: "s1 = s\<lparr>db_Attempts := update_rows cond (mark_row (ordinal replay) n) (db_Attempts s)\<rparr>"
    using mk unfolding mark_effect_def by blast
  obtain m b d w canonical where join: "manifest_join mid i tok s1 = Some (m, b, d, w)"
    and guards: "send_guards c (clock 0) m b canonical s1 d w = Inr ()"
    by (rule validatePreEffect_cases[OF v])
  note j = manifest_join_ok[OF join] and g = send_guards_ok[OF guards]
  have found: "find (\<lambda>m. pm_ID m = mid \<and> pm_AttemptID m = i \<and> pm_FencingToken m = tok) (db_Manifests s) = Some m"
    using join by (auto simp: manifest_join_def s1 split: option.split_asm)
  obtain d0 where d0: "d0 \<in> set (db_Attempts s)" "d = (if cond d0 then mark_row (ordinal replay) n d0 else d0)"
    using j(7) by (auto simp: s1 set_update_rows)
  have ids: "at_ID d0 = at_ID d" "at_OperationID d0 = at_OperationID d"
    using d0(2) by (simp_all add: mark_row_def sent_row_def)
  have same: "ledgerResources s1 = ledgerResources s"
    by (simp add: fun_eq_iff ledgerResources_def s1)
  have head: "active_head s1 = active_head s"
    unfolding active_head_def s1 by (cases "db_PolicyHead s") simp_all
  have res: "lr_OpenRisk (ledgerResources s ''live'' (ow_ID w)) = pm_ExpectedLocalOpenRisk m"
    "lr_HeldCash (ledgerResources s ''live'' (ow_ID w)) = pm_ExpectedLocalHeldCash m"
    using g(1,4) by (simp_all add: resources_unchanged_def manifest_consistent_def Let_def if_Inl_eq_Inr same)
  have "\<exists>h r. active_head s = Some (h, r) \<and> kh_RevisionID h = pm_ActivePolicyRevisionID m \<and> kh_Generation h = pm_ActivePolicyGeneration m"
    using g(2) by (auto simp: head policy_unchanged_def)
  moreover have "clock 0 < pm_ExpiresAt m" "pm_Ledger m = ''live''" using g(1) by (simp_all add: manifest_consistent_def)
  ultimately show thesis
    using that[OF found d0(1)] ids j(8,10) res by simp
qed

lemma call_capture:
  assumes "before_call x a replay s = (Inr call, s')" "xe_Live x" "shared_ledger pc limits x"
  obtains op ev mid s2 s3 where "reach x pc limits s s2" "xe_Capture x a op replay (xe_Other x 3 s2) = (Inr mid, s3)"
    "MarkAttemptSentWithManifest (xe_Codec x) (xe_Clock x 5) (at_ID a) (at_Attempt a) replay (xe_Guard x) ev mid (xe_Other x 5 s3) = Inr (True, s')"
    "call = the_call a op"
proof -
  obtain op s1 ev s2 where l: "load_operation x a s = (Inr op, s1)" and g: "gather_evidence x a replay op s1 = (Inr ev, s2)"
    and b: "live_barrier x a replay op ev s2 = (Inr (), s')" and c: "call = the_call a op"
    using assms(1) by (auto simp: before_call_def and_then_Inr)
  obtain mid s3 where cap: "capture x a replay op s2 = (Inr mid, s3)" and m: "mark_sent x a replay ev mid s3 = (Inr (), s')"
    using b assms(2) by (auto simp: live_barrier_def and_then_Inr)
  have "reach x pc limits s s2"
    using ran_load[OF assms(3), of s a] ran_gather[OF assms(3), of s1 a replay op] by (simp add: l g)
  moreover have "xe_Capture x a op replay (xe_Other x 3 s2) = (Inr mid, s3)"
    using cap by (auto simp: capture_def split: prod.split_asm sum.split_asm)
  ultimately show thesis using that mark_sent_Inr[OF m] c by blast
qed

lemma step_operation:
  assumes "attempt_step a b"
  shows "at_OperationID b = at_OperationID a"
  using assms
proof cases
  case plain
  then show ?thesis by cases (simp_all add: leaves_def sent_identity_def)
qed (simp_all add: claimed_row_def mark_row_def sent_row_def leaves_def sent_identity_def)

lemma life_operation: "attempt_step\<^sup>*\<^sup>* a b \<Longrightarrow> at_OperationID b = at_OperationID a"
  by (induction rule: rtranclp_induct) (simp_all add: step_operation)

lemma find_kept:
  assumes "m \<in> set ms" "P m" "distinct (map f ms)" "\<And>x. P x \<Longrightarrow> f x = f m"
  shows "find P (ms @ ns) = Some m"
proof -
  have "find P ms = Some m"
    using assms by (intro find_unique) (auto simp: distinct_map dest: inj_onD)
  then show ?thesis by (induction ms) (auto split: if_splits)
qed

lemma manifest_at_send:
  assumes m: "m \<in> set (db_Manifests s)" "pm_ID m = mid" "pm_AttemptID m = i" "pm_FencingToken m = tok" and keys: "manifest_keys s"
    and run: "live_steps c pc limits errtext s t"
  shows "find (\<lambda>m. pm_ID m = mid \<and> pm_AttemptID m = i \<and> pm_FencingToken m = tok) (db_Manifests t) = Some m"
proof -
  obtain ms where ms: "db_Manifests t = db_Manifests s @ ms"
    using moves_manifests[OF live_steps_moves[OF run]] by (auto simp: manifests_kept_def)
  show ?thesis
    unfolding ms by (rule find_kept[where f = pm_ID]) (use m keys in \<open>auto simp: manifest_keys_def\<close>)
qed

text \<open>What the barrier judged: the snapshot that it captured and recorded on the ledger \<open>v\<close>, which shows the account, the
  positions and the orders that the provider answered, with the market facts taken for it and the row of the operation.\<close>

definition judged_on ::
  "barrier_env \<Rightarrow> execution_attempt \<Rightarrow> operation \<Rightarrow> bool \<Rightarrow> db \<Rightarrow> provider_snapshot \<Rightarrow> pre_effect_evaluation \<Rightarrow> bool" where
  "judged_on x a op replay v sn e \<longleftrightarrow> (\<exists>pv b f w v1.
     be_Provider x = Some pv \<and> pv_Account pv = Inr (sn_Account sn) \<and> pv_Positions pv = Inr (sn_Positions sn) \<and>
     pv_Orders pv = Inr (sn_Orders sn) \<and> a_ExternalID (sn_Account sn) = ob_AccountID b \<and>
     sn_Observation sn = Some b \<and> ob_Status b = ''complete'' \<and> ob_Purpose b = ''pre_effect'' \<and>
     captureProviderSnapshotFrom (be_Observations x) (be_Bound x) (be_LocalGeneration x) (be_Generation x) (be_ObservationID x)
       ''pre_effect'' (be_Provider x) v = (Inr sn, v1) \<and>
     market_facts x a op sn = Inr f \<and>
     one_row (\<lambda>w. ow_ID w = at_OperationID a) (db_Operations (be_Other x 1 v1)) = Inr w \<and>
     evaluateLivePreEffect (be_Rules x) sn a w op f replay (be_Other x 2 (be_Other x 1 v1)) = Inr e)"

lemma capture_judged:
  assumes "captureLivePreEffect x a op replay s = (Inr mid, s')"
  obtains sn b effect f e m u where "judged_on x a op replay (be_Other x 0 s) sn e"
    "RecordPreEffectManifest (be_Codec x) (be_RecordedAt x) (be_ManifestID x) (manifest_input x a effect b f e) u = Inr (m, s')"
    "pm_ID m = mid"
proof (rule capture_cases[OF assms])
  fix sn b s1 effect f w e m
  assume sn: "captureProviderSnapshotFrom (be_Observations x) (be_Bound x) (be_LocalGeneration x) (be_Generation x) (be_ObservationID x)
       ''pre_effect'' (be_Provider x) (be_Other x 0 s) = (Inr sn, s1)"
    and j: "market_facts x a op sn = Inr f" "one_row (\<lambda>w. ow_ID w = at_OperationID a) (db_Operations (be_Other x 1 s1)) = Inr w"
      "evaluateLivePreEffect (be_Rules x) sn a w op f replay (be_Other x 2 (be_Other x 1 s1)) = Inr e"
    and m: "RecordPreEffectManifest (be_Codec x) (be_RecordedAt x) (be_ManifestID x) (manifest_input x a effect b f e)
       (be_Other x 3 (be_Other x 2 (be_Other x 1 s1))) = Inr (m, s')" "pm_ID m = mid"
  have "judged_on x a op replay (be_Other x 0 s) sn e"
    using snapshot_answers[OF sn] sn j unfolding judged_on_def by blast
  then show thesis by (rule that[OF _ m])
qed

text \<open>C6: Every order that reaches the broker was judged, and the judgement still holds when the send is marked. When executing
  a live attempt, with the barrier as its capture and any other workers around it, makes a call, then the
  barrier evaluated exactly this operation and accepted it, on the snapshot it had captured and recorded during
  this execution, whose account, positions and orders are the ones the provider answered; and in the ledger in which the send was
  marked, the open risk and the held cash beside the operation are the ones the evaluation counted, the active
  policy is the one it applied, and its facts have not expired.\<close>
theorem call_judged:
  assumes ok: "live_ok s" and cap: "captured_by be x" and others: "others_run pc limits be x" and live: "xe_Live x"
    and row: "a \<in> set (db_Attempts s)"
    and keys: "manifest_keys s"
    and run: "executeClaimedAttemptWithReplay x a replay s = (r, s', [call])"
  shows "\<exists>op v sn e t t' ev mid h k. call = the_call a op \<and>
    reach x pc limits s v \<and> judged_on (be a op) a op replay v sn e \<and> reach x pc limits s t \<and>
    MarkAttemptSentWithManifest (xe_Codec x) (xe_Clock x 5) (at_ID a) (at_Attempt a) replay (xe_Guard x) ev mid t = Inr (True, t') \<and>
    reach x pc limits t' s' \<and>
    lr_OpenRisk (ledgerResources t ''live'' (at_OperationID a)) = pe_LocalOpenRisk e \<and>
    lr_HeldCash (ledgerResources t ''live'' (at_OperationID a)) = pe_LocalHeldCash e \<and>
    active_head t = Some (h, k) \<and> kh_RevisionID h = pe_ActivePolicyRevisionID e \<and> kh_Generation h = pe_ActivePolicyGeneration e \<and>
    xe_Clock x 5 0 < pe_FreshnessExpiresAt e"
proof -
  note env = shared_by_capture[OF cap others]
  obtain t' where bc: "before_call x a replay s = (Inr call, t')" and ac: "after_call x a replay (xe_Broker x call) t' = (r, s')"
    using executed_run[OF run] by blast
  obtain op ev mid s2 s3 where s2: "reach x pc limits s s2" and c: "xe_Capture x a op replay (xe_Other x 3 s2) = (Inr mid, s3)"
    and mk: "MarkAttemptSentWithManifest (xe_Codec x) (xe_Clock x 5) (at_ID a) (at_Attempt a) replay (xe_Guard x) ev mid (xe_Other x 5 s3) = Inr (True, t')"
    and call: "call = the_call a op"
    by (rule call_capture[OF bc live env])
  let ?t = "xe_Other x 5 s3"
  have c': "captureLivePreEffect (be a op) a op replay (xe_Other x 3 s2) = (Inr mid, s3)"
    using c cap by (simp add: captured_by_def)
  obtain sn b effect f e p u where e: "judged_on (be a op) a op replay (be_Other (be a op) 0 (xe_Other x 3 s2)) sn e"
    and p: "RecordPreEffectManifest (be_Codec (be a op)) (be_RecordedAt (be a op)) (be_ManifestID (be a op))
        (manifest_input (be a op) a effect b f e) u = Inr (p, s3)" "pm_ID p = mid"
    by (rule capture_judged[OF c'])
  have rv: "reach x pc limits s (be_Other (be a op) 0 (xe_Other x 3 s2))"
    using s2 others unfolding others_run_def by (meson rtranclp_trans)
  obtain m where m: "m \<in> set (db_Manifests s3)" "pm_ID m = mid" "pm_AttemptID m = at_ID a" "pm_FencingToken m = at_Attempt a"
    and fields: "pm_ExpectedLocalOpenRisk m = pe_LocalOpenRisk e" "pm_ExpectedLocalHeldCash m = pe_LocalHeldCash e"
      "pm_ActivePolicyRevisionID m = pe_ActivePolicyRevisionID e" "pm_ActivePolicyGeneration m = pe_ActivePolicyGeneration e"
      "pm_ExpiresAt m = pe_FreshnessExpiresAt e"
    using manifest_recorded[OF p(1)] p(2) by (auto simp: manifest_input_def)
  have r3: "reach x pc limits s3 ?t" by (rule ran_other[OF env])
  have "reach x pc limits s2 s3"
    using ran_other[OF env, of s2 3] env c unfolding shared_ledger_def by (metis rtranclp_trans snd_conv)
  then have r23: "reach x pc limits s s3" using s2 by (meson rtranclp_trans)
  then have rt: "reach x pc limits s ?t" using r3 by (meson rtranclp_trans)
  have found: "find (\<lambda>m. pm_ID m = mid \<and> pm_AttemptID m = at_ID a \<and> pm_FencingToken m = at_Attempt a) (db_Manifests ?t) = Some m"
    by (rule manifest_at_send[OF m moves_keys[OF live_steps_moves[OF r23] keys] r3])
  obtain m' d where m': "find (\<lambda>m. pm_ID m = mid \<and> pm_AttemptID m = at_ID a \<and> pm_FencingToken m = at_Attempt a) (db_Manifests ?t) = Some m'"
    and d: "d \<in> set (db_Attempts ?t)" "at_ID d = at_ID a" and fresh: "xe_Clock x 5 0 < pm_ExpiresAt m'"
    and res: "lr_OpenRisk (ledgerResources ?t ''live'' (at_OperationID d)) = pm_ExpectedLocalOpenRisk m'"
      "lr_HeldCash (ledgerResources ?t ''live'' (at_OperationID d)) = pm_ExpectedLocalHeldCash m'"
    and head: "\<exists>h r. active_head ?t = Some (h, r) \<and> kh_RevisionID h = pm_ActivePolicyRevisionID m' \<and> kh_Generation h = pm_ActivePolicyGeneration m'"
    by (rule send_manifest[OF mk])
  have "m' = m" using found m' by simp
  moreover have "at_OperationID d = at_OperationID a"
  proof -
    obtain q where q: "q \<in> set (db_Attempts ?t)" "attempt_step\<^sup>*\<^sup>* a q" by (rule followed[OF rt row])
    have "live_ok ?t" by (rule live_kernel.steps_inv[OF rt ok])
    then have "q = d" using attempts_by_id[OF _ q(1) d(1)] life_fields[OF q(2)] d(2) by (simp add: live_ok_def)
    then show ?thesis using life_operation[OF q(2)] by simp
  qed
  moreover have "reach x pc limits t' s'" using ran_after[OF env, of t' a replay "xe_Broker x call"] by (simp add: ac)
  moreover obtain h k where "active_head ?t = Some (h, k)" "kh_RevisionID h = pm_ActivePolicyRevisionID m'"
    "kh_Generation h = pm_ActivePolicyGeneration m'" using head by blast
  ultimately show ?thesis
    using call e rv rt mk res fresh fields
    by - (rule exI[of _ op], rule exI[of _ "be_Other (be a op) 0 (xe_Other x 3 s2)"], rule exI[of _ sn], rule exI[of _ e],
        rule exI[of _ ?t], rule exI[of _ t'], rule exI[of _ ev], rule exI[of _ mid], rule exI[of _ h], rule exI[of _ k], simp)
qed

section \<open>A concrete judged execution\<close>

text \<open>Attempt A of the sample account, still without its evidence, with the barrier as the capture.\<close>

definition judged_exec :: exec_env where
  "judged_exec = demo_exec\<lparr>xe_Decode := (\<lambda>_. Inr capture_open), xe_Codec := be_Codec capture_env,
     xe_Capture := captureLivePreEffect capture_env\<rparr>"

definition judged_db :: db where
  "judged_db = capture_db\<lparr>db_Attempts := [exec_attempt]\<rparr>"

lemma judged_calls: "length (snd (snd (executeClaimedAttemptWithReplay judged_exec exec_attempt False judged_db))) = 1"
  by code_simp

theorem call_judged_witness:
  "\<exists>op v sn e. snd (snd (executeClaimedAttemptWithReplay judged_exec exec_attempt False judged_db)) = [the_call exec_attempt op] \<and>
     judged_on capture_env exec_attempt op False v sn e \<and> sn_Orders sn = [other_order ''buy'' ''open''] \<and> 100 < pe_FreshnessExpiresAt e"
proof -
  obtain r s' call where run: "executeClaimedAttemptWithReplay judged_exec exec_attempt False judged_db = (r, s', [call])"
    using judged_calls by (metis length_0_conv length_Suc_conv One_nat_def prod.collapse)
  have ok: "live_ok judged_db" by code_simp
  have cap: "captured_by (\<lambda>_ _. capture_env) judged_exec"
    by (simp add: captured_by_def judged_exec_def fun_eq_iff)
  have others: "others_run sample_codec demo_limits (\<lambda>_ _. capture_env) judged_exec"
    by (simp add: others_run_def judged_exec_def demo_exec_def capture_env_def)
  have "xe_Live judged_exec" "exec_attempt \<in> set (db_Attempts judged_db)" "manifest_keys judged_db"
    by (simp_all add: judged_exec_def demo_exec_def judged_db_def manifest_keys_def capture_db_def barrier_db_def sample_authority_def)
  moreover have "xe_Clock judged_exec 5 0 = 100"
    by (simp add: judged_exec_def demo_exec_def demo_clock_def)
  ultimately obtain op v sn e where j: "call = the_call exec_attempt op" "judged_on capture_env exec_attempt op False v sn e"
      "100 < pe_FreshnessExpiresAt e"
    using call_judged[OF ok cap others _ _ _ run] by auto
  have "sn_Orders sn = [other_order ''buy'' ''open'']"
    using j(2) by (auto simp: judged_on_def capture_env_def capture_answers_def)
  then show ?thesis using j run by auto
qed

end
