(* ===== verification/Recovery.thy ===== *)
theory Recovery
  imports Live_System
begin

text \<open>
  The live gate never stays taken for good. Every reachable ledger in which a worker has gone away, or in which an
  outcome is unknown, lets another worker take the attempt over under a higher token and resolve it, which frees the gate.
  This needs one more invariant: an attempt whose outcome is unknown is the one the gate holds as unknown.
\<close>

section \<open>The gate knows what is unknown\<close>

definition unknown_held :: "db \<Rightarrow> bool" where
  "unknown_held s \<longleftrightarrow> list_all (\<lambda>a. live_attempt a \<and> at_State a = ''unknown'' \<longrightarrow> db_GateUnknown s = Some (at_ID a)) (db_Attempts s)"

definition recovery_ok :: "db \<Rightarrow> bool" where
  "recovery_ok s \<longleftrightarrow> live_ok s \<and> unknown_held s"

lemma unknown_heldD:
  "unknown_held s \<Longrightarrow> a \<in> set (db_Attempts s) \<Longrightarrow> live_attempt a \<Longrightarrow> at_State a = ''unknown'' \<Longrightarrow> db_GateUnknown s = Some (at_ID a)"
  by (simp add: unknown_held_def list_all_iff)

lemma unknown_held_view: "live_view s' = live_view s \<Longrightarrow> unknown_held s \<Longrightarrow> unknown_held s'"
  by (simp add: unknown_held_def live_view_def)

text \<open>A change of the rows: the ones still unknown must find their gate.\<close>

lemma unknown_held_change:
  assumes "db_Attempts s' = update_rows cond f (db_Attempts s)"
    and "\<And>a. a \<in> set (db_Attempts s) \<Longrightarrow> cond a \<Longrightarrow> live_attempt (f a) \<Longrightarrow> at_State (f a) = ''unknown'' \<Longrightarrow> db_GateUnknown s' = Some (at_ID (f a))"
    and "\<And>a. a \<in> set (db_Attempts s) \<Longrightarrow> \<not> cond a \<Longrightarrow> live_attempt a \<Longrightarrow> at_State a = ''unknown'' \<Longrightarrow> db_GateUnknown s' = Some (at_ID a)"
  shows "unknown_held s'"
  using assms by (auto simp: unknown_held_def list_all_iff set_update_rows)

lemma claim_keeps_unknown:
  assumes g: "gate_ok s" "db_GateUnknown s = Some j" and al: "claim_allowed i st s" and i: "i \<noteq> []"
  shows "db_GateUnknown (claim_change n i w st tok l True s) = Some j"
proof -
  have "db_GateActive s = None" using gate_okD(2)[OF g(1)] g(2) by simp
  then have "i = j" "st = ''unknown'' \<or> recovering_unknown i st s"
    using al g(2) i by (auto simp: claim_allowed_def gate_idle_def null_string_eq recovering_unknown_def split: if_splits)
  then show ?thesis by (auto simp: claim_change_def Let_def enter_gate_def)
qed

lemma move_unknown:
  assumes ok: "live_ok s" and un: "unknown_held s" and mv: "move s s'"
  shows "unknown_held s'"
  using mv
proof cases
  case view
  then show ?thesis using unknown_held_view un by blast
next
  case (evidence m)
  then show ?thesis using un by (simp add: live_view_def unknown_held_def)
next
  case (arrive a)
  have "unknown_held (s\<lparr>db_Attempts := db_Attempts s @ [a]\<rparr>)"
    using un arrive(2) by (simp add: unknown_held_def new_attempt_def)
  then show ?thesis by (rule unknown_held_view[OF arrive(3)])
next
  case (claim a0 i st use n w tok l)
  let ?s = "claim_change n i w st tok l use s"
  have i: "i \<noteq> []" using gate_okD(3)[of s a0] ok claim(1,2) by (auto simp: live_ok_def row_ok_def)
  have rows: "db_Attempts ?s = update_rows (claimable n i st tok) (claimed_row n w l) (db_Attempts s)"
    by (simp add: claim_change_def Let_def)
  have "db_GateUnknown ?s = Some j" if "db_GateUnknown s = Some j" for j
    using claim_keeps_unknown[OF _ that claim(5) i] ok that by (cases use) (simp_all add: live_ok_def claim_change_def)
  then have "unknown_held ?s"
    by (intro unknown_held_change[OF rows]) (simp_all add: unknown_heldD[OF un])
  then show ?thesis by (rule unknown_held_view[OF claim(6)])
next
  case (change i cond f)
  have "unknown_held (s\<lparr>db_Attempts := update_rows cond f (db_Attempts s)\<rparr>)"
  proof (rule unknown_held_change[where s = s])
    fix a
    assume "cond a" "live_attempt (f a)" "at_State (f a) = ''unknown''"
    moreover have "plain_step a (f a)" using change(1) \<open>cond a\<close> by (simp add: plain_changes_def)
    ultimately have False
    proof (elim plain_step.cases)
      show "live_attempt (f a) \<Longrightarrow> f a = b \<Longrightarrow> st = ''settled'' \<or> st = ''failed'' \<Longrightarrow> leaves st a' b \<Longrightarrow> False" for b a' st
        using finish_states(2) by blast
    qed simp_all
    then show "db_GateUnknown (s\<lparr>db_Attempts := update_rows cond f (db_Attempts s)\<rparr>) = Some (at_ID (f a))" ..
  qed (simp_all add: unknown_heldD[OF un])
  then show ?thesis by (rule unknown_held_view[OF change(2)])
next
  case (send i tok k n cond mid)
  have c: "at_State (mark_row k n a) = ''claimed''" if "cond a" for a
    using send(1) that by (auto simp: send_marks_def fenced_def marks_def)
  have "unknown_held (s\<lparr>db_Attempts := update_rows cond (mark_row k n) (db_Attempts s),
      db_Bindings := db_Bindings s @ [\<lparr>sb_AttemptID = i, sb_SendOrdinal = k, sb_FencingToken = tok, sb_ManifestID = mid\<rparr>]\<rparr>)"
    by (rule unknown_held_change[where s = s and cond = cond and f = "mark_row k n"]) (simp_all add: c unknown_heldD[OF un])
  then show ?thesis by (rule unknown_held_view[OF send(2)])
next
  case (leave i tok st cond f n)
  have g: "gate_ok s" using ok by (simp add: live_ok_def)
  obtain row where row: "row \<in> set (db_Attempts s)" "cond row" using leave(1) by (auto simp: exits_def)
  have c: "\<And>a. cond a \<Longrightarrow> fenced i tok a" and f: "\<And>a. leaves st a (f a)" using leave(1) unfolding exits_def by blast+
  have i: "i \<noteq> []" "at_ID row = i" "at_State row = ''claimed''"
    using gate_okD(3)[OF g row(1)] c[OF row(2)] by (auto simp: fenced_def row_ok_def)
  let ?s = "resolve_gate n i st (s\<lparr>db_Attempts := update_rows cond f (db_Attempts s)\<rparr>)"
  have rows: "db_Attempts ?s = update_rows cond f (db_Attempts s)" by simp
  note gc = resolve_gate_cases[OF i(1), where st = st and s = "s\<lparr>db_Attempts := update_rows cond f (db_Attempts s)\<rparr>"]
  have "unknown_held ?s"
  proof (rule unknown_held_change[OF rows])
    fix a
    assume a: "a \<in> set (db_Attempts s)" "cond a" "live_attempt (f a)" "at_State (f a) = ''unknown''"
    have u: "st = ''unknown''" "at_ID (f a) = i" "at_Intent (f a) = at_Intent a" "at_State a = ''claimed''"
      using a(4) leaves_fields[OF f, of a] c[OF a(2)] by (simp_all add: fenced_def)
    then have "held_by s a" using gate_okD(4)[OF g a(1)] a(3) by (simp add: live_attempt_def)
    then have "db_GateActive s = Some i \<or> db_GateUnknown s = Some i" using c[OF a(2)] by (simp add: held_by_def fenced_def)
    then show "db_GateUnknown ?s = Some (at_ID (f a))" using gc(1,2)[OF u(1)] u(2) by (cases "db_GateActive s = Some i") auto
  next
    fix a
    assume a: "a \<in> set (db_Attempts s)" "\<not> cond a" "live_attempt a" "at_State a = ''unknown''"
    have "at_ID a \<noteq> i" using attempts_by_id[OF g a(1) row(1)] a(2) row(2) i(2) by auto
    moreover have "db_GateUnknown s = Some (at_ID a)" by (rule unknown_heldD[OF un a(1,3,4)])
    ultimately show "db_GateUnknown ?s = Some (at_ID a)"
      using gc gate_okD(2)[OF g] by (cases "st = ''unknown''") auto
  qed
  then show ?thesis by (rule unknown_held_view[OF leave(2)])
qed

interpretation recoverable: invariant_system move recovery_ok
  by unfold_locales (auto simp: recovery_ok_def intro: move_ok move_unknown)

lemma recovery_run: "recovery_ok s \<Longrightarrow> live_steps c pc limits errtext s t \<Longrightarrow> recovery_ok t"
  by (rule recoverable.steps_inv[OF live_steps_moves])

section \<open>Taking over and resolving\<close>

lemma find_by_id:
  assumes "distinct (map k rows)" "a \<in> set rows" "c a" "\<And>b. c b \<Longrightarrow> k b = k a"
  shows "find c rows = Some a" "affected c rows = 1"
proof -
  have "find c rows = Some a \<and> filter c rows = [a]"
    using assms(1,2)
  proof (induction rows)
    case (Cons x xs)
    show ?case
    proof (cases "x = a")
      case True
      then have "k a \<notin> k ` set xs" using Cons(2) by simp
      then have "\<not> c y" if "y \<in> set xs" for y using that assms(4)[of y] by (metis imageI)
      then have "filter c xs = []" by (simp add: filter_empty_conv)
      then show ?thesis using True assms(3) by simp
    next
      case False
      then have "a \<in> set xs" "\<not> c x" using Cons(2,3) assms(4)[of x] by auto
      then show ?thesis using Cons by simp
    qed
  qed simp
  then show "find c rows = Some a" "affected c rows = 1" by (simp_all add: affected_def)
qed

definition reclaimable :: "time \<Rightarrow> execution_attempt \<Rightarrow> bool" where
  "reclaimable now a \<longleftrightarrow> live_attempt a \<and> (at_State a = ''claimed'' \<longrightarrow> at_LeaseExpiresAt a \<noteq> 0 \<and> at_LeaseExpiresAt a \<le> now)"

text \<open>The ledger after the takeover, before its event.\<close>

definition taken_over :: "time \<Rightarrow> string \<Rightarrow> int \<Rightarrow> execution_attempt \<Rightarrow> db \<Rightarrow> db" where
  "taken_over now w lease a s = claim_change now (at_ID a) w (at_State a) (at_Attempt a) lease True s"

lemma live_states: "live_attempt a \<Longrightarrow> at_State a = ''claimed'' \<or> at_State a = ''unknown''" "live_attempt a \<Longrightarrow> claim_source (at_State a)"
  by (auto simp: live_attempt_def claim_source_def)

lemma gate_lets_in:
  assumes ok: "recovery_ok s" and a: "a \<in> set (db_Attempts s)" "live_attempt a"
  shows "claim_allowed (at_ID a) (at_State a) s"
proof -
  have g: "gate_ok s" and un: "unknown_held s" using ok by (simp_all add: recovery_ok_def live_ok_def)
  have i: "at_ID a \<noteq> []" using gate_okD(3)[OF g a(1)] by (simp add: row_ok_def)
  have h: "held_by s a" by (rule gate_okD(4)[OF g a])
  have n: "db_GateActive s = None \<or> db_GateUnknown s = None" by (rule gate_okD(2)[OF g])
  show ?thesis
  proof (cases "at_State a = ''unknown''")
    case True
    then have "db_GateUnknown s = Some (at_ID a)" by (rule unknown_heldD[OF un a])
    then show ?thesis using n i True by (simp add: claim_allowed_def null_string_eq)
  next
    case False
    then have "at_State a = ''claimed''" using live_states(1)[OF a(2)] by simp
    then show ?thesis using h n i
      by (auto simp: claim_allowed_def recovering_unknown_def null_string_eq held_by_def)
  qed
qed

lemma claim_found:
  assumes ok: "recovery_ok s" and a: "a \<in> set (db_Attempts s)" "reclaimable now a"
  shows "find (\<lambda>b. at_ID b = at_ID a) (db_Attempts s) = Some a"
    "find (claimable now (at_ID a) (at_State a) (at_Attempt a)) (db_Attempts s) = Some a" "at_Intent a \<noteq> ''paper_place''"
proof -
  have d: "distinct (map at_ID (db_Attempts s))" using ok gate_okD(1) by (simp add: recovery_ok_def live_ok_def)
  have c: "claimable now (at_ID a) (at_State a) (at_Attempt a) a" using a(2) by (simp add: claimable_def reclaimable_def)
  show "find (\<lambda>b. at_ID b = at_ID a) (db_Attempts s) = Some a"
    "find (claimable now (at_ID a) (at_State a) (at_Attempt a)) (db_Attempts s) = Some a"
    by (rule find_by_id(1)[OF d a(1)]; use c in \<open>simp add: claimable_def\<close>)+
  show "at_Intent a \<noteq> ''paper_place''" using a(2) by (simp add: reclaimable_def live_attempt_def)
qed

text \<open>The row and the ledger whose entitlement a claim checks.\<close>

definition reclaim_check :: "time \<Rightarrow> string \<Rightarrow> int \<Rightarrow> execution_attempt \<Rightarrow> db \<Rightarrow> unit result" where
  "reclaim_check now w lease a s = validateM3AExecutionEntitlement
     (s\<lparr>db_Attempts := update_rows (claimable now (at_ID a) (at_State a) (at_Attempt a)) (claimed_row now w lease) (db_Attempts s)\<rparr>)
     (claimed_row now w lease a)"

lemma not_entitled:
  assumes ok: "recovery_ok s" and a: "a \<in> set (db_Attempts s)" "reclaimable now a" and lease: "0 < lease" "lease \<le> day_duration"
    and no: "reclaim_check now w lease a s = Inl e" and p: "recordExecutionEntitlementFailure errtext now (at_ID a) e s = (e', u)"
  shows "claimAttempt errtext now (at_ID a) w (at_State a) (at_Attempt a) lease True s = (Inl e', u)" "only_events s u"
proof -
  note f = claim_found[OF ok a]
  have live: "live_attempt a" using a(2) by (simp add: reclaimable_def)
  have id: "at_ID (claimed_row now w lease a) = at_ID a" by (simp add: claimed_row_def)
  have "claim_row errtext now (at_ID a) w (at_State a) (at_Attempt a) lease True s = (Inl e', u)"
    using no p by (simp add: claim_row_def f Let_def reclaim_check_def id)
  then show "claimAttempt errtext now (at_ID a) w (at_State a) (at_Attempt a) lease True s = (Inl e', u)"
    using gate_lets_in[OF ok a(1) live] lease f(3) by (simp add: claimAttempt_def f(1) Let_def)
  show "only_events s u" using recordIntegrityFailure_events p unfolding recordExecutionEntitlementFailure_def by (metis snd_conv)
qed

lemma takes_over:
  assumes ok: "recovery_ok s" and a: "a \<in> set (db_Attempts s)" "reclaimable now a" and lease: "0 < lease" "lease \<le> day_duration"
    and entitled: "reclaim_check now w lease a s = Inr ()"
  obtains p where "claimAttempt errtext now (at_ID a) w (at_State a) (at_Attempt a) lease True s =
    (Inr (Some (claimed_row now w lease a)), insert_event ''execution_attempt_claimed'' p (taken_over now w lease a s))"
proof -
  have live: "live_attempt a" using a(2) by (simp add: reclaimable_def)
  note f = claim_found[OF ok a]
  show thesis
    by (rule that) (use gate_lets_in[OF ok a(1) live] lease in
      \<open>simp add: claimAttempt_def claim_row_def f entitled[unfolded reclaim_check_def] Let_def taken_over_def claim_change_def\<close>)
qed

lemma taken_over_fields [simp]:
  "db_Attempts (taken_over now w lease a s) = update_rows (claimable now (at_ID a) (at_State a) (at_Attempt a)) (claimed_row now w lease) (db_Attempts s)"
  "db_CloseReservations (taken_over now w lease a s) = db_CloseReservations s"
  "db_OpenReservations (taken_over now w lease a s) = db_OpenReservations s"
  by (simp_all add: taken_over_def claim_change_def Let_def enter_gate_def)

lemma lookup_same:
  "at_CloseReservationID b' = at_CloseReservationID b \<Longrightarrow> at_OpenReservationID b' = at_OpenReservationID b \<Longrightarrow>
   db_CloseReservations s' = db_CloseReservations s \<Longrightarrow> db_OpenReservations s' = db_OpenReservations s \<Longrightarrow>
   reservation_lookup b' s' = reservation_lookup b s"
  by (simp only: reservation_lookup_def)

lemma taken_over_lookup:
  "reservation_lookup (claimed_row now w lease b) (insert_event k p (taken_over now w lease a s)) = reservation_lookup b s"
  by (rule lookup_same) (simp_all add: claimed_row_def insert_event_def)

text \<open>What ends an attempt without a report of the order.\<close>

definition closing :: "attempt_resolution \<Rightarrow> bool" where
  "closing r \<longleftrightarrow> (ar_State r = ''settled'' \<or> ar_State r = ''failed'') \<and> ar_OrderUpdate r = None \<and> ar_CandidateBrokerOrderID r = []"

lemma resolve_frees:
  assumes g: "gate_ok s" and b: "b \<in> set (db_Attempts s)" "fenced i tok b" "live_attempt b"
    and look: "reservation_lookup b s = Inr ()" and r: "closing r"
  obtains s' where "ResolveAttempt errtext n newID i tok r s = (Inr True, s')" "gate_of s' = Free"
proof -
  have d: "distinct (map at_ID (db_Attempts s))" by (rule gate_okD(1)[OF g])
  have i: "at_ID b = i" "i \<noteq> []" using b(2) gate_okD(3)[OF g b(1)] by (auto simp: fenced_def row_ok_def)
  have f: "find (fenced i tok) (db_Attempts s) = Some b" by (rule find_by_id(1)[OF d b(1)]) (use b(2) i in \<open>simp_all add: fenced_def\<close>)
  have af: "affected (resolvable i tok r) (db_Attempts s) = 1"
    by (rule find_by_id(2)[OF d b(1)]) (use b(2) r i in \<open>simp_all add: resolvable_def fenced_def closing_def\<close>)
  have run: "ResolveAttempt errtext n newID i tok r s = (Inr True, resolve_rows n i tok r b s)"
    using r f look af by (simp add: ResolveAttempt_def closing_def resolution_report_def apply_resolution_report_def)
  have st: "ar_State r \<noteq> ''unknown''" using r by (auto simp: closing_def)
  have "held_by s b" by (rule gate_okD(4)[OF g b(1,3)])
  then have h: "db_GateActive s = Some i \<or> db_GateUnknown s = Some i" by (simp add: held_by_def i)
  let ?s = "s\<lparr>db_Attempts := update_rows (resolvable i tok r) (resolved_row n r) (db_Attempts s)\<rparr>"
  have gate: "gate_of (resolve_gate n i (ar_State r) ?s) = Free"
    using resolve_gate_cases(3)[OF i(2) st, where s = ?s and n = n] h gate_okD(2)[OF g] by (auto simp: gate_of_def)
  have "gate_of (resolve_rows n i tok r b s) = gate_of (resolve_gate n i (ar_State r) ?s)"
    by (rule gate_of_view[OF resolve_rows_view])
  then show thesis by (intro that[OF run]) (simp add: gate)
qed

text \<open>C12: What frees the gate. In every ledger a run of the live kernel reaches, take an attempt that is in flight and
  whose worker's lease has run out, or whose outcome is unknown. The gate lets a new worker in. Its claim then depends on the entitlement the
  ledger records for the attempt and on nothing else: if that does not stand, the claim is refused with the integrity failure, which
  writes only events; if it stands, the claim succeeds under the next token. Resolving it as settled or failed, with no order
  report and no candidate order, then depends on the attempt's reservation and on nothing else: if that is not there (or the attempt names
  two), the resolution is refused with that error and writes nothing; otherwise it succeeds and the gate is free.\<close>
theorem gate_released:
  assumes ok: "recovery_ok s" and run: "live_steps c pc limits errtext s t"
    and a: "a \<in> set (db_Attempts t)" "reclaimable now a" and lease: "0 < lease" "lease \<le> day_duration" and r: "closing r"
  shows "case reclaim_check now w lease a t of
      Inl e \<Rightarrow> (case recordExecutionEntitlementFailure errtext now (at_ID a) e t of (e', u) \<Rightarrow>
        claimAttempt errtext now (at_ID a) w (at_State a) (at_Attempt a) lease True t = (Inl e', u) \<and> only_events t u)
    | Inr _ \<Rightarrow> \<exists>u. claimAttempt errtext now (at_ID a) w (at_State a) (at_Attempt a) lease True t =
          (Inr (Some (claimed_row now w lease a)), u) \<and>
        (case reservation_lookup a t of
           Inl e \<Rightarrow> ResolveAttempt errtext n newID (at_ID a) (at_Attempt a + 1) r u = (Inl e, u)
         | Inr _ \<Rightarrow> \<exists>v. ResolveAttempt errtext n newID (at_ID a) (at_Attempt a + 1) r u = (Inr True, v) \<and>
             gate_of v = Free \<and> live_steps c pc limits errtext s v)"
proof (cases "reclaim_check now w lease a t")
  case (Inl e)
  then show ?thesis using not_entitled[OF recovery_run[OF ok run] a lease Inl] by (simp split: prod.split)
next
  case entitled: (Inr x)
  have t: "recovery_ok t" by (rule recovery_run[OF ok run])
  obtain p where cl: "claimAttempt errtext now (at_ID a) w (at_State a) (at_Attempt a) lease True t =
    (Inr (Some (claimed_row now w lease a)), insert_event ''execution_attempt_claimed'' p (taken_over now w lease a t))" (is "_ = (_, ?u)")
    by (rule takes_over[OF t a lease]) (use entitled in simp)
  let ?b = "claimed_row now w lease a"
  have live: "live_attempt a" using a(2) by (simp add: reclaimable_def)
  have step: "live_step c pc limits errtext t ?u" by (rule live_step.claim[OF cl live_states(2)[OF live]])
  have u: "gate_ok ?u" using live_kernel.step_inv[OF _ step] t by (simp add: recovery_ok_def live_ok_def)
  have b: "?b \<in> set (db_Attempts ?u)"
    using a by (auto simp: insert_event_def set_update_rows claimable_def reclaimable_def)
  have fb: "fenced (at_ID a) (at_Attempt a + 1) ?b" "live_attempt ?b"
    using live by (simp_all add: fenced_def claimed_row_def live_attempt_def)
  have look: "reservation_lookup ?b ?u = reservation_lookup a t" by (rule taken_over_lookup)
  have found: "find (fenced (at_ID a) (at_Attempt a + 1)) (db_Attempts ?u) = Some ?b"
    by (rule find_by_id(1)[OF gate_okD(1)[OF u] b]) (simp_all add: fenced_def claimed_row_def)
  have "case reservation_lookup a t of
       Inl e \<Rightarrow> ResolveAttempt errtext n newID (at_ID a) (at_Attempt a + 1) r ?u = (Inl e, ?u)
     | Inr _ \<Rightarrow> \<exists>v. ResolveAttempt errtext n newID (at_ID a) (at_Attempt a + 1) r ?u = (Inr True, v) \<and>
         gate_of v = Free \<and> live_steps c pc limits errtext s v"
  proof (cases "reservation_lookup a t")
    case (Inl e)
    then show ?thesis using found look by (simp add: ResolveAttempt_def)
  next
    case (Inr y)
    obtain v where v: "ResolveAttempt errtext n newID (at_ID a) (at_Attempt a + 1) r ?u = (Inr True, v)" "gate_of v = Free"
      by (rule resolve_frees[OF u b fb _ r]) (use look Inr in simp_all)
    have "resolution_state (ar_State r)" using r by (auto simp: closing_def resolution_state_def)
    then have "live_step c pc limits errtext ?u v" by (rule live_step.resolve[OF v(1)])
    then have "live_steps c pc limits errtext s v" using run step by (meson rtranclp.rtrancl_into_rtrancl)
    then show ?thesis using Inr v by simp
  qed
  then show ?thesis using cl entitled by auto
qed

definition demo_closing :: attempt_resolution where
  "demo_closing = \<lparr>ar_State = ''failed'', ar_BrokerOrderID = [], ar_LastError = [], ar_ProviderErrorCode = [], ar_CandidateBrokerOrderID = [],
      ar_OperatorSubject = [], ar_OperationStatus = ''failed'', ar_ReleaseReservation = True, ar_OrderUpdate = None, ar_OrderEvent = None\<rparr>"

theorem gate_released_witness:
  "\<exists>u v. claimAttempt demo_errtext 600 ''A'' ''w3'' ''claimed'' 1 1000000 True demo_db = (Inr (Some (claimed_row 600 ''w3'' 1000000 demo_attempt)), u) \<and>
    ResolveAttempt demo_errtext 700 (\<lambda>_. ''N'') ''A'' 2 demo_closing u = (Inr True, v) \<and> gate_of v = Free"
proof -
  have a: "demo_attempt \<in> set (db_Attempts demo_db)" by (simp add: demo_db_def)
  have f: "at_ID demo_attempt = ''A''" "at_State demo_attempt = ''claimed''" "at_Attempt demo_attempt = 1" by (simp_all add: demo_attempt_def)
  have "unknown_held demo_db" "reclaimable 600 demo_attempt" "closing demo_closing" "\<not> db_M3A demo_db"
    "reservation_lookup demo_attempt demo_db = Inr ()" by code_simp+
  then show ?thesis
    using gate_released[where s = demo_db and t = demo_db and a = demo_attempt and now = 600 and w = "''w3''" and lease = 1000000
      and r = demo_closing and c = demo_codec and pc = pc and limits = demo_limits and errtext = demo_errtext and n = 700 and newID = "\<lambda>_. ''N''",
      OF _ _ a] demo_ok
    by (auto simp: recovery_ok_def f day_duration_def reclaim_check_def validateM3AExecutionEntitlement_def)
qed

end
