(* ===== verification/Canary.thy ===== *)
theory Canary
  imports Breaker
begin

text \<open>
  \<^verbatim>\<open>kernel/internal/store/live_canary.go\<close> and \<^verbatim>\<open>kernel/cmd/kernel/canary.go\<close>: the canary of live trading. An
  authority bounds the risk that may be granted on a market day. Its revisions are immutable and audited; the last one
  is active. A first one and a tightening take effect at once, a widening needs the attestations of completed
  days or the override of the account's owner. Before a live open is granted the day's usage is compared with the cap.

  A market day is a number, as in \<^theory_text>\<open>Breaker\<close>. The selection of the attestations that allow a
  widening is the argument \<open>eligible\<close>; it gives their ids with their accounts.
\<close>

section \<open>The authority\<close>

definition ErrLiveCanaryAuthorityMissing :: go_error where
  "ErrLiveCanaryAuthorityMissing = Sentinel ''live canary authority is missing''"

definition ErrLiveCanaryAuthorityInvalid :: go_error where
  "ErrLiveCanaryAuthorityInvalid = Sentinel ''live canary authority is invalid''"

definition ErrLiveCanaryRevisionConflict :: go_error where
  "ErrLiveCanaryRevisionConflict = Sentinel ''live canary revision conflict''"

definition ErrLiveCanaryWideningUnsafe :: go_error where
  "ErrLiveCanaryWideningUnsafe = Sentinel ''live canary widening lacks completed-day attestation''"

definition ErrLiveCanaryDayEvidenceInvalid :: go_error where
  "ErrLiveCanaryDayEvidenceInvalid = Sentinel ''live canary completed-day evidence is invalid''"

record live_canary_revision =
  lc_ID :: int64
  lc_Generation :: int64
  lc_AuthorityVersion :: int64
  lc_DailyAuthorizedRiskCap :: micros
  lc_CleanDaysBeforeRaise :: int64
  lc_EffectiveMarketDay :: int
  lc_RecordedAt :: time
  lc_RecordedBy :: string
  lc_Reason :: string
  lc_ChangeClass :: string
  lc_RequiredAttestations :: int64
  lc_WideningAccountID :: string
  lc_AttestationIDs :: "int64 list"
  lc_ObservedAt :: time
  lc_auditEventPresent :: bool

record canary_input =
  ci_DailyAuthorizedRiskCap :: micros
  ci_CleanDaysBeforeRaise :: int64
  ci_ExpectedRevisionID :: int64
  ci_AccountID :: string
  ci_RecordedBy :: string
  ci_Reason :: string
  ci_OwnerOverride :: bool

definition canary_kind :: string where
  "canary_kind = ''live_canary_revision_recorded''"

text \<open>\<open>btrim\<close> of Postgres trims blanks; \<open>->>\<close> of a number is its digits.\<close>

definition btrim :: "string \<Rightarrow> string" where
  "btrim t = rev (dropWhile (\<lambda>c. c = CHR '' '') (rev (dropWhile (\<lambda>c. c = CHR '' '') t)))"

definition text_length :: "payload option \<Rightarrow> nat" where
  "text_length p = (case p of Some (PText t) \<Rightarrow> length (btrim t) | Some (PInt _) \<Rightarrow> 1 | _ \<Rightarrow> 0)"

definition audits :: "canary_revision_row \<Rightarrow> event \<Rightarrow> bool" where
  "audits r e \<longleftrightarrow>
     (let p = map_of (ev_Payload e)
      in ev_Kind e = canary_kind \<and> p ''revision_id'' = Some (PInt (cv_ID r)) \<and> p ''generation'' = Some (PInt (cv_ID r)) \<and>
         p ''change'' = Some (PText (cv_ChangeClass r)) \<and>
         (cv_AuthorityVersion r \<noteq> Some 3 \<or>
          p ''authority_version'' = Some (PInt 3) \<and> p ''owner_override'' = Some (PBool True) \<and>
          1 \<le> text_length (p ''account_id'') \<and> text_length (p ''account_id'') \<le> 200 \<and>
          0 < text_length (p ''previous_revision_id'') \<and>
          p ''recorded_by'' = Some (PText (cv_RecordedBy r)) \<and> p ''reason'' = Some (PText (cv_Reason r))))"

text \<open>The evidence of a widening, in order; all of one account.\<close>

fun collect_evidence :: "canary_evidence_row list \<Rightarrow> string \<times> int64 list \<Rightarrow> (string \<times> int64 list) result" where
  "collect_evidence [] (account, ids) = Inr (account, ids)"
| "collect_evidence (e # es) (account, ids) =
     (if account \<noteq> [] \<and> account \<noteq> ce_AccountID e then Inl ErrLiveCanaryAuthorityInvalid
      else collect_evidence es (ce_AccountID e, ids @ [ce_AttestationID e]))"

definition loadLiveCanaryRevisionEvidence :: "live_canary_revision \<Rightarrow> db \<Rightarrow> live_canary_revision result" where
  "loadLiveCanaryRevisionEvidence r s =
     (if lc_ChangeClass r \<noteq> ''widen'' then Inr (r\<lparr>lc_AttestationIDs := [], lc_WideningAccountID := []\<rparr>)
      else case collect_evidence (sort_key ce_Ordinal (filter (\<lambda>e. ce_RevisionID e = lc_ID r) (db_CanaryEvidence s))) ([], []) of
        Inl e \<Rightarrow> Inl e
      | Inr (account, ids) \<Rightarrow> Inr (r\<lparr>lc_AttestationIDs := ids, lc_WideningAccountID := account\<rparr>))"

definition revision_of_row :: "canary_revision_row \<Rightarrow> bool \<Rightarrow> live_canary_revision" where
  "revision_of_row r audit = \<lparr>lc_ID = cv_ID r, lc_Generation = cv_ID r,
     lc_AuthorityVersion = (case cv_AuthorityVersion r of None \<Rightarrow> 0 | Some v \<Rightarrow> v),
     lc_DailyAuthorizedRiskCap = cv_DailyAuthorizedRisk r, lc_CleanDaysBeforeRaise = cv_CleanDaysBeforeRaise r,
     lc_EffectiveMarketDay = cv_EffectiveMarketDay r, lc_RecordedAt = cv_RecordedAt r, lc_RecordedBy = cv_RecordedBy r,
     lc_Reason = cv_Reason r, lc_ChangeClass = cv_ChangeClass r, lc_RequiredAttestations = cv_RequiredAttestations r,
     lc_WideningAccountID = [], lc_AttestationIDs = [], lc_ObservedAt = 0, lc_auditEventPresent = audit\<rparr>"

definition latestLiveCanaryRevision :: "db \<Rightarrow> live_canary_revision result" where
  "latestLiveCanaryRevision s =
     (case rev (sort_key cv_ID (filter (\<lambda>r. cv_AuthorityVersion r \<noteq> None) (db_CanaryRevisions s))) of
        [] \<Rightarrow> Inl ErrNoRows
      | r # _ \<Rightarrow> loadLiveCanaryRevisionEvidence (revision_of_row r (list_ex (audits r) (db_Events s))) s)"

definition change_shape_ok :: "live_canary_revision \<Rightarrow> bool" where
  "change_shape_ok r \<longleftrightarrow>
     (let bare = lc_RequiredAttestations r = 0 \<and> lc_AttestationIDs r = [];
          narrow = lc_ChangeClass r = ''initial'' \<or> lc_ChangeClass r = ''tighten''
      in if lc_AuthorityVersion r = 1 then narrow \<and> bare
         else if narrow then bare
         else if lc_ChangeClass r = ''widen''
         then (if lc_AuthorityVersion r = 3 then bare
               else lc_RequiredAttestations r > 0 \<and> int (length (lc_AttestationIDs r)) = lc_RequiredAttestations r \<and>
                    trim_space (lc_WideningAccountID r) \<noteq> [])
         else False)"

definition canary_guards :: "live_canary_revision \<Rightarrow> int \<Rightarrow> (bool \<times> go_error) list" where
  "canary_guards r marketDay =
     [(lc_ID r \<le> 0 \<or> lc_Generation r \<noteq> lc_ID r \<or>
         (lc_AuthorityVersion r \<noteq> 1 \<and> lc_AuthorityVersion r \<noteq> 2 \<and> lc_AuthorityVersion r \<noteq> 3) \<or>
         lc_DailyAuthorizedRiskCap r \<le> 0 \<or> lc_CleanDaysBeforeRaise r \<le> 0 \<or> lc_EffectiveMarketDay r = 0 \<or>
         lc_RecordedAt r = 0 \<or> trim_space (lc_RecordedBy r) = [] \<or> trim_space (lc_Reason r) = [] \<or>
         \<not> lc_auditEventPresent r, ErrLiveCanaryAuthorityInvalid),
      (\<not> change_shape_ok r, ErrLiveCanaryAuthorityInvalid),
      (lc_ObservedAt r = 0 \<or> lc_RecordedAt r > lc_ObservedAt r \<or> lc_EffectiveMarketDay r > marketDay,
         Wrapf ErrLiveCanaryAuthorityInvalid ''%w: authority is future-dated'')]"

definition validateLiveCanaryAuthority :: "live_canary_revision \<Rightarrow> int \<Rightarrow> unit result" where
  "validateLiveCanaryAuthority r marketDay = guarded (canary_guards r marketDay) (Inr ())"

text \<open>The authority as the admission of a live open reads it, and as it is loaded at start.\<close>

definition observed_authority :: "time \<Rightarrow> int \<Rightarrow> db \<Rightarrow> live_canary_revision result" where
  "observed_authority now marketDay s =
     (case latestLiveCanaryRevision s of
        Inl e \<Rightarrow> Inl (if errors_is e ErrNoRows then ErrLiveCanaryAuthorityMissing else e)
      | Inr r \<Rightarrow>
         (let r = r\<lparr>lc_ObservedAt := now\<rparr>
          in case validateLiveCanaryAuthority r marketDay of Inl e \<Rightarrow> Inl e | Inr _ \<Rightarrow> Inr r))"

definition LiveCanaryAuthority :: "calendar \<Rightarrow> time \<Rightarrow> int \<Rightarrow> db \<Rightarrow> live_canary_revision result" where
  "LiveCanaryAuthority cal now marketDay s =
     (if marketDay = 0 then Inl (Wrapf ErrLiveCanaryAuthorityInvalid ''%w: market day is missing'')
      else case local_date cal now of
        Inl e \<Rightarrow> Inl e
      | Inr current \<Rightarrow>
          if marketDay \<noteq> current then Inl (Wrapf ErrLiveCanaryAuthorityInvalid ''%w: admission market day is stale'')
          else observed_authority now marketDay s)"

definition LoadLiveCanaryAuthority :: "calendar \<Rightarrow> time \<Rightarrow> db \<Rightarrow> live_canary_revision result" where
  "LoadLiveCanaryAuthority cal now s =
     (case latestLiveCanaryRevision s of
        Inl e \<Rightarrow> Inl (if errors_is e ErrNoRows then ErrLiveCanaryAuthorityMissing else e)
      | Inr _ \<Rightarrow>
         (case local_date cal now of Inl e \<Rightarrow> Inl e | Inr current \<Rightarrow> observed_authority now current s))"

section \<open>Recording a revision\<close>

definition classifyLiveCanaryChange :: "micros \<Rightarrow> int64 \<Rightarrow> micros \<Rightarrow> int64 \<Rightarrow> string" where
  "classifyLiveCanaryChange oldCap oldCleanDays newCap newCleanDays =
     (if oldCap = newCap \<and> oldCleanDays = newCleanDays then ''noop''
      else if newCap > oldCap \<or> newCleanDays < oldCleanDays then ''widen''
      else ''tighten'')"

definition liveCanaryRequiredAttestations :: "int64 \<Rightarrow> int64 \<Rightarrow> int64" where
  "liveCanaryRequiredAttestations oldDays newDays = (if newDays > oldDays then newDays else oldDays)"

definition normal_input :: "canary_input \<Rightarrow> canary_input" where
  "normal_input i = i\<lparr>ci_AccountID := trim_space (ci_AccountID i), ci_RecordedBy := trim_space (ci_RecordedBy i),
     ci_Reason := trim_space (ci_Reason i)\<rparr>"

definition input_invalid :: "canary_input \<Rightarrow> bool" where
  "input_invalid i \<longleftrightarrow> ci_DailyAuthorizedRiskCap i \<le> 0 \<or> ci_CleanDaysBeforeRaise i \<le> 0 \<or> ci_ExpectedRevisionID i < 0 \<or>
     length (ci_AccountID i) > 200 \<or> ci_RecordedBy i = [] \<or> length (ci_RecordedBy i) > 200 \<or> ci_Reason i = [] \<or>
     length (ci_Reason i) > 1000"

definition canary_previous :: "time \<Rightarrow> int \<Rightarrow> db \<Rightarrow> live_canary_revision option result" where
  "canary_previous observedAt marketDay s =
     (case latestLiveCanaryRevision s of
        Inl e \<Rightarrow> if errors_is e ErrNoRows then Inr None else Inl e
      | Inr r \<Rightarrow>
         (let r = r\<lparr>lc_ObservedAt := observedAt\<rparr>
          in case validateLiveCanaryAuthority r marketDay of Inl e \<Rightarrow> Inl e | Inr _ \<Rightarrow> Inr (Some r)))"

text \<open>The change of a revision and the attestations it rests on.\<close>

definition canary_change ::
  "(live_canary_revision \<Rightarrow> db \<Rightarrow> (int64 \<times> string) list result) \<Rightarrow> canary_input \<Rightarrow> live_canary_revision option \<Rightarrow> db \<Rightarrow>
     (string \<times> (int64 \<times> string) list \<times> int64) result" where
  "canary_change eligible i previous s =
     (case previous of
        None \<Rightarrow> Inr (''initial'', [], 0)
      | Some p \<Rightarrow>
         (let change = classifyLiveCanaryChange (lc_DailyAuthorizedRiskCap p) (lc_CleanDaysBeforeRaise p)
                (ci_DailyAuthorizedRiskCap i) (ci_CleanDaysBeforeRaise i)
          in if change \<noteq> ''widen'' then Inr (change, [], 0)
             else if ci_OwnerOverride i
             then (if ci_AccountID i = [] then Inl (Errorf ''owner override requires account id'' []) else Inr (change, [], 0))
             else (case eligible p s of
                Inl e \<Rightarrow> Inl (if errors_is e ErrLiveCanaryWideningUnsafe \<or> errors_is e ErrLiveCanaryDayEvidenceInvalid
                    then Wrapf ErrLiveCanaryWideningUnsafe ''%w: %v'' else e)
              | Inr evidence \<Rightarrow> Inr (change, evidence,
                    liveCanaryRequiredAttestations (lc_CleanDaysBeforeRaise p) (ci_CleanDaysBeforeRaise i)))))"

definition canary_row ::
  "int64 \<Rightarrow> time \<Rightarrow> int \<Rightarrow> canary_input \<Rightarrow> string \<Rightarrow> int64 \<Rightarrow> canary_revision_row" where
  "canary_row newID recordedAt marketDay i change required = \<lparr>cv_ID = newID,
     cv_DailyAuthorizedRisk = ci_DailyAuthorizedRiskCap i, cv_CleanDaysBeforeRaise = ci_CleanDaysBeforeRaise i,
     cv_EffectiveMarketDay = marketDay, cv_RecordedAt = recordedAt,
     cv_AuthorityVersion = Some (if ci_OwnerOverride i then 3 else 2), cv_RecordedBy = ci_RecordedBy i,
     cv_Reason = ci_Reason i, cv_ChangeClass = change, cv_RequiredAttestations = required\<rparr>"

definition evidence_rows :: "int64 \<Rightarrow> (int64 \<times> string) list \<Rightarrow> canary_evidence_row list" where
  "evidence_rows revisionID evidence =
     map (\<lambda>(n, attestation, account). \<lparr>ce_RevisionID = revisionID, ce_Ordinal = int n + 1, ce_AttestationID = attestation,
        ce_AccountID = account\<rparr>) (zip [0..<length evidence] evidence)"

definition canary_payload ::
  "canary_revision_row \<Rightarrow> canary_input \<Rightarrow> live_canary_revision option \<Rightarrow> (int64 \<Rightarrow> string) \<Rightarrow> (int64 \<times> string) list \<Rightarrow>
     (string \<times> payload) list" where
  "canary_payload r i previous digits evidence =
     [(''revision_id'', PInt (cv_ID r)), (''generation'', PInt (cv_ID r)),
      (''authority_version'', PInt (if ci_OwnerOverride i then 3 else 2)), (''change'', PText (cv_ChangeClass r)),
      (''daily_authorized_risk_cap'', PInt (ci_DailyAuthorizedRiskCap i)),
      (''clean_days_before_raise'', PInt (ci_CleanDaysBeforeRaise i)),
      (''effective_market_day'', PInt (cv_EffectiveMarketDay r)), (''recorded_by'', PText (ci_RecordedBy i)),
      (''reason'', PText (ci_Reason i)), (''required_attestations'', PInt (cv_RequiredAttestations r)),
      (''attestation_ids'', PList (map (\<lambda>(a, _). digits a) evidence))] @
     (if cv_ChangeClass r = ''widen''
      then [(''account_id'', PText (ci_AccountID i)), (''owner_override'', PBool (ci_OwnerOverride i))] else []) @
     (case previous of None \<Rightarrow> []
      | Some p \<Rightarrow> [(''previous_revision_id'', PInt (lc_ID p)),
          (''previous_daily_authorized_risk_cap'', PInt (lc_DailyAuthorizedRiskCap p)),
          (''previous_clean_days_before_raise'', PInt (lc_CleanDaysBeforeRaise p))])"

definition recorded_revision :: "canary_revision_row \<Rightarrow> canary_input \<Rightarrow> (int64 \<times> string) list \<Rightarrow> live_canary_revision" where
  "recorded_revision r i evidence = (revision_of_row r True)\<lparr>
     lc_WideningAccountID := (if cv_ChangeClass r = ''widen'' then ci_AccountID i else []),
     lc_AttestationIDs := map fst evidence, lc_ObservedAt := cv_RecordedAt r\<rparr>"

definition write_canary ::
  "(int64 \<Rightarrow> string) \<Rightarrow> canary_revision_row \<Rightarrow> canary_input \<Rightarrow> live_canary_revision option \<Rightarrow> (int64 \<times> string) list \<Rightarrow> db \<Rightarrow> db" where
  "write_canary digits r i previous evidence s =
     insert_event canary_kind (canary_payload r i previous digits evidence)
       (s\<lparr>db_CanaryRevisions := db_CanaryRevisions s @ [r],
          db_CanaryEvidence := db_CanaryEvidence s @ evidence_rows (cv_ID r) evidence\<rparr>)"

text \<open>\<open>observedAt\<close> and \<open>recordedAt\<close> are the database's clock, \<open>newID\<close> the next value of the id sequence,
  \<open>digits\<close> prints a number in the event's payload.\<close>

definition RecordLiveCanaryRevision ::
  "calendar \<Rightarrow> (live_canary_revision \<Rightarrow> db \<Rightarrow> (int64 \<times> string) list result) \<Rightarrow> (int64 \<Rightarrow> string) \<Rightarrow> time \<Rightarrow> time \<Rightarrow> int64 \<Rightarrow>
     canary_input \<Rightarrow> db \<Rightarrow> (live_canary_revision \<times> db) result" where
  "RecordLiveCanaryRevision cal eligible digits observedAt recordedAt newID input s =
     (let i = normal_input input
      in if input_invalid i then Inl (Errorf ''invalid live canary revision'' [])
         else case local_date cal observedAt of
           Inl e \<Rightarrow> Inl e
         | Inr marketDay \<Rightarrow>
            (case canary_previous observedAt marketDay s of
               Inl e \<Rightarrow> Inl e
             | Inr previous \<Rightarrow>
                 if (case previous of None \<Rightarrow> False
                     | Some p \<Rightarrow> lc_DailyAuthorizedRiskCap p = ci_DailyAuthorizedRiskCap i \<and>
                         lc_CleanDaysBeforeRaise p = ci_CleanDaysBeforeRaise i)
                 then Inr (the previous, s)
                 else if ci_ExpectedRevisionID i \<noteq> (case previous of None \<Rightarrow> 0 | Some p \<Rightarrow> lc_ID p)
                 then Inl (Wrapf ErrLiveCanaryRevisionConflict ''%w: expected %d, active %d'')
                 else (case canary_change eligible i previous s of
                    Inl e \<Rightarrow> Inl e
                  | Inr (change, evidence, required) \<Rightarrow>
                      if ci_OwnerOverride i \<and> change \<noteq> ''widen''
                      then Inl (Errorf ''owner override is only valid for widening'' [])
                      else (let r = canary_row newID recordedAt marketDay i change required
                            in Inr (recorded_revision r i evidence, write_canary digits r i previous evidence s)))))"


section \<open>The admission of a live open\<close>

record trade_grant_usage =
  tu_AuthorizedRisk :: micros
  tu_HasLegacyUnknown :: bool
  tu_HasUnboundCanary :: bool
  tu_GrantCount :: int64

definition day_grants :: "string \<Rightarrow> int \<Rightarrow> string \<Rightarrow> db \<Rightarrow> trade_grant list" where
  "day_grants ledger marketDay excludeOperationID s =
     filter (\<lambda>g. tg_Ledger g = ledger \<and> tg_MarketDay g = marketDay \<and>
        (excludeOperationID = [] \<or> tg_OperationID g \<noteq> excludeOperationID)) (db_Grants s)"

definition authorized_risk :: "trade_grant list \<Rightarrow> int" where
  "authorized_risk grants = total tg_AuthorizedRisk (filter (\<lambda>g. tg_RiskSource g = ''computed'') grants)"

text \<open>The sum is a \<open>numeric\<close>; scanning it fails when it is no \<open>int64\<close>.\<close>

definition TradeGrantUsage :: "string \<Rightarrow> int \<Rightarrow> string \<Rightarrow> db \<Rightarrow> trade_grant_usage result" where
  "TradeGrantUsage ledger marketDay excludeOperationID s =
     (let grants = day_grants ledger marketDay excludeOperationID s
      in if \<not> in_int64 (authorized_risk grants)
         then Inl (Errorf ''sql: Scan error on column index 0, name coalesce: value out of range'' [])
         else Inr \<lparr>tu_AuthorizedRisk = authorized_risk grants,
           tu_HasLegacyUnknown = list_ex (\<lambda>g. tg_RiskSource g = ''legacy_unknown'') grants,
           tu_HasUnboundCanary = list_ex (\<lambda>g. tg_LiveCanaryRevisionID g = 0) grants,
           tu_GrantCount = int (length grants)\<rparr>)"

definition canary_reason :: "trade_grant_usage \<Rightarrow> micros \<Rightarrow> micros \<Rightarrow> qty \<Rightarrow> qty \<Rightarrow> string" where
  "canary_reason usage cap proposedRisk quantity quantityIncrement =
     (if tu_HasLegacyUnknown usage then ''live_canary_legacy_unknown''
      else if tu_HasUnboundCanary usage then ''live_canary_unbound_grant''
      else if tu_GrantCount usage = 0 \<and> (quantityIncrement \<le> 0 \<or> quantity \<noteq> quantityIncrement)
      then ''live_canary_first_position_not_minimum_size''
      else if proposedRisk \<le> 0 \<or> proposedRisk > cap \<or> tu_AuthorizedRisk usage > wrap64 (cap - proposedRisk)
      then ''live_canary_daily_risk_cap''
      else [])"

definition no_usage :: trade_grant_usage where
  "no_usage = \<lparr>tu_AuthorizedRisk = 0, tu_HasLegacyUnknown = False, tu_HasUnboundCanary = False, tu_GrantCount = 0\<rparr>"

definition liveCanaryRefusal ::
  "bool \<Rightarrow> calendar \<Rightarrow> time \<Rightarrow> string \<Rightarrow> int \<Rightarrow> micros \<Rightarrow> qty \<Rightarrow> qty \<Rightarrow> db \<Rightarrow>
     (string \<times> trade_grant_usage \<times> live_canary_revision option) result" where
  "liveCanaryRefusal live cal now operationID marketDay proposedRisk quantity quantityIncrement s =
     (if \<not> live then Inr ([], no_usage, None)
      else case LiveCanaryAuthority cal now marketDay s of
        Inl e \<Rightarrow> Inl e
      | Inr authority \<Rightarrow>
          if lc_DailyAuthorizedRiskCap authority \<le> 0 then Inl ErrLiveCanaryAuthorityInvalid
          else (case TradeGrantUsage ''live'' marketDay operationID s of
            Inl e \<Rightarrow> Inl e
          | Inr usage \<Rightarrow> Inr (canary_reason usage (lc_DailyAuthorizedRiskCap authority) proposedRisk quantity quantityIncrement,
              usage, Some authority)))"

definition insertCanaryRefusalEvent ::
  "string \<Rightarrow> string \<Rightarrow> int \<Rightarrow> micros \<Rightarrow> qty \<Rightarrow> qty \<Rightarrow> trade_grant_usage \<Rightarrow> live_canary_revision option \<Rightarrow> db \<Rightarrow> db result" where
  "insertCanaryRefusalEvent operationID reason marketDay proposedRisk quantity quantityIncrement usage authority s =
     (case authority of
        None \<Rightarrow> Inl (Wrapf ErrLiveCanaryAuthorityInvalid ''%w: refusal has no bound revision'')
      | Some r \<Rightarrow> Inr (insert_event ''live_canary_refused''
          [(''operation_id'', PText operationID), (''reason'', PText reason), (''market_day'', PInt marketDay),
           (''used_risk'', PInt (tu_AuthorizedRisk usage)), (''proposed_risk'', PInt proposedRisk),
           (''risk_cap'', PInt (lc_DailyAuthorizedRiskCap r)), (''grant_count'', PInt (tu_GrantCount usage)),
           (''quantity'', PInt quantity), (''qty_increment'', PInt quantityIncrement),
           (''revision_id'', PInt (lc_ID r)), (''generation'', PInt (lc_Generation r))] s))"

definition liveCanaryEventBinding :: "live_canary_revision option \<Rightarrow> (string \<times> payload) list" where
  "liveCanaryEventBinding authority = (case authority of None \<Rightarrow> []
     | Some r \<Rightarrow> [(''live_canary.revision_id'', PInt (lc_ID r)), (''live_canary.generation'', PInt (lc_Generation r)),
         (''live_canary.risk_cap'', PInt (lc_DailyAuthorizedRiskCap r))])"

end
