(* ===== verification/Admission_Store.thy ===== *)
theory Admission_Store
  imports Canary Repricing Placement
begin

text \<open>
  What the admission of an operation reads and writes inside its transaction (\<open>OperationGate\<close>): the rows of
  \<^verbatim>\<open>store.go\<close>, \<^verbatim>\<open>entitlements.go\<close>, \<^verbatim>\<open>exposure.go\<close> and \<^verbatim>\<open>external_control.go\<close>, with the primary keys and checks of
  the schema, and the gate that live work must find idle.
\<close>

section \<open>Reads\<close>

text \<open>What is held for closing. The sum is a \<open>numeric\<close>; scanning it fails when it is no \<open>int64\<close>.\<close>

definition scan_sum :: "int \<Rightarrow> int64 result" where
  "scan_sum n = (if in_int64 n then Inr n
     else Inl (Errorf ''sql: Scan error on column index 0, name coalesce: value out of range'' []))"

definition HeldCloseQuantityExcluding :: "db \<Rightarrow> string \<Rightarrow> string \<Rightarrow> string \<Rightarrow> qty result" where
  "HeldCloseQuantityExcluding s ledger symbol operationID =
     scan_sum (total cr_RemainingQty (filter (\<lambda>r. cr_Ledger r = ledger \<and> cr_Symbol r = symbol \<and> cr_State r = ''held'' \<and>
        (operationID = [] \<or> cr_OperationID r \<noteq> operationID)) (db_CloseReservations s)))"

definition held_closes :: "db \<Rightarrow> string \<Rightarrow> string \<Rightarrow> int" where
  "held_closes s ledger symbol =
     total cr_RemainingQty (filter (\<lambda>r. cr_Ledger r = ledger \<and> cr_Symbol r = symbol \<and> cr_State r = ''held'')
        (db_CloseReservations s))"

definition HeldCloseQuantity :: "db \<Rightarrow> string \<Rightarrow> string \<Rightarrow> qty result" where
  "HeldCloseQuantity s ledger symbol = scan_sum (held_closes s ledger symbol)"

lemma HeldCloseQuantity_Inr [simp]: "HeldCloseQuantity s l y = Inr h \<longleftrightarrow> h = held_closes s l y \<and> in_int64 (held_closes s l y)"
  by (auto simp: HeldCloseQuantity_def scan_sum_def)

definition FirstOpenExposureOperation :: "db \<Rightarrow> string \<Rightarrow> string \<Rightarrow> string \<Rightarrow> string" where
  "FirstOpenExposureOperation s ledger symbol kind =
     (case sort_key (\<lambda>l. (xl_OpenedAt l, xl_OpenFillID l))
         (filter (\<lambda>l. xl_Ledger l = ledger \<and> xl_Symbol l = symbol \<and> xl_Kind l = kind \<and> xl_ClosedQty l < xl_OpenedQty l)
            (db_Lots s)) of
        [] \<Rightarrow> [] | l # _ \<Rightarrow> xl_OperationID l)"

definition ShadowPositions :: "db \<Rightarrow> shadow_position list" where
  "ShadowPositions s = sort_key sp_Symbol (db_ShadowPositions s)"

text \<open>The trades of a day. \<open>startDate\<close> is the date Postgres reads from the first instant of the market day, which is passed in
  UTC; paper trades count since the ledger was activated.\<close>

definition countTradesForDay :: "bool \<Rightarrow> int \<Rightarrow> string \<Rightarrow> db \<Rightarrow> int64" where
  "countTradesForDay shadow startDate operationID s =
     int (length (filter (\<lambda>g. tg_Ledger g = ledgerName shadow \<and> tg_MarketDay g = startDate \<and>
        (\<not> shadow \<or> \<not> db_M3A s \<or> tg_GrantedAt g \<ge> db_M3AActivatedAt s) \<and>
        (operationID = [] \<or> tg_OperationID g \<noteq> operationID)) (db_Grants s)))"

definition ErrLiveExecutionBusy :: go_error where
  "ErrLiveExecutionBusy = Sentinel ''live execution busy''"

definition ErrLiveExecutionSuspended :: go_error where
  "ErrLiveExecutionSuspended = Sentinel ''live execution suspended''"

definition RequireLiveExecutionIdle :: "bool \<Rightarrow> db \<Rightarrow> unit result" where
  "RequireLiveExecutionIdle blockWhenHalted s =
     (if db_GateUnknown s \<noteq> None then Inl ErrLiveExecutionSuspended
      else if db_GateActive s \<noteq> None then Inl ErrLiveExecutionBusy
      else if blockWhenHalted \<and> halted s then Inl ErrLiveSendHalted
      else Inr ())"

record idempotency_identity =
  id_Subject :: string
  id_Key :: string
  id_RequestHash :: string

definition FindOperationByIdempotency :: "idempotency_identity \<Rightarrow> db \<Rightarrow> proposal_row option" where
  "FindOperationByIdempotency identity s =
     find (\<lambda>p. pp_AuthenticatedSubject p = Some (id_Subject identity) \<and> pp_IdempotencyKey p = Some (id_Key identity))
       (db_Proposals s)"


section \<open>Writes\<close>

definition duplicate_key :: go_error where
  "duplicate_key = Errorf ''duplicate key value violates unique constraint'' []"

definition check_violation :: go_error where
  "check_violation = Errorf ''new row violates check constraint'' []"

text \<open>An operation row of an operation as the handler derived it; the policy digest as it is read back.\<close>

record policy_binding =
  pb_RevisionID :: int64
  pb_Generation :: int64
  pb_Digest :: string
  pb_ExpiresAt :: time

definition second :: int where
  "second = 1000000000"

definition operation_row_of :: "time \<Rightarrow> string \<Rightarrow> string \<Rightarrow> string \<Rightarrow> operation \<Rightarrow> policy_binding \<Rightarrow> operation_row" where
  "operation_row_of now i class status op b = \<lparr>ow_ID = i, ow_Status = status, ow_Action = op_Action op,
     ow_Side = op_Side op, ow_Symbol = operationSymbol op, ow_Limit = op_Limit op,
     ow_ApprovedPriceCap = op_ApprovedPriceCap op, ow_Class = class, ow_ExpiresAt = Some (pb_ExpiresAt b),
     ow_KernelPolicyRevisionID = Some (pb_RevisionID b), ow_KernelPolicyGeneration = Some (pb_Generation b),
     ow_KernelPolicyDigest = Some (pb_Digest b), ow_TS = now, ow_Shadow = op_Shadow op\<rparr>"

definition proposal_row_of :: "string \<Rightarrow> operation \<Rightarrow> string \<Rightarrow> string \<Rightarrow> idempotency_identity option \<Rightarrow> proposal_row" where
  "proposal_row_of i op payload verdict identity = \<lparr>pp_ID = i, pp_Proposer = op_Proposer op, pp_Payload = payload,
     pp_Verdict = verdict, pp_AuthenticatedSubject = map_option id_Subject identity,
     pp_IdempotencyKey = map_option id_Key identity,
     pp_RequestHash = (case identity of None \<Rightarrow> [] | Some x \<Rightarrow> id_RequestHash x)\<rparr>"

text \<open>\<open>now\<close> is the clock of the row, \<open>payload\<close> and \<open>verdict\<close> the two values as JSON.\<close>

definition InsertOperationBound ::
  "policy_codec \<Rightarrow> time \<Rightarrow> string \<Rightarrow> string \<Rightarrow> string \<Rightarrow> operation \<Rightarrow> string \<Rightarrow> string \<Rightarrow> idempotency_identity option \<Rightarrow>
     kernel_policy_revision \<Rightarrow> db \<Rightarrow> (policy_binding \<times> db) result" where
  "InsertOperationBound pc now i class status op payload verdict identity authority s =
     (if kp_ID authority \<le> 0 \<or> kp_Generation authority \<le> 0 \<or> ProposalTTLSec (kp_Policy authority) \<le> 0
      then Inl ErrKernelPolicyAuthorityInvalid
      else case Canonical (pc_marshal pc) (pc_document pc) (pc_sha256 pc) (kp_Policy authority) of
        Inl _ \<Rightarrow> Inl ErrKernelPolicyAuthorityInvalid
      | Inr (_, _, digest) \<Rightarrow>
          (let text = hex_encode digest
           in if kp_Digest authority \<noteq> [] \<and> kp_Digest authority \<noteq> text then Inl ErrKernelPolicyAuthorityInvalid
              else if i \<in> ow_ID ` set (db_Operations s) \<or>
                (case identity of None \<Rightarrow> False | Some x \<Rightarrow> FindOperationByIdempotency x s \<noteq> None) then Inl duplicate_key
              else (let b = \<lparr>pb_RevisionID = kp_ID authority, pb_Generation = kp_Generation authority, pb_Digest = text,
                       pb_ExpiresAt = now + ProposalTTLSec (kp_Policy authority) * second\<rparr>
                    in Inr (b, s\<lparr>db_Operations := db_Operations s @ [operation_row_of now i class status op b],
                         db_Proposals := db_Proposals s @ [proposal_row_of i op payload verdict identity]\<rparr>))))"

definition SetOperationStatus :: "string \<Rightarrow> string \<Rightarrow> string \<Rightarrow> db \<Rightarrow> db" where
  "SetOperationStatus i status verdict s =
     (set_operation_status i status s)\<lparr>db_Proposals :=
        update_rows (\<lambda>p. pp_ID p = i) (\<lambda>p. p\<lparr>pp_Verdict := verdict\<rparr>) (db_Proposals s)\<rparr>"

text \<open>The columns that bind a row to the policy of its operation.\<close>

definition bound_revision :: "operation_row \<Rightarrow> int64" where
  "bound_revision w = opt_or_zero (ow_KernelPolicyRevisionID w)"

definition bound_generation :: "operation_row \<Rightarrow> int64" where
  "bound_generation w = opt_or_zero (ow_KernelPolicyGeneration w)"

definition bound_digest :: "operation_row \<Rightarrow> string" where
  "bound_digest w = null_string (ow_KernelPolicyDigest w)"

definition InsertTradeGrant :: "time \<Rightarrow> trade_grant \<Rightarrow> db \<Rightarrow> db result" where
  "InsertTradeGrant now g s =
     (case find (\<lambda>w. ow_ID w = tg_OperationID g) (db_Operations s) of
        None \<Rightarrow> Inl ErrInvalidOperationReference
      | Some w \<Rightarrow>
          if tg_OperationID g \<in> tg_OperationID ` set (db_Grants s) then Inl duplicate_key
          else if tg_RiskSource g = ''computed'' \<and> tg_AuthorizedRisk g \<le> 0 then Inl check_violation
          else Inr (s\<lparr>db_Grants := db_Grants s @ [g\<lparr>
             tg_AuthorizedRisk := (if tg_RiskSource g = ''computed'' then tg_AuthorizedRisk g else 0),
             tg_LiveCanaryRevisionID := (if tg_LiveCanaryRevisionID g > 0 then tg_LiveCanaryRevisionID g else 0),
             tg_KernelPolicyRevisionID := bound_revision w, tg_KernelPolicyGeneration := bound_generation w,
             tg_KernelPolicyDigest := bound_digest w, tg_GrantedAt := now\<rparr>]\<rparr>))"

definition InsertOpenReservation :: "time \<Rightarrow> open_reservation \<Rightarrow> db \<Rightarrow> db result" where
  "InsertOpenReservation now r s =
     (case find (\<lambda>w. ow_ID w = rs_OperationID r) (db_Operations s) of
        None \<Rightarrow> Inl ErrInvalidOperationReference
      | Some w \<Rightarrow>
          if rs_ID r \<in> rs_ID ` set (db_OpenReservations s) \<or> rs_OperationID r \<in> rs_OperationID ` set (db_OpenReservations s)
          then Inl duplicate_key
          else if rs_OriginalQty r \<le> 0 \<or> rs_RemainingQty r \<le> 0 \<or> rs_RemainingQty r > rs_OriginalQty r \<or>
            rs_OriginalRisk r < 0 \<or> rs_RemainingRisk r < 0 \<or> rs_RemainingRisk r > rs_OriginalRisk r \<or>
            rs_OriginalCash r < 0 \<or> rs_RemainingCash r < 0 \<or> rs_RemainingCash r > rs_OriginalCash r \<or>
            btrim (rs_Symbol r) = [] \<or> btrim (rs_Kind r) = []
          then Inl check_violation
          else Inr (s\<lparr>db_OpenReservations := db_OpenReservations s @ [r\<lparr>rs_CreatedAt := now, rs_SettledAt := None,
             rs_KernelPolicyRevisionID := bound_revision w, rs_KernelPolicyGeneration := bound_generation w,
             rs_KernelPolicyDigest := bound_digest w\<rparr>]\<rparr>))"

definition InsertCloseReservation :: "time \<Rightarrow> close_reservation \<Rightarrow> db \<Rightarrow> db result" where
  "InsertCloseReservation now r s =
     (case find (\<lambda>w. ow_ID w = cr_OperationID r) (db_Operations s) of
        None \<Rightarrow> Inl ErrInvalidOperationReference
      | Some w \<Rightarrow>
          if cr_ID r \<in> cr_ID ` set (db_CloseReservations s) \<or> cr_OperationID r \<in> cr_OperationID ` set (db_CloseReservations s)
          then Inl duplicate_key
          else if cr_OriginalQty r \<le> 0 \<or> cr_RemainingQty r < 0 \<or> cr_RemainingQty r > cr_OriginalQty r
          then Inl check_violation
          else Inr (s\<lparr>db_CloseReservations := db_CloseReservations s @ [r\<lparr>cr_CreatedAt := now, cr_ReleasedAt := None,
             cr_KernelPolicyRevisionID := bound_revision w, cr_KernelPolicyGeneration := bound_generation w,
             cr_KernelPolicyDigest := bound_digest w\<rparr>]\<rparr>))"

definition episode_guards :: "control_episode \<Rightarrow> (bool \<times> go_error) list" where
  "episode_guards e =
     [(ep_ID e = [] \<or> ep_OperationID e = [] \<or> ep_BrokerObservationID e = [] \<or> ep_ObservationGeneration e \<le> 0 \<or>
         ep_ObjectKey e = [], Errorf ''external control episode identity is incomplete'' []),
      (ep_Origin e \<noteq> ''external'' \<and> ep_Origin e \<noteq> ''ambiguous'' \<and> ep_Origin e \<noteq> ''mixed'',
         Errorf ''external control episode origin is invalid'' []),
      (ep_ControlAction e = ''cancel_order'' \<and> (ep_RequestedQty e \<noteq> 0 \<or> ep_TrackedQty e \<noteq> 0 \<or> ep_ExternalQty e \<noteq> 0),
         Errorf ''cancel control episode has position quantity'' []),
      (ep_ControlAction e = ''close_position'' \<and>
         (\<not> is_ok (AddQty (ep_TrackedQty e) (ep_ExternalQty e)) \<or> ep_RequestedQty e \<le> 0 \<or> ep_TrackedQty e < 0 \<or>
          ep_ExternalQty e < 0 \<or> AddQty (ep_TrackedQty e) (ep_ExternalQty e) \<noteq> Inr (ep_RequestedQty e)),
         Errorf ''close control episode quantity split is invalid'' []),
      (ep_ControlAction e \<noteq> ''cancel_order'' \<and> ep_ControlAction e \<noteq> ''close_position'',
         Errorf ''external control episode action is invalid'' [])]"

definition InsertExternalControlEpisode :: "control_episode \<Rightarrow> db \<Rightarrow> db result" where
  "InsertExternalControlEpisode e s = guarded (episode_guards e)
     (if ep_ID e \<in> ep_ID ` set (db_Episodes s) \<or> ep_OperationID e \<in> ep_OperationID ` set (db_Episodes s)
      then Inl duplicate_key
      else if find (\<lambda>o'. bo_ID o' = ep_BrokerObservationID e) (db_Observations s) = None \<or> btrim (ep_ObjectKey e) = []
      then Inl check_violation
      else Inr (s\<lparr>db_Episodes := db_Episodes s @ [e]\<rparr>))"

end
