(* ===== verification/Decisions.thy ===== *)
theory Decisions
  imports Live_Barrier Reconciliation
begin

text \<open>
  The snapshot a close or a cancel is decided on (\<^verbatim>\<open>kernel/cmd/kernel/broker_observations.go\<close>,
  \<open>captureReconciledProviderDecision\<close>): the account is read afresh, and the ledger is reconciled with it before the
  decision is made.
\<close>

definition captureReconciledProviderDecision ::
  "barrier_env \<Rightarrow> (string \<Rightarrow> string) \<Rightarrow> bool \<Rightarrow> int64 \<Rightarrow> time \<Rightarrow> db \<Rightarrow> provider_snapshot outcome" where
  "captureReconciledProviderDecision x newID locked localGeneration now s =
     (case assertLiveAccountBinding x [] s of
        (Inl e, s) \<Rightarrow> (Inl e, s)
      | (Inr _, s) \<Rightarrow>
         (case captureProviderSnapshotFrom (be_Observations x) (be_Bound x) (be_LocalGeneration x) (be_Generation x)
             (be_ObservationID x) ''decision'' (be_Provider x) (be_Other x 0 s) of
            (Inl e, s) \<Rightarrow> (Inl e, s)
          | (Inr sn, s) \<Rightarrow>
             (case ReconcileBrokerObservation (be_Observations x) newID locked localGeneration now
                 (case sn_Observation sn of None \<Rightarrow> [] | Some b \<Rightarrow> ob_ID b) (be_Other x 1 s) of
                Inl e \<Rightarrow> (Inl (Wrapf e ''reconcile broker observation: %w''), be_Other x 1 s)
              | Inr (_, s) \<Rightarrow> (Inr sn, s))))"

end
