(* ===== verification/Admission.thy ===== *)
theory Admission
  imports Admission_Store Decisions
begin

text \<open>
  The admission of an operation: the transaction of \<open>propose\<close> in \<^verbatim>\<open>kernel/cmd/kernel/main.go\<close>. Under the locks of the
  policy, the ledger and the symbol it derives the operation, judges it, and writes the operation with everything an
  execution will need: a grant, a reservation, an attempt and an order. An error rolls all of it back. What the handler does
  before the transaction is in \<open>Requests\<close>.

  What is read outside the database is the argument \<open>x\<close>: the clocks, fresh ids, the account and its positions, quotes, and
  the realised result. \<open>ax_Clock n\<close> and \<open>ax_DatabaseClock n\<close> are what the n-th place of the code that reads the clock
  gets, and \<open>ax_JSON\<close> prints values.
\<close>

section \<open>The environment of a request\<close>

datatype json_value = JOperation operation | JVerdict verdict | JBinding policy_binding
  | JReview "(string \<times> payload) list" | JQuote "quote option"

record admission_env =
  ax_Mode :: string
  ax_Clock :: "nat \<Rightarrow> time"
  ax_DatabaseClock :: "nat \<Rightarrow> time"
  ax_NewID :: "nat \<Rightarrow> string"
  ax_Calendar :: calendar
  ax_UTCDate :: "time \<Rightarrow> int"
  ax_Policies :: policy_codec
  ax_Limits :: "string \<Rightarrow> int64 \<times> int64 \<times> int64"
  ax_JSON :: "json_value \<Rightarrow> string"
  ax_Halted :: bool
  ax_HaltReason :: string
  ax_Account :: "account_state result"
  ax_Positions :: "position list result"
  ax_Quotes :: "string \<Rightarrow> quote option"
  ax_RealizedPnL :: "(micros \<times> time) result option"
  ax_Execution :: "(string \<Rightarrow> bool) option"
  ax_Instruments :: "string \<Rightarrow> instrument option"

definition live_mode :: "admission_env \<Rightarrow> bool" where
  "live_mode x \<longleftrightarrow> ax_Mode x = ''live''"

definition errInsufficientClosableQuantity :: go_error where
  "errInsufficientClosableQuantity = Sentinel ''insufficient closable quantity''"

definition errBrokerDataUnavailable :: go_error where
  "errBrokerDataUnavailable = Sentinel ''broker data unavailable''"

definition errInvalidClose :: go_error where
  "errInvalidClose = Sentinel ''invalid close''"

definition errMarketDayAdvanced :: go_error where
  "errMarketDayAdvanced = Sentinel ''market day advanced during locked decision''"

definition errIdempotencyKeyReused :: go_error where
  "errIdempotencyKeyReused = Sentinel ''idempotency key reused with a different request''"

abbreviation invalid_close :: "string \<Rightarrow> go_error" where
  "invalid_close m \<equiv> Wrapf errInvalidClose m"


section \<open>The market day\<close>

record market_window =
  mw_day :: int
  mw_start :: time
  mw_end :: time
  mw_asOf :: time

definition marketDayWindow :: "time \<Rightarrow> calendar \<Rightarrow> market_window result" where
  "marketDayWindow now cal =
     (case local_date cal now of
        Inl e \<Rightarrow> Inl (Wrapf e ''market timezone %q: %w'')
      | Inr day \<Rightarrow>
         (case marketDayBounds cal day of
            Inl e \<Rightarrow> Inl (Wrapf e ''market timezone %q: %w'')
          | Inr (start, end') \<Rightarrow> Inr \<lparr>mw_day = day, mw_start = start, mw_end = end', mw_asOf = now\<rparr>))"

definition databaseMarketWindow :: "admission_env \<Rightarrow> nat \<Rightarrow> market_window result" where
  "databaseMarketWindow x n = marketDayWindow (ax_DatabaseClock x n) (ax_Calendar x)"

definition ensureMarketDay :: "admission_env \<Rightarrow> nat \<Rightarrow> market_window \<Rightarrow> unit result" where
  "ensureMarketDay x n expected =
     (case databaseMarketWindow x n of
        Inl e \<Rightarrow> Inl e
      | Inr current \<Rightarrow> if mw_day current \<noteq> mw_day expected then Inl errMarketDayAdvanced else Inr ())"

section \<open>The state of the day\<close>

definition shadow_mark :: "admission_env \<Rightarrow> policy \<Rightarrow> shadow_position \<Rightarrow> micros \<Rightarrow> micros result" where
  "shadow_mark x limits p equity =
     (let q = ax_Quotes x (sp_Symbol p)
      in if \<not> quote_usable q limits (ax_Clock x 0)
         then Inl (Errorf ''shadow mark unavailable for %s'' [sp_Symbol p])
         else case MulQtyPrice (sp_Qty p) (q_Bid (the q)) (sp_Multiplier p) False of
           Inl e \<Rightarrow> Inl e
         | Inr v \<Rightarrow> Add equity v)"

definition shadowAccountSnapshotWithLimits :: "admission_env \<Rightarrow> policy \<Rightarrow> db \<Rightarrow> account_state result" where
  "shadowAccountSnapshotWithLimits x limits s =
     (case fold_res (shadow_mark x limits) (ShadowPositions s) (sa_Cash (db_ShadowAccount s)) of
        Inl e \<Rightarrow> Inl e
      | Inr equity \<Rightarrow> Inr (no_account\<lparr>a_AccountType := ''paper'', a_BuyingPower := sa_BuyingPower (db_ShadowAccount s),
          a_Equity := equity, a_EquityKnown := True, a_Cash := sa_Cash (db_ShadowAccount s), a_CashKnown := True,
          a_Source := ''shadow'', a_AsOf := ax_Clock x 1\<rparr>))"

definition providerRealizedPnL :: "admission_env \<Rightarrow> bool \<Rightarrow> micros option result" where
  "providerRealizedPnL x shadow =
     (if shadow then Inr None
      else case ax_RealizedPnL x of
        None \<Rightarrow> Inr None
      | Some (Inl _) \<Rightarrow> Inl (Wrapf errBrokerDataUnavailable ''%w: realized PnL'')
      | Some (Inr (total_pnl, asOf)) \<Rightarrow>
          if asOf = 0 then Inl (Wrapf errBrokerDataUnavailable ''%w: realized PnL'') else Inr (Some total_pnl))"

definition InsertDayOpen :: "int \<Rightarrow> string \<Rightarrow> micros \<Rightarrow> breaker_db \<Rightarrow> breaker_db" where
  "InsertDayOpen marketDay ledger equity b =
     (if list_ex (\<lambda>r. do_MarketDay r = marketDay \<and> do_Ledger r = ledger) (bk_DayOpen b) then b
      else b\<lparr>bk_DayOpen := bk_DayOpen b @ [\<lparr>do_MarketDay = marketDay, do_Ledger = ledger, do_Equity = equity\<rparr>]\<rparr>)"

definition day_input :: "market_window \<Rightarrow> string \<Rightarrow> micros option \<Rightarrow> policy \<Rightarrow> day_risk_input" where
  "day_input window ledger providerPnL limits = \<lparr>di_Ledger = ledger, di_MarketDay = mw_day window, di_Start = mw_start window,
     di_End = mw_end window, di_ObservedAt = mw_asOf window, di_ProviderRealizedPnL = providerPnL,
     di_MaxDailyLossPct = MaxDailyLossPct (HardLimits limits),
     di_ConsecutiveLossDaysHalt = ConsecutiveLossDaysHalt (HardLimits limits),
     di_PnLReconciliationLimit = PnLReconciliationTolerance limits\<rparr>"

definition day_state_of ::
  "int64 \<Rightarrow> ledger_resources \<Rightarrow> micros \<Rightarrow> account_state \<Rightarrow> bool \<Rightarrow> string \<Rightarrow> day_risk_stats \<Rightarrow> day_state" where
  "day_state_of trades resources buyingPower account halted' haltReason k =
     \<lparr>TradesToday = trades, OpenRisk = lr_OpenRisk resources, RealizedPnL = dk_EffectiveRealizedPnL k,
      LocalRealizedPnL = dk_LocalRealizedPnL k, ProviderRealizedPnL = dk_ProviderRealizedPnL k,
      DailyLossLimit = dk_DailyLossLimit k, ConsecutiveLossDays = dk_ConsecutiveLossDays k, Equity = a_Equity account,
      EquityKnown = a_EquityKnown account, BuyingPower = buyingPower, Halted = halted' \<or> dk_Halted k,
      HaltReason = (if \<not> halted' \<and> dk_Halted k then dk_Reason k else haltReason)\<rparr>"

text \<open>\<open>n\<close> is the first of the two readings of the database's clock.\<close>

definition dayStateAtAccountWithLimits ::
  "admission_env \<Rightarrow> nat \<Rightarrow> bool \<Rightarrow> account_state \<Rightarrow> market_window \<Rightarrow> policy \<Rightarrow> breaker_db \<Rightarrow> (day_state \<times> breaker_db) result" where
  "dayStateAtAccountWithLimits x n shadow account window limits b =
     (let ledger = ledgerName shadow;
          trades = countTradesForDay shadow (ax_UTCDate x (mw_start window)) [] (bk_DB b);
          resources = ledgerResources (bk_DB b) ledger []
      in case spendableBuyingPower (a_BuyingPower account) (lr_HeldCash resources) of
           Inl e \<Rightarrow> Inl e
         | Inr buyingPower \<Rightarrow>
            (let b = InsertDayOpen (mw_day window) ledger (a_Equity account) b
             in case providerRealizedPnL x shadow of
                  Inl e \<Rightarrow> Inl e
                | Inr providerPnL \<Rightarrow>
                   (case ensureMarketDay x n window of
                      Inl e \<Rightarrow> Inl e
                    | Inr _ \<Rightarrow>
                       (case EvaluateDayRisk (ax_Calendar x) (day_input window ledger providerPnL limits) b of
                          Inl e \<Rightarrow> Inl e
                        | Inr (k, b) \<Rightarrow>
                           (case ensureMarketDay x (n + 1) window of
                              Inl e \<Rightarrow> Inl e
                            | Inr _ \<Rightarrow> Inr (day_state_of trades resources buyingPower account (ax_Halted x) (ax_HaltReason x) k, b))))))"

section \<open>The decision of a close\<close>

text \<open>A close that cannot be covered is answered as such, but what was recorded on the way is committed.\<close>

datatype close_decision = InsufficientClose | DecidedClose operation "control_episode option"

definition validUUID :: "string \<Rightarrow> bool" where
  "validUUID i \<longleftrightarrow> length i = 36 \<and>
     list_all (\<lambda>(n, c). if n = 8 \<or> n = 13 \<or> n = 18 \<or> n = 23 then c = CHR ''-''
        else 48 \<le> byte c \<and> byte c \<le> 57 \<or> 97 \<le> byte c \<and> byte c \<le> 102 \<or> 65 \<le> byte c \<and> byte c \<le> 70)
       (zip [0..<36] i)"

definition exposure_mismatch :: "string \<Rightarrow> string \<Rightarrow> string \<Rightarrow> string \<Rightarrow> qty \<Rightarrow> qty \<Rightarrow> db \<Rightarrow> db" where
  "exposure_mismatch key opID ledger symbol quantity exposureQty s =
     (if quantity = exposureQty then s
      else insert_event ''position_exposure_mismatch''
        [(''operation_id'', PText opID), (''ledger'', PText ledger), (''symbol'', PText symbol), (key, PInt quantity),
         (''exposure_qty'', PInt exposureQty)] s)"

definition decide_paper_close :: "string \<Rightarrow> operation \<Rightarrow> db \<Rightarrow> (close_decision \<times> db) result" where
  "decide_paper_close opID op s =
     (let ledger = ledgerName True; symbol = operationSymbol op
      in case find (\<lambda>p. sp_Symbol p = symbol) (ShadowPositions s) of
           None \<Rightarrow> Inl (invalid_close ''%w: close requires an existing shadow position for %s'')
         | Some paper \<Rightarrow>
             if sp_Qty paper \<le> 0 then Inl (invalid_close ''%w: close requires an existing shadow position for %s'')
             else if op_Kind op \<noteq> [] \<and> op_Kind op \<noteq> sp_Kind paper
             then Inl (invalid_close ''%w: close kind %q does not match shadow position kind %q'')
             else if sp_Kind paper = ''option'' \<and> fractional (op_Qty op)
             then Inl (invalid_close ''%w: option qty must be a whole number of contracts'')
             else (let exposureQty = OpenExposureQuantity s ledger symbol (sp_Kind paper);
                       s = exposure_mismatch ''paper_qty'' opID ledger symbol (sp_Qty paper) exposureQty s;
                       closable = minQty (sp_Qty paper) exposureQty
                   in case HeldCloseQuantity s ledger symbol of
                        Inl e \<Rightarrow> Inl e
                      | Inr held \<Rightarrow>
                          if held > closable \<or> op_Qty op > wrap64 (closable - held) then Inr (InsufficientClose, s)
                          else Inr (DecidedClose (op\<lparr>op_Side := ''sell'', op_Kind := sp_Kind paper, op_Multiplier := sp_Multiplier paper,
                            op_VerifiedReduction := True\<rparr>) None, s)))"

text \<open>The positions a close is decided on: those of the snapshot, read again in a simulation.\<close>

definition close_positions :: "admission_env \<Rightarrow> operation \<Rightarrow> provider_snapshot option \<Rightarrow> position list result" where
  "close_positions x op decision =
     (case decision of
        None \<Rightarrow> Inl (Wrapf errBrokerDataUnavailable ''%w: decision snapshot'')
      | Some sn \<Rightarrow>
          if ax_Mode x \<noteq> ''sim'' then Inr (sn_Positions sn)
          else (case ax_Positions x of
            Inl _ \<Rightarrow> Inl (Wrapf errBrokerDataUnavailable ''%w: positions'')
          | Inr positions \<Rightarrow>
              if \<not> samePositionDecision op (sn_Positions sn) positions
              then Inl (invalid_close ''%w: decision position changed'')
              else Inr positions))"

definition certify_close :: "instrument option \<Rightarrow> string \<Rightarrow> operation \<Rightarrow> operation result" where
  "certify_close closeInstrument symbol normalized =
     (if op_Kind normalized = ''equity'' \<and> op_InstrumentID normalized = []
      then (let missing = Inl (invalid_close ''%w: equity position instrument identity is unavailable'')
            in case closeInstrument of
                 None \<Rightarrow> missing
               | Some i \<Rightarrow>
                   if i_InstrumentID i = [] \<or> i_Symbol i \<noteq> symbol \<or> i_Kind i \<noteq> ''equity'' \<or>
                      i_Multiplier i \<noteq> op_Multiplier normalized \<or> \<not> PrecisionSane i
                   then missing
                   else Inr (normalized\<lparr>op_InstrumentID := i_InstrumentID i, op_QtyIncrement := i_QtyIncrement i\<rparr>))
      else Inr normalized)"

definition decided_close ::
  "operation \<Rightarrow> operation \<Rightarrow> qty \<Rightarrow> position list \<Rightarrow> provider_snapshot option \<Rightarrow> operation" where
  "decided_close op normalized exposureQty positions decision =
     (let tracked = minQty (op_Qty op) exposureQty;
          position = matchingPositionID op positions;
          normalized = normalized\<lparr>op_Qty := op_Qty op, op_TrackedCloseQty := tracked,
            op_ExternalCloseQty := wrap64 (op_Qty op - tracked), op_DecisionObservationID := op_DecisionObservationID op,
            op_DecisionObservationGeneration := op_DecisionObservationGeneration op,
            op_DecisionObservationDigest := op_DecisionObservationDigest op, op_BrokerPositionID := position\<rparr>;
          normalized = (case find (\<lambda>p. p_PositionID p = position) positions of
              None \<Rightarrow> normalized | Some p \<Rightarrow> normalized\<lparr>op_DecisionPositionQty := p_Qty p\<rparr>)
      in normalized\<lparr>op_BrokerObjectOrigin := observedObjectOrigin decision BrokerFamilyPositions position\<rparr>)"

definition close_control_episode :: "string \<Rightarrow> string \<Rightarrow> operation \<Rightarrow> qty \<Rightarrow> qty \<Rightarrow> control_episode option" where
  "close_control_episode episodeID opID op positionQty exposureQty =
     (if positionQty = exposureQty then None
      else Some \<lparr>ep_ID = episodeID, ep_OperationID = opID, ep_ControlAction = ''close_position'',
        ep_Origin = (if exposureQty = 0 then ''external'' else ''mixed''),
        ep_BrokerObservationID = op_DecisionObservationID op, ep_ObservationGeneration = op_DecisionObservationGeneration op,
        ep_ObjectKey = op_BrokerPositionID op, ep_RequestedQty = op_Qty op, ep_TrackedQty = op_TrackedCloseQty op,
        ep_ExternalQty = op_ExternalCloseQty op\<rparr>)"

text \<open>What is held and what works at the broker already must leave enough of the position.\<close>

definition cover_close ::
  "string \<Rightarrow> string \<Rightarrow> operation \<Rightarrow> operation \<Rightarrow> position list \<Rightarrow> qty \<Rightarrow> qty \<Rightarrow> provider_snapshot option \<Rightarrow> db \<Rightarrow>
     (close_decision \<times> db) result" where
  "cover_close episodeID opID op normalized positions positionQty exposureQty decision s =
     (case HeldCloseQuantity s (ledgerName False) (operationSymbol op) of
        Inl e \<Rightarrow> Inl e
      | Inr held \<Rightarrow>
       (case externalWorkingCloseQuantity decision normalized of
          Inl _ \<Rightarrow> Inl (invalid_close ''%w: %v'')
        | Inr externalWorking \<Rightarrow>
         (case AddQty held externalWorking of
            Inl _ \<Rightarrow> Inr (InsufficientClose, s)
          | Inr reserved \<Rightarrow>
              if reserved > positionQty \<or> op_Qty op > wrap64 (positionQty - reserved)
              then Inr (InsufficientClose, s)
              else (let op' = decided_close op normalized exposureQty positions decision
                    in Inr (DecidedClose op' (close_control_episode episodeID opID op' positionQty exposureQty), s)))))"

definition decide_live_close ::
  "admission_env \<Rightarrow> string \<Rightarrow> operation \<Rightarrow> instrument option \<Rightarrow> provider_snapshot option \<Rightarrow> db \<Rightarrow> (close_decision \<times> db) result" where
  "decide_live_close x opID op closeInstrument decision s =
     (case close_positions x op decision of
        Inl e \<Rightarrow> Inl e
      | Inr positions \<Rightarrow>
       (case closablePositionQuantity op positions of
          Inl _ \<Rightarrow> Inl (invalid_close ''%w: %v'')
        | Inr positionQty \<Rightarrow>
         (case normalizeClose (op\<lparr>op_Qty := minQty (op_Qty op) positionQty\<rparr>) positions of
            Inl _ \<Rightarrow> Inl (invalid_close ''%w: %v'')
          | Inr normalized \<Rightarrow>
           (case certify_close closeInstrument (operationSymbol op) normalized of
              Inl e \<Rightarrow> Inl e
            | Inr normalized \<Rightarrow>
             (let exposureQty = OpenExposureQuantity s (ledgerName False) (operationSymbol op) (op_Kind normalized)
              in cover_close (ax_NewID x 1) opID op normalized positions positionQty exposureQty decision
                   (exposure_mismatch ''broker_qty'' opID (ledgerName False) (operationSymbol op) positionQty exposureQty s))))))"

text \<open>A close may name the operation it closes; it must be that of the first lot.\<close>

definition closes_first :: "operation \<Rightarrow> db \<Rightarrow> unit result" where
  "closes_first op s =
     (if op_ClosesOperationID op = [] then Inr ()
      else if \<not> validUUID (op_ClosesOperationID op) then Inl (invalid_close ''%w: closes_operation_id is not a UUID'')
      else (let first = FirstOpenExposureOperation s (ledgerName (op_Shadow op)) (operationSymbol op) (op_Kind op)
            in if first = [] \<or> first \<noteq> op_ClosesOperationID op
               then Inl (invalid_close ''%w: closes_operation_id does not match the first FIFO lot'')
               else Inr ()))"

definition decide_close ::
  "admission_env \<Rightarrow> string \<Rightarrow> operation \<Rightarrow> instrument option \<Rightarrow> provider_snapshot option \<Rightarrow> db \<Rightarrow> (close_decision \<times> db) result" where
  "decide_close x opID op closeInstrument decision s =
     (case (if op_Shadow op then decide_paper_close opID op s else decide_live_close x opID op closeInstrument decision s) of
        Inl e \<Rightarrow> Inl e
      | Inr (InsufficientClose, s) \<Rightarrow> Inr (InsufficientClose, s)
      | Inr (DecidedClose op episode, s) \<Rightarrow>
          (case closes_first op s of Inl e \<Rightarrow> Inl e | Inr _ \<Rightarrow> Inr (DecidedClose op episode, s)))"

section \<open>Staging an execution\<close>

definition open_reservation_of :: "string \<Rightarrow> string \<Rightarrow> operation \<Rightarrow> int \<Rightarrow> open_reservation" where
  "open_reservation_of i opID op marketDay = \<lparr>rs_ID = i, rs_OperationID = opID, rs_Ledger = ledgerName (op_Shadow op),
     rs_MarketDay = marketDay, rs_Symbol = operationSymbol op, rs_Kind = op_Kind op, rs_OriginalQty = op_Qty op,
     rs_RemainingQty = op_Qty op, rs_OriginalRisk = op_DerivedMaxRisk op, rs_RemainingRisk = op_DerivedMaxRisk op,
     rs_OriginalCash = op_RequiredCash op, rs_RemainingCash = op_RequiredCash op, rs_ResourceState = ''held'',
     rs_CreatedAt = 0, rs_SettledAt = None, rs_KernelPolicyRevisionID = 0, rs_KernelPolicyGeneration = 0,
     rs_KernelPolicyDigest = []\<rparr>"

definition close_reservation_of :: "string \<Rightarrow> string \<Rightarrow> operation \<Rightarrow> close_reservation" where
  "close_reservation_of i opID op = \<lparr>cr_ID = i, cr_OperationID = opID, cr_Ledger = ledgerName (op_Shadow op),
     cr_Symbol = operationSymbol op, cr_OriginalQty = op_Qty op, cr_RemainingQty = op_Qty op, cr_State = ''held'',
     cr_CreatedAt = 0, cr_ReleasedAt = None, cr_KernelPolicyRevisionID = 0, cr_KernelPolicyGeneration = 0,
     cr_KernelPolicyDigest = []\<rparr>"

definition grant_of :: "string \<Rightarrow> operation \<Rightarrow> int \<Rightarrow> live_canary_revision option \<Rightarrow> trade_grant" where
  "grant_of opID op marketDay canary = \<lparr>tg_OperationID = opID, tg_Ledger = ledgerName (op_Shadow op),
     tg_MarketDay = marketDay, tg_AuthorizedRisk = op_DerivedMaxRisk op, tg_RiskSource = ''computed'',
     tg_LiveCanaryRevisionID = (case canary of None \<Rightarrow> 0 | Some r \<Rightarrow> lc_ID r), tg_GrantedAt = 0,
     tg_KernelPolicyRevisionID = 0, tg_KernelPolicyGeneration = 0, tg_KernelPolicyDigest = []\<rparr>"

definition order_of :: "string \<Rightarrow> string \<Rightarrow> operation \<Rightarrow> execution_attempt \<Rightarrow> order_row" where
  "order_of i opID op a = \<lparr>o_ID = i, o_OperationID = opID, o_ExecutionAttemptID = at_ID a, o_BrokerOrderID = [],
     o_ClientOrderID = at_ClientOrderID a, o_Ledger = ledgerName (op_Shadow op), o_Symbol = operationSymbol op,
     o_Side = op_Side op, o_Kind = op_Kind op, o_Multiplier = op_Multiplier op, o_Qty = at_Qty a, o_Limit = at_Limit a,
     o_State = ''new'', o_Reprices = 0, o_CreatedAt = 0, o_UpdatedAt = 0, o_KernelPolicyRevisionID = 0,
     o_KernelPolicyGeneration = 0, o_KernelPolicyDigest = [], o_AuthorizationExpiresAt = 0,
     o_ApprovedPriceBound = executionPriceBound op (at_Limit a), o_MaxReprices = 0, o_RepriceIntervalSec = 0,
     o_QuoteMaxAgeSec = 0, o_WorkingSince = None\<rparr>"

definition grant_open :: "time \<Rightarrow> string \<Rightarrow> operation \<Rightarrow> int \<Rightarrow> live_canary_revision option \<Rightarrow> (string \<times> payload) list \<Rightarrow> db \<Rightarrow> db result" where
  "grant_open now opID op marketDay canary policy s =
     (case InsertTradeGrant now (grant_of opID op marketDay canary) s of
        Inl e \<Rightarrow> Inl e
      | Inr s \<Rightarrow> Inr (insert_event ''trade_grant_created''
          ([(''operation_id'', PText opID), (''ledger'', PText (ledgerName (op_Shadow op)))] @ policy @
             liveCanaryEventBinding canary) s))"

definition reserve_open :: "time \<Rightarrow> string \<Rightarrow> string \<Rightarrow> operation \<Rightarrow> int \<Rightarrow> db \<Rightarrow> db result" where
  "reserve_open now i opID op marketDay s =
     (case InsertOpenReservation now (open_reservation_of i opID op marketDay) s of
        Inl e \<Rightarrow> Inl e
      | Inr s \<Rightarrow> Inr (insert_event ''open_reservation_created''
          [(''operation_id'', PText opID), (''reservation_id'', PText i), (''ledger'', PText (ledgerName (op_Shadow op))),
           (''symbol'', PText (operationSymbol op))] s))"

definition reserve_close :: "time \<Rightarrow> string \<Rightarrow> string \<Rightarrow> operation \<Rightarrow> db \<Rightarrow> db result" where
  "reserve_close now i opID op s =
     (case InsertCloseReservation now (close_reservation_of i opID op) s of
        Inl e \<Rightarrow> Inl e
      | Inr s \<Rightarrow> Inr (insert_event ''close_reservation_created''
          [(''operation_id'', PText opID), (''reservation_id'', PText i), (''symbol'', PText (operationSymbol op))] s))"

text \<open>The attempt, its order when it places one, and the event.\<close>

definition write_attempt ::
  "(string \<Rightarrow> int64 \<times> int64 \<times> int64) \<Rightarrow> time \<Rightarrow> string \<Rightarrow> string \<Rightarrow> operation \<Rightarrow> execution_attempt \<Rightarrow> db \<Rightarrow> db result" where
  "write_attempt limits now orderID opID op a s =
     (case InsertExecutionAttempt limits now a s of
        Inl e \<Rightarrow> Inl e
      | Inr s \<Rightarrow>
         (case (if at_Intent a = ''place'' \<or> at_Intent a = ''paper_place'' then InsertOrder now (order_of orderID opID op a) s
                else Inr s) of
            Inl e \<Rightarrow> Inl e
          | Inr s \<Rightarrow> Inr (insert_event ''execution_attempt_created''
              [(''operation_id'', PText opID), (''attempt_id'', PText (at_ID a)), (''intent'', PText (at_Intent a))] s)))"

text \<open>The price of a placement: a paper order fills at the quote, inside the approved bound.\<close>

definition paper_limit :: "admission_env \<Rightarrow> operation \<Rightarrow> quote option \<Rightarrow> policy \<Rightarrow> micros \<Rightarrow> micros result" where
  "paper_limit x op q limits limit =
     (if \<not> quote_usable q limits (ax_Clock x 6) then Inl (Errorf ''market_data_unavailable'' [])
      else Inr (if op_Side op = ''buy''
                then (let ask = q_Ask (the q)
                      in if op_Action op = ''open'' \<and> ask > op_ApprovedPriceCap op then op_ApprovedPriceCap op else ask)
                else if op_Limit op = None then q_Bid (the q) else limit))"

definition placement_limit :: "admission_env \<Rightarrow> operation \<Rightarrow> quote option \<Rightarrow> policy \<Rightarrow> micros result" where
  "placement_limit x op q limits =
     (case executionLimit op q (QuoteMaxAgeSec limits) (ax_Clock x 5) of
        Inl e \<Rightarrow> Inl e
      | Inr limit \<Rightarrow> if op_Shadow op then paper_limit x op q limits limit else Inr limit)"

definition placement_attempt :: "admission_env \<Rightarrow> string \<Rightarrow> operation \<Rightarrow> micros \<Rightarrow> execution_attempt" where
  "placement_attempt x opID op limit = blank_attempt\<lparr>at_ID := ax_NewID x 2, at_OperationID := opID, at_Seq := 1,
     at_State := ''pending'', at_Intent := (if op_Shadow op then ''paper_place'' else ''place''),
     at_ClientOrderID := (if op_Shadow op then ''shadow:'' @ ax_NewID x 2 else ax_NewID x 3),
     at_Qty := op_Qty op, at_Limit := limit\<rparr>"

definition stage_placement ::
  "admission_env \<Rightarrow> time \<Rightarrow> string \<Rightarrow> operation \<Rightarrow> quote option \<Rightarrow> policy \<Rightarrow> int \<Rightarrow> db \<Rightarrow> (execution_attempt \<times> db) result" where
  "stage_placement x now opID op q limits marketDay s =
     (case placement_limit x op q limits of
        Inl e \<Rightarrow> Inl e
      | Inr limit \<Rightarrow>
         (let a = placement_attempt x opID op limit; i = ax_NewID x 4
          in if op_Action op = ''open''
             then (case reserve_open now i opID op marketDay s of
                Inl e \<Rightarrow> Inl e
              | Inr s \<Rightarrow>
                  (let a = a\<lparr>at_OpenReservationID := Some i\<rparr>
                   in case write_attempt (ax_Limits x) now (ax_NewID x 5) opID op a s of Inl e \<Rightarrow> Inl e | Inr s \<Rightarrow> Inr (a, s)))
             else (case reserve_close now i opID op s of
                Inl e \<Rightarrow> Inl e
              | Inr s \<Rightarrow>
                  (let a = a\<lparr>at_CloseReservationID := Some i\<rparr>
                   in case write_attempt (ax_Limits x) now (ax_NewID x 5) opID op a s of Inl e \<Rightarrow> Inl e | Inr s \<Rightarrow> Inr (a, s)))))"

definition stage_cancel ::
  "admission_env \<Rightarrow> time \<Rightarrow> string \<Rightarrow> operation \<Rightarrow> db \<Rightarrow> (execution_attempt \<times> db) result" where
  "stage_cancel x now opID op s =
     (let a = blank_attempt\<lparr>at_ID := ax_NewID x 2, at_OperationID := opID, at_Seq := 1, at_State := ''pending'',
            at_Intent := ''cancel'', at_TargetBrokerOrderID := op_BrokerOrderID op\<rparr>
      in case write_attempt (ax_Limits x) now (ax_NewID x 5) opID op a s of Inl e \<Rightarrow> Inl e | Inr s \<Rightarrow> Inr (a, s))"


section \<open>The transaction\<close>

datatype admission =
    Replayed proposal_row
  | Insufficient
  | Admitted verdict operation "execution_attempt option"

text \<open>What the request is about, beside the environment: the id of the operation, who sent it, and the market.\<close>

record proposal =
  pl_OpID :: string
  pl_Identity :: "idempotency_identity option"
  pl_Quote :: "quote option"
  pl_CloseInstrument :: "instrument option"
  pl_Decision :: "provider_snapshot option"

definition open_account :: "admission_env \<Rightarrow> operation \<Rightarrow> policy \<Rightarrow> db \<Rightarrow> account_state result" where
  "open_account x op limits s =
     (case (if op_Shadow op then shadowAccountSnapshotWithLimits x limits s else ax_Account x) of
        Inl _ \<Rightarrow> Inl (Wrapf errBrokerDataUnavailable ''%w: account'')
      | Inr a \<Rightarrow> Inr a)"

text \<open>An open is derived and judged on the state of the day, a close decided on its position; the rest needs neither.\<close>

definition no_day :: day_state where
  "no_day = \<lparr>TradesToday = 0, OpenRisk = 0, RealizedPnL = 0, LocalRealizedPnL = 0, ProviderRealizedPnL = None,
     DailyLossLimit = 0, ConsecutiveLossDays = 0, Equity = 0, EquityKnown = False, BuyingPower = 0, Halted = False,
     HaltReason = []\<rparr>"

record judged_proposal =
  jp_Operation :: operation
  jp_Verdict :: verdict
  jp_Window :: market_window
  jp_Episode :: "control_episode option"
  jp_Canary :: "live_canary_revision option"

definition no_window :: market_window where
  "no_window = \<lparr>mw_day = 0, mw_start = 0, mw_end = 0, mw_asOf = 0\<rparr>"

definition judge_proposed_open ::
  "admission_env \<Rightarrow> proposal \<Rightarrow> operation \<Rightarrow> policy \<Rightarrow> breaker_db \<Rightarrow> (judged_proposal \<times> breaker_db) result" where
  "judge_proposed_open x r op limits b =
     (let op = deriveOpenOperationWithLimits (ax_Clock x 2) (live_mode x) (ax_Execution x) (ax_Instruments x) op (pl_Quote r) limits
      in case open_account x op limits (bk_DB b) of
           Inl e \<Rightarrow> Inl e
         | Inr account \<Rightarrow>
          (case databaseMarketWindow x 1 of
             Inl e \<Rightarrow> Inl e
           | Inr window \<Rightarrow>
            (case dayStateAtAccountWithLimits x 2 (op_Shadow op) account window limits b of
               Inl e \<Rightarrow> Inl e
             | Inr (day, b) \<Rightarrow>
                Inr (\<lparr>jp_Operation = op, jp_Verdict = ClassifyAt op limits day (pl_Quote r) (ax_Clock x 3),
                   jp_Window = window, jp_Episode = None, jp_Canary = None\<rparr>, b))))"

definition close_verdict :: "admission_env \<Rightarrow> operation \<Rightarrow> policy \<Rightarrow> quote option \<Rightarrow> verdict" where
  "close_verdict x op limits q =
     (if op_Action op = ''close'' \<and> \<not> op_Shadow op \<and> \<not> quote_usable q limits (ax_Clock x 4)
      then reject ''market_data_unavailable''
      else ClassifyAt op limits no_day q (ax_Clock x 3))"

definition judge_proposal ::
  "admission_env \<Rightarrow> proposal \<Rightarrow> operation \<Rightarrow> policy \<Rightarrow> breaker_db \<Rightarrow> (judged_proposal option \<times> breaker_db) result" where
  "judge_proposal x r op limits b =
     (if op_Action op = ''open''
      then (case judge_proposed_open x r op limits b of Inl e \<Rightarrow> Inl e | Inr (j, b) \<Rightarrow> Inr (Some j, b))
      else case (if op_Action op = ''close'' then decide_close x (pl_OpID r) op (pl_CloseInstrument r) (pl_Decision r) (bk_DB b)
                 else Inr (DecidedClose op None, bk_DB b)) of
        Inl e \<Rightarrow> Inl e
      | Inr (InsufficientClose, s) \<Rightarrow> Inr (None, b\<lparr>bk_DB := s\<rparr>)
      | Inr (DecidedClose op episode, s) \<Rightarrow>
          Inr (Some \<lparr>jp_Operation = op, jp_Verdict = close_verdict x op limits (pl_Quote r), jp_Window = no_window,
            jp_Episode = episode, jp_Canary = None\<rparr>, b\<lparr>bk_DB := s\<rparr>))"

definition judge_canary ::
  "admission_env \<Rightarrow> string \<Rightarrow> judged_proposal \<Rightarrow> db \<Rightarrow> (judged_proposal \<times> db) result" where
  "judge_canary x opID j s =
     (let op = jp_Operation j; day = mw_day (jp_Window j)
      in if Class (jp_Verdict j) = ''B'' \<and> op_Action op = ''open'' \<and> \<not> op_Shadow op
         then (case liveCanaryRefusal (live_mode x) (ax_Calendar x) (ax_DatabaseClock x 4) opID day
                  (op_DerivedMaxRisk op) (op_Qty op) (op_QtyIncrement op) s of
             Inl e \<Rightarrow> Inl e
           | Inr (reason, usage, authority) \<Rightarrow>
               if reason = [] then Inr (j\<lparr>jp_Canary := authority\<rparr>, s)
               else (case insertCanaryRefusalEvent opID reason day (op_DerivedMaxRisk op) (op_Qty op) (op_QtyIncrement op)
                       usage authority s of
                  Inl e \<Rightarrow> Inl e
                | Inr s \<Rightarrow> Inr (j\<lparr>jp_Canary := authority, jp_Verdict := reject reason\<rparr>, s)))
         else Inr (j, s))"

definition cleared :: "verdict \<Rightarrow> bool" where
  "cleared v \<longleftrightarrow> Class v = ''A'' \<or> Class v = ''B''"

definition live_effect :: "admission_env \<Rightarrow> operation \<Rightarrow> bool" where
  "live_effect x op \<longleftrightarrow> live_mode x \<and> \<not> op_Shadow op \<and>
     (op_Action op = ''open'' \<or> op_Action op = ''close'' \<or> op_Action op = ''cancel'')"

definition stored_class :: "verdict \<Rightarrow> string" where
  "stored_class v = (if Class v = ''REJECT'' then ''C'' else Class v)"

definition stored_status :: "verdict \<Rightarrow> string" where
  "stored_status v = (if Class v = ''REJECT'' then ''rejected'' else if Class v = ''C'' then ''pending_review'' else ''auto_approved'')"

definition binding_payload :: "admission_env \<Rightarrow> policy_binding \<Rightarrow> string \<times> payload" where
  "binding_payload x b = (''kernel_policy'', PText (ax_JSON x (JBinding b)))"

definition cancel_episode :: "admission_env \<Rightarrow> string \<Rightarrow> operation \<Rightarrow> control_episode" where
  "cancel_episode x opID op = \<lparr>ep_ID = ax_NewID x 1, ep_OperationID = opID, ep_ControlAction = ''cancel_order'',
     ep_Origin = op_BrokerObjectOrigin op, ep_BrokerObservationID = op_DecisionObservationID op,
     ep_ObservationGeneration = op_DecisionObservationGeneration op, ep_ObjectKey = op_BrokerOrderID op,
     ep_RequestedQty = 0, ep_TrackedQty = 0, ep_ExternalQty = 0\<rparr>"

definition proposal_episode :: "admission_env \<Rightarrow> string \<Rightarrow> judged_proposal \<Rightarrow> control_episode option" where
  "proposal_episode x opID j =
     (let op = jp_Operation j
      in if op_Action op = ''cancel'' \<and> op_VerifiedReduction op \<and>
            (op_BrokerObjectOrigin op = ''external'' \<or> op_BrokerObjectOrigin op = ''ambiguous'')
         then Some (cancel_episode x opID op) else jp_Episode j)"

definition write_episode :: "string \<Rightarrow> control_episode \<Rightarrow> db \<Rightarrow> db result" where
  "write_episode opID e s =
     (case InsertExternalControlEpisode e s of
        Inl err \<Rightarrow> Inl err
      | Inr s \<Rightarrow> Inr (insert_event ''external_control_episode_created''
          [(''operation_id'', PText opID), (''episode_id'', PText (ep_ID e)), (''control_action'', PText (ep_ControlAction e)),
           (''origin'', PText (ep_Origin e)), (''broker_observation_id'', PText (ep_BrokerObservationID e)),
           (''object_key'', PText (ep_ObjectKey e)), (''requested_qty'', PInt (ep_RequestedQty e)),
           (''tracked_qty'', PInt (ep_TrackedQty e)), (''external_qty'', PInt (ep_ExternalQty e))] s))"

text \<open>The operation row and what stands beside it: the episode of a control over objects of others, the grant of an open.\<close>

definition write_operation ::
  "admission_env \<Rightarrow> proposal \<Rightarrow> kernel_policy_revision \<Rightarrow> judged_proposal \<Rightarrow> db \<Rightarrow> db result" where
  "write_operation x r authority j s =
     (let op = jp_Operation j; v = jp_Verdict j; opID = pl_OpID r; now = ax_DatabaseClock x 5
      in case InsertOperationBound (ax_Policies x) now opID (stored_class v) (stored_status v) op (ax_JSON x (JOperation op))
             (ax_JSON x (JVerdict v)) (pl_Identity r) authority s of
           Inl e \<Rightarrow> Inl e
         | Inr (binding, s) \<Rightarrow>
            (let s = insert_event ''operation_proposed''
                   [(''id'', PText opID), (''op'', PText (ax_JSON x (JOperation op))), (''verdict'', PText (ax_JSON x (JVerdict v))),
                    binding_payload x binding] s
             in case (case proposal_episode x opID j of
                   Some e \<Rightarrow> if cleared v then write_episode opID e s else Inr s
                 | None \<Rightarrow> Inr s) of
                  Inl e \<Rightarrow> Inl e
                | Inr s \<Rightarrow>
                    if Class v = ''B'' \<and> op_Action op = ''open''
                    then grant_open now opID op (mw_day (jp_Window j)) (jp_Canary j) [binding_payload x binding] s
                    else Inr s))"

definition stage_execution ::
  "admission_env \<Rightarrow> proposal \<Rightarrow> policy \<Rightarrow> judged_proposal \<Rightarrow> db \<Rightarrow> (execution_attempt option \<times> db) result" where
  "stage_execution x r limits j s =
     (let op = jp_Operation j; now = ax_DatabaseClock x 5; opID = pl_OpID r
      in if \<not> cleared (jp_Verdict j) \<or> op_Action op = ''tighten_stop'' then Inr (None, s)
         else if op_Action op = ''open'' \<or> op_Action op = ''close''
         then (case stage_placement x now opID op (pl_Quote r) limits (mw_day (jp_Window j)) s of
             Inl e \<Rightarrow> Inl e | Inr (a, s) \<Rightarrow> Inr (Some a, s))
         else if op_Action op = ''cancel''
         then (case stage_cancel x now opID op s of Inl e \<Rightarrow> Inl e | Inr (a, s) \<Rightarrow> Inr (Some a, s))
         else Inr (None, s))"

definition admit :: "admission_env \<Rightarrow> proposal \<Rightarrow> kernel_policy_revision \<Rightarrow> judged_proposal \<Rightarrow> db \<Rightarrow> (admission \<times> db) result" where
  "admit x r authority j s =
     (case judge_canary x (pl_OpID r) j s of
        Inl e \<Rightarrow> Inl e
      | Inr (j, s) \<Rightarrow>
         (case (if live_effect x (jp_Operation j) \<and> cleared (jp_Verdict j)
                then RequireLiveExecutionIdle (op_Action (jp_Operation j) = ''open'') s else Inr ()) of
            Inl e \<Rightarrow> Inl e
          | Inr _ \<Rightarrow>
             (case write_operation x r authority j s of
                Inl e \<Rightarrow> Inl e
              | Inr s \<Rightarrow>
                 (case stage_execution x r (kp_Policy authority) j s of
                    Inl e \<Rightarrow> Inl e
                  | Inr (attempt, s) \<Rightarrow>
                     (case (if op_Action (jp_Operation j) = ''open'' then ensureMarketDay x 6 (jp_Window j) else Inr ()) of
                        Inl e \<Rightarrow> Inl e
                      | Inr _ \<Rightarrow> Inr (Admitted (jp_Verdict j) (jp_Operation j) attempt, s))))))"

definition fresh_proposal ::
  "admission_env \<Rightarrow> proposal \<Rightarrow> operation \<Rightarrow> breaker_db \<Rightarrow> (admission \<times> breaker_db) result" where
  "fresh_proposal x r op b =
     (case LoadKernelPolicyAuthority (ax_Policies x) (ax_DatabaseClock x 0) (bk_DB b) of
        Inl e \<Rightarrow> Inl e
      | Inr authority \<Rightarrow>
         (case judge_proposal x r op (kp_Policy authority) b of
            Inl e \<Rightarrow> Inl e
          | Inr (None, b) \<Rightarrow> Inr (Insufficient, b)
          | Inr (Some j, b) \<Rightarrow>
             (case admit x r authority j (bk_DB b) of
                Inl e \<Rightarrow> Inl e
              | Inr (result, s) \<Rightarrow> Inr (result, b\<lparr>bk_DB := s\<rparr>))))"

definition propose ::
  "admission_env \<Rightarrow> proposal \<Rightarrow> operation \<Rightarrow> breaker_db \<Rightarrow> (admission \<times> breaker_db) result" where
  "propose x r op b =
     (case Option.bind (pl_Identity r) (\<lambda>i. map_option (Pair i) (FindOperationByIdempotency i (bk_DB b))) of
        Some (i, existing) \<Rightarrow>
          if pp_RequestHash existing \<noteq> id_RequestHash i then Inl errIdempotencyKeyReused
          else Inr (Replayed existing, b)
      | None \<Rightarrow> fresh_proposal x r op b)"

end
