(* ===== verification/Admitted.thy ===== *)
theory Admitted
  imports Admission
begin

text \<open>
  What an admission guarantees: the attempt it stages passes the executor's entitlement check, opens stay inside the
  account, the policy and the canary, closes inside the position, live work meets an idle gate,
  and the store's invariants are kept. The writes and the judgement are
  followed step by step; the theorems read off the steps.
\<close>

section \<open>What the writes do\<close>

lemma grant_open_Inr:
  assumes "grant_open now i op d canary p s = Inr s'"
  obtains g where "s' = s\<lparr>db_Grants := db_Grants s @ [g], db_Events := db_Events s'\<rparr>"
    "tg_OperationID g = i" "tg_Ledger g = ledgerName (op_Shadow op)" "tg_MarketDay g = d" "tg_AuthorizedRisk g = op_DerivedMaxRisk op"
    "tg_RiskSource g = ''computed''" "0 < op_DerivedMaxRisk op" "i \<notin> tg_OperationID ` set (db_Grants s)"
    "tg_LiveCanaryRevisionID g = (case canary of None \<Rightarrow> 0 | Some r \<Rightarrow> max 0 (lc_ID r))"
  using assms
  by (auto simp: grant_open_def InsertTradeGrant_def grant_of_def insert_event_def split: option.splits if_splits)

lemma reserve_open_Inr:
  assumes "reserve_open now k i op d s = Inr s'"
  obtains r where "s' = s\<lparr>db_OpenReservations := db_OpenReservations s @ [r], db_Events := db_Events s'\<rparr>"
    "rs_ID r = k" "rs_OperationID r = i" "rs_Ledger r = ledgerName (op_Shadow op)" "rs_MarketDay r = d"
    "rs_Symbol r = operationSymbol op" "rs_Kind r = op_Kind op" "rs_OriginalQty r = op_Qty op" "rs_RemainingQty r = op_Qty op"
    "rs_OriginalRisk r = op_DerivedMaxRisk op" "rs_RemainingRisk r = op_DerivedMaxRisk op" "rs_OriginalCash r = op_RequiredCash op"
    "rs_RemainingCash r = op_RequiredCash op" "rs_ResourceState r = ''held''" "0 < op_Qty op" "0 \<le> op_DerivedMaxRisk op"
    "0 \<le> op_RequiredCash op" "k \<notin> rs_ID ` set (db_OpenReservations s)" "i \<notin> rs_OperationID ` set (db_OpenReservations s)"
  using assms
  by (auto simp: reserve_open_def InsertOpenReservation_def open_reservation_of_def insert_event_def split: option.splits if_splits)

lemma reserve_close_Inr:
  assumes "reserve_close now k i op s = Inr s'"
  obtains r where "s' = s\<lparr>db_CloseReservations := db_CloseReservations s @ [r], db_Events := db_Events s'\<rparr>"
    "cr_ID r = k" "cr_OperationID r = i" "cr_Ledger r = ledgerName (op_Shadow op)" "cr_Symbol r = operationSymbol op"
    "cr_OriginalQty r = op_Qty op" "cr_RemainingQty r = op_Qty op" "cr_State r = ''held''" "0 < op_Qty op"
    "k \<notin> cr_ID ` set (db_CloseReservations s)"
  using assms
  by (auto simp: reserve_close_def InsertCloseReservation_def close_reservation_of_def insert_event_def split: option.splits if_splits)

definition placing :: "execution_attempt \<Rightarrow> bool" where
  "placing a \<longleftrightarrow> at_Intent a = ''place'' \<or> at_Intent a = ''paper_place''"

lemma write_attempt_Inr:
  assumes "write_attempt limits now k i op a s = Inr s'"
  obtains w where "find (\<lambda>w. ow_ID w = at_OperationID a) (db_Operations s) = Some w" "at_ID a \<notin> at_ID ` set (db_Attempts s)"
    "s' = s\<lparr>db_Attempts := db_Attempts s @ [attempt_row limits now s w a], db_Orders := db_Orders s', db_Events := db_Events s'\<rparr>"
    "if placing a
     then \<exists>ord. db_Orders s' = db_Orders s @ [ord] \<and> o_OperationID ord = i \<and> o_ExecutionAttemptID ord = at_ID a \<and>
       o_Ledger ord = ledgerName (op_Shadow op) \<and> o_Symbol ord = operationSymbol op \<and> o_Side ord = op_Side op \<and>
       o_Kind ord = op_Kind op \<and> o_Multiplier ord = op_Multiplier op \<and> o_Qty ord = at_Qty a \<and> o_Limit ord = at_Limit a \<and>
       o_State ord = ''new''
     else db_Orders s' = db_Orders s"
proof -
  obtain w where w: "find (\<lambda>w. ow_ID w = at_OperationID a) (db_Operations s) = Some w" "at_ID a \<notin> at_ID ` set (db_Attempts s)"
    using assms by (auto simp: write_attempt_def InsertExecutionAttempt_def split: option.splits if_splits)
  let ?s1 = "s\<lparr>db_Attempts := db_Attempts s @ [attempt_row limits now s w a]\<rparr>"
  have ins: "InsertExecutionAttempt limits now a s = Inr ?s1" using w by (simp add: InsertExecutionAttempt_def)
  show thesis
  proof (cases "placing a")
    case False
    then have "s' = insert_event ''execution_attempt_created''
        [(''operation_id'', PText i), (''attempt_id'', PText (at_ID a)), (''intent'', PText (at_Intent a))] ?s1"
      using assms ins by (auto simp: write_attempt_def placing_def)
    then show ?thesis using that[OF w] False by (simp add: insert_event_def)
  next
    case True
    obtain s2 where o2: "InsertOrder now (order_of k i op a) ?s1 = Inr s2"
      and s': "s' = insert_event ''execution_attempt_created''
        [(''operation_id'', PText i), (''attempt_id'', PText (at_ID a)), (''intent'', PText (at_Intent a))] s2"
      using assms ins True by (auto simp: write_attempt_def placing_def split: sum.splits)
    from o2 show ?thesis
      by (intro that[OF w]) (auto simp: InsertOrder_def order_of_def Let_def s' insert_event_def True split: option.splits)
  qed
qed

definition granted :: "string \<Rightarrow> operation \<Rightarrow> int \<Rightarrow> live_canary_revision option \<Rightarrow> trade_grant \<Rightarrow> bool" where
  "granted i op d canary g \<longleftrightarrow> tg_OperationID g = i \<and> tg_Ledger g = ledgerName (op_Shadow op) \<and> tg_MarketDay g = d \<and>
     tg_AuthorizedRisk g = op_DerivedMaxRisk op \<and> tg_RiskSource g = ''computed'' \<and> 0 < op_DerivedMaxRisk op \<and>
     tg_LiveCanaryRevisionID g = (case canary of None \<Rightarrow> 0 | Some r \<Rightarrow> max 0 (lc_ID r))"

definition written_grants :: "proposal \<Rightarrow> judged_proposal \<Rightarrow> db \<Rightarrow> db \<Rightarrow> bool" where
  "written_grants r j s s' \<longleftrightarrow>
     (if Class (jp_Verdict j) = ''B'' \<and> op_Action (jp_Operation j) = ''open''
      then \<exists>g. db_Grants s' = db_Grants s @ [g] \<and> granted (pl_OpID r) (jp_Operation j) (mw_day (jp_Window j)) (jp_Canary j) g \<and>
        pl_OpID r \<notin> tg_OperationID ` set (db_Grants s)
      else db_Grants s' = db_Grants s)"

definition written_episodes :: "admission_env \<Rightarrow> proposal \<Rightarrow> judged_proposal \<Rightarrow> db \<Rightarrow> db \<Rightarrow> bool" where
  "written_episodes x r j s s' \<longleftrightarrow>
     (case proposal_episode x (pl_OpID r) j of
        Some e \<Rightarrow> db_Episodes s' = db_Episodes s @ (if cleared (jp_Verdict j) then [e] else []) \<and>
          (cleared (jp_Verdict j) \<longrightarrow> list_all (\<lambda>(bad, _). \<not> bad) (episode_guards e))
      | None \<Rightarrow> db_Episodes s' = db_Episodes s)"

lemma write_episode_Inr:
  assumes "write_episode i e s = Inr s'"
  shows "s' = s\<lparr>db_Episodes := db_Episodes s @ [e], db_Events := db_Events s'\<rparr>" "list_all (\<lambda>(bad, _). \<not> bad) (episode_guards e)"
  using assms
  by (auto simp: write_episode_def InsertExternalControlEpisode_def insert_event_def episode_guards_def split: sum.splits if_splits)

lemma write_operation_Inr:
  assumes "write_operation x r authority j s = Inr s'"
  obtains w p where "s' = s\<lparr>db_Operations := db_Operations s @ [w], db_Proposals := db_Proposals s @ [p],
      db_Episodes := db_Episodes s', db_Grants := db_Grants s', db_Events := db_Events s'\<rparr>"
    "ow_ID w = pl_OpID r" "ow_Action w = op_Action (jp_Operation j)" "ow_Side w = op_Side (jp_Operation j)"
    "ow_Status w = stored_status (jp_Verdict j)" "pl_OpID r \<notin> ow_ID ` set (db_Operations s)"
    "pp_ID p = pl_OpID r" "pp_AuthenticatedSubject p = map_option id_Subject (pl_Identity r)"
    "pp_IdempotencyKey p = map_option id_Key (pl_Identity r)"
    "pp_RequestHash p = (case pl_Identity r of None \<Rightarrow> [] | Some i \<Rightarrow> id_RequestHash i)"
    "written_grants r j s s'" "written_episodes x r j s s'"
proof -
  let ?op = "jp_Operation j" and ?v = "jp_Verdict j" and ?i = "pl_OpID r" and ?now = "ax_DatabaseClock x 5"
  obtain b s1 where i: "InsertOperationBound (ax_Policies x) ?now ?i (stored_class ?v) (stored_status ?v) ?op (ax_JSON x (JOperation ?op))
      (ax_JSON x (JVerdict ?v)) (pl_Identity r) authority s = Inr (b, s1)"
    using assms by (auto simp: write_operation_def Let_def split: sum.splits)
  let ?s2 = "insert_event ''operation_proposed'' [(''id'', PText ?i), (''op'', PText (ax_JSON x (JOperation ?op))),
      (''verdict'', PText (ax_JSON x (JVerdict ?v))), binding_payload x b] s1"
  obtain s3 where e: "(case proposal_episode x ?i j of Some e \<Rightarrow> if cleared ?v then write_episode ?i e ?s2 else Inr ?s2 | None \<Rightarrow> Inr ?s2) = Inr s3"
    and g: "(if Class ?v = ''B'' \<and> op_Action ?op = ''open''
      then grant_open ?now ?i ?op (mw_day (jp_Window j)) (jp_Canary j) [binding_payload x b] s3 else Inr s3) = Inr s'"
    using assms i unfolding write_operation_def Let_def by (auto split: sum.splits)
  let ?w = "operation_row_of ?now ?i (stored_class ?v) (stored_status ?v) ?op b"
  let ?p = "proposal_row_of ?i ?op (ax_JSON x (JOperation ?op)) (ax_JSON x (JVerdict ?v)) (pl_Identity r)"
  have s1: "s1 = s\<lparr>db_Operations := db_Operations s @ [?w], db_Proposals := db_Proposals s @ [?p]\<rparr>" and fresh: "?i \<notin> ow_ID ` set (db_Operations s)"
    using i by (auto simp: InsertOperationBound_def Let_def split: sum.splits if_splits)
  obtain es ev where s3: "s3 = s1\<lparr>db_Episodes := es, db_Events := ev\<rparr>" "written_episodes x r j s1 s3"
  proof (cases "proposal_episode x ?i j")
    case None
    then have "s3 = ?s2" using e by simp
    then show ?thesis using that[where es = "db_Episodes s1" and ev = "db_Events ?s2"] None by (simp add: written_episodes_def insert_event_def)
  next
    case (Some ep)
    show ?thesis
    proof (cases "cleared ?v")
      case True
      then have "write_episode ?i ep ?s2 = Inr s3" using e Some by simp
      note w = write_episode_Inr[OF this]
      have s3: "s3 = s1\<lparr>db_Episodes := db_Episodes s1 @ [ep], db_Events := db_Events s3\<rparr>" using w(1) by (simp add: insert_event_def)
      have "db_Episodes s3 = db_Episodes s1 @ [ep]" using s3[THEN arg_cong, of db_Episodes] by simp
      then show ?thesis using that[OF s3] w(2) Some True by (simp add: written_episodes_def)
    next
      case False
      then have "s3 = ?s2" using e Some by simp
      then show ?thesis using that[where es = "db_Episodes s1" and ev = "db_Events ?s2"] Some False by (simp add: written_episodes_def insert_event_def)
    qed
  qed
  obtain gs ev' where s': "s' = s3\<lparr>db_Grants := gs, db_Events := ev'\<rparr>" "written_grants r j s3 s'"
  proof (cases "Class ?v = ''B'' \<and> op_Action ?op = ''open''")
    case True
    then have "grant_open ?now ?i ?op (mw_day (jp_Window j)) (jp_Canary j) [binding_payload x b] s3 = Inr s'" using g by simp
    then show ?thesis
    proof (rule grant_open_Inr)
      fix g
      assume h: "s' = s3\<lparr>db_Grants := db_Grants s3 @ [g], db_Events := db_Events s'\<rparr>"
        "tg_OperationID g = ?i" "tg_Ledger g = ledgerName (op_Shadow ?op)" "tg_MarketDay g = mw_day (jp_Window j)"
        "tg_AuthorizedRisk g = op_DerivedMaxRisk ?op" "tg_RiskSource g = ''computed''" "0 < op_DerivedMaxRisk ?op"
        "?i \<notin> tg_OperationID ` set (db_Grants s3)"
        "tg_LiveCanaryRevisionID g = (case jp_Canary j of None \<Rightarrow> 0 | Some r \<Rightarrow> max 0 (lc_ID r))"
      have "db_Grants s' = db_Grants s3 @ [g]" using h(1)[THEN arg_cong, of db_Grants] by simp
      then show thesis using that[OF h(1)] h(2-9) True by (auto simp: written_grants_def granted_def)
    qed
  next
    case False
    then show ?thesis using that[where gs = "db_Grants s3" and ev' = "db_Events s3"] g by (auto simp: written_grants_def split: if_splits)
  qed
  show thesis
  proof (rule that[where w = ?w and p = ?p])
    show "s' = s\<lparr>db_Operations := db_Operations s @ [?w], db_Proposals := db_Proposals s @ [?p],
      db_Episodes := db_Episodes s', db_Grants := db_Grants s', db_Events := db_Events s'\<rparr>"
      by (simp add: s'(1) s3(1) s1)
    have "db_Grants s3 = db_Grants s" by (simp add: s3(1) s1)
    then show "written_grants r j s s'" using s'(2) unfolding written_grants_def by metis
    have "db_Episodes s1 = db_Episodes s" "db_Episodes s' = db_Episodes s3" by (simp_all add: s'(1) s1)
    then show "written_episodes x r j s s'" using s3(2) unfolding written_episodes_def by metis
  qed (use fresh in \<open>simp_all add: operation_row_of_def proposal_row_of_def\<close>)
qed

section \<open>What is staged is what a claim asks for\<close>

text \<open>Every order belongs to an attempt: the foreign key of the schema.\<close>

definition orders_refer :: "db \<Rightarrow> bool" where
  "orders_refer s \<longleftrightarrow> (\<forall>ord\<in>set (db_Orders s). o_ExecutionAttemptID ord \<in> at_ID ` set (db_Attempts s))"

definition executable :: "operation \<Rightarrow> bool" where
  "executable op \<longleftrightarrow> op_Kind op \<noteq> [] \<and> 0 < op_Multiplier op \<and> (op_Side op = ''sell'' \<or> op_Side op = ''buy'') \<and>
     (op_Action op = ''open'' \<longrightarrow> op_Side op = ''buy'' \<and> 0 < op_RequiredCash op \<and> 0 < op_DerivedMaxRisk op)"

lemma find_fresh: "k \<notin> f ` set xs \<Longrightarrow> f y = k \<Longrightarrow> find (\<lambda>x. f x = k) (xs @ [y]) = Some y"
  by (induction xs) auto

lemma new_order_found:
  assumes "orders_refer s" "i \<notin> at_ID ` set (db_Attempts s)" "o_ExecutionAttemptID ord = i"
  shows "find (\<lambda>ord. o_ExecutionAttemptID ord = i) (db_Orders s @ [ord]) = Some ord"
  by (rule find_fresh) (use assms in \<open>auto simp: orders_refer_def\<close>)

lemma attempt_row_fields:
  "at_ID (attempt_row limits now s w a) = at_ID a" "at_OperationID (attempt_row limits now s w a) = at_OperationID a"
  "at_Seq (attempt_row limits now s w a) = at_Seq a" "at_Intent (attempt_row limits now s w a) = at_Intent a"
  "at_State (attempt_row limits now s w a) = at_State a"
  "at_OpenReservationID (attempt_row limits now s w a) = nullable (at_OpenReservationID a)"
  "at_CloseReservationID (attempt_row limits now s w a) = nullable (at_CloseReservationID a)"
  "placing a \<Longrightarrow> at_Qty (attempt_row limits now s w a) = at_Qty a" "placing a \<Longrightarrow> at_Limit (attempt_row limits now s w a) = at_Limit a"
  by (simp_all add: attempt_row_def Let_def placing_def)

lemma entitled_open:
  assumes res: "reserve_open now k i op d s = Inr s1" and att: "write_attempt limits now n i op a s1 = Inr s2"
    and a: "at_OperationID a = i" "at_Seq a = 1" "at_Intent a = (if op_Shadow op then ''paper_place'' else ''place'')"
      "at_OpenReservationID a = Some k" "at_CloseReservationID a = None" "at_Qty a = op_Qty op"
    and w: "find (\<lambda>w. ow_ID w = i) (db_Operations s) = Some w" "ow_Action w = ''open''"
    and g: "find (\<lambda>g. tg_OperationID g = i) (db_Grants s) = Some g" "granted i op d canary g"
    and ok: "orders_refer s" "executable op" "op_Action op = ''open''" "k \<noteq> []"
  obtains row where "db_Attempts s2 = db_Attempts s @ [row]" "at_ID row = at_ID a" "at_OperationID row = i" "at_State row = at_State a"
    "validateM3AExecutionEntitlement s2 row = Inr ()"
proof (rule reserve_open_Inr[OF res], rule write_attempt_Inr[OF att])
  fix r w'
  assume s1: "s1 = s\<lparr>db_OpenReservations := db_OpenReservations s @ [r], db_Events := db_Events s1\<rparr>"
    and r: "rs_ID r = k" "rs_OperationID r = i" "rs_Ledger r = ledgerName (op_Shadow op)" "rs_MarketDay r = d"
    "rs_Symbol r = operationSymbol op" "rs_Kind r = op_Kind op" "rs_OriginalQty r = op_Qty op" "rs_RemainingQty r = op_Qty op"
    "rs_OriginalRisk r = op_DerivedMaxRisk op" "rs_OriginalCash r = op_RequiredCash op" "rs_ResourceState r = ''held''"
    "0 < op_Qty op" "k \<notin> rs_ID ` set (db_OpenReservations s)"
    and s2: "s2 = s1\<lparr>db_Attempts := db_Attempts s1 @ [attempt_row limits now s1 w' a], db_Orders := db_Orders s2, db_Events := db_Events s2\<rparr>"
    and fresh: "at_ID a \<notin> at_ID ` set (db_Attempts s1)"
    and o': "if placing a then \<exists>ord. db_Orders s2 = db_Orders s1 @ [ord] \<and> o_OperationID ord = i \<and> o_ExecutionAttemptID ord = at_ID a \<and>
       o_Ledger ord = ledgerName (op_Shadow op) \<and> o_Symbol ord = operationSymbol op \<and> o_Side ord = op_Side op \<and>
       o_Kind ord = op_Kind op \<and> o_Multiplier ord = op_Multiplier op \<and> o_Qty ord = at_Qty a \<and> o_Limit ord = at_Limit a \<and>
       o_State ord = ''new'' else db_Orders s2 = db_Orders s1"
  let ?row = "attempt_row limits now s1 w' a"
  have pl: "placing a" using a(3) by (simp add: placing_def)
  obtain ord where ord: "db_Orders s2 = db_Orders s1 @ [ord]" "o_OperationID ord = i" "o_ExecutionAttemptID ord = at_ID a"
    "o_Ledger ord = ledgerName (op_Shadow op)" "o_Symbol ord = operationSymbol op" "o_Side ord = op_Side op" "o_Kind ord = op_Kind op"
    "o_Multiplier ord = op_Multiplier op" "o_Qty ord = at_Qty a" "o_Limit ord = at_Limit a" "o_State ord = ''new''"
    using o' pl by auto
  have t1: "db_Orders s1 = db_Orders s" "db_Attempts s1 = db_Attempts s" "db_OpenReservations s1 = db_OpenReservations s @ [r]"
    "db_Operations s1 = db_Operations s" "db_Grants s1 = db_Grants s"
    using s1[THEN arg_cong, of db_Orders] s1[THEN arg_cong, of db_Attempts] s1[THEN arg_cong, of db_OpenReservations]
      s1[THEN arg_cong, of db_Operations] s1[THEN arg_cong, of db_Grants] by simp_all
  have t2: "db_Attempts s2 = db_Attempts s @ [?row]" "db_OpenReservations s2 = db_OpenReservations s @ [r]"
    "db_Operations s2 = db_Operations s" "db_Grants s2 = db_Grants s"
    using s2[THEN arg_cong, of db_Attempts] s2[THEN arg_cong, of db_OpenReservations] s2[THEN arg_cong, of db_Operations]
      s2[THEN arg_cong, of db_Grants] t1 by simp_all
  have fo: "find (\<lambda>ord. o_ExecutionAttemptID ord = at_ID a) (db_Orders s2) = Some ord"
    using new_order_found[OF ok(1) _ ord(3)] fresh ord(1) t1 by simp
  have fr: "find (\<lambda>r. rs_ID r = k) (db_OpenReservations s2) = Some r"
    using find_fresh[OF r(13,1)] t2(2) by simp
  note f = attempt_row_fields[where limits = limits and now = now and s = s1 and w = w' and a = a]
  have "open_entitlement s2 ?row ord = Inr ()"
    using a ok(2,3,4) g r ord(2-11) fr
    by (simp add: open_entitlement_def f f(8)[OF pl] nullable_def t2 granted_def executable_def isTerminalUnfilledOrderState_def
        replacementOrderRemaining_def quantity_mismatch_def Let_def)
  then have "validateM3AExecutionEntitlement s2 ?row = Inr ()"
    using a w fo ord f f(8)[OF pl] f(9)[OF pl]
    by (simp add: validateM3AExecutionEntitlement_def one_row_def t2 ledgerName_def)
  then show thesis by (intro that[where row = ?row]) (simp_all add: f a t2(1))
qed

lemma entitled_close:
  assumes res: "reserve_close now k i op s = Inr s1" and att: "write_attempt limits now n i op a s1 = Inr s2"
    and a: "at_OperationID a = i" "at_Seq a = 1" "at_Intent a = (if op_Shadow op then ''paper_place'' else ''place'')"
      "at_CloseReservationID a = Some k" "at_OpenReservationID a = None" "at_Qty a = op_Qty op"
    and w: "find (\<lambda>w. ow_ID w = i) (db_Operations s) = Some w" "ow_Action w = ''close''" "ow_Side w = op_Side op"
    and ok: "orders_refer s" "executable op" "k \<noteq> []"
  obtains row where "db_Attempts s2 = db_Attempts s @ [row]" "at_ID row = at_ID a" "at_OperationID row = i" "at_State row = at_State a"
    "validateM3AExecutionEntitlement s2 row = Inr ()"
proof (rule reserve_close_Inr[OF res], rule write_attempt_Inr[OF att])
  fix r w'
  assume s1: "s1 = s\<lparr>db_CloseReservations := db_CloseReservations s @ [r], db_Events := db_Events s1\<rparr>"
    and r: "cr_ID r = k" "cr_OperationID r = i" "cr_Ledger r = ledgerName (op_Shadow op)" "cr_Symbol r = operationSymbol op"
    "cr_OriginalQty r = op_Qty op" "cr_RemainingQty r = op_Qty op" "cr_State r = ''held''" "0 < op_Qty op"
    "k \<notin> cr_ID ` set (db_CloseReservations s)"
    and s2: "s2 = s1\<lparr>db_Attempts := db_Attempts s1 @ [attempt_row limits now s1 w' a], db_Orders := db_Orders s2, db_Events := db_Events s2\<rparr>"
    and fresh: "at_ID a \<notin> at_ID ` set (db_Attempts s1)"
    and o': "if placing a then \<exists>ord. db_Orders s2 = db_Orders s1 @ [ord] \<and> o_OperationID ord = i \<and> o_ExecutionAttemptID ord = at_ID a \<and>
       o_Ledger ord = ledgerName (op_Shadow op) \<and> o_Symbol ord = operationSymbol op \<and> o_Side ord = op_Side op \<and>
       o_Kind ord = op_Kind op \<and> o_Multiplier ord = op_Multiplier op \<and> o_Qty ord = at_Qty a \<and> o_Limit ord = at_Limit a \<and>
       o_State ord = ''new'' else db_Orders s2 = db_Orders s1"
  let ?row = "attempt_row limits now s1 w' a"
  have pl: "placing a" using a(3) by (simp add: placing_def)
  obtain ord where ord: "db_Orders s2 = db_Orders s1 @ [ord]" "o_OperationID ord = i" "o_ExecutionAttemptID ord = at_ID a"
    "o_Ledger ord = ledgerName (op_Shadow op)" "o_Symbol ord = operationSymbol op" "o_Side ord = op_Side op" "o_Kind ord = op_Kind op"
    "o_Multiplier ord = op_Multiplier op" "o_Qty ord = at_Qty a" "o_Limit ord = at_Limit a" "o_State ord = ''new''"
    using o' pl by auto
  have t1: "db_Orders s1 = db_Orders s" "db_Attempts s1 = db_Attempts s" "db_CloseReservations s1 = db_CloseReservations s @ [r]"
    "db_Operations s1 = db_Operations s"
    using s1[THEN arg_cong, of db_Orders] s1[THEN arg_cong, of db_Attempts] s1[THEN arg_cong, of db_CloseReservations]
      s1[THEN arg_cong, of db_Operations] by simp_all
  have t2: "db_Attempts s2 = db_Attempts s @ [?row]" "db_CloseReservations s2 = db_CloseReservations s @ [r]"
    "db_Operations s2 = db_Operations s"
    using s2[THEN arg_cong, of db_Attempts] s2[THEN arg_cong, of db_CloseReservations] s2[THEN arg_cong, of db_Operations] t1 by simp_all
  have fo: "find (\<lambda>ord. o_ExecutionAttemptID ord = at_ID a) (db_Orders s2) = Some ord"
    using new_order_found[OF ok(1) _ ord(3)] fresh ord(1) t1 by simp
  have fr: "find (\<lambda>r. cr_ID r = k) (db_CloseReservations s2) = Some r"
    using find_fresh[OF r(9,1)] t2(2) by simp
  note f = attempt_row_fields[where limits = limits and now = now and s = s1 and w = w' and a = a]
  have "close_entitlement s2 ?row (ow_Side w) ord = Inr ()"
    using a ok(2,3) w(3) r ord(2-11) fr
    by (simp add: close_entitlement_def f f(8)[OF pl] nullable_def t2 executable_def isTerminalOrderStateForEntitlement_def isTerminalUnfilledOrderState_def
        replacementOrderRemaining_def quantity_mismatch_def Let_def)
  then have "validateM3AExecutionEntitlement s2 ?row = Inr ()"
    using a w fo ord f f(8)[OF pl] f(9)[OF pl]
    by (simp add: validateM3AExecutionEntitlement_def one_row_def t2 ledgerName_def)
  then show thesis by (intro that[where row = ?row]) (simp_all add: f a t2(1))
qed

lemma entitled_cancel:
  assumes att: "write_attempt limits now n i op a s = Inr s'"
    and a: "at_OperationID a = i" "at_Intent a = ''cancel''" "at_CloseReservationID a = None" "at_OpenReservationID a = None"
    and w: "find (\<lambda>w. ow_ID w = i) (db_Operations s) = Some w" "ow_Action w = ''cancel''"
  obtains row where "db_Attempts s' = db_Attempts s @ [row]" "at_ID row = at_ID a" "at_OperationID row = i" "at_State row = at_State a"
    "validateM3AExecutionEntitlement s' row = Inr ()"
proof (rule write_attempt_Inr[OF att])
  fix w'
  assume s': "s' = s\<lparr>db_Attempts := db_Attempts s @ [attempt_row limits now s w' a], db_Orders := db_Orders s', db_Events := db_Events s'\<rparr>"
  let ?row = "attempt_row limits now s w' a"
  note f = attempt_row_fields[where limits = limits and now = now and s = s and w = w' and a = a]
  have t: "db_Attempts s' = db_Attempts s @ [?row]" "db_Operations s' = db_Operations s"
    using s'[THEN arg_cong, of db_Attempts] s'[THEN arg_cong, of db_Operations] by simp_all
  have "validateM3AExecutionEntitlement s' ?row = Inr ()"
    using a w by (simp add: validateM3AExecutionEntitlement_def one_row_def t f cancel_entitlement_def nullable_def)
  then show thesis by (intro that[where row = ?row]) (simp_all add: f a t(1))
qed

section \<open>Judging writes only events\<close>

text \<open>None of them is a halt or a revision of the canary.\<close>

definition quiet :: "db \<Rightarrow> db \<Rightarrow> bool" where
  "quiet s s' \<longleftrightarrow> (\<exists>es. s' = s\<lparr>db_Events := db_Events s @ es\<rparr> \<and>
     list_all (\<lambda>e. ev_Kind e \<noteq> halt_kind \<and> ev_Kind e \<noteq> canary_kind) es)"

lemma quiet_refl [simp]: "quiet s s"
  unfolding quiet_def by (intro exI[of _ "[]"]) simp

lemma quiet_insert [simp]: "kind \<noteq> halt_kind \<Longrightarrow> kind \<noteq> canary_kind \<Longrightarrow> quiet s (insert_event kind p s)"
  unfolding quiet_def by (intro exI[of _ "[\<lparr>ev_Kind = kind, ev_Payload = p, ev_TS = None\<rparr>]"]) (simp add: insert_event_def)

lemma quiet_insert_at:
  "insert_event_at t kind p s = Inr s' \<Longrightarrow> kind \<noteq> halt_kind \<Longrightarrow> kind \<noteq> canary_kind \<Longrightarrow> quiet s s'"
  unfolding quiet_def by (intro exI[of _ "[\<lparr>ev_Kind = kind, ev_Payload = p, ev_TS = Some t\<rparr>]"])
    (auto simp: insert_event_at_def split: if_splits)

lemma quiet_trans:
  assumes "quiet s t" "quiet t u"
  shows "quiet s u"
proof -
  obtain es es' where "t = s\<lparr>db_Events := db_Events s @ es\<rparr>" "u = t\<lparr>db_Events := db_Events t @ es'\<rparr>"
    "list_all (\<lambda>e. ev_Kind e \<noteq> halt_kind \<and> ev_Kind e \<noteq> canary_kind) (es @ es')"
    using assms by (auto simp: quiet_def)
  then show ?thesis unfolding quiet_def by (intro exI[of _ "es @ es'"]) simp
qed

lemma quiet_halted: assumes "quiet s s'" shows "halted s' = halted s"
proof -
  have "halted (s\<lparr>db_Events := xs @ es\<rparr>) = halted (s\<lparr>db_Events := xs\<rparr>)"
    if "list_all (\<lambda>e. ev_Kind e \<noteq> halt_kind \<and> ev_Kind e \<noteq> canary_kind) es" for xs es
    using that
  proof (induction es arbitrary: xs)
    case (Cons e es)
    have "halted (s\<lparr>db_Events := (xs @ [e]) @ es\<rparr>) = halted (s\<lparr>db_Events := xs @ [e]\<rparr>)"
      by (rule Cons(1)) (use Cons(2) in simp)
    then show ?case using Cons(2) halted_append[of "s\<lparr>db_Events := xs\<rparr>" e] by simp
  qed simp
  then show ?thesis using assms halted_events[of "s\<lparr>db_Events := db_Events s\<rparr>" s] by (auto simp: quiet_def)
qed

lemma quiet_canary: assumes "quiet s s'" shows "LiveCanaryAuthority cal now d s' = LiveCanaryAuthority cal now d s"
proof -
  obtain es where s': "s' = s\<lparr>db_Events := db_Events s @ es\<rparr>"
    and k: "list_all (\<lambda>e. ev_Kind e \<noteq> halt_kind \<and> ev_Kind e \<noteq> canary_kind) es"
    using assms by (auto simp: quiet_def)
  have "\<not> list_ex (audits r) es" for r using k by (auto simp: list_ex_iff list_all_iff audits_def Let_def)
  then have "list_ex (audits r) (db_Events s') = list_ex (audits r) (db_Events s)" for r by (simp add: s')
  moreover have "loadLiveCanaryRevisionEvidence r s' = loadLiveCanaryRevisionEvidence r s" for r
    by (simp add: loadLiveCanaryRevisionEvidence_def s')
  ultimately have "latestLiveCanaryRevision s' = latestLiveCanaryRevision s"
    by (simp add: latestLiveCanaryRevision_def s' split: list.splits)
  then show ?thesis unfolding LiveCanaryAuthority_def observed_authority_def by metis
qed

lemma transition_quiet:
  assumes "transitionBreaker cal l t d n subj s = Inr (r, s')"
  shows "quiet (bk_DB s) (bk_DB s')"
  using assms unfolding transitionBreaker_def Let_def
  by (auto simp: case_sum_Inr_iff breaker_event_def set_breaker_def split: if_splits simp: halt_kind_def canary_kind_def dest!: quiet_insert_at)

lemma judge_day_quiet:
  assumes "judge_day cal i k s = Inr (stats, s')"
  shows "quiet (bk_DB s) (bk_DB s')"
proof -
  obtain st changed s1 where t: "transitionBreaker cal (di_Ledger i) (breaker_trigger i k s) (di_MarketDay i)
      (di_ObservedAt i) [] s = Inr ((st, changed), s1)"
    using assms by (auto simp: judge_day_def Let_def case_sum_Inr_iff)
  have e: "(if changed \<and> breaker_trigger i k s = ''pnl_divergence'' then divergence_event i k s1 else Inr s1) = Inr s'"
    using assms t by (auto simp: judge_day_def Let_def case_sum_Inr_iff)
  then have "quiet (bk_DB s1) (bk_DB s')"
    by (auto simp: divergence_event_def breaker_event_def split: if_splits sum.splits simp: halt_kind_def canary_kind_def dest!: quiet_insert_at)
  then show ?thesis using quiet_trans[OF transition_quiet[OF t]] by blast
qed

lemma evaluate_quiet:
  assumes "EvaluateDayRisk cal i s = Inr (stats, s')"
  shows "quiet (bk_DB s) (bk_DB s')"
proof -
  obtain local k s1 where k: "day_figures cal i local s = Inr (k, s1)" "judge_day cal i k s1 = Inr (stats, s')"
    using assms by (auto simp: EvaluateDayRisk_def guarded_ok case_sum_Inr_iff)
  show ?thesis using judge_day_quiet[OF k(2)] only_pnl_fields(1)[OF figures_frame(1)[OF k(1)]] by simp
qed

text \<open>The state of the day of an open: what its fields are.\<close>

lemma dayState_Inr:
  assumes "dayStateAtAccountWithLimits x n shadow account window limits b = Inr (day, b')"
  obtains power k where "quiet (bk_DB b) (bk_DB b')"
    "spendableBuyingPower (a_BuyingPower account) (lr_HeldCash (ledgerResources (bk_DB b) (ledgerName shadow) [])) = Inr power"
    "day = day_state_of (countTradesForDay shadow (ax_UTCDate x (mw_start window)) [] (bk_DB b))
       (ledgerResources (bk_DB b) (ledgerName shadow) []) power account (ax_Halted x) (ax_HaltReason x) k"
proof -
  let ?b = "InsertDayOpen (mw_day window) (ledgerName shadow) (a_Equity account) b"
  have same: "bk_DB ?b = bk_DB b" by (simp add: InsertDayOpen_def)
  obtain power where p: "spendableBuyingPower (a_BuyingPower account)
      (lr_HeldCash (ledgerResources (bk_DB b) (ledgerName shadow) [])) = Inr power"
    using assms by (auto simp: dayStateAtAccountWithLimits_def Let_def case_sum_Inr_iff)
  obtain pnl where pnl: "providerRealizedPnL x shadow = Inr pnl"
    using assms p by (auto simp: dayStateAtAccountWithLimits_def Let_def case_sum_Inr_iff)
  obtain k b1 where k: "EvaluateDayRisk (ax_Calendar x) (day_input window (ledgerName shadow) pnl limits) ?b = Inr (k, b1)"
    using assms p pnl by (auto simp: dayStateAtAccountWithLimits_def Let_def case_sum_Inr_iff)
  have out: "day = day_state_of (countTradesForDay shadow (ax_UTCDate x (mw_start window)) [] (bk_DB b))
       (ledgerResources (bk_DB b) (ledgerName shadow) []) power account (ax_Halted x) (ax_HaltReason x) k" "b' = b1"
    using assms p pnl k by (auto simp: dayStateAtAccountWithLimits_def Let_def case_sum_Inr_iff)
  show ?thesis using that[OF _ p out(1)] evaluate_quiet[OF k] same out(2) by simp
qed

lemma mismatch_quiet [simp]: "quiet s (exposure_mismatch key i l y a q s)"
  by (simp add: exposure_mismatch_def halt_kind_def canary_kind_def)

lemma cover_close_Inr:
  assumes "cover_close e i op n positions q exposureQty decision s = Inr (d, s')"
  shows "s' = s" "d = InsufficientClose \<or>
      (\<exists>working reserved. externalWorkingCloseQuantity decision n = Inr working \<and>
         AddQty (held_closes s (ledgerName False) (operationSymbol op)) working = Inr reserved \<and>
         reserved \<le> q \<and> op_Qty op \<le> wrap64 (q - reserved) \<and>
         d = DecidedClose (decided_close op n exposureQty positions decision)
           (close_control_episode e i (decided_close op n exposureQty positions decision) q exposureQty))"
  using assms by (auto simp: cover_close_def Let_def split: sum.splits if_splits)

lemma decide_live_close_Inr:
  assumes "decide_live_close x i op ins decision s = Inr (d, s')"
  obtains positions q n0 n exposureQty where "close_positions x op decision = Inr positions"
    "closablePositionQuantity op positions = Inr q"
    "normalizeClose (op\<lparr>op_Qty := minQty (op_Qty op) q\<rparr>) positions = Inr n0"
    "certify_close ins (operationSymbol op) n0 = Inr n"
    "exposureQty = OpenExposureQuantity s (ledgerName False) (operationSymbol op) (op_Kind n)"
    "cover_close (ax_NewID x 1) i op n positions q exposureQty decision
       (exposure_mismatch ''broker_qty'' i (ledgerName False) (operationSymbol op) q exposureQty s) = Inr (d, s')"
proof -
  obtain positions where p: "close_positions x op decision = Inr positions"
    using assms by (cases "close_positions x op decision") (simp_all add: decide_live_close_def)
  obtain q where q: "closablePositionQuantity op positions = Inr q"
    using assms p by (cases "closablePositionQuantity op positions") (simp_all add: decide_live_close_def)
  obtain n0 where n0: "normalizeClose (op\<lparr>op_Qty := minQty (op_Qty op) q\<rparr>) positions = Inr n0"
    using assms p q by (cases "normalizeClose (op\<lparr>op_Qty := minQty (op_Qty op) q\<rparr>) positions") (simp_all add: decide_live_close_def)
  obtain n where n: "certify_close ins (operationSymbol op) n0 = Inr n"
    using assms p q n0 by (cases "certify_close ins (operationSymbol op) n0") (simp_all add: decide_live_close_def)
  show ?thesis
    by (rule that[OF p q n0 n refl]) (use assms p q n0 n in \<open>simp add: decide_live_close_def Let_def\<close>)
qed

lemma decide_close_quiet:
  assumes "decide_close x i op ins decision s = Inr (d, s')"
  shows "quiet s s'"
proof (cases "op_Shadow op")
  case True
  then show ?thesis using assms
    by (auto simp: decide_close_def decide_paper_close_def Let_def case_sum_Inr_iff
        split: if_splits option.splits close_decision.splits)
next
  case False
  obtain d' where l: "decide_live_close x i op ins decision s = Inr (d', s')"
    using assms False by (auto simp: decide_close_def split: sum.splits close_decision.splits)
  show ?thesis by (rule decide_live_close_Inr[OF l]) (metis cover_close_Inr(1) mismatch_quiet)
qed

lemma judge_proposal_quiet:
  assumes "judge_proposal x r op limits b = Inr (j, b')"
  shows "quiet (bk_DB b) (bk_DB b')"
proof (cases "op_Action op = ''open''")
  case True
  then obtain j' where "judge_proposed_open x r op limits b = Inr (j', b')"
    using assms by (auto simp: judge_proposal_def case_sum_Inr_iff)
  then obtain n sh account window l day where "dayStateAtAccountWithLimits x n sh account window l b = Inr (day, b')"
    by (auto simp: judge_proposed_open_def Let_def case_sum_Inr_iff)
  then show ?thesis by (rule dayState_Inr)
next
  case False
  show ?thesis
  proof (cases "op_Action op = ''close''")
    case True
    then obtain d where "decide_close x (pl_OpID r) op (pl_CloseInstrument r) (pl_Decision r) (bk_DB b) = Inr (d, bk_DB b')"
      using assms False by (auto simp: judge_proposal_def split: sum.splits close_decision.splits)
    then show ?thesis using decide_close_quiet by blast
  next
    case False
    then show ?thesis using assms \<open>op_Action op \<noteq> ''open''\<close> by (auto simp: judge_proposal_def)
  qed
qed

text \<open>The canary: a verdict it changes is a refusal.\<close>

lemma judge_canary_Inr:
  assumes "judge_canary x i j s = Inr (j', s')"
  shows "quiet s s'" "jp_Operation j' = jp_Operation j" "jp_Window j' = jp_Window j" "jp_Episode j' = jp_Episode j"
    "jp_Verdict j' = jp_Verdict j \<or> Class (jp_Verdict j') = ''REJECT''" "Class (jp_Verdict j') = ''B'' \<Longrightarrow> s' = s"
  using assms
  by (auto simp: judge_canary_def Let_def case_sum_Inr_iff insertCanaryRefusalEvent_def halt_kind_def canary_kind_def split: if_splits option.splits)

section \<open>The steps of an admission\<close>

lemma admit_Inr:
  assumes "admit x r authority j s = Inr (result, s')"
  obtains j1 s1 s2 a where "judge_canary x (pl_OpID r) j s = Inr (j1, s1)"
    "live_effect x (jp_Operation j1) \<and> cleared (jp_Verdict j1) \<Longrightarrow>
       RequireLiveExecutionIdle (op_Action (jp_Operation j1) = ''open'') s1 = Inr ()"
    "write_operation x r authority j1 s1 = Inr s2"
    "stage_execution x r (kp_Policy authority) j1 s2 = Inr (a, s')"
    "result = Admitted (jp_Verdict j1) (jp_Operation j1) a"
proof -
  obtain j1 s1 where c: "judge_canary x (pl_OpID r) j s = Inr (j1, s1)"
    using assms by (cases "judge_canary x (pl_OpID r) j s") (auto simp: admit_def)
  let ?idle = "if live_effect x (jp_Operation j1) \<and> cleared (jp_Verdict j1)
      then RequireLiveExecutionIdle (op_Action (jp_Operation j1) = ''open'') s1 else Inr ()"
  have i: "?idle = Inr ()" using assms c by (cases ?idle) (simp_all add: admit_def)
  obtain s2 where w: "write_operation x r authority j1 s1 = Inr s2"
    using assms c i by (cases "write_operation x r authority j1 s1") (simp_all add: admit_def)
  obtain a t where st: "stage_execution x r (kp_Policy authority) j1 s2 = Inr (a, t)"
    using assms c i w by (cases "stage_execution x r (kp_Policy authority) j1 s2") (auto simp: admit_def)
  have "(case (if op_Action (jp_Operation j1) = ''open'' then ensureMarketDay x 6 (jp_Window j1) else Inr ()) of
      Inl e \<Rightarrow> Inl e | Inr _ \<Rightarrow> Inr (Admitted (jp_Verdict j1) (jp_Operation j1) a, t)) = Inr (result, s')"
    using assms c i w st by (simp add: admit_def)
  then have "result = Admitted (jp_Verdict j1) (jp_Operation j1) a" "t = s'" by (auto split: sum.splits)
  then show ?thesis using that[OF c _ w] i st by (simp split: if_splits)
qed

lemma propose_Inr:
  assumes "propose x r op b = Inr (Admitted v op' a, b')"
  obtains authority j b1 s' where
    "LoadKernelPolicyAuthority (ax_Policies x) (ax_DatabaseClock x 0) (bk_DB b) = Inr authority"
    "judge_proposal x r op (kp_Policy authority) b = Inr (Some j, b1)"
    "admit x r authority j (bk_DB b1) = Inr (Admitted v op' a, s')" "b' = b1\<lparr>bk_DB := s'\<rparr>"
proof -
  have f: "fresh_proposal x r op b = Inr (Admitted v op' a, b')"
    using assms by (simp add: propose_def split: option.splits prod.splits if_splits)
  obtain authority where p: "LoadKernelPolicyAuthority (ax_Policies x) (ax_DatabaseClock x 0) (bk_DB b) = Inr authority"
    using f by (cases "LoadKernelPolicyAuthority (ax_Policies x) (ax_DatabaseClock x 0) (bk_DB b)") (simp_all add: fresh_proposal_def)
  obtain d b1 where j: "judge_proposal x r op (kp_Policy authority) b = Inr (d, b1)"
    using f p by (cases "judge_proposal x r op (kp_Policy authority) b") (auto simp: fresh_proposal_def)
  obtain k where k: "d = Some k" using f p j by (cases d) (simp_all add: fresh_proposal_def)
  obtain s' where a: "admit x r authority k (bk_DB b1) = Inr (Admitted v op' a, s')" "b' = b1\<lparr>bk_DB := s'\<rparr>"
    using f p j k by (auto simp: fresh_proposal_def split: sum.splits)
  show ?thesis by (rule that[OF p j[unfolded k] a])
qed

lemma judge_proposed_open_Inr:
  assumes "judge_proposed_open x r op limits b = Inr (j, b')"
  obtains op' account window day where
    "op' = deriveOpenOperationWithLimits (ax_Clock x 2) (live_mode x) (ax_Execution x) (ax_Instruments x) op (pl_Quote r) limits"
    "open_account x op' limits (bk_DB b) = Inr account" "databaseMarketWindow x 1 = Inr window"
    "dayStateAtAccountWithLimits x 2 (op_Shadow op') account window limits b = Inr (day, b')"
    "j = \<lparr>jp_Operation = op', jp_Verdict = ClassifyAt op' limits day (pl_Quote r) (ax_Clock x 3), jp_Window = window,
       jp_Episode = None, jp_Canary = None\<rparr>"
proof -
  define op' where "op' = deriveOpenOperationWithLimits (ax_Clock x 2) (live_mode x) (ax_Execution x) (ax_Instruments x) op (pl_Quote r) limits"
  note d = assms[unfolded judge_proposed_open_def Let_def, folded op'_def]
  obtain account where a: "open_account x op' limits (bk_DB b) = Inr account"
    using d by (cases "open_account x op' limits (bk_DB b)") simp_all
  obtain window where w: "databaseMarketWindow x 1 = Inr window"
    using d a by (cases "databaseMarketWindow x 1") simp_all
  obtain day b1 where e: "dayStateAtAccountWithLimits x 2 (op_Shadow op') account window limits b = Inr (day, b1)"
    using d a w by (cases "dayStateAtAccountWithLimits x 2 (op_Shadow op') account window limits b") auto
  show ?thesis by (rule that[OF op'_def a w]) (use d a w e in auto)
qed

text \<open>An open is cleared only past the absolute checks, and then in class B.\<close>

lemma judged_open:
  assumes "judge_proposal x r op limits b = Inr (Some j, b')" "op_Action (jp_Operation j) = ''open''" "cleared (jp_Verdict j)"
  shows "Class (jp_Verdict j) = ''B''" "0 < op_DerivedMaxRisk (jp_Operation j)" "0 < op_RequiredCash (jp_Operation j)"
    "op_Side (jp_Operation j) \<noteq> ''sell''"
proof -
  have "\<exists>day q now. jp_Verdict j = classify_open (jp_Operation j) limits day q now"
  proof (cases "op_Action op = ''open''")
    case True
    then have "judge_proposed_open x r op limits b = Inr (j, b')"
      using assms(1) by (cases "judge_proposed_open x r op limits b") (auto simp: judge_proposal_def)
    then obtain day q now where "jp_Verdict j = ClassifyAt (jp_Operation j) limits day q now"
      by (rule judge_proposed_open_Inr) (metis judged_proposal.select_convs(1,2))
    then show ?thesis using assms(2) unfolding ClassifyAt_def by auto
  next
    case False
    then obtain o1 where "j = \<lparr>jp_Operation = o1, jp_Verdict = close_verdict x o1 limits (pl_Quote r), jp_Window = no_window,
        jp_Episode = jp_Episode j, jp_Canary = None\<rparr>"
      using assms(1) by (auto simp: judge_proposal_def split: sum.splits close_decision.splits)
    then have "jp_Verdict j = close_verdict x (jp_Operation j) limits (pl_Quote r)"
      by (metis judged_proposal.select_convs(1,2))
    then show ?thesis using assms(2) by (auto simp: close_verdict_def ClassifyAt_def)
  qed
  then obtain day q now where v: "jp_Verdict j = classify_open (jp_Operation j) limits day q now" by blast
  then show "Class (jp_Verdict j) = ''B''" using assms(3) classify_open_not_A by (metis cleared_def)
  then have "absolute_reject (jp_Operation j) limits day q now = None"
    using v by (cases "absolute_reject (jp_Operation j) limits day q now") (simp_all add: classify_open_def)
  then show "0 < op_DerivedMaxRisk (jp_Operation j)" "0 < op_RequiredCash (jp_Operation j)" "op_Side (jp_Operation j) \<noteq> ''sell''"
    by (simp_all add: absolute_reject_None admissible_def)
qed

definition contracted :: "operation \<Rightarrow> bool" where
  "contracted op \<longleftrightarrow> op_Kind op \<noteq> [] \<and> 0 < op_Multiplier op \<and> (op_Side op = ''sell'' \<or> op_Side op = ''buy'')"

lemma stage_execution_Some:
  assumes "stage_execution x r limits j s = Inr (Some a, s')"
  shows "cleared (jp_Verdict j)"
    "(op_Action (jp_Operation j) = ''open'' \<or> op_Action (jp_Operation j) = ''close'') \<and>
       stage_placement x (ax_DatabaseClock x 5) (pl_OpID r) (jp_Operation j) (pl_Quote r) limits (mw_day (jp_Window j)) s = Inr (a, s') \<or>
     op_Action (jp_Operation j) = ''cancel'' \<and> stage_cancel x (ax_DatabaseClock x 5) (pl_OpID r) (jp_Operation j) s = Inr (a, s')"
  using assms by (auto simp: stage_execution_def Let_def split: if_splits sum.splits)

lemma placement_attempt_fields [simp]:
  "at_ID (placement_attempt x i op l) = ax_NewID x 2" "at_OperationID (placement_attempt x i op l) = i"
  "at_Seq (placement_attempt x i op l) = 1" "at_State (placement_attempt x i op l) = ''pending''"
  "at_Intent (placement_attempt x i op l) = (if op_Shadow op then ''paper_place'' else ''place'')"
  "at_Qty (placement_attempt x i op l) = op_Qty op" "at_Limit (placement_attempt x i op l) = l"
  "at_OpenReservationID (placement_attempt x i op l) = None" "at_CloseReservationID (placement_attempt x i op l) = None"
  by (simp_all add: placement_attempt_def blank_attempt_def)

lemma stage_placement_open:
  assumes "stage_placement x now i op q limits d s = Inr (a, s')" "op_Action op = ''open''"
  obtains l s1 where "placement_limit x op q limits = Inr l" "a = placement_attempt x i op l\<lparr>at_OpenReservationID := Some (ax_NewID x 4)\<rparr>"
    "reserve_open now (ax_NewID x 4) i op d s = Inr s1"
    "write_attempt (ax_Limits x) now (ax_NewID x 5) i op a s1 = Inr s'"
  using assms by (auto simp: stage_placement_def Let_def split: sum.splits)

lemma stage_placement_close:
  assumes "stage_placement x now i op q limits d s = Inr (a, s')" "op_Action op \<noteq> ''open''"
  obtains l s1 where "placement_limit x op q limits = Inr l" "a = placement_attempt x i op l\<lparr>at_CloseReservationID := Some (ax_NewID x 4)\<rparr>"
    "reserve_close now (ax_NewID x 4) i op s = Inr s1"
    "write_attempt (ax_Limits x) now (ax_NewID x 5) i op a s1 = Inr s'"
  using assms by (auto simp: stage_placement_def Let_def split: sum.splits)

lemma stage_cancel_Inr:
  assumes "stage_cancel x now i op s = Inr (a, s')"
  shows "write_attempt (ax_Limits x) now (ax_NewID x 5) i op a s = Inr s'" "at_OperationID a = i" "at_Intent a = ''cancel''"
    "at_State a = ''pending''" "at_OpenReservationID a = None" "at_CloseReservationID a = None" "at_ID a = ax_NewID x 2"
  using assms by (auto simp: stage_cancel_def Let_def blank_attempt_def split: sum.splits)

section \<open>What is admitted is entitled\<close>

lemma events_frame:
  assumes "quiet s s'"
  shows "db_Orders s' = db_Orders s" "db_Attempts s' = db_Attempts s" "db_Operations s' = db_Operations s"
    "db_Grants s' = db_Grants s" "db_OpenReservations s' = db_OpenReservations s" "db_CloseReservations s' = db_CloseReservations s"
    "db_Proposals s' = db_Proposals s" "db_Lots s' = db_Lots s" "db_M3A s' = db_M3A s" "db_CanaryRevisions s' = db_CanaryRevisions s"
    "db_CanaryEvidence s' = db_CanaryEvidence s" "db_GateActive s' = db_GateActive s" "db_GateUnknown s' = db_GateUnknown s"
    "db_M3AActivatedAt s' = db_M3AActivatedAt s"
proof -
  obtain es where e: "s' = s\<lparr>db_Events := db_Events s @ es\<rparr>" using assms by (auto simp: quiet_def)
  show "db_Orders s' = db_Orders s" "db_Attempts s' = db_Attempts s" "db_Operations s' = db_Operations s" "db_Grants s' = db_Grants s" "db_OpenReservations s' = db_OpenReservations s"
    "db_CloseReservations s' = db_CloseReservations s" "db_Proposals s' = db_Proposals s" "db_Lots s' = db_Lots s" "db_M3A s' = db_M3A s" "db_CanaryRevisions s' = db_CanaryRevisions s"
    "db_CanaryEvidence s' = db_CanaryEvidence s" "db_GateActive s' = db_GateActive s" "db_GateUnknown s' = db_GateUnknown s" "db_M3AActivatedAt s' = db_M3AActivatedAt s"
    using e[THEN arg_cong, of db_Orders] e[THEN arg_cong, of db_Attempts] e[THEN arg_cong, of db_Operations] e[THEN arg_cong, of db_Grants]
      e[THEN arg_cong, of db_OpenReservations] e[THEN arg_cong, of db_CloseReservations] e[THEN arg_cong, of db_Proposals] e[THEN arg_cong, of db_Lots]
      e[THEN arg_cong, of db_M3A] e[THEN arg_cong, of db_CanaryRevisions] e[THEN arg_cong, of db_CanaryEvidence] e[THEN arg_cong, of db_GateActive]
      e[THEN arg_cong, of db_GateUnknown] e[THEN arg_cong, of db_M3AActivatedAt] by simp_all
qed

lemma staged_entitled:
  assumes j: "judge_proposal x r op limits b = Inr (Some j, b1)" and c: "judge_canary x (pl_OpID r) j (bk_DB b1) = Inr (j1, s1)"
    and w: "write_operation x r authority j1 s1 = Inr s2"
    and st: "stage_execution x r limits j1 s2 = Inr (Some a, s')"
    and ok: "orders_refer (bk_DB b)" "ax_NewID x 4 \<noteq> []" "op_Action (jp_Operation j1) = ''cancel'' \<or> contracted (jp_Operation j1)"
  shows "\<exists>row. db_Attempts s' = db_Attempts (bk_DB b) @ [row] \<and> at_ID row = at_ID a \<and> at_OperationID row = pl_OpID r \<and>
    at_State row = ''pending'' \<and> validateM3AExecutionEntitlement s' row = Inr ()"
proof -
  let ?i = "pl_OpID r" and ?op = "jp_Operation j1" and ?now = "ax_DatabaseClock x 5" and ?d = "mw_day (jp_Window j1)"
  have clear: "cleared (jp_Verdict j1)" using stage_execution_Some[OF st] by blast
  then have same: "jp_Verdict j1 = jp_Verdict j" "?op = jp_Operation j" using judge_canary_Inr[OF c] by (auto simp: cleared_def)
  have f: "quiet (bk_DB b) s1"
    using quiet_trans[OF judge_proposal_quiet[OF j] judge_canary_Inr(1)[OF c]] .
  note f = events_frame[OF f]
  obtain row p where s2: "s2 = s1\<lparr>db_Operations := db_Operations s1 @ [row], db_Proposals := db_Proposals s1 @ [p],
      db_Episodes := db_Episodes s2, db_Grants := db_Grants s2, db_Events := db_Events s2\<rparr>"
    and row: "ow_ID row = ?i" "ow_Action row = op_Action ?op" "ow_Side row = op_Side ?op" "?i \<notin> ow_ID ` set (db_Operations s1)"
    and g: "written_grants r j1 s1 s2"
    by (rule write_operation_Inr[OF w]) blast
  have t: "db_Orders s2 = db_Orders s1" "db_Attempts s2 = db_Attempts s1" "db_Operations s2 = db_Operations s1 @ [row]"
    using s2[THEN arg_cong, of db_Orders] s2[THEN arg_cong, of db_Attempts] s2[THEN arg_cong, of db_Operations] by simp_all
  have refer: "orders_refer s2" using ok(1) by (simp add: orders_refer_def t f)
  have found: "find (\<lambda>w. ow_ID w = ?i) (db_Operations s2) = Some row"
    using find_fresh[OF row(4,1)] t(3) by simp
  have att: "db_Attempts s2 = db_Attempts (bk_DB b)" using t(2) f(2) by simp
  note staged = stage_execution_Some(2)[OF st]
  show ?thesis
  proof (cases "op_Action ?op = ''open''")
    case True
    note o' = judged_open[OF j, folded same, OF True clear]
    have ex: "executable ?op" using o' ok(3) True by (auto simp: executable_def contracted_def)
    obtain g where g: "db_Grants s2 = db_Grants s1 @ [g]" "granted ?i ?op ?d (jp_Canary j1) g" "?i \<notin> tg_OperationID ` set (db_Grants s1)"
      using g o'(1) True by (auto simp: written_grants_def)
    have gf: "find (\<lambda>g. tg_OperationID g = ?i) (db_Grants s2) = Some g"
      using find_fresh[OF g(3)] g(1,2) by (simp add: granted_def)
    have pl: "stage_placement x ?now ?i ?op (pl_Quote r) limits ?d s2 = Inr (a, s')" using staged True by auto
    obtain l s3 where a: "a = placement_attempt x ?i ?op l\<lparr>at_OpenReservationID := Some (ax_NewID x 4)\<rparr>"
      and s3: "reserve_open ?now (ax_NewID x 4) ?i ?op ?d s2 = Inr s3"
      and s': "write_attempt (ax_Limits x) ?now (ax_NewID x 5) ?i ?op a s3 = Inr s'"
      by (rule stage_placement_open[OF pl True])
    show ?thesis
      by (rule entitled_open[OF s3 s' _ _ _ _ _ _ found _ gf g(2) refer ex True ok(2)])
        (use a row True att in auto)
  next
    case no_open: False
    show ?thesis
    proof (cases "op_Action ?op = ''close''")
      case True
      have ex: "executable ?op" using ok(3) True by (auto simp: executable_def contracted_def)
      have pl: "stage_placement x ?now ?i ?op (pl_Quote r) limits ?d s2 = Inr (a, s')" using staged True by auto
      obtain l s3 where a: "a = placement_attempt x ?i ?op l\<lparr>at_CloseReservationID := Some (ax_NewID x 4)\<rparr>"
        and s3: "reserve_close ?now (ax_NewID x 4) ?i ?op s2 = Inr s3"
        and s': "write_attempt (ax_Limits x) ?now (ax_NewID x 5) ?i ?op a s3 = Inr s'"
        by (rule stage_placement_close[OF pl no_open])
      show ?thesis
        by (rule entitled_close[OF s3 s' _ _ _ _ _ _ found _ row(3) refer ex ok(2)]) (use a row True att in auto)
    next
      case False
      then have k: "op_Action ?op = ''cancel''" "stage_cancel x ?now ?i ?op s2 = Inr (a, s')" using staged no_open by auto
      note h = stage_cancel_Inr[OF k(2)]
      show ?thesis by (rule entitled_cancel[OF h(1,2,3,6,5) found]) (use h row k att in auto)
    qed
  qed
qed

text \<open>C25: what an admission stages can be executed. When a proposal is admitted with an attempt, the verdict is of class A or
  B, exactly this one attempt is new, it is pending, and it passes the entitlement check that the executor
  makes before it claims work: its reservation, grant and order are there and agree with each other in ledger, symbol,
  kind, quantity, risk and day. The fresh id must not be empty and the contract (kind, multiplier, side) known.\<close>
theorem admitted_entitled:
  assumes "propose x r op b = Inr (Admitted v op' (Some a), b')" "orders_refer (bk_DB b)" "ax_NewID x 4 \<noteq> []"
    and "op_Action op' = ''cancel'' \<or> contracted op'"
  shows "cleared v \<and> (\<exists>row. db_Attempts (bk_DB b') = db_Attempts (bk_DB b) @ [row] \<and> at_ID row = at_ID a \<and>
    at_OperationID row = pl_OpID r \<and> at_State row = ''pending'' \<and> validateM3AExecutionEntitlement (bk_DB b') row = Inr ())"
proof (rule propose_Inr[OF assms(1)], erule admit_Inr)
  fix authority j b1 s' j1 s1 s2 a1
  assume j: "judge_proposal x r op (kp_Policy authority) b = Inr (Some j, b1)" and b': "b' = b1\<lparr>bk_DB := s'\<rparr>"
    and c: "judge_canary x (pl_OpID r) j (bk_DB b1) = Inr (j1, s1)"
    and w: "write_operation x r authority j1 s1 = Inr s2"
    and st: "stage_execution x r (kp_Policy authority) j1 s2 = Inr (a1, s')"
    and out: "Admitted v op' (Some a) = Admitted (jp_Verdict j1) (jp_Operation j1) a1"
  have st: "stage_execution x r (kp_Policy authority) j1 s2 = Inr (Some a, s')" using st out by simp
  show ?thesis
    using staged_entitled[OF j c w st assms(2,3)] assms(4) stage_execution_Some(1)[OF st] out by (simp add: b')
qed

section \<open>An admitted open stays within its limits\<close>

text \<open>What every admission went through.\<close>

lemma admitted_steps:
  assumes "propose x r op b = Inr (Admitted v op' a, b')"
  obtains authority j b1 j1 s1 s2 where
    "LoadKernelPolicyAuthority (ax_Policies x) (ax_DatabaseClock x 0) (bk_DB b) = Inr authority"
    "judge_proposal x r op (kp_Policy authority) b = Inr (Some j, b1)"
    "judge_canary x (pl_OpID r) j (bk_DB b1) = Inr (j1, s1)" "quiet (bk_DB b) s1"
    "live_effect x op' \<Longrightarrow> cleared v \<Longrightarrow> RequireLiveExecutionIdle (op_Action op' = ''open'') s1 = Inr ()"
    "write_operation x r authority j1 s1 = Inr s2"
    "stage_execution x r (kp_Policy authority) j1 s2 = Inr (a, bk_DB b')"
    "jp_Verdict j1 = v" "jp_Operation j1 = op'" "jp_Operation j = op'" "jp_Window j1 = jp_Window j"
    "cleared v \<Longrightarrow> jp_Verdict j = v" "b' = b1\<lparr>bk_DB := bk_DB b'\<rparr>"
proof (rule propose_Inr[OF assms], erule admit_Inr)
  fix authority j b1 s' j1 s1 s2 a1
  assume p: "LoadKernelPolicyAuthority (ax_Policies x) (ax_DatabaseClock x 0) (bk_DB b) = Inr authority"
    and j: "judge_proposal x r op (kp_Policy authority) b = Inr (Some j, b1)" and b': "b' = b1\<lparr>bk_DB := s'\<rparr>"
    and c: "judge_canary x (pl_OpID r) j (bk_DB b1) = Inr (j1, s1)"
    and i: "live_effect x (jp_Operation j1) \<and> cleared (jp_Verdict j1) \<Longrightarrow>
       RequireLiveExecutionIdle (op_Action (jp_Operation j1) = ''open'') s1 = Inr ()"
    and w: "write_operation x r authority j1 s1 = Inr s2"
    and st: "stage_execution x r (kp_Policy authority) j1 s2 = Inr (a1, s')"
    and out: "Admitted v op' a = Admitted (jp_Verdict j1) (jp_Operation j1) a1"
  note k = judge_canary_Inr[OF c]
  have same: "cleared v \<Longrightarrow> jp_Verdict j = v" using k(5) out by (auto simp: cleared_def)
  show thesis
    by (rule that[OF p j c quiet_trans[OF judge_proposal_quiet[OF j] k(1)] _ w]) (use i st out same k b' in auto)
qed

lemma admitted_open:
  assumes run: "propose x r op b = Inr (Admitted v op' (Some a), b')" and act: "op_Action op = ''open''"
  obtains authority account window day power k j j1 s1 g res where
    "LoadKernelPolicyAuthority (ax_Policies x) (ax_DatabaseClock x 0) (bk_DB b) = Inr authority"
    "op' = deriveOpenOperationWithLimits (ax_Clock x 2) (live_mode x) (ax_Execution x) (ax_Instruments x) op (pl_Quote r)
       (kp_Policy authority)"
    "open_account x op' (kp_Policy authority) (bk_DB b) = Inr account" "databaseMarketWindow x 1 = Inr window"
    "spendableBuyingPower (a_BuyingPower account) (lr_HeldCash (ledgerResources (bk_DB b) (ledgerName (op_Shadow op)) [])) = Inr power"
    "day = day_state_of (countTradesForDay (op_Shadow op) (ax_UTCDate x (mw_start window)) [] (bk_DB b))
       (ledgerResources (bk_DB b) (ledgerName (op_Shadow op)) []) power account (ax_Halted x) (ax_HaltReason x) k"
    "v = ClassifyAt op' (kp_Policy authority) day (pl_Quote r) (ax_Clock x 3)" "Class v = ''B''"
    "op_Action op' = ''open''" "op_Shadow op' = op_Shadow op"
    "jp_Verdict j = v" "jp_Verdict j1 = v" "jp_Operation j = op'" "mw_day (jp_Window j) = mw_day window"
    "judge_canary x (pl_OpID r) j s1 = Inr (j1, s1)" "quiet (bk_DB b) s1"
    "live_effect x op' \<Longrightarrow> RequireLiveExecutionIdle True s1 = Inr ()"
    "db_Grants (bk_DB b') = db_Grants (bk_DB b) @ [g]" "granted (pl_OpID r) op' (mw_day window) (jp_Canary j1) g"
    "pl_OpID r \<notin> tg_OperationID ` set (db_Grants (bk_DB b))"
    "db_OpenReservations (bk_DB b') = db_OpenReservations (bk_DB b) @ [res]" "rs_Ledger res = ledgerName (op_Shadow op)"
    "rs_RemainingRisk res = op_DerivedMaxRisk op'" "rs_RemainingCash res = op_RequiredCash op'"
    "db_Lots (bk_DB b') = db_Lots (bk_DB b)" "db_M3A (bk_DB b') = db_M3A (bk_DB b)"
    "db_M3AActivatedAt (bk_DB b') = db_M3AActivatedAt (bk_DB b)"
proof (rule admitted_steps[OF run])
  fix authority j b1 j1 s1 s2
  assume p: "LoadKernelPolicyAuthority (ax_Policies x) (ax_DatabaseClock x 0) (bk_DB b) = Inr authority"
    and j: "judge_proposal x r op (kp_Policy authority) b = Inr (Some j, b1)"
    and c: "judge_canary x (pl_OpID r) j (bk_DB b1) = Inr (j1, s1)" and q: "quiet (bk_DB b) s1"
    and i: "live_effect x op' \<Longrightarrow> cleared v \<Longrightarrow> RequireLiveExecutionIdle (op_Action op' = ''open'') s1 = Inr ()"
    and w: "write_operation x r authority j1 s1 = Inr s2"
    and st: "stage_execution x r (kp_Policy authority) j1 s2 = Inr (Some a, bk_DB b')"
    and o': "jp_Verdict j1 = v" "jp_Operation j1 = op'" "jp_Operation j = op'" "jp_Window j1 = jp_Window j"
    and v: "cleared v \<Longrightarrow> jp_Verdict j = v"
  have clear: "cleared v" using stage_execution_Some(1)[OF st] o' by simp
  have jo: "judge_proposed_open x r op (kp_Policy authority) b = Inr (j, b1)"
    using j act by (cases "judge_proposed_open x r op (kp_Policy authority) b") (auto simp: judge_proposal_def)
  obtain account window day where
    d: "op' = deriveOpenOperationWithLimits (ax_Clock x 2) (live_mode x) (ax_Execution x) (ax_Instruments x) op (pl_Quote r)
       (kp_Policy authority)"
    and acc: "open_account x op' (kp_Policy authority) (bk_DB b) = Inr account" and win: "databaseMarketWindow x 1 = Inr window"
    and day: "dayStateAtAccountWithLimits x 2 (op_Shadow op') account window (kp_Policy authority) b = Inr (day, b1)"
    and jeq: "j = \<lparr>jp_Operation = op', jp_Verdict = ClassifyAt op' (kp_Policy authority) day (pl_Quote r) (ax_Clock x 3),
       jp_Window = window, jp_Episode = None, jp_Canary = None\<rparr>"
    by (rule judge_proposed_open_Inr[OF jo]) (use o'(3) in auto)
  have core: "order_core op' = order_core op" unfolding d by (rule derive_open_core)
  note core = order_core_eqD[OF core]
  have open': "op_Action op' = ''open''" using core(7) act by simp
  have cls: "Class v = ''B''" using judged_open(1)[OF j] open' o'(3) clear v[OF clear] by simp
  have vv: "v = ClassifyAt op' (kp_Policy authority) day (pl_Quote r) (ax_Clock x 3)" using v[OF clear] jeq by simp
  have s1: "s1 = bk_DB b1" using judge_canary_Inr(6)[OF c] o'(1) cls by simp
  note f = events_frame[OF q]
  obtain row pr where s2: "s2 = s1\<lparr>db_Operations := db_Operations s1 @ [row], db_Proposals := db_Proposals s1 @ [pr],
      db_Episodes := db_Episodes s2, db_Grants := db_Grants s2, db_Events := db_Events s2\<rparr>"
    and wg: "written_grants r j1 s1 s2"
    by (rule write_operation_Inr[OF w]) blast
  obtain g where g: "db_Grants s2 = db_Grants s1 @ [g]" "granted (pl_OpID r) op' (mw_day window) (jp_Canary j1) g"
    "pl_OpID r \<notin> tg_OperationID ` set (db_Grants s1)"
    using wg cls open' o' jeq by (auto simp: written_grants_def)
  have pl: "stage_placement x (ax_DatabaseClock x 5) (pl_OpID r) op' (pl_Quote r) (kp_Policy authority) (mw_day (jp_Window j1)) s2 =
      Inr (a, bk_DB b')" using stage_execution_Some(2)[OF st] o'(2) open' by auto
  obtain s3 where s3: "reserve_open (ax_DatabaseClock x 5) (ax_NewID x 4) (pl_OpID r) op' (mw_day (jp_Window j1)) s2 = Inr s3"
    and s4: "write_attempt (ax_Limits x) (ax_DatabaseClock x 5) (ax_NewID x 5) (pl_OpID r) op' a s3 = Inr (bk_DB b')"
    by (rule stage_placement_open[OF pl open'])
  obtain res where r3: "s3 = s2\<lparr>db_OpenReservations := db_OpenReservations s2 @ [res], db_Events := db_Events s3\<rparr>"
    and res: "rs_Ledger res = ledgerName (op_Shadow op')" "rs_RemainingRisk res = op_DerivedMaxRisk op'"
      "rs_RemainingCash res = op_RequiredCash op'"
    by (rule reserve_open_Inr[OF s3]) blast
  obtain row' where s': "bk_DB b' = s3\<lparr>db_Attempts := db_Attempts s3 @ [row'], db_Orders := db_Orders (bk_DB b'),
      db_Events := db_Events (bk_DB b')\<rparr>"
    by (rule write_attempt_Inr[OF s4]) blast
  note e = s'[THEN arg_cong, of db_Grants] s'[THEN arg_cong, of db_OpenReservations] s'[THEN arg_cong, of db_Lots]
    s'[THEN arg_cong, of db_M3A] s'[THEN arg_cong, of db_M3AActivatedAt]
    r3[THEN arg_cong, of db_Grants] r3[THEN arg_cong, of db_OpenReservations] r3[THEN arg_cong, of db_Lots]
    r3[THEN arg_cong, of db_M3A] r3[THEN arg_cong, of db_M3AActivatedAt]
    s2[THEN arg_cong, of db_OpenReservations] s2[THEN arg_cong, of db_Lots] s2[THEN arg_cong, of db_M3A]
    s2[THEN arg_cong, of db_M3AActivatedAt]
  obtain power k where pw: "spendableBuyingPower (a_BuyingPower account) (lr_HeldCash (ledgerResources (bk_DB b) (ledgerName (op_Shadow op')) [])) = Inr power"
    and dd: "day = day_state_of (countTradesForDay (op_Shadow op') (ax_UTCDate x (mw_start window)) [] (bk_DB b))
       (ledgerResources (bk_DB b) (ledgerName (op_Shadow op')) []) power account (ax_Halted x) (ax_HaltReason x) k"
    by (rule dayState_Inr[OF day])
  show thesis
  proof (rule that[OF p d acc win pw[unfolded core(6)] dd[unfolded core(6)] vv cls open' core(6) v[OF clear] o'(1,3) _ c[folded s1] q _ _ g(2)])
    show "db_Grants (bk_DB b') = db_Grants (bk_DB b) @ [g]" using e g(1) f by simp
    show "pl_OpID r \<notin> tg_OperationID ` set (db_Grants (bk_DB b))" using g(3) f by simp
    show "db_OpenReservations (bk_DB b') = db_OpenReservations (bk_DB b) @ [res]" using e f by simp
    show "RequireLiveExecutionIdle True s1 = Inr ()" if "live_effect x op'" using i[OF that clear] open' by simp
  qed (use e f res core(6) jeq in simp_all)
qed

lemma resources_append:
  assumes "db_OpenReservations s' = db_OpenReservations s @ [res]" "db_Lots s' = db_Lots s"
    and "0 \<le> rs_RemainingRisk res" "0 \<le> rs_RemainingCash res"
  shows "lr_OpenRisk (ledgerResources s' l []) \<le> lr_OpenRisk (ledgerResources s l []) + rs_RemainingRisk res"
    "lr_HeldCash (ledgerResources s' l []) \<le> lr_HeldCash (ledgerResources s l []) + rs_RemainingCash res"
  using assms by (simp_all add: ledgerResources_def Let_def total_def)

lemma trades_append:
  assumes "db_Grants s' = db_Grants s @ [g]" "db_M3A s' = db_M3A s" "db_M3AActivatedAt s' = db_M3AActivatedAt s"
  shows "countTradesForDay sh d i s' \<le> countTradesForDay sh d i s + 1"
  using assms by (simp add: countTradesForDay_def)

lemma within_share_le: "within_share r e p \<Longrightarrow> r' \<le> r \<Longrightarrow> within_share r' e p"
  unfolding within_share_def by (rule order_trans[OF mult_right_mono]) (simp_all add: Scale_def)

text \<open>C26: an admitted open is covered, together with everything that is held already. After the admission the cash held by
  all reservations of the ledger is at most the buying power of the account the open was judged on; the open risk of the ledger,
  the new reservation included, is at most the policy's share of the equity, and so is the risk of this trade alone; and the
  trades of the day, this one included, are at most the policy's number.\<close>
theorem open_within_limits:
  assumes run: "propose x r op b = Inr (Admitted v op' (Some a), b')" and act: "op_Action op = ''open''"
    and p: "LoadKernelPolicyAuthority (ax_Policies x) (ax_DatabaseClock x 0) (bk_DB b) = Inr authority"
    and acc: "open_account x op' (kp_Policy authority) (bk_DB b) = Inr account" and win: "databaseMarketWindow x 1 = Inr window"
    and int64: "in_int64 (a_Equity account)" "0 \<le> lr_HeldCash (ledgerResources (bk_DB b) (ledgerName (op_Shadow op)) [])"
      "in_int64 (lr_HeldCash (ledgerResources (bk_DB b) (ledgerName (op_Shadow op)) []))"
  shows "lr_HeldCash (ledgerResources (bk_DB b') (ledgerName (op_Shadow op)) []) \<le> a_BuyingPower account \<and>
    within_share (lr_OpenRisk (ledgerResources (bk_DB b') (ledgerName (op_Shadow op)) [])) (a_Equity account)
      (MaxTotalOpenRiskPct (HardLimits (kp_Policy authority))) \<and>
    within_share (op_DerivedMaxRisk op') (a_Equity account) (MaxRiskPerTradePct (HardLimits (kp_Policy authority))) \<and>
    countTradesForDay (op_Shadow op) (ax_UTCDate x (mw_start window)) [] (bk_DB b') \<le>
      MaxNewTradesPerDay (HardLimits (kp_Policy authority))"
proof (rule admitted_open[OF run act])
  fix authority' account' window' day power k g res
  let ?l = "ledgerName (op_Shadow op)"
  assume e: "LoadKernelPolicyAuthority (ax_Policies x) (ax_DatabaseClock x 0) (bk_DB b) = Inr authority'"
      "open_account x op' (kp_Policy authority') (bk_DB b) = Inr account'" "databaseMarketWindow x 1 = Inr window'"
    and pw: "spendableBuyingPower (a_BuyingPower account') (lr_HeldCash (ledgerResources (bk_DB b) ?l [])) = Inr power"
    and day: "day = day_state_of (countTradesForDay (op_Shadow op) (ax_UTCDate x (mw_start window')) [] (bk_DB b))
       (ledgerResources (bk_DB b) ?l []) power account' (ax_Halted x) (ax_HaltReason x) k"
    and v: "v = ClassifyAt op' (kp_Policy authority') day (pl_Quote r) (ax_Clock x 3)" "Class v = ''B''" "op_Action op' = ''open''"
    and g: "db_Grants (bk_DB b') = db_Grants (bk_DB b) @ [g]"
    and rs: "db_OpenReservations (bk_DB b') = db_OpenReservations (bk_DB b) @ [res]"
      "rs_RemainingRisk res = op_DerivedMaxRisk op'" "rs_RemainingCash res = op_RequiredCash op'"
      "db_Lots (bk_DB b') = db_Lots (bk_DB b)"
    and m: "db_M3A (bk_DB b') = db_M3A (bk_DB b)" "db_M3AActivatedAt (bk_DB b') = db_M3AActivatedAt (bk_DB b)"
  have same: "authority' = authority" "account' = account" "window' = window" using e p acc win by auto
  have fields: "Equity day = a_Equity account" "BuyingPower day = power" "OpenRisk day = lr_OpenRisk (ledgerResources (bk_DB b) ?l [])"
    "TradesToday day = countTradesForDay (op_Shadow op) (ax_UTCDate x (mw_start window)) [] (bk_DB b)"
    by (simp_all add: day same day_state_of_def)
  have pct: "percent_range (kp_Policy authority)" by (rule canonical_percent_range[OF active_canonical[OF p]])
  have ok: "admissible op' (kp_Policy authority) day (pl_Quote r) (ax_Clock x 3)"
    "checklist op' (kp_Policy authority) day (pl_Quote r) (ax_Clock x 3)"
    using v classify_open_class[OF pct, of day op' "pl_Quote r" "ax_Clock x 3"] int64(1) fields(1) same(1)
    by (simp_all add: ClassifyAt_def split: if_splits)
  have pos: "0 \<le> rs_RemainingRisk res" "0 \<le> rs_RemainingCash res" using ok(1) rs(2,3) by (simp_all add: admissible_def)
  have cash: "op_RequiredCash op' \<le> a_BuyingPower account - lr_HeldCash (ledgerResources (bk_DB b) ?l [])"
    using ok(1) fields(2) spendable_exact[OF pw int64(2,3)] same(2) by (simp add: admissible_def)
  note app = resources_append[OF rs(1,4) pos, of ?l]
  show ?thesis
    using ok(2) app rs(2,3) cash fields trades_append[OF g m, of "op_Shadow op" "ax_UTCDate x (mw_start window)" "[]"]
      within_share_le[OF _ app(1), of "a_Equity account" "MaxTotalOpenRiskPct (HardLimits (kp_Policy authority))"]
    by (simp add: checklist_def)
qed

text \<open>live work is only admitted into an idle gate. When a live open, close or cancel is admitted for execution, no live
  attempt is in flight and none is unresolved; for an open there is also no global halt.\<close>
lemma live_admission_idle:
  assumes "propose x r op b = Inr (Admitted v op' (Some a), b')" "live_effect x op'"
  shows "db_GateActive (bk_DB b) = None \<and> db_GateUnknown (bk_DB b) = None \<and> (op_Action op' = ''open'' \<longrightarrow> \<not> halted (bk_DB b))"
proof (rule admitted_steps[OF assms(1)])
  fix authority j j1 s1 s2
  assume q: "quiet (bk_DB b) s1" and o': "jp_Verdict j1 = v" "jp_Operation j1 = op'"
    and i: "live_effect x op' \<Longrightarrow> cleared v \<Longrightarrow> RequireLiveExecutionIdle (op_Action op' = ''open'') s1 = Inr ()"
    and st: "stage_execution x r (kp_Policy authority) j1 s2 = Inr (Some a, bk_DB b')"
  have "cleared v" using stage_execution_Some(1)[OF st] o' by simp
  then have "RequireLiveExecutionIdle (op_Action op' = ''open'') s1 = Inr ()" using i assms(2) by blast
  then show ?thesis using events_frame(12,13)[OF q] quiet_halted[OF q]
    by (auto simp: RequireLiveExecutionIdle_def split: if_splits)
qed

lemma day_grants_append:
  assumes "db_Grants s' = db_Grants s @ [g]" "i \<notin> tg_OperationID ` set (db_Grants s)" "tg_Ledger g = l" "tg_MarketDay g = d"
  shows "day_grants l d [] s' = day_grants l d i s @ [g]"
proof -
  have "filter (\<lambda>g. tg_Ledger g = l \<and> tg_MarketDay g = d \<and> (i = [] \<or> tg_OperationID g \<noteq> i)) (db_Grants s) =
      filter (\<lambda>g. tg_Ledger g = l \<and> tg_MarketDay g = d) (db_Grants s)"
    by (rule filter_cong) (use assms(2) in auto)
  then show ?thesis using assms by (simp add: day_grants_def)
qed

lemma wrap64_le:
  assumes "0 \<le> z"
  shows "wrap64 z \<le> z"
proof -
  have "(z + 2 ^ 63) mod 2 ^ 64 \<le> z + 2 ^ 63" by (rule zmod_le_nonneg_dividend) (use assms in simp)
  then show ?thesis by (simp add: wrap64_def)
qed

lemma authority_valid:
  assumes "LiveCanaryAuthority cal now d s = Inr c"
  shows "0 < lc_ID c" "0 < lc_DailyAuthorizedRiskCap c" "lc_EffectiveMarketDay c \<le> d"
proof -
  have "observed_authority now d s = Inr c"
    using assms by (simp add: LiveCanaryAuthority_def split: if_splits sum.splits)
  then have "validateLiveCanaryAuthority c d = Inr ()"
    by (auto simp: observed_authority_def Let_def split: sum.splits)
  then show "0 < lc_ID c" "0 < lc_DailyAuthorizedRiskCap c" "lc_EffectiveMarketDay c \<le> d"
    by (simp_all add: validateLiveCanaryAuthority_def guarded_ok canary_guards_def)
qed

lemma canary_reason_none:
  assumes "canary_reason u cap risk q inc = []"
  shows "\<not> tu_HasLegacyUnknown u" "\<not> tu_HasUnboundCanary u" "0 < risk" "tu_AuthorizedRisk u + risk \<le> cap"
    "tu_GrantCount u = 0 \<Longrightarrow> 0 < inc \<and> q = inc"
proof -
  show "\<not> tu_HasLegacyUnknown u" "\<not> tu_HasUnboundCanary u" "0 < risk" "tu_GrantCount u = 0 \<Longrightarrow> 0 < inc \<and> q = inc"
    using assms by (auto simp: canary_reason_def split: if_splits)
  have "risk \<le> cap" "tu_AuthorizedRisk u \<le> wrap64 (cap - risk)" using assms by (auto simp: canary_reason_def split: if_splits)
  then show "tu_AuthorizedRisk u + risk \<le> cap" using wrap64_le[of "cap - risk"] by simp
qed

text \<open>No reason of the canary: what it has looked at.\<close>

lemma refusal_none:
  assumes "liveCanaryRefusal True cal now i d risk q inc s = Inr ([], usage, authority)"
  obtains c where "LiveCanaryAuthority cal now d s = Inr c" "authority = Some c" "0 < lc_ID c" "0 < risk"
    "authorized_risk (day_grants ''live'' d i s) + risk \<le> lc_DailyAuthorizedRiskCap c"
    "list_all (\<lambda>g. tg_LiveCanaryRevisionID g \<noteq> 0) (day_grants ''live'' d i s)"
    "day_grants ''live'' d i s = [] \<Longrightarrow> q = inc"
proof -
  obtain c where c: "LiveCanaryAuthority cal now d s = Inr c" "authority = Some c" "TradeGrantUsage ''live'' d i s = Inr usage"
      "canary_reason usage (lc_DailyAuthorizedRiskCap c) risk q inc = []"
    using assms by (auto simp: liveCanaryRefusal_def split: sum.splits if_splits)
  have us: "usage = \<lparr>tu_AuthorizedRisk = authorized_risk (day_grants ''live'' d i s),
      tu_HasLegacyUnknown = list_ex (\<lambda>g. tg_RiskSource g = ''legacy_unknown'') (day_grants ''live'' d i s),
      tu_HasUnboundCanary = list_ex (\<lambda>g. tg_LiveCanaryRevisionID g = 0) (day_grants ''live'' d i s),
      tu_GrantCount = int (length (day_grants ''live'' d i s))\<rparr>"
    using c(3) by (simp add: TradeGrantUsage_def Let_def split: if_splits)
  note r = canary_reason_none[OF c(4)]
  show ?thesis
    by (rule that[OF c(1,2) authority_valid(1)[OF c(1)]]) (use r us in \<open>auto simp: list_ex_iff list_all_iff\<close>)
qed

text \<open>The grant of such an open keeps the day within the cap.\<close>

definition canary_kept :: "live_canary_revision \<Rightarrow> int \<Rightarrow> operation \<Rightarrow> trade_grant \<Rightarrow> db \<Rightarrow> bool" where
  "canary_kept c d op g s \<longleftrightarrow> tg_LiveCanaryRevisionID g = lc_ID c \<and>
     authorized_risk (day_grants ''live'' d [] s) \<le> lc_DailyAuthorizedRiskCap c \<and>
     list_all (\<lambda>g. tg_LiveCanaryRevisionID g \<noteq> 0) (day_grants ''live'' d [] s) \<and>
     (day_grants ''live'' d [] s = [g] \<longrightarrow> op_Qty op = op_QtyIncrement op)"

lemma granted_canary_kept:
  assumes ref: "liveCanaryRefusal True cal now i d (op_DerivedMaxRisk op) (op_Qty op) (op_QtyIncrement op) s = Inr ([], usage, authority)"
    and g: "db_Grants s' = db_Grants s @ [g]" "granted i op d authority g" "i \<notin> tg_OperationID ` set (db_Grants s)" "\<not> op_Shadow op"
  shows "\<exists>c. LiveCanaryAuthority cal now d s = Inr c \<and> canary_kept c d op g s'"
proof (rule refusal_none[OF ref])
  fix c
  assume c: "LiveCanaryAuthority cal now d s = Inr c" "authority = Some c" "0 < lc_ID c" "0 < op_DerivedMaxRisk op"
    "authorized_risk (day_grants ''live'' d i s) + op_DerivedMaxRisk op \<le> lc_DailyAuthorizedRiskCap c"
    "list_all (\<lambda>g. tg_LiveCanaryRevisionID g \<noteq> 0) (day_grants ''live'' d i s)"
    "day_grants ''live'' d i s = [] \<Longrightarrow> op_Qty op = op_QtyIncrement op"
  have g': "tg_Ledger g = ''live''" "tg_MarketDay g = d" "tg_AuthorizedRisk g = op_DerivedMaxRisk op"
    "tg_RiskSource g = ''computed''" "tg_LiveCanaryRevisionID g = lc_ID c"
    using g(2,4) c(2,3) by (simp_all add: granted_def ledgerName_def)
  have dg: "day_grants ''live'' d [] s' = day_grants ''live'' d i s @ [g]" by (rule day_grants_append[OF g(1,3) g'(1,2)])
  have "authorized_risk (day_grants ''live'' d [] s') = authorized_risk (day_grants ''live'' d i s) + op_DerivedMaxRisk op"
    using g'(3,4) by (simp add: dg authorized_risk_def total_def)
  then have "canary_kept c d op g s'" using c(3,5,6,7) g'(5) by (simp add: canary_kept_def dg)
  then show ?thesis using c(1) by blast
qed

text \<open>C28: the canary's cap holds over the day. When a live open is admitted in live mode there is a valid authority in force and
  the grant is bound to its revision; the risk granted to the live ledger on this market day, the new grant included, is
  at most the authority's cap; every other grant of the day is bound to a revision too; and when there is no other the
  position is of the smallest size the instrument trades in.\<close>
theorem canary_cap_kept:
  assumes run: "propose x r op b = Inr (Admitted v op' (Some a), b')" and act: "op_Action op = ''open''"
    and live: "live_mode x" "\<not> op_Shadow op" and win: "databaseMarketWindow x 1 = Inr window"
  shows "\<exists>c g. LiveCanaryAuthority (ax_Calendar x) (ax_DatabaseClock x 4) (mw_day window) (bk_DB b) = Inr c \<and>
    db_Grants (bk_DB b') = db_Grants (bk_DB b) @ [g] \<and> tg_OperationID g = pl_OpID r \<and>
    canary_kept c (mw_day window) op' g (bk_DB b')"
proof (rule admitted_open[OF run act])
  fix window' j j1 s1 g
  let ?s = "bk_DB b" and ?d = "mw_day window"
  assume w: "databaseMarketWindow x 1 = Inr window'" and v: "Class v = ''B''" "op_Action op' = ''open''" "op_Shadow op' = op_Shadow op"
    and j: "jp_Verdict j = v" "jp_Operation j = op'" "mw_day (jp_Window j) = mw_day window'" and v1: "jp_Verdict j1 = v"
    and c: "judge_canary x (pl_OpID r) j s1 = Inr (j1, s1)" and q: "quiet ?s s1"
    and g: "db_Grants (bk_DB b') = db_Grants ?s @ [g]" "granted (pl_OpID r) op' (mw_day window') (jp_Canary j1) g"
      "pl_OpID r \<notin> tg_OperationID ` set (db_Grants ?s)"
  have win': "window' = window" using w win by simp
  obtain reason usage authority where ref: "liveCanaryRefusal True (ax_Calendar x) (ax_DatabaseClock x 4) (pl_OpID r) ?d
      (op_DerivedMaxRisk op') (op_Qty op') (op_QtyIncrement op') s1 = Inr (reason, usage, authority)"
    using c v j live win' by (auto simp: judge_canary_def Let_def split: sum.splits)
  have jc: "(if reason = [] then Inr (j\<lparr>jp_Canary := authority\<rparr>, s1)
      else (case insertCanaryRefusalEvent (pl_OpID r) reason ?d (op_DerivedMaxRisk op') (op_Qty op') (op_QtyIncrement op')
              usage authority s1 of
          Inl e \<Rightarrow> Inl e
        | Inr s \<Rightarrow> Inr (j\<lparr>jp_Canary := authority, jp_Verdict := reject reason\<rparr>, s))) = Inr (j1, s1)"
    using c by (simp add: judge_canary_def Let_def ref v j live win')
  have none: "reason = []"
  proof (rule ccontr)
    assume "reason \<noteq> []"
    then have "jp_Verdict j1 = reject reason" using jc by (auto split: sum.splits)
    then have "Class v = ''REJECT''" using v1 by simp
    then show False using v(1) by simp
  qed
  have g1: "granted (pl_OpID r) op' ?d authority g" using g(2) jc none win' by auto
  note e = events_frame(4)[OF q]
  have "\<exists>c. LiveCanaryAuthority (ax_Calendar x) (ax_DatabaseClock x 4) ?d s1 = Inr c \<and> canary_kept c ?d op' g (bk_DB b')"
    by (rule granted_canary_kept[OF ref[unfolded none] _ g1]) (use g(1,3) e v(3) live(2) in simp_all)
  then show ?thesis using quiet_canary[OF q] g(1) g1 by (auto simp: granted_def)
qed

section \<open>An admitted close never oversells\<close>

lemma decided_close_fields [simp]:
  "op_Action (decided_close op n e ps d) = op_Action n" "op_Shadow (decided_close op n e ps d) = op_Shadow n"
  "operationSymbol (decided_close op n e ps d) = operationSymbol n" "op_Kind (decided_close op n e ps d) = op_Kind n"
  "op_Qty (decided_close op n e ps d) = op_Qty op"
  by (simp_all add: decided_close_def Let_def operationSymbol_def split: option.splits)

lemma certify_close_fields:
  assumes "certify_close i y n = Inr n'"
  shows "op_Action n' = op_Action n" "op_Shadow n' = op_Shadow n" "operationSymbol n' = operationSymbol n" "op_Kind n' = op_Kind n"
  using assms by (auto simp: certify_close_def Let_def operationSymbol_def split: if_splits option.splits)

lemma normalizeClose_fields:
  assumes "normalizeClose op ps = Inr n"
  shows "op_Action n = op_Action op" "op_Shadow n = op_Shadow op" "operationSymbol n = operationSymbol op"
proof -
  have "op_Action n = op_Action op \<and> op_Shadow n = op_Shadow op \<and> operationSymbol n = operationSymbol op"
    by (rule normalizeClose_ok[OF assms]) (simp add: operationSymbol_def)
  then show "op_Action n = op_Action op" "op_Shadow n = op_Shadow op" "operationSymbol n = operationSymbol op" by simp_all
qed

text \<open>What a decided close has checked.\<close>

definition room_to_close :: "admission_env \<Rightarrow> operation \<Rightarrow> provider_snapshot option \<Rightarrow> operation \<Rightarrow> db \<Rightarrow> int \<Rightarrow> bool" where
  "room_to_close x op decision op' s held \<longleftrightarrow>
     (if op_Shadow op
      then \<exists>p. find (\<lambda>p. sp_Symbol p = operationSymbol op) (ShadowPositions s) = Some p \<and>
        held \<le> sp_Qty p \<and> held \<le> OpenExposureQuantity s ''shadow'' (operationSymbol op) (sp_Kind p)
      else \<exists>positions q working. close_positions x op decision = Inr positions \<and> closablePositionQuantity op positions = Inr q \<and>
        externalWorkingCloseQuantity decision op' = Inr working \<and> held + working \<le> q)"

lemma minQty_le: "minQty a b \<le> a" "minQty a b \<le> b"
  by (simp_all add: minQty_def)

lemma decide_paper_close_room:
  assumes "decide_paper_close i op s = Inr (DecidedClose op' ep, s')" "op_Shadow op"
  shows "op_Action op' = op_Action op" "op_Shadow op'" "operationSymbol op' = operationSymbol op" "op_Qty op' = op_Qty op"
    "room_to_close x op d op' s (held_closes s ''shadow'' (operationSymbol op) + op_Qty op)"
proof -
  let ?y = "operationSymbol op"
  obtain p where p: "find (\<lambda>p. sp_Symbol p = ?y) (ShadowPositions s) = Some p"
    using assms by (auto simp: decide_paper_close_def Let_def split: option.splits)
  let ?e = "OpenExposureQuantity s ''shadow'' ?y (sp_Kind p)"
  let ?s = "exposure_mismatch ''paper_qty'' i ''shadow'' ?y (sp_Qty p) ?e s"
  let ?h = "held_closes ?s ''shadow'' ?y" and ?c = "minQty (sp_Qty p) ?e"
  obtain hq where hq: "HeldCloseQuantity ?s ''shadow'' ?y = Inr hq"
    using assms p by (auto simp: decide_paper_close_def Let_def ledgerName_def split: if_splits sum.splits)
  have r: "\<not> (?h > ?c \<or> op_Qty op > wrap64 (?c - ?h))"
    "op' = op\<lparr>op_Side := ''sell'', op_Kind := sp_Kind p, op_Multiplier := sp_Multiplier p, op_VerifiedReduction := True\<rparr>"
    using assms p hq by (auto simp: decide_paper_close_def Let_def ledgerName_def split: if_splits sum.splits)
  have h: "?h = held_closes s ''shadow'' ?y"
    by (simp add: held_closes_def exposure_mismatch_def insert_event_def)
  have "?h + op_Qty op \<le> ?c" using r(1) wrap64_le[of "?c - ?h"] by simp
  then show "room_to_close x op d op' s (held_closes s ''shadow'' ?y + op_Qty op)"
    using minQty_le[of "sp_Qty p" ?e] p assms(2) h by (auto simp: room_to_close_def)
  show "op_Action op' = op_Action op" "op_Shadow op'" "operationSymbol op' = ?y" "op_Qty op' = op_Qty op"
    using assms(2) by (simp_all add: r(2) operationSymbol_def)
qed

lemma decide_live_close_room:
  assumes "decide_live_close x i op ins decision s = Inr (DecidedClose op' ep, s')" "\<not> op_Shadow op"
  shows "op_Action op' = op_Action op" "\<not> op_Shadow op'" "operationSymbol op' = operationSymbol op" "op_Qty op' = op_Qty op"
    "room_to_close x op decision op' s (held_closes s ''live'' (operationSymbol op) + op_Qty op)"
proof (rule_tac [!] decide_live_close_Inr[OF assms(1)])
  fix positions q n0 n e
  let ?y = "operationSymbol op"
  assume ps: "close_positions x op decision = Inr positions" "closablePositionQuantity op positions = Inr q"
    and n: "normalizeClose (op\<lparr>op_Qty := minQty (op_Qty op) q\<rparr>) positions = Inr n0" "certify_close ins ?y n0 = Inr n"
    and c: "cover_close (ax_NewID x 1) i op n positions q e decision
       (exposure_mismatch ''broker_qty'' i (ledgerName False) ?y q e s) = Inr (DecidedClose op' ep, s')"
  let ?h = "held_closes s ''live'' ?y"
  have f: "op_Action n = op_Action op" "op_Shadow n = op_Shadow op" "operationSymbol n = ?y"
    using normalizeClose_fields[OF n(1)] certify_close_fields[OF n(2)] by (simp_all add: operationSymbol_def)
  have h: "held_closes (exposure_mismatch ''broker_qty'' i (ledgerName False) ?y q e s) (ledgerName False) ?y = ?h"
    by (simp add: held_closes_def exposure_mismatch_def insert_event_def ledgerName_def)
  obtain working reserved where w: "externalWorkingCloseQuantity decision n = Inr working" "AddQty ?h working = Inr reserved"
      "reserved \<le> q" "op_Qty op \<le> wrap64 (q - reserved)" "op' = decided_close op n e positions decision"
    using cover_close_Inr(2)[OF c] h by auto
  have sum: "?h + op_Qty op + working \<le> q" using w(2,3,4) wrap64_le[of "q - reserved"] by (simp add: AddQty_iff)
  have ext: "externalWorkingCloseQuantity decision op' = Inr working"
    using w(1) unfolding externalWorkingCloseQuantity_def w(5) decided_close_fields .
  show "room_to_close x op decision op' s (?h + op_Qty op)"
    using assms(2) ps ext sum by (auto simp: room_to_close_def)
  show "op_Action op' = op_Action op" "\<not> op_Shadow op'" "operationSymbol op' = ?y" "op_Qty op' = op_Qty op"
    using assms(2) f by (simp_all add: w(5))
qed

lemma decide_close_room:
  assumes "decide_close x i op ins decision s = Inr (DecidedClose op' ep, s')"
  shows "op_Action op' = op_Action op" "op_Shadow op' = op_Shadow op" "operationSymbol op' = operationSymbol op" "op_Qty op' = op_Qty op"
    "room_to_close x op decision op' s (held_closes s (ledgerName (op_Shadow op)) (operationSymbol op) + op_Qty op)"
proof -
  have d: "(if op_Shadow op then decide_paper_close i op s else decide_live_close x i op ins decision s) = Inr (DecidedClose op' ep, s')"
    using assms by (auto simp: decide_close_def split: sum.splits close_decision.splits)
  show "op_Action op' = op_Action op" "op_Shadow op' = op_Shadow op" "operationSymbol op' = operationSymbol op" "op_Qty op' = op_Qty op"
    "room_to_close x op decision op' s (held_closes s (ledgerName (op_Shadow op)) (operationSymbol op) + op_Qty op)"
    using d decide_paper_close_room[of i op s op' ep s'] decide_live_close_room[of x i op ins decision s op' ep s']
    by (cases "op_Shadow op"; simp add: ledgerName_def)+
qed

text \<open>C27: closes never oversell a position. After a close is admitted for execution, everything that is held for closing on the
  symbol, this close included, is at most the position that was read: for paper the shadow position and the
  ledger's open exposure, for live the broker's position less what already works at the broker outside the ledger.\<close>
theorem close_covered:
  assumes run: "propose x r op b = Inr (Admitted v op' (Some a), b')" and act: "op_Action op = ''close''"
  shows "op_Qty op' = op_Qty op \<and> 0 < op_Qty op \<and>
    room_to_close x op (pl_Decision r) op' (bk_DB b)
      (held_closes (bk_DB b') (ledgerName (op_Shadow op)) (operationSymbol op))"
proof (rule admitted_steps[OF run])
  fix authority j b1 j1 s1 s2
  assume j: "judge_proposal x r op (kp_Policy authority) b = Inr (Some j, b1)" and q: "quiet (bk_DB b) s1"
    and w: "write_operation x r authority j1 s1 = Inr s2"
    and st: "stage_execution x r (kp_Policy authority) j1 s2 = Inr (Some a, bk_DB b')"
    and o': "jp_Operation j1 = op'" "jp_Operation j = op'"
  let ?l = "ledgerName (op_Shadow op)" and ?y = "operationSymbol op"
  obtain d s where d: "decide_close x (pl_OpID r) op (pl_CloseInstrument r) (pl_Decision r) (bk_DB b) = Inr (d, s)"
    using j act by (cases "decide_close x (pl_OpID r) op (pl_CloseInstrument r) (pl_Decision r) (bk_DB b)")
      (auto simp: judge_proposal_def)
  obtain ep where "d = DecidedClose op' ep"
    using j act d o'(2) by (cases d) (auto simp: judge_proposal_def)
  note f = decide_close_room[OF d[unfolded this]]
  have act': "op_Action op' = ''close''" "op_Action op' \<noteq> ''open''" using f(1) act by auto
  have pl: "stage_placement x (ax_DatabaseClock x 5) (pl_OpID r) op' (pl_Quote r) (kp_Policy authority) (mw_day (jp_Window j1)) s2 =
      Inr (a, bk_DB b')" using stage_execution_Some(2)[OF st] o'(1) act'(1) by auto
  obtain s3 where s3: "reserve_close (ax_DatabaseClock x 5) (ax_NewID x 4) (pl_OpID r) op' s2 = Inr s3"
    and s4: "write_attempt (ax_Limits x) (ax_DatabaseClock x 5) (ax_NewID x 5) (pl_OpID r) op' a s3 = Inr (bk_DB b')"
    by (rule stage_placement_close[OF pl act'(2)])
  have s2: "db_CloseReservations s2 = db_CloseReservations (bk_DB b)"
  proof (rule write_operation_Inr[OF w])
    fix wr p
    assume e: "s2 = s1\<lparr>db_Operations := db_Operations s1 @ [wr], db_Proposals := db_Proposals s1 @ [p],
      db_Episodes := db_Episodes s2, db_Grants := db_Grants s2, db_Events := db_Events s2\<rparr>"
    show ?thesis using e[THEN arg_cong, of db_CloseReservations] events_frame(6)[OF q] by simp
  qed
  obtain res where r3: "db_CloseReservations s3 = db_CloseReservations s2 @ [res]"
    and res: "cr_Ledger res = ledgerName (op_Shadow op')" "cr_Symbol res = operationSymbol op'" "cr_RemainingQty res = op_Qty op'"
      "cr_State res = ''held''" "0 < op_Qty op'"
  proof (rule reserve_close_Inr[OF s3])
    fix res
    assume e: "s3 = s2\<lparr>db_CloseReservations := db_CloseReservations s2 @ [res], db_Events := db_Events s3\<rparr>"
      and r: "cr_Ledger res = ledgerName (op_Shadow op')" "cr_Symbol res = operationSymbol op'" "cr_RemainingQty res = op_Qty op'"
      "cr_State res = ''held''" "0 < op_Qty op'"
    show thesis by (rule that[OF _ r]) (use e[THEN arg_cong, of db_CloseReservations] in simp)
  qed
  have s': "db_CloseReservations (bk_DB b') = db_CloseReservations s3"
  proof (rule write_attempt_Inr[OF s4])
    fix w
    assume e: "bk_DB b' = s3\<lparr>db_Attempts := db_Attempts s3 @ [attempt_row (ax_Limits x) (ax_DatabaseClock x 5) s3 w a],
        db_Orders := db_Orders (bk_DB b'), db_Events := db_Events (bk_DB b')\<rparr>"
    show ?thesis using e[THEN arg_cong, of db_CloseReservations] by simp
  qed
  have "held_closes (bk_DB b') ?l ?y = held_closes (bk_DB b) ?l ?y + op_Qty op"
    using res f(2,3,4) by (simp add: held_closes_def s' r3 s2 total_def)
  then show ?thesis using f(4,5) res(5) by simp
qed

section \<open>An admission keeps the invariants\<close>

definition new_attempt :: "execution_attempt \<Rightarrow> db \<Rightarrow> db \<Rightarrow> bool" where
  "new_attempt row s s' \<longleftrightarrow> db_Attempts s' = db_Attempts s @ [row] \<and> at_ID row \<notin> at_ID ` set (db_Attempts s) \<and>
     at_State row = ''pending'' \<and> at_SentAt row = None \<and> at_ReplayCount row = 0 \<and>
     (db_Orders s' = db_Orders s \<or> (\<exists>ord. db_Orders s' = db_Orders s @ [ord] \<and> o_ExecutionAttemptID ord = at_ID row))"

text \<open>What staging leaves alone, and what it adds.\<close>

definition same_books :: "db \<Rightarrow> db \<Rightarrow> bool" where
  "same_books s s' \<longleftrightarrow> db_Lots s' = db_Lots s \<and> db_Allocations s' = db_Allocations s \<and>
     db_ExternalReductions s' = db_ExternalReductions s \<and> db_GateActive s' = db_GateActive s \<and>
     db_GateUnknown s' = db_GateUnknown s \<and> db_Bindings s' = db_Bindings s"

lemma same_books_trans: "same_books s t \<Longrightarrow> same_books t u \<Longrightarrow> same_books s u"
  by (simp add: same_books_def)

lemma quiet_books: "quiet s s' \<Longrightarrow> same_books s s'"
  by (auto simp: quiet_def same_books_def)

lemma write_attempt_new:
  assumes "write_attempt limits now n i op a s = Inr s'" "at_State a = ''pending''"
  shows "\<exists>row. new_attempt row s s' \<and> at_ID row = at_ID a" "same_books s s'" "db_OpenReservations s' = db_OpenReservations s"
    "db_Episodes s' = db_Episodes s" "db_Proposals s' = db_Proposals s"
proof (rule_tac [!] write_attempt_Inr[OF assms(1)])
  fix w
  assume f: "at_ID a \<notin> at_ID ` set (db_Attempts s)"
    and s': "s' = s\<lparr>db_Attempts := db_Attempts s @ [attempt_row limits now s w a], db_Orders := db_Orders s', db_Events := db_Events s'\<rparr>"
    and o': "if placing a
     then \<exists>ord. db_Orders s' = db_Orders s @ [ord] \<and> o_OperationID ord = i \<and> o_ExecutionAttemptID ord = at_ID a \<and>
       o_Ledger ord = ledgerName (op_Shadow op) \<and> o_Symbol ord = operationSymbol op \<and> o_Side ord = op_Side op \<and>
       o_Kind ord = op_Kind op \<and> o_Multiplier ord = op_Multiplier op \<and> o_Qty ord = at_Qty a \<and> o_Limit ord = at_Limit a \<and>
       o_State ord = ''new''
     else db_Orders s' = db_Orders s"
  let ?row = "attempt_row limits now s w a"
  have r: "at_ID ?row = at_ID a" "at_State ?row = ''pending''" "at_SentAt ?row = None" "at_ReplayCount ?row = 0"
    using assms(2) by (simp_all add: attempt_row_def Let_def)
  have "db_Attempts s' = db_Attempts s @ [?row]" using s'[THEN arg_cong, of db_Attempts] by simp
  then show "\<exists>row. new_attempt row s s' \<and> at_ID row = at_ID a"
    using f o' r by (intro exI[of _ ?row]) (auto simp: new_attempt_def split: if_splits)
  show "same_books s s'"
    using s'[THEN arg_cong, of db_Lots] s'[THEN arg_cong, of db_Allocations] s'[THEN arg_cong, of db_ExternalReductions]
      s'[THEN arg_cong, of db_GateActive] s'[THEN arg_cong, of db_GateUnknown] s'[THEN arg_cong, of db_Bindings]
    by (simp add: same_books_def)
  show "db_OpenReservations s' = db_OpenReservations s" "db_Episodes s' = db_Episodes s" "db_Proposals s' = db_Proposals s"
    using s'[THEN arg_cong, of db_OpenReservations] s'[THEN arg_cong, of db_Episodes] s'[THEN arg_cong, of db_Proposals] by simp_all
qed

definition op_int64 :: "operation \<Rightarrow> bool" where
  "op_int64 op \<longleftrightarrow> in_int64 (op_Qty op) \<and> in_int64 (op_DerivedMaxRisk op) \<and> in_int64 (op_RequiredCash op)"

definition new_reservations :: "operation \<Rightarrow> db \<Rightarrow> db \<Rightarrow> bool" where
  "new_reservations op s s' \<longleftrightarrow>
     (\<exists>rs. db_OpenReservations s' = db_OpenReservations s @ rs \<and> (op_int64 op \<longrightarrow> list_all reservation_ok rs))"

lemma share_up_full: "0 < q \<Longrightarrow> share_up a q q = a"
proof -
  assume "0 < q"
  have "- (a * q) = - a * q" by simp
  then show "share_up a q q = a" using \<open>0 < q\<close> unfolding share_up_def by (metis add.inverse_inverse nonzero_mult_div_cancel_right order_less_irrefl)
qed

lemma reserve_open_new:
  assumes "reserve_open now k i op d s = Inr s'"
  shows "new_reservations op s s'" "same_books s s'" "db_Attempts s' = db_Attempts s" "db_Orders s' = db_Orders s"
    "db_Episodes s' = db_Episodes s" "db_Proposals s' = db_Proposals s"
proof (rule_tac [!] reserve_open_Inr[OF assms])
  fix r
  assume s': "s' = s\<lparr>db_OpenReservations := db_OpenReservations s @ [r], db_Events := db_Events s'\<rparr>"
    and r: "rs_OriginalQty r = op_Qty op" "rs_RemainingQty r = op_Qty op" "rs_OriginalRisk r = op_DerivedMaxRisk op"
      "rs_RemainingRisk r = op_DerivedMaxRisk op" "rs_OriginalCash r = op_RequiredCash op" "rs_RemainingCash r = op_RequiredCash op"
      "rs_ResourceState r = ''held''" "0 < op_Qty op" "0 \<le> op_DerivedMaxRisk op" "0 \<le> op_RequiredCash op"
  have "op_int64 op \<longrightarrow> reservation_ok r"
    using r by (simp add: reservation_ok_def op_int64_def share_up_full)
  then show "new_reservations op s s'"
    using s'[THEN arg_cong, of db_OpenReservations] by (auto simp: new_reservations_def)
  show "same_books s s'"
    using s'[THEN arg_cong, of db_Lots] s'[THEN arg_cong, of db_Allocations] s'[THEN arg_cong, of db_ExternalReductions]
      s'[THEN arg_cong, of db_GateActive] s'[THEN arg_cong, of db_GateUnknown] s'[THEN arg_cong, of db_Bindings]
    by (simp add: same_books_def)
  show "db_Attempts s' = db_Attempts s" "db_Orders s' = db_Orders s" "db_Episodes s' = db_Episodes s" "db_Proposals s' = db_Proposals s"
    using s'[THEN arg_cong, of db_Attempts] s'[THEN arg_cong, of db_Orders] s'[THEN arg_cong, of db_Episodes]
      s'[THEN arg_cong, of db_Proposals] by simp_all
qed

lemma reserve_close_new:
  assumes "reserve_close now k i op s = Inr s'"
  shows "same_books s s'" "db_OpenReservations s' = db_OpenReservations s" "db_Attempts s' = db_Attempts s" "db_Orders s' = db_Orders s"
    "db_Episodes s' = db_Episodes s" "db_Proposals s' = db_Proposals s"
proof (rule_tac [!] reserve_close_Inr[OF assms])
  fix r
  assume s': "s' = s\<lparr>db_CloseReservations := db_CloseReservations s @ [r], db_Events := db_Events s'\<rparr>"
  show "same_books s s'"
    using s'[THEN arg_cong, of db_Lots] s'[THEN arg_cong, of db_Allocations] s'[THEN arg_cong, of db_ExternalReductions]
      s'[THEN arg_cong, of db_GateActive] s'[THEN arg_cong, of db_GateUnknown] s'[THEN arg_cong, of db_Bindings]
    by (simp add: same_books_def)
  show "db_OpenReservations s' = db_OpenReservations s" "db_Attempts s' = db_Attempts s" "db_Orders s' = db_Orders s"
    "db_Episodes s' = db_Episodes s" "db_Proposals s' = db_Proposals s"
    using s'[THEN arg_cong, of db_OpenReservations] s'[THEN arg_cong, of db_Attempts] s'[THEN arg_cong, of db_Orders]
      s'[THEN arg_cong, of db_Episodes] s'[THEN arg_cong, of db_Proposals] by simp_all
qed

lemma stage_execution_new:
  assumes "stage_execution x r limits j s = Inr (a, s')"
  shows "same_books s s'" "new_reservations (jp_Operation j) s s'" "db_Episodes s' = db_Episodes s" "db_Proposals s' = db_Proposals s"
    "db_Attempts s' = db_Attempts s \<and> db_Orders s' = db_Orders s \<or> (\<exists>row. new_attempt row s s' \<and> at_ID row = ax_NewID x 2)"
proof -
  let ?op = "jp_Operation j" and ?i = "pl_OpID r" and ?now = "ax_DatabaseClock x 5"
  have "same_books s s' \<and> new_reservations ?op s s' \<and> db_Episodes s' = db_Episodes s \<and> db_Proposals s' = db_Proposals s \<and>
    (db_Attempts s' = db_Attempts s \<and> db_Orders s' = db_Orders s \<or> (\<exists>row. new_attempt row s s' \<and> at_ID row = ax_NewID x 2))"
  proof (cases a)
    case None
    then have "s' = s" using assms by (auto simp: stage_execution_def Let_def split: if_splits sum.splits)
    then show ?thesis by (simp add: same_books_def new_reservations_def)
  next
    case (Some b)
    note st = stage_execution_Some(2)[OF assms[unfolded Some]]
    consider (opn) "op_Action ?op = ''open''" "stage_placement x ?now ?i ?op (pl_Quote r) limits (mw_day (jp_Window j)) s = Inr (b, s')"
      | (cls) "op_Action ?op \<noteq> ''open''" "stage_placement x ?now ?i ?op (pl_Quote r) limits (mw_day (jp_Window j)) s = Inr (b, s')"
      | (cancel) "stage_cancel x ?now ?i ?op s = Inr (b, s')" using st by blast
    then show ?thesis
    proof cases
      case opn
      then obtain l s1 where b: "b = placement_attempt x ?i ?op l\<lparr>at_OpenReservationID := Some (ax_NewID x 4)\<rparr>"
        and s1: "reserve_open ?now (ax_NewID x 4) ?i ?op (mw_day (jp_Window j)) s = Inr s1"
        and s2: "write_attempt (ax_Limits x) ?now (ax_NewID x 5) ?i ?op b s1 = Inr s'"
        using stage_placement_open[OF opn(2,1)] by metis
      note n = reserve_open_new[OF s1] and m = write_attempt_new[OF s2]
      have pend: "at_State b = ''pending''" "at_ID b = ax_NewID x 2" by (simp_all add: b)
      show ?thesis using n m[OF pend(1)] pend(2) same_books_trans by (auto simp: new_attempt_def new_reservations_def)
    next
      case cls
      then obtain l s1 where b: "b = placement_attempt x ?i ?op l\<lparr>at_CloseReservationID := Some (ax_NewID x 4)\<rparr>"
        and s1: "reserve_close ?now (ax_NewID x 4) ?i ?op s = Inr s1"
        and s2: "write_attempt (ax_Limits x) ?now (ax_NewID x 5) ?i ?op b s1 = Inr s'"
        using stage_placement_close[OF cls(2,1)] by metis
      note n = reserve_close_new[OF s1] and m = write_attempt_new[OF s2]
      have pend: "at_State b = ''pending''" "at_ID b = ax_NewID x 2" by (simp_all add: b)
      show ?thesis using n m[OF pend(1)] pend(2) same_books_trans by (auto simp: new_attempt_def new_reservations_def)
    next
      case cancel
      note k = stage_cancel_Inr[OF cancel]
      show ?thesis using write_attempt_new[OF k(1,4)] k(7) by (auto simp: new_reservations_def)
    qed
  qed
  then show "same_books s s'" "new_reservations ?op s s'" "db_Episodes s' = db_Episodes s" "db_Proposals s' = db_Proposals s"
    "db_Attempts s' = db_Attempts s \<and> db_Orders s' = db_Orders s \<or> (\<exists>row. new_attempt row s s' \<and> at_ID row = ax_NewID x 2)" by blast+
qed

lemma guarded_episode:
  assumes "list_all (\<lambda>(bad, _). \<not> bad) (episode_guards e)"
  shows "in_int64 (ep_TrackedQty e)" "in_int64 (ep_ExternalQty e)"
proof -
  have "ep_ControlAction e = ''cancel_order'' \<or> ep_ControlAction e = ''close_position''"
    "ep_ControlAction e = ''cancel_order'' \<longrightarrow> ep_TrackedQty e = 0 \<and> ep_ExternalQty e = 0"
    "ep_ControlAction e = ''close_position'' \<longrightarrow> 0 \<le> ep_TrackedQty e \<and> 0 \<le> ep_ExternalQty e \<and>
       AddQty (ep_TrackedQty e) (ep_ExternalQty e) = Inr (ep_RequestedQty e)"
    using assms by (auto simp: episode_guards_def)
  then have "ep_TrackedQty e = 0 \<and> ep_ExternalQty e = 0 \<or>
      0 \<le> ep_TrackedQty e \<and> 0 \<le> ep_ExternalQty e \<and> in_int64 (ep_TrackedQty e + ep_ExternalQty e)"
    by (auto simp: AddQty_iff)
  then show "in_int64 (ep_TrackedQty e)" "in_int64 (ep_ExternalQty e)"
    by (auto simp: in_int64_def)
qed

lemma write_operation_new:
  assumes "write_operation x r authority j s = Inr s'"
  shows "same_books s s'" "db_OpenReservations s' = db_OpenReservations s" "db_Attempts s' = db_Attempts s" "db_Orders s' = db_Orders s"
    "\<exists>es. db_Episodes s' = db_Episodes s @ es \<and> list_all (\<lambda>e. in_int64 (ep_TrackedQty e) \<and> in_int64 (ep_ExternalQty e)) es"
    "\<exists>p. db_Proposals s' = db_Proposals s @ [p] \<and> pp_ID p = pl_OpID r \<and>
       pp_AuthenticatedSubject p = map_option id_Subject (pl_Identity r) \<and>
       pp_IdempotencyKey p = map_option id_Key (pl_Identity r) \<and>
       pp_RequestHash p = (case pl_Identity r of None \<Rightarrow> [] | Some i \<Rightarrow> id_RequestHash i)"
proof (rule_tac [!] write_operation_Inr[OF assms])
  fix w p
  assume s': "s' = s\<lparr>db_Operations := db_Operations s @ [w], db_Proposals := db_Proposals s @ [p],
      db_Episodes := db_Episodes s', db_Grants := db_Grants s', db_Events := db_Events s'\<rparr>"
    and e: "written_episodes x r j s s'"
    and p: "pp_ID p = pl_OpID r" "pp_AuthenticatedSubject p = map_option id_Subject (pl_Identity r)"
      "pp_IdempotencyKey p = map_option id_Key (pl_Identity r)"
      "pp_RequestHash p = (case pl_Identity r of None \<Rightarrow> [] | Some i \<Rightarrow> id_RequestHash i)"
  show "same_books s s'"
    using s'[THEN arg_cong, of db_Lots] s'[THEN arg_cong, of db_Allocations] s'[THEN arg_cong, of db_ExternalReductions]
      s'[THEN arg_cong, of db_GateActive] s'[THEN arg_cong, of db_GateUnknown] s'[THEN arg_cong, of db_Bindings]
    by (simp add: same_books_def)
  show "db_OpenReservations s' = db_OpenReservations s" "db_Attempts s' = db_Attempts s" "db_Orders s' = db_Orders s"
    using s'[THEN arg_cong, of db_OpenReservations] s'[THEN arg_cong, of db_Attempts] s'[THEN arg_cong, of db_Orders] by simp_all
  show "\<exists>p. db_Proposals s' = db_Proposals s @ [p] \<and> pp_ID p = pl_OpID r \<and>
       pp_AuthenticatedSubject p = map_option id_Subject (pl_Identity r) \<and>
       pp_IdempotencyKey p = map_option id_Key (pl_Identity r) \<and>
       pp_RequestHash p = (case pl_Identity r of None \<Rightarrow> [] | Some i \<Rightarrow> id_RequestHash i)"
    using s'[THEN arg_cong, of db_Proposals] p by auto
  show "\<exists>es. db_Episodes s' = db_Episodes s @ es \<and> list_all (\<lambda>e. in_int64 (ep_TrackedQty e) \<and> in_int64 (ep_ExternalQty e)) es"
    using e guarded_episode by (auto simp: written_episodes_def split: option.splits)
qed

lemma live_ok_extend:
  assumes "live_ok s" "same_books s s'" "new_attempt row s s'" "at_ID row \<noteq> []"
  shows "live_ok s'"
proof -
  have n: "db_Attempts s' = db_Attempts s @ [row]" "at_ID row \<notin> at_ID ` set (db_Attempts s)" "at_State row = ''pending''"
    "at_SentAt row = None" "at_ReplayCount row = 0" using assms(3) by (auto simp: new_attempt_def)
  have same: "db_GateActive s' = db_GateActive s" "db_GateUnknown s' = db_GateUnknown s" "db_Bindings s' = db_Bindings s"
    using assms(2) by (simp_all add: same_books_def)
  have sends: "sends i k s' = sends i k s" for i k by (simp add: sends_def same)
  have "sb_AttemptID b \<noteq> at_ID row" if "b \<in> set (db_Bindings s)" for b
  proof -
    have "sb_AttemptID b \<in> at_ID ` set (db_Attempts s)"
      using assms(1) that by (simp add: live_ok_def bindings_ok_def list_all_iff)
    then show ?thesis using n(2) by metis
  qed
  then have none: "sends (at_ID row) k s = 0" for k by (auto simp: sends_def filter_empty_conv)
  have g: "gate_ok s'"
    using assms(1,4) n by (auto simp: live_ok_def gate_ok_def held_by_def same live_attempt_def row_ok_def)
  have "bindings_ok s'"
    using assms(1) n none by (auto simp: live_ok_def bindings_ok_def sends_recorded_def sends same list_all_iff)
  then show ?thesis using g by (simp add: live_ok_def)
qed

lemma live_ok_same:
  assumes "live_ok s" "same_books s s'" "db_Attempts s' = db_Attempts s"
  shows "live_ok s'"
proof -
  have b: "db_GateActive s' = db_GateActive s" "db_GateUnknown s' = db_GateUnknown s" "db_Bindings s' = db_Bindings s"
    using assms(2) by (simp_all add: same_books_def)
  have "held_by s' = held_by s" "sends_recorded s' = sends_recorded s"
    by (simp_all add: fun_eq_iff held_by_def sends_recorded_def sends_def b)
  then show ?thesis using assms(1) by (simp add: live_ok_def gate_ok_def bindings_ok_def b assms(3))
qed

lemma store_ok_extend:
  assumes "store_ok s" "same_books s s'" "new_reservations op s s'" "op_int64 op"
    and "\<exists>es. db_Episodes s' = db_Episodes s @ es \<and> list_all (\<lambda>e. in_int64 (ep_TrackedQty e) \<and> in_int64 (ep_ExternalQty e)) es"
  shows "store_ok s'"
  using assms by (auto simp: store_ok_def ledger_ok_def same_books_def new_reservations_def)

definition admission_ok :: "db \<Rightarrow> bool" where
  "admission_ok s \<longleftrightarrow> store_ok s \<and> live_ok s \<and> orders_refer s"

lemma admission_ok_quiet:
  assumes "admission_ok s" "quiet s s'"
  shows "admission_ok s'"
proof -
  obtain es where s': "s' = s\<lparr>db_Events := db_Events s @ es\<rparr>" using assms(2) by (auto simp: quiet_def)
  have "store_ok s'" using assms(1) by (simp add: admission_ok_def store_ok_def ledger_ok_def s')
  moreover have "live_ok s'" using assms(1) quiet_books[OF assms(2)] live_ok_same by (auto simp: admission_ok_def s')
  ultimately show ?thesis using assms(1) by (simp add: admission_ok_def orders_refer_def s')
qed

text \<open>C33: whatever the answer, an admission keeps the store's invariants: the exposure ledger and its reservations stay
  consistent, the live gate still accounts for every live attempt and every send binding, and every order belongs
  to an attempt. So what the executor and the recovery are proved to rely on is there after any number of admissions. The
  amounts of the operation are int64 values and the fresh id of the attempt is not empty.\<close>
theorem admission_keeps_invariants:
  assumes run: "propose x r op b = Inr (result, b')" and ok: "admission_ok (bk_DB b)" and fresh: "ax_NewID x 2 \<noteq> []"
    and int64: "\<And>v op' a. result = Admitted v op' a \<Longrightarrow> op_int64 op'"
  shows "admission_ok (bk_DB b')"
proof (cases result)
  case (Replayed p)
  then have "b' = b" using run by (auto simp: propose_def fresh_proposal_def admit_def split: option.splits sum.splits if_splits)
  then show ?thesis using ok by simp
next
  case Insufficient
  then have f: "fresh_proposal x r op b = Inr (Insufficient, b')"
    using run by (simp add: propose_def split: option.splits prod.splits if_splits)
  obtain authority where p: "LoadKernelPolicyAuthority (ax_Policies x) (ax_DatabaseClock x 0) (bk_DB b) = Inr authority"
    using f by (cases "LoadKernelPolicyAuthority (ax_Policies x) (ax_DatabaseClock x 0) (bk_DB b)") (simp_all add: fresh_proposal_def)
  have "judge_proposal x r op (kp_Policy authority) b = Inr (None, b')"
    using f p by (auto simp: fresh_proposal_def admit_def split: sum.splits option.splits if_splits)
  then show ?thesis using admission_ok_quiet[OF ok] judge_proposal_quiet by blast
next
  case (Admitted v op' a)
  show ?thesis
  proof (rule admitted_steps[OF run[unfolded Admitted]])
    fix authority j1 s1 s2
    assume q: "quiet (bk_DB b) s1" and w: "write_operation x r authority j1 s1 = Inr s2"
      and st: "stage_execution x r (kp_Policy authority) j1 s2 = Inr (a, bk_DB b')" and o': "jp_Operation j1 = op'"
    have ok1: "store_ok s1" "live_ok s1" "orders_refer s1" using admission_ok_quiet[OF ok q] by (simp_all add: admission_ok_def)
    note n = write_operation_new[OF w] and m = stage_execution_new[OF st, unfolded o']
    have books: "same_books s1 (bk_DB b')" using same_books_trans n(1) m(1) by blast
    have eps: "\<exists>es. db_Episodes (bk_DB b') = db_Episodes s1 @ es \<and>
        list_all (\<lambda>e. in_int64 (ep_TrackedQty e) \<and> in_int64 (ep_ExternalQty e)) es" using n(5) m(3) by simp
    have rs: "new_reservations op' s1 (bk_DB b')" using n(2) m(2) by (simp add: new_reservations_def)
    have store: "store_ok (bk_DB b')" by (rule store_ok_extend[OF ok1(1) books rs int64[OF Admitted] eps])
    have "db_Attempts (bk_DB b') = db_Attempts s1 \<and> db_Orders (bk_DB b') = db_Orders s1 \<or>
        (\<exists>row. new_attempt row s1 (bk_DB b') \<and> at_ID row = ax_NewID x 2)"
      using m(5) n(3,4) by (simp add: new_attempt_def)
    then show ?thesis
    proof
      assume "db_Attempts (bk_DB b') = db_Attempts s1 \<and> db_Orders (bk_DB b') = db_Orders s1"
      then show ?thesis using store live_ok_same[OF ok1(2) books] ok1(3) by (simp add: admission_ok_def orders_refer_def)
    next
      assume "\<exists>row. new_attempt row s1 (bk_DB b') \<and> at_ID row = ax_NewID x 2"
      then obtain row where row: "new_attempt row s1 (bk_DB b')" "at_ID row = ax_NewID x 2" by blast
      have "live_ok (bk_DB b')" by (rule live_ok_extend[OF ok1(2) books row(1)]) (simp add: row(2) fresh)
      moreover have "orders_refer (bk_DB b')" using row(1) ok1(3) by (auto simp: new_attempt_def orders_refer_def)
      ultimately show ?thesis using store by (simp add: admission_ok_def)
    qed
  qed
qed

section \<open>A sample day\<close>

definition day_length :: int where
  "day_length = 1000000000000"

definition admission_calendar :: calendar where
  "admission_calendar = \<lparr>marketDayBounds = (\<lambda>d. Inr (d * day_length, (d + 1) * day_length)),
     local_date = (\<lambda>t. Inr (t div day_length))\<rparr>"

definition admission_instrument :: instrument where
  "admission_instrument = \<lparr>i_Symbol = ''SPY'', i_InstrumentID = ''I'', i_Kind = ''equity'', i_Multiplier = 1, i_PriceTick = 10000,
     i_BelowPriceTick = 0, i_TickCutoff = 0, i_QtyIncrement = 1000000, i_Source = ''rh'', i_AsOf = 5\<rparr>"

definition admission_sample :: admission_env where
  "admission_sample = \<lparr>ax_Mode = ''live'', ax_Clock = (\<lambda>_. 1010000000000), ax_DatabaseClock = (\<lambda>_. 1010000000000),
     ax_NewID = (\<lambda>n. replicate (n + 1) CHR ''i''), ax_Calendar = admission_calendar, ax_UTCDate = (\<lambda>t. t div day_length),
     ax_Policies = sample_codec, ax_Limits = (\<lambda>_. (3, 30, 60)), ax_JSON = (\<lambda>_. ''{}''), ax_Halted = False, ax_HaltReason = [],
     ax_Account = Inr (no_account\<lparr>a_Equity := 20000000000, a_EquityKnown := True, a_BuyingPower := 5000000000\<rparr>),
     ax_Positions = Inr [], ax_Quotes = (\<lambda>_. Some sample_quote), ax_RealizedPnL = None, ax_Execution = None,
     ax_Instruments = (\<lambda>_. Some admission_instrument)\<rparr>"

definition admission_identity :: idempotency_identity where
  "admission_identity = \<lparr>id_Subject = ''ada'', id_Key = ''k1'', id_RequestHash = ''h1''\<rparr>"

definition admission_request :: proposal where
  "admission_request = \<lparr>pl_OpID = ''op1'', pl_Identity = Some admission_identity, pl_Quote = Some sample_quote,
     pl_CloseInstrument = Some admission_instrument, pl_Decision = Some (barrier_snapshot (other_order ''sell'' ''close''))\<rparr>"

definition admission_canary :: canary_revision_row where
  "admission_canary = \<lparr>cv_ID = 3, cv_DailyAuthorizedRisk = 500000000, cv_CleanDaysBeforeRaise = 3, cv_EffectiveMarketDay = 1,
     cv_RecordedAt = 20, cv_AuthorityVersion = Some 2, cv_RecordedBy = ''ada'', cv_Reason = ''start'', cv_ChangeClass = ''initial'',
     cv_RequiredAttestations = 0\<rparr>"

definition admission_day :: breaker_db where
  "admission_day = \<lparr>bk_DB = barrier_db\<lparr>db_M3A := True, db_CanaryRevisions := [admission_canary],
       db_Lots := [sample_lot ''f1'' 10 10000000 990000010],
       db_Events := db_Events barrier_db @ [\<lparr>ev_Kind = canary_kind, ev_Payload = [(''revision_id'', PInt 3),
         (''generation'', PInt 3), (''change'', PText ''initial'')], ev_TS = None\<rparr>]\<rparr>,
     bk_DayOpen = [], bk_DailyPnL = [], bk_Overrides = [],
     bk_States = [\<lparr>br_Ledger = ''live'', br_Halted = False, br_Reason = [], br_UpdatedAt = 10, br_EventID = 0\<rparr>]\<rparr>"

definition proposed_open :: operation where
  "proposed_open = sample_open\<lparr>op_Qty := 1000000, op_MaxRiskUSD := Some 101000000, op_DerivedMaxRisk := 0, op_RequiredCash := 0,
     op_ApprovedPriceCap := 0, op_WorkingPrice := 0, op_Multiplier := 0, op_QtyIncrement := 0\<rparr>"

definition proposed_close :: operation where
  "proposed_close = sample_close\<lparr>op_Qty := 3000000\<rparr>"

lemma open_admitted_sample:
  obtains v op' a b' where "propose admission_sample admission_request proposed_open admission_day = Inr (Admitted v op' (Some a), b')"
    "op_Action op' = ''open''" "\<not> op_Shadow op'" "contracted op'" "op_int64 op'"
proof -
  have "case propose admission_sample admission_request proposed_open admission_day of Inl _ \<Rightarrow> False
      | Inr (Admitted v op' (Some a), b') \<Rightarrow> op_Action op' = ''open'' \<and> \<not> op_Shadow op' \<and> contracted op' \<and> op_int64 op'
      | Inr (_, _) \<Rightarrow> False" by code_simp
  then show thesis using that by (auto split: sum.splits prod.splits admission.splits option.splits)
qed

lemma close_admitted_sample:
  obtains v op' a b' where "propose admission_sample admission_request proposed_close admission_day = Inr (Admitted v op' (Some a), b')"
    "op_Action op' = ''close''" "\<not> op_Shadow op'" "contracted op'"
proof -
  have "case propose admission_sample admission_request proposed_close admission_day of Inl _ \<Rightarrow> False
      | Inr (Admitted v op' (Some a), b') \<Rightarrow> op_Action op' = ''close'' \<and> \<not> op_Shadow op' \<and> contracted op'
      | Inr (_, _) \<Rightarrow> False" by code_simp
  then show thesis using that by (auto split: sum.splits prod.splits admission.splits option.splits)
qed

lemma sample_day_ok: "admission_ok (bk_DB admission_day)"
  by code_simp

lemma sample_ids_fresh: "ax_NewID admission_sample 2 \<noteq> []" "ax_NewID admission_sample 4 \<noteq> []" "live_mode admission_sample"
  by (simp_all add: admission_sample_def live_mode_def)

lemma sample_request_fields: "op_Action proposed_open = ''open''" "\<not> op_Shadow proposed_open" "op_Action proposed_close = ''close''"
    "\<not> op_Shadow proposed_close"
  by (simp_all add: proposed_open_def proposed_close_def sample_open_def sample_close_def)

lemma sample_window: "databaseMarketWindow admission_sample 1 =
    Inr \<lparr>mw_day = 1, mw_start = 1000000000000, mw_end = 2000000000000, mw_asOf = 1010000000000\<rparr>"
  by (simp add: databaseMarketWindow_def marketDayWindow_def admission_sample_def admission_calendar_def day_length_def)

theorem admitted_entitled_witness:
  "\<exists>v op' a b'. propose admission_sample admission_request proposed_open admission_day = Inr (Admitted v op' (Some a), b') \<and>
     (\<exists>row\<in>set (db_Attempts (bk_DB b')). at_ID row = at_ID a \<and> validateM3AExecutionEntitlement (bk_DB b') row = Inr ())"
proof (rule open_admitted_sample)
  fix v op' a b'
  assume h: "propose admission_sample admission_request proposed_open admission_day = Inr (Admitted v op' (Some a), b')" "contracted op'"
  have "orders_refer (bk_DB admission_day)" using sample_day_ok by (simp add: admission_ok_def)
  then have "\<exists>row. db_Attempts (bk_DB b') = db_Attempts (bk_DB admission_day) @ [row] \<and> at_ID row = at_ID a \<and>
      validateM3AExecutionEntitlement (bk_DB b') row = Inr ()"
    using admitted_entitled[OF h(1) _ sample_ids_fresh(2)] h(2) by blast
  then show ?thesis using h(1) by fastforce
qed

theorem open_within_limits_witness:
  "\<exists>v op' a b'. propose admission_sample admission_request proposed_open admission_day = Inr (Admitted v op' (Some a), b') \<and>
     lr_HeldCash (ledgerResources (bk_DB b') ''live'' []) \<le> 5000000000 \<and>
     countTradesForDay False 1 [] (bk_DB b') \<le> 5"
proof (rule open_admitted_sample)
  fix v op' a b'
  assume h: "propose admission_sample admission_request proposed_open admission_day = Inr (Admitted v op' (Some a), b')" "\<not> op_Shadow op'"
  obtain authority where p: "LoadKernelPolicyAuthority (ax_Policies admission_sample) (ax_DatabaseClock admission_sample 0)
      (bk_DB admission_day) = Inr authority" "kp_Policy authority = sample_policy"
  proof -
    have "case LoadKernelPolicyAuthority (ax_Policies admission_sample) (ax_DatabaseClock admission_sample 0) (bk_DB admission_day) of
        Inl _ \<Rightarrow> False | Inr r \<Rightarrow> kp_Policy r = sample_policy" by code_simp
    then show thesis using that by (auto split: sum.splits)
  qed
  have acc: "open_account admission_sample op' (kp_Policy authority) (bk_DB admission_day) =
      Inr (no_account\<lparr>a_Equity := 20000000000, a_EquityKnown := True, a_BuyingPower := 5000000000\<rparr>)"
    using h(2) by (simp add: open_account_def admission_sample_def)
  have live: "ledgerName (op_Shadow proposed_open) = ''live''" using sample_request_fields(2) by (simp add: ledgerName_def)
  have held: "lr_HeldCash (ledgerResources (bk_DB admission_day) ''live'' []) = 0" by code_simp
  have m: "MaxNewTradesPerDay (HardLimits sample_policy) = 5" by (simp add: sample_policy_def)
  have d: "ax_UTCDate admission_sample 1000000000000 = 1" by (simp add: admission_sample_def day_length_def)
  show ?thesis
    using open_within_limits[OF h(1) sample_request_fields(1) p(1) acc sample_window] h(1) sample_request_fields(2)
    unfolding live held p(2) m by (auto simp: in_int64_def d)
qed

theorem canary_cap_kept_witness:
  "\<exists>v op' a b' c. propose admission_sample admission_request proposed_open admission_day = Inr (Admitted v op' (Some a), b') \<and>
     LiveCanaryAuthority (ax_Calendar admission_sample) (ax_DatabaseClock admission_sample 4) 1 (bk_DB admission_day) = Inr c \<and>
     authorized_risk (day_grants ''live'' 1 [] (bk_DB b')) \<le> lc_DailyAuthorizedRiskCap c"
proof (rule open_admitted_sample)
  fix v op' a b'
  assume h: "propose admission_sample admission_request proposed_open admission_day = Inr (Admitted v op' (Some a), b')"
  show ?thesis
    using canary_cap_kept[OF h sample_request_fields(1) sample_ids_fresh(3) sample_request_fields(2) sample_window] h
    by (auto simp: canary_kept_def)
qed

theorem close_covered_witness:
  "\<exists>v op' a b'. propose admission_sample admission_request proposed_close admission_day = Inr (Admitted v op' (Some a), b') \<and>
     room_to_close admission_sample proposed_close (pl_Decision admission_request) op' (bk_DB admission_day)
       (held_closes (bk_DB b') ''live'' (operationSymbol proposed_close))"
proof (rule close_admitted_sample)
  fix v op' a b'
  assume h: "propose admission_sample admission_request proposed_close admission_day = Inr (Admitted v op' (Some a), b')"
  show ?thesis using close_covered[OF h sample_request_fields(3)] h sample_request_fields(4) by (auto simp: ledgerName_def)
qed

theorem admission_keeps_invariants_witness:
  "\<exists>v op' a b'. propose admission_sample admission_request proposed_open admission_day = Inr (Admitted v op' (Some a), b') \<and>
     admission_ok (bk_DB b')"
proof (rule open_admitted_sample)
  fix v op' a b'
  assume h: "propose admission_sample admission_request proposed_open admission_day = Inr (Admitted v op' (Some a), b')" "op_int64 op'"
  show ?thesis using admission_keeps_invariants[OF h(1) sample_day_ok sample_ids_fresh(1)] h by blast
qed

end
