(* ===== verification/Review.thy ===== *)
theory Review
  imports Admitted
begin

text \<open>
  The human review of a class C open: \<open>review\<close> and \<open>stageApprovedOpen\<close> in \<^verbatim>\<open>kernel/cmd/kernel/main.go\<close>, with
  \<open>WithReviewLock\<close> of \<^verbatim>\<open>store/store.go\<close>. The proposal is read, then, after the quote, locked and compared with what was
  read. It must not have expired; it is derived again on its approved terms under the policy it was bound to, and judged
  under this policy and the active one on the account of now. Then the canary and the live gate are asked and the
  execution is staged. What others do between the read and the lock is the argument \<open>between\<close>.
\<close>

section \<open>The request and its answers\<close>

definition ErrOperationNotPending :: go_error where
  "ErrOperationNotPending = Sentinel ''operation is not pending review''"

record review_request =
  rv_ID :: string
  rv_Verdict :: string
  rv_Rationale :: string
  rv_Reviewer :: string
  rv_Decode :: "string \<Rightarrow> operation option"
  rv_Quote :: "quote option"

text \<open>A conflict that rolls the transaction back and one that is committed with its event are both answered by their reason.\<close>

datatype review_outcome =
    RejectedByReviewer
  | ProposalExpired
  | ReviewConflict reason
  | Approved operation verdict execution_attempt

definition pending_review :: "db \<Rightarrow> string \<Rightarrow> operation_row option" where
  "pending_review s i = find (\<lambda>w. ow_ID w = i \<and> ow_Status w = ''pending_review'') (db_Operations s)"

definition operation_payload :: "db \<Rightarrow> string \<Rightarrow> string" where
  "operation_payload s i = (case find (\<lambda>p. pp_ID p = i) (db_Proposals s) of None \<Rightarrow> [] | Some p \<Rightarrow> pp_Payload p)"

section \<open>Rejection and expiry\<close>

definition review_reject :: "admission_env \<Rightarrow> review_request \<Rightarrow> db \<Rightarrow> db result" where
  "review_reject x v s =
     (case pending_review s (rv_ID v) of
        None \<Rightarrow> Inl ErrOperationNotPending
      | Some _ \<Rightarrow>
         (let decision = [(''reviewer'', PText (rv_Reviewer v)), (''rationale'', PText (rv_Rationale v)),
                (''decision'', PText ''rejected'')]
          in Inr (insert_event ''operation_reviewed'' ((''operation_id'', PText (rv_ID v)) # decision)
               (SetOperationStatus (rv_ID v) ''rejected'' (ax_JSON x (JReview decision)) s))))"

definition review_expired :: "operation_row \<Rightarrow> time \<Rightarrow> bool" where
  "review_expired w now \<longleftrightarrow> (case ow_ExpiresAt w of None \<Rightarrow> True | Some t \<Rightarrow> t = 0 \<or> t \<le> now)"

definition expire_review :: "admission_env \<Rightarrow> review_request \<Rightarrow> operation_row \<Rightarrow> time \<Rightarrow> db \<Rightarrow> db" where
  "expire_review x v w now s =
     (let times = [(''proposal_ts'', PInt (ow_TS w)), (''expires_at'', PInt (opt_or_zero (ow_ExpiresAt w))),
            (''reviewed_at'', PInt now)]
      in insert_event ''operation_reviewed''
           ([(''operation_id'', PText (rv_ID v)), (''reviewer'', PText (rv_Reviewer v)), (''decision'', PText ''expired'')] @ times)
           (SetOperationStatus (rv_ID v) ''expired''
              (ax_JSON x (JReview ([(''reviewer'', PText (rv_Reviewer v)), (''rationale'', PText (rv_Rationale v)),
                 (''decision'', PText ''expired'')] @ times))) s))"

section \<open>Approval\<close>

definition prepared_open :: "admission_env \<Rightarrow> review_request \<Rightarrow> operation \<Rightarrow> policy \<Rightarrow> operation" where
  "prepared_open x v persisted bound = prepareApprovedOpenWithLimits (ax_Clock x 2) (live_mode x) (ax_Execution x)
     (ax_Instruments x) persisted (rv_Quote v) bound"

definition mark_limits :: "policy \<Rightarrow> policy \<Rightarrow> policy" where
  "mark_limits bound current = current\<lparr>QuoteMaxAgeSec := minInt (QuoteMaxAgeSec bound) (QuoteMaxAgeSec current)\<rparr>"

definition gate_rejects :: "verdict \<Rightarrow> verdict \<Rightarrow> bool" where
  "gate_rejects bound current \<longleftrightarrow> Class bound = ''REJECT'' \<or> Class current = ''REJECT''"

definition conflict_reason :: "verdict \<Rightarrow> verdict \<Rightarrow> reason" where
  "conflict_reason bound current =
     (if Reasons bound \<noteq> [] \<and> Class bound = ''REJECT'' then hd (Reasons bound)
      else if Reasons current \<noteq> [] then hd (Reasons current) else Reason ''approval gate rejected'')"

text \<open>The canary and the live gate: a reason is a refusal.\<close>

definition review_canary ::
  "admission_env \<Rightarrow> string \<Rightarrow> operation \<Rightarrow> int \<Rightarrow> db \<Rightarrow> (string \<times> live_canary_revision option \<times> db) result" where
  "review_canary x i op day s =
     (if op_Shadow op then Inr ([], None, s)
      else case liveCanaryRefusal (live_mode x) (ax_Calendar x) (ax_DatabaseClock x 4) i day (op_DerivedMaxRisk op) (op_Qty op)
             (op_QtyIncrement op) s of
        Inl e \<Rightarrow> Inl e
      | Inr (reason, usage, authority) \<Rightarrow>
          if reason \<noteq> []
          then (case insertCanaryRefusalEvent i reason day (op_DerivedMaxRisk op) (op_Qty op) (op_QtyIncrement op) usage authority s of
              Inl e \<Rightarrow> Inl e | Inr s \<Rightarrow> Inr (reason, authority, s))
          else (case RequireLiveExecutionIdle True s of Inl e \<Rightarrow> Inl e | Inr _ \<Rightarrow> Inr ([], authority, s)))"

definition approved_attempt :: "admission_env \<Rightarrow> string \<Rightarrow> operation \<Rightarrow> execution_attempt" where
  "approved_attempt x opID op = (placement_attempt x opID op (op_WorkingPrice op))\<lparr>at_OpenReservationID := Some (ax_NewID x 4)\<rparr>"

definition stageApprovedOpen ::
  "admission_env \<Rightarrow> time \<Rightarrow> string \<Rightarrow> operation \<Rightarrow> int \<Rightarrow> live_canary_revision option \<Rightarrow> db \<Rightarrow> (execution_attempt \<times> db) result" where
  "stageApprovedOpen x now opID op marketDay canary s =
     (if live_mode x \<and> \<not> op_Shadow op \<and> (case canary of None \<Rightarrow> True | Some c \<Rightarrow> lc_ID c \<le> 0) then Inl ErrLiveCanaryAuthorityInvalid
      else case grant_open now opID op marketDay canary [] s of
        Inl e \<Rightarrow> Inl e
      | Inr s \<Rightarrow>
         (case reserve_open now (ax_NewID x 4) opID op marketDay s of
            Inl e \<Rightarrow> Inl e
          | Inr s \<Rightarrow>
              if op_WorkingPrice op \<le> 0 \<or> op_WorkingPrice op > op_ApprovedPriceCap op
              then Inl (Errorf ''approved working price exceeds its cap'' [])
              else (case write_attempt (ax_Limits x) now (ax_NewID x 5) opID op (approved_attempt x opID op) s of
                 Inl e \<Rightarrow> Inl e
               | Inr s \<Rightarrow> Inr (approved_attempt x opID op, s))))"

definition operationPolicyView :: "operation_row \<Rightarrow> (string \<times> payload) list" where
  "operationPolicyView w = [(''revision_id'', PInt (opt_or_zero (ow_KernelPolicyRevisionID w))),
     (''generation'', PInt (opt_or_zero (ow_KernelPolicyGeneration w))),
     (''digest'', PText (null_string (ow_KernelPolicyDigest w))), (''expires_at'', PInt (opt_or_zero (ow_ExpiresAt w)))]"

definition approval_record ::
  "admission_env \<Rightarrow> review_request \<Rightarrow> operation_row \<Rightarrow> kernel_policy_revision \<Rightarrow> market_window \<Rightarrow> operation \<Rightarrow> verdict \<Rightarrow> verdict \<Rightarrow>
     execution_attempt \<Rightarrow> (string \<times> payload) list" where
  "approval_record x v w current window op bound_verdict current_verdict a =
     [(''reviewer'', PText (rv_Reviewer v)), (''rationale'', PText (rv_Rationale v)), (''decision'', PText ''approved''),
      (''proposal_ts'', PInt (ow_TS w)), (''approved_at'', PInt (mw_asOf window)), (''market_day'', PInt (mw_day window)),
      (''quote'', PText (ax_JSON x (JQuote (rv_Quote v)))), (''bound_verdict'', PText (ax_JSON x (JVerdict bound_verdict))),
      (''current_verdict'', PText (ax_JSON x (JVerdict current_verdict))),
      (''bound_kernel_policy'', PText (ax_JSON x (JReview (operationPolicyView w)))),
      (''current_kernel_policy'', PText (ax_JSON x (JReview [(''revision_id'', PInt (kp_ID current)),
         (''generation'', PInt (kp_Generation current)), (''digest'', PText (kp_Digest current))]))),
      (''approved_price_cap'', PInt (op_ApprovedPriceCap op)), (''working_price'', PInt (op_WorkingPrice op)),
      (''derived_max_risk'', PInt (op_DerivedMaxRisk op)), (''required_cash'', PInt (op_RequiredCash op)),
      (''multiplier'', PInt (op_Multiplier op)), (''attempt_id'', PText (at_ID a)),
      (''open_reservation_id'', PText (null_string (at_OpenReservationID a)))]"

text \<open>The open has passed both policies: refuse it by the canary, or stage it and record the approval.\<close>

definition approve_staged ::
  "admission_env \<Rightarrow> review_request \<Rightarrow> operation_row \<Rightarrow> kernel_policy_revision \<Rightarrow> market_window \<Rightarrow> operation \<Rightarrow> verdict \<Rightarrow> verdict \<Rightarrow>
     db \<Rightarrow> (review_outcome \<times> db) result" where
  "approve_staged x v w current window op bound_verdict current_verdict s =
     (case review_canary x (rv_ID v) op (mw_day window) s of
        Inl e \<Rightarrow> Inl e
      | Inr (reason, authority, s) \<Rightarrow>
          if reason \<noteq> [] then Inr (ReviewConflict (Reason reason), s)
          else (case stageApprovedOpen x (ax_DatabaseClock x 5) (rv_ID v) op (mw_day window) authority s of
             Inl e \<Rightarrow> Inl e
           | Inr (a, s) \<Rightarrow>
              (let approval = ax_JSON x (JReview (approval_record x v w current window op bound_verdict current_verdict a));
                   s = insert_event ''operation_reviewed'' [(''operation_id'', PText (rv_ID v)), (''approval'', PText approval)]
                         (SetOperationStatus (rv_ID v) ''approved'' approval s)
               in case ensureMarketDay x 6 window of
                    Inl e \<Rightarrow> Inl e
                  | Inr _ \<Rightarrow> Inr (Approved op current_verdict a, s))))"

definition approve_open ::
  "admission_env \<Rightarrow> review_request \<Rightarrow> operation_row \<Rightarrow> kernel_policy_revision \<Rightarrow> policy \<Rightarrow> operation \<Rightarrow> breaker_db \<Rightarrow>
     (review_outcome \<times> breaker_db) result" where
  "approve_open x v w current bound op b =
     (case open_account x op (mark_limits bound (kp_Policy current)) (bk_DB b) of
        Inl e \<Rightarrow> Inl e
      | Inr account \<Rightarrow>
         (case databaseMarketWindow x 1 of
            Inl e \<Rightarrow> Inl e
          | Inr window \<Rightarrow>
             (case dayStateAtAccountWithLimits x 2 (op_Shadow op) account window (kp_Policy current) b of
                Inl e \<Rightarrow> Inl e
              | Inr (day, b1) \<Rightarrow>
                 (let bound_verdict = ClassifyAt op bound day (rv_Quote v) (ax_Clock x 3);
                      current_verdict = ClassifyAt op (kp_Policy current) day (rv_Quote v) (ax_Clock x 7)
                  in if gate_rejects bound_verdict current_verdict
                     then Inr (ReviewConflict (conflict_reason bound_verdict current_verdict), b)
                     else (case approve_staged x v w current window op bound_verdict current_verdict (bk_DB b1) of
                        Inl e \<Rightarrow> Inl e
                      | Inr (outcome, s) \<Rightarrow> Inr (outcome, b1\<lparr>bk_DB := s\<rparr>))))))"

definition approve ::
  "admission_env \<Rightarrow> review_request \<Rightarrow> string \<Rightarrow> operation \<Rightarrow> breaker_db \<Rightarrow> (review_outcome \<times> breaker_db) result" where
  "approve x v payload persisted b =
     (case pending_review (bk_DB b) (rv_ID v) of
        None \<Rightarrow> Inl ErrOperationNotPending
      | Some w \<Rightarrow>
          if operation_payload (bk_DB b) (rv_ID v) \<noteq> payload
          then Inr (ReviewConflict (Reason ''approval_snapshot_mismatch''), b)
          else (case LoadKernelPolicyAuthority (ax_Policies x) (ax_DatabaseClock x 0) (bk_DB b) of
             Inl e \<Rightarrow> Inl e
           | Inr current \<Rightarrow>
              (case BoundKernelPolicy (ax_Policies x) (ax_DatabaseClock x 7) (Some w) (bk_DB b) of
                 Inl e \<Rightarrow> Inl e
               | Inr bound \<Rightarrow>
                   if review_expired w (ax_DatabaseClock x 8)
                   then Inr (ProposalExpired, b\<lparr>bk_DB := expire_review x v w (ax_DatabaseClock x 8) (bk_DB b)\<rparr>)
                   else approve_open x v w current (kp_Policy bound) (prepared_open x v persisted (kp_Policy bound)) b)))"

definition review :: "admission_env \<Rightarrow> review_request \<Rightarrow> (breaker_db \<Rightarrow> breaker_db) \<Rightarrow> breaker_db \<Rightarrow> (review_outcome \<times> breaker_db) result" where
  "review x v between b =
     (if \<not> validUUID (rv_ID v) then Inl (Errorf ''id must be a UUID'' [])
      else if rv_Verdict v \<noteq> ''approved'' \<and> rv_Verdict v \<noteq> ''rejected''
      then Inl (Errorf ''verdict must be approved or rejected'' [])
      else case find (\<lambda>w. ow_ID w = rv_ID v) (db_Operations (bk_DB b)) of
        None \<Rightarrow> Inl ErrOperationNotPending
      | Some w \<Rightarrow>
          if ow_Status w \<noteq> ''pending_review'' then Inl ErrOperationNotPending
          else if rv_Verdict v = ''rejected''
          then (case review_reject x v (bk_DB (between b)) of
              Inl e \<Rightarrow> Inl e | Inr s \<Rightarrow> Inr (RejectedByReviewer, (between b)\<lparr>bk_DB := s\<rparr>))
          else (case rv_Decode v (operation_payload (bk_DB b) (rv_ID v)) of
              None \<Rightarrow> Inl (Errorf ''operation is not an approvable Class-C open'' [])
            | Some persisted \<Rightarrow>
                if op_Action persisted \<noteq> ''open'' \<or> ow_Class w \<noteq> ''C''
                then Inl (Errorf ''operation is not an approvable Class-C open'' [])
                else approve x v (operation_payload (bk_DB b) (rv_ID v)) persisted (between b)))"

section \<open>What an approval went through\<close>

lemma approve_staged_Approved:
  assumes "approve_staged x v w current window op bv cv s = Inr (Approved op' cv' a, s')"
  obtains authority s1 s2 approval where "review_canary x (rv_ID v) op (mw_day window) s = Inr ([], authority, s1)"
    "stageApprovedOpen x (ax_DatabaseClock x 5) (rv_ID v) op (mw_day window) authority s1 = Inr (a, s2)"
    "s' = insert_event ''operation_reviewed'' [(''operation_id'', PText (rv_ID v)), (''approval'', PText approval)]
       (SetOperationStatus (rv_ID v) ''approved'' approval s2)" "op' = op" "cv' = cv"
proof -
  obtain reason authority s1 where c: "review_canary x (rv_ID v) op (mw_day window) s = Inr (reason, authority, s1)"
    using assms by (cases "review_canary x (rv_ID v) op (mw_day window) s") (auto simp: approve_staged_def)
  have none: "reason = []" using assms c by (auto simp: approve_staged_def split: if_splits)
  obtain a' s2 where st: "stageApprovedOpen x (ax_DatabaseClock x 5) (rv_ID v) op (mw_day window) authority s1 = Inr (a', s2)"
    using assms c none by (cases "stageApprovedOpen x (ax_DatabaseClock x 5) (rv_ID v) op (mw_day window) authority s1")
      (auto simp: approve_staged_def)
  show ?thesis
    by (rule that[OF c[unfolded none] _ _]) (use assms c none st in \<open>auto simp: approve_staged_def Let_def split: sum.splits\<close>)
qed

lemma review_canary_none:
  assumes "review_canary x i op d s = Inr ([], authority, s')"
  shows "s' = s" "op_Shadow op \<Longrightarrow> authority = None" "\<not> op_Shadow op \<Longrightarrow> RequireLiveExecutionIdle True s = Inr ()"
    "\<not> op_Shadow op \<Longrightarrow> \<exists>usage. liveCanaryRefusal (live_mode x) (ax_Calendar x) (ax_DatabaseClock x 4) i d
       (op_DerivedMaxRisk op) (op_Qty op) (op_QtyIncrement op) s = Inr ([], usage, authority)"
  using assms by (auto simp: review_canary_def split: if_splits sum.splits)

lemma stageApprovedOpen_Inr:
  assumes "stageApprovedOpen x now i op d canary s = Inr (a, s')"
  obtains s1 s2 where "grant_open now i op d canary [] s = Inr s1" "reserve_open now (ax_NewID x 4) i op d s1 = Inr s2"
    "0 < op_WorkingPrice op" "op_WorkingPrice op \<le> op_ApprovedPriceCap op" "a = approved_attempt x i op"
    "write_attempt (ax_Limits x) now (ax_NewID x 5) i op a s2 = Inr s'"
    "live_mode x \<Longrightarrow> \<not> op_Shadow op \<Longrightarrow> \<exists>c. canary = Some c \<and> 0 < lc_ID c"
  using assms by (auto simp: stageApprovedOpen_def split: if_splits sum.splits option.splits)

lemma not_rejected:
  assumes "\<not> gate_rejects (ClassifyAt op bound day q n1) (ClassifyAt op current day q n2)" "op_Action op = ''open''"
  shows "admissible op bound day q n1" "admissible op current day q n2"
proof -
  have "Class (ClassifyAt op p day q n) \<noteq> ''REJECT'' \<Longrightarrow> admissible op p day q n" for p n
    using assms(2) by (cases "absolute_reject op p day q n")
      (simp_all add: ClassifyAt_def classify_open_def absolute_reject_None)
  then show "admissible op bound day q n1" "admissible op current day q n2" using assms(1) by (auto simp: gate_rejects_def)
qed

lemma prepared_terms:
  assumes "op = prepared_open x v persisted bound" "op_RejectReason op = []"
  shows "order_core op = order_core persisted" "op_ApprovedPriceCap op = op_ApprovedPriceCap persisted"
    "op_Multiplier op = op_Multiplier persisted" "op_RequiredCash op = op_RequiredCash persisted"
    "op_DerivedMaxRisk op = op_DerivedMaxRisk persisted" "op_QtyIncrement op = op_QtyIncrement persisted"
  using prepared_keeps_approval[of "ax_Clock x 2" "live_mode x" "ax_Execution x" "ax_Instruments x" persisted "rv_Quote v" bound] assms
  by (simp_all add: prepared_open_def Let_def)

lemma prepared_core: "order_core (prepared_open x v persisted bound) = order_core persisted"
proof -
  define d where "d = deriveOpenOperationWithLimits (ax_Clock x 2) (live_mode x) (ax_Execution x) (ax_Instruments x)
      (persisted\<lparr>op_Limit := Some (op_ApprovedPriceCap persisted), op_RejectReason := []\<rparr>) (rv_Quote v) bound"
  have "order_core d = order_core (persisted\<lparr>op_Limit := Some (op_ApprovedPriceCap persisted)\<rparr>)"
    using derive_open_core unfolding d_def by (simp add: order_core_def)
  then have "order_core (d\<lparr>op_Limit := op_Limit persisted\<rparr>) = order_core persisted"
    "\<And>w. order_core (d\<lparr>op_Limit := op_Limit persisted, op_WorkingPrice := w\<rparr>) = order_core persisted"
    "\<And>t. order_core (d\<lparr>op_Limit := op_Limit persisted, op_RejectReason := t\<rparr>) = order_core persisted"
    "\<And>w t. order_core (d\<lparr>op_Limit := op_Limit persisted, op_WorkingPrice := w, op_RejectReason := t\<rparr>) = order_core persisted"
    by (simp_all add: order_core_def)
  then show ?thesis
    unfolding prepared_open_def prepareApprovedOpenWithLimits_def Let_def d_def[symmetric] by (auto split: if_splits)
qed

text \<open>A day that is not halted: the breaker of the ledger, as the evaluation has left it, is not tripped.\<close>

lemma dayState_breaker:
  assumes run: "dayStateAtAccountWithLimits x n shadow account window limits b = Inr (day, b')" and free: "\<not> Halted day"
  shows "\<exists>st. one_row (\<lambda>r. br_Ledger r = ledgerName shadow) (bk_States b') = Inr st \<and> \<not> br_Halted st"
proof -
  obtain c pnl k where k: "EvaluateDayRisk (ax_Calendar x) (day_input window (ledgerName shadow) pnl limits) c = Inr (k, b')"
      and day: "Halted day = (ax_Halted x \<or> dk_Halted k)"
    using run unfolding dayStateAtAccountWithLimits_def Let_def
    by (auto simp: case_sum_Inr_iff day_state_of_def)
  show ?thesis by (rule evaluate_effect[OF k]) (use free day in \<open>auto simp: day_input_def\<close>)
qed

lemma approve_open_Approved:
  assumes run: "approve_open x v w current bound op b = Inr (Approved op' cv a, b')" and act: "op_Action op = ''open''"
  obtains account window day power k authority s2 approval and b1 :: breaker_db where
    "open_account x op (mark_limits bound (kp_Policy current)) (bk_DB b) = Inr account" "databaseMarketWindow x 1 = Inr window"
    "spendableBuyingPower (a_BuyingPower account) (lr_HeldCash (ledgerResources (bk_DB b) (ledgerName (op_Shadow op)) [])) = Inr power"
    "day = day_state_of (countTradesForDay (op_Shadow op) (ax_UTCDate x (mw_start window)) [] (bk_DB b))
       (ledgerResources (bk_DB b) (ledgerName (op_Shadow op)) []) power account (ax_Halted x) (ax_HaltReason x) k"
    "admissible op bound day (rv_Quote v) (ax_Clock x 3)" "admissible op (kp_Policy current) day (rv_Quote v) (ax_Clock x 7)"
    "quiet (bk_DB b) (bk_DB b1)"
    "review_canary x (rv_ID v) op (mw_day window) (bk_DB b1) = Inr ([], authority, bk_DB b1)"
    "stageApprovedOpen x (ax_DatabaseClock x 5) (rv_ID v) op (mw_day window) authority (bk_DB b1) = Inr (a, s2)"
    "bk_DB b' = insert_event ''operation_reviewed'' [(''operation_id'', PText (rv_ID v)), (''approval'', PText approval)]
       (SetOperationStatus (rv_ID v) ''approved'' approval s2)" "op' = op"
    "\<exists>st. one_row (\<lambda>r. br_Ledger r = ledgerName (op_Shadow op)) (bk_States b') = Inr st \<and> \<not> br_Halted st"
proof -
  obtain account where a: "open_account x op (mark_limits bound (kp_Policy current)) (bk_DB b) = Inr account"
    using run by (cases "open_account x op (mark_limits bound (kp_Policy current)) (bk_DB b)") (simp_all add: approve_open_def)
  obtain window where w: "databaseMarketWindow x 1 = Inr window"
    using run a by (cases "databaseMarketWindow x 1") (simp_all add: approve_open_def)
  obtain day b1 where d: "dayStateAtAccountWithLimits x 2 (op_Shadow op) account window (kp_Policy current) b = Inr (day, b1)"
    using run a w by (cases "dayStateAtAccountWithLimits x 2 (op_Shadow op) account window (kp_Policy current) b")
      (auto simp: approve_open_def)
  let ?bv = "ClassifyAt op bound day (rv_Quote v) (ax_Clock x 3)"
    and ?cv = "ClassifyAt op (kp_Policy current) day (rv_Quote v) (ax_Clock x 7)"
  have g: "\<not> gate_rejects ?bv ?cv" using run a w d by (auto simp: approve_open_def Let_def)
  obtain s where s: "approve_staged x v w current window op ?bv ?cv (bk_DB b1) = Inr (Approved op' cv a, s)" "b' = b1\<lparr>bk_DB := s\<rparr>"
    using run a w d g by (auto simp: approve_open_def Let_def split: sum.splits)
  obtain authority s1 s2 approval where c: "review_canary x (rv_ID v) op (mw_day window) (bk_DB b1) = Inr ([], authority, s1)"
    and st: "stageApprovedOpen x (ax_DatabaseClock x 5) (rv_ID v) op (mw_day window) authority s1 = Inr (a, s2)"
    and s': "s = insert_event ''operation_reviewed'' [(''operation_id'', PText (rv_ID v)), (''approval'', PText approval)]
       (SetOperationStatus (rv_ID v) ''approved'' approval s2)" and op': "op' = op"
    by (rule approve_staged_Approved[OF s(1)])
  have s1: "s1 = bk_DB b1" by (rule review_canary_none(1)[OF c])
  obtain power k where q: "quiet (bk_DB b) (bk_DB b1)"
    and pw: "spendableBuyingPower (a_BuyingPower account) (lr_HeldCash (ledgerResources (bk_DB b) (ledgerName (op_Shadow op)) [])) = Inr power"
    and dd: "day = day_state_of (countTradesForDay (op_Shadow op) (ax_UTCDate x (mw_start window)) [] (bk_DB b))
       (ledgerResources (bk_DB b) (ledgerName (op_Shadow op)) []) power account (ax_Halted x) (ax_HaltReason x) k"
    by (rule dayState_Inr[OF d])
  have b': "bk_DB b' = insert_event ''operation_reviewed'' [(''operation_id'', PText (rv_ID v)), (''approval'', PText approval)]
       (SetOperationStatus (rv_ID v) ''approved'' approval s2)" by (simp add: s(2) s')
  show ?thesis
    by (rule that[OF a w pw dd not_rejected[OF g act] q c[unfolded s1] st[unfolded s1] b' op'])
      (use dayState_breaker[OF d] not_rejected(1)[OF g act] s(2) in \<open>simp add: admissible_def\<close>)
qed

lemma review_Approved:
  assumes "review x v between b = Inr (Approved op cv a, b')"
  obtains persisted w current bound where "rv_Decode v (operation_payload (bk_DB (between b)) (rv_ID v)) = Some persisted"
    "operation_payload (bk_DB b) (rv_ID v) = operation_payload (bk_DB (between b)) (rv_ID v)"
    "op_Action persisted = ''open''" "pending_review (bk_DB (between b)) (rv_ID v) = Some w"
    "LoadKernelPolicyAuthority (ax_Policies x) (ax_DatabaseClock x 0) (bk_DB (between b)) = Inr current"
    "BoundKernelPolicy (ax_Policies x) (ax_DatabaseClock x 7) (Some w) (bk_DB (between b)) = Inr bound"
    "\<not> review_expired w (ax_DatabaseClock x 8)"
    "approve_open x v w current (kp_Policy bound) (prepared_open x v persisted (kp_Policy bound)) (between b) = Inr (Approved op cv a, b')"
proof -
  obtain payload persisted where r: "rv_Decode v payload = Some persisted" "op_Action persisted = ''open''"
      "approve x v payload persisted (between b) = Inr (Approved op cv a, b')" "operation_payload (bk_DB b) (rv_ID v) = payload"
    using assms by (auto simp: review_def split: if_splits option.splits sum.splits)
  obtain w where w: "pending_review (bk_DB (between b)) (rv_ID v) = Some w"
      "operation_payload (bk_DB (between b)) (rv_ID v) = payload"
    using r(3) by (auto simp: approve_def split: option.splits if_splits)
  obtain current where c: "LoadKernelPolicyAuthority (ax_Policies x) (ax_DatabaseClock x 0) (bk_DB (between b)) = Inr current"
    using r(3) w by (cases "LoadKernelPolicyAuthority (ax_Policies x) (ax_DatabaseClock x 0) (bk_DB (between b))") (simp_all add: approve_def)
  obtain bound where bd: "BoundKernelPolicy (ax_Policies x) (ax_DatabaseClock x 7) (Some w) (bk_DB (between b)) = Inr bound"
    using r(3) w c by (cases "BoundKernelPolicy (ax_Policies x) (ax_DatabaseClock x 7) (Some w) (bk_DB (between b))") (simp_all add: approve_def)
  show ?thesis
    by (rule that[OF _ _ r(2) w(1) c bd]) (use r w c bd in \<open>auto simp: approve_def split: if_splits\<close>)
qed

section \<open>What an approval leaves behind\<close>

text \<open>The last writes change the status and the verdict of the operation, and no row an execution needs.\<close>

lemma reviewed_frame:
  assumes s': "s' = insert_event kind p (SetOperationStatus i status verdict s)"
  shows "db_Grants s' = db_Grants s" "db_OpenReservations s' = db_OpenReservations s" "db_Attempts s' = db_Attempts s"
    "db_Lots s' = db_Lots s" "db_M3A s' = db_M3A s" "db_M3AActivatedAt s' = db_M3AActivatedAt s"
    "find (\<lambda>w. ow_ID w = k) (db_Operations s') =
       map_option (\<lambda>w. if ow_ID w = i then w\<lparr>ow_Status := status\<rparr> else w) (find (\<lambda>w. ow_ID w = k) (db_Operations s))"
  by (simp_all add: s' insert_event_def SetOperationStatus_def set_operation_status_def find_update_key[of ow_ID])

lemma reviewed_entitlement:
  "validateM3AExecutionEntitlement (insert_event kind p (SetOperationStatus i status verdict s)) a = validateM3AExecutionEntitlement s a"
proof -
  let ?t = "insert_event kind p (SetOperationStatus i status verdict s)"
  note frame = insert_event_def SetOperationStatus_def set_operation_status_def
  have same: "replacementOrderRemaining ?t = replacementOrderRemaining s" by (intro ext) (simp add: replacementOrderRemaining_def attempt_filled_def order_filled_def frame)
  have "db_OpenReservations ?t = db_OpenReservations s" "db_CloseReservations ?t = db_CloseReservations s" "db_Grants ?t = db_Grants s"
    "db_Orders ?t = db_Orders s"
    by (simp_all add: frame)
  then have parts: "cancel_entitlement ?t a act = cancel_entitlement s a act" "open_entitlement ?t a ord = open_entitlement s a ord"
    "close_entitlement ?t a side ord = close_entitlement s a side ord" for act side ord
    by (simp_all only: cancel_entitlement_def open_entitlement_def close_entitlement_def same)
  have rows: "db_M3A ?t = db_M3A s" "db_Orders ?t = db_Orders s"
    by (simp_all add: insert_event_def SetOperationStatus_def set_operation_status_def)
  show ?thesis
  proof (cases "find (\<lambda>w. ow_ID w = at_OperationID a) (db_Operations s)")
    case None
    then show ?thesis by (simp add: validateM3AExecutionEntitlement_def one_row_def reviewed_frame(7)[OF refl] rows)
  next
    case (Some w)
    then show ?thesis by (simp add: validateM3AExecutionEntitlement_def one_row_def reviewed_frame(7)[OF refl] rows parts
      split: option.split)
  qed
qed

lemma staged_open:
  assumes "stageApprovedOpen x now i op d canary s = Inr (a, s')"
  obtains g res where "db_Grants s' = db_Grants s @ [g]" "granted i op d canary g" "i \<notin> tg_OperationID ` set (db_Grants s)"
    "db_OpenReservations s' = db_OpenReservations s @ [res]" "rs_Ledger res = ledgerName (op_Shadow op)"
    "rs_RemainingRisk res = op_DerivedMaxRisk op" "rs_RemainingCash res = op_RequiredCash op" "db_Lots s' = db_Lots s"
    "db_M3A s' = db_M3A s" "db_M3AActivatedAt s' = db_M3AActivatedAt s"
proof (rule stageApprovedOpen_Inr[OF assms], erule grant_open_Inr, erule reserve_open_Inr, erule write_attempt_Inr)
  fix s1 s2 g res w
  assume s1: "s1 = s\<lparr>db_Grants := db_Grants s @ [g], db_Events := db_Events s1\<rparr>"
    and g: "tg_OperationID g = i" "tg_Ledger g = ledgerName (op_Shadow op)" "tg_MarketDay g = d" "tg_AuthorizedRisk g = op_DerivedMaxRisk op"
    "tg_RiskSource g = ''computed''" "0 < op_DerivedMaxRisk op" "i \<notin> tg_OperationID ` set (db_Grants s)"
    "tg_LiveCanaryRevisionID g = (case canary of None \<Rightarrow> 0 | Some r \<Rightarrow> max 0 (lc_ID r))"
    and s2: "s2 = s1\<lparr>db_OpenReservations := db_OpenReservations s1 @ [res], db_Events := db_Events s2\<rparr>"
    and r: "rs_Ledger res = ledgerName (op_Shadow op)" "rs_RemainingRisk res = op_DerivedMaxRisk op" "rs_RemainingCash res = op_RequiredCash op"
    and s': "s' = s2\<lparr>db_Attempts := db_Attempts s2 @ [attempt_row (ax_Limits x) now s2 w a], db_Orders := db_Orders s', db_Events := db_Events s'\<rparr>"
  note e = s'[THEN arg_cong, of db_Grants] s'[THEN arg_cong, of db_OpenReservations] s'[THEN arg_cong, of db_Lots]
    s'[THEN arg_cong, of db_M3A] s'[THEN arg_cong, of db_M3AActivatedAt]
    s2[THEN arg_cong, of db_Grants] s2[THEN arg_cong, of db_OpenReservations] s2[THEN arg_cong, of db_Lots]
    s2[THEN arg_cong, of db_M3A] s2[THEN arg_cong, of db_M3AActivatedAt]
    s1[THEN arg_cong, of db_Grants] s1[THEN arg_cong, of db_OpenReservations] s1[THEN arg_cong, of db_Lots]
    s1[THEN arg_cong, of db_M3A] s1[THEN arg_cong, of db_M3AActivatedAt]
  show thesis by (rule that[where g = g and res = res]) (use e g r in \<open>simp_all add: granted_def\<close>)
qed

lemma staged_open_entitled:
  assumes st: "stageApprovedOpen x now i op d canary s = Inr (a, s')" and ok: "orders_refer s" "executable op" "op_Action op = ''open''"
      "ax_NewID x 4 \<noteq> []" and w: "find (\<lambda>w. ow_ID w = i) (db_Operations s) = Some w" "ow_Action w = ''open''"
  shows "find (\<lambda>w. ow_ID w = i) (db_Operations s') = Some w \<and> (\<exists>row. db_Attempts s' = db_Attempts s @ [row] \<and> at_ID row = at_ID a \<and>
    at_OperationID row = i \<and> at_State row = ''pending'' \<and> validateM3AExecutionEntitlement s' row = Inr ())"
proof (rule stageApprovedOpen_Inr[OF st])
  fix s1 s2
  assume g: "grant_open now i op d canary [] s = Inr s1" and r: "reserve_open now (ax_NewID x 4) i op d s1 = Inr s2"
    and a: "a = approved_attempt x i op" and wr: "write_attempt (ax_Limits x) now (ax_NewID x 5) i op a s2 = Inr s'"
  obtain gr where s1: "s1 = s\<lparr>db_Grants := db_Grants s @ [gr], db_Events := db_Events s1\<rparr>" and gd: "granted i op d canary gr"
    and fresh: "i \<notin> tg_OperationID ` set (db_Grants s)"
    by (rule grant_open_Inr[OF g]) (simp add: granted_def)
  have t1: "db_Operations s1 = db_Operations s" "db_Orders s1 = db_Orders s" "db_Attempts s1 = db_Attempts s" "db_Grants s1 = db_Grants s @ [gr]"
    using s1[THEN arg_cong, of db_Operations] s1[THEN arg_cong, of db_Orders] s1[THEN arg_cong, of db_Attempts]
      s1[THEN arg_cong, of db_Grants] by simp_all
  have fg: "find (\<lambda>g. tg_OperationID g = i) (db_Grants s1) = Some gr"
    using find_fresh[OF fresh, of gr] gd t1(4) by (simp add: granted_def)
  have ops: "db_Operations s2 = db_Operations s1" by (rule reserve_open_Inr[OF r]) (drule arg_cong[of s2 _ db_Operations], simp)
  have ops': "db_Operations s' = db_Operations s2" by (rule write_attempt_Inr[OF wr]) (drule arg_cong[of s' _ db_Operations], simp)
  have at: "at_OperationID a = i" "at_Seq a = 1" "at_Intent a = (if op_Shadow op then ''paper_place'' else ''place'')"
    "at_OpenReservationID a = Some (ax_NewID x 4)" "at_CloseReservationID a = None" "at_Qty a = op_Qty op" "at_State a = ''pending''"
    by (simp_all add: a approved_attempt_def)
  have refer: "orders_refer s1" using ok(1) t1 by (simp add: orders_refer_def)
  show ?thesis
    by (rule entitled_open[OF r wr at(1-6) w(1)[folded t1(1)] w(2) fg gd refer ok(2,3,4)]) (use w ops ops' t1 at(7) in auto)
qed

text \<open>Everything an approval has passed and written.\<close>

lemma approved_steps:
  fixes between :: "breaker_db \<Rightarrow> breaker_db"
  assumes run: "review x v between b = Inr (Approved op cv a, b')"
  defines "s \<equiv> bk_DB (between b)"
  obtains persisted w current bound account window day power k t authority s2 approval where
    "rv_Decode v (operation_payload s (rv_ID v)) = Some persisted" "operation_payload (bk_DB b) (rv_ID v) = operation_payload s (rv_ID v)"
    "pending_review s (rv_ID v) = Some w"
    "LoadKernelPolicyAuthority (ax_Policies x) (ax_DatabaseClock x 0) s = Inr current"
    "BoundKernelPolicy (ax_Policies x) (ax_DatabaseClock x 7) (Some w) s = Inr bound" "\<not> review_expired w (ax_DatabaseClock x 8)"
    "op = prepared_open x v persisted (kp_Policy bound)" "op_Action op = ''open''"
    "open_account x op (mark_limits (kp_Policy bound) (kp_Policy current)) s = Inr account" "databaseMarketWindow x 1 = Inr window"
    "spendableBuyingPower (a_BuyingPower account) (lr_HeldCash (ledgerResources s (ledgerName (op_Shadow op)) [])) = Inr power"
    "day = day_state_of (countTradesForDay (op_Shadow op) (ax_UTCDate x (mw_start window)) [] s)
       (ledgerResources s (ledgerName (op_Shadow op)) []) power account (ax_Halted x) (ax_HaltReason x) k"
    "admissible op (kp_Policy bound) day (rv_Quote v) (ax_Clock x 3)" "admissible op (kp_Policy current) day (rv_Quote v) (ax_Clock x 7)"
    "quiet s t" "review_canary x (rv_ID v) op (mw_day window) t = Inr ([], authority, t)"
    "stageApprovedOpen x (ax_DatabaseClock x 5) (rv_ID v) op (mw_day window) authority t = Inr (a, s2)"
    "bk_DB b' = insert_event ''operation_reviewed'' [(''operation_id'', PText (rv_ID v)), (''approval'', PText approval)]
       (SetOperationStatus (rv_ID v) ''approved'' approval s2)"
    "\<exists>st. one_row (\<lambda>r. br_Ledger r = ledgerName (op_Shadow op)) (bk_States b') = Inr st \<and> \<not> br_Halted st"
proof (rule review_Approved[OF run], fold s_def)
  fix persisted w current bound
  assume r: "rv_Decode v (operation_payload s (rv_ID v)) = Some persisted" "operation_payload (bk_DB b) (rv_ID v) = operation_payload s (rv_ID v)"
    "pending_review s (rv_ID v) = Some w"
    "LoadKernelPolicyAuthority (ax_Policies x) (ax_DatabaseClock x 0) s = Inr current"
    "BoundKernelPolicy (ax_Policies x) (ax_DatabaseClock x 7) (Some w) s = Inr bound" "\<not> review_expired w (ax_DatabaseClock x 8)"
    and act: "op_Action persisted = ''open''"
    and o': "approve_open x v w current (kp_Policy bound) (prepared_open x v persisted (kp_Policy bound)) (between b) =
      Inr (Approved op cv a, b')"
  have open': "op_Action (prepared_open x v persisted (kp_Policy bound)) = ''open''"
    using order_core_eqD(7)[OF prepared_core] act by simp
  show thesis
  proof (rule approve_open_Approved[OF o' open', folded s_def])
    fix account window day power k authority s2 approval and b1 :: breaker_db
    assume h: "open_account x (prepared_open x v persisted (kp_Policy bound)) (mark_limits (kp_Policy bound) (kp_Policy current)) s = Inr account"
      "databaseMarketWindow x 1 = Inr window"
      "spendableBuyingPower (a_BuyingPower account)
        (lr_HeldCash (ledgerResources s (ledgerName (op_Shadow (prepared_open x v persisted (kp_Policy bound)))) [])) = Inr power"
      "day = day_state_of (countTradesForDay (op_Shadow (prepared_open x v persisted (kp_Policy bound))) (ax_UTCDate x (mw_start window)) [] s)
        (ledgerResources s (ledgerName (op_Shadow (prepared_open x v persisted (kp_Policy bound)))) []) power account (ax_Halted x)
        (ax_HaltReason x) k"
      "admissible (prepared_open x v persisted (kp_Policy bound)) (kp_Policy bound) day (rv_Quote v) (ax_Clock x 3)"
      "admissible (prepared_open x v persisted (kp_Policy bound)) (kp_Policy current) day (rv_Quote v) (ax_Clock x 7)"
      "quiet s (bk_DB b1)"
      "review_canary x (rv_ID v) (prepared_open x v persisted (kp_Policy bound)) (mw_day window) (bk_DB b1) = Inr ([], authority, bk_DB b1)"
      "stageApprovedOpen x (ax_DatabaseClock x 5) (rv_ID v) (prepared_open x v persisted (kp_Policy bound)) (mw_day window) authority
        (bk_DB b1) = Inr (a, s2)"
      "bk_DB b' = insert_event ''operation_reviewed'' [(''operation_id'', PText (rv_ID v)), (''approval'', PText approval)]
        (SetOperationStatus (rv_ID v) ''approved'' approval s2)"
      and same: "op = prepared_open x v persisted (kp_Policy bound)"
      and free: "\<exists>st. one_row (\<lambda>r. br_Ledger r = ledgerName (op_Shadow (prepared_open x v persisted (kp_Policy bound)))) (bk_States b') = Inr st \<and>
        \<not> br_Halted st"
    show thesis by (rule that[OF r same _ h[folded same] free[folded same]]) (simp add: open' same)
  qed
qed

text \<open>C29: an approval is of what was proposed. When a review approves, the payload read before the lock is still the stored
  one, the operation was pending and had not expired; the approved order has its instrument, side, quantity and ledger, and its
  price cap, multiplier, cash, risk and quantity increment are those of the proposal; and the attempt is
  for that quantity at the working price, which is positive and at most the proposed cap.\<close>
theorem approved_terms:
  assumes "review x v between b = Inr (Approved op cv a, b')"
  shows "\<exists>persisted w. rv_Decode v (operation_payload (bk_DB (between b)) (rv_ID v)) = Some persisted \<and>
    operation_payload (bk_DB b) (rv_ID v) = operation_payload (bk_DB (between b)) (rv_ID v) \<and>
    pending_review (bk_DB (between b)) (rv_ID v) = Some w \<and> \<not> review_expired w (ax_DatabaseClock x 8) \<and>
    order_core op = order_core persisted \<and> op_ApprovedPriceCap op = op_ApprovedPriceCap persisted \<and>
    op_Multiplier op = op_Multiplier persisted \<and> op_RequiredCash op = op_RequiredCash persisted \<and>
    op_DerivedMaxRisk op = op_DerivedMaxRisk persisted \<and> op_QtyIncrement op = op_QtyIncrement persisted \<and>
    at_OperationID a = rv_ID v \<and> at_Qty a = op_Qty persisted \<and> at_Limit a = op_WorkingPrice op \<and>
    0 < op_WorkingPrice op \<and> op_WorkingPrice op \<le> op_ApprovedPriceCap persisted"
proof (rule approved_steps[OF assms])
  fix persisted w current bound account window day power k t authority s2 approval
  assume r: "rv_Decode v (operation_payload (bk_DB (between b)) (rv_ID v)) = Some persisted"
    "operation_payload (bk_DB b) (rv_ID v) = operation_payload (bk_DB (between b)) (rv_ID v)"
    "pending_review (bk_DB (between b)) (rv_ID v) = Some w" "\<not> review_expired w (ax_DatabaseClock x 8)"
    and op: "op = prepared_open x v persisted (kp_Policy bound)"
    and ok: "admissible op (kp_Policy bound) day (rv_Quote v) (ax_Clock x 3)"
    and st: "stageApprovedOpen x (ax_DatabaseClock x 5) (rv_ID v) op (mw_day window) authority t = Inr (a, s2)"
  have terms: "op_RejectReason op = []" using ok by (simp add: admissible_def)
  note terms = prepared_terms[OF op terms]
  have "a = approved_attempt x (rv_ID v) op" "0 < op_WorkingPrice op" "op_WorkingPrice op \<le> op_ApprovedPriceCap op"
    by (rule stageApprovedOpen_Inr[OF st], assumption)+
  then show ?thesis using r terms order_core_eqD[OF terms(1)] by (auto simp: approved_attempt_def)
qed

text \<open>C30: an approved attempt can be executed. When a review approves, its operation is marked approved and exactly one attempt is
  new, it is pending and passes the entitlement check the executor makes before it claims work: the grant, the reservation and the
  order written by the approval are there and agree. The fresh id must not be empty and the contract (kind, multiplier, side) known.\<close>
theorem review_entitled:
  assumes run: "review x v between b = Inr (Approved op cv a, b')" and ok: "orders_refer (bk_DB (between b))" "ax_NewID x 4 \<noteq> []"
      "contracted op" and w: "find (\<lambda>w. ow_ID w = rv_ID v) (db_Operations (bk_DB (between b))) = Some w" "ow_Action w = ''open''"
  shows "find (\<lambda>w. ow_ID w = rv_ID v) (db_Operations (bk_DB b')) = Some (w\<lparr>ow_Status := ''approved''\<rparr>) \<and>
    (\<exists>row. db_Attempts (bk_DB b') = db_Attempts (bk_DB (between b)) @ [row] \<and> at_ID row = at_ID a \<and>
      at_OperationID row = rv_ID v \<and> at_State row = ''pending'' \<and> validateM3AExecutionEntitlement (bk_DB b') row = Inr ())"
proof (rule approved_steps[OF run])
  fix bound current window day power t authority s2 approval
  assume act: "op_Action op = ''open''" and adm: "admissible op (kp_Policy bound) day (rv_Quote v) (ax_Clock x 3)"
    and q: "quiet (bk_DB (between b)) t"
    and st: "stageApprovedOpen x (ax_DatabaseClock x 5) (rv_ID v) op (mw_day window) authority t = Inr (a, s2)"
    and b': "bk_DB b' = insert_event ''operation_reviewed'' [(''operation_id'', PText (rv_ID v)), (''approval'', PText approval)]
       (SetOperationStatus (rv_ID v) ''approved'' approval s2)"
  note e = events_frame(1-3)[OF q]
  have refer: "orders_refer t" using ok(1) e by (simp add: orders_refer_def)
  have ex: "executable op" using adm act ok(3) by (auto simp: executable_def contracted_def admissible_def)
  have s2: "find (\<lambda>w. ow_ID w = rv_ID v) (db_Operations s2) = Some w" "\<exists>row. db_Attempts s2 = db_Attempts t @ [row] \<and> at_ID row = at_ID a \<and>
      at_OperationID row = rv_ID v \<and> at_State row = ''pending'' \<and> validateM3AExecutionEntitlement s2 row = Inr ()"
    using staged_open_entitled[OF st refer ex act ok(2) w(1)[folded e(3)] w(2)] by simp_all
  have "ow_ID w = rv_ID v" using w(1) by (auto dest: find_SomeD)
  then show ?thesis using s2 e(2) reviewed_frame(3,7)[OF b'] reviewed_entitlement by (simp add: b')
qed

text \<open>C31: an approval is covered under both policies. When a review approves, there is a state of the day, with the equity of the
  account it was judged on and the buying power that the cash already held leaves of it, in which the open passes every absolute check
  under the policy the proposal was bound to as well as under the active one: no halt, a known and positive equity, a
  usable quote or a bounded price, positive risk, cash and multiplier, cash within the buying power, declared risk not exceeded. The
  system's halt was not in force, and the breaker of the ledger is not tripped in what the review commits. All cash held on the
  ledger afterwards is at most the account's buying power.\<close>
theorem approved_within:
  assumes run: "review x v between b = Inr (Approved op cv a, b')"
    and p: "LoadKernelPolicyAuthority (ax_Policies x) (ax_DatabaseClock x 0) (bk_DB (between b)) = Inr current"
      "pending_review (bk_DB (between b)) (rv_ID v) = Some w"
      "BoundKernelPolicy (ax_Policies x) (ax_DatabaseClock x 7) (Some w) (bk_DB (between b)) = Inr bound"
    and acc: "open_account x op (mark_limits (kp_Policy bound) (kp_Policy current)) (bk_DB (between b)) = Inr account"
    and held: "held = lr_HeldCash (ledgerResources (bk_DB (between b)) (ledgerName (op_Shadow op)) [])" "0 \<le> held" "in_int64 held"
  shows "(\<exists>day. admissible op (kp_Policy bound) day (rv_Quote v) (ax_Clock x 3) \<and>
      admissible op (kp_Policy current) day (rv_Quote v) (ax_Clock x 7) \<and> EquityKnown day = a_EquityKnown account \<and>
      Equity day = a_Equity account \<and> BuyingPower day = a_BuyingPower account - held) \<and>
    \<not> ax_Halted x \<and> (\<exists>st. one_row (\<lambda>r. br_Ledger r = ledgerName (op_Shadow op)) (bk_States b') = Inr st \<and> \<not> br_Halted st) \<and>
    lr_HeldCash (ledgerResources (bk_DB b') (ledgerName (op_Shadow op)) []) \<le> a_BuyingPower account"
proof (rule approved_steps[OF run])
  fix persisted w' current' bound' account' window day power k t authority s2 approval
  let ?s = "bk_DB (between b)" and ?l = "ledgerName (op_Shadow op)"
  assume e: "pending_review ?s (rv_ID v) = Some w'" "LoadKernelPolicyAuthority (ax_Policies x) (ax_DatabaseClock x 0) ?s = Inr current'"
      "BoundKernelPolicy (ax_Policies x) (ax_DatabaseClock x 7) (Some w') ?s = Inr bound'"
      "open_account x op (mark_limits (kp_Policy bound') (kp_Policy current')) ?s = Inr account'"
    and pw: "spendableBuyingPower (a_BuyingPower account') (lr_HeldCash (ledgerResources ?s ?l [])) = Inr power"
    and day: "day = day_state_of (countTradesForDay (op_Shadow op) (ax_UTCDate x (mw_start window)) [] ?s)
       (ledgerResources ?s ?l []) power account' (ax_Halted x) (ax_HaltReason x) k"
    and adm: "admissible op (kp_Policy bound') day (rv_Quote v) (ax_Clock x 3)" "admissible op (kp_Policy current') day (rv_Quote v) (ax_Clock x 7)"
    and q: "quiet ?s t" and st: "stageApprovedOpen x (ax_DatabaseClock x 5) (rv_ID v) op (mw_day window) authority t = Inr (a, s2)"
    and b': "bk_DB b' = insert_event ''operation_reviewed'' [(''operation_id'', PText (rv_ID v)), (''approval'', PText approval)]
       (SetOperationStatus (rv_ID v) ''approved'' approval s2)"
    and free: "\<exists>st. one_row (\<lambda>r. br_Ledger r = ?l) (bk_States b') = Inr st \<and> \<not> br_Halted st"
  have same: "current' = current" "bound' = bound" "account' = account" using e p acc by auto
  obtain g res where r: "db_OpenReservations s2 = db_OpenReservations t @ [res]" "rs_RemainingRisk res = op_DerivedMaxRisk op"
      "rs_RemainingCash res = op_RequiredCash op" "db_Lots s2 = db_Lots t"
    by (rule staged_open[OF st])
  have fields: "Equity day = a_Equity account" "EquityKnown day = a_EquityKnown account" "BuyingPower day = power"
    "ax_Halted x \<longrightarrow> Halted day" by (simp_all add: day same day_state_of_def)
  have pos: "0 \<le> rs_RemainingRisk res" "0 \<le> rs_RemainingCash res" using adm(1) r(2,3) by (simp_all add: admissible_def)
  have tables: "db_OpenReservations (bk_DB b') = db_OpenReservations ?s @ [res]" "db_Lots (bk_DB b') = db_Lots ?s"
    using r(1,4) reviewed_frame(2,4)[OF b'] events_frame[OF q] by simp_all
  have "lr_HeldCash (ledgerResources (bk_DB b') ?l []) \<le> held + op_RequiredCash op"
    using resources_append(2)[OF tables pos, of ?l] r(3) held(1) by simp
  moreover have "op_RequiredCash op \<le> a_BuyingPower account - held"
    using adm(1) fields(3) spendable_exact[OF pw] held same(3) by (simp add: admissible_def)
  moreover have "\<not> ax_Halted x" using adm(1) fields(4) by (auto simp: admissible_def)
  moreover have "BuyingPower day = a_BuyingPower account - held" using fields(3) spendable_exact[OF pw] held same(3) by simp
  ultimately show ?thesis using adm fields(1,2) same free by fastforce
qed

text \<open>C32: an approval keeps the canary's cap and meets an idle gate. When a review in live mode approves a live open, no live attempt is
  in flight or unresolved and no halt is recorded; a canary authority is in force and the new grant is bound to its revision; and the risk
  granted on the market day, the new grant included, is at most its cap, with every grant of the day bound to a
  revision and a first position of the smallest size.\<close>
theorem approved_canary_kept:
  assumes run: "review x v between b = Inr (Approved op cv a, b')" and live: "live_mode x" "\<not> op_Shadow op"
    and win: "databaseMarketWindow x 1 = Inr window"
  shows "db_GateActive (bk_DB (between b)) = None \<and> db_GateUnknown (bk_DB (between b)) = None \<and> \<not> halted (bk_DB (between b)) \<and>
    (\<exists>c g. LiveCanaryAuthority (ax_Calendar x) (ax_DatabaseClock x 4) (mw_day window) (bk_DB (between b)) = Inr c \<and>
      db_Grants (bk_DB b') = db_Grants (bk_DB (between b)) @ [g] \<and> tg_OperationID g = rv_ID v \<and>
      canary_kept c (mw_day window) op g (bk_DB b'))"
proof (rule approved_steps[OF run])
  fix window' t authority s2 approval
  let ?s = "bk_DB (between b)" and ?d = "mw_day window"
  assume w: "databaseMarketWindow x 1 = Inr window'" and q: "quiet ?s t"
    and c: "review_canary x (rv_ID v) op (mw_day window') t = Inr ([], authority, t)"
    and st: "stageApprovedOpen x (ax_DatabaseClock x 5) (rv_ID v) op (mw_day window') authority t = Inr (a, s2)"
    and b': "bk_DB b' = insert_event ''operation_reviewed'' [(''operation_id'', PText (rv_ID v)), (''approval'', PText approval)]
       (SetOperationStatus (rv_ID v) ''approved'' approval s2)"
  have win': "window' = window" using w win by simp
  obtain usage where ref: "liveCanaryRefusal True (ax_Calendar x) (ax_DatabaseClock x 4) (rv_ID v) ?d
      (op_DerivedMaxRisk op) (op_Qty op) (op_QtyIncrement op) t = Inr ([], usage, authority)"
    using review_canary_none(4)[OF c live(2)] live(1) win' by auto
  obtain g where g: "db_Grants s2 = db_Grants t @ [g]" "granted (rv_ID v) op ?d authority g" "rv_ID v \<notin> tg_OperationID ` set (db_Grants t)"
    using staged_open[OF st] win' by metis
  have "\<exists>c. LiveCanaryAuthority (ax_Calendar x) (ax_DatabaseClock x 4) ?d t = Inr c \<and> canary_kept c ?d op g (bk_DB b')"
    by (rule granted_canary_kept[OF ref _ g(2,3) live(2)]) (simp add: reviewed_frame(1)[OF b'] g(1))
  moreover have "db_GateActive ?s = None" "db_GateUnknown ?s = None" "\<not> halted ?s"
    using review_canary_none(3)[OF c live(2)] events_frame(12,13)[OF q] quiet_halted[OF q]
    by (auto simp: RequireLiveExecutionIdle_def split: if_splits)
  ultimately show ?thesis using quiet_canary[OF q] reviewed_frame(1)[OF b'] g(1,2) events_frame(4)[OF q] by (auto simp: granted_def)
qed

text \<open>Every answer but a conflict settles the operation: it cannot be reviewed again.\<close>

definition settled :: "review_outcome \<Rightarrow> bool" where
  "settled out \<longleftrightarrow> (case out of ReviewConflict _ \<Rightarrow> False | _ \<Rightarrow> True)"

lemma settled_writes:
  assumes "review x v between b = Inr (out, b')" "settled out"
  obtains kind p status verdict s where "bk_DB b' = insert_event kind p (SetOperationStatus (rv_ID v) status verdict s)"
    "status \<noteq> ''pending_review''"
proof (cases out)
  case RejectedByReviewer
  then show ?thesis using assms(1) that
    by (auto simp: review_def review_reject_def approve_def approve_open_def approve_staged_def Let_def split: if_splits option.splits sum.splits)
next
  case ProposalExpired
  then show ?thesis using assms(1) that
    by (auto simp: review_def expire_review_def approve_def approve_open_def approve_staged_def Let_def split: if_splits option.splits sum.splits)
next
  case (ReviewConflict r)
  then show ?thesis using assms(2) by (simp add: settled_def)
next
  case (Approved op cv a)
  show ?thesis
  proof (rule approved_steps[OF assms(1)[unfolded Approved]])
    fix s2 approval
    assume b': "bk_DB b' = insert_event ''operation_reviewed'' [(''operation_id'', PText (rv_ID v)), (''approval'', PText approval)]
       (SetOperationStatus (rv_ID v) ''approved'' approval s2)"
    show ?thesis by (rule that[OF b']) simp
  qed
qed

lemma reviewed_once:
  assumes "review x v between b = Inr (out, b')" "settled out" "rv_ID v2 = rv_ID v" "validUUID (rv_ID v)"
    "rv_Verdict v2 = ''approved'' \<or> rv_Verdict v2 = ''rejected''"
  shows "review x2 v2 between2 b' = Inl ErrOperationNotPending"
proof (rule settled_writes[OF assms(1,2)])
  fix kind p status verdict s
  assume b': "bk_DB b' = insert_event kind p (SetOperationStatus (rv_ID v) status verdict s)" and st: "status \<noteq> ''pending_review''"
  show ?thesis
  proof (cases "find (\<lambda>w. ow_ID w = rv_ID v) (db_Operations s)")
    case None
    then show ?thesis using reviewed_frame(7)[OF b', of "rv_ID v"] assms(3-5) by (auto simp: review_def)
  next
    case (Some w)
    then have "ow_ID w = rv_ID v" by (auto dest: find_SomeD)
    then show ?thesis using reviewed_frame(7)[OF b', of "rv_ID v"] Some st assms(3-5) by (auto simp: review_def)
  qed
qed

section \<open>A sample review\<close>

text \<open>The open of the sample day is proposed on a wide quote, so that a human has to look at it, and reviewed on a good one.\<close>

definition review_id :: string where
  "review_id = ''0b1c2d3e-0000-4000-8000-000000000001''"

definition wide_proposal :: proposal where
  "wide_proposal = admission_request\<lparr>pl_OpID := review_id, pl_Quote := Some wide_quote\<rparr>"

definition proposed_on_wide_quote :: "(admission \<times> breaker_db) result" where
  "proposed_on_wide_quote = propose admission_sample wide_proposal proposed_open admission_day"

definition pending_open :: operation where
  "pending_open = (case proposed_on_wide_quote of Inr (Admitted _ op _, _) \<Rightarrow> op | _ \<Rightarrow> proposed_open)"

definition pending_day :: breaker_db where
  "pending_day = (case proposed_on_wide_quote of Inr (_, b) \<Rightarrow> b | Inl _ \<Rightarrow> admission_day)"

definition sample_review :: review_request where
  "sample_review = \<lparr>rv_ID = review_id, rv_Verdict = ''approved'', rv_Rationale = ''spread closed'', rv_Reviewer = ''grace'',
     rv_Decode = (\<lambda>_. Some pending_open), rv_Quote = Some sample_quote\<rparr>"

lemma reviewed_sample:
  obtains op cv a b' where "review admission_sample sample_review id pending_day = Inr (Approved op cv a, b')"
    "op_Action op = ''open''" "\<not> op_Shadow op" "contracted op"
proof -
  have "case review admission_sample sample_review id pending_day of
      Inr (Approved op cv a, b') \<Rightarrow> op_Action op = ''open'' \<and> \<not> op_Shadow op \<and> contracted op
    | _ \<Rightarrow> False" by code_simp
  then show thesis using that by (auto split: sum.splits prod.splits review_outcome.splits)
qed

lemma pending_day_facts:
  "orders_refer (bk_DB (id pending_day))"
  "case find (\<lambda>w. ow_ID w = review_id) (db_Operations (bk_DB (id pending_day))) of None \<Rightarrow> False | Some w \<Rightarrow> ow_Action w = ''open''"
  "lr_HeldCash (ledgerResources (bk_DB (id pending_day)) ''live'' []) = 0"
  by code_simp+

theorem approved_terms_witness:
  "\<exists>op cv a b'. review admission_sample sample_review id pending_day = Inr (Approved op cv a, b') \<and>
     0 < op_WorkingPrice op \<and> op_WorkingPrice op \<le> op_ApprovedPriceCap pending_open \<and> at_Qty a = op_Qty pending_open"
proof (rule reviewed_sample)
  fix op cv a b'
  assume h: "review admission_sample sample_review id pending_day = Inr (Approved op cv a, b')"
  have "rv_Decode sample_review p = Some q \<longleftrightarrow> q = pending_open" for p q by (auto simp: sample_review_def)
  then show ?thesis using approved_terms[OF h] h by auto
qed

theorem review_entitled_witness:
  "\<exists>op cv a b'. review admission_sample sample_review id pending_day = Inr (Approved op cv a, b') \<and>
     (\<exists>row\<in>set (db_Attempts (bk_DB b')). at_ID row = at_ID a \<and> validateM3AExecutionEntitlement (bk_DB b') row = Inr ())"
proof (rule reviewed_sample)
  fix op cv a b'
  assume h: "review admission_sample sample_review id pending_day = Inr (Approved op cv a, b')" "contracted op"
  obtain w where w: "find (\<lambda>w. ow_ID w = rv_ID sample_review) (db_Operations (bk_DB (id pending_day))) = Some w" "ow_Action w = ''open''"
    using pending_day_facts(2) by (auto simp: sample_review_def split: option.splits)
  show ?thesis
    using review_entitled[OF h(1) pending_day_facts(1) sample_ids_fresh(2) h(2) w] h(1) by fastforce
qed

theorem approved_within_witness:
  "\<exists>op cv a b'. review admission_sample sample_review id pending_day = Inr (Approved op cv a, b') \<and>
     lr_HeldCash (ledgerResources (bk_DB b') ''live'' []) \<le> 5000000000 \<and>
     (\<exists>st. one_row (\<lambda>r. br_Ledger r = ''live'') (bk_States b') = Inr st \<and> \<not> br_Halted st)"
proof (rule reviewed_sample)
  fix op cv a b'
  assume h: "review admission_sample sample_review id pending_day = Inr (Approved op cv a, b')" "\<not> op_Shadow op"
  have l: "ledgerName (op_Shadow op) = ''live''" using h(2) by (simp add: ledgerName_def)
  have held: "(0::int) = lr_HeldCash (ledgerResources (bk_DB (id pending_day)) (ledgerName (op_Shadow op)) [])"
    "(0::int) \<le> 0" "in_int64 0" using pending_day_facts(3) by (simp_all add: l in_int64_def)
  show ?thesis
  proof (rule approved_steps[OF h(1)])
    fix w current bound account
    assume p: "LoadKernelPolicyAuthority (ax_Policies admission_sample) (ax_DatabaseClock admission_sample 0) (bk_DB (id pending_day)) = Inr current"
        "pending_review (bk_DB (id pending_day)) (rv_ID sample_review) = Some w"
        "BoundKernelPolicy (ax_Policies admission_sample) (ax_DatabaseClock admission_sample 7) (Some w) (bk_DB (id pending_day)) = Inr bound"
      and acc: "open_account admission_sample op (mark_limits (kp_Policy bound) (kp_Policy current)) (bk_DB (id pending_day)) = Inr account"
    have "a_BuyingPower account = 5000000000" using acc h(2) by (auto simp: open_account_def admission_sample_def)
    then show ?thesis using approved_within[OF h(1) p acc held] h(1) l by auto
  qed
qed

theorem approved_canary_kept_witness:
  "\<exists>op cv a b' c. review admission_sample sample_review id pending_day = Inr (Approved op cv a, b') \<and>
     LiveCanaryAuthority (ax_Calendar admission_sample) (ax_DatabaseClock admission_sample 4) 1 (bk_DB (id pending_day)) = Inr c \<and>
     authorized_risk (day_grants ''live'' 1 [] (bk_DB b')) \<le> lc_DailyAuthorizedRiskCap c"
proof (rule reviewed_sample)
  fix op cv a b'
  assume h: "review admission_sample sample_review id pending_day = Inr (Approved op cv a, b')" "\<not> op_Shadow op"
  show ?thesis
    using approved_canary_kept[OF h(1) sample_ids_fresh(3) h(2) sample_window] h(1) by (auto simp: canary_kept_def)
qed

end
