(* ===== verification/Requests.thy ===== *)
theory Requests
  imports Review "HOL-Library.Sublist"
begin

text \<open>
  The request that proposes an operation: the handler \<open>propose\<close> of \<^verbatim>\<open>kernel/cmd/kernel/main.go\<close> around its transaction,
  which is \<open>Admission.propose\<close>. In live mode the request needs an idempotency key and is identified by its
  subject, the key and a hash of the client's intent. A close or cancel of the live ledger is decided on a fresh observation of
  the account, which is recorded and reconciled in transactions of their own: they are committed before the key is looked up and stay when the
  request is then refused. The execution of an admitted attempt, which follows the transaction, is in \<open>Execution\<close>.

  What others commit before the transaction begins is the field \<open>rx_Other\<close>; what they commit during the capture are
  the fields of the barrier.
\<close>

section \<open>What is read outside the ledger\<close>

record request_env =
  rx_Admission :: admission_env
  rx_Barrier :: barrier_env
  rx_EpisodeID :: "string \<Rightarrow> string"
  rx_Locked :: bool
  rx_LocalGeneration :: int64
  rx_ReconciledAt :: time
  rx_Subject :: string
  rx_Marshal :: "propose_request \<Rightarrow> string result"
  rx_MarshalTarget :: "cancel_target \<Rightarrow> string"
  rx_SHA256 :: "string \<Rightarrow> string"
  rx_Quote :: "string \<Rightarrow> quote option"
  rx_Instrument :: "string \<Rightarrow> instrument option"
  rx_RefreshHalt :: "unit result"
  rx_OpID :: string
  rx_Other :: "breaker_db \<Rightarrow> breaker_db"

section \<open>The identity of a request\<close>

definition client_intent :: "operation \<Rightarrow> propose_request" where
  "client_intent op = \<lparr>
     rq_Proposer = op_Proposer op, rq_Action = op_Action op, rq_Kind = op_Kind op, rq_Underlying = op_Underlying op,
     rq_Symbol = op_Symbol op, rq_Side = op_Side op, rq_OrderType = op_OrderType op, rq_ExecutionStyle = op_ExecutionStyle op,
     rq_Qty = op_Qty op, rq_Limit = op_Limit op, rq_StopPrice = op_StopPrice op, rq_MaxRiskUSD = op_MaxRiskUSD op,
     rq_Short = op_Short op, rq_Plan = op_Plan op, rq_Thesis = op_Thesis op, rq_Setup = op_Setup op, rq_Shadow = op_Shadow op,
     rq_BrokerOrderID = op_BrokerOrderID op, rq_PositionID = op_PositionID op, rq_ClosesOperationID = op_ClosesOperationID op\<rparr>"

definition hashClientIntent :: "(propose_request \<Rightarrow> string result) \<Rightarrow> (string \<Rightarrow> string) \<Rightarrow> operation \<Rightarrow> string result" where
  "hashClientIntent marshal sha op = (case marshal (client_intent op) of Inl e \<Rightarrow> Inl e | Inr encoded \<Rightarrow> Inr (sha encoded))"

definition accept_request :: "request_env \<Rightarrow> string \<Rightarrow> propose_request \<Rightarrow> (idempotency_identity option \<times> operation) result" where
  "accept_request y key request =
     (if live_mode (rx_Admission y)
      then (case validateIdempotencyKey key of
          Inl e \<Rightarrow> Inl e
        | Inr _ \<Rightarrow>
           (case validateAndBuildOperation request of
              Inl e \<Rightarrow> Inl e
            | Inr op \<Rightarrow>
               (case hashClientIntent (rx_Marshal y) (rx_SHA256 y) op of
                  Inl e \<Rightarrow> Inl e
                | Inr h \<Rightarrow> Inr (Some \<lparr>id_Subject = rx_Subject y, id_Key = key, id_RequestHash = h\<rparr>, op))))
      else (case validateAndBuildOperation request of
          Inl e \<Rightarrow> Inl e
        | Inr op \<Rightarrow> Inr (None, if ax_Mode (rx_Admission y) = ''shadow'' then op\<lparr>op_Shadow := True\<rparr> else op)))"

section \<open>The request\<close>

definition decided_on_account :: "operation \<Rightarrow> bool" where
  "decided_on_account op \<longleftrightarrow> \<not> op_Shadow op \<and> (op_Action op = ''close'' \<or> op_Action op = ''cancel'')"

definition capture_decision :: "request_env \<Rightarrow> db \<Rightarrow> provider_snapshot outcome" where
  "capture_decision y s = captureReconciledProviderDecision (rx_Barrier y) (rx_EpisodeID y) (rx_Locked y) (rx_LocalGeneration y)
     (rx_ReconciledAt y) s"

definition decide_request :: "request_env \<Rightarrow> operation \<Rightarrow> breaker_db \<Rightarrow> (operation \<times> provider_snapshot option) result \<times> breaker_db" where
  "decide_request y op b =
     (if \<not> decided_on_account op then (Inr (op, None), b)
      else case capture_decision y (bk_DB b) of
        (Inl e, s) \<Rightarrow> (Inl e, b\<lparr>bk_DB := s\<rparr>)
      | (Inr sn, s) \<Rightarrow>
         (let op = bindDecisionObservation (Some sn) op
          in (Inr (if op_Action op = ''cancel'' then classifyCancelDecision (rx_MarshalTarget y) (rx_SHA256 y) (Some sn) op else op, Some sn),
              b\<lparr>bk_DB := s\<rparr>)))"

definition market_of :: "request_env \<Rightarrow> idempotency_identity option \<Rightarrow> operation \<Rightarrow> provider_snapshot option \<Rightarrow> proposal" where
  "market_of y identity op snapshot =
     (let priced = op_Action op = ''open'' \<or> op_Action op = ''close''; sym = operationSymbol op
      in \<lparr>pl_OpID = rx_OpID y, pl_Identity = identity,
          pl_Quote = (if priced then rx_Quote y sym else None),
          pl_CloseInstrument = (if op_Action op = ''close'' \<and> live_mode (rx_Admission y) \<and> \<not> op_Shadow op
            then rx_Instrument y sym else None),
          pl_Decision = snapshot\<rparr>)"

text \<open>Everything before the transaction.\<close>

definition prepare_request ::
  "request_env \<Rightarrow> string \<Rightarrow> propose_request \<Rightarrow> breaker_db \<Rightarrow> (proposal \<times> operation) result \<times> breaker_db" where
  "prepare_request y key request b =
     (case accept_request y key request of
        Inl e \<Rightarrow> (Inl e, b)
      | Inr (identity, op) \<Rightarrow>
         (case decide_request y op b of
            (Inl e, b) \<Rightarrow> (Inl e, b)
          | (Inr (op, snapshot), b) \<Rightarrow>
             (case (if op_Action op = ''open'' then rx_RefreshHalt y else Inr ()) of
                Inl e \<Rightarrow> (Inl e, b)
              | Inr _ \<Rightarrow> (Inr (market_of y identity op snapshot, op), b))))"

definition submit ::
  "request_env \<Rightarrow> string \<Rightarrow> propose_request \<Rightarrow> breaker_db \<Rightarrow> admission result \<times> breaker_db" where
  "submit y key request b =
     (case prepare_request y key request b of
        (Inl e, b) \<Rightarrow> (Inl e, b)
      | (Inr (r, op), b) \<Rightarrow>
         (case propose (rx_Admission y) r op (rx_Other y b) of
            Inl e \<Rightarrow> (Inl e, rx_Other y b)
          | Inr (answer, b) \<Rightarrow> (Inr answer, b)))"

section \<open>The stored requests\<close>

definition request_keys :: "db \<Rightarrow> (string \<times> string option \<times> string option \<times> string) list" where
  "request_keys s = map (\<lambda>p. (pp_ID p, pp_AuthenticatedSubject p, pp_IdempotencyKey p, pp_RequestHash p)) (db_Proposals s)"

text \<open>Requests are added at the end, and what identifies one is not changed.\<close>

definition requests_kept :: "db \<Rightarrow> db \<Rightarrow> bool" where
  "requests_kept s s' \<longleftrightarrow> prefix (request_keys s) (request_keys s')"

lemma requests_kept_refl [simp]: "requests_kept s s"
  by (simp add: requests_kept_def)

lemma requests_kept_trans [trans]: "requests_kept s t \<Longrightarrow> requests_kept t u \<Longrightarrow> requests_kept s u"
  unfolding requests_kept_def by (rule prefix_order.trans)

lemma requests_kept_same: "db_Proposals s' = db_Proposals s \<Longrightarrow> requests_kept s s'"
  by (simp add: requests_kept_def request_keys_def)

lemma requests_kept_add: "db_Proposals s' = db_Proposals s @ ps \<Longrightarrow> requests_kept s s'"
  by (simp add: requests_kept_def request_keys_def)

lemma requests_kept_status [simp]: "requests_kept s (SetOperationStatus i status verdict s)"
  by (simp add: requests_kept_def request_keys_def SetOperationStatus_def update_rows_def set_operation_status_def comp_def if_distrib
      cong: if_cong)

lemma requests_kept_event [simp]: "requests_kept s (insert_event kind p t) = requests_kept s t"
  by (simp add: requests_kept_def request_keys_def insert_event_def)

lemma find_key: "find (\<lambda>x. P (f x)) xs = Some x \<Longrightarrow> find P (map f xs) = Some (f x)"
  by (induction xs) (auto split: if_splits)

lemma find_of_key: "find P (map f xs) = Some k \<Longrightarrow> \<exists>x. find (\<lambda>x. P (f x)) xs = Some x \<and> f x = k"
  by (induction xs) (auto split: if_splits)

lemma find_prefix: "prefix xs ys \<Longrightarrow> find P xs = Some x \<Longrightarrow> find P ys = Some x"
proof (elim prefixE)
  fix zs assume "find P xs = Some x" "ys = xs @ zs"
  then show ?thesis by (induction xs arbitrary: ys) (auto split: if_splits)
qed

lemma request_found_later:
  assumes "requests_kept s s'" "FindOperationByIdempotency i s = Some p"
  shows "\<exists>p'. FindOperationByIdempotency i s' = Some p' \<and> pp_ID p' = pp_ID p \<and> pp_RequestHash p' = pp_RequestHash p"
proof -
  let ?f = "\<lambda>p. (pp_ID p, pp_AuthenticatedSubject p, pp_IdempotencyKey p, pp_RequestHash p)"
  let ?P = "\<lambda>(i', sub, key, h). sub = Some (id_Subject i) \<and> key = Some (id_Key i)"
  have "find ?P (request_keys s) = Some (?f p)"
    unfolding request_keys_def by (rule find_key) (use assms(2) in \<open>simp add: FindOperationByIdempotency_def\<close>)
  then have "find ?P (map ?f (db_Proposals s')) = Some (?f p)"
    using find_prefix[OF assms(1)[unfolded requests_kept_def]] by (simp add: request_keys_def)
  then obtain p' where "find (\<lambda>x. ?P (?f x)) (db_Proposals s') = Some p'" "?f p' = ?f p"
    by (drule_tac find_of_key) auto
  then show ?thesis by (auto simp: FindOperationByIdempotency_def)
qed

section \<open>What the capture of a decision leaves alone\<close>

text \<open>It records what the account holds and reconciles the exposure with it, but adds no work to the ledger.\<close>

definition no_new_work :: "db \<Rightarrow> db \<Rightarrow> bool" where
  "no_new_work s s' \<longleftrightarrow> db_Proposals s' = db_Proposals s \<and> db_Grants s' = db_Grants s \<and>
     map ow_ID (db_Operations s') = map ow_ID (db_Operations s) \<and> map at_ID (db_Attempts s') = map at_ID (db_Attempts s) \<and>
     map o_ID (db_Orders s') = map o_ID (db_Orders s) \<and>
     map rs_ID (db_OpenReservations s') = map rs_ID (db_OpenReservations s) \<and>
     map cr_ID (db_CloseReservations s') = map cr_ID (db_CloseReservations s)"

lemma no_new_work_refl [simp]: "no_new_work s s"
  by (simp add: no_new_work_def)

lemma no_new_work_trans [trans]: "no_new_work s t \<Longrightarrow> no_new_work t u \<Longrightarrow> no_new_work s u"
  by (simp add: no_new_work_def)

lemma no_new_work_kept: "no_new_work s s' \<Longrightarrow> requests_kept s s'"
  by (simp add: no_new_work_def requests_kept_same)

lemma no_new_work_event [simp]: "no_new_work s (insert_event kind p t) = no_new_work s t"
  by (simp add: no_new_work_def insert_event_def)

lemma record_items_work: "fold_res (record_item c i account family) ns s = Inr s' \<Longrightarrow> no_new_work s s'"
proof (induction ns arbitrary: s)
  case (Cons n ns)
  then obtain s1 where s1: "record_item c i account family n s = Inr s1" "fold_res (record_item c i account family) ns s1 = Inr s'"
    by (auto split: sum.split_asm)
  have "no_new_work s s1" using s1(1)
    by (auto simp: record_item_def Let_def no_new_work_def split: if_split_asm sum.split_asm)
  then show ?case using Cons.IH[OF s1(2)] no_new_work_trans by blast
qed simp

lemma record_families_work: "fold_res (record_family c i account) fs s = Inr s' \<Longrightarrow> no_new_work s s'"
proof (induction fs arbitrary: s)
  case (Cons f fs)
  then obtain s1 where s1: "record_family c i account f s = Inr s1" "fold_res (record_family c i account) fs s1 = Inr s'"
    by (auto split: sum.split_asm)
  have "no_new_work s s1" using record_items_work[OF s1(1)[unfolded record_family_def]] by (simp add: no_new_work_def)
  then show ?case using Cons.IH[OF s1(2)] no_new_work_trans by blast
qed simp

lemma record_observation_work:
  assumes "RecordBrokerObservation c generation newID input s = Inr (b, s')"
  shows "no_new_work s s'"
proof -
  obtain fs status manifest complete s1 where
    f: "fold_res (record_family c (bi_ID (prepared_input newID input)) (bi_AccountID (prepared_input newID input))) fs
          (insert_observation c (prepared_input newID input) generation status manifest s) = Inr s1"
    and s': "s' = recorded_event b complete (if complete then raise_head c b s1 else s1)"
    using assms by (auto simp: RecordBrokerObservation_def Let_def split: sum.split_asm)
  have "no_new_work s s1" using record_families_work[OF f] by (simp add: no_new_work_def insert_observation_def)
  then show ?thesis by (simp add: s' recorded_event_def raise_head_def Let_def insert_event_def no_new_work_def)
qed

lemma capture_snapshot_work:
  assumes "captureProviderSnapshotFrom c bound lsg generation newID purpose provider s = (r, s')"
  shows "no_new_work s s'"
  using assms unfolding captureProviderSnapshotFrom_def Let_def
  by (auto split: option.split_asm sum.split_asm prod.split_asm if_split_asm dest: record_observation_work)

lemma give_up_work [simp]: "no_new_work s (give_up now i t) = no_new_work s t"
  by (simp add: give_up_def no_new_work_def map_update_rows)

lemma set_status_work [simp]: "no_new_work s (set_operation_status i status t) = no_new_work s t"
  by (simp add: set_operation_status_def no_new_work_def map_update_rows)

lemma invalidate_work:
  assumes "invalidate_operation now x w (ids, s) = (ids', s')"
  shows "no_new_work s s'"
proof -
  have "no_new_work s (s\<lparr>db_Invalidations := v\<rparr>)" for v by (simp add: no_new_work_def)
  then show ?thesis using assms by (auto simp: invalidate_operation_def Let_def split: if_split_asm)
qed

lemma invalidations_work: "fold (invalidate_operation now x) ws (ids, s) = (ids', s') \<Longrightarrow> no_new_work s s'"
proof (induction ws arbitrary: ids s)
  case (Cons w ws)
  obtain ids1 s1 where w: "invalidate_operation now x w (ids, s) = (ids1, s1)" by (metis surj_pair)
  then show ?case using Cons invalidate_work[OF w] no_new_work_trans by auto
qed simp

lemma key_frame_work:
  assumes "key_frame s s'"
  shows "no_new_work s s'"
proof -
  note e = assms[unfolded key_frame_def]
  show ?thesis
    using e[THEN arg_cong, of db_Proposals] e[THEN arg_cong, of db_Grants] e[THEN arg_cong, of db_Operations] e[THEN arg_cong, of db_Attempts]
      e[THEN arg_cong, of db_Orders] e[THEN arg_cong, of db_OpenReservations] e[THEN arg_cong, of db_CloseReservations]
    by (simp add: no_new_work_def)
qed

lemma reconcile_work:
  assumes run: "ReconcileBrokerObservation c newID locked lg now oid s = Inr (r, s')"
  shows "no_new_work s s'"
proof (cases "rr_Applied r")
  case False
  then have "s' = s" using reconcile_cases[OF run] reconcile_head_cases by fastforce
  then show ?thesis by simp
next
  case True
  show ?thesis
  proof (rule reconcile_applied[OF run True], erule reconcile_changes_split)
    fix q b and current :: "(string \<times> reconciliation_position) list" and tracked s1 s2
    let ?x = "observation_scope b (bo_AccountID q)"
    assume f: "fold_res (reconcile_key newID ?x \<lparr>mp_current = current,
          mp_previous = loadReconciliationProjections (bo_AccountID q) s, mp_tracked = tracked\<rparr>)
        (reconciliationKeys current (loadReconciliationProjections (bo_AccountID q) s) tracked) ([], s) = Inr (rr_Episodes r, s1)"
      and i: "(rr_InvalidatedOperationIDs r, s2) = (if rr_Episodes r \<noteq> [] then invalidateStaleBrokerWork now ?x s1 else ([], s1))"
      and s': "s' = reconciled_event ?x (rr_Episodes r) (rr_InvalidatedOperationIDs r) (upsert_head ?x s2)"
    have "no_new_work s s1" by (rule key_frame_work[OF reconcile_keys_frame[OF f]])
    also have "no_new_work s1 s2"
      using i invalidations_work by (auto simp: invalidateStaleBrokerWork_def split: if_split_asm) metis
    also have "no_new_work s2 s'" by (simp add: s' reconciled_event_def insert_event_def upsert_head_def Let_def no_new_work_def)
    finally show ?thesis .
  qed
qed

text \<open>So the capture keeps whatever those who act meanwhile keep.\<close>

lemma capture_keeps:
  assumes refl: "\<And>s s'. no_new_work s s' \<Longrightarrow> R s s'" and trans: "\<And>s t u. R s t \<Longrightarrow> R t u \<Longrightarrow> R s u"
    and others: "\<And>n t. R t (be_Other (rx_Barrier y) n t)"
  shows "R s (snd (capture_decision y s))"
proof -
  let ?x = "rx_Barrier y"
  obtain r0 s0 where b: "assertLiveAccountBinding ?x [] s = (r0, s0)" by (metis surj_pair)
  have s0: "R s s0" by (rule refl) (use b in \<open>auto simp: assertLiveAccountBinding_def split: if_split_asm\<close>)
  show ?thesis
  proof (cases r0)
    case (Inl e)
    then show ?thesis using b s0 by (simp add: capture_decision_def captureReconciledProviderDecision_def)
  next
    case bound: (Inr u)
    obtain r1 s1 where c: "captureProviderSnapshotFrom (be_Observations ?x) (be_Bound ?x) (be_LocalGeneration ?x) (be_Generation ?x)
        (be_ObservationID ?x) ''decision'' (be_Provider ?x) (be_Other ?x 0 s0) = (r1, s1)" by (metis surj_pair)
    have s1: "R s s1" using trans[OF trans[OF s0 others] refl[OF capture_snapshot_work[OF c]]] .
    show ?thesis
    proof (cases r1)
      case (Inl e)
      then show ?thesis using b bound c s1 by (simp add: capture_decision_def captureReconciledProviderDecision_def)
    next
      case (Inr sn)
      then show ?thesis using b bound c trans[OF s1 others[of s1 1]] trans[OF trans[OF s1 others[of s1 1]] refl[OF reconcile_work]]
        by (auto simp: capture_decision_def captureReconciledProviderDecision_def split: sum.split)
    qed
  qed
qed

section \<open>What keeps the stored requests\<close>

lemma quiet_kept: "quiet s s' \<Longrightarrow> requests_kept s s'"
  by (rule requests_kept_same) (rule events_frame)

lemma propose_kept:
  assumes run: "propose x r op b = Inr (answer, b')"
  shows "requests_kept (bk_DB b) (bk_DB b')"
proof (cases answer)
  case (Replayed p)
  then have "b' = b" using run by (auto simp: propose_def fresh_proposal_def admit_def split: option.splits sum.splits if_splits)
  then show ?thesis by simp
next
  case Insufficient
  then have f: "fresh_proposal x r op b = Inr (Insufficient, b')"
    using run by (simp add: propose_def split: option.splits prod.splits if_splits)
  obtain authority where p: "LoadKernelPolicyAuthority (ax_Policies x) (ax_DatabaseClock x 0) (bk_DB b) = Inr authority"
    using f by (cases "LoadKernelPolicyAuthority (ax_Policies x) (ax_DatabaseClock x 0) (bk_DB b)") (simp_all add: fresh_proposal_def)
  have "judge_proposal x r op (kp_Policy authority) b = Inr (None, b')"
    using f p by (auto simp: fresh_proposal_def admit_def split: sum.splits option.splits if_splits)
  then show ?thesis using judge_proposal_quiet quiet_kept by blast
next
  case (Admitted v op' a)
  show ?thesis
  proof (rule admitted_steps[OF run[unfolded Admitted]])
    fix authority j1 s1 s2
    assume q: "quiet (bk_DB b) s1" and w: "write_operation x r authority j1 s1 = Inr s2"
      and st: "stage_execution x r (kp_Policy authority) j1 s2 = Inr (a, bk_DB b')"
    obtain p where "db_Proposals s2 = db_Proposals s1 @ [p]" using write_operation_new(6)[OF w] by blast
    then have "requests_kept s1 (bk_DB b')" using stage_execution_new(4)[OF st] by (simp add: requests_kept_add)
    then show ?thesis using quiet_kept[OF q] requests_kept_trans by blast
  qed
qed

lemma staged_proposals: "stageApprovedOpen x now i op d canary s = Inr (a, s') \<Longrightarrow> db_Proposals s' = db_Proposals s"
proof (erule stageApprovedOpen_Inr, erule grant_open_Inr, erule reserve_open_Inr, erule write_attempt_Inr)
  fix s1 s2 g res w
  assume s1: "s1 = s\<lparr>db_Grants := db_Grants s @ [g], db_Events := db_Events s1\<rparr>"
    and s2: "s2 = s1\<lparr>db_OpenReservations := db_OpenReservations s1 @ [res], db_Events := db_Events s2\<rparr>"
    and s': "s' = s2\<lparr>db_Attempts := db_Attempts s2 @ [attempt_row (ax_Limits x) now s2 w a], db_Orders := db_Orders s', db_Events := db_Events s'\<rparr>"
  show ?thesis
    using s1[THEN arg_cong, of db_Proposals] s2[THEN arg_cong, of db_Proposals] s'[THEN arg_cong, of db_Proposals] by simp
qed

lemma conflict_quiet:
  assumes "approve_open x v w current bound op b = Inr (ReviewConflict reason, b')"
  shows "quiet (bk_DB b) (bk_DB b')"
proof -
  obtain account window where "databaseMarketWindow x 1 = Inr window"
      "open_account x op (mark_limits bound (kp_Policy current)) (bk_DB b) = Inr account"
    using assms by (auto simp: approve_open_def split: sum.split_asm)
  moreover obtain day b1 where d: "dayStateAtAccountWithLimits x 2 (op_Shadow op) account window (kp_Policy current) b = Inr (day, b1)"
    using assms calculation by (auto simp: approve_open_def split: sum.split_asm)
  ultimately have "b' = b \<or> (\<exists>bv cv s. approve_staged x v w current window op bv cv (bk_DB b1) = Inr (ReviewConflict reason, s) \<and>
      b' = b1\<lparr>bk_DB := s\<rparr>)"
    using assms by (auto simp: approve_open_def Let_def split: if_split_asm sum.split_asm)
  moreover have "quiet t s" if "approve_staged x v w current window op bv cv t = Inr (ReviewConflict reason, s)" for t s bv cv
    using that
    by (auto simp: approve_staged_def review_canary_def Let_def case_sum_Inr_iff insertCanaryRefusalEvent_def halt_kind_def canary_kind_def
        split: if_split_asm sum.split_asm prod.split_asm option.split_asm)
  moreover have "quiet (bk_DB b) (bk_DB b1)" by (rule dayState_Inr[OF d])
  ultimately show ?thesis using quiet_trans by auto
qed

lemma review_kept:
  assumes run: "review x v between b = Inr (out, b')"
  shows "requests_kept (bk_DB (between b)) (bk_DB b')"
proof (cases out)
  case RejectedByReviewer
  then show ?thesis using run
    by (auto simp: review_def review_reject_def approve_def approve_open_def approve_staged_def Let_def split: if_splits option.splits sum.splits)
next
  case ProposalExpired
  then show ?thesis using run
    by (auto simp: review_def expire_review_def approve_def approve_open_def approve_staged_def Let_def split: if_splits option.splits sum.splits)
next
  case (ReviewConflict reason)
  then have "b' = between b \<or> (\<exists>w current bound op. approve_open x v w current bound op (between b) = Inr (ReviewConflict reason, b'))"
    using run by (auto simp: review_def approve_def split: if_splits option.splits sum.splits)
  then show ?thesis using conflict_quiet quiet_kept by auto
next
  case (Approved op cv a)
  show ?thesis
  proof (rule approved_steps[OF run[unfolded Approved]])
    fix s2 t approval authority and window :: market_window
    assume q: "quiet (bk_DB (between b)) t"
      and st: "stageApprovedOpen x (ax_DatabaseClock x 5) (rv_ID v) op (mw_day window) authority t = Inr (a, s2)"
      and b': "bk_DB b' = insert_event ''operation_reviewed'' [(''operation_id'', PText (rv_ID v)), (''approval'', PText approval)]
        (SetOperationStatus (rv_ID v) ''approved'' approval s2)"
    have "requests_kept (bk_DB (between b)) s2"
      using quiet_kept[OF q] requests_kept_same[OF staged_proposals[OF st]] requests_kept_trans by blast
    then show ?thesis unfolding b' requests_kept_event by (rule requests_kept_trans) simp
  qed
qed

text \<open>Those who act meanwhile are the same service, so they keep the stored requests too.\<close>

definition kept_meanwhile :: "request_env \<Rightarrow> bool" where
  "kept_meanwhile y \<longleftrightarrow> (\<forall>b. requests_kept (bk_DB b) (bk_DB (rx_Other y b))) \<and>
     (\<forall>n s. requests_kept s (be_Other (rx_Barrier y) n s))"

lemma built_action:
  assumes "validateAndBuildOperation request = Inr op"
  shows "op_Action op = rq_Action request"
  using assms unfolding validateAndBuildOperation_def Let_def
  by (auto simp: validate_open_def validate_close_def validate_cancel_def validate_tighten_stop_def default_open_def default_style_def
      guarded_ok Let_def build_operation_def split: if_split_asm sum.split_asm)

text \<open>What precedes the transaction writes nothing, but for the capture of a decision.\<close>

lemma decide_request_ledger:
  assumes "decide_request y op b = (r, b')"
  shows "b' = (if decided_on_account op then b\<lparr>bk_DB := snd (capture_decision y (bk_DB b))\<rparr> else b)"
  using assms by (auto simp: decide_request_def Let_def split: if_split_asm prod.split_asm sum.split_asm)

lemma prepare_request_ledger:
  assumes "prepare_request y key request b = (r, b')"
  shows "b' = b \<or> (rq_Action request = ''close'' \<or> rq_Action request = ''cancel'') \<and>
    b' = b\<lparr>bk_DB := snd (capture_decision y (bk_DB b))\<rparr>"
proof (cases "accept_request y key request")
  case (Inl e)
  then show ?thesis using assms by (simp add: prepare_request_def)
next
  case (Inr accepted)
  obtain identity op where a: "accepted = (identity, op)" by (metis surj_pair)
  have act: "op_Action op = rq_Action request"
    using Inr a by (auto simp: accept_request_def built_action split: if_split_asm sum.split_asm)
  show ?thesis using assms Inr a act
    by (auto simp: prepare_request_def decided_on_account_def split: sum.split_asm prod.split_asm if_split_asm
        dest!: decide_request_ledger)
qed

lemma prepare_kept:
  assumes "prepare_request y key request b = (r, b')" "kept_meanwhile y"
  shows "requests_kept (bk_DB b) (bk_DB b')"
proof -
  have "requests_kept (bk_DB b) (snd (capture_decision y (bk_DB b)))"
    by (rule capture_keeps[where R = requests_kept, OF no_new_work_kept requests_kept_trans])
      (use assms(2) in \<open>auto simp: kept_meanwhile_def\<close>)
  then show ?thesis using prepare_request_ledger[OF assms(1)] by auto
qed

lemma submit_kept:
  assumes run: "submit y key request b = (answer, b')" and m: "kept_meanwhile y"
  shows "requests_kept (bk_DB b) (bk_DB b')"
proof -
  obtain r b1 where p: "prepare_request y key request b = (r, b1)" by (metis surj_pair)
  have b1: "requests_kept (bk_DB b) (bk_DB b1)" by (rule prepare_kept[OF p m])
  then have o1: "requests_kept (bk_DB b) (bk_DB (rx_Other y b1))" using m requests_kept_trans by (auto simp: kept_meanwhile_def)
  show ?thesis using run p b1 o1 requests_kept_trans[OF o1 propose_kept]
    by (auto simp: submit_def split: sum.split_asm prod.split_asm)
qed

text \<open>What the service does to its ledger, as far as the stored requests go: no other code writes that table but for verdicts.\<close>

inductive service_step :: "breaker_db \<Rightarrow> breaker_db \<Rightarrow> bool" where
  submitting: "submit y key request b = (answer, b') \<Longrightarrow> kept_meanwhile y \<Longrightarrow> service_step b b'"
| reviewing: "review x v between b = Inr (out, b') \<Longrightarrow> requests_kept (bk_DB b) (bk_DB (between b)) \<Longrightarrow> service_step b b'"
| elsewhere: "request_keys (bk_DB b') = request_keys (bk_DB b) \<Longrightarrow> service_step b b'"

lemma service_step_kept: "service_step b b' \<Longrightarrow> requests_kept (bk_DB b) (bk_DB b')"
proof (induction rule: service_step.induct)
  case (submitting y key request b answer b')
  then show ?case by (rule submit_kept)
next
  case (reviewing x v between b out b')
  then show ?case using review_kept requests_kept_trans by blast
qed (simp add: requests_kept_def)

lemma service_steps_kept: "service_step\<^sup>*\<^sup>* b b' \<Longrightarrow> requests_kept (bk_DB b) (bk_DB b')"
  by (induction rule: rtranclp_induct) (auto intro: requests_kept_trans dest: service_step_kept)

section \<open>A repeated request\<close>

text \<open>The hash of a request, and what identifies it in live mode.\<close>

definition request_hash :: "request_env \<Rightarrow> propose_request \<Rightarrow> string result" where
  "request_hash y request =
     (case validateAndBuildOperation request of
        Inl e \<Rightarrow> Inl e | Inr op \<Rightarrow> hashClientIntent (rx_Marshal y) (rx_SHA256 y) op)"

lemma accepted_live:
  assumes "accept_request y key request = Inr (identity, op)" "live_mode (rx_Admission y)"
  shows "\<exists>h. request_hash y request = Inr h \<and> identity = Some \<lparr>id_Subject = rx_Subject y, id_Key = key, id_RequestHash = h\<rparr>"
  using assms by (auto simp: accept_request_def request_hash_def split: sum.split_asm)

lemma prepared_identity:
  assumes "prepare_request y key request b = (Inr (r, op), b')" "live_mode (rx_Admission y)"
  shows "\<exists>h. request_hash y request = Inr h \<and> pl_OpID r = rx_OpID y \<and>
    pl_Identity r = Some \<lparr>id_Subject = rx_Subject y, id_Key = key, id_RequestHash = h\<rparr>"
proof -
  obtain identity op0 where a: "accept_request y key request = Inr (identity, op0)"
    using assms(1) by (auto simp: prepare_request_def split: sum.split_asm)
  have "pl_OpID r = rx_OpID y \<and> pl_Identity r = identity"
    using assms(1) a by (auto simp: prepare_request_def market_of_def Let_def split: sum.split_asm prod.split_asm if_split_asm)
  then show ?thesis using accepted_live[OF a assms(2)] by auto
qed

lemma find_append_last: "find P xs = None \<Longrightarrow> P y \<Longrightarrow> find P (xs @ [y]) = Some y"
  by (induction xs) (auto split: if_splits)

text \<open>An admitted proposal is stored under its identity.\<close>

lemma admitted_stored:
  assumes run: "propose x r op b = Inr (Admitted v op' a, b')" and i: "pl_Identity r = Some i"
  shows "\<exists>p. FindOperationByIdempotency i (bk_DB b') = Some p \<and> pp_ID p = pl_OpID r \<and> pp_RequestHash p = id_RequestHash i"
proof (rule admitted_steps[OF run])
  fix authority j1 s1 s2
  assume q: "quiet (bk_DB b) s1" and w: "write_operation x r authority j1 s1 = Inr s2"
    and st: "stage_execution x r (kp_Policy authority) j1 s2 = Inr (a, bk_DB b')"
  obtain p where p: "db_Proposals s2 = db_Proposals s1 @ [p]" "pp_ID p = pl_OpID r"
    "pp_AuthenticatedSubject p = Some (id_Subject i)" "pp_IdempotencyKey p = Some (id_Key i)" "pp_RequestHash p = id_RequestHash i"
    using write_operation_new(6)[OF w] i by auto
  have ps: "db_Proposals (bk_DB b') = db_Proposals (bk_DB b) @ [p]"
    using p(1) events_frame(7)[OF q] stage_execution_new(4)[OF st] by simp
  have "FindOperationByIdempotency i (bk_DB b) = None"
    using run i by (cases "FindOperationByIdempotency i (bk_DB b)") (auto simp: propose_def split: if_splits)
  then have "FindOperationByIdempotency i (bk_DB b') = Some p"
    unfolding FindOperationByIdempotency_def ps by (rule find_append_last) (simp add: p(3,4))
  then show ?thesis using p(2,5) by blast
qed

lemma submitted_stored:
  assumes run: "submit y key request b = (Inr (Admitted v op a), b')" and live: "live_mode (rx_Admission y)"
  shows "\<exists>p h. request_hash y request = Inr h \<and>
    FindOperationByIdempotency \<lparr>id_Subject = rx_Subject y, id_Key = key, id_RequestHash = h\<rparr> (bk_DB b') = Some p \<and>
    pp_ID p = rx_OpID y \<and> pp_RequestHash p = h"
proof -
  obtain r op0 b1 where p: "prepare_request y key request b = (Inr (r, op0), b1)"
      "propose (rx_Admission y) r op0 (rx_Other y b1) = Inr (Admitted v op a, b')"
    using run by (auto simp: submit_def split: prod.split_asm sum.split_asm)
  show ?thesis using prepared_identity[OF p(1) live] admitted_stored[OF p(2)] by auto
qed

lemma found_any_hash:
  "FindOperationByIdempotency \<lparr>id_Subject = u, id_Key = k, id_RequestHash = h\<rparr> s =
   FindOperationByIdempotency \<lparr>id_Subject = u, id_Key = k, id_RequestHash = h'\<rparr> s"
  by (simp add: FindOperationByIdempotency_def)

text \<open>C34: a repeated request is answered and not admitted again. Once a live request is admitted, whatever the service
  does afterwards (other requests, reviews, and anything that leaves the stored requests alone), a request of the same subject
  with the same idempotency key is refused before the transaction, or it gets, whatever it asks for, the stored proposal if its
  intent has the hash of the first one and the error for a reused key if not. The transaction then writes nothing. What is
  written before it is the decision that a close or cancel is captured for: an observation of the account and its reconciliation,
  which, unless others add some meanwhile, add no operation, attempt, order, grant or reservation.\<close>
theorem repeat_replays:
  assumes first: "submit y key request b = (Inr (Admitted v op a), b1)" "live_mode (rx_Admission y)"
    and later: "service_step\<^sup>*\<^sup>* b1 b2"
    and again: "live_mode (rx_Admission y2)" "rx_Subject y2 = rx_Subject y" "kept_meanwhile y2"
  shows "\<exists>p. pp_ID p = rx_OpID y \<and>
    (case prepare_request y2 key request2 b2 of (r, b3) \<Rightarrow>
      submit y2 key request2 b2 =
        (case r of
           Inl e \<Rightarrow> (Inl e, b3)
         | Inr _ \<Rightarrow> (if request_hash y2 request2 = request_hash y request then Inr (Replayed p) else Inl errIdempotencyKeyReused,
                    rx_Other y2 b3)) \<and>
      (b3 = b2 \<or> (rq_Action request2 = ''close'' \<or> rq_Action request2 = ''cancel'') \<and>
         b3 = b2\<lparr>bk_DB := snd (capture_decision y2 (bk_DB b2))\<rparr>) \<and>
      ((\<forall>n s. no_new_work s (be_Other (rx_Barrier y2) n s)) \<longrightarrow> no_new_work (bk_DB b2) (bk_DB b3)))"
proof -
  obtain p h where p: "request_hash y request = Inr h"
      "FindOperationByIdempotency \<lparr>id_Subject = rx_Subject y, id_Key = key, id_RequestHash = h\<rparr> (bk_DB b1) = Some p"
      "pp_ID p = rx_OpID y" "pp_RequestHash p = h"
    using submitted_stored[OF first] by blast
  obtain r b3 where r: "prepare_request y2 key request2 b2 = (r, b3)" by (metis surj_pair)
  have "requests_kept (bk_DB b3) (bk_DB (rx_Other y2 b3))" using again(3) by (simp add: kept_meanwhile_def)
  then have kept: "requests_kept (bk_DB b1) (bk_DB (rx_Other y2 b3))"
    using service_steps_kept[OF later] prepare_kept[OF r again(3)] requests_kept_trans by blast
  obtain p' where p': "pp_ID p' = rx_OpID y" "pp_RequestHash p' = h" and found:
      "FindOperationByIdempotency \<lparr>id_Subject = rx_Subject y, id_Key = key, id_RequestHash = h\<rparr> (bk_DB (rx_Other y2 b3)) = Some p'"
    using request_found_later[OF kept p(2)] p(3,4) by auto
  have answer: "submit y2 key request2 b2 =
      (case r of
         Inl e \<Rightarrow> (Inl e, b3)
       | Inr _ \<Rightarrow> (if request_hash y2 request2 = request_hash y request then Inr (Replayed p') else Inl errIdempotencyKeyReused,
                  rx_Other y2 b3))"
  proof (cases r)
    case (Inr ready)
    obtain m op2 where ready: "ready = (m, op2)" by (metis surj_pair)
    obtain h2 where "request_hash y2 request2 = Inr h2"
        "pl_Identity m = Some \<lparr>id_Subject = rx_Subject y, id_Key = key, id_RequestHash = h2\<rparr>"
      using prepared_identity[OF r[unfolded Inr ready] again(1)] again(2) by auto
    then show ?thesis using r Inr ready p(1) p' found found_any_hash[of "rx_Subject y" key h2 _ h]
      by (simp add: submit_def propose_def)
  qed (simp add: submit_def r)
  have quiet: "no_new_work (bk_DB b2) (snd (capture_decision y2 (bk_DB b2)))" if "\<forall>n s. no_new_work s (be_Other (rx_Barrier y2) n s)"
    by (rule capture_keeps[where R = no_new_work, OF _ no_new_work_trans]) (use that in auto)
  show ?thesis
    by (rule exI[of _ p']) (use r p'(1) answer prepare_request_ledger[OF r] quiet in auto)
qed

section \<open>A sample request\<close>

definition sample_intent :: propose_request where
  "sample_intent = client_intent proposed_open"

definition sample_requests :: request_env where
  "sample_requests = \<lparr>rx_Admission = admission_sample, rx_Barrier = capture_env, rx_EpisodeID = (\<lambda>k. k), rx_Locked = True,
     rx_LocalGeneration = 0, rx_ReconciledAt = 1010000000000, rx_Subject = ''ada'',
     rx_Marshal = (\<lambda>q. Inr (rq_Action q @ rq_Symbol q)), rx_MarshalTarget = ct_BrokerOrderID, rx_SHA256 = rev,
     rx_Quote = (\<lambda>_. Some sample_quote), rx_Instrument = (\<lambda>_. Some admission_instrument), rx_RefreshHalt = Inr (),
     rx_OpID = ''op1'', rx_Other = (\<lambda>b. b)\<rparr>"

lemma submitted_sample:
  obtains v op a b' where "submit sample_requests ''k1'' sample_intent admission_day = (Inr (Admitted v op (Some a)), b')"
proof -
  have "case submit sample_requests ''k1'' sample_intent admission_day of
      (Inr (Admitted v op (Some a)), b') \<Rightarrow> True | _ \<Rightarrow> False" by code_simp
  then show thesis using that by (auto split: sum.splits prod.splits admission.splits option.splits)
qed

lemma prepared_sample: "\<exists>m op. prepare_request (sample_requests\<lparr>rx_OpID := i\<rparr>) ''k1'' sample_intent b = (Inr (m, op), b)"
proof -
  have "accept_request (sample_requests\<lparr>rx_OpID := i\<rparr>) ''k1'' sample_intent = accept_request sample_requests ''k1'' sample_intent"
    by (simp add: accept_request_def split: sum.split)
  moreover have "case accept_request sample_requests ''k1'' sample_intent of Inl _ \<Rightarrow> False | Inr (i, op) \<Rightarrow> op_Action op = ''open''"
    by code_simp
  moreover have "rx_RefreshHalt sample_requests = Inr ()" by (simp add: sample_requests_def)
  ultimately show ?thesis
    by (auto simp: prepare_request_def decide_request_def decided_on_account_def split: sum.splits)
qed

theorem repeat_replays_witness:
  "\<exists>v op a b' p. submit sample_requests ''k1'' sample_intent admission_day = (Inr (Admitted v op (Some a)), b') \<and>
     pp_ID p = ''op1'' \<and>
     submit (sample_requests\<lparr>rx_OpID := ''op2''\<rparr>) ''k1'' sample_intent (b'\<lparr>bk_DayOpen := []\<rparr>) =
       (Inr (Replayed p), b'\<lparr>bk_DayOpen := []\<rparr>)"
proof (rule submitted_sample)
  fix v op a b'
  assume h: "submit sample_requests ''k1'' sample_intent admission_day = (Inr (Admitted v op (Some a)), b')"
  let ?y = "sample_requests\<lparr>rx_OpID := ''op2''\<rparr>"
  have live: "live_mode (rx_Admission sample_requests)" "live_mode (rx_Admission ?y)" "rx_Subject ?y = rx_Subject sample_requests"
      "kept_meanwhile ?y" "rx_Other ?y b = b" for b
    by (simp_all add: sample_requests_def live_mode_def admission_sample_def kept_meanwhile_def capture_env_def)
  have same: "request_hash ?y sample_intent = request_hash sample_requests sample_intent"
    by (simp add: request_hash_def split: sum.split)
  have later: "service_step\<^sup>*\<^sup>* b' (b'\<lparr>bk_DayOpen := []\<rparr>)"
    by (rule r_into_rtranclp, rule service_step.elsewhere) simp
  obtain m o2 where p: "prepare_request ?y ''k1'' sample_intent (b'\<lparr>bk_DayOpen := []\<rparr>) = (Inr (m, o2), b'\<lparr>bk_DayOpen := []\<rparr>)"
    using prepared_sample by blast
  show ?thesis
    using repeat_replays[OF h live(1) later live(2,3,4), of sample_intent] h live(5) same p by (auto simp: sample_requests_def)
qed

end
