(* ===== verification/Spec2Isabelle.thy ===== *)
theory Spec2Isabelle
  imports Pricing Order_State Operations Breaker Judged_Execution Recovery Requests
begin

text \<open>
  A verification library for the Kernel of \<^verbatim>\<open>alpheus\<close>: the program that takes trade proposals from
  clients and agents, decides which of them may be executed, reserves the money, drives the broker
  and keeps the ledger. The library follows the money path of the code, one theory per part.

  \<^item> \<open>Prelude\<close>: wrap-around at 64 bits, results and Go errors, guard chains, strings and lists.
  \<^item> \<open>Units\<close> (\<^verbatim>\<open>kernel/internal/units\<close>): the scaled decimals; parsing, printing, exact products, percentages.
  \<^item> \<open>Broker\<close> (\<^verbatim>\<open>kernel/internal/broker/broker.go\<close>): quotes, instruments and the values exchanged with the venue.
  \<^item> \<open>Pricing\<close> (\<^verbatim>\<open>kernel/cmd/kernel/repricer.go\<close>): tick arithmetic and bounded replacement prices.
  \<^item> \<open>State_Graph\<close>, \<open>Order_State\<close> (\<^verbatim>\<open>kernel/internal/state\<close>, \<^verbatim>\<open>store/orders.go\<close>): finite state graphs as
    a locale, and the order lifecycle as one of them.
  \<^item> \<open>Policy\<close> (\<^verbatim>\<open>kernel/internal/policy\<close>): the trading policy, its canonical form, decoding of stored
    revisions and the classification of changes.
  \<^item> \<open>Risk\<close> (\<^verbatim>\<open>kernel/internal/risk\<close>): the gate that rejects, auto-approves or sends to a human.
  \<^item> \<open>Operations\<close> (\<^verbatim>\<open>kernel/cmd/kernel/main.go\<close>): from a client's request to a priced operation:
    validation, derivation of prices, cash and risk, re-derivation at approval, normalisation of closes.
  \<^item> \<open>Store_Tables\<close>, \<open>Exposure\<close>, \<open>Order_Store\<close> (\<^verbatim>\<open>kernel/internal/store\<close>): the ledger's rows, the
    reservations, FIFO lots and paper account, and how a broker's report on an order changes them.
  \<^item> \<open>Halt\<close> (\<^verbatim>\<open>store/store.go\<close>, \<^verbatim>\<open>orders.go\<close>): the global halt as the last transition event, and the
    recording of integrity failures, which halts.
  \<^item> \<open>Hex\<close>, \<open>Pre_Effect\<close> (\<^verbatim>\<open>store/pre_effect.go\<close>): the manifest of facts behind one send, and its check
    inside the sending transaction.
  \<^item> \<open>Attempts\<close> (\<^verbatim>\<open>store/entitlements.go\<close>): execution attempts from the pending row over claim, evidence, send and
    replay to resolution or failure, and the live gate they share.
  \<^item> \<open>Policy_Authority\<close> (\<^verbatim>\<open>store/kernel_policy.go\<close>): the policy revisions, their head and its compare-and-swap.
  \<^item> \<open>Repricing\<close> (\<^verbatim>\<open>store/repricing.go\<close>): staging the cancel of a working order, and what becomes of its remainder.
  \<^item> \<open>Live_Gate\<close>, \<open>Live_Moves\<close>, \<open>Live_System\<close>: all operations on attempts as one system. \<open>Live_Gate\<close> has the
    invariant, the life of an attempt and the abstract gate, and proves them for a handful of moves;
    \<open>Live_Moves\<close> shows that every operation is a sequence of moves; \<open>Live_System\<close> states what holds after any
    interleaving: one live attempt in flight, one send and one replay at most, fencing of stale workers,
    authority behind every send. Its steps include reconciliations, and transactions that add one pending attempt, as
    admission and review do, or leave the attempts and the gate alone; the one-time activation of the exact accounting
    (\<^verbatim>\<open>store/activation.go\<close>) is not one of them.
  \<^item> \<open>Breaker\<close> (\<^verbatim>\<open>store/pnl_breaker.go\<close>): realised profit and loss, loss streaks, and the latched halts of the loss
    breaker.
  \<^item> \<open>Observations\<close> (\<^verbatim>\<open>store/broker_observations.go\<close>): what the broker reported, normalised and recorded, with the
    origin of every order, fill and position; loading it back. The precision of its time columns and the
    database's collation are arguments.
  \<^item> \<open>Barrier\<close>, \<open>Snapshots\<close>, \<open>Live_Barrier\<close> (\<^verbatim>\<open>kernel/cmd/kernel/broker_observations.go\<close>): a snapshot of the whole
    account is taken and recorded; the effect of every working order and position of others is counted; an open, a
    close or a cancel is judged on it under the bound and the active policy; the judgement becomes a manifest.
  \<^item> \<open>Placement\<close>, \<open>Executor\<close>, \<open>Execution\<close>, \<open>Judged_Execution\<close> (\<^verbatim>\<open>kernel/cmd/kernel/main.go\<close>, \<^verbatim>\<open>repricer.go\<close>,
    \<^verbatim>\<open>reconciler.go\<close>): the execution of a claimed attempt, transaction by transaction among other workers, from its
    evidence over the manifest and the mark to the one call of the broker and the resolution by its answer. In
    \<open>Executor\<close> the capture of facts is an argument; \<open>Judged_Execution\<close> puts \<open>captureLivePreEffect\<close> there.
  \<^item> \<open>Reconciliation\<close>, \<open>Decisions\<close> (\<^verbatim>\<open>store/broker_reconciliation.go\<close>, \<^verbatim>\<open>broker_observations.go\<close>): the ledger is
    reconciled with a complete observation of the account. What others closed is taken from the tracked lots, first in
    first out; work decided before is invalidated; nothing is touched while an effect may be in flight. A close or
    cancel is decided on a snapshot that was reconciled first.
  \<^item> \<open>Canary\<close> (\<^verbatim>\<open>store/live_canary.go\<close>, \<^verbatim>\<open>kernel/cmd/kernel/canary.go\<close>): the authority that caps the risk granted to live
    trading on a market day: its audited revisions, how they change, and the refusal of opens beyond it.
  \<^item> \<open>Admission_Store\<close>, \<open>Admission\<close>, \<open>Admitted\<close> (\<^verbatim>\<open>store/store.go\<close>, \<^verbatim>\<open>entitlements.go\<close>, \<^verbatim>\<open>exposure.go\<close>,
    \<^verbatim>\<open>external_control.go\<close>, \<open>propose\<close> in \<^verbatim>\<open>kernel/cmd/kernel/main.go\<close>): the transaction that admits an operation. It
    replays a known request, derives and judges an open on the day's state, decides a close on the position, asks the
    canary and the live gate, and writes the operation, grant, reservation, attempt and order. \<open>Admitted\<close> proves that what is
    staged passes the executor's check, stays in the account, policy, canary and position, and keeps the
    invariants the rest of the library assumes.
  \<^item> \<open>Review\<close> (\<open>review\<close>, \<open>stageApprovedOpen\<close> in \<^verbatim>\<open>kernel/cmd/kernel/main.go\<close>): the human review of a class C open.
    An approval is of what was proposed, passes both the bound and the active policy on the account of now, keeps the
    canary's cap, and stages an attempt the executor accepts; an operation is settled once.
  \<^item> \<open>Requests\<close> (\<open>propose\<close> in \<^verbatim>\<open>kernel/cmd/kernel/main.go\<close>): the request around the admission: the idempotency key and
    the hash of the client's intent, the decision a close or cancel is captured for, the quote; and that a repeated request is
    answered from the first one.
  \<^item> \<open>Recovery\<close>: when an attempt in flight can be taken over and resolved, which frees the gate: the gate lets a new
    worker in, and the rest depends on the attempt's recorded entitlement and reservation alone.

  Conventions. Go's \<open>int64\<close> values are \<open>int\<close> with \<open>wrap64\<close> at every operation that can overflow in the
  source; \<open>big.Int\<close> is \<open>int\<close>. A function that returns an error is a function into \<open>go_error + 'a\<close>.
  A transaction is a function from the rows to an error or new rows: an error rolls back, so the old
  rows remain. Postgres tables are lists of records, an \<open>UPDATE ... WHERE\<close> is \<open>update_rows\<close>, and the
  advisory locks and \<open>FOR UPDATE\<close> of the source, which serialise the transactions, are why each is a
  single step. The clock and fresh identifiers are arguments. Times are kept as they
  are given, but for those of an observation. JSON, YAML and SHA-256 are arguments,
  with what the code relies on as hypotheses where a property needs it. The broker, its account and market reads,
  and everything other workers do between two transactions are arguments too; what others do is only assumed to
  be a run of the kernel's own steps. Nothing needs fuel: every loop of the modelled code runs over a list or to a
  bound, and the repricer's convergence is proved with a measure.

  Not modelled: the decoding and rendering of HTTP requests, other handlers and web pages, OAuth and the Robinhood protocol client, SQL migrations
  and connection handling, the language-model calls of the agent runtime, and test programs.
\<close>

end
